(* ===== verification/Prelude.thy ===== *)
theory Prelude
  imports Complex_Main "HOL-Library.Word" "HOL-Library.Signed_Division"
begin

unbundle bit_operations_syntax

text \<open>
  Shared vocabulary of the development: the C and Objective-C machine types under the
  names the sources use, C's truncating conversions, the collections of rewrite rules the
  component theories fill, arrays of 32-bit words used as bit sets, and the scheduler state
  a component object lives in while blocks are posted to the SPICE main context.
\<close>

section \<open>Machine types\<close>

type_synonym guint8 = "8 word"
type_synonym guint16 = "16 word"
type_synonym guint32 = "32 word"
type_synonym guint64 = "64 word"
type_synonym nsuint = "64 word"

text \<open>
  A \<open>CGFloat\<close> is modelled by a rational: every operation the sources perform on one (adding
  or subtracting one, halving a pixel count, comparing) is exact on doubles below \<open>2 ^ 52\<close>.
\<close>

type_synonym cgfloat = rat

text \<open>Objects are handled through references; \<open>None\<close> is \<open>nil\<close> or \<open>NULL\<close>.\<close>

type_synonym objref = nat

text \<open>C's conversion of a floating value to an integer drops the fraction.\<close>

definition c_trunc :: "cgfloat \<Rightarrow> int" where
  "c_trunc r = (if r < 0 then - \<lfloor>- r\<rfloor> else \<lfloor>r\<rfloor>)"

text \<open>
  Outcome of a method: a result, the early return of a failed \<open>g_return_if_fail\<close>, the abort of a
  failed \<open>g_assert\<close>, or arithmetic C leaves undefined.
\<close>

datatype 'a outcome = Done 'a | CriticalReturn | AssertionFailure | UndefinedBehaviour

primrec outcome_list :: "'a list outcome \<Rightarrow> 'a list" where
  "outcome_list (Done xs) = xs"
| "outcome_list CriticalReturn = []"
| "outcome_list AssertionFailure = []"
| "outcome_list UndefinedBehaviour = []"

text \<open>
  One step of a method and then another: each returns the new state and the effects it has on
  the outside, in order.
\<close>

definition then_do :: "('s \<Rightarrow> 's \<times> 'e list) \<Rightarrow> ('s \<Rightarrow> 's \<times> 'e list) \<Rightarrow> 's \<Rightarrow> 's \<times> 'e list" where
  "then_do f g s = (let (s1, e1) = f s; (s2, e2) = g s1 in (s2, e1 @ e2))"

definition assign :: "('s \<Rightarrow> 's) \<Rightarrow> 's \<Rightarrow> 's \<times> 'e list" where
  "assign f s = (f s, [])"

lemma then_do_simps [simp]:
  "fst (then_do f g s) = fst (g (fst (f s)))"
  "snd (then_do f g s) = snd (f s) @ snd (g (fst (f s)))"
  by (simp_all add: then_do_def split_beta)

lemma assign_simps [simp]: "fst (assign f s) = f s" "snd (assign f s) = []"
  by (simp_all add: assign_def)

section \<open>Rule collections\<close>

named_theorems step_simps \<open>what one handler or block does to the state\<close>
named_theorems inv_intros \<open>operations keep the invariants\<close>
named_theorems bits_simps \<open>reading bit arrays after an update\<close>

section \<open>Lists\<close>

lemma drop_append_keep_last:
  "drop (length (xs @ ys) - n) (xs @ ys) = drop (length (drop (length xs - n) xs @ ys) - n)
     (drop (length xs - n) xs @ ys)"
proof (cases "length xs \<le> n")
  case True
  then show ?thesis by simp
next
  case False
  then show ?thesis by (simp add: drop_drop add.commute)
qed

lemma fold_append_snd:
  "snd (fold (\<lambda>x (s, out). (f x s, out @ g x s)) xs (s, out)) =
     out @ snd (fold (\<lambda>x (s, out). (f x s, out @ g x s)) xs (s, []))"
proof (induction xs arbitrary: s out)
  case Nil
  show ?case by simp
next
  case (Cons x xs)
  have "snd (fold (\<lambda>x (s, out). (f x s, out @ g x s)) xs (f x s, out @ g x s)) =
      out @ g x s @ snd (fold (\<lambda>x (s, out). (f x s, out @ g x s)) xs (f x s, []))"
    by (subst Cons.IH) simp
  moreover have "snd (fold (\<lambda>x (s, out). (f x s, out @ g x s)) xs (f x s, g x s)) =
      g x s @ snd (fold (\<lambda>x (s, out). (f x s, out @ g x s)) xs (f x s, []))"
    by (subst Cons.IH) simp
  ultimately show ?case by simp
qed

section \<open>Arrays of words as bit sets\<close>

text \<open>
  The contract of a bit set: which positions exist, reading one, setting one and clearing
  one. A client that records events in such a set reads back the last event per position.
\<close>

datatype mark_event = Mark nat | Unmark nat

primrec track :: "mark_event \<Rightarrow> nat set \<Rightarrow> nat set" where
  "track (Mark n) A = insert n A"
| "track (Unmark n) A = A - {n}"

locale bitmap_set =
  fixes size_of :: "'s \<Rightarrow> nat"
    and test :: "'s \<Rightarrow> nat \<Rightarrow> bool"
    and mark :: "nat \<Rightarrow> 's \<Rightarrow> 's"
    and unmark :: "nat \<Rightarrow> 's \<Rightarrow> 's"
  assumes size_mark: "size_of (mark n s) = size_of s"
    and size_unmark: "size_of (unmark n s) = size_of s"
    and test_mark: "n < size_of s \<Longrightarrow> k < size_of s \<Longrightarrow> test (mark n s) k \<longleftrightarrow> k = n \<or> test s k"
    and test_unmark: "n < size_of s \<Longrightarrow> k < size_of s \<Longrightarrow> test (unmark n s) k \<longleftrightarrow> k \<noteq> n \<and> test s k"
begin

definition members :: "'s \<Rightarrow> nat set" where
  "members s = {n. n < size_of s \<and> test s n}"

primrec apply_event :: "mark_event \<Rightarrow> 's \<Rightarrow> 's" where
  "apply_event (Mark n) s = mark n s"
| "apply_event (Unmark n) s = unmark n s"

primrec in_range :: "nat \<Rightarrow> mark_event \<Rightarrow> bool" where
  "in_range k (Mark n) = (n < k)"
| "in_range k (Unmark n) = (n < k)"

lemma members_mark: "n < size_of s \<Longrightarrow> members (mark n s) = insert n (members s)"
  by (auto simp: members_def size_mark test_mark)

lemma members_unmark: "n < size_of s \<Longrightarrow> members (unmark n s) = members s - {n}"
  by (auto simp: members_def size_unmark test_unmark)

lemma size_apply_event: "size_of (apply_event e s) = size_of s"
  by (cases e) (simp_all add: size_mark size_unmark)

lemma members_apply_event:
  "in_range (size_of s) e \<Longrightarrow> members (apply_event e s) = track e (members s)"
  by (cases e) (simp_all add: members_mark members_unmark)

lemma members_fold_events:
  "list_all (in_range (size_of s)) es \<Longrightarrow>
     members (fold apply_event es s) = fold track es (members s)"
  by (induction es arbitrary: s) (simp_all add: size_apply_event members_apply_event)

end

text \<open>The concrete operations both the key-state array and the agent capabilities use.\<close>

definition words_size :: "guint32 list \<Rightarrow> nat" where
  "words_size ws = 32 * length ws"

definition words_test :: "guint32 list \<Rightarrow> nat \<Rightarrow> bool" where
  "words_test ws n = bit (ws ! (n div 32)) (n mod 32)"

definition words_mark :: "nat \<Rightarrow> guint32 list \<Rightarrow> guint32 list" where
  "words_mark n ws = ws[n div 32 := ws ! (n div 32) OR push_bit (n mod 32) 1]"

definition words_unmark :: "nat \<Rightarrow> guint32 list \<Rightarrow> guint32 list" where
  "words_unmark n ws = ws[n div 32 := ws ! (n div 32) AND NOT (push_bit (n mod 32) 1)]"

lemma bit_power32: "m < 32 \<Longrightarrow> bit ((2 :: guint32) ^ k) m \<longleftrightarrow> m = k"
  by (auto simp: bit_exp_iff)

lemma same_position: "(k::nat) div 32 = n div 32 \<Longrightarrow> k mod 32 = n mod 32 \<Longrightarrow> k = n"
  by (metis div_mult_mod_eq)

lemma words_test_mark [bits_simps]:
  "n < words_size ws \<Longrightarrow> k < words_size ws \<Longrightarrow>
     words_test (words_mark n ws) k \<longleftrightarrow> k = n \<or> words_test ws k"
  by (cases "k div 32 = n div 32")
    (auto simp: words_test_def words_mark_def words_size_def bit_or_iff bit_power32
      nth_list_update dest: same_position)

lemma words_test_unmark [bits_simps]:
  "n < words_size ws \<Longrightarrow> k < words_size ws \<Longrightarrow>
     words_test (words_unmark n ws) k \<longleftrightarrow> k \<noteq> n \<and> words_test ws k"
  by (cases "k div 32 = n div 32")
    (auto simp: words_test_def words_unmark_def words_size_def bit_and_iff bit_not_iff
      bit_power32 nth_list_update dest: same_position)

interpretation word_bits: bitmap_set words_size words_test words_mark words_unmark
  by unfold_locales
    (simp_all add: words_test_mark words_test_unmark, simp_all add: words_size_def
      words_mark_def words_unmark_def)

lemma words_members_mark [bits_simps]:
  "n < words_size ws \<Longrightarrow> word_bits.members (words_mark n ws) = insert n (word_bits.members ws)"
  by (rule word_bits.members_mark)

lemma words_members_unmark [bits_simps]:
  "n < words_size ws \<Longrightarrow> word_bits.members (words_unmark n ws) = word_bits.members ws - {n}"
  by (rule word_bits.members_unmark)

lemma words_size_update [simp]:
  "words_size (words_mark n ws) = words_size ws" "words_size (words_unmark n ws) = words_size ws"
  by (simp_all add: words_size_def words_mark_def words_unmark_def)

lemma length_words_update [simp]:
  "length (words_mark n ws) = length ws" "length (words_unmark n ws) = length ws"
  by (simp_all add: words_mark_def words_unmark_def)

end
