(* ===== verification/Main_Context.thy ===== *)
theory Main_Context
  imports Prelude
begin

text \<open>
  \<^verbatim>\<open>CSMain.m\<close>: the worker thread that owns the SPICE \<open>GMainContext\<close>, the blocks posted to it with
  \<open>asyncWith:\<close> and \<open>syncWith:\<close>, the start and stop of the thread, and the log handler.
  The first part is the scheduler state every wrapper object of the package is placed in
  (\<open>world\<close>): \<open>asyncWith:\<close> runs a block at once on the context thread and queues it elsewhere, as
  \<open>g_main_context_invoke_full\<close> documents. The second part is \<open>CSMain\<close> itself.
\<close>

section \<open>Posting blocks to the context\<close>

record ('s, 'b, 'c) world =
  obj :: 's
  posted :: "'b list"
  calls :: "'c list"

definition new_world :: "'s \<Rightarrow> ('s, 'b, 'c) world" where
  "new_world s = \<lparr>obj = s, posted = [], calls = []\<rparr>"

definition run_now :: "('b \<Rightarrow> 's \<Rightarrow> 's \<times> 'c list) \<Rightarrow> 'b \<Rightarrow> ('s, 'b, 'c) world \<Rightarrow> ('s, 'b, 'c) world" where
  "run_now run b w = (let (s, cs) = run b (obj w) in w\<lparr>obj := s, calls := calls w @ cs\<rparr>)"

definition asyncWith ::
  "('b \<Rightarrow> 's \<Rightarrow> 's \<times> 'c list) \<Rightarrow> bool \<Rightarrow> 'b \<Rightarrow> ('s, 'b, 'c) world \<Rightarrow> ('s, 'b, 'c) world" where
  "asyncWith run on_context b w =
     (if on_context then run_now run b w else w\<lparr>posted := posted w @ [b]\<rparr>)"

definition dispatch :: "('b \<Rightarrow> 's \<Rightarrow> 's \<times> 'c list) \<Rightarrow> ('s, 'b, 'c) world \<Rightarrow> ('s, 'b, 'c) world" where
  "dispatch run w = (case posted w of [] \<Rightarrow> w | b # bs \<Rightarrow> run_now run b (w\<lparr>posted := bs\<rparr>))"

definition drain :: "('b \<Rightarrow> 's \<Rightarrow> 's \<times> 'c list) \<Rightarrow> ('s, 'b, 'c) world \<Rightarrow> ('s, 'b, 'c) world" where
  "drain run w = fold (run_now run) (posted w) (w\<lparr>posted := []\<rparr>)"

lemma new_world_simps [simp]:
  "obj (new_world s) = s" "posted (new_world s) = []" "calls (new_world s) = []"
  by (simp_all add: new_world_def)

lemma run_now_simps [simp]:
  "obj (run_now run b w) = fst (run b (obj w))"
  "posted (run_now run b w) = posted w"
  "calls (run_now run b w) = calls w @ snd (run b (obj w))"
  by (simp_all add: run_now_def split_beta)

lemma asyncWith_simps [simp]:
  "asyncWith run True b w = run_now run b w"
  "asyncWith run False b w = w\<lparr>posted := posted w @ [b]\<rparr>"
  by (simp_all add: asyncWith_def)

lemma fold_async_posted:
  "fold (asyncWith run False) bs w = w\<lparr>posted := posted w @ bs\<rparr>"
  by (induction bs arbitrary: w) simp_all

lemma fold_async_on_context:
  "fold (asyncWith run True) bs w = fold (run_now run) bs w"
  by (induction bs arbitrary: w) simp_all

lemma fold_run_now_posted: "posted (fold (run_now run) bs w) = posted w"
  by (induction bs arbitrary: w) simp_all

lemma dispatch_iterate_drain:
  "(dispatch run ^^ length (posted w)) w = drain run w"
proof (induction "posted w" arbitrary: w)
  case Nil
  then show ?case by (simp add: drain_def)
next
  case (Cons b bs)
  let ?w = "run_now run b (w\<lparr>posted := bs\<rparr>)"
  have next_posted: "posted ?w = bs" by simp
  have "(dispatch run ^^ length (posted w)) w = (dispatch run ^^ length bs) (dispatch run w)"
    using Cons.hyps(2)[symmetric] by (simp add: funpow_swap1)
  also have "dispatch run w = ?w"
    using Cons.hyps(2)[symmetric] by (simp add: dispatch_def)
  also have "(dispatch run ^^ length bs) ?w = drain run ?w"
    using Cons.hyps(1)[of ?w] next_posted by simp
  also have "drain run ?w = drain run w"
    using Cons.hyps(2)[symmetric] by (cases w) (simp add: drain_def run_now_def split_beta)
  finally show ?case .
qed

text \<open>
  The contract between a wrapper and the context: a predicate every block keeps is kept by
  whatever the scheduler does. Each component interprets it for its own blocks.
\<close>

locale context_client =
  fixes run :: "'b \<Rightarrow> 's \<Rightarrow> 's \<times> 'c list"
    and ok_block :: "'b \<Rightarrow> bool"
    and inv :: "'s \<Rightarrow> bool"
  assumes run_inv: "ok_block b \<Longrightarrow> inv s \<Longrightarrow> inv (fst (run b s))"
begin

definition world_ok :: "('s, 'b, 'c) world \<Rightarrow> bool" where
  "world_ok w \<longleftrightarrow> inv (obj w) \<and> list_all ok_block (posted w)"

lemma run_now_ok: "ok_block b \<Longrightarrow> world_ok w \<Longrightarrow> world_ok (run_now run b w)"
  by (simp add: world_ok_def run_inv)

lemma async_ok: "ok_block b \<Longrightarrow> world_ok w \<Longrightarrow> world_ok (asyncWith run on_context b w)"
  by (cases on_context) (simp_all add: run_now_ok, simp add: world_ok_def)

lemma dispatch_ok: "world_ok w \<Longrightarrow> world_ok (dispatch run w)"
  by (auto simp: dispatch_def world_ok_def run_inv split: list.split)

lemma fold_run_ok: "list_all ok_block bs \<Longrightarrow> world_ok w \<Longrightarrow> world_ok (fold (run_now run) bs w)"
  by (induction bs arbitrary: w) (simp_all add: run_now_ok)

lemma drain_ok: "world_ok w \<Longrightarrow> world_ok (drain run w)"
  unfolding drain_def by (rule fold_run_ok) (simp_all add: world_ok_def)

lemma drain_posted: "posted (drain run w) = []"
  by (simp add: drain_def fold_run_now_posted)

end

section \<open>The worker thread\<close>

text \<open>
  A source of the context: its priority, the user block it runs and the dispatch group
  \<open>cleanupBlock\<close> leaves. \<open>executed\<close> and \<open>groups_left\<close> record what has happened;
  \<open>retained\<close> counts the +1 references on \<open>self\<close> handed out with \<open>__bridge_retained\<close>.
\<close>

datatype 'b source = Source (src_priority: int) (src_block: 'b) (src_group: "nat option")

record 'b cs_main =
  running :: bool
  spiceThread :: "objref option"
  loop_quit :: bool
  util_context :: bool
  sources :: "'b source list"
  executed :: "'b list"
  groups_left :: "nat list"
  retained :: nat

definition G_PRIORITY_DEFAULT :: int where "G_PRIORITY_DEFAULT = 0"
definition G_PRIORITY_HIGH :: int where "G_PRIORITY_HIGH = -100"

text \<open>\<open>g_main_context_new\<close> may return \<open>NULL\<close>, and then \<open>init\<close> returns \<open>nil\<close>.\<close>

definition cs_main_init :: "bool \<Rightarrow> 'b cs_main option" where
  "cs_main_init context_created =
     (if context_created
      then Some \<lparr>running = False, spiceThread = None, loop_quit = False, util_context = False,
                 sources = [], executed = [], groups_left = [], retained = 0\<rparr>
      else None)"

text \<open>
  \<open>thread\<close> is the result of \<open>pthread_create\<close>: \<open>None\<close> when it fails. The retained \<open>self\<close> is
  handed over before the call.
\<close>

definition spiceStart :: "objref option \<Rightarrow> 'b cs_main \<Rightarrow> 'b cs_main \<times> bool" where
  "spiceStart thread m =
     (if \<not> running m then
        (let m' = m\<lparr>loop_quit := False, util_context := True, retained := retained m + 1\<rparr>
         in case thread of
              None \<Rightarrow> (m', False)
            | Some t \<Rightarrow> (m'\<lparr>running := True, spiceThread := Some t\<rparr>, True))
      else (m, True))"

text \<open>The joined thread drops the reference \<open>spice_main_loop\<close> took over.\<close>

definition spiceStop :: "'b cs_main \<Rightarrow> 'b cs_main" where
  "spiceStop m =
     (if running m
      then m\<lparr>util_context := False, loop_quit := True, retained := retained m - 1,
             running := False, spiceThread := None\<rparr>
      else m)"

text \<open>
  \<open>g_main_context_invoke_full\<close> attaches an idle source; the context dispatches sources of a
  higher priority (a smaller number) first and equal priorities in the order attached.
\<close>

fun attach :: "'b source \<Rightarrow> 'b source list \<Rightarrow> 'b source list" where
  "attach s [] = [s]"
| "attach s (t # ts) =
     (if src_priority s < src_priority t then s # t # ts else t # attach s ts)"

primrec leave_group :: "nat option \<Rightarrow> nat list \<Rightarrow> nat list" where
  "leave_group None gs = gs"
| "leave_group (Some g) gs = gs @ [g]"

text \<open>\<open>callBlockInMainContext\<close> followed by \<open>cleanupBlock\<close>.\<close>

definition run_source :: "'b source \<Rightarrow> 'b cs_main \<Rightarrow> 'b cs_main" where
  "run_source s m =
     m\<lparr>executed := executed m @ [src_block s], groups_left := leave_group (src_group s) (groups_left m)\<rparr>"

definition invoke_full :: "bool \<Rightarrow> 'b source \<Rightarrow> 'b cs_main \<Rightarrow> 'b cs_main" where
  "invoke_full on_context s m =
     (if on_context then run_source s m else m\<lparr>sources := attach s (sources m)\<rparr>)"

definition asyncWithBlock :: "bool \<Rightarrow> 'b \<Rightarrow> nat option \<Rightarrow> 'b cs_main \<Rightarrow> 'b cs_main" where
  "asyncWithBlock on_context b g m = invoke_full on_context (Source G_PRIORITY_DEFAULT b g) m"

definition main_asyncWith :: "bool \<Rightarrow> 'b \<Rightarrow> 'b cs_main \<Rightarrow> 'b cs_main" where
  "main_asyncWith on_context b m = asyncWithBlock on_context b None m"

text \<open>
  \<open>syncWith:\<close> up to the wait: on the context thread the block runs directly, elsewhere it is
  posted with a fresh dispatch group \<open>g\<close>. \<open>sync_returned\<close> is the condition the caller waits for.
\<close>

definition main_syncWith :: "bool \<Rightarrow> nat \<Rightarrow> 'b \<Rightarrow> 'b cs_main \<Rightarrow> 'b cs_main" where
  "main_syncWith on_context g b m =
     (if on_context then m\<lparr>executed := executed m @ [b]\<rparr>
      else asyncWithBlock on_context b (Some g) m)"

definition sync_returned :: "bool \<Rightarrow> nat \<Rightarrow> 'b cs_main \<Rightarrow> bool" where
  "sync_returned on_context g m \<longleftrightarrow> on_context \<or> g \<in> set (groups_left m)"

text \<open>One dispatch of the loop in \<open>spice_main_loop\<close>; after \<open>_loop_quit\<close> is set nothing runs.\<close>

definition loop_dispatch :: "'b cs_main \<Rightarrow> 'b cs_main" where
  "loop_dispatch m =
     (if running m \<and> \<not> loop_quit m
      then (case sources m of [] \<Rightarrow> m | s # ss \<Rightarrow> run_source s (m\<lparr>sources := ss\<rparr>))
      else m)"

definition cs_main_ok :: "'b cs_main \<Rightarrow> bool" where
  "cs_main_ok m \<longleftrightarrow>
     sorted_wrt (\<le>) (map src_priority (sources m)) \<and>
     (running m \<longleftrightarrow> spiceThread m \<noteq> None) \<and> (running m \<longrightarrow> \<not> loop_quit m \<and> util_context m \<and> 0 < retained m)"

lemma set_attach [simp]: "set (attach s ss) = insert s (set ss)"
  by (induction ss) auto

lemma length_attach [simp]: "length (attach s ss) = Suc (length ss)"
  by (induction ss) auto

lemma sorted_attach:
  "sorted_wrt (\<le>) (map src_priority ss) \<Longrightarrow> sorted_wrt (\<le>) (map src_priority (attach s ss))"
  by (induction ss) (auto simp: order_trans)

lemma attach_filter_same:
  "sorted_wrt (\<le>) (map src_priority ss) \<Longrightarrow>
     filter (\<lambda>t. src_priority t = p) (attach s ss) =
       filter (\<lambda>t. src_priority t = p) ss @ (if src_priority s = p then [s] else [])"
proof (induction ss)
  case Nil
  show ?case by simp
next
  case (Cons t ts)
  show ?case
  proof (cases "src_priority s < src_priority t")
    case True
    then have "filter (\<lambda>t. src_priority t = src_priority s) (t # ts) = []"
      using Cons.prems by (auto simp: filter_empty_conv)
    with True show ?thesis by auto
  next
    case False
    with Cons show ?thesis by simp
  qed
qed

lemma attach_default_last:
  "list_all (\<lambda>t. src_priority t \<le> src_priority s) ss \<Longrightarrow> attach s ss = ss @ [s]"
  by (induction ss) auto

lemma cs_main_ok_init: "cs_main_init True = Some m \<Longrightarrow> cs_main_ok m"
  by (auto simp: cs_main_init_def cs_main_ok_def)

lemma cs_main_ok_start [inv_intros]: "cs_main_ok m \<Longrightarrow> cs_main_ok (fst (spiceStart t m))"
  by (auto simp: cs_main_ok_def spiceStart_def Let_def split: option.split)

lemma cs_main_ok_stop [inv_intros]: "cs_main_ok m \<Longrightarrow> cs_main_ok (spiceStop m)"
  by (auto simp: cs_main_ok_def spiceStop_def)

lemma cs_main_ok_invoke [inv_intros]: "cs_main_ok m \<Longrightarrow> cs_main_ok (invoke_full c s m)"
  by (auto simp: cs_main_ok_def invoke_full_def run_source_def sorted_attach)

lemma cs_main_ok_dispatch [inv_intros]: "cs_main_ok m \<Longrightarrow> cs_main_ok (loop_dispatch m)"
  by (auto simp: cs_main_ok_def loop_dispatch_def run_source_def split: list.split)

lemma loop_dispatch_frame [simp]:
  "running (loop_dispatch m) = running m" "loop_quit (loop_dispatch m) = loop_quit m"
  "sources (loop_dispatch m) = (if running m \<and> \<not> loop_quit m then tl (sources m) else sources m)"
  by (simp_all add: loop_dispatch_def run_source_def split: list.split)

lemma stopped_loop_idle:
  "\<not> running m \<Longrightarrow> (loop_dispatch ^^ n) m = m"
  by (induction n) (simp_all add: loop_dispatch_def)

section \<open>Log handler\<close>

datatype log_level = LvError | LvCritical | LvWarning | LvMessage | LvInfo | LvDebug | LvUnknown

text \<open>The levels in the order of severity the handler tests them in.\<close>

primrec severity :: "log_level \<Rightarrow> nat" where
  "severity LvError = 0"
| "severity LvCritical = 1"
| "severity LvWarning = 2"
| "severity LvMessage = 3"
| "severity LvInfo = 4"
| "severity LvDebug = 5"
| "severity LvUnknown = 6"

lemma severity_inj: "severity a = severity b \<longleftrightarrow> a = b"
  by (cases a; cases b) simp_all

instantiation log_level :: linorder
begin

definition less_eq_log_level :: "log_level \<Rightarrow> log_level \<Rightarrow> bool" where
  "less_eq_log_level a b \<longleftrightarrow> severity a \<le> severity b"

definition less_log_level :: "log_level \<Rightarrow> log_level \<Rightarrow> bool" where
  "less_log_level a b \<longleftrightarrow> severity a < severity b"

instance
  by standard (auto simp: less_eq_log_level_def less_log_level_def severity_inj)

end

primrec log_level_bit :: "log_level \<Rightarrow> nat" where
  "log_level_bit LvError = 2"
| "log_level_bit LvCritical = 3"
| "log_level_bit LvWarning = 4"
| "log_level_bit LvMessage = 5"
| "log_level_bit LvInfo = 6"
| "log_level_bit LvDebug = 7"
| "log_level_bit LvUnknown = 8"

definition has_level :: "guint32 \<Rightarrow> log_level \<Rightarrow> bool" where
  "has_level flags l \<longleftrightarrow> flags AND push_bit (log_level_bit l) 1 \<noteq> 0"

text \<open>\<open>logHandler\<close>: \<open>None\<close> when the message is dropped, else the level printed in the line.\<close>

definition logHandler :: "bool \<Rightarrow> guint32 \<Rightarrow> log_level option" where
  "logHandler debug_on flags =
     (if \<not> debug_on \<and> flags AND (push_bit 6 1 OR push_bit 7 1) \<noteq> 0 then None
      else Some (if has_level flags LvError then LvError
        else if has_level flags LvCritical then LvCritical
        else if has_level flags LvWarning then LvWarning
        else if has_level flags LvMessage then LvMessage
        else if has_level flags LvInfo then LvInfo
        else if has_level flags LvDebug then LvDebug
        else LvUnknown))"

lemma has_level_bit: "has_level flags l \<longleftrightarrow> bit flags (log_level_bit l)"
  by (simp add: has_level_def bit_iff_and_push_bit_not_eq_0)

section \<open>Lifetime of the worker\<close>

text \<open>
  Everything a client can do with the shared instance, counting the calls of \<open>spiceStart\<close> whose
  \<open>pthread_create\<close> failed.
\<close>

inductive main_reach :: "nat \<Rightarrow> 'b cs_main \<Rightarrow> bool" where
  init: "cs_main_init True = Some m \<Longrightarrow> main_reach 0 m"
| start: "main_reach k m \<Longrightarrow>
    main_reach (if \<not> running m \<and> thread = None then Suc k else k) (fst (spiceStart thread m))"
| stop: "main_reach k m \<Longrightarrow> main_reach k (spiceStop m)"
| async: "main_reach k m \<Longrightarrow> main_reach k (main_asyncWith c b m)"
| sync: "main_reach k m \<Longrightarrow> main_reach k (main_syncWith c g b m)"
| loop: "main_reach k m \<Longrightarrow> main_reach k (loop_dispatch m)"

lemma retained_frame [simp]:
  "retained (invoke_full c s m) = retained m" "running (invoke_full c s m) = running m"
  "retained (loop_dispatch m) = retained m"
  by (simp_all add: invoke_full_def run_source_def loop_dispatch_def split: list.split)

lemma cs_main_ok_sync [inv_intros]: "cs_main_ok m \<Longrightarrow> cs_main_ok (main_syncWith c g b m)"
  by (auto simp: main_syncWith_def asyncWithBlock_def cs_main_ok_invoke) (simp add: cs_main_ok_def)

lemma main_reach_ok: "main_reach k m \<Longrightarrow> cs_main_ok m"
  by (induction rule: main_reach.induct)
    (auto intro!: inv_intros intro: cs_main_ok_init simp: main_asyncWith_def asyncWithBlock_def)

text \<open>
  C31. In every reachable state the worker is running exactly when a thread is recorded, the
  quit flag is then clear and the utility context set, pending sources are ordered by
  priority, and the references handed to worker threads are one for a running worker plus one
  that is never returned for every failed start.
\<close>

theorem main_lifetime:
  assumes "main_reach k m"
  shows "cs_main_ok m \<and> retained m = (if running m then 1 else 0) + k"
proof
  show "cs_main_ok m" using assms by (rule main_reach_ok)
  show "retained m = (if running m then 1 else 0) + k" using assms
    by (induction rule: main_reach.induct)
      (auto simp: cs_main_init_def spiceStart_def spiceStop_def Let_def main_asyncWith_def main_syncWith_def
        asyncWithBlock_def split: option.splits if_splits)
qed

theorem main_lifetime_witness:
  "retained (fst (spiceStart (Some 7) (fst (spiceStart None
     \<lparr>running = False, spiceThread = None, loop_quit = False, util_context = False,
      sources = [] :: nat source list, executed = [], groups_left = [], retained = 0\<rparr>)))) = 2"
proof -
  let ?m = "\<lparr>running = False, spiceThread = None, loop_quit = False, util_context = False,
    sources = [] :: nat source list, executed = [], groups_left = [], retained = 0\<rparr>"
  have "main_reach 0 ?m" by (rule main_reach.init) (simp add: cs_main_init_def)
  then have "main_reach (Suc 0) (fst (spiceStart None ?m))"
    using main_reach.start[of 0 ?m None] by simp
  then have "main_reach (Suc 0) (fst (spiceStart (Some 7) (fst (spiceStart None ?m))))"
    using main_reach.start[of "Suc 0" "fst (spiceStart None ?m)" "Some 7"] by simp
  from main_lifetime[OF this] show ?thesis by (simp add: spiceStart_def)
qed

section \<open>Waiting for a block\<close>

lemma loop_dispatch_take:
  assumes "running m" and "\<not> loop_quit m" and "n \<le> length (sources m)"
  shows "(loop_dispatch ^^ n) m =
    m\<lparr>sources := drop n (sources m), executed := executed m @ map src_block (take n (sources m)),
      groups_left := fold (\<lambda>s. leave_group (src_group s)) (take n (sources m)) (groups_left m)\<rparr>"
  using assms
proof (induction n arbitrary: m)
  case 0
  then show ?case by simp
next
  case (Suc n)
  then obtain s ss where ss: "sources m = s # ss" by (cases "sources m") auto
  then have "loop_dispatch m = run_source s (m\<lparr>sources := ss\<rparr>)"
    using Suc.prems by (simp add: loop_dispatch_def)
  with Suc.IH[of "loop_dispatch m"] Suc.prems ss show ?case
    by (simp add: funpow_swap1 run_source_def)
qed

lemma set_leave_groups:
  "set (fold (\<lambda>s. leave_group (src_group s)) ss gs) = set gs \<union> {g. Some g \<in> src_group ` set ss}"
proof (induction ss arbitrary: gs)
  case (Cons s ss)
  then show ?case by (cases "src_group s") auto
qed simp

text \<open>
  C13. \<open>syncWith:\<close> from another thread returns, and exactly when its block has run: while the loop
  runs and only sources of default or higher priority are pending, the blocks posted before
  run first, in order, then this one, and its group is left only with that dispatch.
\<close>

theorem syncWith_returns:
  assumes "running m" and "\<not> loop_quit m" and "g \<notin> set (groups_left m)"
    and "list_all (\<lambda>s. src_priority s \<le> G_PRIORITY_DEFAULT \<and> src_group s \<noteq> Some g) (sources m)"
  shows "executed ((loop_dispatch ^^ Suc (length (sources m))) (main_syncWith False g b m)) =
      executed m @ map src_block (sources m) @ [b] \<and>
    sync_returned False g ((loop_dispatch ^^ Suc (length (sources m))) (main_syncWith False g b m)) \<and>
    \<not> sync_returned False g ((loop_dispatch ^^ length (sources m)) (main_syncWith False g b m))"
proof -
  let ?s = "Source G_PRIORITY_DEFAULT b (Some g)" and ?m = "main_syncWith False g b m"
  have m': "?m = m\<lparr>sources := sources m @ [?s]\<rparr>"
    using assms(4) attach_default_last[of ?s "sources m"]
    by (simp add: main_syncWith_def asyncWithBlock_def invoke_full_def list_all_iff)
  have fresh: "g \<notin> set (fold (\<lambda>s. leave_group (src_group s)) (sources m) (groups_left m))"
    using assms(3,4) by (auto simp: set_leave_groups list_all_iff)
  have run: "running ?m" "\<not> loop_quit ?m" "length (sources ?m) = Suc (length (sources m))"
    using assms(1,2) by (simp_all add: m')
  have "groups_left ((loop_dispatch ^^ length (sources m)) ?m) =
      fold (\<lambda>s. leave_group (src_group s)) (sources m) (groups_left m)"
    using run by (subst loop_dispatch_take) (simp_all add: m')
  moreover have "groups_left ((loop_dispatch ^^ Suc (length (sources m))) ?m) =
      fold (\<lambda>s. leave_group (src_group s)) (sources m @ [?s]) (groups_left m)"
    using run by (subst loop_dispatch_take) (simp_all add: m')
  moreover have "executed ((loop_dispatch ^^ Suc (length (sources m))) ?m) =
      executed m @ map src_block (sources m) @ [b]"
    using run by (subst loop_dispatch_take) (simp_all add: m')
  ultimately show ?thesis using fresh by (simp add: sync_returned_def del: funpow.simps)
qed

theorem syncWith_returns_witness:
  "sync_returned False 3 ((loop_dispatch ^^ Suc 1) (main_syncWith False 3 (8::nat)
     \<lparr>running = True, spiceThread = Some 1, loop_quit = False, util_context = True,
      sources = [Source 0 5 None], executed = [], groups_left = [], retained = 1\<rparr>))"
  using syncWith_returns[of "\<lparr>running = True, spiceThread = Some 1, loop_quit = False,
      util_context = True, sources = [Source 0 5 None], executed = [], groups_left = [], retained = 1\<rparr>" 3 "8 :: nat"]
  by (simp add: G_PRIORITY_DEFAULT_def del: funpow.simps)

text \<open>
  If the worker is not running, no dispatch ever makes \<open>syncWith:\<close> from another thread
  return: the block stays queued and the caller waits forever.
\<close>

theorem syncWith_stopped_waits:
  assumes "\<not> running m" and "g \<notin> set (groups_left m)"
  shows "\<not> sync_returned False g ((loop_dispatch ^^ n) (main_syncWith False g b m)) \<and>
    b \<in> set (map src_block (sources ((loop_dispatch ^^ n) (main_syncWith False g b m))))"
  using assms
  by (simp add: stopped_loop_idle main_syncWith_def asyncWithBlock_def invoke_full_def sync_returned_def)

theorem syncWith_stopped_waits_witness:
  "\<not> sync_returned False 3 ((loop_dispatch ^^ 5) (main_syncWith False 3 (8::nat)
     \<lparr>running = False, spiceThread = None, loop_quit = False, util_context = False,
      sources = [], executed = [], groups_left = [], retained = 0\<rparr>))"
  by (rule conjunct1[OF syncWith_stopped_waits]) simp_all

section \<open>Levels of the log handler\<close>

lemma log_level_finite: "finite (A :: log_level set)"
proof (rule finite_subset)
  show "A \<subseteq> set [LvError, LvCritical, LvWarning, LvMessage, LvInfo, LvDebug, LvUnknown]"
    by (auto, metis log_level.exhaust)
qed simp

lemma Min_level:
  assumes "l = LvUnknown \<or> has_level flags l" and "\<And>k. has_level flags k \<Longrightarrow> severity l \<le> severity k"
    and "severity l \<le> severity LvUnknown"
  shows "Min (insert LvUnknown {l. has_level flags l}) = l"
  using assms by (intro Min_eqI) (auto simp: less_eq_log_level_def log_level_finite)

lemma info_or_debug:
  "flags AND (push_bit 6 1 OR push_bit 7 1) \<noteq> 0 \<longleftrightarrow> has_level flags LvInfo \<or> has_level flags LvDebug"
  unfolding has_level_def log_level_bit.simps bit.conj_disj_distrib by (simp add: or_eq_0_iff)

lemma severity_order:
  "severity LvError \<le> severity k" "k \<noteq> LvError \<Longrightarrow> severity LvCritical \<le> severity k"
  "k \<notin> {LvError, LvCritical} \<Longrightarrow> severity LvWarning \<le> severity k"
  "k \<notin> {LvError, LvCritical, LvWarning} \<Longrightarrow> severity LvMessage \<le> severity k"
  "k \<notin> {LvError, LvCritical, LvWarning, LvMessage} \<Longrightarrow> severity LvInfo \<le> severity k"
  "k \<notin> {LvError, LvCritical, LvWarning, LvMessage, LvInfo} \<Longrightarrow> severity LvDebug \<le> severity k"
  "k \<notin> {LvError, LvCritical, LvWarning, LvMessage, LvInfo, LvDebug} \<Longrightarrow> severity LvUnknown \<le> severity k"
  by (cases k; simp)+

text \<open>
  A message with an info or debug bit is dropped unless debugging is on, whatever other
  bits it has; any other is printed under the most severe level among its bits.
\<close>

theorem logHandler_most_severe:
  "logHandler debug_on flags =
    (if \<not> debug_on \<and> (has_level flags LvInfo \<or> has_level flags LvDebug) then None
     else Some (Min (insert LvUnknown {l. has_level flags l})))"
  unfolding logHandler_def info_or_debug
  by (simp, safe; (rule Min_level[symmetric]; (simp; fail)?, (rule severity_order; blast)?))
end
