(* ===== verification/Wire.thy ===== *)
theory Wire
  imports Prelude
begin

text \<open>
  The SPICE protocol vocabulary the wrappers exchange with the client library: the
  enumerations of \<^verbatim>\<open>spice/enums.h\<close>, \<^verbatim>\<open>spice-channel.h\<close> and \<^verbatim>\<open>spice/vd_agent.h\<close> as datatypes with
  the numbers the headers give them, the flag sets as words, and the agent capability bits.
\<close>

section \<open>Enumerations with their numbers\<close>

text \<open>
  A wire enumeration is a finite type with distinct numbers. Decoding looks a number up
  among all enumerators; what is encoded decodes to itself, and nothing else decodes to it.
\<close>

locale enum_code =
  fixes code :: "'e \<Rightarrow> nat" and enumerators :: "'e list"
  assumes distinct_codes: "distinct (map code enumerators)"
    and complete: "e \<in> set enumerators"
begin

definition decode :: "nat \<Rightarrow> 'e option" where
  "decode n = find (\<lambda>e. code e = n) enumerators"

lemma code_inj: "code a = code b \<longleftrightarrow> a = b"
  using distinct_codes complete by (auto simp: distinct_map inj_on_def)

lemma decode_code: "decode (code e) = Some e"
  unfolding decode_def
proof (cases "find (\<lambda>e'. code e' = code e) enumerators")
  case None
  with complete[of e] show "find (\<lambda>e'. code e' = code e) enumerators = Some e"
    by (auto simp: find_None_iff)
next
  case (Some e')
  then have "code e' = code e" by (auto simp: find_Some_iff)
  with Some show "find (\<lambda>e'. code e' = code e) enumerators = Some e"
    by (simp add: code_inj)
qed

lemma decode_Some: "decode n = Some e \<longleftrightarrow> code e = n"
  using decode_code[of e] by (auto simp: decode_def find_Some_iff)

end

datatype SpiceMouseMode = SPICE_MOUSE_MODE_SERVER | SPICE_MOUSE_MODE_CLIENT

primrec mouse_mode_code :: "SpiceMouseMode \<Rightarrow> nat" where
  "mouse_mode_code SPICE_MOUSE_MODE_SERVER = 1"
| "mouse_mode_code SPICE_MOUSE_MODE_CLIENT = 2"

interpretation mouse_mode: enum_code mouse_mode_code
  "[SPICE_MOUSE_MODE_SERVER, SPICE_MOUSE_MODE_CLIENT]"
proof
  fix e show "e \<in> set [SPICE_MOUSE_MODE_SERVER, SPICE_MOUSE_MODE_CLIENT]" by (cases e) simp_all
qed simp

datatype SpiceSurfaceFmt = SPICE_SURFACE_FMT_INVALID | SPICE_SURFACE_FMT_1_A
  | SPICE_SURFACE_FMT_8_A | SPICE_SURFACE_FMT_16_555 | SPICE_SURFACE_FMT_32_xRGB
  | SPICE_SURFACE_FMT_16_565 | SPICE_SURFACE_FMT_32_ARGB

primrec surface_fmt_code :: "SpiceSurfaceFmt \<Rightarrow> nat" where
  "surface_fmt_code SPICE_SURFACE_FMT_INVALID = 0"
| "surface_fmt_code SPICE_SURFACE_FMT_1_A = 1"
| "surface_fmt_code SPICE_SURFACE_FMT_8_A = 8"
| "surface_fmt_code SPICE_SURFACE_FMT_16_555 = 16"
| "surface_fmt_code SPICE_SURFACE_FMT_32_xRGB = 32"
| "surface_fmt_code SPICE_SURFACE_FMT_16_565 = 80"
| "surface_fmt_code SPICE_SURFACE_FMT_32_ARGB = 96"

definition surface_fmts :: "SpiceSurfaceFmt list" where
  "surface_fmts = [SPICE_SURFACE_FMT_INVALID, SPICE_SURFACE_FMT_1_A, SPICE_SURFACE_FMT_8_A,
     SPICE_SURFACE_FMT_16_555, SPICE_SURFACE_FMT_32_xRGB, SPICE_SURFACE_FMT_16_565,
     SPICE_SURFACE_FMT_32_ARGB]"

interpretation surface_fmt: enum_code surface_fmt_code surface_fmts
proof
  fix e show "e \<in> set surface_fmts" by (cases e) (simp_all add: surface_fmts_def)
qed (simp add: surface_fmts_def)

datatype SpiceAudioFmt = SPICE_AUDIO_FMT_INVALID | SPICE_AUDIO_FMT_S16

primrec audio_fmt_code :: "SpiceAudioFmt \<Rightarrow> nat" where
  "audio_fmt_code SPICE_AUDIO_FMT_INVALID = 0"
| "audio_fmt_code SPICE_AUDIO_FMT_S16 = 1"

interpretation audio_fmt: enum_code audio_fmt_code "[SPICE_AUDIO_FMT_INVALID, SPICE_AUDIO_FMT_S16]"
proof
  fix e show "e \<in> set [SPICE_AUDIO_FMT_INVALID, SPICE_AUDIO_FMT_S16]" by (cases e) simp_all
qed simp

datatype spice_channel_type = SPICE_CHANNEL_MAIN | SPICE_CHANNEL_DISPLAY | SPICE_CHANNEL_INPUTS
  | SPICE_CHANNEL_CURSOR | SPICE_CHANNEL_PLAYBACK | SPICE_CHANNEL_RECORD | SPICE_CHANNEL_TUNNEL
  | SPICE_CHANNEL_SMARTCARD | SPICE_CHANNEL_USBREDIR | SPICE_CHANNEL_PORT | SPICE_CHANNEL_WEBDAV

primrec channel_type_code :: "spice_channel_type \<Rightarrow> nat" where
  "channel_type_code SPICE_CHANNEL_MAIN = 1"
| "channel_type_code SPICE_CHANNEL_DISPLAY = 2"
| "channel_type_code SPICE_CHANNEL_INPUTS = 3"
| "channel_type_code SPICE_CHANNEL_CURSOR = 4"
| "channel_type_code SPICE_CHANNEL_PLAYBACK = 5"
| "channel_type_code SPICE_CHANNEL_RECORD = 6"
| "channel_type_code SPICE_CHANNEL_TUNNEL = 7"
| "channel_type_code SPICE_CHANNEL_SMARTCARD = 8"
| "channel_type_code SPICE_CHANNEL_USBREDIR = 9"
| "channel_type_code SPICE_CHANNEL_PORT = 10"
| "channel_type_code SPICE_CHANNEL_WEBDAV = 11"

definition channel_types :: "spice_channel_type list" where
  "channel_types = [SPICE_CHANNEL_MAIN, SPICE_CHANNEL_DISPLAY, SPICE_CHANNEL_INPUTS,
     SPICE_CHANNEL_CURSOR, SPICE_CHANNEL_PLAYBACK, SPICE_CHANNEL_RECORD, SPICE_CHANNEL_TUNNEL,
     SPICE_CHANNEL_SMARTCARD, SPICE_CHANNEL_USBREDIR, SPICE_CHANNEL_PORT, SPICE_CHANNEL_WEBDAV]"

interpretation channel_type: enum_code channel_type_code channel_types
proof
  fix e show "e \<in> set channel_types" by (cases e) (simp_all add: channel_types_def)
qed (simp add: channel_types_def)

datatype SpiceChannelEvent = SPICE_CHANNEL_NONE | SPICE_CHANNEL_OPENED | SPICE_CHANNEL_SWITCHING
  | SPICE_CHANNEL_CLOSED | SPICE_CHANNEL_ERROR_CONNECT | SPICE_CHANNEL_ERROR_TLS
  | SPICE_CHANNEL_ERROR_LINK | SPICE_CHANNEL_ERROR_AUTH | SPICE_CHANNEL_ERROR_IO

primrec channel_event_code :: "SpiceChannelEvent \<Rightarrow> nat" where
  "channel_event_code SPICE_CHANNEL_NONE = 0"
| "channel_event_code SPICE_CHANNEL_OPENED = 10"
| "channel_event_code SPICE_CHANNEL_SWITCHING = 11"
| "channel_event_code SPICE_CHANNEL_CLOSED = 12"
| "channel_event_code SPICE_CHANNEL_ERROR_CONNECT = 20"
| "channel_event_code SPICE_CHANNEL_ERROR_TLS = 21"
| "channel_event_code SPICE_CHANNEL_ERROR_LINK = 22"
| "channel_event_code SPICE_CHANNEL_ERROR_AUTH = 23"
| "channel_event_code SPICE_CHANNEL_ERROR_IO = 24"

definition channel_events :: "SpiceChannelEvent list" where
  "channel_events = [SPICE_CHANNEL_NONE, SPICE_CHANNEL_OPENED, SPICE_CHANNEL_SWITCHING,
     SPICE_CHANNEL_CLOSED, SPICE_CHANNEL_ERROR_CONNECT, SPICE_CHANNEL_ERROR_TLS,
     SPICE_CHANNEL_ERROR_LINK, SPICE_CHANNEL_ERROR_AUTH, SPICE_CHANNEL_ERROR_IO]"

interpretation channel_event: enum_code channel_event_code channel_events
proof
  fix e show "e \<in> set channel_events" by (cases e) (simp_all add: channel_events_def)
qed (simp add: channel_events_def)

datatype vd_agent_clipboard = VD_AGENT_CLIPBOARD_NONE | VD_AGENT_CLIPBOARD_UTF8_TEXT
  | VD_AGENT_CLIPBOARD_IMAGE_PNG | VD_AGENT_CLIPBOARD_IMAGE_BMP | VD_AGENT_CLIPBOARD_IMAGE_TIFF
  | VD_AGENT_CLIPBOARD_IMAGE_JPG | VD_AGENT_CLIPBOARD_FILE_LIST

primrec clipboard_code :: "vd_agent_clipboard \<Rightarrow> nat" where
  "clipboard_code VD_AGENT_CLIPBOARD_NONE = 0"
| "clipboard_code VD_AGENT_CLIPBOARD_UTF8_TEXT = 1"
| "clipboard_code VD_AGENT_CLIPBOARD_IMAGE_PNG = 2"
| "clipboard_code VD_AGENT_CLIPBOARD_IMAGE_BMP = 3"
| "clipboard_code VD_AGENT_CLIPBOARD_IMAGE_TIFF = 4"
| "clipboard_code VD_AGENT_CLIPBOARD_IMAGE_JPG = 5"
| "clipboard_code VD_AGENT_CLIPBOARD_FILE_LIST = 6"

definition clipboard_types :: "vd_agent_clipboard list" where
  "clipboard_types = [VD_AGENT_CLIPBOARD_NONE, VD_AGENT_CLIPBOARD_UTF8_TEXT,
     VD_AGENT_CLIPBOARD_IMAGE_PNG, VD_AGENT_CLIPBOARD_IMAGE_BMP, VD_AGENT_CLIPBOARD_IMAGE_TIFF,
     VD_AGENT_CLIPBOARD_IMAGE_JPG, VD_AGENT_CLIPBOARD_FILE_LIST]"

interpretation clipboard: enum_code clipboard_code clipboard_types
proof
  fix e show "e \<in> set clipboard_types" by (cases e) (simp_all add: clipboard_types_def)
qed (simp add: clipboard_types_def)

datatype clipboard_selection = VD_AGENT_CLIPBOARD_SELECTION_CLIPBOARD
  | VD_AGENT_CLIPBOARD_SELECTION_PRIMARY | VD_AGENT_CLIPBOARD_SELECTION_SECONDARY

primrec selection_code :: "clipboard_selection \<Rightarrow> nat" where
  "selection_code VD_AGENT_CLIPBOARD_SELECTION_CLIPBOARD = 0"
| "selection_code VD_AGENT_CLIPBOARD_SELECTION_PRIMARY = 1"
| "selection_code VD_AGENT_CLIPBOARD_SELECTION_SECONDARY = 2"

interpretation selection: enum_code selection_code
  "[VD_AGENT_CLIPBOARD_SELECTION_CLIPBOARD, VD_AGENT_CLIPBOARD_SELECTION_PRIMARY,
    VD_AGENT_CLIPBOARD_SELECTION_SECONDARY]"
proof
  fix e show "e \<in> set [VD_AGENT_CLIPBOARD_SELECTION_CLIPBOARD,
    VD_AGENT_CLIPBOARD_SELECTION_PRIMARY, VD_AGENT_CLIPBOARD_SELECTION_SECONDARY]"
    by (cases e) simp_all
qed simp

section \<open>Mouse buttons and keyboard locks\<close>

datatype SpiceMouseButton = SPICE_MOUSE_BUTTON_INVALID | SPICE_MOUSE_BUTTON_LEFT
  | SPICE_MOUSE_BUTTON_MIDDLE | SPICE_MOUSE_BUTTON_RIGHT | SPICE_MOUSE_BUTTON_UP
  | SPICE_MOUSE_BUTTON_DOWN | SPICE_MOUSE_BUTTON_SIDE | SPICE_MOUSE_BUTTON_EXTRA

primrec mouse_button_code :: "SpiceMouseButton \<Rightarrow> nat" where
  "mouse_button_code SPICE_MOUSE_BUTTON_INVALID = 0"
| "mouse_button_code SPICE_MOUSE_BUTTON_LEFT = 1"
| "mouse_button_code SPICE_MOUSE_BUTTON_MIDDLE = 2"
| "mouse_button_code SPICE_MOUSE_BUTTON_RIGHT = 3"
| "mouse_button_code SPICE_MOUSE_BUTTON_UP = 4"
| "mouse_button_code SPICE_MOUSE_BUTTON_DOWN = 5"
| "mouse_button_code SPICE_MOUSE_BUTTON_SIDE = 6"
| "mouse_button_code SPICE_MOUSE_BUTTON_EXTRA = 7"

definition mouse_buttons :: "SpiceMouseButton list" where
  "mouse_buttons = [SPICE_MOUSE_BUTTON_INVALID, SPICE_MOUSE_BUTTON_LEFT, SPICE_MOUSE_BUTTON_MIDDLE,
     SPICE_MOUSE_BUTTON_RIGHT, SPICE_MOUSE_BUTTON_UP, SPICE_MOUSE_BUTTON_DOWN,
     SPICE_MOUSE_BUTTON_SIDE, SPICE_MOUSE_BUTTON_EXTRA]"

interpretation mouse_button: enum_code mouse_button_code mouse_buttons
proof
  fix e show "e \<in> set mouse_buttons" by (cases e) (simp_all add: mouse_buttons_def)
qed (simp add: mouse_buttons_def)

text \<open>The number of a button as the \<open>int\<close> the client library takes.\<close>

definition button_number :: "SpiceMouseButton \<Rightarrow> guint32" where
  "button_number b = word_of_nat (mouse_button_code b)"

text \<open>The mask of a button is one bit, and \<open>SPICE_MOUSE_BUTTON_INVALID\<close> has none.\<close>

primrec button_mask :: "SpiceMouseButton \<Rightarrow> guint32" where
  "button_mask SPICE_MOUSE_BUTTON_INVALID = 0"
| "button_mask SPICE_MOUSE_BUTTON_LEFT = 1"
| "button_mask SPICE_MOUSE_BUTTON_MIDDLE = 2"
| "button_mask SPICE_MOUSE_BUTTON_RIGHT = 4"
| "button_mask SPICE_MOUSE_BUTTON_UP = 8"
| "button_mask SPICE_MOUSE_BUTTON_DOWN = 16"
| "button_mask SPICE_MOUSE_BUTTON_SIDE = 32"
| "button_mask SPICE_MOUSE_BUTTON_EXTRA = 64"

definition SPICE_INPUTS_SCROLL_LOCK :: guint32 where "SPICE_INPUTS_SCROLL_LOCK = 1"
definition SPICE_INPUTS_NUM_LOCK :: guint32 where "SPICE_INPUTS_NUM_LOCK = 2"
definition SPICE_INPUTS_CAPS_LOCK :: guint32 where "SPICE_INPUTS_CAPS_LOCK = 4"

section \<open>Agent capabilities\<close>

datatype vd_agent_cap = VD_AGENT_CAP_MOUSE_STATE | VD_AGENT_CAP_MONITORS_CONFIG | VD_AGENT_CAP_REPLY
  | VD_AGENT_CAP_CLIPBOARD | VD_AGENT_CAP_DISPLAY_CONFIG | VD_AGENT_CAP_CLIPBOARD_BY_DEMAND
  | VD_AGENT_CAP_CLIPBOARD_SELECTION | VD_AGENT_CAP_SPARSE_MONITORS_CONFIG
  | VD_AGENT_CAP_GUEST_LINEEND_LF | VD_AGENT_CAP_GUEST_LINEEND_CRLF | VD_AGENT_CAP_MAX_CLIPBOARD
  | VD_AGENT_CAP_AUDIO_VOLUME_SYNC | VD_AGENT_CAP_MONITORS_CONFIG_POSITION
  | VD_AGENT_CAP_FILE_XFER_DISABLED | VD_AGENT_CAP_FILE_XFER_DETAILED_ERRORS
  | VD_AGENT_CAP_GRAPHICS_DEVICE_INFO | VD_AGENT_CAP_CLIPBOARD_NO_RELEASE_ON_REGRAB
  | VD_AGENT_CAP_CLIPBOARD_GRAB_SERIAL

primrec agent_cap_code :: "vd_agent_cap \<Rightarrow> nat" where
  "agent_cap_code VD_AGENT_CAP_MOUSE_STATE = 0"
| "agent_cap_code VD_AGENT_CAP_MONITORS_CONFIG = 1"
| "agent_cap_code VD_AGENT_CAP_REPLY = 2"
| "agent_cap_code VD_AGENT_CAP_CLIPBOARD = 3"
| "agent_cap_code VD_AGENT_CAP_DISPLAY_CONFIG = 4"
| "agent_cap_code VD_AGENT_CAP_CLIPBOARD_BY_DEMAND = 5"
| "agent_cap_code VD_AGENT_CAP_CLIPBOARD_SELECTION = 6"
| "agent_cap_code VD_AGENT_CAP_SPARSE_MONITORS_CONFIG = 7"
| "agent_cap_code VD_AGENT_CAP_GUEST_LINEEND_LF = 8"
| "agent_cap_code VD_AGENT_CAP_GUEST_LINEEND_CRLF = 9"
| "agent_cap_code VD_AGENT_CAP_MAX_CLIPBOARD = 10"
| "agent_cap_code VD_AGENT_CAP_AUDIO_VOLUME_SYNC = 11"
| "agent_cap_code VD_AGENT_CAP_MONITORS_CONFIG_POSITION = 12"
| "agent_cap_code VD_AGENT_CAP_FILE_XFER_DISABLED = 13"
| "agent_cap_code VD_AGENT_CAP_FILE_XFER_DETAILED_ERRORS = 14"
| "agent_cap_code VD_AGENT_CAP_GRAPHICS_DEVICE_INFO = 15"
| "agent_cap_code VD_AGENT_CAP_CLIPBOARD_NO_RELEASE_ON_REGRAB = 16"
| "agent_cap_code VD_AGENT_CAP_CLIPBOARD_GRAB_SERIAL = 17"

definition VD_AGENT_END_CAP :: nat where "VD_AGENT_END_CAP = 18"
definition VD_AGENT_CAPS_SIZE :: nat where "VD_AGENT_CAPS_SIZE = (VD_AGENT_END_CAP + 31) div 32"

text \<open>The macros over an array of \<open>uint32_t\<close> words.\<close>

definition VD_AGENT_HAS_CAPABILITY :: "guint32 list \<Rightarrow> nat \<Rightarrow> nat \<Rightarrow> bool" where
  "VD_AGENT_HAS_CAPABILITY caps caps_size index \<longleftrightarrow>
     index < caps_size * 32 \<and> caps ! (index div 32) AND push_bit (index mod 32) 1 \<noteq> 0"

definition VD_AGENT_SET_CAPABILITY :: "guint32 list \<Rightarrow> nat \<Rightarrow> guint32 list" where
  "VD_AGENT_SET_CAPABILITY caps index =
     caps[index div 32 := caps ! (index div 32) OR push_bit (index mod 32) 1]"

definition VD_AGENT_CLEAR_CAPABILITY :: "guint32 list \<Rightarrow> nat \<Rightarrow> guint32 list" where
  "VD_AGENT_CLEAR_CAPABILITY caps index =
     caps[index div 32 := caps ! (index div 32) AND NOT (push_bit (index mod 32) 1)]"

lemma has_capability_words:
  "VD_AGENT_HAS_CAPABILITY caps (length caps) index \<longleftrightarrow> index \<in> word_bits.members caps"
  by (auto simp: VD_AGENT_HAS_CAPABILITY_def word_bits.members_def words_size_def words_test_def
      bit_iff_and_push_bit_not_eq_0 mult.commute)

lemma set_capability_words: "VD_AGENT_SET_CAPABILITY caps index = words_mark index caps"
  by (simp add: VD_AGENT_SET_CAPABILITY_def words_mark_def)

lemma clear_capability_words: "VD_AGENT_CLEAR_CAPABILITY caps index = words_unmark index caps"
  by (simp add: VD_AGENT_CLEAR_CAPABILITY_def words_unmark_def)

text \<open>
  The capability array is a set: after setting one capability and clearing another,
  \<open>VD_AGENT_HAS_CAPABILITY\<close> answers yes for the first, no for the second, and is unchanged
  for every other index of the array.
\<close>

theorem capability_bits:
  assumes "i < 32 * length caps" and "j < 32 * length caps" and "i \<noteq> j"
  shows "VD_AGENT_HAS_CAPABILITY
      (VD_AGENT_CLEAR_CAPABILITY (VD_AGENT_SET_CAPABILITY caps i) j) (length caps) k \<longleftrightarrow>
    (if k = i then True else if k = j then False
     else VD_AGENT_HAS_CAPABILITY caps (length caps) k)"
proof -
  have "i < words_size caps" "j < words_size caps"
    using assms(1,2) by (simp_all add: words_size_def)
  then have "word_bits.members (words_unmark j (words_mark i caps)) =
      insert i (word_bits.members caps) - {j}"
    by (simp add: bits_simps)
  moreover have "VD_AGENT_HAS_CAPABILITY (words_unmark j (words_mark i caps)) (length caps) k \<longleftrightarrow>
      k \<in> word_bits.members (words_unmark j (words_mark i caps))"
    using has_capability_words[of "words_unmark j (words_mark i caps)" k] by simp
  ultimately show ?thesis
    using assms(3) by (auto simp: set_capability_words clear_capability_words has_capability_words)
qed

theorem capability_bits_witness:
  "VD_AGENT_HAS_CAPABILITY
     (VD_AGENT_CLEAR_CAPABILITY (VD_AGENT_SET_CAPABILITY [0x20] 9) 5) (length [0x20 :: guint32]) 9"
  using capability_bits[of 9 "[0x20]" 5 9] by simp

end
