(* ===== verification/Input.thy ===== *)
theory Input
  imports Main_Context Wire
begin

text \<open>
  \<^verbatim>\<open>CSInput.m\<close> and \<^verbatim>\<open>CSInput.h\<close>: keyboard, key locks, mouse motion, buttons and scrolling. Each
  method checks its guards on the calling thread and posts a block to the SPICE context; the
  block reads the object when it runs and calls the inputs channel. The state keeps the
  pressed keys as the array of sixteen 32-bit words the class keeps.
\<close>

section \<open>Data\<close>

text \<open>\<open>NS_ENUM\<close> types are open: the last constructor stands for any other raw value.\<close>

datatype CSInputKey = kCSInputKeyPress | kCSInputKeyRelease | CSInputKey_raw int

datatype CSInputScroll = kCSInputScrollUp | kCSInputScrollDown | kCSInputScrollSmooth
  | CSInputScroll_raw int

definition kCSInputButtonLeft :: nsuint where "kCSInputButtonLeft = push_bit 0 1"
definition kCSInputButtonMiddle :: nsuint where "kCSInputButtonMiddle = push_bit 1 1"
definition kCSInputButtonRight :: nsuint where "kCSInputButtonRight = push_bit 2 1"
definition kCSInputButtonUp :: nsuint where "kCSInputButtonUp = push_bit 3 1"
definition kCSInputButtonDown :: nsuint where "kCSInputButtonDown = push_bit 4 1"
definition kCSInputButtonSide :: nsuint where "kCSInputButtonSide = push_bit 5 1"
definition kCSInputButtonExtra :: nsuint where "kCSInputButtonExtra = push_bit 6 1"

definition kCSInputKeyLockNone :: nsuint where "kCSInputKeyLockNone = 0"
definition kCSInputKeyLockScroll :: nsuint where "kCSInputKeyLockScroll = push_bit 0 1"
definition kCSInputKeyLockNum :: nsuint where "kCSInputKeyLockNum = push_bit 1 1"
definition kCSInputKeyLockCaps :: nsuint where "kCSInputKeyLockCaps = push_bit 2 1"

lemmas button_defs = kCSInputButtonLeft_def kCSInputButtonMiddle_def kCSInputButtonRight_def
  kCSInputButtonUp_def kCSInputButtonDown_def kCSInputButtonSide_def kCSInputButtonExtra_def

lemmas key_lock_defs = kCSInputKeyLockNone_def kCSInputKeyLockScroll_def kCSInputKeyLockNum_def
  kCSInputKeyLockCaps_def SPICE_INPUTS_SCROLL_LOCK_def SPICE_INPUTS_NUM_LOCK_def
  SPICE_INPUTS_CAPS_LOCK_def

record cs_input =
  in_channel :: "objref option"
  in_spiceMain :: "objref option"
  disableInputs :: bool
  scroll_delta_y :: cgfloat
  key_state :: "guint32 list"

text \<open>Calls into the client library, in the order made.\<close>

datatype input_call =
    Key_press int
  | Key_release int
  | Set_key_locks guint32
  | Motion int int guint32
  | Position int int int guint32
  | Button_press guint32 guint32
  | Button_release guint32 guint32
  | Request_mouse_mode SpiceMouseMode
  | Warn_if_reached
  | Unref_channel

text \<open>
  The blocks the methods post. A block that asks the main channel for the mouse mode carries
  the answer it will get (\<open>mode\<close>), which is the property's value when the block runs.
\<close>

datatype input_block =
    Pause_block CSInputKey
  | Key_block CSInputKey int
  | Locks_block guint32
  | Motion_block nsuint cgfloat cgfloat SpiceMouseMode
  | Position_block nsuint cgfloat cgfloat int SpiceMouseMode
  | Scroll_block CSInputScroll guint32 cgfloat
  | Mouse_button_block nsuint nsuint bool
  | Mouse_mode_block bool

definition cs_input_init :: "objref \<Rightarrow> cs_input" where
  "cs_input_init ch = \<lparr>in_channel = Some ch, in_spiceMain = None, disableInputs = False,
     scroll_delta_y = 0, key_state = replicate 16 0\<rparr>"

section \<open>Buttons and locks\<close>

definition has_flag :: "nsuint \<Rightarrow> nsuint \<Rightarrow> bool" where
  "has_flag flags f \<longleftrightarrow> flags AND f \<noteq> 0"

definition or_if :: "bool \<Rightarrow> guint32 \<Rightarrow> guint32 \<Rightarrow> guint32" where
  "or_if c x acc = (if c then acc OR x else acc)"

definition cs_button_mask_to_spice :: "nsuint \<Rightarrow> guint32" where
  "cs_button_mask_to_spice button =
     (or_if (has_flag button kCSInputButtonExtra) (button_mask SPICE_MOUSE_BUTTON_EXTRA)
     (or_if (has_flag button kCSInputButtonSide) (button_mask SPICE_MOUSE_BUTTON_SIDE)
     (or_if (has_flag button kCSInputButtonDown) (button_mask SPICE_MOUSE_BUTTON_DOWN)
     (or_if (has_flag button kCSInputButtonUp) (button_mask SPICE_MOUSE_BUTTON_UP)
     (or_if (has_flag button kCSInputButtonRight) (button_mask SPICE_MOUSE_BUTTON_RIGHT)
     (or_if (has_flag button kCSInputButtonMiddle) (button_mask SPICE_MOUSE_BUTTON_MIDDLE)
     (or_if (has_flag button kCSInputButtonLeft) (button_mask SPICE_MOUSE_BUTTON_LEFT) 0)))))))"

definition cs_button_to_spice :: "nsuint \<Rightarrow> guint32" where
  "cs_button_to_spice button =
     (or_if (has_flag button kCSInputButtonExtra) (button_number SPICE_MOUSE_BUTTON_EXTRA)
     (or_if (has_flag button kCSInputButtonSide) (button_number SPICE_MOUSE_BUTTON_SIDE)
     (or_if (has_flag button kCSInputButtonDown) (button_number SPICE_MOUSE_BUTTON_DOWN)
     (or_if (has_flag button kCSInputButtonUp) (button_number SPICE_MOUSE_BUTTON_UP)
     (or_if (has_flag button kCSInputButtonRight) (button_number SPICE_MOUSE_BUTTON_RIGHT)
     (or_if (has_flag button kCSInputButtonMiddle) (button_number SPICE_MOUSE_BUTTON_MIDDLE)
     (or_if (has_flag button kCSInputButtonLeft) (button_number SPICE_MOUSE_BUTTON_LEFT) 0)))))))"

text \<open>\<open>keyLock\<close>: \<open>locks\<close> is the channel's \<open>key-modifiers\<close> property.\<close>

definition keyLock :: "cs_input \<Rightarrow> guint32 \<Rightarrow> nsuint" where
  "keyLock self locks =
     (if in_channel self = None then kCSInputKeyLockNone
      else (if locks AND SPICE_INPUTS_NUM_LOCK \<noteq> 0 then kCSInputKeyLockNum else 0) OR
           (if locks AND SPICE_INPUTS_CAPS_LOCK \<noteq> 0 then kCSInputKeyLockCaps else 0) OR
           (if locks AND SPICE_INPUTS_SCROLL_LOCK \<noteq> 0 then kCSInputKeyLockScroll else 0))"

definition spice_locks :: "nsuint \<Rightarrow> guint32" where
  "spice_locks lock =
     or_if (has_flag lock kCSInputKeyLockScroll) SPICE_INPUTS_SCROLL_LOCK
    (or_if (has_flag lock kCSInputKeyLockCaps) SPICE_INPUTS_CAPS_LOCK
    (or_if (has_flag lock kCSInputKeyLockNum) SPICE_INPUTS_NUM_LOCK 0))"

definition setKeyLock :: "cs_input \<Rightarrow> nsuint \<Rightarrow> input_block list" where
  "setKeyLock self lock = (if in_channel self = None then [] else [Locks_block (spice_locks lock)])"

section \<open>Keys\<close>

text \<open>
  \<open>i = scancode / 32\<close>, \<open>b = scancode % 32\<close>, \<open>m = 1u << b\<close> with C's truncating division and
  the conversion of both results to \<open>uint32_t\<close>. A shift by 32 or more is undefined in C, and
  it is computed before the range check on \<open>i\<close>.
\<close>

definition key_word :: "int \<Rightarrow> guint32" where
  "key_word scancode = word_of_int (scancode sdiv 32)"

definition key_bit :: "int \<Rightarrow> guint32" where
  "key_bit scancode = word_of_int (scancode smod 32)"

definition sendKey :: "cs_input \<Rightarrow> CSInputKey \<Rightarrow> int \<Rightarrow> input_block list outcome" where
  "sendKey self type scancode =
     (if scancode = 0 then CriticalReturn
      else if in_channel self = None then Done []
      else if disableInputs self then Done []
      else if 32 \<le> key_bit scancode then UndefinedBehaviour
      else if \<not> unat (key_word scancode) < length (key_state self) then CriticalReturn
      else Done [Key_block type scancode])"

definition sendPause :: "cs_input \<Rightarrow> CSInputKey \<Rightarrow> input_block list" where
  "sendPause self type = (if in_channel self = None then [] else [Pause_block type])"

definition key_is_down :: "guint32 list \<Rightarrow> int \<Rightarrow> bool" where
  "key_is_down ks scancode \<longleftrightarrow>
     ks ! unat (key_word scancode) AND push_bit (unat (key_bit scancode)) 1 \<noteq> 0"

definition key_down :: "int \<Rightarrow> guint32 list \<Rightarrow> guint32 list" where
  "key_down scancode ks = (let i = unat (key_word scancode) in
     ks[i := ks ! i OR push_bit (unat (key_bit scancode)) 1])"

definition key_up :: "int \<Rightarrow> guint32 list \<Rightarrow> guint32 list" where
  "key_up scancode ks = (let i = unat (key_word scancode) in
     ks[i := ks ! i AND NOT (push_bit (unat (key_bit scancode)) 1)])"

text \<open>The scrolling loop: one click per whole unit, towards zero.\<close>

function smooth_clicks :: "cgfloat \<Rightarrow> guint32 \<Rightarrow> cgfloat \<times> input_call list" where
  "smooth_clicks delta state =
     (if 1 \<le> \<bar>delta\<bar>
      then (if delta < 0
            then (let (d, cs) = smooth_clicks (delta + 1) state in
                  (d, Button_press (button_number SPICE_MOUSE_BUTTON_UP) state #
                      Button_release (button_number SPICE_MOUSE_BUTTON_UP) state # cs))
            else (let (d, cs) = smooth_clicks (delta - 1) state in
                  (d, Button_press (button_number SPICE_MOUSE_BUTTON_DOWN) state #
                      Button_release (button_number SPICE_MOUSE_BUTTON_DOWN) state # cs)))
      else (delta, []))"
  by pat_completeness auto
termination
  by (relation "measure (\<lambda>(delta, state). nat \<lfloor>\<bar>delta\<bar>\<rfloor>)") (auto; linarith)+

declare smooth_clicks.simps [simp del]

section \<open>Running the blocks\<close>

fun run_input :: "input_block \<Rightarrow> cs_input \<Rightarrow> cs_input \<times> input_call list" where
  "run_input (Pause_block type) self =
     (self, if type = kCSInputKeyPress then [Key_press 0x21d, Key_press 0x45]
            else [Key_release 0x21d, Key_release 0x45])"
| "run_input (Key_block kCSInputKeyPress scancode) self =
     (self\<lparr>key_state := key_down scancode (key_state self)\<rparr>, [Key_press scancode])"
| "run_input (Key_block kCSInputKeyRelease scancode) self =
     (if key_is_down (key_state self) scancode
      then (self\<lparr>key_state := key_up scancode (key_state self)\<rparr>, [Key_release scancode])
      else (self, []))"
| "run_input (Key_block (CSInputKey_raw v) scancode) self = (self, [Warn_if_reached])"
| "run_input (Locks_block locks) self = (self, [Set_key_locks locks])"
| "run_input (Motion_block buttonMask x y mode) self =
     (self, if in_spiceMain self \<noteq> None \<and> mode = SPICE_MOUSE_MODE_SERVER
            then [Motion (c_trunc x) (c_trunc y) (cs_button_mask_to_spice buttonMask)] else [])"
| "run_input (Position_block buttonMask x y monitorID mode) self =
     (self, if in_spiceMain self \<noteq> None \<and> mode = SPICE_MOUSE_MODE_SERVER then []
            else [Position (c_trunc x) (c_trunc y) monitorID (cs_button_mask_to_spice buttonMask)])"
| "run_input (Scroll_block kCSInputScrollUp state dy) self =
     (self, [Button_press (button_number SPICE_MOUSE_BUTTON_UP) state,
             Button_release (button_number SPICE_MOUSE_BUTTON_UP) state])"
| "run_input (Scroll_block kCSInputScrollDown state dy) self =
     (self, [Button_press (button_number SPICE_MOUSE_BUTTON_DOWN) state,
             Button_release (button_number SPICE_MOUSE_BUTTON_DOWN) state])"
| "run_input (Scroll_block kCSInputScrollSmooth state dy) self =
     (let (d, cs) = smooth_clicks (scroll_delta_y self + dy) state
      in (self\<lparr>scroll_delta_y := d\<rparr>, cs))"
| "run_input (Scroll_block (CSInputScroll_raw v) state dy) self = (self, [])"
| "run_input (Mouse_button_block button buttons pressed) self =
     (self, [(if pressed then Button_press else Button_release)
               (cs_button_to_spice button) (cs_button_mask_to_spice buttons)])"
| "run_input (Mouse_mode_block server) self =
     (self, [Request_mouse_mode
        (if server then SPICE_MOUSE_MODE_SERVER else SPICE_MOUSE_MODE_CLIENT)])"

section \<open>The remaining methods\<close>

definition serverModeCursor :: "cs_input \<Rightarrow> SpiceMouseMode \<Rightarrow> bool" where
  "serverModeCursor self mode \<longleftrightarrow> in_spiceMain self \<noteq> None \<and> mode = SPICE_MOUSE_MODE_SERVER"

definition accepts_input :: "cs_input \<Rightarrow> bool" where
  "accepts_input self \<longleftrightarrow> in_channel self \<noteq> None \<and> \<not> disableInputs self"

definition sendMouseMotion ::
  "cs_input \<Rightarrow> nsuint \<Rightarrow> cgfloat \<times> cgfloat \<Rightarrow> int \<Rightarrow> SpiceMouseMode \<Rightarrow> input_block list" where
  "sendMouseMotion self buttonMask pt monitorID mode =
     (if accepts_input self then [Motion_block buttonMask (fst pt) (snd pt) mode] else [])"

definition sendMousePosition ::
  "cs_input \<Rightarrow> nsuint \<Rightarrow> cgfloat \<times> cgfloat \<Rightarrow> int \<Rightarrow> SpiceMouseMode \<Rightarrow> input_block list" where
  "sendMousePosition self buttonMask pt monitorID mode =
     (if accepts_input self then [Position_block buttonMask (fst pt) (snd pt) monitorID mode] else [])"

definition sendMouseScroll ::
  "cs_input \<Rightarrow> CSInputScroll \<Rightarrow> nsuint \<Rightarrow> cgfloat \<Rightarrow> input_block list" where
  "sendMouseScroll self type buttonMask dy =
     (let button_state = cs_button_mask_to_spice buttonMask
      in if accepts_input self then [Scroll_block type button_state dy] else [])"

definition sendMouseButton ::
  "cs_input \<Rightarrow> nsuint \<Rightarrow> nsuint \<Rightarrow> bool \<Rightarrow> input_block list" where
  "sendMouseButton self button buttons pressed =
     (if accepts_input self then [Mouse_button_block button buttons pressed] else [])"

definition requestMouseMode :: "cs_input \<Rightarrow> bool \<Rightarrow> input_block list" where
  "requestMouseMode self server = (if in_spiceMain self = None then [] else [Mouse_mode_block server])"

text \<open>
  \<open>releaseKeys\<close>: the outer loop skips a word that is zero when the loop reaches it, the inner
  loop sends a release for each of its 32 scancodes but 0. Each \<open>sendKey\<close> posts or runs its
  block before the loop goes on.
\<close>

definition release_scancode ::
  "bool \<Rightarrow> int \<Rightarrow> (cs_input, input_block, input_call) world \<Rightarrow> (cs_input, input_block, input_call) world" where
  "release_scancode on_context sc w =
     fold (asyncWith run_input on_context) (outcome_list (sendKey (obj w) kCSInputKeyRelease sc)) w"

definition release_word ::
  "bool \<Rightarrow> nat \<Rightarrow> (cs_input, input_block, input_call) world \<Rightarrow> (cs_input, input_block, input_call) world" where
  "release_word on_context i w =
     (if key_state (obj w) ! i = 0 then w
      else fold (\<lambda>b w. if i * 32 + b \<noteq> 0 then release_scancode on_context (int (i * 32 + b)) w else w)
             [0..<32] w)"

definition releaseKeys ::
  "bool \<Rightarrow> (cs_input, input_block, input_call) world \<Rightarrow> (cs_input, input_block, input_call) world" where
  "releaseKeys on_context w = fold (release_word on_context) [0..<length (key_state (obj w))] w"

end
