(* ===== verification/Input_Keys.thy ===== *)
theory Input_Keys
  imports Input
begin

text \<open>
  Keyboard properties of \<^verbatim>\<open>CSInput.m\<close>: which scancodes \<open>sendKey\<close> accepts, the pressed-key array as
  the set of keys the channel was told are down, its invariant on every reachable state, and
  \<open>releaseKeys\<close> from the context thread and from any other.
\<close>

section \<open>Scancodes and the pressed-key array\<close>

lemma key_word_nonneg: "0 \<le> sc \<Longrightarrow> sc < 2 ^ 31 \<Longrightarrow> unat (key_word sc) = nat sc div 32"
  unfolding key_word_def signed_divide_int_def
  by (simp add: sgn_if unsigned_of_int take_bit_int_eq_self nat_div_distrib)

lemma smod32_nonneg: "0 \<le> sc \<Longrightarrow> sc smod 32 = sc mod (32 :: int)"
  by (simp add: signed_modulo_int_def signed_divide_int_def sgn_if minus_div_mult_eq_mod)

lemma smod32_neg: "sc < 0 \<Longrightarrow> sc smod 32 = - (- sc mod (32 :: int))"
  by (simp add: signed_modulo_int_def signed_divide_int_def sgn_if minus_div_mult_eq_mod[symmetric])

lemma sdiv32_neg: "sc < 0 \<Longrightarrow> sc sdiv 32 = - (- sc div (32 :: int))"
  by (simp add: signed_divide_int_def sgn_if)

lemma key_bit_nonneg: "0 \<le> sc \<Longrightarrow> unat (key_bit sc) = nat sc mod 32"
proof -
  assume sc: "0 \<le> sc"
  have "0 \<le> sc mod 32" "sc mod 32 < 2 ^ 32" by simp_all
  then have "take_bit 32 (sc mod 32) = sc mod 32" by (simp add: take_bit_int_eq_self)
  with sc show ?thesis by (simp add: key_bit_def smod32_nonneg unsigned_of_int nat_mod_distrib)
qed

lemma key_bit_small: "0 \<le> sc \<Longrightarrow> key_bit sc < 32"
  by (simp add: word_less_nat_alt key_bit_nonneg)

lemma word_of_neg_large: "0 < k \<Longrightarrow> k < 2 ^ 31 + 1 \<Longrightarrow> 2 ^ 31 \<le> unat (word_of_int (- k) :: guint32)"
proof -
  assume k: "0 < k" "k < 2 ^ 31 + 1"
  have "take_bit 32 (- k) = 2 ^ 32 - k"
    using k by (simp add: take_bit_eq_mod) (smt (verit) mod_add_self2 mod_pos_pos_trivial)
  then show ?thesis using k by (subst unsigned_of_int) simp
qed

lemma key_bit_neg:
  assumes "sc < 0" and "\<not> 32 dvd sc" shows "32 \<le> key_bit sc"
proof -
  have "0 < - sc mod 32" using assms(2)
    by (metis dvd_minus_iff dvd_eq_mod_eq_0 mod_int_pos_iff not_less order.strict_iff_order pos_mod_sign zero_less_numeral)
  moreover have "- sc mod 32 < 32" by simp
  ultimately have "2 ^ 31 \<le> unat (key_bit sc)"
    unfolding key_bit_def smod32_neg[OF assms(1)] by (intro word_of_neg_large) auto
  then show ?thesis by (simp add: word_le_nat_alt)
qed

lemma key_neg_multiple:
  assumes "sc < 0" and "32 dvd sc" and "- (2 ^ 31) \<le> sc"
  shows "key_bit sc = 0" and "2 ^ 31 \<le> unat (key_word sc)"
proof -
  have "- sc mod 32 = 0" using assms(2) by simp
  with assms(1) show "key_bit sc = 0" by (simp add: key_bit_def smod32_neg)
  have "0 < - sc div 32" using assms(1,2) by (auto simp: pos_imp_zdiv_pos_iff elim!: dvdE)
  moreover have "- sc div 32 < 2 ^ 31 + 1" using assms(3) by simp
  ultimately show "2 ^ 31 \<le> unat (key_word sc)"
    unfolding key_word_def sdiv32_neg[OF assms(1)] by (rule word_of_neg_large)
qed

text \<open>The channel is there, inputs are enabled and the array has its sixteen words.\<close>

definition can_send :: "cs_input \<Rightarrow> bool" where
  "can_send self \<longleftrightarrow> in_channel self \<noteq> None \<and> \<not> disableInputs self \<and> length (key_state self) = 16"

lemma sendKey_range:
  assumes "in_channel self \<noteq> None" and "\<not> disableInputs self" and "length (key_state self) = 16"
    and "- (2 ^ 31) \<le> sc" and "sc < 2 ^ 31"
  shows "sendKey self type sc =
    (if sc = 0 then CriticalReturn
     else if sc < 0 then (if 32 dvd sc then CriticalReturn else UndefinedBehaviour)
     else if sc < 512 then Done [Key_block type sc] else CriticalReturn)"
proof (cases "sc < 0")
  case True
  with assms show ?thesis
    using key_bit_neg[of sc] key_neg_multiple[of sc] by (auto simp: sendKey_def not_less[symmetric])
next
  case False
  then have "key_bit sc < 32" and "unat (key_word sc) = nat sc div 32"
    using assms(4,5) by (simp_all add: key_bit_small key_word_nonneg)
  then show ?thesis using assms False by (auto simp: sendKey_def not_le)
qed


lemma key_ops_words:
  assumes "0 \<le> sc" and "sc < 2 ^ 31"
  shows "key_down sc ks = words_mark (nat sc) ks" and "key_up sc ks = words_unmark (nat sc) ks"
    and "key_is_down ks sc \<longleftrightarrow> words_test ks (nat sc)"
  using assms by (simp_all add: key_down_def key_up_def key_is_down_def words_mark_def
      words_unmark_def words_test_def key_word_nonneg key_bit_nonneg bit_iff_and_push_bit_not_eq_0 Let_def)

section \<open>Pressed keys\<close>

text \<open>The keys the array records, and what the emitted calls say about them.\<close>

definition keys_down :: "cs_input \<Rightarrow> nat set" where
  "keys_down self = word_bits.members (key_state self)"

fun key_events :: "input_call list \<Rightarrow> mark_event list" where
  "key_events (Key_press sc # cs) = Mark (nat sc) # key_events cs"
| "key_events (Key_release sc # cs) = Unmark (nat sc) # key_events cs"
| "key_events (c # cs) = key_events cs"
| "key_events [] = []"

text \<open>A release may only be sent for a key whose press was sent and not yet released.\<close>

fun releases_held :: "nat set \<Rightarrow> mark_event list \<Rightarrow> bool" where
  "releases_held A (Mark n # es) = releases_held (insert n A) es"
| "releases_held A (Unmark n # es) = (n \<in> A \<and> releases_held (A - {n}) es)"
| "releases_held A [] = True"

fun input_block_ok :: "input_block \<Rightarrow> bool" where
  "input_block_ok (Key_block type scancode) = (0 < scancode \<and> scancode < 512)"
| "input_block_ok (Pause_block type) = False"
| "input_block_ok b = True"

definition input_inv :: "cs_input \<Rightarrow> bool" where
  "input_inv self \<longleftrightarrow> length (key_state self) = 16 \<and> 0 \<notin> keys_down self \<and> \<bar>scroll_delta_y self\<bar> < 1"

lemma key_events_append [simp]: "key_events (xs @ ys) = key_events xs @ key_events ys"
  by (induction xs rule: key_events.induct) simp_all

lemma releases_held_append [simp]:
  "releases_held A (xs @ ys) \<longleftrightarrow> releases_held A xs \<and> releases_held (fold track xs A) ys"
  by (induction A xs rule: releases_held.induct) auto

lemma smooth_clicks_no_keys: "key_events (snd (smooth_clicks d st)) = []"
proof (induction d st rule: smooth_clicks.induct)
  case (1 delta state)
  then show ?case by (subst smooth_clicks.simps) (auto simp: split_beta)
qed

lemma smooth_rest_small: "\<bar>fst (smooth_clicks d st)\<bar> < 1"
proof (induction d st rule: smooth_clicks.induct)
  case (1 delta state)
  then show ?case by (subst smooth_clicks.simps) (auto simp: split_beta)
qed

lemma keys_down_iff:
  "length (key_state self) = 16 \<Longrightarrow>
     n \<in> keys_down self \<longleftrightarrow> n < 512 \<and> words_test (key_state self) n"
  by (simp add: keys_down_def word_bits.members_def words_size_def)

lemma key_block_step [step_simps]:
  assumes "0 < sc" and "sc < 512" and "length (key_state self) = 16"
  shows "run_input (Key_block kCSInputKeyPress sc) self =
      (self\<lparr>key_state := words_mark (nat sc) (key_state self)\<rparr>, [Key_press sc])"
    and "run_input (Key_block kCSInputKeyRelease sc) self =
      (if nat sc \<in> keys_down self
       then (self\<lparr>key_state := words_unmark (nat sc) (key_state self)\<rparr>, [Key_release sc])
       else (self, []))"
proof -
  have sc: "0 \<le> sc" "sc < 2 ^ 31" "nat sc < 512" using assms by auto
  show "run_input (Key_block kCSInputKeyPress sc) self =
      (self\<lparr>key_state := words_mark (nat sc) (key_state self)\<rparr>, [Key_press sc])"
    using sc by (simp add: key_ops_words)
  show "run_input (Key_block kCSInputKeyRelease sc) self =
      (if nat sc \<in> keys_down self
       then (self\<lparr>key_state := words_unmark (nat sc) (key_state self)\<rparr>, [Key_release sc])
       else (self, []))"
    using sc assms(3) by (simp add: key_ops_words keys_down_iff)
qed

lemma keys_down_update [simp]:
  assumes "n < 512" and "length (key_state self) = 16"
  shows "keys_down (self\<lparr>key_state := words_mark n (key_state self)\<rparr>) = insert n (keys_down self)"
    and "keys_down (self\<lparr>key_state := words_unmark n (key_state self)\<rparr>) = keys_down self - {n}"
  using assms by (simp_all add: keys_down_def bits_simps words_size_def)

lemma run_input_effect:
  assumes "input_block_ok b" and "input_inv self"
  shows "input_inv (fst (run_input b self)) \<and>
    keys_down (fst (run_input b self)) =
      fold track (key_events (snd (run_input b self))) (keys_down self) \<and>
    releases_held (keys_down self) (key_events (snd (run_input b self)))"
  using assms
proof (induction b self rule: run_input.induct)
  case (2 scancode self)
  then have "nat scancode < 512" "0 < nat scancode" by auto
  with 2 show ?case by (simp add: step_simps input_inv_def del: run_input.simps)
next
  case (3 scancode self)
  then have "nat scancode < 512" by auto
  with 3 show ?case by (simp add: step_simps input_inv_def del: run_input.simps)
next
  case (10 state dy self)
  then show ?case
    using smooth_rest_small[of "scroll_delta_y self + dy" state]
      smooth_clicks_no_keys[of "scroll_delta_y self + dy" state]
    by (simp add: input_inv_def split_beta keys_down_def)
qed (simp_all add: input_inv_def keys_down_def split: if_splits)

interpretation input: context_client run_input input_block_ok input_inv
  by unfold_locales (simp add: run_input_effect)

definition input_world_inv :: "(cs_input, input_block, input_call) world \<Rightarrow> bool" where
  "input_world_inv w \<longleftrightarrow> input_inv (obj w) \<and> list_all input_block_ok (posted w)"

lemma input_world_ok: "input.world_ok w \<longleftrightarrow> input_world_inv w"
  by (simp add: input.world_ok_def input_world_inv_def)

lemma fold_run_input_keys:
  assumes "list_all input_block_ok bs" and "input_inv (obj w)"
  shows "\<exists>cs. calls (fold (run_now run_input) bs w) = calls w @ cs \<and>
    keys_down (obj (fold (run_now run_input) bs w)) =
      fold track (key_events cs) (keys_down (obj w)) \<and>
    releases_held (keys_down (obj w)) (key_events cs)"
  using assms
proof (induction bs arbitrary: w)
  case Nil
  then show ?case by simp
next
  case (Cons b bs)
  let ?w = "run_now run_input b w"
  have step: "input_inv (fst (run_input b (obj w))) \<and>
    keys_down (fst (run_input b (obj w))) =
      fold track (key_events (snd (run_input b (obj w)))) (keys_down (obj w)) \<and>
    releases_held (keys_down (obj w)) (key_events (snd (run_input b (obj w))))"
    using Cons.prems by (intro run_input_effect) simp_all
  then obtain cs where "calls (fold (run_now run_input) bs ?w) = calls ?w @ cs"
    "keys_down (obj (fold (run_now run_input) bs ?w)) =
      fold track (key_events cs) (keys_down (obj ?w))"
    "releases_held (keys_down (obj ?w)) (key_events cs)"
    using Cons.IH[of ?w] Cons.prems by auto
  with step show ?case
    by (intro exI[of _ "snd (run_input b (obj w)) @ cs"]) simp
qed

section \<open>Reachable states\<close>

text \<open>
  What a client and the context can do with a \<open>CSInput\<close>: every method but \<open>sendPause\<close>, from the
  context thread (\<open>c\<close>) or another, the two settable properties, and the dispatch of one block.
\<close>

definition post_all :: "bool \<Rightarrow> input_block list \<Rightarrow>
  (cs_input, input_block, input_call) world \<Rightarrow> (cs_input, input_block, input_call) world" where
  "post_all c bs w = fold (asyncWith run_input c) bs w"

inductive input_step ::
  "(cs_input, input_block, input_call) world \<Rightarrow> (cs_input, input_block, input_call) world \<Rightarrow> bool" where
  key: "- (2 ^ 31) \<le> sc \<Longrightarrow> sc < 2 ^ 31 \<Longrightarrow>
    input_step w (post_all c (outcome_list (sendKey (obj w) type sc)) w)"
| release: "input_step w (releaseKeys c w)"
| locks: "input_step w (post_all c (setKeyLock (obj w) lock) w)"
| motion: "input_step w (post_all c (sendMouseMotion (obj w) bmask pt mon mode) w)"
| position: "input_step w (post_all c (sendMousePosition (obj w) bmask pt mon mode) w)"
| scroll: "input_step w (post_all c (sendMouseScroll (obj w) stype bmask dy) w)"
| button: "input_step w (post_all c (sendMouseButton (obj w) btn bmask pressed) w)"
| mouse_mode: "input_step w (post_all c (requestMouseMode (obj w) server) w)"
| dispatched: "input_step w (dispatch run_input w)"
| set_disable: "input_step w (w\<lparr>obj := (obj w)\<lparr>disableInputs := d\<rparr>\<rparr>)"
| set_main: "input_step w (w\<lparr>obj := (obj w)\<lparr>in_spiceMain := m\<rparr>\<rparr>)"

inductive_cases input_stepE: "input_step w w'"

definition keys_agree :: "(cs_input, input_block, input_call) world \<Rightarrow> bool" where
  "keys_agree w \<longleftrightarrow> input_world_inv w \<and>
     keys_down (obj w) = fold track (key_events (calls w)) {} \<and>
     releases_held {} (key_events (calls w))"

lemma keys_agree_run: "input_block_ok b \<Longrightarrow> keys_agree w \<Longrightarrow> keys_agree (run_now run_input b w)"
  using run_input_effect[of b "obj w"]
  by (simp add: keys_agree_def input_world_inv_def)

lemma keys_agree_async [inv_intros]:
  "input_block_ok b \<Longrightarrow> keys_agree w \<Longrightarrow> keys_agree (asyncWith run_input c b w)"
  by (cases c) (simp_all add: keys_agree_run, simp add: keys_agree_def input_world_inv_def)

lemma keys_agree_post [inv_intros]:
  "list_all input_block_ok bs \<Longrightarrow> keys_agree w \<Longrightarrow> keys_agree (post_all c bs w)"
  unfolding post_all_def by (induction bs arbitrary: w) (simp_all add: keys_agree_async)

lemma keys_agree_dispatch [inv_intros]: "keys_agree w \<Longrightarrow> keys_agree (dispatch run_input w)"
proof (cases "posted w")
  case (Cons b bs)
  assume "keys_agree w"
  then have "keys_agree (w\<lparr>posted := bs\<rparr>)" "input_block_ok b"
    using Cons by (simp_all add: keys_agree_def input_world_inv_def)
  then show ?thesis using Cons by (simp add: dispatch_def keys_agree_run)
qed (simp add: dispatch_def)

lemma sendKey_blocks_ok:
  assumes "length (key_state self) = 16" and "- (2 ^ 31) \<le> sc" and "sc < 2 ^ 31"
  shows "list_all input_block_ok (outcome_list (sendKey self type sc))"
proof (cases "in_channel self = None \<or> disableInputs self")
  case True
  then show ?thesis by (auto simp: sendKey_def)
next
  case False
  define r where "r = sendKey self type sc"
  have "r = (if sc = 0 then CriticalReturn
     else if sc < 0 then (if 32 dvd sc then CriticalReturn else UndefinedBehaviour)
     else if sc < 512 then Done [Key_block type sc] else CriticalReturn)"
    unfolding r_def using False assms by (intro sendKey_range) auto
  then show ?thesis unfolding r_def[symmetric] by simp
qed

lemma keys_agree_length: "keys_agree w \<Longrightarrow> length (key_state (obj w)) = 16"
  by (simp add: keys_agree_def input_world_inv_def input_inv_def)

lemma keys_agree_fold:
  "(\<And>x w. x \<in> set xs \<Longrightarrow> keys_agree w \<Longrightarrow> keys_agree (f x w)) \<Longrightarrow> keys_agree w \<Longrightarrow>
     keys_agree (fold f xs w)"
  by (induction xs arbitrary: w) simp_all

lemma keys_agree_release_scancode:
  "keys_agree w \<Longrightarrow> n < 512 \<Longrightarrow> keys_agree (release_scancode c (int n) w)"
  unfolding release_scancode_def post_all_def[symmetric]
  by (intro keys_agree_post sendKey_blocks_ok) (simp_all add: keys_agree_length)

lemma keys_agree_release_word: "keys_agree w \<Longrightarrow> i < 16 \<Longrightarrow> keys_agree (release_word c i w)"
  unfolding release_word_def
  by (auto intro!: keys_agree_fold keys_agree_release_scancode simp del: of_nat_add of_nat_mult)

lemma keys_agree_releaseKeys [inv_intros]: "keys_agree w \<Longrightarrow> keys_agree (releaseKeys c w)"
  unfolding releaseKeys_def
  by (rule keys_agree_fold) (auto simp: keys_agree_length intro: keys_agree_release_word)

lemma keys_agree_set [inv_intros]:
  "keys_agree w \<Longrightarrow> keys_agree (w\<lparr>obj := (obj w)\<lparr>disableInputs := d\<rparr>\<rparr>)"
  "keys_agree w \<Longrightarrow> keys_agree (w\<lparr>obj := (obj w)\<lparr>in_spiceMain := m\<rparr>\<rparr>)"
  by (auto simp: keys_agree_def input_world_inv_def input_inv_def keys_down_def)

lemma keys_agree_init: "keys_agree (new_world (cs_input_init ch))"
  by (auto simp: keys_agree_def input_world_inv_def input_inv_def new_world_def cs_input_init_def
      keys_down_def word_bits.members_def words_test_def words_size_def nth_replicate)

lemma keys_agree_step: "input_step w w' \<Longrightarrow> keys_agree w \<Longrightarrow> keys_agree w'"
  by (induction rule: input_step.induct)
    (auto intro!: inv_intros sendKey_blocks_ok simp: keys_agree_length setKeyLock_def sendMouseMotion_def
      sendMousePosition_def sendMouseScroll_def sendMouseButton_def requestMouseMode_def Let_def)



text \<open>
  \<open>sendKey:\<close> on an enabled, connected object posts exactly one block for the scancodes 1 to
  511; 0, everything from 512 up and the negative multiples of 32 are refused as critical, and
  on every other negative scancode the shift is undefined before the range is checked.
\<close>

theorem sendKey_spec:
  assumes "can_send self" and "- (2 ^ 31) \<le> sc" and "sc < 2 ^ 31"
  shows "sendKey self type sc =
    (if sc = 0 then CriticalReturn
     else if sc < 0 then (if 32 dvd sc then CriticalReturn else UndefinedBehaviour)
     else if sc < 512 then Done [Key_block type sc] else CriticalReturn)"
  using assms by (intro sendKey_range) (auto simp: can_send_def)

theorem sendKey_spec_witness:
  "sendKey (cs_input_init 1) kCSInputKeyPress 600 = CriticalReturn"
  by (subst sendKey_spec) (simp_all add: can_send_def cs_input_init_def)

section \<open>Releasing every key\<close>

definition release_blocks :: "nat list \<Rightarrow> input_block list" where
  "release_blocks ns = map (\<lambda>n. Key_block kCSInputKeyRelease (int n)) ns"

definition release_calls :: "nat set \<Rightarrow> nat list \<Rightarrow> input_call list" where
  "release_calls A ns = map (\<lambda>n. Key_release (int n)) (filter (\<lambda>n. n \<in> A) ns)"

lemma key_codes_mono: "release_calls A (xs @ ys) = release_calls A xs @ release_calls A ys"
  by (simp add: release_calls_def)

lemma run_release_step:
  assumes "0 < n" and "n < 512" and "length (key_state self) = 16"
  shows "run_input (Key_block kCSInputKeyRelease (int n)) self =
    (if n \<in> keys_down self
     then (self\<lparr>key_state := words_unmark n (key_state self)\<rparr>, [Key_release (int n)])
     else (self, []))"
  using key_block_step(2)[of "int n" self] assms by simp

lemma run_releases:
  assumes "\<forall>n\<in>set ns. 0 < n \<and> n < 512" and "distinct ns" and "can_send (obj w)"
  shows "calls (fold (run_now run_input) (release_blocks ns) w) =
      calls w @ release_calls (keys_down (obj w)) ns \<and>
    keys_down (obj (fold (run_now run_input) (release_blocks ns) w)) = keys_down (obj w) - set ns \<and>
    can_send (obj (fold (run_now run_input) (release_blocks ns) w))"
  using assms
proof (induction ns arbitrary: w)
  case Nil
  then show ?case by (simp add: release_blocks_def release_calls_def)
next
  case (Cons n ns)
  let ?b = "Key_block kCSInputKeyRelease (int n)" and ?w = "run_now run_input (Key_block kCSInputKeyRelease (int n)) w"
  have n: "0 < n" "n < 512" "length (key_state (obj w)) = 16"
    using Cons.prems by (auto simp: can_send_def)
  have run: "run_input ?b (obj w) =
    (if n \<in> keys_down (obj w)
     then ((obj w)\<lparr>key_state := words_unmark n (key_state (obj w))\<rparr>, [Key_release (int n)])
     else (obj w, []))"
    by (rule run_release_step[OF n])
  have keys: "keys_down (obj ?w) = keys_down (obj w) - {n}" and ok: "can_send (obj ?w)"
    and cs: "calls ?w = calls w @ release_calls (keys_down (obj w)) [n]"
    using n Cons.prems(3) by (simp_all add: run can_send_def release_calls_def del: run_input.simps)
  have same: "release_calls (keys_down (obj ?w)) ns = release_calls (keys_down (obj w)) ns"
    unfolding keys release_calls_def using Cons.prems(2)
    by (intro arg_cong[where f = "map _"] filter_cong) auto
  have "fold (run_now run_input) (release_blocks (n # ns)) w =
      fold (run_now run_input) (release_blocks ns) ?w"
    by (simp add: release_blocks_def)
  then show ?case
    using Cons.IH[of ?w] Cons.prems ok keys cs same key_codes_mono[of "keys_down (obj w)" "[n]" ns]
    by auto
qed

text \<open>The scancodes \<open>releaseKeys\<close> sends for word \<open>i\<close>, in order.\<close>

definition word_codes :: "nat \<Rightarrow> nat list" where
  "word_codes i = filter (\<lambda>n. n \<noteq> 0) (map (\<lambda>b. i * 32 + b) [0..<32])"

lemma set_word_codes: "n \<in> set (word_codes i) \<longleftrightarrow> n \<noteq> 0 \<and> n div 32 = i"
proof
  assume "n \<noteq> 0 \<and> n div 32 = i"
  then have "n = i * 32 + n mod 32" "n mod 32 < 32" "n \<noteq> 0" by auto
  then show "n \<in> set (word_codes i)" by (auto simp: word_codes_def)
qed (auto simp: word_codes_def)

lemma distinct_word_codes: "distinct (word_codes i)"
  by (simp add: word_codes_def distinct_map)

lemma word_codes_upto: "concat (map word_codes [0..<k]) = filter (\<lambda>n. n \<noteq> 0) [0..<32 * k]"
proof (induction k)
  case 0
  show ?case by simp
next
  case (Suc k)
  have "map (\<lambda>b. k * 32 + b) [0..<32] = [32 * k..<32 * k + 32]"
    by (rule nth_equalityI) (simp_all add: nth_append)
  then show ?case using Suc upt_add_eq_append[of 0 "32 * k" 32]
    by (simp add: word_codes_def add.commute)
qed

lemma word_codes_all: "concat (map word_codes [0..<16]) = [1..<512]"
proof -
  have "[0..<512] = 0 # [1..<512]" by (simp add: upt_conv_Cons)
  moreover have "filter (\<lambda>n. n \<noteq> 0) [1..<512] = [1::nat..<512]" by (simp add: filter_id_conv)
  ultimately show ?thesis by (simp add: word_codes_upto del: upt_rec_numeral)
qed

lemma zero_word_no_keys:
  assumes "length (key_state self) = 16" and "key_state self ! i = 0" and "i < 16"
  shows "n div 32 = i \<Longrightarrow> n \<notin> keys_down self"
  using assms by (auto simp: keys_down_iff words_test_def)


lemma fold_release_not_held:
  assumes "length (key_state (obj w)) = 16" and "\<forall>n\<in>set ns. 0 < n \<and> n < 512 \<and> n \<notin> keys_down (obj w)"
  shows "fold (run_now run_input) (release_blocks ns) w = w"
  using assms(2)
proof (induction ns)
  case (Cons n ns)
  have "run_now run_input (Key_block kCSInputKeyRelease (int n)) w = w"
    using Cons.prems assms(1) by (simp add: run_now_def run_release_step del: run_input.simps)
  with Cons show ?case by (simp add: release_blocks_def)
qed (simp add: release_blocks_def)

lemma release_scancode_posts:
  assumes "can_send (obj w)" and "0 < n" and "n < 512"
  shows "release_scancode c (int n) w = asyncWith run_input c (Key_block kCSInputKeyRelease (int n)) w"
  using assms sendKey_range[of "obj w" "int n" kCSInputKeyRelease]
  by (simp add: release_scancode_def can_send_def)

lemma fold_map_filter_if:
  "fold (\<lambda>b. if P (g b) then f (g b) else (\<lambda>w. w)) xs w = fold f (filter P (map g xs)) w"
  by (induction xs arbitrary: w) simp_all

lemma release_word_fold:
  "release_word c i w = (if key_state (obj w) ! i = 0 then w
     else fold (\<lambda>n. release_scancode c (int n)) (word_codes i) w)"
proof -
  have "(\<lambda>b w. if i * 32 + b \<noteq> 0 then release_scancode c (int (i * 32 + b)) w else w) =
      (\<lambda>b. if i * 32 + b \<noteq> 0 then release_scancode c (int (i * 32 + b)) else (\<lambda>w. w))"
    by (intro ext) simp
  then show ?thesis
    using fold_map_filter_if[where P = "\<lambda>n. n \<noteq> 0" and g = "\<lambda>b. i * 32 + b"
        and f = "\<lambda>n. release_scancode c (int n)" and xs = "[0..<32]"]
    by (simp add: release_word_def word_codes_def)
qed

lemma fold_release_on_context:
  assumes "can_send (obj w)" and "\<forall>n\<in>set ns. 0 < n \<and> n < 512" and "distinct ns"
  shows "fold (\<lambda>n. release_scancode True (int n)) ns w = fold (run_now run_input) (release_blocks ns) w"
  using assms
proof (induction ns arbitrary: w)
  case (Cons n ns)
  have "can_send (obj (fold (run_now run_input) (release_blocks [n]) w))"
    using Cons.prems run_releases[of "[n]" w] by auto
  with Cons show ?case by (simp add: release_scancode_posts release_blocks_def)
qed (simp add: release_blocks_def)

lemma fold_release_elsewhere:
  assumes "can_send (obj w)" and "\<forall>n\<in>set ns. 0 < n \<and> n < 512"
  shows "fold (\<lambda>n. release_scancode False (int n)) ns w = w\<lparr>posted := posted w @ release_blocks ns\<rparr>"
  using assms
proof (induction ns arbitrary: w)
  case (Cons n ns)
  then show ?case by (simp add: release_scancode_posts release_blocks_def)
qed (simp add: release_blocks_def)

lemma word_codes_range: "i < 16 \<Longrightarrow> \<forall>n\<in>set (word_codes i). 0 < n \<and> n < 512"
  by (auto simp: set_word_codes)

lemma release_word_on_context:
  assumes "can_send (obj w)" and "i < 16"
  shows "release_word True i w = fold (run_now run_input) (release_blocks (word_codes i)) w"
proof (cases "key_state (obj w) ! i = 0")
  case True
  then have "\<forall>n\<in>set (word_codes i). 0 < n \<and> n < 512 \<and> n \<notin> keys_down (obj w)"
    using assms zero_word_no_keys[of "obj w" i] word_codes_range[OF assms(2)]
    by (auto simp: can_send_def set_word_codes)
  then show ?thesis using True assms fold_release_not_held[of w "word_codes i"]
    by (simp add: release_word_fold can_send_def)
next
  case False
  then show ?thesis using assms fold_release_on_context[of w "word_codes i"]
      word_codes_range[OF assms(2)]
    by (simp add: release_word_fold distinct_word_codes)
qed

lemma fold_release_words_on_context:
  assumes "can_send (obj w)" and "\<forall>i\<in>set js. i < 16"
  shows "fold (release_word True) js w =
    fold (run_now run_input) (release_blocks (concat (map word_codes js))) w"
  using assms
proof (induction js arbitrary: w)
  case (Cons i js)
  have "can_send (obj (release_word True i w))"
    using Cons.prems run_releases[of "word_codes i" w] word_codes_range[of i]
    by (simp add: release_word_on_context distinct_word_codes)
  with Cons show ?case by (simp add: release_word_on_context release_blocks_def)
qed (simp add: release_blocks_def)

lemma fold_release_words_elsewhere:
  assumes "can_send (obj w)" and "\<forall>i\<in>set js. i < 16"
  shows "fold (release_word False) js w = w\<lparr>posted := posted w @
    release_blocks (concat (map word_codes (filter (\<lambda>i. key_state (obj w) ! i \<noteq> 0) js)))\<rparr>"
  using assms
proof (induction js arbitrary: w)
  case (Cons i js)
  then have "release_word False i w = w\<lparr>posted := posted w @
      (if key_state (obj w) ! i = 0 then [] else release_blocks (word_codes i))\<rparr>"
    using fold_release_elsewhere[of w "word_codes i"] word_codes_range[of i]
    by (simp add: release_word_fold)
  with Cons show ?case by (simp add: release_blocks_def)
qed (simp add: release_blocks_def)

lemma release_calls_skip:
  assumes "\<forall>n\<in>A. P (n div 32)"
  shows "release_calls A (concat (map word_codes (filter P js))) =
    release_calls A (concat (map word_codes js))"
proof (induction js)
  case (Cons i js)
  have "\<not> P i \<Longrightarrow> release_calls A (word_codes i) = []"
    using assms by (auto simp: release_calls_def filter_empty_conv set_word_codes)
  with Cons show ?case by (simp add: key_codes_mono)
qed simp

lemma set_word_codes_concat:
  "n \<in> set (concat (map word_codes js)) \<longleftrightarrow> n \<noteq> 0 \<and> n div 32 \<in> set js"
  by (auto simp: set_word_codes)

lemma distinct_word_codes_concat: "distinct js \<Longrightarrow> distinct (concat (map word_codes js))"
  by (induction js) (auto simp: distinct_word_codes set_word_codes)

lemma release_calls_concat_all:
  "length (key_state self) = 16 \<Longrightarrow>
     release_calls (keys_down self) (concat (map word_codes (filter (\<lambda>i. key_state self ! i \<noteq> 0) [0..<16]))) =
     release_calls (keys_down self) [1..<512]"
  by (subst release_calls_skip) (auto simp: word_codes_all keys_down_iff words_test_def)

lemma releaseKeys_drained:
  assumes "can_send (obj w)" and "posted w = []"
  shows "\<exists>js. set js \<subseteq> {0..<16} \<and> distinct js \<and>
    (\<forall>n\<in>keys_down (obj w). n div 32 \<in> set js) \<and>
    release_calls (keys_down (obj w)) (concat (map word_codes js)) =
      release_calls (keys_down (obj w)) [1..<512] \<and>
    drain run_input (releaseKeys on_context w) =
      fold (run_now run_input) (release_blocks (concat (map word_codes js))) w"
proof (cases on_context)
  case True
  have len: "length (key_state (obj w)) = 16" using assms(1) by (simp add: can_send_def)
  then have "releaseKeys True w = fold (run_now run_input) (release_blocks (concat (map word_codes [0..<16]))) w"
    using fold_release_words_on_context[of w "[0..<16]"] assms(1) by (simp add: releaseKeys_def)
  then have "drain run_input (releaseKeys on_context w) =
      fold (run_now run_input) (release_blocks (concat (map word_codes [0..<16]))) w"
    using True assms(2) by (simp add: drain_def fold_run_now_posted)
  then show ?thesis using len
    by (intro exI[of _ "[0..<16]"]) (auto simp: keys_down_iff word_codes_all)
next
  case False
  let ?js = "filter (\<lambda>i. key_state (obj w) ! i \<noteq> 0) [0..<16]"
  have len: "length (key_state (obj w)) = 16" using assms(1) by (simp add: can_send_def)
  then have "releaseKeys False w = w\<lparr>posted := release_blocks (concat (map word_codes ?js))\<rparr>"
    using fold_release_words_elsewhere[of w "[0..<16]"] assms by (simp add: releaseKeys_def)
  then have "drain run_input (releaseKeys on_context w) =
      fold (run_now run_input) (release_blocks (concat (map word_codes ?js))) (w\<lparr>posted := []\<rparr>)"
    using False by (simp add: drain_def)
  moreover have "w\<lparr>posted := []\<rparr> = w" using assms(2) by simp
  ultimately have drained: "drain run_input (releaseKeys on_context w) =
      fold (run_now run_input) (release_blocks (concat (map word_codes ?js))) w" by simp
  have held: "\<forall>n\<in>keys_down (obj w). n div 32 \<in> set ?js"
    using len by (auto simp: keys_down_iff words_test_def)
  show ?thesis
    using drained held release_calls_concat_all[OF len] by (intro exI[of _ ?js]) auto
qed

text \<open>
  Once the posted blocks have run, \<open>releaseKeys\<close> has released every pressed key: exactly one
  release per key that was down, in ascending order of scancode, and no key is left, whichever
  thread calls it.
\<close>

theorem releaseKeys_releases_all:
  assumes "can_send (obj w)" and "input_inv (obj w)" and "posted w = []"
  shows "calls (drain run_input (releaseKeys on_context w)) =
      calls w @ release_calls (keys_down (obj w)) [1..<512] \<and>
    keys_down (obj (drain run_input (releaseKeys on_context w))) = {}"
proof -
  obtain js where js: "set js \<subseteq> {0..<16}" "distinct js"
    "\<forall>n\<in>keys_down (obj w). n div 32 \<in> set js"
    "release_calls (keys_down (obj w)) (concat (map word_codes js)) =
      release_calls (keys_down (obj w)) [1..<512]"
    "drain run_input (releaseKeys on_context w) =
      fold (run_now run_input) (release_blocks (concat (map word_codes js))) w"
    using releaseKeys_drained[OF assms(1,3), of on_context] by (elim exE conjE)
  have range: "\<forall>n\<in>set (concat (map word_codes js)). 0 < n \<and> n < 512"
  proof
    fix n assume "n \<in> set (concat (map word_codes js))"
    then have "n \<noteq> 0" "n div 32 \<in> set js" unfolding set_word_codes_concat by auto
    then show "0 < n \<and> n < 512" using js(1) by auto
  qed
  have "keys_down (obj w) \<subseteq> set (concat (map word_codes js))"
  proof
    fix n assume n: "n \<in> keys_down (obj w)"
    have "n \<noteq> 0" using n assms(2) unfolding input_inv_def by metis
    with n js(3) show "n \<in> set (concat (map word_codes js))" unfolding set_word_codes_concat by simp
  qed
  then have "keys_down (obj w) - set (concat (map word_codes js)) = {}" by (simp only: Diff_eq_empty_iff)
  then show ?thesis
    using run_releases[OF range distinct_word_codes_concat[OF js(2)] assms(1)]
    unfolding js(5) js(4) by (simp only: simp_thms)
qed

theorem releaseKeys_releases_all_witness:
  "calls (drain run_input (releaseKeys False
     (new_world ((cs_input_init 1)\<lparr>key_state := words_mark 30 (replicate 16 0)\<rparr>)))) =
   release_calls (keys_down ((cs_input_init 1)\<lparr>key_state := words_mark 30 (replicate 16 0)\<rparr>)) [1..<512]"
proof -
  let ?s = "(cs_input_init 1)\<lparr>key_state := words_mark 30 (replicate 16 0)\<rparr>"
  have "words_test (replicate 16 0) 0 = False" by (simp add: words_test_def)
  then have "0 \<notin> keys_down ?s" by (simp add: keys_down_iff words_test_mark words_size_def)
  then have "can_send (obj (new_world ?s))" "input_inv (obj (new_world ?s))" "posted (new_world ?s) = []"
    by (simp_all add: can_send_def input_inv_def new_world_def cs_input_init_def)
  from conjunct1[OF releaseKeys_releases_all[OF this, of False]] show ?thesis
    by (simp add: new_world_def)
qed

text \<open>
  With \<open>disableInputs\<close> set the guard of \<open>sendKey\<close> stops every release, so \<open>releaseKeys\<close> then
  changes nothing and the pressed keys stay down.
\<close>

theorem releaseKeys_disabled:
  assumes "disableInputs (obj w)"
  shows "releaseKeys on_context w = w"
proof -
  have "release_scancode on_context (int n) w = w" if "0 < n" for n
    using assms that by (simp add: release_scancode_def sendKey_def)
  then have step: "fold (\<lambda>n. release_scancode on_context (int n)) ns w = w" if "\<forall>n\<in>set ns. 0 < n" for ns
    using that by (induction ns) simp_all
  have "release_word on_context i w = w" for i
    using step[of "word_codes i"] by (simp add: release_word_fold set_word_codes)
  then have "fold (release_word on_context) js w = w" for js
    by (induction js) simp_all
  then show ?thesis by (simp add: releaseKeys_def)
qed

theorem releaseKeys_disabled_witness:
  "releaseKeys True (new_world ((cs_input_init 1)\<lparr>disableInputs := True\<rparr>)) =
     new_world ((cs_input_init 1)\<lparr>disableInputs := True\<rparr>)"
  by (rule releaseKeys_disabled) (simp add: new_world_def)

end
