(* ===== verification/Input_Mouse.thy ===== *)
theory Input_Mouse
  imports Input
begin

text \<open>
  Pointer properties of \<^verbatim>\<open>CSInput.m\<close>: the smooth-scrolling loop is truncation and loses no
  movement, the key locks survive the round trip through the protocol's bits, and how button
  sets are translated.
\<close>

section \<open>Scrolling\<close>

definition click :: "SpiceMouseButton \<Rightarrow> guint32 \<Rightarrow> input_call list" where
  "click b state = [Button_press (button_number b) state, Button_release (button_number b) state]"

definition clicks :: "nat \<Rightarrow> SpiceMouseButton \<Rightarrow> guint32 \<Rightarrow> input_call list" where
  "clicks n b state = concat (replicate n (click b state))"

lemma c_trunc_step_neg: "d \<le> - 1 \<Longrightarrow> c_trunc (d + 1) = c_trunc d + 1"
proof -
  assume d: "d \<le> - 1"
  have "- (d + 1) = - d - 1" by simp
  then have "\<lfloor>- (d + 1)\<rfloor> = \<lfloor>- d\<rfloor> - 1" by (simp only: floor_diff_one)
  with d show ?thesis by (cases "d = -1") (auto simp: c_trunc_def)
qed

lemma c_trunc_step_pos: "1 \<le> d \<Longrightarrow> c_trunc (d - 1) = c_trunc d - 1"
  by (simp add: c_trunc_def)

lemma c_trunc_small: "\<bar>d\<bar> < 1 \<Longrightarrow> c_trunc d = 0"
  by (auto simp: c_trunc_def abs_if floor_eq_iff split: if_splits)

lemma c_trunc_sign: "d \<le> - 1 \<Longrightarrow> c_trunc d \<le> - 1" "1 \<le> d \<Longrightarrow> 1 \<le> c_trunc d"
  by (auto simp: c_trunc_def le_floor_iff)

lemma clicks_Suc: "clicks (Suc n) b state = click b state @ clicks n b state"
  by (simp add: clicks_def)

lemma smooth_clicks_spec:
  "smooth_clicks d state =
    (d - of_int (c_trunc d),
     clicks (nat \<bar>c_trunc d\<bar>) (if d < 0 then SPICE_MOUSE_BUTTON_UP else SPICE_MOUSE_BUTTON_DOWN) state)"
proof (induction d state rule: smooth_clicks.induct)
  case (1 d state)
  consider "\<bar>d\<bar> < 1" | "d \<le> - 1" | "1 \<le> d" by linarith
  then show ?case
  proof cases
    case 1
    then show ?thesis by (subst smooth_clicks.simps) (simp add: c_trunc_small clicks_def)
  next
    case 2
    obtain n where n: "c_trunc d = - int (Suc n)"
      using c_trunc_sign(1)[OF 2] by (intro that[of "nat (- c_trunc d - 1)"]) simp
    have "c_trunc (d + 1) = - int n" using n by (simp add: c_trunc_step_neg[OF 2])
    moreover have "n = 0 \<or> d + 1 < 0"
      using 2 n by (cases "d = -1") (auto simp: c_trunc_def)
    moreover have "nat (int n + 1) = Suc n" by simp
    ultimately show ?thesis using 2 "1.IH"(1) n
      by (subst smooth_clicks.simps) (auto simp: clicks_Suc click_def clicks_def[of 0])
  next
    case 3
    obtain n where n: "c_trunc d = int (Suc n)"
      using c_trunc_sign(2)[OF 3] by (intro that[of "nat (c_trunc d - 1)"]) simp
    have "c_trunc (d - 1) = int n" using n by (simp add: c_trunc_step_pos[OF 3])
    moreover have "nat (1 + int n) = Suc n" by simp
    ultimately show ?thesis using 3 "1.IH"(2) n
      by (subst smooth_clicks.simps) (auto simp: clicks_Suc click_def)
  qed
qed


text \<open>Net downward clicks among the calls, and what a run of smooth scrolls adds up to.\<close>

fun net_clicks :: "input_call list \<Rightarrow> int" where
  "net_clicks (Button_press b state # cs) =
     (if b = button_number SPICE_MOUSE_BUTTON_DOWN then 1
      else if b = button_number SPICE_MOUSE_BUTTON_UP then - 1 else 0) + net_clicks cs"
| "net_clicks (c # cs) = net_clicks cs"
| "net_clicks [] = 0"

lemma net_clicks_append [simp]: "net_clicks (xs @ ys) = net_clicks xs + net_clicks ys"
  by (induction xs rule: net_clicks.induct) simp_all

lemma net_clicks_clicks [simp]:
  "net_clicks (clicks n SPICE_MOUSE_BUTTON_DOWN state) = int n"
  "net_clicks (clicks n SPICE_MOUSE_BUTTON_UP state) = - int n"
  unfolding clicks_def by (induction n) (simp_all add: click_def button_number_def)

lemma smooth_clicks_net: "of_int (net_clicks (snd (smooth_clicks d state))) + fst (smooth_clicks d state) = d"
proof (cases "d < 0")
  case True
  then have "c_trunc d \<le> 0" by (simp add: c_trunc_def)
  with True show ?thesis by (simp add: smooth_clicks_spec)
next
  case False
  then have "0 \<le> c_trunc d" by (simp add: c_trunc_def)
  with False show ?thesis by (simp add: smooth_clicks_spec)
qed

definition scroll_run :: "(guint32 \<times> cgfloat) list \<Rightarrow>
  (cs_input, input_block, input_call) world \<Rightarrow> (cs_input, input_block, input_call) world" where
  "scroll_run es w = fold (run_now run_input)
     (map (\<lambda>(state, dy). Scroll_block kCSInputScrollSmooth state dy) es) w"

text \<open>
  Over any sequence of smooth scrolls no movement is lost: net clicks sent plus the
  remainder equal the remainder before plus the sum of the movements.
\<close>

theorem scroll_conserves:
  "of_int (net_clicks (calls (scroll_run es w))) + scroll_delta_y (obj (scroll_run es w)) =
     of_int (net_clicks (calls w)) + scroll_delta_y (obj w) + sum_list (map snd es)"
proof (induction es arbitrary: w)
  case Nil
  show ?case by (simp add: scroll_run_def)
next
  case (Cons e es)
  obtain state dy where e: "e = (state, dy)" by (cases e)
  let ?w = "run_now run_input (Scroll_block kCSInputScrollSmooth state dy) w"
  have "scroll_run (e # es) w = scroll_run es ?w" by (simp add: scroll_run_def e)
  moreover have "of_int (net_clicks (calls ?w)) + scroll_delta_y (obj ?w) =
      of_int (net_clicks (calls w)) + scroll_delta_y (obj w) + dy"
    using smooth_clicks_net[of "scroll_delta_y (obj w) + dy" state] by (simp add: split_beta)
  ultimately show ?case using Cons[of ?w] by (simp add: e)
qed

section \<open>Locks and buttons\<close>


text \<open>The flag tests and the accumulation of flags, bit by bit.\<close>

lemma has_flag_bit: "has_flag w (2 ^ k) \<longleftrightarrow> bit w k"
  by (simp add: has_flag_def and_exp_eq_0_iff_not_bit)

lemma or_if_bit: "bit (or_if c (2 ^ k) acc) n \<longleftrightarrow> c \<and> n = k \<and> k < 32 \<or> bit acc n"
  by (auto simp: or_if_def bit_or_iff bit_exp_iff)

lemma if_flag_bit: "bit (if c then 2 ^ k else 0 :: nsuint) n \<longleftrightarrow> c \<and> n = k \<and> k < 64"
  by (auto simp: bit_exp_iff)

lemma low_bits: "bit (w AND (2 ^ k - 1)) n \<longleftrightarrow> n < k \<and> bit (w :: 'a :: len word) n"
  by (auto simp: bit_and_iff mask_eq_exp_minus_1[symmetric] bit_mask_iff intro: bit_imp_le_length)

lemma button_powers:
  "kCSInputButtonLeft = 2 ^ 0" "kCSInputButtonMiddle = 2 ^ 1" "kCSInputButtonRight = 2 ^ 2"
  "kCSInputButtonUp = 2 ^ 3" "kCSInputButtonDown = 2 ^ 4" "kCSInputButtonSide = 2 ^ 5"
  "kCSInputButtonExtra = 2 ^ 6"
  by (simp_all add: button_defs)

lemma mask_powers:
  "button_mask SPICE_MOUSE_BUTTON_LEFT = 2 ^ 0" "button_mask SPICE_MOUSE_BUTTON_MIDDLE = 2 ^ 1"
  "button_mask SPICE_MOUSE_BUTTON_RIGHT = 2 ^ 2" "button_mask SPICE_MOUSE_BUTTON_UP = 2 ^ 3"
  "button_mask SPICE_MOUSE_BUTTON_DOWN = 2 ^ 4" "button_mask SPICE_MOUSE_BUTTON_SIDE = 2 ^ 5"
  "button_mask SPICE_MOUSE_BUTTON_EXTRA = 2 ^ 6"
  by simp_all

lemma lock_powers:
  "kCSInputKeyLockScroll = 2 ^ 0" "kCSInputKeyLockNum = 2 ^ 1" "kCSInputKeyLockCaps = 2 ^ 2"
  "SPICE_INPUTS_SCROLL_LOCK = 2 ^ 0" "SPICE_INPUTS_NUM_LOCK = 2 ^ 1" "SPICE_INPUTS_CAPS_LOCK = 2 ^ 2"
  by (simp_all add: key_lock_defs)

lemma less7: "n < (7 :: nat) \<longleftrightarrow> n = 0 \<or> n = 1 \<or> n = 2 \<or> n = 3 \<or> n = 4 \<or> n = 5 \<or> n = 6"
  by arith

lemma less3: "n < (3 :: nat) \<longleftrightarrow> n = 0 \<or> n = 1 \<or> n = 2"
  by arith

lemma spice_locks_bit: "bit (spice_locks lock) n \<longleftrightarrow> n < 3 \<and> bit lock n"
  unfolding spice_locks_def lock_powers has_flag_bit or_if_bit less3 by auto

lemma keyLock_bit: "in_channel self \<noteq> None \<Longrightarrow> bit (keyLock self locks) n \<longleftrightarrow> n < 3 \<and> bit locks n"
proof -
  assume "in_channel self \<noteq> None"
  then have "keyLock self locks =
      (if bit locks 1 then 2 ^ 1 else 0) OR (if bit locks 2 then 2 ^ 2 else 0) OR
      (if bit locks 0 then 2 ^ 0 else 0)"
    unfolding keyLock_def lock_powers and_exp_eq_0_iff_not_bit by (simp only: if_False not_not)
  then show ?thesis unfolding less3 by (simp only: bit_or_iff if_flag_bit) auto
qed

lemma low3: "bit (w AND 7) n \<longleftrightarrow> n < 3 \<and> bit (w :: 'a :: len word) n"
  using low_bits[of w 3 n] by simp

text \<open>
  Setting a key lock and reading it back gives its three defined bits, and the three bits
  the protocol defines survive being read and set again.
\<close>

theorem key_lock_round_trip:
  assumes "in_channel self \<noteq> None"
  shows "keyLock self (spice_locks lock) = lock AND 7 \<and> spice_locks (keyLock self locks) = locks AND 7"
  by (intro conjI bit_word_eqI) (auto simp: keyLock_bit[OF assms] spice_locks_bit low3)

theorem key_lock_round_trip_witness:
  "keyLock (cs_input_init 1) (spice_locks 6) = 6 AND 7 \<and>
   spice_locks (keyLock (cs_input_init 1) 9) = 9 AND 7"
  by (rule key_lock_round_trip) (simp add: cs_input_init_def)

text \<open>The button mask sent to the guest is the low seven bits of the host's button set.\<close>

theorem button_mask_bits: "cs_button_mask_to_spice b = ucast (b AND 0x7f)"
proof (rule bit_word_eqI)
  fix n assume n: "n < LENGTH(32)"
  have "bit (cs_button_mask_to_spice b) n \<longleftrightarrow> n < 7 \<and> bit b n"
    unfolding cs_button_mask_to_spice_def button_powers mask_powers has_flag_bit or_if_bit less7 by auto
  also have "\<dots> \<longleftrightarrow> bit (ucast (b AND 0x7f) :: guint32) n"
    using low_bits[of b 7 n] n by (simp add: bit_ucast_iff)
  finally show "bit (cs_button_mask_to_spice b) n = bit (ucast (b AND 0x7f) :: guint32) n" .
qed

text \<open>
  \<open>cs_button_to_spice\<close> is exact for one button; for two it joins their numbers bit by bit, so
  the left and middle buttons together are announced as the right one.
\<close>

theorem button_numbers:
  "map cs_button_to_spice [2 ^ 0, 2 ^ 1, 2 ^ 2, 2 ^ 3, 2 ^ 4, 2 ^ 5, 2 ^ 6] =
     map (\<lambda>b. button_number b) (tl mouse_buttons) \<and>
   cs_button_to_spice (kCSInputButtonLeft OR kCSInputButtonMiddle) =
     button_number SPICE_MOUSE_BUTTON_RIGHT"
  by (simp add: cs_button_to_spice_def or_if_def has_flag_def button_defs button_number_def mouse_buttons_def)

end
