(* ===== verification/Port.thy ===== *)
theory Port
  imports Main_Context
begin

text \<open>
  \<^verbatim>\<open>CSPort.m\<close>: a forwarded port. Incoming data and changes of the delegate are jobs of one serial
  dispatch queue; while there is no delegate the last 4096 bytes are kept for the first one to
  come. Shown: the bound on the cache, and that a delegate receives the cached tail and then
  everything that follows, in order and without loss.
\<close>

section \<open>State and jobs\<close>

definition kMaxCacheBufferSize :: nat where "kMaxCacheBufferSize = 4096"

record cs_port =
  port_delegate :: "objref option"
  cacheBuffer :: "guint8 list"

text \<open>
  What the delegate is handed is either data of its own or the cache object itself, whose
  contents at the time of the call are recorded with it.
\<close>

datatype received = Own_data "guint8 list" | Cache_object "guint8 list"

datatype port_call =
    Did_receive objref received
  | Did_disconnect objref
  | Did_error objref string

datatype port_job = Data_job "guint8 list" | Delegate_job "objref option"

definition cs_port_init :: cs_port where
  "cs_port_init = \<lparr>port_delegate = None, cacheBuffer = []\<rparr>"

lemma cs_port_init_simps [simp]: "port_delegate cs_port_init = None" "cacheBuffer cs_port_init = []"
  by (simp_all add: cs_port_init_def)

section \<open>Handlers\<close>

text \<open>\<open>replaceBytesInRange:\<close> cuts the front so that the limit is kept.\<close>

definition cache_append :: "guint8 list \<Rightarrow> guint8 list \<Rightarrow> guint8 list" where
  "cache_append cache nsdata =
     (let c = cache @ nsdata in
      if length c > kMaxCacheBufferSize then drop (length c - kMaxCacheBufferSize) c else c)"

fun run_port :: "port_job \<Rightarrow> cs_port \<Rightarrow> cs_port \<times> port_call list" where
  "run_port (Data_job nsdata) self =
     (case port_delegate self of
        Some delegate \<Rightarrow> (self, [Did_receive delegate (Own_data nsdata)])
      | None \<Rightarrow> (self\<lparr>cacheBuffer := cache_append (cacheBuffer self) nsdata\<rparr>, []))"
| "run_port (Delegate_job delegate) self =
     (if port_delegate self = None then
        (self\<lparr>cacheBuffer := [], port_delegate := delegate\<rparr>,
         case delegate of
           Some d \<Rightarrow> (if 0 < length (cacheBuffer self)
                      then [Did_receive d (Cache_object (cacheBuffer self))] else [])
         | None \<Rightarrow> [])
      else (self\<lparr>port_delegate := delegate\<rparr>, []))"

definition cs_port_data :: "guint8 list \<Rightarrow> (cs_port, port_job, port_call) world \<Rightarrow>
    (cs_port, port_job, port_call) world" where
  "cs_port_data data w = asyncWith run_port False (Data_job data) w"

definition port_setDelegate :: "objref option \<Rightarrow> (cs_port, port_job, port_call) world \<Rightarrow>
    (cs_port, port_job, port_call) world" where
  "port_setDelegate delegate w = asyncWith run_port False (Delegate_job delegate) w"

text \<open>The delegate is held weakly and may go away between jobs.\<close>

definition port_delegate_gone :: "(cs_port, port_job, port_call) world \<Rightarrow>
    (cs_port, port_job, port_call) world" where
  "port_delegate_gone w = w\<lparr>obj := (obj w)\<lparr>port_delegate := None\<rparr>\<rparr>"

text \<open>\<open>cs_port_opened\<close> reads the channel's \<open>port-opened\<close> property.\<close>

definition cs_port_opened :: "bool \<Rightarrow> cs_port \<Rightarrow> port_call list" where
  "cs_port_opened isOpen self =
     (if \<not> isOpen then (case port_delegate self of Some d \<Rightarrow> [Did_disconnect d] | None \<Rightarrow> []) else [])"

definition cs_port_write_cb :: "string option \<Rightarrow> cs_port \<Rightarrow> port_call list" where
  "cs_port_write_cb error self =
     (case error of
        None \<Rightarrow> []
      | Some message \<Rightarrow> (case port_delegate self of Some d \<Rightarrow> [Did_error d message] | None \<Rightarrow> []))"

text \<open>
  What a delegate that kept the object it was handed finds in it later: the cache object is
  the port's own buffer.
\<close>

primrec later_contents :: "cs_port \<Rightarrow> received \<Rightarrow> guint8 list" where
  "later_contents self (Own_data bs) = bs"
| "later_contents self (Cache_object bs) = cacheBuffer self"

primrec contents_now :: "received \<Rightarrow> guint8 list" where
  "contents_now (Own_data bs) = bs"
| "contents_now (Cache_object bs) = bs"

section \<open>The cache\<close>

definition port_inv :: "cs_port \<Rightarrow> bool" where
  "port_inv self \<longleftrightarrow> length (cacheBuffer self) \<le> kMaxCacheBufferSize \<and>
     (port_delegate self \<noteq> None \<longrightarrow> cacheBuffer self = [])"

lemma cache_append_tail: "cache_append c bs = drop (length (c @ bs) - kMaxCacheBufferSize) (c @ bs)"
  by (simp add: cache_append_def Let_def)

lemma cache_append_bound: "length (cache_append c bs) \<le> kMaxCacheBufferSize"
  by (simp add: cache_append_tail)

interpretation port: context_client run_port "\<lambda>_. True" port_inv
proof
  fix b s assume "port_inv s"
  then show "port_inv (fst (run_port b s))"
    by (cases b) (auto simp: port_inv_def cache_append_bound split: option.splits)
qed

text \<open>What the port does between jobs, seen by the reachable states.\<close>

inductive port_reach :: "(cs_port, port_job, port_call) world \<Rightarrow> bool" where
  init: "port_reach (new_world cs_port_init)"
| data: "port_reach w \<Longrightarrow> port_reach (cs_port_data bs w)"
| set_delegate: "port_reach w \<Longrightarrow> port_reach (port_setDelegate d w)"
| gone: "port_reach w \<Longrightarrow> port_reach (port_delegate_gone w)"
| job: "port_reach w \<Longrightarrow> port_reach (dispatch run_port w)"

lemma port_world_ok: "port_reach w \<Longrightarrow> port_inv (obj w)"
proof (induction rule: port_reach.induct)
  case (job w)
  then have "port.world_ok w" by (simp add: port.world_ok_def list_all_iff)
  then have "port.world_ok (dispatch run_port w)" by (rule port.dispatch_ok)
  then show ?case by (simp add: port.world_ok_def)
qed (simp_all add: cs_port_data_def port_setDelegate_def port_delegate_gone_def,
     auto simp: port_inv_def kMaxCacheBufferSize_def)

section \<open>Delivery\<close>

text \<open>All bytes handed to delegate \<open>d\<close>, in order.\<close>

fun bytes_for :: "objref \<Rightarrow> port_call list \<Rightarrow> guint8 list" where
  "bytes_for d (Did_receive d' r # cs) = (if d' = d then contents_now r else []) @ bytes_for d cs"
| "bytes_for d (c # cs) = bytes_for d cs"
| "bytes_for d [] = []"

definition tail_bytes :: "guint8 list \<Rightarrow> guint8 list" where
  "tail_bytes bs = drop (length bs - kMaxCacheBufferSize) bs"

lemma bytes_for_append [simp]: "bytes_for d (xs @ ys) = bytes_for d xs @ bytes_for d ys"
  by (induction d xs rule: bytes_for.induct) simp_all

lemma tail_bytes_append: "tail_bytes (tail_bytes xs @ ys) = tail_bytes (xs @ ys)"
  using drop_append_keep_last[of xs ys kMaxCacheBufferSize] by (simp add: tail_bytes_def)

lemma run_data_without_delegate:
  assumes "port_delegate (obj w) = None" and "cacheBuffer (obj w) = tail_bytes cached"
  shows "obj (fold (run_now run_port) (map Data_job ds) w) =
      (obj w)\<lparr>cacheBuffer := tail_bytes (cached @ concat ds)\<rparr> \<and>
    calls (fold (run_now run_port) (map Data_job ds) w) = calls w"
  using assms
proof (induction ds arbitrary: w cached)
  case (Cons d ds)
  have "cache_append (tail_bytes cached) d = tail_bytes (cached @ d)"
    using tail_bytes_append[of cached d] by (simp add: cache_append_tail tail_bytes_def)
  then show ?case
    using Cons.IH[of "run_now run_port (Data_job d) w" "cached @ d"] Cons.prems by simp
qed simp

lemma run_data_with_delegate:
  assumes "port_delegate (obj w) = Some d"
  shows "obj (fold (run_now run_port) (map Data_job ds) w) = obj w \<and>
    calls (fold (run_now run_port) (map Data_job ds) w) =
      calls w @ map (\<lambda>bs. Did_receive d (Own_data bs)) ds"
  using assms by (induction ds arbitrary: w) simp_all

lemma bytes_for_own: "bytes_for d (map (\<lambda>bs. Did_receive d (Own_data bs)) ds) = concat ds"
  by (induction ds) simp_all

text \<open>
  C27. Data that arrives before the first delegate is set is kept as its last 4096 bytes and
  handed over when the delegate is set; everything after follows in order. So the delegate
  receives that tail followed by all later data, and nothing is left in the cache.
\<close>

theorem port_handover:
  "let w = fold (run_now run_port) (map Data_job before @ Delegate_job (Some d) # map Data_job later)
       (new_world cs_port_init)
   in bytes_for d (calls w) = tail_bytes (concat before) @ concat later \<and> cacheBuffer (obj w) = []"
proof -
  let ?w0 = "new_world cs_port_init :: (cs_port, port_job, port_call) world"
  let ?w1 = "fold (run_now run_port) (map Data_job before) ?w0"
  let ?w2 = "run_now run_port (Delegate_job (Some d)) ?w1"
  have w1: "obj ?w1 = cs_port_init\<lparr>cacheBuffer := tail_bytes (concat before)\<rparr>" "calls ?w1 = []"
    using run_data_without_delegate[of ?w0 "[]" before] by (simp_all add: tail_bytes_def)
  have "port_delegate (obj ?w2) = Some d" "cacheBuffer (obj ?w2) = []"
    "bytes_for d (calls ?w2) = tail_bytes (concat before)"
    by (simp_all add: w1)
  then show ?thesis
    using run_data_with_delegate[of ?w2 d later] by (simp add: Let_def bytes_for_own)
qed

text \<open>
  In every reachable state the cache holds at most 4096 bytes, and none while a delegate
  is set.
\<close>

theorem port_cache_bounded:
  assumes "port_reach w"
  shows "length (cacheBuffer (obj w)) \<le> 4096 \<and> (port_delegate (obj w) \<noteq> None \<longrightarrow> cacheBuffer (obj w) = [])"
  using port_world_ok[OF assms] by (simp add: port_inv_def kMaxCacheBufferSize_def)

theorem port_cache_bounded_witness:
  "length (cacheBuffer (obj (dispatch run_port (cs_port_data [1, 2] (new_world cs_port_init))))) \<le> 4096"
  using port_cache_bounded[OF port_reach.job[OF port_reach.data[OF port_reach.init, of "[1, 2]"]]] by simp

text \<open>
  The cached bytes are handed over as the cache object, which the same job then empties:
  a delegate that keeps the object to read it after its callback finds no data in it. Setting
  no delegate on a port that has none drops the cached bytes unseen.
\<close>

theorem cache_not_kept:
  assumes "port_delegate self = None"
    and "Did_receive d r \<in> set (snd (run_port (Delegate_job (Some d)) self))"
  shows "contents_now r = cacheBuffer self \<and> cacheBuffer self \<noteq> [] \<and>
    later_contents (fst (run_port (Delegate_job (Some d)) self)) r = [] \<and>
    run_port (Delegate_job None) self = (self\<lparr>cacheBuffer := []\<rparr>, [])"
  using assms by (cases self) (auto split: if_splits)

theorem cache_not_kept_witness:
  "later_contents (fst (run_port (Delegate_job (Some 3)) \<lparr>port_delegate = None, cacheBuffer = [65]\<rparr>))
     (Cache_object [65]) = []"
  using cache_not_kept[of "\<lparr>port_delegate = None, cacheBuffer = [65]\<rparr>" 3 "Cache_object [65]"] by simp

end
