(* ===== verification/Newlines.thy ===== *)
theory Newlines
  imports Prelude
begin

text \<open>
  The line-ending conversion of \<^verbatim>\<open>CSSession.m\<close> (\<open>get_line\<close>, \<open>spice_convert_newlines\<close>,
  \<open>spice_dos2unix\<close>, \<open>spice_unix2dos\<close>). GLib's \<open>g_strstr_len\<close> is a parameter; what the code relies
  on is its documented result, the first occurrence, on strings without a NUL. Shown: the loop
  computes the two reference conversions, which are inverse to each other on clean text.
\<close>

section \<open>The code\<close>

definition NUL :: guint8 where "NUL = 0"
definition LF :: guint8 where "LF = 10"
definition CR :: guint8 where "CR = 13"

lemma newline_distinct [simp]:
  "CR \<noteq> LF" "LF \<noteq> CR" "CR \<noteq> NUL" "LF \<noteq> NUL" "NUL \<noteq> CR" "NUL \<noteq> LF"
  by (simp_all add: CR_def LF_def NUL_def)

datatype NewlineType = NEWLINE_TYPE_LF | NEWLINE_TYPE_CR_LF

primrec endl :: "NewlineType \<Rightarrow> guint8 list" where
  "endl NEWLINE_TYPE_LF = [LF]"
| "endl NEWLINE_TYPE_CR_LF = [CR, LF]"

lemma endl_not_empty [simp]: "endl t \<noteq> []"
  by (cases t) simp_all

type_synonym strstr_len = "guint8 list \<Rightarrow> guint8 list \<Rightarrow> nat option"

text \<open>Length of the line and of the terminator found after it.\<close>

definition get_line :: "strstr_len \<Rightarrow> guint8 list \<Rightarrow> NewlineType \<Rightarrow> nat \<times> nat" where
  "get_line strstr str type =
     (case strstr str (endl type) of
        Some p \<Rightarrow> (p, length (endl type))
      | None \<Rightarrow> (length str, 0))"

text \<open>The loop over what is left of the text; \<open>out\<close> is the \<open>GString\<close>.\<close>

function convert_loop ::
  "strstr_len \<Rightarrow> NewlineType \<Rightarrow> NewlineType \<Rightarrow> guint8 list \<Rightarrow> guint8 list \<Rightarrow> guint8 list" where
  "convert_loop strstr from to str out =
     (if str = [] then out
      else (let (line, nl) = get_line strstr str from;
                out1 = out @ take line str;
                out2 = (if nl \<noteq> 0 then
                          (if to = NEWLINE_TYPE_CR_LF \<and> (out1 = [] \<or> last out1 \<noteq> CR)
                           then out1 @ [CR] else out1) @ [LF]
                        else out1)
            in convert_loop strstr from to (drop (line + nl) str) out2))"
  by pat_completeness auto
termination
  by (relation "measure (\<lambda>(strstr, from, to, str, out). length str)")
    (auto simp: get_line_def split: option.splits)

declare convert_loop.simps [simp del]

text \<open>
  The function: \<open>str\<close> is \<open>None\<close> for \<open>NULL\<close> and otherwise the bytes up to and with the terminating
  NUL or beyond; \<open>len\<close> as in C. \<open>None\<close> is the value after a failed \<open>g_return_val_if_fail\<close>.
\<close>

definition spice_convert_newlines ::
  "strstr_len \<Rightarrow> guint8 list option \<Rightarrow> int \<Rightarrow> NewlineType \<Rightarrow> NewlineType \<Rightarrow> guint8 list option" where
  "spice_convert_newlines strstr str len from to =
     (case str of
        None \<Rightarrow> None
      | Some s \<Rightarrow>
          if \<not> - 1 \<le> len then None
          else if from = to then None
          else (let n = (if len = - 1 then length (takeWhile (\<lambda>c. c \<noteq> NUL) s)
                         else if 0 < len \<and> s ! nat (len - 1) = NUL then nat (len - 1) else nat len)
                in Some (convert_loop strstr from to (take n s) [])))"

definition spice_dos2unix :: "strstr_len \<Rightarrow> guint8 list option \<Rightarrow> int \<Rightarrow> guint8 list option" where
  "spice_dos2unix strstr str len =
     spice_convert_newlines strstr str len NEWLINE_TYPE_CR_LF NEWLINE_TYPE_LF"

definition spice_unix2dos :: "strstr_len \<Rightarrow> guint8 list option \<Rightarrow> int \<Rightarrow> guint8 list option" where
  "spice_unix2dos strstr str len =
     spice_convert_newlines strstr str len NEWLINE_TYPE_LF NEWLINE_TYPE_CR_LF"

section \<open>What \<open>g_strstr_len\<close> promises\<close>

fun starts_with :: "guint8 list \<Rightarrow> guint8 list \<Rightarrow> bool" where
  "starts_with s [] = True"
| "starts_with (c # s) (d # n) = (c = d \<and> starts_with s n)"
| "starts_with [] (d # n) = False"

fun first_occurrence :: strstr_len where
  "first_occurrence [] n = (if n = [] then Some 0 else None)"
| "first_occurrence (c # s) n =
     (if starts_with (c # s) n then Some 0 else map_option Suc (first_occurrence s n))"

definition strstr_documented :: "strstr_len \<Rightarrow> bool" where
  "strstr_documented strstr \<longleftrightarrow> (\<forall>s n. NUL \<notin> set s \<longrightarrow> n \<noteq> [] \<longrightarrow> strstr s n = first_occurrence s n)"

section \<open>The reference conversions\<close>

text \<open>\<open>dos2unix\<close> drops the CR of every CR LF; \<open>unix2dos\<close> puts one before every LF that has none.\<close>

fun dos2unix :: "guint8 list \<Rightarrow> guint8 list" where
  "dos2unix [] = []"
| "dos2unix (c # s) = (if c = CR \<and> starts_with s [LF] then dos2unix s else c # dos2unix s)"

fun unix2dos :: "bool \<Rightarrow> guint8 list \<Rightarrow> guint8 list" where
  "unix2dos after_cr [] = []"
| "unix2dos after_cr (c # s) =
     (if c = LF \<and> \<not> after_cr then [CR, LF] else [c]) @ unix2dos (c = CR) s"

lemma starts_with_LF: "starts_with s [LF] \<longleftrightarrow> (\<exists>r. s = LF # r)"
  by (cases s) auto

lemma starts_with_CRLF: "starts_with s [CR, LF] \<longleftrightarrow> (\<exists>r. s = CR # LF # r)"
  by (cases s; cases "tl s") auto

lemma first_occurrence_None:
  "first_occurrence s n = None \<Longrightarrow> n \<noteq> [] \<Longrightarrow> (\<forall>k. \<not> starts_with (drop k s) n)"
proof (induction s)
  case Nil
  then show ?case by (cases n) auto
next
  case (Cons c s)
  then show ?case by (auto simp: drop_Cons' split: if_splits)
qed

lemma first_occurrence_Some:
  "first_occurrence s n = Some p \<Longrightarrow>
     starts_with (drop p s) n \<and> (\<forall>k<p. \<not> starts_with (drop k s) n)"
proof (induction s arbitrary: p)
  case Nil
  then show ?case by (auto split: if_splits)
next
  case (Cons c s)
  show ?case
  proof (cases "starts_with (c # s) n")
    case False
    then obtain q where q: "first_occurrence s n = Some q" "p = Suc q"
      using Cons.prems by auto
    then show ?thesis using Cons.IH[OF q(1)] False by (auto simp: drop_Cons' less_Suc_eq_0_disj)
  qed (use Cons.prems in auto)
qed

text \<open>A stretch without a terminator is copied.\<close>

lemma dos2unix_no_crlf:
  "\<forall>k<length a. \<not> starts_with (drop k (a @ b)) [CR, LF] \<Longrightarrow> dos2unix (a @ b) = a @ dos2unix b"
proof (induction a)
  case (Cons c a)
  have "\<not> starts_with (c # a @ b) [CR, LF]" using Cons.prems by force
  moreover have "\<forall>k<length a. \<not> starts_with (drop k (a @ b)) [CR, LF]"
    using Cons.prems by (metis Suc_less_eq append_Cons drop_Suc_Cons length_Cons)
  ultimately show ?case using Cons.IH by (auto simp: starts_with_CRLF starts_with_LF)
qed simp

lemma unix2dos_no_lf:
  "LF \<notin> set a \<Longrightarrow> unix2dos cr (a @ b) = a @ unix2dos (if a = [] then cr else last a = CR) b"
  by (induction a arbitrary: cr) auto

definition after_cr :: "guint8 list \<Rightarrow> bool" where
  "after_cr out \<longleftrightarrow> out \<noteq> [] \<and> last out = CR"

lemma after_cr_append: "after_cr (out @ a) = (if a = [] then after_cr out else last a = CR)"
  by (simp add: after_cr_def)

lemma no_lf_before:
  assumes "\<forall>k<p. \<not> starts_with (drop k s) [LF]" shows "LF \<notin> set (take p s)"
proof
  assume "LF \<in> set (take p s)"
  then obtain k where "k < p" "k < length s" "s ! k = LF" by (auto simp: in_set_conv_nth)
  then have "starts_with (drop k s) [LF]" by (simp add: Cons_nth_drop_Suc[symmetric])
  with assms \<open>k < p\<close> show False by blast
qed

section \<open>The loop computes the reference\<close>

lemma convert_loop_dos2unix:
  assumes "strstr_documented strstr" and "NUL \<notin> set s"
  shows "convert_loop strstr NEWLINE_TYPE_CR_LF NEWLINE_TYPE_LF s out = out @ dos2unix s"
  using assms(2)
proof (induction "length s" arbitrary: s out rule: less_induct)
  case less
  show ?case
  proof (cases "s = []")
    case False
    have occ: "strstr s [CR, LF] = first_occurrence s [CR, LF]"
      using assms(1) less.prems by (simp add: strstr_documented_def)
    show ?thesis
    proof (cases "first_occurrence s [CR, LF]")
      case None
      then have "\<forall>k<length s. \<not> starts_with (drop k (s @ [])) [CR, LF]"
        using first_occurrence_None[OF None] by simp
      then have "dos2unix s = s" using dos2unix_no_crlf[of s "[]"] by simp
      then show ?thesis using False None occ
        by (subst convert_loop.simps) (simp add: get_line_def convert_loop.simps[of _ _ _ "[]"])
    next
      case (Some p)
      obtain r where r: "drop p s = CR # LF # r" and before: "\<forall>k<p. \<not> starts_with (drop k s) [CR, LF]"
        using first_occurrence_Some[OF Some] by (auto simp: starts_with_CRLF)
      have split: "s = take p s @ CR # LF # r" using r by (metis append_take_drop_id)
      have "p < length s" using r by (metis drop_all list.distinct(1) not_le)
      then have "dos2unix s = take p s @ LF # dos2unix r"
        using dos2unix_no_crlf[of "take p s" "CR # LF # r"] before split by simp
      moreover have "drop (p + 2) s = r" using r by (metis drop_Suc_Cons drop_0 drop_drop numeral_2_eq_2 add.commute)
      moreover have "NUL \<notin> set r" "length r < length s" using less.prems split
        by (metis Un_iff set_append list.set_intros(2), metis \<open>drop (p + 2) s = r\<close> \<open>p < length s\<close>
            length_drop diff_less zero_less_numeral add_gr_0 length_greater_0_conv False)
      ultimately show ?thesis using less.hyps[of r "out @ take p s @ [LF]"] False Some occ
        by (subst convert_loop.simps) (simp add: get_line_def)
    qed
  qed (simp add: convert_loop.simps)
qed

lemma convert_loop_unix2dos:
  assumes "strstr_documented strstr" and "NUL \<notin> set s"
  shows "convert_loop strstr NEWLINE_TYPE_LF NEWLINE_TYPE_CR_LF s out = out @ unix2dos (after_cr out) s"
  using assms(2)
proof (induction "length s" arbitrary: s out rule: less_induct)
  case less
  show ?case
  proof (cases "s = []")
    case False
    have occ: "strstr s [LF] = first_occurrence s [LF]"
      using assms(1) less.prems by (simp add: strstr_documented_def)
    show ?thesis
    proof (cases "first_occurrence s [LF]")
      case None
      then have "LF \<notin> set (take (length s) s)"
        using first_occurrence_None[OF None] by (intro no_lf_before) simp
      then have "unix2dos (after_cr out) s = s" using unix2dos_no_lf[of s _ "[]"] by simp
      then show ?thesis using False None occ
        by (subst convert_loop.simps) (simp add: get_line_def convert_loop.simps[of _ _ _ "[]"])
    next
      case (Some p)
      obtain r where r: "drop p s = LF # r" and before: "\<forall>k<p. \<not> starts_with (drop k s) [LF]"
        using first_occurrence_Some[OF Some] by (auto simp: starts_with_LF)
      have split: "s = take p s @ LF # r" using r by (metis append_take_drop_id)
      have drop: "drop (p + 1) s = r" using r by (metis drop_Suc_Cons drop_0 drop_drop One_nat_def add.commute)
      have rest: "NUL \<notin> set r" "length r < length s"
        using less.prems split by (metis Un_iff set_append list.set_intros(2))
          (metis drop False diff_less length_drop length_greater_0_conv add_gr_0 zero_less_one)
      let ?out1 = "out @ take p s"
      let ?out2 = "(if after_cr ?out1 then ?out1 else ?out1 @ [CR]) @ [LF]"
      have "unix2dos (after_cr out) s =
          take p s @ (if after_cr ?out1 then [LF] else [CR, LF]) @ unix2dos False r"
        using unix2dos_no_lf[OF no_lf_before[OF before], of "after_cr out" "LF # r"] split
        by (simp add: after_cr_append)
      moreover have "\<not> after_cr ?out2" by (simp add: after_cr_def)
      moreover have "convert_loop strstr NEWLINE_TYPE_LF NEWLINE_TYPE_CR_LF s out =
          convert_loop strstr NEWLINE_TYPE_LF NEWLINE_TYPE_CR_LF r ?out2"
        using False Some occ drop by (subst convert_loop.simps) (auto simp: get_line_def after_cr_def)
      ultimately show ?thesis using less.hyps[OF rest(2,1), of ?out2] by simp
    qed
  qed (simp add: convert_loop.simps)
qed

section \<open>Properties of the conversion\<close>

lemma unix2dos_head: "starts_with (unix2dos True s) [LF] = starts_with s [LF]"
  by (cases s) auto

lemma dos2unix_unix2dos: "dos2unix (unix2dos cr s) = dos2unix s"
  by (induction s arbitrary: cr) (auto simp: unix2dos_head)

lemma unix2dos_idem: "unix2dos cr (unix2dos cr s) = unix2dos cr s"
  by (induction s arbitrary: cr) auto

lemma dos2unix_clean: "\<forall>k. \<not> starts_with (drop k s) [CR, LF] \<Longrightarrow> dos2unix s = s"
  using dos2unix_no_crlf[of s "[]"] by simp

lemma dos2unix_NUL: "NUL \<notin> set s \<Longrightarrow> NUL \<notin> set (dos2unix s)"
  by (induction s) auto

lemma convert_newlines_prefix:
  assumes "NUL \<notin> set s" and "n \<le> length s" and "from \<noteq> to"
  shows "spice_convert_newlines strstr (Some (s @ rest)) (int n) from to =
    Some (convert_loop strstr from to (take n s) [])"
proof -
  have "0 < n \<Longrightarrow> (s @ rest) ! (n - 1) \<noteq> NUL"
  proof -
    assume n: "0 < n"
    then have "s ! (n - 1) \<in> set s" using assms(2) by (intro nth_mem) simp
    then have "s ! (n - 1) \<noteq> NUL" using assms(1) by metis
    moreover have "n - 1 < length s" using n assms(2) by simp
    ultimately show ?thesis by (simp only: nth_append if_True not_False_eq_True)
  qed
  moreover have "0 < n \<Longrightarrow> nat (int n - 1) = n - 1" by simp
  ultimately show ?thesis using assms(2,3) by (auto simp: spice_convert_newlines_def Let_def)
qed

lemma unix2dos_NUL: "NUL \<notin> set s \<Longrightarrow> NUL \<notin> set (unix2dos cr s)"
  by (induction s arbitrary: cr) auto

text \<open>The three ways a caller gives the length of a text \<open>s\<close> that a NUL ends.\<close>

definition length_arg :: "guint8 list \<Rightarrow> int \<Rightarrow> bool" where
  "length_arg s len \<longleftrightarrow> len = - 1 \<or> len = int (length s) \<or> len = int (length s) + 1"

lemma convert_newlines_text:
  assumes "NUL \<notin> set s" and "length_arg s len" and "from \<noteq> to"
  shows "spice_convert_newlines strstr (Some (s @ NUL # rest)) len from to =
    Some (convert_loop strstr from to s [])"
proof -
  have prefix: "takeWhile (\<lambda>c. c \<noteq> NUL) (s @ NUL # rest) = s"
    using assms(1) by (subst takeWhile_append2) auto
  have "s \<noteq> [] \<Longrightarrow> s ! (length s - Suc 0) \<noteq> NUL"
    using assms(1) by (metis last_conv_nth last_in_set One_nat_def)
  moreover have "s \<noteq> [] \<Longrightarrow> nat (int (length s) - 1) = length s - Suc 0" by simp
  ultimately show ?thesis
    using assms(2,3) by (auto simp: spice_convert_newlines_def length_arg_def prefix nth_append Let_def)
qed

text \<open>
  On a text without an inner NUL, however its length is given, \<open>spice_dos2unix\<close> drops the CR of
  every CR LF and nothing else, and \<open>spice_unix2dos\<close> puts a CR before every LF that has none and
  nothing else.
\<close>

theorem newline_conversions:
  assumes "strstr_documented strstr" and "NUL \<notin> set s" and "length_arg s len"
  shows "spice_dos2unix strstr (Some (s @ NUL # rest)) len = Some (dos2unix s) \<and>
    spice_unix2dos strstr (Some (s @ NUL # rest)) len = Some (unix2dos False s)"
  using assms by (simp add: spice_dos2unix_def spice_unix2dos_def convert_newlines_text
      convert_loop_dos2unix convert_loop_unix2dos after_cr_def)

theorem newline_conversions_witness:
  "spice_unix2dos first_occurrence (Some ([65, 10, 13, 10] @ NUL # [7])) (- 1) =
     Some (unix2dos False [65, 10, 13, 10])"
  using newline_conversions[of first_occurrence "[65, 10, 13, 10]" "- 1" "[7]"]
  by (simp add: strstr_documented_def length_arg_def NUL_def)

text \<open>
  C23. Converting to CR LF and back with the code's own functions gives what converting the
  original would give, so a text without CR LF comes back unchanged; converting to CR LF twice
  is converting once.
\<close>

theorem newline_round_trip:
  assumes "strstr_documented strstr" and "NUL \<notin> set s"
    and "spice_unix2dos strstr (Some (s @ [NUL])) (- 1) = Some t"
  shows "spice_dos2unix strstr (Some (t @ [NUL])) (- 1) = Some (dos2unix s) \<and>
    spice_unix2dos strstr (Some (t @ [NUL])) (- 1) = Some t \<and>
    ((\<forall>k<length s. \<not> starts_with (drop k s) [CR, LF]) \<longrightarrow>
       spice_dos2unix strstr (Some (t @ [NUL])) (- 1) = Some s)"
proof -
  have code: "spice_unix2dos strstr (Some (u @ [NUL])) (- 1) = Some (unix2dos False u) \<and>
      spice_dos2unix strstr (Some (u @ [NUL])) (- 1) = Some (dos2unix u)" if "NUL \<notin> set u" for u
    using that assms(1) by (simp add: spice_dos2unix_def spice_unix2dos_def length_arg_def
        convert_newlines_text convert_loop_dos2unix convert_loop_unix2dos after_cr_def)
  then have "t = unix2dos False s" "NUL \<notin> set t"
    using assms(2,3) unix2dos_NUL[of s False] by auto
  then show ?thesis
    using code[of t] dos2unix_unix2dos[of False s] unix2dos_idem[of False s] dos2unix_no_crlf[of s "[]"] by auto
qed

theorem newline_round_trip_witness:
  "spice_dos2unix first_occurrence (Some ([65, 13, 10, 66] @ [NUL])) (- 1) = Some (dos2unix [65, 10, 66])"
proof -
  let ?s = "[65, 10, 66] :: guint8 list"
  have clean: "NUL \<notin> set ?s" by (simp add: NUL_def)
  have doc: "strstr_documented first_occurrence" by (simp add: strstr_documented_def)
  have "spice_unix2dos first_occurrence (Some (?s @ [NUL])) (- 1) = Some (unix2dos False ?s)"
    unfolding spice_unix2dos_def using clean
    by (subst convert_newlines_text) (simp_all only: length_arg_def convert_loop_unix2dos[OF doc]
      after_cr_def append_Nil NewlineType.distinct simp_thms)
  moreover have "unix2dos False ?s = [65, 13, 10, 66]" by (simp add: LF_def CR_def)
  ultimately show ?thesis using newline_round_trip[OF doc clean] by simp
qed

end
