(* ===== verification/Session.thy ===== *)
theory Session
  imports Main_Context Wire Newlines
begin

text \<open>
  \<^verbatim>\<open>CSSession.m\<close> and \<^verbatim>\<open>CSSession+Sharing.m\<close>: the main channel of a session and the clipboard between
  host and guest. A handler returns what it answers, the calls it makes at once and the blocks
  it posts. The session's read-only flag, the agent's capabilities and the pasteboard's contents
  are parameters.
\<close>

section \<open>Pasteboard types\<close>

datatype CSPasteboardType = kCSPasteboardTypeURL | kCSPasteboardTypeBmp | kCSPasteboardTypeFileURL
  | kCSPasteboardTypeFont | kCSPasteboardTypeHtml | kCSPasteboardTypeJpg | kCSPasteboardTypePdf
  | kCSPasteboardTypePng | kCSPasteboardTypeRtf | kCSPasteboardTypeRtfd | kCSPasteboardTypeSound
  | kCSPasteboardTypeString | kCSPasteboardTypeTabularText | kCSPasteboardTypeTiff

definition cspbTypeForClipboardType :: "nat \<Rightarrow> CSPasteboardType" where
  "cspbTypeForClipboardType type =
     (case clipboard.decode type of
        Some VD_AGENT_CLIPBOARD_UTF8_TEXT \<Rightarrow> kCSPasteboardTypeString
      | Some VD_AGENT_CLIPBOARD_IMAGE_PNG \<Rightarrow> kCSPasteboardTypePng
      | Some VD_AGENT_CLIPBOARD_IMAGE_BMP \<Rightarrow> kCSPasteboardTypeBmp
      | Some VD_AGENT_CLIPBOARD_IMAGE_TIFF \<Rightarrow> kCSPasteboardTypeTiff
      | Some VD_AGENT_CLIPBOARD_IMAGE_JPG \<Rightarrow> kCSPasteboardTypeJpg
      | _ \<Rightarrow> kCSPasteboardTypeString)"

section \<open>State\<close>

text \<open>
  \<open>held\<close> are the references the object owns and \<open>handlers\<close> the channels its four clipboard handlers
  are connected to, one entry per connection.
\<close>

record cs_session =
  session_main :: "objref option"
  shareClipboard :: bool
  pasteboardDelegate :: "objref option"
  held :: "objref list"
  handlers :: "objref list"
  shared_dir :: "(string \<times> bool) option"

datatype session_call =
    Set_string "guint8 list"
  | Set_data "guint8 list" CSPasteboardType
  | Clear_contents
  | Selection_request objref nat nat
  | Selection_notify objref nat nat "guint8 list"
  | Selection_grab "objref option" nat "nat list"
  | Object_ref objref
  | Object_unref objref

datatype session_block =
    Request_block objref nat "nat list"
  | Notify_block objref nat nat "guint8 list"
  | Grab_block nat

fun run_session :: "session_block \<Rightarrow> cs_session \<Rightarrow> cs_session \<times> session_call list" where
  "run_session (Request_block main selection types) self =
     (self, map (Selection_request main selection) types @ [Object_unref main])"
| "run_session (Notify_block main selection type data) self =
     (self, [Selection_notify main selection type data, Object_unref main])"
| "run_session (Grab_block type) self =
     (self, [Selection_grab (session_main self)
        (selection_code VD_AGENT_CLIPBOARD_SELECTION_CLIPBOARD) [type]])"

text \<open>A message to \<open>nil\<close> does nothing.\<close>

definition to_delegate :: "cs_session \<Rightarrow> session_call \<Rightarrow> session_call list" where
  "to_delegate self c = (if pasteboardDelegate self = None then [] else [c])"

section \<open>Clipboard handlers\<close>

text \<open>
  Data from the guest. The bytes handed to \<open>stringWithUTF8String:\<close> are recorded; it reads up to
  the first NUL.
\<close>

definition cs_clipboard_got_from_guest ::
  "strstr_len \<Rightarrow> bool \<Rightarrow> nat \<Rightarrow> guint8 list \<Rightarrow> cs_session \<Rightarrow> session_call list" where
  "cs_clipboard_got_from_guest strstr lineend_crlf type data self =
     (if type = clipboard_code VD_AGENT_CLIPBOARD_UTF8_TEXT \<and> 0 < length data then
        (let textData = (if lineend_crlf
           then (case spice_dos2unix strstr (Some data) (int (length data)) of
                   Some conv \<Rightarrow> takeWhile (\<lambda>c. c \<noteq> NUL) conv
                 | None \<Rightarrow> data)
           else data)
         in to_delegate self (Set_string (takeWhile (\<lambda>c. c \<noteq> NUL) textData)))
      else if type = clipboard_code VD_AGENT_CLIPBOARD_UTF8_TEXT then to_delegate self (Set_string [])
      else to_delegate self (Set_data data (cspbTypeForClipboardType type)))"

definition cs_clipboard_grab ::
  "bool \<Rightarrow> objref \<Rightarrow> nat \<Rightarrow> nat list \<Rightarrow> cs_session \<Rightarrow> bool \<times> session_call list \<times> session_block list" where
  "cs_clipboard_grab read_only main selection types self =
     (if selection \<noteq> selection_code VD_AGENT_CLIPBOARD_SELECTION_CLIPBOARD then (False, [], [])
      else if read_only \<or> \<not> shareClipboard self then (True, [], [])
      else (True, [Object_ref main], [Request_block main selection types]))"

definition cs_clipboard_request ::
  "bool \<Rightarrow> (CSPasteboardType \<Rightarrow> guint8 list option) \<Rightarrow> objref \<Rightarrow> nat \<Rightarrow> nat \<Rightarrow> cs_session \<Rightarrow>
     bool \<times> session_call list \<times> session_block list" where
  "cs_clipboard_request read_only dataForType main selection type self =
     (if selection \<noteq> selection_code VD_AGENT_CLIPBOARD_SELECTION_CLIPBOARD then (False, [], [])
      else if read_only \<or> \<not> shareClipboard self then (False, [], [])
      else (let cspbType = cspbTypeForClipboardType type;
                data = (if pasteboardDelegate self = None then None else dataForType cspbType)
            in case data of
                 Some bs \<Rightarrow> (True, [Object_ref main], [Notify_block main selection type bs])
               | None \<Rightarrow> (True, [], [])))"

definition cs_clipboard_release :: "cs_session \<Rightarrow> session_call list" where
  "cs_clipboard_release self = to_delegate self Clear_contents"

section \<open>Channels\<close>

definition session_channel_new :: "bool \<Rightarrow> objref \<Rightarrow> cs_session \<Rightarrow> cs_session" where
  "session_channel_new is_main channel self =
     (if is_main then self\<lparr>session_main := Some channel, held := channel # held self,
                           handlers := channel # handlers self\<rparr>
      else self)"

text \<open>\<open>None\<close> is the failed \<open>g_assert\<close>.\<close>

definition session_channel_destroy :: "bool \<Rightarrow> objref \<Rightarrow> cs_session \<Rightarrow> cs_session option" where
  "session_channel_destroy is_main channel self =
     (if is_main then
        (if session_main self = Some channel
         then Some (self\<lparr>handlers := filter (\<lambda>c. c \<noteq> channel) (handlers self),
                         held := remove1 channel (held self), session_main := None\<rparr>)
         else None)
      else Some self)"

section \<open>Initialisation and sharing\<close>

definition setSharedDirectory :: "string \<Rightarrow> bool \<Rightarrow> cs_session \<Rightarrow> cs_session" where
  "setSharedDirectory path readOnly self = self\<lparr>shared_dir := Some (path, readOnly)\<rparr>"

definition session_init :: cs_session where
  "session_init = \<lparr>session_main = None, shareClipboard = True, pasteboardDelegate = None,
     held = [], handlers = [], shared_dir = None\<rparr>"

definition initWithSession :: "string \<Rightarrow> objref \<Rightarrow> (bool \<times> objref) list \<Rightarrow> cs_session" where
  "initWithSession publicShare session channels =
     fold (\<lambda>(is_main, ch). session_channel_new is_main ch) channels
       (setSharedDirectory publicShare False (session_init\<lparr>held := [session]\<rparr>))"

definition session_dealloc :: "objref \<Rightarrow> cs_session \<Rightarrow> cs_session option" where
  "session_dealloc session self =
     (let destroyed = (case session_main self of
          Some ch \<Rightarrow> session_channel_destroy True ch self
        | None \<Rightarrow> Some self)
      in map_option (\<lambda>s. s\<lparr>held := remove1 session (held s)\<rparr>) destroyed)"

section \<open>Host pasteboard notifications\<close>

definition announced_type :: "(CSPasteboardType \<Rightarrow> bool) \<Rightarrow> vd_agent_clipboard" where
  "announced_type canRead =
     (if canRead kCSPasteboardTypePng then VD_AGENT_CLIPBOARD_IMAGE_PNG
      else if canRead kCSPasteboardTypeBmp then VD_AGENT_CLIPBOARD_IMAGE_BMP
      else if canRead kCSPasteboardTypeTiff then VD_AGENT_CLIPBOARD_IMAGE_TIFF
      else if canRead kCSPasteboardTypeJpg then VD_AGENT_CLIPBOARD_IMAGE_JPG
      else if canRead kCSPasteboardTypeString then VD_AGENT_CLIPBOARD_UTF8_TEXT
      else VD_AGENT_CLIPBOARD_NONE)"

definition pasteboardDidChange ::
  "bool \<Rightarrow> bool \<Rightarrow> (CSPasteboardType \<Rightarrow> bool) \<Rightarrow> cs_session \<Rightarrow> session_block list" where
  "pasteboardDidChange read_only by_demand canRead self =
     (if session_main self = None \<or> \<not> shareClipboard self \<or> read_only \<or> pasteboardDelegate self = None
      then []
      else (let type = announced_type canRead
            in if by_demand then [Grab_block (clipboard_code type)] else []))"

definition pasteboardDidRemove :: "bool \<Rightarrow> bool \<Rightarrow> cs_session \<Rightarrow> session_block list" where
  "pasteboardDidRemove read_only by_demand self =
     (if session_main self = None \<or> \<not> shareClipboard self \<or> read_only then []
      else if by_demand then [Grab_block (clipboard_code VD_AGENT_CLIPBOARD_UTF8_TEXT)] else [])"

section \<open>Text for the guest\<close>

text \<open>
  An \<open>NSString\<close> as its Unicode scalar values: \<open>length\<close> counts UTF-16 units,
  \<open>cStringUsingEncoding:NSUTF8StringEncoding\<close> gives UTF-8 with a NUL at the end.
\<close>

definition utf16_units :: "nat \<Rightarrow> nat" where
  "utf16_units c = (if c < 0x10000 then 1 else 2)"

definition text_length :: "nat list \<Rightarrow> nat" where
  "text_length t = sum_list (map utf16_units t)"

definition utf8_char :: "nat \<Rightarrow> guint8 list" where
  "utf8_char c =
     (if c < 0x80 then [of_nat c]
      else if c < 0x800 then [of_nat (0xC0 + c div 64), of_nat (0x80 + c mod 64)]
      else if c < 0x10000 then
        [of_nat (0xE0 + c div 4096), of_nat (0x80 + c div 64 mod 64), of_nat (0x80 + c mod 64)]
      else [of_nat (0xF0 + c div 262144), of_nat (0x80 + c div 4096 mod 64),
            of_nat (0x80 + c div 64 mod 64), of_nat (0x80 + c mod 64)])"

definition utf8 :: "nat list \<Rightarrow> guint8 list" where
  "utf8 t = concat (map utf8_char t)"

text \<open>The bytes of the result; \<open>None\<close> for \<open>NULL\<close>.\<close>

definition fixupClipboardText :: "strstr_len \<Rightarrow> bool \<Rightarrow> nat list \<Rightarrow> guint8 list option" where
  "fixupClipboardText strstr lineend_crlf text =
     (if lineend_crlf then spice_unix2dos strstr (Some (utf8 text @ [NUL])) (int (text_length text))
      else Some (utf8 text))"

section \<open>Properties\<close>



lemma cspb_clipboard_code [simp]:
  "cspbTypeForClipboardType (clipboard_code VD_AGENT_CLIPBOARD_UTF8_TEXT) = kCSPasteboardTypeString"
  "cspbTypeForClipboardType (clipboard_code VD_AGENT_CLIPBOARD_IMAGE_PNG) = kCSPasteboardTypePng"
  "cspbTypeForClipboardType (clipboard_code VD_AGENT_CLIPBOARD_IMAGE_BMP) = kCSPasteboardTypeBmp"
  "cspbTypeForClipboardType (clipboard_code VD_AGENT_CLIPBOARD_IMAGE_TIFF) = kCSPasteboardTypeTiff"
  "cspbTypeForClipboardType (clipboard_code VD_AGENT_CLIPBOARD_IMAGE_JPG) = kCSPasteboardTypeJpg"
  "cspbTypeForClipboardType (clipboard_code VD_AGENT_CLIPBOARD_NONE) = kCSPasteboardTypeString"
  by (simp_all only: cspbTypeForClipboardType_def clipboard.decode_code option.case vd_agent_clipboard.case)

text \<open>
  The offer and the answer fit together: when the host's pasteboard changes and the guest
  asks for the type it was offered, the handler reads a type the pasteboard can give, provided
  it can give any of the supported ones, and sends that data back under the offered type.
\<close>

theorem offered_type_answered:
  assumes "session_main self = Some main" and "shareClipboard self" and "\<not> read_only"
    and "pasteboardDelegate self \<noteq> None" and "\<And>t. canRead t \<Longrightarrow> pb t \<noteq> None"
    and "\<exists>t \<in> {kCSPasteboardTypePng, kCSPasteboardTypeBmp, kCSPasteboardTypeTiff,
      kCSPasteboardTypeJpg, kCSPasteboardTypeString}. canRead t"
  shows "\<exists>type data. pasteboardDidChange read_only True canRead self = [Grab_block type] \<and>
    canRead (cspbTypeForClipboardType type) \<and>
    pb (cspbTypeForClipboardType type) = Some data \<and>
    cs_clipboard_request read_only pb main 0 type self =
      (True, [Object_ref main], [Notify_block main 0 type data])"
proof -
  let ?type = "clipboard_code (announced_type canRead)"
  have can: "canRead (cspbTypeForClipboardType ?type)"
    using assms(6) unfolding announced_type_def by (auto simp del: clipboard_code.simps)
  then obtain data where "pb (cspbTypeForClipboardType ?type) = Some data" using assms(5) by blast
  then show ?thesis
    using assms can by (intro exI[of _ ?type] exI[of _ data])
      (auto simp: pasteboardDidChange_def cs_clipboard_request_def)
qed

theorem offered_type_answered_witness:
  "\<exists>type data. pasteboardDidChange False True (\<lambda>t. t = kCSPasteboardTypeString)
      (session_init\<lparr>session_main := Some 4, pasteboardDelegate := Some 5\<rparr>) = [Grab_block type] \<and>
    cs_clipboard_request False (\<lambda>t. if t = kCSPasteboardTypeString then Some [65] else None) 4 0 type
      (session_init\<lparr>session_main := Some 4, pasteboardDelegate := Some 5\<rparr>) =
      (True, [Object_ref 4], [Notify_block 4 0 type data])"
  using offered_type_answered[of "session_init\<lparr>session_main := Some 4, pasteboardDelegate := Some 5\<rparr>" 4 False
      "\<lambda>t. t = kCSPasteboardTypeString" "\<lambda>t. if t = kCSPasteboardTypeString then Some [65] else None"]
  by (auto simp: session_init_def)

lemma takeWhile_NUL: "NUL \<notin> set s \<Longrightarrow> takeWhile (\<lambda>c. c \<noteq> NUL) s = s"
  by (auto simp: takeWhile_eq_all_conv)

lemma dos2unix_bytes:
  assumes "strstr_documented strstr" and "NUL \<notin> set s" and "bytes = s \<or> bytes = s @ [NUL]"
  shows "spice_dos2unix strstr (Some bytes) (int (length bytes)) = Some (dos2unix s)"
  using assms(3)
proof
  assume "bytes = s"
  then show ?thesis
    using convert_newlines_prefix[OF assms(2), of "length s" NEWLINE_TYPE_CR_LF NEWLINE_TYPE_LF strstr "[]"]
    by (simp add: spice_dos2unix_def convert_loop_dos2unix[OF assms(1,2)])
next
  assume "bytes = s @ [NUL]"
  then show ?thesis
    using convert_newlines_text[OF assms(2), of "int (length s) + 1" NEWLINE_TYPE_CR_LF NEWLINE_TYPE_LF strstr "[]"]
    by (simp add: spice_dos2unix_def length_arg_def convert_loop_dos2unix[OF assms(1,2)] add.commute)
qed

text \<open>
  Text from a guest with CR LF line ends reaches the pasteboard with LF ends, whether or
  not the guest's bytes include the terminating NUL.
\<close>

theorem guest_text_line_ends:
  assumes "strstr_documented strstr" and "NUL \<notin> set s" and "s \<noteq> []" and "pasteboardDelegate self \<noteq> None"
    and "bytes = s \<or> bytes = s @ [NUL]"
  shows "cs_clipboard_got_from_guest strstr True (clipboard_code VD_AGENT_CLIPBOARD_UTF8_TEXT) bytes self =
    [Set_string (dos2unix s)]"
  using assms dos2unix_bytes[OF assms(1,2,5)]
  by (auto simp: cs_clipboard_got_from_guest_def to_delegate_def takeWhile_NUL dos2unix_NUL)

theorem guest_text_line_ends_witness:
  "cs_clipboard_got_from_guest first_occurrence True (clipboard_code VD_AGENT_CLIPBOARD_UTF8_TEXT)
     ([65, 13, 10] @ [NUL]) (session_init\<lparr>pasteboardDelegate := Some 1\<rparr>) =
   [Set_string (dos2unix [65, 13, 10])]"
  by (rule guest_text_line_ends) (simp_all add: strstr_documented_def NUL_def)

lemma utf8_char_length:
  "utf16_units c \<le> length (utf8_char c)" "utf16_units c = length (utf8_char c) \<longleftrightarrow> c < 0x80"
  by (simp_all add: utf16_units_def utf8_char_def)

lemma text_length_bound: "text_length t \<le> length (utf8 t)"
  by (induction t) (simp_all add: text_length_def utf8_def utf8_char_length add_mono)

lemma text_length_exact: "text_length t = length (utf8 t) \<longleftrightarrow> (\<forall>c\<in>set t. c < 0x80)"
proof (induction t)
  case (Cons c t)
  have "text_length (c # t) = utf16_units c + text_length t"
    "length (utf8 (c # t)) = length (utf8_char c) + length (utf8 t)"
    by (simp_all add: text_length_def utf8_def)
  then show ?case
    using Cons utf8_char_length[of c] text_length_bound[of t] by auto
qed (simp add: text_length_def utf8_def)

lemma byte_nonzero: "0 < k \<Longrightarrow> k < 256 \<Longrightarrow> (of_nat k :: guint8) \<noteq> NUL"
  using word_of_nat_eq_0_iff[of k, where 'a = 8] by (auto simp: NUL_def dest: dvd_imp_le)

lemma byte_zero: "(of_nat k :: guint8) = NUL \<Longrightarrow> k < 256 \<Longrightarrow> k = 0"
  using byte_nonzero[of k] by auto

lemma utf8_char_no_NUL:
  assumes "0 < c" and "c < 0x110000" shows "NUL \<notin> set (utf8_char c)"
proof -
  have "c div 262144 < 5" using assms(2) by simp
  moreover have "c < 0x800 \<Longrightarrow> c div 64 < 32" "c < 0x10000 \<Longrightarrow> c div 4096 < 16" by simp_all
  ultimately show ?thesis using assms
    by (auto simp: utf8_char_def simp del: of_nat_add of_nat_mult dest!: sym[of NUL] byte_zero)
qed

lemma utf8_no_NUL: "\<forall>c\<in>set t. 0 < c \<and> c < 0x110000 \<Longrightarrow> NUL \<notin> set (utf8 t)"
  using utf8_char_no_NUL by (auto simp: utf8_def)

text \<open>
  \<open>fixupClipboardText:\<close> passes the number of UTF-16 units as the number of UTF-8 bytes: what is
  converted is the text cut to that many bytes, which is all of it exactly when the text is
  ASCII.
\<close>

theorem fixup_truncates:
  assumes "strstr_documented strstr" and "\<forall>c\<in>set t. 0 < c \<and> c < 0x110000"
  shows "fixupClipboardText strstr True t = Some (unix2dos False (take (text_length t) (utf8 t))) \<and>
    (take (text_length t) (utf8 t) = utf8 t \<longleftrightarrow> (\<forall>c\<in>set t. c < 0x80))"
proof
  have clean: "NUL \<notin> set (utf8 t)" using assms(2) by (rule utf8_no_NUL)
  then have "NUL \<notin> set (take (text_length t) (utf8 t))" by (auto dest: in_set_takeD)
  with clean show "fixupClipboardText strstr True t =
      Some (unix2dos False (take (text_length t) (utf8 t)))"
    by (simp add: fixupClipboardText_def spice_unix2dos_def convert_newlines_prefix text_length_bound
        convert_loop_unix2dos[OF assms(1)] after_cr_def)
  show "take (text_length t) (utf8 t) = utf8 t \<longleftrightarrow> (\<forall>c\<in>set t. c < 0x80)"
    using text_length_bound[of t] text_length_exact[of t] by auto
qed

theorem fixup_truncates_witness:
  "fixupClipboardText first_occurrence True [0xE9, 0x41] =
     Some (unix2dos False (take (text_length [0xE9, 0x41]) (utf8 [0xE9, 0x41])))"
  by (rule conjunct1[OF fixup_truncates]) (simp_all add: strstr_documented_def)

section \<open>One main channel at a time\<close>

text \<open>
  The session's signals: a channel appears, or one is destroyed. A channel is announced once
  and destroyed only after that.
\<close>

inductive session_reach :: "objref \<Rightarrow> objref set \<Rightarrow> cs_session \<Rightarrow> bool" where
  init: "session_reach ses {} (initWithSession dir ses [])"
| appear: "session_reach ses live self \<Longrightarrow> ch \<notin> live \<Longrightarrow> ch \<noteq> ses \<Longrightarrow> live = {} \<Longrightarrow>
    session_reach ses {ch} (session_channel_new True ch self)"
| destroy: "session_reach ses live self \<Longrightarrow> ch \<in> live \<Longrightarrow>
    session_channel_destroy True ch self = Some self' \<Longrightarrow> session_reach ses {} self'"
| other: "session_reach ses live self \<Longrightarrow> session_reach ses live (session_channel_new False c self)"
| share: "session_reach ses live self \<Longrightarrow> session_reach ses live (self\<lparr>shareClipboard := b\<rparr>)"
| delegate: "session_reach ses live self \<Longrightarrow> session_reach ses live (self\<lparr>pasteboardDelegate := d\<rparr>)"

lemma session_reach_inv:
  "session_reach ses live self \<Longrightarrow>
     (case session_main self of
        None \<Rightarrow> live = {} \<and> held self = [ses] \<and> handlers self = []
      | Some ch \<Rightarrow> live = {ch} \<and> ch \<noteq> ses \<and> held self = [ch, ses] \<and> handlers self = [ch])"
  by (induction rule: session_reach.induct)
    (auto simp: initWithSession_def setSharedDirectory_def session_init_def session_channel_new_def
      session_channel_destroy_def split: option.splits if_splits)

text \<open>
  While main channels come one at a time, the session holds one reference on the session and
  one on the live main channel, its handlers are connected to that channel only, destroying it
  never fails the assertion, and \<open>dealloc\<close> gives every reference back.
\<close>

theorem session_references:
  assumes "session_reach ses live self"
  shows "set (handlers self) = live \<and> (\<forall>ch\<in>live. session_channel_destroy True ch self \<noteq> None) \<and>
    (\<exists>self'. session_dealloc ses self = Some self' \<and> held self' = [] \<and> handlers self' = [])"
  using session_reach_inv[OF assms]
  by (auto simp: session_dealloc_def session_channel_destroy_def split: option.splits)

theorem session_references_witness:
  "set (handlers (session_channel_new True 4 (initWithSession ''/p'' 3 []))) = {4}"
  using session_references[OF session_reach.appear[OF session_reach.init[of 3 "''/p''"], of 4]] by simp

end
