(* ===== verification/Geometry.thy ===== *)
theory Geometry
  imports Prelude
begin

text \<open>
  The rectangles of CoreGraphics as the display code uses them. \<open>CGRectIntersection\<close>,
  \<open>CGRectUnion\<close>, \<open>CGRectIsEmpty\<close> and \<open>CGRectIsNull\<close> are library functions and so parameters;
  \<open>cg_documented\<close> is what their documentation promises on rectangles with integral corners and
  sizes that are not negative, which all rectangles made from the protocol's integers are. It is
  stated through the pixels a rectangle covers.
\<close>

section \<open>Rectangles\<close>

datatype cgrect = CGRectNull | CGRectMake cgfloat cgfloat cgfloat cgfloat

definition CGRectZero :: cgrect where "CGRectZero = CGRectMake 0 0 0 0"

fun origin_x :: "cgrect \<Rightarrow> cgfloat" where
  "origin_x (CGRectMake x y w h) = x"
| "origin_x CGRectNull = 0"

fun origin_y :: "cgrect \<Rightarrow> cgfloat" where
  "origin_y (CGRectMake x y w h) = y"
| "origin_y CGRectNull = 0"

fun rect_width :: "cgrect \<Rightarrow> cgfloat" where
  "rect_width (CGRectMake x y w h) = w"
| "rect_width CGRectNull = 0"

fun rect_height :: "cgrect \<Rightarrow> cgfloat" where
  "rect_height (CGRectMake x y w h) = h"
| "rect_height CGRectNull = 0"

definition rect_size :: "cgrect \<Rightarrow> cgfloat \<times> cgfloat" where
  "rect_size r = (rect_width r, rect_height r)"

fun pixels :: "cgrect \<Rightarrow> (int \<times> int) set" where
  "pixels CGRectNull = {}"
| "pixels (CGRectMake x y w h) =
     {(i, j). x \<le> of_int i \<and> of_int i < x + w \<and> y \<le> of_int j \<and> of_int j < y + h}"

fun integral :: "cgrect \<Rightarrow> bool" where
  "integral CGRectNull = True"
| "integral (CGRectMake x y w h) =
     (x \<in> \<int> \<and> y \<in> \<int> \<and> w \<in> \<int> \<and> h \<in> \<int> \<and> 0 \<le> w \<and> 0 \<le> h)"

lemma rect_simps [simp]:
  "pixels CGRectZero = {}" "integral CGRectZero"
  by (auto simp: CGRectZero_def)

section \<open>The library functions\<close>

record cg_functions =
  cg_intersection :: "cgrect \<Rightarrow> cgrect \<Rightarrow> cgrect"
  cg_union :: "cgrect \<Rightarrow> cgrect \<Rightarrow> cgrect"
  cg_is_empty :: "cgrect \<Rightarrow> bool"
  cg_is_null :: "cgrect \<Rightarrow> bool"

definition cg_documented :: "cg_functions \<Rightarrow> bool" where
  "cg_documented G \<longleftrightarrow>
     (\<forall>a b. integral a \<longrightarrow> integral b \<longrightarrow>
        integral (cg_intersection G a b) \<and> pixels (cg_intersection G a b) = pixels a \<inter> pixels b) \<and>
     (\<forall>a b. integral a \<longrightarrow> integral b \<longrightarrow>
        integral (cg_union G a b) \<and> pixels a \<union> pixels b \<subseteq> pixels (cg_union G a b)) \<and>
     (\<forall>a. integral a \<longrightarrow> (cg_is_empty G a \<longleftrightarrow> pixels a = {})) \<and>
     (\<forall>a. cg_is_null G a \<longleftrightarrow> a = CGRectNull)"

lemma cg_laws:
  assumes "cg_documented G" and "integral a"
  shows "integral b \<Longrightarrow> integral (cg_intersection G a b)"
    and "integral b \<Longrightarrow> pixels (cg_intersection G a b) = pixels a \<inter> pixels b"
    and "integral b \<Longrightarrow> integral (cg_union G a b)"
    and "integral b \<Longrightarrow> pixels a \<subseteq> pixels (cg_union G a b)"
    and "integral b \<Longrightarrow> pixels b \<subseteq> pixels (cg_union G a b)"
    and "cg_is_empty G a \<longleftrightarrow> pixels a = {}"
  using assms unfolding cg_documented_def by blast+

lemma cg_is_null_iff: "cg_documented G \<Longrightarrow> cg_is_null G a \<longleftrightarrow> a = CGRectNull"
  by (simp add: cg_documented_def)

section \<open>Functions that keep the promise\<close>

definition model_intersection :: "cgrect \<Rightarrow> cgrect \<Rightarrow> cgrect" where
  "model_intersection a b =
     (case a of CGRectNull \<Rightarrow> CGRectNull | CGRectMake x y w h \<Rightarrow>
      (case b of CGRectNull \<Rightarrow> CGRectNull | CGRectMake x' y' w' h' \<Rightarrow>
       (let l = max x x'; t = max y y'; r = min (x + w) (x' + w'); d = min (y + h) (y' + h')
        in if r < l \<or> d < t then CGRectNull else CGRectMake l t (r - l) (d - t))))"

definition model_union :: "cgrect \<Rightarrow> cgrect \<Rightarrow> cgrect" where
  "model_union a b =
     (case a of CGRectNull \<Rightarrow> b | CGRectMake x y w h \<Rightarrow>
      (case b of CGRectNull \<Rightarrow> a | CGRectMake x' y' w' h' \<Rightarrow>
       (let l = min x x'; t = min y y'
        in CGRectMake l t (max (x + w) (x' + w') - l) (max (y + h) (y' + h') - t))))"

definition model_is_empty :: "cgrect \<Rightarrow> bool" where
  "model_is_empty r =
     (case r of CGRectNull \<Rightarrow> True | CGRectMake x y w h \<Rightarrow> w = 0 \<or> h = 0)"

definition model_cg :: cg_functions where
  "model_cg = \<lparr>cg_intersection = model_intersection, cg_union = model_union,
     cg_is_empty = model_is_empty, cg_is_null = (\<lambda>r. r = CGRectNull)\<rparr>"

lemma Ints_max_min: "(a :: rat) \<in> \<int> \<Longrightarrow> b \<in> \<int> \<Longrightarrow> max a b \<in> \<int>" "(a :: rat) \<in> \<int> \<Longrightarrow> b \<in> \<int> \<Longrightarrow> min a b \<in> \<int>"
  by (simp_all add: max_def min_def)

lemma model_cg_documented: "cg_documented model_cg"
proof -
  have "integral (model_intersection a b) \<and> pixels (model_intersection a b) = pixels a \<inter> pixels b"
    if "integral a" "integral b" for a b
    using that by (cases a; cases b)
      (auto simp: model_intersection_def Let_def intro!: Ints_max_min Ints_diff Ints_add)
  moreover have "integral (model_union a b) \<and> pixels a \<union> pixels b \<subseteq> pixels (model_union a b)"
    if "integral a" "integral b" for a b
    using that by (cases a; cases b)
      (auto simp: model_union_def Let_def intro!: Ints_max_min Ints_diff Ints_add)
  moreover have "model_is_empty r \<longleftrightarrow> pixels r = {}" if "integral r" for r
  proof (cases r)
    case (CGRectMake x y w h)
    have "x \<in> \<int>" "y \<in> \<int>" using that CGRectMake by simp_all
    then obtain i j where n: "x = of_int i" "y = of_int j" by (elim Ints_cases)
    show ?thesis
    proof (cases "w = 0 \<or> h = 0")
      case False
      then have "0 < w" "0 < h" using that CGRectMake by auto
      then have "(i, j) \<in> pixels r" by (simp add: CGRectMake n)
      with False CGRectMake show ?thesis by (auto simp: model_is_empty_def)
    qed (auto simp: CGRectMake model_is_empty_def)
  qed (simp add: model_is_empty_def)
  ultimately show ?thesis by (simp add: cg_documented_def model_cg_def)
qed

end
