(* ===== verification/Fan_Out.thy ===== *)
theory Fan_Out
  imports Prelude
begin

text \<open>
  \<^verbatim>\<open>CSDisplay+Renderer.m\<close>: a display and the renderers it is shown by. Each operation reads the
  list of renderers once and sends each of them one request; a shared atomic counter runs the
  caller's completion with the last report.
\<close>

section \<open>Requests\<close>

datatype render_request = Copy_request | Invalidate_request bool | Disable_request

text \<open>
  A request carries whether it reports back. The result of an operation is the requests, in
  order, the counter, and whether the completion is run at once.
\<close>

record counter =
  numRemaining :: int
  completed :: nat

definition fan_copyBuffer :: "objref list \<Rightarrow> (objref \<times> render_request) list \<times> counter" where
  "fan_copyBuffer renderers =
     (if length renderers = 0 then ([], \<lparr>numRemaining = 0, completed = 1\<rparr>)
      else ((hd renderers, Copy_request) # map (\<lambda>i. (renderers ! i, Invalidate_request True)) [1..<length renderers],
            \<lparr>numRemaining = int (length renderers), completed = 0\<rparr>))"

definition fan_invalidateWithCompletion :: "objref list \<Rightarrow> (objref \<times> render_request) list \<times> counter" where
  "fan_invalidateWithCompletion renderers =
     (if length renderers = 0 then ([], \<lparr>numRemaining = 0, completed = 1\<rparr>)
      else (map (\<lambda>i. (renderers ! i, Invalidate_request True)) [0..<length renderers],
            \<lparr>numRemaining = int (length renderers), completed = 0\<rparr>))"

definition fan_invalidate :: "objref list \<Rightarrow> (objref \<times> render_request) list" where
  "fan_invalidate renderers = map (\<lambda>i. (renderers ! i, Invalidate_request False)) [0..<length renderers]"

definition fan_disableScanout :: "objref list \<Rightarrow> (objref \<times> render_request) list" where
  "fan_disableScanout renderers = map (\<lambda>i. (renderers ! i, Disable_request)) [0..<length renderers]"

text \<open>A renderer reports: \<open>atomic_fetch_sub\<close> returns the value before the subtraction.\<close>

definition fetch_sub_report :: "counter \<Rightarrow> counter" where
  "fetch_sub_report c = c\<lparr>numRemaining := numRemaining c - 1,
     completed := completed c + (if numRemaining c = 1 then 1 else 0)\<rparr>"

text \<open>
  Adding and removing renderers. The device is that of the first renderer added; a second
  device is a failed \<open>NSAssert\<close>.
\<close>

record attached =
  att_renderers :: "objref list"
  att_device :: "objref option"

definition addRenderer :: "objref \<Rightarrow> objref \<Rightarrow> attached \<Rightarrow> (attached \<times> (objref \<times> render_request) list) outcome" where
  "addRenderer renderer device a =
     (let a' = (if renderer \<notin> set (att_renderers a)
                then a\<lparr>att_renderers := att_renderers a @ [renderer]\<rparr> else a)
      in case att_device a' of
           None \<Rightarrow> Done (a'\<lparr>att_device := Some device\<rparr>, [(renderer, Invalidate_request False)])
         | Some d \<Rightarrow> if d = device then Done (a', [(renderer, Invalidate_request False)])
                     else AssertionFailure)"

definition removeRenderer :: "objref \<Rightarrow> attached \<Rightarrow> attached \<times> (objref \<times> render_request) list" where
  "removeRenderer renderer a =
     (a\<lparr>att_renderers := filter (\<lambda>r. r \<noteq> renderer) (att_renderers a)\<rparr>, [(renderer, Disable_request)])"

section \<open>Exactly once\<close>

fun reports_back :: "render_request \<Rightarrow> bool" where
  "reports_back Copy_request = True"
| "reports_back (Invalidate_request b) = b"
| "reports_back Disable_request = False"

lemma report_iterate:
  "numRemaining ((fetch_sub_report ^^ k) c) = numRemaining c - int k \<and>
   completed ((fetch_sub_report ^^ k) c) =
     completed c + (if 0 < numRemaining c \<and> numRemaining c \<le> int k then 1 else 0)"
  by (induction k) (auto simp: fetch_sub_report_def)

lemma map_nth_all: "map (\<lambda>i. (xs ! i, f)) [0..<length xs] = map (\<lambda>x. (x, f)) xs"
proof -
  have "map (\<lambda>i. (xs ! i, f)) [0..<length xs] = map (\<lambda>x. (x, f)) (map ((!) xs) [0..<length xs])"
    by simp
  then show ?thesis by (simp only: map_nth)
qed

lemma map_nth_from_one: "xs \<noteq> [] \<Longrightarrow> map (\<lambda>i. (xs ! i, f)) [Suc 0..<length xs] = map (\<lambda>x. (x, f)) (tl xs)"
proof (cases xs)
  case (Cons y ys)
  have "map (\<lambda>i. (xs ! i, f)) [Suc 0..<length xs] = map (\<lambda>i. (ys ! i, f)) [0..<length ys]"
    unfolding Cons by (simp add: map_Suc_upt[symmetric] comp_def del: map_Suc_upt upt_Suc)
  then show ?thesis by (simp add: Cons map_nth_all)
qed simp

text \<open>
  C39. A copy or an invalidation asks every renderer exactly once, the copy going to the first;
  the completion is run exactly once, with the last of the reports and not before, and at once
  when there is no renderer.
\<close>

theorem fan_out_once:
  assumes "fan_copyBuffer renderers = (reqs, c) \<or> fan_invalidateWithCompletion renderers = (reqs, c)"
  shows "map fst reqs = renderers \<and> list_all (\<lambda>q. reports_back (snd q)) reqs \<and>
    length (filter (\<lambda>q. snd q = Copy_request) reqs) \<le> 1 \<and>
    (\<forall>k \<le> length renderers. completed ((fetch_sub_report ^^ k) c) = (if k = length renderers then 1 else 0))"
proof -
  consider "renderers = []" "reqs = []" "c = \<lparr>numRemaining = 0, completed = 1\<rparr>"
    | "renderers \<noteq> []" "reqs = (hd renderers, Copy_request) # map (\<lambda>x. (x, Invalidate_request True)) (tl renderers)"
      "c = \<lparr>numRemaining = int (length renderers), completed = 0\<rparr>"
    | "renderers \<noteq> []" "reqs = map (\<lambda>x. (x, Invalidate_request True)) renderers"
      "c = \<lparr>numRemaining = int (length renderers), completed = 0\<rparr>"
    using assms by (auto simp: fan_copyBuffer_def fan_invalidateWithCompletion_def map_nth_from_one map_nth_all
        split: if_splits)
  then show ?thesis
    by cases (auto simp: report_iterate list_all_iff comp_def filter_map intro: map_idI)
qed

theorem fan_out_once_witness:
  "map fst (fst (fan_copyBuffer [4, 7, 9])) = [4, 7, 9] \<and>
   completed ((fetch_sub_report ^^ 3) (snd (fan_copyBuffer [4, 7, 9]))) = 1"
proof -
  have "fan_copyBuffer [4, 7, 9] = (fst (fan_copyBuffer [4, 7, 9]), snd (fan_copyBuffer [4, 7, 9])) \<or>
    fan_invalidateWithCompletion [4, 7, 9] = (fst (fan_copyBuffer [4, 7, 9]), snd (fan_copyBuffer [4, 7, 9]))"
    by simp
  from fan_out_once[OF this] show ?thesis by simp
qed

definition attached_ok :: "(objref \<Rightarrow> objref) \<Rightarrow> attached \<Rightarrow> bool" where
  "attached_ok device_of a \<longleftrightarrow> distinct (att_renderers a) \<and>
     (\<forall>r\<in>set (att_renderers a). att_device a = Some (device_of r))"

text \<open>
  The renderers of a display stay distinct and on one device whatever is added and removed,
  and a renderer on another device is refused.
\<close>

theorem renderers_one_device:
  assumes "attached_ok device_of a"
  shows "attached_ok device_of (fst (removeRenderer r a)) \<and>
    (case addRenderer r (device_of r) a of
       Done (a', reqs) \<Rightarrow> attached_ok device_of a' \<and> r \<in> set (att_renderers a') \<and>
         set (att_renderers a) \<subseteq> set (att_renderers a') \<and> reqs = [(r, Invalidate_request False)]
     | AssertionFailure \<Rightarrow> \<exists>d. att_device a = Some d \<and> d \<noteq> device_of r
     | _ \<Rightarrow> False)"
  using assms by (auto simp: attached_ok_def addRenderer_def removeRenderer_def Let_def split: option.splits)

theorem renderers_one_device_witness:
  "attached_ok (\<lambda>r. 1) (fst (removeRenderer 5 \<lparr>att_renderers = [5, 6], att_device = Some 1\<rparr>))"
  using renderers_one_device[of "\<lambda>r. 1" "\<lparr>att_renderers = [5, 6], att_device = Some 1\<rparr>" 5]
  by (simp add: attached_ok_def)

end
