(* ===== verification/Metal_Renderer.thy ===== *)
theory Metal_Renderer
  imports Prelude "HOL-Library.Multiset"
begin

text \<open>
  \<^verbatim>\<open>CSMetalRenderer.m\<close>: the renderer's snapshot of a render source, the blocks it posts to the main
  thread, the drawing of a frame and the completions callers wait for. The state is the main
  thread's; the GPU is the number of frames committed and not yet completed. Metal objects are
  references; creating the pipeline and the sampler is library code and not modelled.
\<close>

section \<open>Render sources\<close>

type_synonym cgpoint = "cgfloat \<times> cgfloat"

definition add_points :: "cgpoint \<Rightarrow> cgpoint \<Rightarrow> cgpoint" where
  "add_points p q = (fst p + fst q, snd p + snd q)"

text \<open>What the protocol \<open>CSRenderSource\<close> shows of a display or a cursor at one moment.\<close>

datatype render_source = Render_source
  (rs_isVisible: bool) (rs_offset: cgpoint) (rs_texture: "objref option") (rs_numVertices: nat)
  (rs_vertices: "objref option") (rs_hasAlpha: bool) (rs_isInverted: bool)
  (rs_cursorSource: "render_source option")

datatype source_data = Source_data
  (sd_offset: cgpoint) (sd_vertices: objref) (sd_numVertices: nat) (sd_texture: objref)
  (sd_hasAlpha: bool) (sd_isInverted: bool) (sd_isVisible: bool) (sd_cursorSource: "source_data option")

fun initWithRenderSource :: "render_source \<Rightarrow> cgpoint \<Rightarrow> source_data option" where
  "initWithRenderSource (Render_source visible offset texture n vertices alpha inverted cursor) shift =
     (case (vertices, texture) of
        (Some v, Some t) \<Rightarrow> Some (Source_data (add_points offset shift) v n t alpha inverted visible
          (case cursor of None \<Rightarrow> None | Some c \<Rightarrow> initWithRenderSource c offset))
      | _ \<Rightarrow> None)"

section \<open>State\<close>

record 'c metal_renderer =
  viewportOrigin :: cgpoint
  viewportScale :: cgfloat
  renderViewportOrigin :: cgpoint
  renderViewportScale :: cgfloat
  renderViewportSize :: "nat \<times> nat"
  renderSourceData :: "source_data option"
  renderNeedsUpdate :: bool
  renderCompletions :: "'c list"

datatype 'c main_block =
    Set_source source_data "'c option"
  | Clear_source
  | Set_origin cgpoint
  | Set_scale cgfloat
  | Complete_draw

text \<open>One draw call of the render encoder.\<close>

datatype quad = Quad (quad_origin: cgpoint) (quad_scale: cgfloat) (quad_vertices: objref)
  (quad_numVertices: nat) (quad_alpha: bool) (quad_inverted: bool) (quad_texture: objref)

text \<open>
  What is committed to the command queue: a copy from a buffer into a texture (offset, bytes per
  row and region), or a frame.
\<close>

record blit =
  sourceBuffer :: objref
  sourceOffset :: int
  sourceBytesPerRow :: nat
  blit_region :: "nat \<times> nat \<times> nat \<times> nat"

datatype gpu_commit = Blit blit objref | Frame "quad list"

text \<open>
  The renderer with the blocks waiting on the main queue, the frames the GPU still works on, the
  command buffers committed so far, in order, and the completions run so far.
\<close>

record 'c render_sys =
  rend :: "'c metal_renderer"
  main_queue :: "'c main_block list"
  in_flight :: nat
  commits :: "gpu_commit list"
  ran :: "'c list"

definition setViewportCGSize :: "cgfloat \<times> cgfloat \<Rightarrow> 'c metal_renderer \<Rightarrow> 'c metal_renderer" where
  "setViewportCGSize sz r = r\<lparr>renderViewportSize := (nat (c_trunc (fst sz)), nat (c_trunc (snd sz)))\<rparr>"

definition initWithMetalKitView :: "cgfloat \<times> cgfloat \<Rightarrow> 'c metal_renderer" where
  "initWithMetalKitView drawableSize = setViewportCGSize drawableSize
     \<lparr>viewportOrigin = (0, 0), viewportScale = 1, renderViewportOrigin = (0, 0), renderViewportScale = 1,
      renderViewportSize = (0, 0), renderSourceData = None, renderNeedsUpdate = False,
      renderCompletions = []\<rparr>"

definition new_render_sys :: "cgfloat \<times> cgfloat \<Rightarrow> 'c render_sys" where
  "new_render_sys sz = \<lparr>rend = initWithMetalKitView sz, main_queue = [], in_flight = 0,
     commits = [], ran = []\<rparr>"

section \<open>Placing quads\<close>

text \<open>The matrix as its four columns, and its action on a vertex position.\<close>

type_synonym column = "cgfloat \<times> cgfloat \<times> cgfloat \<times> cgfloat"

definition matrix_scale_translate :: "cgfloat \<Rightarrow> cgpoint \<Rightarrow> column \<times> column \<times> column \<times> column" where
  "matrix_scale_translate scale translate =
     ((scale, 0, 0, 0), (0, scale, 0, 0), (0, 0, 1, 0), (fst translate, - snd translate, 0, 1))"

fun matrix_apply :: "column \<times> column \<times> column \<times> column \<Rightarrow> column \<Rightarrow> column" where
  "matrix_apply ((a1, a2, a3, a4), (b1, b2, b3, b4), (c1, c2, c3, c4), (d1, d2, d3, d4)) (x, y, z, w) =
     (a1 * x + b1 * y + c1 * z + d1 * w, a2 * x + b2 * y + c2 * z + d2 * w,
      a3 * x + b3 * y + c3 * z + d3 * w, a4 * x + b4 * y + c4 * z + d4 * w)"

definition place_origin :: "cgpoint \<Rightarrow> cgfloat \<Rightarrow> cgpoint \<Rightarrow> cgpoint" where
  "place_origin origin scale offset =
     (fst origin + fst offset * scale, snd origin + snd offset * scale)"

definition quad_of :: "cgpoint \<Rightarrow> cgfloat \<Rightarrow> source_data \<Rightarrow> quad" where
  "quad_of origin scale d = Quad origin scale (sd_vertices d) (sd_numVertices d) (sd_hasAlpha d)
     (sd_isInverted d) (sd_texture d)"

definition renderCommand :: "cgpoint \<Rightarrow> cgfloat \<Rightarrow> source_data \<Rightarrow> quad list" where
  "renderCommand origin scale source =
     quad_of (place_origin origin scale (sd_offset source)) scale source #
     (case sd_cursorSource source of
        Some cursor \<Rightarrow>
          if sd_isVisible cursor
          then [quad_of (place_origin origin scale (add_points (sd_offset source) (sd_offset cursor)))
                  scale cursor]
          else []
      | None \<Rightarrow> [])"

section \<open>Operations\<close>

definition setViewportOrigin :: "cgpoint \<Rightarrow> 'c render_sys \<Rightarrow> 'c render_sys" where
  "setViewportOrigin p w =
     (if viewportOrigin (rend w) \<noteq> p
      then w\<lparr>rend := (rend w)\<lparr>viewportOrigin := p\<rparr>, main_queue := main_queue w @ [Set_origin p]\<rparr>
      else w)"

definition setViewportScale :: "cgfloat \<Rightarrow> 'c render_sys \<Rightarrow> 'c render_sys" where
  "setViewportScale s w =
     (if viewportScale (rend w) \<noteq> s
      then w\<lparr>rend := (rend w)\<lparr>viewportScale := s\<rparr>, main_queue := main_queue w @ [Set_scale s]\<rparr>
      else w)"

definition completeDraw :: "'c render_sys \<Rightarrow> 'c render_sys" where
  "completeDraw w = w\<lparr>ran := ran w @ renderCompletions (rend w),
                      rend := (rend w)\<lparr>renderCompletions := []\<rparr>\<rparr>"

definition run_completion :: "'c option \<Rightarrow> 'c render_sys \<Rightarrow> 'c render_sys" where
  "run_completion completion w = (case completion of None \<Rightarrow> w | Some c \<Rightarrow> w\<lparr>ran := ran w @ [c]\<rparr>)"

definition renderSouce_copyBuffer :: "render_source \<Rightarrow> blit \<Rightarrow> 'c option \<Rightarrow> 'c render_sys \<Rightarrow> 'c render_sys" where
  "renderSouce_copyBuffer source copy completion w =
     (case initWithRenderSource source (0, 0) of
        None \<Rightarrow> run_completion completion w
      | Some d \<Rightarrow> w\<lparr>commits := commits w @ [Blit copy (sd_texture d)],
                     main_queue := main_queue w @ [Set_source d completion]\<rparr>)"

definition invalidateRenderSource :: "render_source \<Rightarrow> 'c option \<Rightarrow> 'c render_sys \<Rightarrow> 'c render_sys" where
  "invalidateRenderSource source completion w =
     (case initWithRenderSource source (0, 0) of
        None \<Rightarrow> run_completion completion w
      | Some d \<Rightarrow> if \<not> sd_isVisible d then run_completion completion w
                 else w\<lparr>main_queue := main_queue w @ [Set_source d completion]\<rparr>)"

definition disableRender :: "'c render_sys \<Rightarrow> 'c render_sys" where
  "disableRender w = w\<lparr>main_queue := main_queue w @ [Clear_source]\<rparr>"

primrec run_main :: "'c main_block \<Rightarrow> 'c render_sys \<Rightarrow> 'c render_sys" where
  "run_main (Set_source d completion) w =
     w\<lparr>rend := (rend w)\<lparr>renderSourceData := Some d, renderNeedsUpdate := True,
        renderCompletions := renderCompletions (rend w) @
          (case completion of None \<Rightarrow> [] | Some c \<Rightarrow> [c])\<rparr>\<rparr>"
| "run_main Clear_source w = w\<lparr>rend := (rend w)\<lparr>renderSourceData := None, renderNeedsUpdate := False\<rparr>\<rparr>"
| "run_main (Set_origin p) w = w\<lparr>rend := (rend w)\<lparr>renderViewportOrigin := p, renderNeedsUpdate := True\<rparr>\<rparr>"
| "run_main (Set_scale s) w = w\<lparr>rend := (rend w)\<lparr>renderViewportScale := s, renderNeedsUpdate := True\<rparr>\<rparr>"
| "run_main Complete_draw w = completeDraw w"

definition main_dispatch :: "'c render_sys \<Rightarrow> 'c render_sys" where
  "main_dispatch w = (case main_queue w of [] \<Rightarrow> w | b # bs \<Rightarrow> run_main b (w\<lparr>main_queue := bs\<rparr>))"

text \<open>\<open>drawable\<close>: the view has a render pass descriptor and a drawable for this frame.\<close>

definition source_shown :: "'c metal_renderer \<Rightarrow> bool" where
  "source_shown r = (case renderSourceData r of None \<Rightarrow> False | Some d \<Rightarrow> sd_isVisible d)"

definition drawInMTKView :: "bool \<Rightarrow> 'c render_sys \<Rightarrow> 'c render_sys" where
  "drawInMTKView drawable w =
     (if \<not> drawable then w
      else if \<not> renderNeedsUpdate (rend w) \<or> \<not> source_shown (rend w) then completeDraw w
      else (case renderSourceData (rend w) of
              None \<Rightarrow> w
            | Some d \<Rightarrow> w\<lparr>rend := (rend w)\<lparr>renderNeedsUpdate := False\<rparr>,
                commits := commits w @ [Frame (renderCommand (renderViewportOrigin (rend w)) (renderViewportScale (rend w)) d)],
                in_flight := in_flight w + 1\<rparr>))"

text \<open>A committed frame completes on the GPU; its handler posts \<open>_completeDraw\<close>.\<close>

definition frame_completed :: "'c render_sys \<Rightarrow> 'c render_sys" where
  "frame_completed w =
     (if in_flight w = 0 then w
      else w\<lparr>in_flight := in_flight w - 1, main_queue := main_queue w @ [Complete_draw]\<rparr>)"

section \<open>Completions\<close>

fun queued_completions :: "'c main_block list \<Rightarrow> 'c list" where
  "queued_completions (Set_source d (Some c) # bs) = c # queued_completions bs"
| "queued_completions (b # bs) = queued_completions bs"
| "queued_completions [] = []"

lemma queued_completions_append [simp]:
  "queued_completions (xs @ ys) = queued_completions xs @ queued_completions ys"
  by (induction xs rule: queued_completions.induct) simp_all

definition accounted :: "'c render_sys \<Rightarrow> 'c multiset" where
  "accounted w = mset (ran w) + mset (renderCompletions (rend w)) + mset (queued_completions (main_queue w))"

definition opt_mset :: "'c option \<Rightarrow> 'c multiset" where
  "opt_mset c = (case c of None \<Rightarrow> {#} | Some c \<Rightarrow> {#c#})"

text \<open>Everything that can happen to a renderer, with the completions callers handed in.\<close>

inductive render_reach :: "'c multiset \<Rightarrow> 'c render_sys \<Rightarrow> bool" where
  init: "render_reach {#} (new_render_sys sz)"
| copy: "render_reach C w \<Longrightarrow> render_reach (C + opt_mset c) (renderSouce_copyBuffer s b c w)"
| invalidate: "render_reach C w \<Longrightarrow> render_reach (C + opt_mset c) (invalidateRenderSource s c w)"
| disable: "render_reach C w \<Longrightarrow> render_reach C (disableRender w)"
| origin: "render_reach C w \<Longrightarrow> render_reach C (setViewportOrigin p w)"
| scale: "render_reach C w \<Longrightarrow> render_reach C (setViewportScale x w)"
| resize: "render_reach C w \<Longrightarrow> render_reach C (w\<lparr>rend := setViewportCGSize sz (rend w)\<rparr>)"
| main: "render_reach C w \<Longrightarrow> render_reach C (main_dispatch w)"
| draw: "render_reach C w \<Longrightarrow> render_reach C (drawInMTKView drawable w)"
| gpu: "render_reach C w \<Longrightarrow> render_reach C (frame_completed w)"

lemma queued_Set_source: "queued_completions [Set_source d c] = (case c of None \<Rightarrow> [] | Some c \<Rightarrow> [c])"
  by (cases c) simp_all

lemma accounted_submit [step_simps]:
  "accounted (renderSouce_copyBuffer s b c w) = accounted w + opt_mset c"
  "accounted (invalidateRenderSource s c w) = accounted w + opt_mset c"
  by (auto simp: accounted_def renderSouce_copyBuffer_def invalidateRenderSource_def run_completion_def
      opt_mset_def queued_Set_source split: option.split)

lemma accounted_main: "accounted (run_main b w) = accounted w + mset (queued_completions [b])"
  by (cases b) (auto simp: accounted_def completeDraw_def queued_Set_source split: option.split)

lemma accounted_keep [step_simps]:
  "accounted (disableRender w) = accounted w" "accounted (setViewportOrigin p w) = accounted w"
  "accounted (setViewportScale x w) = accounted w" "accounted (drawInMTKView drawable w) = accounted w"
  "accounted (frame_completed w) = accounted w" "accounted (main_dispatch w) = accounted w"
  "accounted (w\<lparr>rend := setViewportCGSize sz (rend w)\<rparr>) = accounted w"
proof -
  show "accounted (main_dispatch w) = accounted w"
  proof (cases "main_queue w")
    case (Cons b bs)
    have "queued_completions (b # bs) = queued_completions [b] @ queued_completions bs"
      using queued_completions_append[of "[b]" bs] by simp
    with Cons show ?thesis
      using accounted_main[of b "w\<lparr>main_queue := bs\<rparr>"] by (simp add: main_dispatch_def accounted_def)
  qed (simp add: main_dispatch_def)
qed (auto simp: accounted_def disableRender_def setViewportOrigin_def setViewportScale_def drawInMTKView_def
    frame_completed_def completeDraw_def setViewportCGSize_def split: option.split)

lemma render_reach_accounted: "render_reach C w \<Longrightarrow> accounted w = C"
  by (induction rule: render_reach.induct)
    (simp_all add: step_simps, simp add: accounted_def new_render_sys_def initWithMetalKitView_def
      setViewportCGSize_def)

text \<open>
  C21. Nothing a caller waits for is lost or run twice: in every reachable state the completions
  handed to the renderer are, with their multiplicities, those already run, those waiting for
  a draw and those still on the main queue.
\<close>

theorem completions_accounted:
  assumes "render_reach C w"
  shows "mset (ran w) + mset (renderCompletions (rend w)) + mset (queued_completions (main_queue w)) = C"
  using render_reach_accounted[OF assms] by (simp add: accounted_def)

definition sample_source :: render_source where
  "sample_source = Render_source True (0, 0) (Some 1) 6 (Some 2) False False None"

theorem completions_accounted_witness:
  "mset (ran (main_dispatch (invalidateRenderSource sample_source (Some (9::nat)) (new_render_sys (4, 3))))) +
   mset (renderCompletions (rend (main_dispatch (invalidateRenderSource sample_source (Some 9) (new_render_sys (4, 3)))))) +
   mset (queued_completions (main_queue (main_dispatch (invalidateRenderSource sample_source (Some 9)
     (new_render_sys (4, 3)))))) = {#} + opt_mset (Some 9)"
  by (rule completions_accounted[OF render_reach.main[OF render_reach.invalidate[OF render_reach.init]]])

section \<open>Completions are run\<close>

definition drain_main :: "'c render_sys \<Rightarrow> 'c render_sys" where
  "drain_main w = (main_dispatch ^^ length (main_queue w)) w"

lemma run_main_queue [simp]: "main_queue (run_main b w) = main_queue w"
  by (cases b) (simp_all add: completeDraw_def)

lemma main_queue_dispatch: "main_queue (main_dispatch w) = tl (main_queue w)"
  by (simp add: main_dispatch_def split: list.split)

lemma main_queue_iterate: "main_queue ((main_dispatch ^^ n) w) = drop n (main_queue w)"
  by (induction n arbitrary: w) (simp_all add: funpow_swap1 main_queue_dispatch drop_Suc)

lemma drain_main_empty: "main_queue (drain_main w) = []"
  by (simp add: drain_main_def main_queue_iterate)

lemma accounted_drain: "accounted (drain_main w) = accounted w"
proof -
  have "accounted ((main_dispatch ^^ n) w) = accounted w" for n
    by (induction n) (simp_all add: step_simps)
  then show ?thesis by (simp add: drain_main_def)
qed

lemma settled:
  assumes "accounted w = C" and "renderCompletions (rend w) = []" and "main_queue w = []"
  shows "mset (ran w) = C"
  using assms by (simp add: accounted_def)

text \<open>
  Every completion is run once the main thread and the GPU catch up: after the main queue
  is empty, a draw with a drawable, the completion of that frame if one was committed, and the
  main queue again, nothing waits any more.
\<close>

theorem completions_run:
  assumes "render_reach C w"
  shows "let w1 = drawInMTKView True (drain_main w);
             w2 = (if in_flight w1 = in_flight (drain_main w) then w1 else drain_main (frame_completed w1))
         in renderCompletions (rend w2) = [] \<and> mset (ran w2) = C"
proof -
  define w0 where "w0 = drain_main w"
  define w1 where "w1 = drawInMTKView True w0"
  define w2 where "w2 = (if in_flight w1 = in_flight w0 then w1 else drain_main (frame_completed w1))"
  have acc: "accounted w0 = C" and q0: "main_queue w0 = []"
    using render_reach_accounted[OF assms] by (simp_all add: w0_def drain_main_empty accounted_drain)
  have acc2: "accounted w2 = C" using acc by (simp add: w2_def w1_def accounted_drain step_simps)
  have "renderCompletions (rend w2) = [] \<and> main_queue w2 = []"
  proof (cases "renderNeedsUpdate (rend w0) \<and> source_shown (rend w0)")
    case False
    then have "w1 = completeDraw w0" by (auto simp: w1_def drawInMTKView_def)
    then have "w2 = completeDraw w0" by (simp add: w2_def completeDraw_def)
    with q0 show ?thesis by (simp add: completeDraw_def)
  next
    case True
    then obtain d where "renderSourceData (rend w0) = Some d"
      by (auto simp: source_shown_def split: option.splits)
    with True have "in_flight w1 = Suc (in_flight w0)" "main_queue w1 = []"
      using q0 by (simp_all add: w1_def drawInMTKView_def)
    then have "w2 = completeDraw (w1\<lparr>in_flight := in_flight w0, main_queue := []\<rparr>)"
      by (simp add: w2_def frame_completed_def drain_main_def main_dispatch_def)
    then show ?thesis by (simp add: completeDraw_def)
  qed
  with acc2 have "renderCompletions (rend w2) = [] \<and> mset (ran w2) = C"
    using settled[of w2 C] by blast
  then show ?thesis unfolding w2_def w1_def w0_def Let_def .
qed

theorem completions_run_witness:
  "let w = invalidateRenderSource sample_source (Some (9::nat)) (new_render_sys (4, 3));
       w1 = drawInMTKView True (drain_main w);
       w2 = (if in_flight w1 = in_flight (drain_main w) then w1 else drain_main (frame_completed w1))
   in renderCompletions (rend w2) = [] \<and> mset (ran w2) = {#} + opt_mset (Some 9)"
  using completions_run[OF render_reach.invalidate[OF render_reach.init]] by (simp only: Let_def)

text \<open>
  A completion does not always wait for the frame of its source: while a frame is on the GPU
  the next draw of an unchanged source runs the completions that frame was committed for, and
  the completion of a source that is not visible is run at once, whatever is in flight.
\<close>

theorem completion_before_frame:
  assumes "initWithRenderSource s (0, 0) = Some d" and "sd_isVisible d" and "main_queue w = []"
    and "initWithRenderSource h (0, 0) = Some dh" and "\<not> sd_isVisible dh"
  shows "in_flight (drawInMTKView True (drawInMTKView True (main_dispatch (invalidateRenderSource s (Some c) w)))) =
      in_flight w + 1 \<and>
    c \<in> set (ran (drawInMTKView True (drawInMTKView True (main_dispatch (invalidateRenderSource s (Some c) w))))) \<and>
    invalidateRenderSource h (Some c) w = w\<lparr>ran := ran w @ [c]\<rparr>"
  using assms by (simp add: invalidateRenderSource_def main_dispatch_def drawInMTKView_def source_shown_def
      completeDraw_def run_completion_def)

theorem completion_before_frame_witness:
  "invalidateRenderSource (Render_source False (0, 0) (Some 1) 6 (Some 2) False False None) (Some (9::nat))
      (new_render_sys (4, 3)) =
   (new_render_sys (4, 3))\<lparr>ran := ran (new_render_sys (4, 3)) @ [9]\<rparr>"
  by (rule conjunct2[OF conjunct2[OF completion_before_frame[of sample_source]]])
    (simp_all add: sample_source_def new_render_sys_def, simp_all)

section \<open>Where quads land\<close>

fun land :: "quad \<Rightarrow> cgpoint \<Rightarrow> cgpoint" where
  "land (Quad origin scale v n alpha inverted t) (px, py) =
     (case matrix_apply (matrix_scale_translate scale origin) (px, py, 0, 1) of (x, y, z, w) \<Rightarrow> (x, y))"

text \<open>
  A frame draws the source and, if it is visible, its cursor over it; a vertex at \<open>(px, py)\<close>
  of the source lands at the viewport origin plus the scaled offset and position, the y axis
  flipped, and a cursor vertex is moved further by the cursor's own offset. This holds for
  sources at offset zero, which every display is.
\<close>

theorem frame_layout:
  assumes "initWithRenderSource (Render_source vis (0, 0) (Some t) n (Some v) alpha inverted (Some cur)) (0, 0) = Some d"
    and "initWithRenderSource cur (0, 0) = Some cd"
  shows "map (\<lambda>q. land q (px, py)) (renderCommand (ox, oy) s d) =
    (s * px + ox, s * py - oy) #
    (if sd_isVisible cd
     then [(s * px + ox + s * fst (rs_offset cur), s * py - oy - s * snd (rs_offset cur))] else [])"
proof (cases cur)
  case (Render_source cvis coff ct cn cv calpha cinv ccur)
  then obtain t' v' where tv: "ct = Some t'" "cv = Some v'"
    using assms(2) by (auto split: option.splits)
  show ?thesis
    using assms unfolding Render_source tv
    by (auto simp: renderCommand_def quad_of_def place_origin_def matrix_scale_translate_def add_points_def
        algebra_simps)
qed

theorem frame_layout_witness:
  "\<exists>d. map (\<lambda>q. land q (1, 1)) (renderCommand (10, 20) 2 d) = [(12, - 18), (16, - 24)]"
proof -
  let ?cur = "Render_source True (2, 3) (Some 3) 6 (Some 4) True False None"
  obtain d where d: "initWithRenderSource (Render_source True (0, 0) (Some 1) 6 (Some 2) False False (Some ?cur)) (0, 0) = Some d"
    by simp
  obtain cd where cd: "initWithRenderSource ?cur (0, 0) = Some cd" "sd_isVisible cd" by simp
  show ?thesis using frame_layout[OF d cd(1), of 1 1 10 20 2] cd(2) by (intro exI[of _ d]) simp
qed

end
