(* ===== verification/Display.thy ===== *)
theory Display
  imports Main_Context Wire Geometry Fan_Out Metal_Renderer
begin

text \<open>
  \<^verbatim>\<open>CSDisplay.m\<close>: the state of a display on the SPICE context thread and every handler, method and
  posted block, with the effects each has on the renderers, the GPU and the client library.
  Metal's allocations, CoreGraphics' rectangle functions, the properties of the channel and the
  reading of a scanout descriptor are parameters. The properties are in \<^theory_text>\<open>Display_Canvas\<close> and
  \<^theory_text>\<open>Display_Scanout\<close>.
\<close>

section \<open>Library objects\<close>

datatype MTLPixelFormat = RGBA8Unorm | BGRA8Unorm | BGR5A1Unorm

record texture =
  tex_ref :: objref
  tex_format :: MTLPixelFormat
  tex_width :: nat
  tex_height :: nat
  tex_surface :: "objref option"

datatype vertex = Vertex (vx_position: cgpoint) (vx_texture: cgpoint)

text \<open>What the device returns when asked, \<open>None\<close> for \<open>nil\<close>, and the kernel's page size.\<close>

record metal =
  newTexture :: "MTLPixelFormat \<Rightarrow> nat \<Rightarrow> nat \<Rightarrow> texture option"
  newSurfaceTexture :: "objref \<Rightarrow> MTLPixelFormat \<Rightarrow> nat \<Rightarrow> nat \<Rightarrow> texture option"
  newBuffer :: "nat \<Rightarrow> nat \<Rightarrow> objref option"
  newVertices :: "vertex list \<Rightarrow> objref option"
  surfaceFourCC :: "objref \<Rightarrow> nat"
  pageSize :: nat

datatype target_os = TARGET_OS_OSX | TARGET_OS_IPHONE | TARGET_OS_SIMULATOR

section \<open>State and effects\<close>

record cs_display =
  ready :: bool
  monitorID :: int
  disp_spiceMain :: "objref option"
  isEnabled :: bool
  isGLEnabled :: bool
  hasInitialConfig :: bool
  delayedScanoutSurface :: "objref option"
  delayedScanoutInfo :: "nat \<times> nat"
  surface_refs :: "objref list"
  canvasFormat :: int
  canvasStride :: int
  canvasData :: nat
  canvasArea :: cgrect
  canvasBuffer :: "objref option"
  canvasBufferOffset :: int
  canvasIsBusy :: bool
  canvasDirtyRect :: cgrect
  visibleArea :: cgrect
  displaySize :: "cgfloat \<times> cgfloat"
  shadowTexture :: "texture option"
  presentTexture :: "texture option"
  shadowNeedsFullCopy :: bool
  canvasTexture :: "texture option"
  glTexture :: "texture option"
  numVertices :: nat
  vertices :: "objref option"
  vertexData :: "vertex list"
  device :: "objref option"
  renderers :: "objref list"
  disp_cursor :: "objref option"

datatype display_effect =
    Did_modify "(int \<times> int) list"
  | Copy_memory "(int \<times> int) list"
  | Copy_buffer objref "int \<times> int" "int \<times> int" int int
  | Renderers_invalidate
  | Renderers_invalidate_ack
  | Renderers_invalidate_wait
  | Renderers_disable
  | Commit_copy texture texture "cgrect option"
  | Gl_draw_done
  | Cursor_set_display "objref option" bool
  | Update_display_enabled int bool bool
  | Update_display int cgrect
  | Send_monitor_config

datatype display_block =
    Set_device_block "objref option"
  | Draw_done_block
  | Copy_done_block bool texture
  | Ack_block
  | Resolution_block cgrect
  | Enabled_block bool

definition FMT_32_xRGB :: int where "FMT_32_xRGB = int (surface_fmt_code SPICE_SURFACE_FMT_32_xRGB)"
definition FMT_16_555 :: int where "FMT_16_555 = int (surface_fmt_code SPICE_SURFACE_FMT_16_555)"

definition blank_display :: cs_display where
  "blank_display = \<lparr>ready = False, monitorID = 0, disp_spiceMain = None, isEnabled = False,
     isGLEnabled = False, hasInitialConfig = False, delayedScanoutSurface = None,
     delayedScanoutInfo = (0, 0), surface_refs = [], canvasFormat = 0, canvasStride = 0, canvasData = 0,
     canvasArea = CGRectZero, canvasBuffer = None, canvasBufferOffset = 0, canvasIsBusy = False,
     canvasDirtyRect = CGRectZero, visibleArea = CGRectZero, displaySize = (0, 0), shadowTexture = None,
     presentTexture = None, shadowNeedsFullCopy = False, canvasTexture = None, glTexture = None,
     numVertices = 0, vertices = None, vertexData = [], device = None, renderers = [], disp_cursor = None\<rparr>"

section \<open>Drawing the canvas\<close>

definition pixelSize :: "cs_display \<Rightarrow> int" where
  "pixelSize self = (if canvasFormat self = FMT_32_xRGB then 4 else 2)"

definition draw_offset :: "cgrect \<Rightarrow> cs_display \<Rightarrow> int" where
  "draw_offset rect self =
     c_trunc (origin_y rect * of_int (canvasStride self) + origin_x rect * of_int (pixelSize self))"

text \<open>The byte ranges of the rows, as \<open>didModifyRange:\<close> and the simulator's \<open>memcpy\<close> get them.\<close>

definition draw_rows :: "cgrect \<Rightarrow> cs_display \<Rightarrow> (int \<times> int) list" where
  "draw_rows rect self =
     map (\<lambda>i. (draw_offset rect self + int i * canvasStride self,
               c_trunc (rect_width rect * of_int (pixelSize self))))
       [0..<nat \<lceil>rect_height rect\<rceil>]"

definition drawRegion :: "target_os \<Rightarrow> cgrect \<Rightarrow> cs_display \<Rightarrow> cs_display \<times> display_effect list" where
  "drawRegion plat rect self =
     (case canvasBuffer self of
        None \<Rightarrow> (self, [])
      | Some buffer \<Rightarrow>
          if canvasData self = 0 then (self, [])
          else (self\<lparr>canvasIsBusy := True\<rparr>,
            (case plat of TARGET_OS_SIMULATOR \<Rightarrow> [Copy_memory (draw_rows rect self)]
                        | TARGET_OS_OSX \<Rightarrow> [Did_modify (draw_rows rect self)]
                        | TARGET_OS_IPHONE \<Rightarrow> []) @
            [Copy_buffer buffer
               (c_trunc (origin_x rect - origin_x (visibleArea self)),
                c_trunc (origin_y rect - origin_y (visibleArea self)))
               (c_trunc (rect_width rect), c_trunc (rect_height rect))
               (canvasBufferOffset self + draw_offset rect self) (canvasStride self)]))"

text \<open>The block the completion of a draw posts.\<close>

definition draw_done :: "cg_functions \<Rightarrow> target_os \<Rightarrow> cs_display \<Rightarrow> cs_display \<times> display_effect list" where
  "draw_done G plat self =
     (let dirtyRect = canvasDirtyRect self;
          self1 = self\<lparr>canvasDirtyRect := CGRectZero, canvasIsBusy := False\<rparr>
      in if \<not> cg_is_empty G dirtyRect then drawRegion plat dirtyRect self1 else (self1, []))"

definition cs_invalidate :: "cg_functions \<Rightarrow> target_os \<Rightarrow> int \<Rightarrow> int \<Rightarrow> int \<Rightarrow> int \<Rightarrow> cs_display \<Rightarrow>
    (cs_display \<times> display_effect list) outcome" where
  "cs_invalidate G plat x y w h self =
     (let rect = cg_intersection G (CGRectMake (of_int x) (of_int y) (of_int w) (of_int h)) (visibleArea self)
      in if isGLEnabled self then AssertionFailure
         else if \<not> cg_is_empty G rect then
           (if \<not> canvasIsBusy self then Done (drawRegion plat rect self)
            else Done (self\<lparr>canvasDirtyRect := cg_union G (canvasDirtyRect self) rect\<rparr>, []))
         else Done (self, []))"

section \<open>Canvas texture and vertices\<close>

definition trunc_page :: "nat \<Rightarrow> nat \<Rightarrow> nat" where
  "trunc_page page a = a - a mod page"

definition round_page :: "nat \<Rightarrow> nat \<Rightarrow> nat" where
  "round_page page a = trunc_page page (a + (page - 1))"

definition nat_of :: "cgfloat \<Rightarrow> nat" where
  "nat_of r = nat (c_trunc r)"

definition canvas_bytes :: "cs_display \<Rightarrow> nat" where
  "canvas_bytes self = nat_of (of_int (canvasStride self) * rect_height (canvasArea self))"

text \<open>A message to a \<open>nil\<close> device returns \<open>nil\<close>.\<close>

definition from_device :: "cs_display \<Rightarrow> 'a option \<Rightarrow> 'a option" where
  "from_device self result = (if device self = None then None else result)"

definition rebuildCanvasTexture :: "cg_functions \<Rightarrow> metal \<Rightarrow> target_os \<Rightarrow> cs_display \<Rightarrow>
    cs_display \<times> display_effect list" where
  "rebuildCanvasTexture G M plat self =
     (if cg_is_empty G (visibleArea self) \<or> device self = None then (self, [])
      else (let format = (if canvasFormat self = FMT_32_xRGB then BGRA8Unorm else BGR5A1Unorm);
                self1 = self\<lparr>canvasTexture := newTexture M format (nat_of (rect_width (visibleArea self)))
                               (nat_of (rect_height (visibleArea self)))\<rparr>;
                aligned = trunc_page (pageSize M) (canvasData self);
                canvasSize = canvas_bytes self
            in if aligned = 0 \<or> canvasSize = 0 then (self1, [])
               else (let self2 =
                   (case plat of
                      TARGET_OS_SIMULATOR \<Rightarrow> self1\<lparr>canvasBuffer := newBuffer M (canvasData self) canvasSize\<rparr>
                    | _ \<Rightarrow> (let off = canvasData self - aligned
                           in self1\<lparr>canvasBufferOffset := int off,
                                    canvasBuffer := newBuffer M aligned (round_page (pageSize M) (canvasSize + off))\<rparr>))
                 in drawRegion plat (visibleArea self) self2)))"

text \<open>The texture coordinates of the visible area: minX, maxX, minY, maxY.\<close>

definition texture_bounds :: "cg_functions \<Rightarrow> cs_display \<Rightarrow> cgfloat \<times> cgfloat \<times> cgfloat \<times> cgfloat" where
  "texture_bounds G self =
     (if isGLEnabled self \<and> \<not> cg_is_empty G (canvasArea self) then
        (let textureWidth = rect_width (canvasArea self); textureHeight = rect_height (canvasArea self);
             v = visibleArea self
         in (origin_x v / textureWidth, (origin_x v + rect_width v) / textureWidth,
             origin_y v / textureHeight, (origin_y v + rect_height v) / textureHeight))
      else (0, 1, 0, 1))"

definition display_quad :: "cg_functions \<Rightarrow> cs_display \<Rightarrow> vertex list" where
  "display_quad G self =
     (let (minX, maxX, minY, maxY) = texture_bounds G self;
          w = rect_width (visibleArea self); h = rect_height (visibleArea self)
      in [Vertex (w / 2, h / 2) (maxX, minY),
          Vertex (- w / 2, h / 2) (minX, minY),
          Vertex (- w / 2, - h / 2) (minX, maxY),
          Vertex (w / 2, h / 2) (maxX, minY),
          Vertex (- w / 2, - h / 2) (minX, maxY),
          Vertex (w / 2, - h / 2) (maxX, maxY)])"

definition rebuildDisplayVertices :: "cg_functions \<Rightarrow> metal \<Rightarrow> cs_display \<Rightarrow> cs_display" where
  "rebuildDisplayVertices G M self =
     (if cg_is_empty G (visibleArea self) \<or> device self = None then self
      else (let quad = display_quad G self
            in self\<lparr>vertices := newVertices M quad, vertexData := quad, numVertices := length quad\<rparr>))"

section \<open>Monitors and the primary surface\<close>

definition updateVisibleAreaWithRect :: "cg_functions \<Rightarrow> metal \<Rightarrow> target_os \<Rightarrow> cgrect \<Rightarrow> cs_display \<Rightarrow>
    cs_display \<times> display_effect list" where
  "updateVisibleAreaWithRect G M plat rect self =
     (let visible = cg_intersection G (canvasArea self) rect;
          self1 = (if cg_is_null G visible then self\<lparr>ready := False, visibleArea := CGRectZero\<rparr>
                   else self\<lparr>visibleArea := visible\<rparr>);
          self2 = self1\<lparr>displaySize := rect_size (visibleArea self1)\<rparr>;
          (self3, effects) = (if \<not> isGLEnabled self2 then rebuildCanvasTexture G M plat self2 else (self2, []))
      in ((rebuildDisplayVertices G M self3)\<lparr>ready := True\<rparr>, effects))"

record monitor_config =
  surface_id :: nat
  mon_x :: int
  mon_y :: int
  mon_width :: int
  mon_height :: int

text \<open>\<open>capable\<close>: the channel has \<open>SPICE_DISPLAY_CAP_MONITORS_CONFIG\<close>.\<close>

definition cs_update_monitor_area :: "cg_functions \<Rightarrow> metal \<Rightarrow> target_os \<Rightarrow> monitor_config list \<Rightarrow> bool \<Rightarrow>
    cs_display \<Rightarrow> (cs_display \<times> display_effect list) outcome" where
  "cs_update_monitor_area G M plat monitors capable self =
     (let whole = (\<lambda>s. Done (updateVisibleAreaWithRect G M plat (canvasArea s) s))
      in if monitorID self < 0 then whole self
         else if \<not> length monitors \<le> 1 then AssertionFailure
         else (case monitors of
                 [] \<Rightarrow> if capable then Done (self\<lparr>ready := False\<rparr>, []) else whole (self\<lparr>ready := False\<rparr>)
               | c # _ \<Rightarrow>
                   if surface_id c \<noteq> 0 then whole self
                   else if length monitors = 1 \<and> \<not> isGLEnabled self
                   then Done (updateVisibleAreaWithRect G M plat
                          (CGRectMake 0 0 (of_int (mon_width c)) (of_int (mon_height c))) self)
                   else Done (updateVisibleAreaWithRect G M plat
                          (CGRectMake (of_int (mon_x c)) (of_int (mon_y c)) (of_int (mon_width c)) (of_int (mon_height c)))
                          self)))"

definition cs_primary_create :: "cg_functions \<Rightarrow> metal \<Rightarrow> target_os \<Rightarrow> monitor_config list \<Rightarrow> bool \<Rightarrow>
    int \<Rightarrow> int \<Rightarrow> int \<Rightarrow> int \<Rightarrow> nat \<Rightarrow> cs_display \<Rightarrow> (cs_display \<times> display_effect list) outcome" where
  "cs_primary_create G M plat monitors capable format width height stride imgdata self =
     (if \<not> (format = FMT_32_xRGB \<or> format = FMT_16_555) then AssertionFailure
      else cs_update_monitor_area G M plat monitors capable
        (self\<lparr>canvasArea := CGRectMake 0 0 (of_int width) (of_int height), canvasFormat := format,
              canvasStride := stride, canvasData := imgdata\<rparr>))"

definition cs_primary_destroy :: "cs_display \<Rightarrow> cs_display \<times> display_effect list" where
  "cs_primary_destroy self =
     (self\<lparr>ready := False, canvasArea := CGRectZero, canvasFormat := 0, canvasStride := 0, canvasData := 0,
           canvasBuffer := None, shadowTexture := None, presentTexture := None\<rparr>,
      (if canvasIsBusy self then [Renderers_invalidate_wait] else []) @ [Renderers_disable])"

definition initWithChannel :: "cg_functions \<Rightarrow> metal \<Rightarrow> target_os \<Rightarrow> monitor_config list \<Rightarrow> bool \<Rightarrow>
    int \<Rightarrow> (int \<times> int \<times> int \<times> int \<times> nat) option \<Rightarrow> (cs_display \<times> display_effect list) outcome" where
  "initWithChannel G M plat monitors capable channelID primary =
     (let self = blank_display\<lparr>monitorID := channelID\<rparr>
      in case primary of
           None \<Rightarrow> Done (self, [])
         | Some (format, width, height, stride, imgdata) \<Rightarrow>
             cs_primary_create G M plat monitors capable format width height stride imgdata self)"

section \<open>GL scanout\<close>

definition pixelFormatForSurface :: "metal \<Rightarrow> objref \<Rightarrow> MTLPixelFormat" where
  "pixelFormatForSurface M surface = (if surfaceFourCC M surface = 0x52474241 then RGBA8Unorm else BGRA8Unorm)"

definition rebuildShadowTexture :: "metal \<Rightarrow> nat \<Rightarrow> nat \<Rightarrow> cs_display \<Rightarrow> cs_display" where
  "rebuildShadowTexture M width height self =
     (let format = (case glTexture self of Some t \<Rightarrow> tex_format t | None \<Rightarrow> BGRA8Unorm)
      in if (case shadowTexture self of
               Some t \<Rightarrow> tex_width t = width \<and> tex_height t = height \<and> tex_format t = format
             | None \<Rightarrow> False)
         then self
         else self\<lparr>shadowTexture := from_device self (newTexture M format width height),
                   presentTexture := None\<rparr>)"

definition rebuildScanoutTextureWithSurface :: "metal \<Rightarrow> objref \<Rightarrow> nat \<Rightarrow> nat \<Rightarrow> cs_display \<Rightarrow> cs_display" where
  "rebuildScanoutTextureWithSurface M surface width height self =
     (let self1 = self\<lparr>canvasArea := CGRectMake 0 0 (of_nat width) (of_nat height),
            glTexture := from_device self
              (newSurfaceTexture M surface (pixelFormatForSurface M surface) width height),
            surface_refs := remove1 surface (surface_refs self)\<rparr>
      in (rebuildShadowTexture M width height self1)\<lparr>shadowNeedsFullCopy := True\<rparr>)"

text \<open>
  What reading the scanout's descriptor gives: \<open>poll\<close> and its two events, the \<open>read\<close> of the
  surface's number and the surface looked up.
\<close>

record scanout =
  poll_fails :: bool
  poll_in :: bool
  poll_hup :: bool
  read_whole :: bool
  looked_up :: "objref option"
  so_width :: nat
  so_height :: nat

definition rebuildScanoutTextureWithScanout :: "cg_functions \<Rightarrow> metal \<Rightarrow> scanout \<Rightarrow> cs_display \<Rightarrow> cs_display" where
  "rebuildScanoutTextureWithScanout G M scan self =
     (if poll_fails scan then self
      else if \<not> (poll_in scan \<and> \<not> poll_hup scan) then self
      else if \<not> read_whole scan then self
      else (case looked_up scan of
              None \<Rightarrow> self
            | Some surface \<Rightarrow>
                (let self1 = self\<lparr>surface_refs := surface # surface_refs self\<rparr>
                 in if device self1 \<noteq> None
                    then rebuildDisplayVertices G M
                      (rebuildScanoutTextureWithSurface M surface (so_width scan) (so_height scan) self1)
                    else self1\<lparr>delayedScanoutSurface := Some surface,
                               delayedScanoutInfo := (so_width scan, so_height scan)\<rparr>)))"

definition cs_gl_scanout :: "cg_functions \<Rightarrow> metal \<Rightarrow> scanout option \<Rightarrow> cs_display \<Rightarrow> cs_display outcome" where
  "cs_gl_scanout G M scan self =
     (case scan of
        None \<Rightarrow> CriticalReturn
      | Some s \<Rightarrow> Done (rebuildScanoutTextureWithScanout G M s (self\<lparr>isGLEnabled := True\<rparr>)))"

text \<open>
  \<open>copyScanoutRect:withCompletion:\<close>; \<open>encodes\<close> says that the queue yields a command buffer with an
  encoder, which needs a renderer. Otherwise the renderers are invalidated and will report back.
\<close>

definition copyScanoutRect :: "cg_functions \<Rightarrow> bool \<Rightarrow> cgrect \<Rightarrow> cs_display \<Rightarrow> cs_display \<times> display_effect list" where
  "copyScanoutRect G encodes rect self =
     (case (glTexture self, shadowTexture self) of
        (Some source, Some destination) \<Rightarrow>
          if ready self \<and> renderers self \<noteq> [] \<and> encodes then
            (let bounds = CGRectMake 0 0 (of_nat (min (tex_width source) (tex_width destination)))
                            (of_nat (min (tex_height source) (tex_height destination)));
                 damaged = (if shadowNeedsFullCopy self then bounds else cg_intersection G rect bounds)
             in (self\<lparr>shadowNeedsFullCopy := False\<rparr>,
                 [Commit_copy source destination (if cg_is_empty G damaged then None else Some damaged)]))
          else (self, [Renderers_invalidate_ack])
      | _ \<Rightarrow> (self, [Renderers_invalidate_ack]))"

definition cs_gl_draw :: "cg_functions \<Rightarrow> bool \<Rightarrow> nat \<Rightarrow> nat \<Rightarrow> nat \<Rightarrow> nat \<Rightarrow> cs_display \<Rightarrow>
    (cs_display \<times> display_effect list) outcome" where
  "cs_gl_draw G encodes x y w h self =
     (if \<not> isGLEnabled self then AssertionFailure
      else Done (copyScanoutRect G encodes (CGRectMake (of_nat x) (of_nat y) (of_nat w) (of_nat h)) self))"

text \<open>The completion of \<open>cs_gl_draw\<close>, and the block a finished copy posts.\<close>

definition gl_ack :: "cs_display \<Rightarrow> cs_display \<times> display_effect list" where
  "gl_ack self = (self, [Gl_draw_done, Renderers_invalidate])"

definition copy_done :: "bool \<Rightarrow> texture \<Rightarrow> cs_display \<Rightarrow> cs_display \<times> display_effect list" where
  "copy_done succeeded destination self =
     gl_ack (if succeeded \<and> shadowTexture self = Some destination
             then self\<lparr>presentTexture := Some destination\<rparr> else self)"

section \<open>Properties of the render source\<close>

definition display_texture :: "cs_display \<Rightarrow> texture option" where
  "display_texture self =
     (if isGLEnabled self
      then (case presentTexture self of Some t \<Rightarrow> Some t | None \<Rightarrow> glTexture self)
      else canvasTexture self)"

definition isPrimaryDisplay :: "cs_display \<Rightarrow> bool" where
  "isPrimaryDisplay self \<longleftrightarrow> monitorID self = 0"

definition display_isVisible :: "cs_display \<Rightarrow> bool" where
  "display_isVisible self \<longleftrightarrow> ready self \<and> display_texture self \<noteq> None \<and> vertices self \<noteq> None"

definition display_source :: "render_source option \<Rightarrow> cs_display \<Rightarrow> render_source" where
  "display_source cursor self = Render_source (display_isVisible self) (0, 0)
     (map_option tex_ref (display_texture self)) (numVertices self) (vertices self) False False cursor"

datatype screenshot_source = From_canvas nat nat int | From_texture texture | No_screenshot

definition screenshot :: "cs_display \<Rightarrow> screenshot_source" where
  "screenshot self =
     (if canvasData self \<noteq> 0 \<and> \<not> isGLEnabled self
      then From_canvas (canvasData self) (canvas_bytes self) (canvasStride self)
      else (case display_texture self of
              Some t \<Rightarrow> if isGLEnabled self then From_texture t else No_screenshot
            | None \<Rightarrow> No_screenshot))"

section \<open>Properties set by the client\<close>

definition set_device :: "cg_functions \<Rightarrow> metal \<Rightarrow> target_os \<Rightarrow> objref option \<Rightarrow> cs_display \<Rightarrow>
    cs_display \<times> display_effect list" where
  "set_device G M plat dev self =
     (let self1 = self\<lparr>device := dev, shadowTexture := None, presentTexture := None\<rparr>;
          (self2, effects) =
            (if isGLEnabled self1 then
               (case delayedScanoutSurface self1 of
                  Some surface \<Rightarrow>
                    ((rebuildScanoutTextureWithSurface M surface (fst (delayedScanoutInfo self1))
                        (snd (delayedScanoutInfo self1)) self1)\<lparr>delayedScanoutSurface := None\<rparr>, [])
                | None \<Rightarrow>
                    (case glTexture self1 of
                       None \<Rightarrow> (self1, [])
                     | Some t \<Rightarrow> (case tex_surface t of
                         None \<Rightarrow> (self1, [])
                       | Some surface \<Rightarrow>
                           (rebuildScanoutTextureWithSurface M surface (tex_width t) (tex_height t)
                              (self1\<lparr>surface_refs := surface # surface_refs self1\<rparr>), []))))
             else rebuildCanvasTexture G M plat self1)
      in (rebuildDisplayVertices G M self2, effects))"

fun run_display :: "cg_functions \<Rightarrow> metal \<Rightarrow> target_os \<Rightarrow> display_block \<Rightarrow> cs_display \<Rightarrow>
    cs_display \<times> display_effect list" where
  "run_display G M plat (Set_device_block dev) self = set_device G M plat dev self"
| "run_display G M plat Draw_done_block self = draw_done G plat self"
| "run_display G M plat (Copy_done_block succeeded destination) self = copy_done succeeded destination self"
| "run_display G M plat Ack_block self = gl_ack self"
| "run_display G M plat (Resolution_block bounds) self =
     (self, [Update_display_enabled (monitorID self) True False, Update_display (monitorID self) bounds,
             Send_monitor_config])"
| "run_display G M plat (Enabled_block enabled) self =
     (self\<lparr>isEnabled := enabled\<rparr>, [Update_display_enabled (monitorID self) enabled True])"

definition setDevice :: "objref option \<Rightarrow> cs_display \<Rightarrow> display_block list \<times> display_effect list" where
  "setDevice dev self =
     (if device self = dev then ([], [])
      else ([Set_device_block dev], [Cursor_set_display (disp_cursor self) True]))"

definition setCursor :: "objref option \<Rightarrow> cs_display \<Rightarrow> cs_display \<times> display_effect list" where
  "setCursor cursor self =
     (self\<lparr>disp_cursor := cursor\<rparr>,
      (if disp_cursor self \<noteq> None then [Cursor_set_display (disp_cursor self) False] else []) @
      (if cursor \<noteq> None then [Cursor_set_display cursor True] else []))"

definition requestResolution :: "cgrect \<Rightarrow> cs_display \<Rightarrow> display_block list" where
  "requestResolution bounds self = (if disp_spiceMain self = None then [] else [Resolution_block bounds])"

definition setIsEnabled :: "bool \<Rightarrow> cs_display \<Rightarrow> display_block list" where
  "setIsEnabled enabled self =
     (if isEnabled self \<noteq> enabled then
        (if disp_spiceMain self = None then [] else [Enabled_block enabled])
      else [])"

end
