(* ===== verification/Display_Canvas.thy ===== *)
theory Display_Canvas
  imports Display
begin

text \<open>
  Properties of the canvas side of \<^verbatim>\<open>CSDisplay.m\<close>: no damage is lost between invalidations and
  draws, what a draw reads lies inside the mapped buffer, what the quad shows is the visible
  area, and what happens when the primary surface goes away.
\<close>

section \<open>Draws cover their rectangle\<close>

text \<open>The pixels of the canvas a copy to the renderers covers.\<close>

fun covered :: "cgrect \<Rightarrow> display_effect \<Rightarrow> (int \<times> int) set" where
  "covered visible (Copy_buffer b (ox, oy) (w, h) off stride) =
     {(i, j). ox \<le> i - c_trunc (origin_x visible) \<and> i - c_trunc (origin_x visible) < ox + w \<and>
              oy \<le> j - c_trunc (origin_y visible) \<and> j - c_trunc (origin_y visible) < oy + h}"
| "covered visible e = {}"

definition covered_by :: "cgrect \<Rightarrow> display_effect list \<Rightarrow> (int \<times> int) set" where
  "covered_by visible es = (\<Union>e\<in>set es. covered visible e)"

lemma c_trunc_of_int [simp]: "c_trunc (of_int n) = n"
  by (simp add: c_trunc_def)

lemma integral_cases:
  assumes "integral r" and "pixels r \<noteq> {}"
  obtains x y w h where "r = CGRectMake (of_int x) (of_int y) (of_int w) (of_int h)" "0 \<le> w" "0 \<le> h"
proof (cases r)
  case CGRectNull
  with assms show ?thesis by simp
next
  case (CGRectMake a b c d)
  then have "a \<in> \<int>" "b \<in> \<int>" "c \<in> \<int>" "d \<in> \<int>" "0 \<le> c" "0 \<le> d" using assms(1) by simp_all
  moreover then obtain x y w h where "a = of_int x" "b = of_int y" "c = of_int w" "d = of_int h"
    by (metis Ints_cases)
  ultimately show ?thesis using CGRectMake that by simp
qed

lemma pixels_of_int:
  "pixels (CGRectMake (of_int x) (of_int y) (of_int w) (of_int h)) =
     {(i, j). x \<le> i \<and> i < x + w \<and> y \<le> j \<and> j < y + h}"
proof -
  have "(of_int i :: rat) < of_int a + of_int b \<longleftrightarrow> i < a + b" for i a b :: int
    by (metis of_int_add of_int_less_iff)
  then show ?thesis by simp
qed

definition canvas_ready :: "cs_display \<Rightarrow> bool" where
  "canvas_ready self \<longleftrightarrow> canvasData self \<noteq> 0 \<and> canvasBuffer self \<noteq> None"

lemma drawRegion_frame [simp]:
  "canvas_ready self \<Longrightarrow> fst (drawRegion plat r self) = self\<lparr>canvasIsBusy := True\<rparr>"
  by (auto simp: canvas_ready_def drawRegion_def)

lemma covered_by_drawRegion:
  assumes "canvasBuffer self = Some buffer" and "canvasData self \<noteq> 0"
  shows "covered_by v (snd (drawRegion plat r self)) = covered v
    (Copy_buffer buffer
       (c_trunc (origin_x r - origin_x (visibleArea self)), c_trunc (origin_y r - origin_y (visibleArea self)))
       (c_trunc (rect_width r), c_trunc (rect_height r))
       (canvasBufferOffset self + draw_offset r self) (canvasStride self))"
  using assms by (cases plat) (simp_all add: drawRegion_def covered_by_def del: covered.simps(1))

lemma covered_of_int:
  assumes "origin_x v = of_int vx" and "origin_y v = of_int vy"
  shows "covered v (Copy_buffer b (x - vx, y - vy) (w, h) off st) =
    pixels (CGRectMake (of_int x) (of_int y) (of_int w) (of_int h))"
  unfolding pixels_of_int covered.simps assms c_trunc_of_int by (intro Collect_cong) auto

lemma drawRegion_covers:
  assumes "canvas_ready self" and "integral r" and "pixels r \<noteq> {}"
    and "integral (visibleArea self)"
  shows "covered_by (visibleArea self) (snd (drawRegion plat r self)) = pixels r"
proof -
  obtain x y w h where r: "r = CGRectMake (of_int x) (of_int y) (of_int w) (of_int h)"
    by (rule integral_cases[OF assms(2,3)])
  have "\<exists>vx. origin_x (visibleArea self) = of_int vx" "\<exists>vy. origin_y (visibleArea self) = of_int vy"
    using assms(4) by (cases "visibleArea self"; auto elim!: Ints_cases)+
  then obtain vx vy where v: "origin_x (visibleArea self) = of_int vx" "origin_y (visibleArea self) = of_int vy"
    by blast
  obtain buffer where b: "canvasBuffer self = Some buffer" "canvasData self \<noteq> 0"
    using assms(1) unfolding canvas_ready_def by blast
  have c: "c_trunc (of_int x - of_int vx) = x - vx" "c_trunc (of_int y - of_int vy) = y - vy"
    by (simp_all only: of_int_diff[symmetric] c_trunc_of_int)
  show ?thesis
    unfolding covered_by_drawRegion[OF b] r origin_x.simps origin_y.simps rect_width.simps rect_height.simps
      v c c_trunc_of_int by (rule covered_of_int[OF v])
qed

section \<open>No damage is lost\<close>

text \<open>
  A display with a canvas, the pixels damaged and not yet part of a draw sent to the renderers,
  and the draws whose completion has not been reported.
\<close>

record canvas_sys =
  cdisp :: cs_display
  damage :: "(int \<times> int) set"
  outstanding :: nat

definition draws_sent :: "display_effect list \<Rightarrow> nat" where
  "draws_sent es = length (filter (\<lambda>e. case e of Copy_buffer b r s off st \<Rightarrow> True | _ \<Rightarrow> False) es)"

definition canvas_after :: "(int \<times> int) set \<Rightarrow> cs_display \<times> display_effect list \<Rightarrow> canvas_sys \<Rightarrow> canvas_sys" where
  "canvas_after new out w = w\<lparr>cdisp := fst out,
     damage := (damage w \<union> new) - covered_by (visibleArea (cdisp w)) (snd out),
     outstanding := outstanding w + draws_sent (snd out)\<rparr>"

inductive canvas_reach :: "cg_functions \<Rightarrow> target_os \<Rightarrow> cs_display \<Rightarrow> canvas_sys \<Rightarrow> bool" where
  start: "canvas_reach G plat self \<lparr>cdisp = self, damage = {}, outstanding = 0\<rparr>"
| invalidate: "canvas_reach G plat self w \<Longrightarrow> 0 \<le> dw \<Longrightarrow> 0 \<le> dh \<Longrightarrow>
    cs_invalidate G plat x y dw dh (cdisp w) = Done out \<Longrightarrow>
    canvas_reach G plat self (canvas_after
      (pixels (CGRectMake (of_int x) (of_int y) (of_int dw) (of_int dh)) \<inter> pixels (visibleArea (cdisp w))) out w)"
| drawn: "canvas_reach G plat self w \<Longrightarrow> outstanding w = Suc n \<Longrightarrow>
    canvas_reach G plat self (canvas_after {} (draw_done G plat (cdisp w)) (w\<lparr>outstanding := n\<rparr>))"

definition canvas_idle :: "cs_display \<Rightarrow> bool" where
  "canvas_idle self \<longleftrightarrow> canvas_ready self \<and> \<not> isGLEnabled self \<and> integral (visibleArea self) \<and>
     \<not> canvasIsBusy self \<and> canvasDirtyRect self = CGRectZero"

definition canvas_inv :: "canvas_sys \<Rightarrow> bool" where
  "canvas_inv w \<longleftrightarrow> canvas_ready (cdisp w) \<and> \<not> isGLEnabled (cdisp w) \<and> integral (visibleArea (cdisp w)) \<and>
     integral (canvasDirtyRect (cdisp w)) \<and> damage w \<subseteq> pixels (canvasDirtyRect (cdisp w)) \<and>
     (\<not> canvasIsBusy (cdisp w) \<longrightarrow> canvasDirtyRect (cdisp w) = CGRectZero) \<and>
     outstanding w = (if canvasIsBusy (cdisp w) then 1 else 0)"

lemma draws_sent_drawRegion: "canvas_ready self \<Longrightarrow> draws_sent (snd (drawRegion plat r self)) = 1"
  by (cases plat) (auto simp: canvas_ready_def drawRegion_def draws_sent_def)

lemma canvas_inv_invalidate:
  assumes "cg_documented G" and "canvas_inv w" and "0 \<le> dw" and "0 \<le> dh"
    and "cs_invalidate G plat x y dw dh (cdisp w) = Done out"
  shows "canvas_inv (canvas_after
    (pixels (CGRectMake (of_int x) (of_int y) (of_int dw) (of_int dh)) \<inter> pixels (visibleArea (cdisp w))) out w)"
proof -
  let ?self = "cdisp w" and ?d = "CGRectMake (of_int x) (of_int y) (of_int dw) (of_int dh)"
  let ?r = "cg_intersection G ?d (visibleArea ?self)"
  have d: "integral ?d" using assms(3,4) by simp
  have inv: "canvas_ready ?self" "\<not> isGLEnabled ?self" "integral (visibleArea ?self)"
    "integral (canvasDirtyRect ?self)" "damage w \<subseteq> pixels (canvasDirtyRect ?self)"
    using assms(2) by (simp_all add: canvas_inv_def)
  note r = cg_laws(1,2)[OF assms(1) d inv(3)]
  have empty: "cg_is_empty G ?r \<longleftrightarrow> pixels ?r = {}" by (rule cg_laws(6)[OF assms(1) r(1)])
  consider (nothing) "pixels ?r = {}" "out = (?self, [])"
    | (draw) "pixels ?r \<noteq> {}" "\<not> canvasIsBusy ?self" "out = drawRegion plat ?r ?self"
    | (dirty) "pixels ?r \<noteq> {}" "canvasIsBusy ?self"
      "out = (?self\<lparr>canvasDirtyRect := cg_union G (canvasDirtyRect ?self) ?r\<rparr>, [])"
  proof -
    have "cs_invalidate G plat x y dw dh ?self = (if \<not> cg_is_empty G ?r then
        (if \<not> canvasIsBusy ?self then Done (drawRegion plat ?r ?self)
         else Done (?self\<lparr>canvasDirtyRect := cg_union G (canvasDirtyRect ?self) ?r\<rparr>, []))
      else Done (?self, []))"
      unfolding cs_invalidate_def Let_def if_not_P[OF inv(2)] by (rule refl)
    note out = this[unfolded assms(5) empty]
    show thesis
    proof (cases "pixels ?r = {}")
      case True
      with out that(1) show thesis by (simp del: pixels.simps)
    next
      case False
      with out that(2,3) show thesis by (cases "canvasIsBusy ?self") (simp_all del: pixels.simps)
    qed
  qed
  then show ?thesis
  proof cases
    case nothing
    then show ?thesis using assms(2) r by (simp add: canvas_inv_def canvas_after_def covered_by_def draws_sent_def)
  next
    case draw
    have "damage w = {}" using assms(2) draw(2) inv(5) by (simp add: canvas_inv_def)
    then show ?thesis using assms(2) draw r inv drawRegion_covers[OF inv(1) r(1) draw(1) inv(3)]
      by (simp add: canvas_inv_def canvas_after_def draws_sent_drawRegion canvas_ready_def)
  next
    case dirty
    note u = cg_laws(3,4,5)[OF assms(1) inv(4) r(1)]
    show ?thesis using assms(2) dirty u r inv(5)
      by (auto simp: canvas_inv_def canvas_after_def covered_by_def draws_sent_def canvas_ready_def)
  qed
qed

lemma canvas_inv_done:
  assumes "cg_documented G" and "canvas_inv w" and "outstanding w = Suc n"
  shows "canvas_inv (canvas_after {} (draw_done G plat (cdisp w)) (w\<lparr>outstanding := n\<rparr>)) \<and>
    damage (canvas_after {} (draw_done G plat (cdisp w)) (w\<lparr>outstanding := n\<rparr>)) = {}"
proof -
  let ?self = "cdisp w" and ?self1 = "(cdisp w)\<lparr>canvasDirtyRect := CGRectZero, canvasIsBusy := False\<rparr>"
  have inv: "canvas_ready ?self1" "integral (visibleArea ?self1)" "integral (canvasDirtyRect ?self)"
    "damage w \<subseteq> pixels (canvasDirtyRect ?self)" "n = 0"
    using assms(2,3) by (simp_all add: canvas_inv_def canvas_ready_def split: if_splits)
  show ?thesis
  proof (cases "pixels (canvasDirtyRect ?self) = {}")
    case True
    then have "draw_done G plat ?self = (?self1, [])"
      using cg_laws(6)[OF assms(1) inv(3)] by (simp add: draw_done_def)
    then show ?thesis using assms(2) inv True
      by (simp add: canvas_inv_def canvas_after_def covered_by_def draws_sent_def)
  next
    case False
    then have "draw_done G plat ?self = drawRegion plat (canvasDirtyRect ?self) ?self1"
      using cg_laws(6)[OF assms(1) inv(3)] by (simp add: draw_done_def)
    then show ?thesis using assms(2) inv drawRegion_covers[OF inv(1,3) False inv(2)]
      by (simp add: canvas_inv_def canvas_after_def draws_sent_drawRegion canvas_ready_def)
  qed
qed

lemma canvas_reach_inv:
  assumes "canvas_reach G plat self w" and "cg_documented G" and "canvas_idle self"
  shows "canvas_inv w"
  using assms
proof (induction rule: canvas_reach.induct)
  case (start G plat self)
  then show ?case by (simp add: canvas_inv_def canvas_idle_def)
next
  case (invalidate G plat self w dw dh x y out)
  then show ?case by (intro canvas_inv_invalidate) simp_all
next
  case (drawn G plat self w n)
  then show ?case using canvas_inv_done by blast
qed


definition sample_canvas :: cs_display where
  "sample_canvas = blank_display\<lparr>canvasData := 4096, canvasBuffer := Some 1, canvasFormat := 32,
     canvasStride := 16, canvasArea := CGRectMake 0 0 4 3, visibleArea := CGRectMake 0 0 4 3\<rparr>"


lemma sample_canvas_simps [simp]:
  "canvasData sample_canvas = 4096" "canvasBuffer sample_canvas = Some 1" "canvasFormat sample_canvas = 32"
  "canvasStride sample_canvas = 16" "canvasArea sample_canvas = CGRectMake 0 0 4 3"
  "visibleArea sample_canvas = CGRectMake 0 0 4 3" "isGLEnabled sample_canvas = False"
  "canvasBufferOffset sample_canvas = 0" "canvasIsBusy sample_canvas = False"
  "canvasDirtyRect sample_canvas = CGRectZero" "monitorID sample_canvas = 0" "pixelSize sample_canvas = 4"
  by (simp_all add: sample_canvas_def blank_display_def pixelSize_def FMT_32_xRGB_def)

section \<open>What a draw reads\<close>

lemma page_bounds:
  assumes "0 < page"
  shows "trunc_page page a \<le> a" "a \<le> round_page page a" "page dvd trunc_page page a" "page dvd round_page page a"
proof -
  show "trunc_page page a \<le> a" by (simp add: trunc_page_def)
  show "page dvd trunc_page page a" by (simp add: trunc_page_def dvd_minus_mod)
  show "page dvd round_page page a" by (simp add: round_page_def trunc_page_def dvd_minus_mod)
  have "(a + (page - 1)) mod page \<le> page - 1"
    using mod_less_divisor[OF assms, of "a + (page - 1)"] by linarith
  then show "a \<le> round_page page a" by (simp add: round_page_def trunc_page_def)
qed

lemma canvas_bytes_of_int:
  "canvasArea self = CGRectMake 0 0 (of_int W) (of_int H) \<Longrightarrow> canvas_bytes self = nat (canvasStride self * H)"
  by (simp add: canvas_bytes_def nat_of_def of_int_mult[symmetric] del: of_int_mult)

lemma draw_offset_of_int:
  "draw_offset (CGRectMake (of_int x) (of_int y) w h) self = y * canvasStride self + x * pixelSize self"
  unfolding draw_offset_def origin_x.simps origin_y.simps of_int_mult[symmetric] of_int_add[symmetric]
    c_trunc_of_int ..



text \<open>
  On macOS the byte ranges announced with \<open>didModifyRange:\<close> start at the canvas, while the copy
  reads from the canvas's offset in the page-aligned buffer: the first announced range is the
  first row copied only when the canvas itself is page aligned.
\<close>

theorem modified_range_offset:
  assumes "canvas_ready self" and "0 < h"
  shows "\<exists>rows b org sz src stride.
    snd (drawRegion TARGET_OS_OSX (CGRectMake x y w (of_int h)) self) =
      [Did_modify rows, Copy_buffer b org sz src stride] \<and>
    src = fst (hd rows) + canvasBufferOffset self \<and>
    (src = fst (hd rows) \<longleftrightarrow> canvasBufferOffset self = 0)"
proof -
  have "[0..<nat h] = 0 # [1..<nat h]" using assms(2) by (simp add: upt_conv_Cons)
  then show ?thesis using assms(1) by (auto simp: canvas_ready_def drawRegion_def draw_rows_def)
qed

theorem modified_range_offset_witness:
  "\<exists>rows b org sz src stride.
    snd (drawRegion TARGET_OS_OSX (CGRectMake 0 0 4 (of_int 3)) (sample_canvas\<lparr>canvasBufferOffset := 64\<rparr>)) =
      [Did_modify rows, Copy_buffer b org sz src stride] \<and> src = fst (hd rows) + 64"
proof -
  have "canvas_ready (sample_canvas\<lparr>canvasBufferOffset := 64\<rparr>)"
    by (simp add: canvas_ready_def)
  from modified_range_offset[OF this, of 3 0 0 4] show ?thesis by auto
qed

section \<open>What is shown\<close>

text \<open>
  The quad shows exactly the visible area: at every vertex the texture coordinate, scaled to
  the texture, is the pixel of the visible area the vertex stands for, counted from its top left
  corner. In GL mode the texture is the whole scanout and the area is cut out of it; otherwise
  the texture is the area itself.
\<close>

theorem quad_shows_visible_area:
  assumes "v \<in> set (display_quad G self)"
    and "visibleArea self = CGRectMake x y w h"
    and "isGLEnabled self \<Longrightarrow> \<not> cg_is_empty G (canvasArea self)"
    and "isGLEnabled self \<Longrightarrow> rect_width (canvasArea self) \<noteq> 0 \<and> rect_height (canvasArea self) \<noteq> 0"
  defines "from_left \<equiv> fst (vx_position v) + w / 2" and "from_top \<equiv> h / 2 - snd (vx_position v)"
  shows "if isGLEnabled self
    then fst (vx_texture v) * rect_width (canvasArea self) = x + from_left \<and>
         snd (vx_texture v) * rect_height (canvasArea self) = y + from_top
    else fst (vx_texture v) * w = from_left \<and> snd (vx_texture v) * h = from_top"
  using assms by (auto simp: display_quad_def texture_bounds_def Let_def)

theorem quad_shows_visible_area_witness:
  "snd (vx_texture (hd (display_quad model_cg sample_canvas))) * 3 = 3 / 2 - snd (vx_position (hd (display_quad model_cg sample_canvas)))"
  using quad_shows_visible_area[of "hd (display_quad model_cg sample_canvas)" model_cg sample_canvas 0 0 4 3]
  by (simp add: display_quad_def Let_def texture_bounds_def)

text \<open>
  Changing the visible area always leaves the display ready, even when the area does not meet
  the canvas: then the area is empty and neither texture nor vertices are rebuilt, so a display
  that had them keeps showing them.
\<close>

theorem visible_area_ready:
  assumes "cg_documented G"
  shows "ready (fst (updateVisibleAreaWithRect G M plat rect self)) \<and>
    (cg_intersection G (canvasArea self) rect = CGRectNull \<longrightarrow>
      visibleArea (fst (updateVisibleAreaWithRect G M plat rect self)) = CGRectZero \<and>
      snd (updateVisibleAreaWithRect G M plat rect self) = [] \<and>
      display_texture (fst (updateVisibleAreaWithRect G M plat rect self)) = display_texture self \<and>
      vertices (fst (updateVisibleAreaWithRect G M plat rect self)) = vertices self)"
proof -
  have empty: "cg_is_empty G CGRectZero" using cg_laws(6)[OF assms, of CGRectZero] by simp
  have "ready (fst (updateVisibleAreaWithRect G M plat rect self))"
    by (simp add: updateVisibleAreaWithRect_def Let_def split_beta)
  moreover have "updateVisibleAreaWithRect G M plat rect self =
      (self\<lparr>ready := True, visibleArea := CGRectZero, displaySize := rect_size CGRectZero\<rparr>, [])"
    if "cg_intersection G (canvasArea self) rect = CGRectNull"
    using that empty cg_is_null_iff[OF assms]
    by (simp add: updateVisibleAreaWithRect_def Let_def split_beta rebuildCanvasTexture_def rebuildDisplayVertices_def)
  ultimately show ?thesis by (simp add: display_texture_def split: option.split)
qed

definition sample_metal :: metal where
  "sample_metal = \<lparr>newTexture = (\<lambda>f w h. Some \<lparr>tex_ref = 2, tex_format = f, tex_width = w, tex_height = h, tex_surface = None\<rparr>),
     newSurfaceTexture = (\<lambda>s f w h. Some \<lparr>tex_ref = 3, tex_format = f, tex_width = w, tex_height = h, tex_surface = Some s\<rparr>),
     newBuffer = (\<lambda>a n. Some 4), newVertices = (\<lambda>v. Some 5), surfaceFourCC = (\<lambda>s. 0), pageSize = 4096\<rparr>"

theorem visible_area_ready_witness:
  "ready (fst (updateVisibleAreaWithRect model_cg sample_metal TARGET_OS_IPHONE (CGRectMake 9 9 1 1) sample_canvas))"
  using visible_area_ready[OF model_cg_documented] by blast

section \<open>When the primary surface goes away\<close>

lemma run_completion_not_visible:
  "\<not> rs_isVisible s \<Longrightarrow> invalidateRenderSource s (Some c) w = w\<lparr>ran := ran w @ [c]\<rparr>"
  by (cases s) (auto simp: invalidateRenderSource_def run_completion_def split: option.splits)

text \<open>
  \<open>cs_primary_destroy\<close> does not wait for a draw in progress: it clears \<open>ready\<close> before it asks the
  renderers to report back, and a renderer reports at once, whatever it has in flight, for a
  source that is not visible.
\<close>

theorem primary_destroy_does_not_wait:
  shows "invalidateRenderSource (display_source cursor (fst (cs_primary_destroy self))) (Some c) w =
      w\<lparr>ran := ran w @ [c]\<rparr> \<and>
    canvasData (fst (cs_primary_destroy self)) = 0 \<and> canvasBuffer (fst (cs_primary_destroy self)) = None"
proof -
  have "\<not> rs_isVisible (display_source cursor (fst (cs_primary_destroy self)))"
    by (simp add: display_source_def display_isVisible_def cs_primary_destroy_def)
  then show ?thesis using run_completion_not_visible by (simp add: cs_primary_destroy_def)
qed

lemma rebuildCanvasTexture_draws:
  assumes "\<not> cg_is_empty G (visibleArea self)" and "device self \<noteq> None" and "canvasData self \<noteq> 0"
    and "trunc_page (pageSize M) (canvasData self) \<noteq> 0" and "canvas_bytes self \<noteq> 0"
    and "\<And>a n. newBuffer M a n \<noteq> None"
  shows "\<exists>d. rebuildCanvasTexture G M plat self = drawRegion plat (visibleArea self) d \<and>
    canvas_ready d \<and> canvasDirtyRect d = canvasDirtyRect self"
proof -
  obtain b1 b2 where "newBuffer M (canvasData self) (canvas_bytes self) = Some b1"
    "newBuffer M (trunc_page (pageSize M) (canvasData self))
      (round_page (pageSize M) (canvas_bytes self + (canvasData self - trunc_page (pageSize M) (canvasData self)))) = Some b2"
    using assms(6) by blast
  then show ?thesis using assms(1-5)
    by (cases plat) (auto simp: rebuildCanvasTexture_def Let_def canvas_ready_def intro!: exI)
qed

text \<open>
  A change of the monitor's area while a draw is in progress starts a second one; the first to
  complete clears the busy flag, so a destroy that follows does not even ask for a report although
  a draw of the destroyed canvas is outstanding.
\<close>

theorem busy_flag_forgets_a_draw:
  assumes "\<not> isGLEnabled self" and "canvasIsBusy self" and "monitorID self = 0" and "cg_documented G"
    and "canvasDirtyRect self = CGRectZero" and "device self \<noteq> None" and "canvasData self \<noteq> 0"
    and "\<not> cg_is_empty G (cg_intersection G (canvasArea self) (CGRectMake 0 0 (of_int mw) (of_int mh)))"
    and "\<not> cg_is_null G (cg_intersection G (canvasArea self) (CGRectMake 0 0 (of_int mw) (of_int mh)))"
    and "trunc_page (pageSize M) (canvasData self) \<noteq> 0" and "canvas_bytes self \<noteq> 0"
    and "\<And>a n. newBuffer M a n \<noteq> None"
    and "cs_update_monitor_area G M plat
      [\<lparr>surface_id = 0, mon_x = 0, mon_y = 0, mon_width = mw, mon_height = mh\<rparr>] capable self = Done (self', effects)"
  shows "draws_sent effects = 1 \<and> canvasIsBusy self' \<and>
    \<not> canvasIsBusy (fst (draw_done G plat self')) \<and>
    snd (cs_primary_destroy (fst (draw_done G plat self'))) = [Renderers_disable]"
proof -
  let ?r = "cg_intersection G (canvasArea self) (CGRectMake 0 0 (of_int mw) (of_int mh))"
  let ?s = "self\<lparr>visibleArea := ?r, displaySize := rect_size ?r\<rparr>"
  have "canvas_bytes ?s = canvas_bytes self" by (simp add: canvas_bytes_def)
  then obtain d where rebuild: "rebuildCanvasTexture G M plat ?s = drawRegion plat ?r d"
    "canvas_ready d" "canvasDirtyRect d = CGRectZero"
    using rebuildCanvasTexture_draws[of G ?s M plat] assms(5-12) by auto
  have draw: "fst (drawRegion plat ?r d) = d\<lparr>canvasIsBusy := True\<rparr>" "draws_sent (snd (drawRegion plat ?r d)) = 1"
    using rebuild(2) by (simp_all add: draws_sent_drawRegion)
  have "Done (self', effects) = Done (updateVisibleAreaWithRect G M plat (CGRectMake 0 0 (of_int mw) (of_int mh)) self)"
    unfolding assms(13)[symmetric] cs_update_monitor_area_def using assms(1,3) by (simp add: Let_def)
  then have eff: "effects = snd (drawRegion plat ?r d)"
    and self': "self' = (rebuildDisplayVertices G M (d\<lparr>canvasIsBusy := True\<rparr>))\<lparr>ready := True\<rparr>"
    using assms(1,9) rebuild(1) draw(1) by (simp_all add: updateVisibleAreaWithRect_def Let_def split_beta)
  have "canvasIsBusy self'" "canvasDirtyRect self' = CGRectZero"
    using rebuild(3) by (simp_all add: self' rebuildDisplayVertices_def Let_def)
  moreover have "cg_is_empty G CGRectZero" using cg_laws(6)[OF assms(4), of CGRectZero] by simp
  ultimately show ?thesis using draw(2) by (simp add: eff draw_done_def cs_primary_destroy_def)
qed

theorem busy_flag_forgets_a_draw_witness:
  "\<exists>self' effects. cs_update_monitor_area model_cg sample_metal TARGET_OS_OSX
      [\<lparr>surface_id = 0, mon_x = 0, mon_y = 0, mon_width = 4, mon_height = 3\<rparr>] True
      (sample_canvas\<lparr>canvasIsBusy := True, device := Some 9\<rparr>) = Done (self', effects) \<and>
    draws_sent effects = 1 \<and> \<not> canvasIsBusy (fst (draw_done model_cg TARGET_OS_OSX self'))"
proof -
  let ?self = "sample_canvas\<lparr>canvasIsBusy := True, device := Some 9\<rparr>"
  let ?ev = "cs_update_monitor_area model_cg sample_metal TARGET_OS_OSX
      [\<lparr>surface_id = 0, mon_x = 0, mon_y = 0, mon_width = 4, mon_height = 3\<rparr>] True ?self"
  obtain self' effects where ev: "?ev = Done (self', effects)"
    unfolding cs_update_monitor_area_def Let_def by (simp) (metis surj_pair)
  have "canvas_bytes ?self = 48" by (simp add: canvas_bytes_def nat_of_def c_trunc_def)
  then have "draws_sent effects = 1 \<and> canvasIsBusy self' \<and>
    \<not> canvasIsBusy (fst (draw_done model_cg TARGET_OS_OSX self')) \<and>
    snd (cs_primary_destroy (fst (draw_done model_cg TARGET_OS_OSX self'))) = [Renderers_disable]"
    by (intro busy_flag_forgets_a_draw[OF _ _ _ model_cg_documented _ _ _ _ _ _ _ _ ev])
      (simp_all add: model_cg_def model_intersection_def model_is_empty_def sample_metal_def trunc_page_def)
  with ev show ?thesis by blast
qed

end
