(* ===== verification/Display_Scanout.thy ===== *)
theory Display_Scanout
  imports Display
begin

text \<open>
  Properties of the GL side of \<^verbatim>\<open>CSDisplay.m\<close>: every draw of the server is acknowledged exactly
  once, only the current private copy is ever published, when that copy equals the scanout and
  when it does not, and the references on IOSurfaces.
\<close>

section \<open>Acknowledgements\<close>

text \<open>
  The display with what is under way: draws received, acknowledgements given, copies on the GPU,
  invalidations the renderers will report, and posted blocks.
\<close>

record gl_sys =
  gdisp :: cs_display
  received_draws :: nat
  acknowledged :: nat
  copies :: "texture list"
  waiting :: nat
  gblocks :: "display_block list"

definition acks :: "display_effect list \<Rightarrow> nat" where
  "acks es = length (filter (\<lambda>e. e = Gl_draw_done) es)"

definition owes_ack :: "display_block \<Rightarrow> bool" where
  "owes_ack b = (case b of Copy_done_block s t \<Rightarrow> True | Ack_block \<Rightarrow> True | _ \<Rightarrow> False)"

definition committed :: "display_effect list \<Rightarrow> texture list" where
  "committed es = concat (map (\<lambda>e. case e of Commit_copy s d r \<Rightarrow> [d] | _ \<Rightarrow> []) es)"

definition ack_requests :: "display_effect list \<Rightarrow> nat" where
  "ack_requests es = length (filter (\<lambda>e. e = Renderers_invalidate_ack) es)"

definition gl_after :: "cs_display \<times> display_effect list \<Rightarrow> gl_sys \<Rightarrow> gl_sys" where
  "gl_after out w = w\<lparr>gdisp := fst out, acknowledged := acknowledged w + acks (snd out),
     copies := copies w @ committed (snd out), waiting := waiting w + ack_requests (snd out)\<rparr>"

inductive gl_reach :: "cg_functions \<Rightarrow> metal \<Rightarrow> target_os \<Rightarrow> gl_sys \<Rightarrow> bool" for G M plat where
  start: "initWithChannel G M plat mons capable ch primary = Done out \<Longrightarrow>
    gl_reach G M plat \<lparr>gdisp = fst out, received_draws = 0, acknowledged = 0, copies = [], waiting = 0, gblocks = []\<rparr>"
| gl_draw: "gl_reach G M plat w \<Longrightarrow> cs_gl_draw G encodes x y dw dh (gdisp w) = Done out \<Longrightarrow>
    gl_reach G M plat (gl_after out (w\<lparr>received_draws := received_draws w + 1\<rparr>))"
| scanout: "gl_reach G M plat w \<Longrightarrow> cs_gl_scanout G M scan (gdisp w) = Done self \<Longrightarrow>
    gl_reach G M plat (w\<lparr>gdisp := self\<rparr>)"
| create: "gl_reach G M plat w \<Longrightarrow>
    cs_primary_create G M plat mons capable fmt pw ph stride data (gdisp w) = Done out \<Longrightarrow>
    gl_reach G M plat (gl_after out w)"
| destroy: "gl_reach G M plat w \<Longrightarrow> gl_reach G M plat (gl_after (cs_primary_destroy (gdisp w)) w)"
| monitors: "gl_reach G M plat w \<Longrightarrow> cs_update_monitor_area G M plat mons capable (gdisp w) = Done out \<Longrightarrow>
    gl_reach G M plat (gl_after out w)"
| renderers: "gl_reach G M plat w \<Longrightarrow> gl_reach G M plat (w\<lparr>gdisp := (gdisp w)\<lparr>renderers := rs\<rparr>\<rparr>)"
| post_device: "gl_reach G M plat w \<Longrightarrow>
    gl_reach G M plat (w\<lparr>gblocks := gblocks w @ fst (setDevice dev (gdisp w))\<rparr>)"
| copied: "gl_reach G M plat w \<Longrightarrow> copies w = cs1 @ t # cs2 \<Longrightarrow>
    gl_reach G M plat (w\<lparr>copies := cs1 @ cs2, gblocks := gblocks w @ [Copy_done_block succeeded t]\<rparr>)"
| reported: "gl_reach G M plat w \<Longrightarrow> waiting w = Suc n \<Longrightarrow>
    gl_reach G M plat (w\<lparr>waiting := n, gblocks := gblocks w @ [Ack_block]\<rparr>)"
| run: "gl_reach G M plat w \<Longrightarrow> gblocks w = b # bs \<Longrightarrow>
    gl_reach G M plat (gl_after (run_display G M plat b (gdisp w)) (w\<lparr>gblocks := bs\<rparr>))"

text \<open>Effects that have nothing to do with the handshake.\<close>

definition quiet :: "display_effect list \<Rightarrow> bool" where
  "quiet es \<longleftrightarrow> acks es = 0 \<and> committed es = [] \<and> ack_requests es = 0"

lemma quiet_Nil [simp]: "quiet []"
  by (simp add: quiet_def acks_def committed_def ack_requests_def)

lemma quiet_drawRegion [simp]: "quiet (snd (drawRegion plat r self))"
  by (cases plat) (auto simp: quiet_def acks_def committed_def ack_requests_def drawRegion_def split: option.split)

lemma quiet_rebuildCanvas [simp]: "quiet (snd (rebuildCanvasTexture G M plat self))"
  by (simp add: rebuildCanvasTexture_def Let_def)

lemma quiet_visible [simp]: "quiet (snd (updateVisibleAreaWithRect G M plat r self))"
  by (simp add: updateVisibleAreaWithRect_def Let_def split_beta)

lemma quiet_monitors: "cs_update_monitor_area G M plat mons capable self = Done out \<Longrightarrow> quiet (snd out)"
  by (auto simp: cs_update_monitor_area_def Let_def split: if_splits list.splits)

lemma quiet_create: "cs_primary_create G M plat mons capable f pw ph st d self = Done out \<Longrightarrow> quiet (snd out)"
  by (auto simp: cs_primary_create_def quiet_monitors split: if_splits)

lemma quiet_destroy [simp]: "quiet (snd (cs_primary_destroy self))"
  by (simp add: cs_primary_destroy_def quiet_def acks_def committed_def ack_requests_def)

lemma quiet_set_device [simp]: "quiet (snd (set_device G M plat dev self))"
  by (simp add: set_device_def Let_def split_beta split: option.split)

lemma quiet_draw_done [simp]: "quiet (snd (draw_done G plat self))"
  by (simp add: draw_done_def Let_def)

lemma run_display_acks:
  "acks (snd (run_display G M plat b self)) = (if owes_ack b then 1 else 0) \<and>
   committed (snd (run_display G M plat b self)) = [] \<and> ack_requests (snd (run_display G M plat b self)) = 0"
  using quiet_set_device[of G M plat _ self] quiet_draw_done[of G plat self]
  by (cases b) (simp_all add: owes_ack_def quiet_def copy_done_def gl_ack_def acks_def committed_def ack_requests_def)

lemma gl_draw_effects:
  "cs_gl_draw G encodes x y dw dh self = Done out \<Longrightarrow>
     acks (snd out) = 0 \<and> length (committed (snd out)) + ack_requests (snd out) = 1"
  by (auto simp: cs_gl_draw_def copyScanoutRect_def acks_def committed_def ack_requests_def Let_def
      split: if_splits option.splits)

definition ack_balance :: "gl_sys \<Rightarrow> bool" where
  "ack_balance w \<longleftrightarrow>
     received_draws w = acknowledged w + length (copies w) + waiting w + length (filter owes_ack (gblocks w))"

lemma ack_balance_quiet: "quiet (snd out) \<Longrightarrow> ack_balance w \<Longrightarrow> ack_balance (gl_after out w)"
  by (simp add: ack_balance_def gl_after_def quiet_def)

lemma setDevice_no_ack: "filter owes_ack (fst (setDevice dev self)) = []"
  by (simp add: setDevice_def owes_ack_def)

text \<open>
  C10. Every \<open>gl_draw\<close> of the server is acknowledged exactly once: at any time the draws received
  are those acknowledged and those whose copy, report of the renderers or posted block is still
  under way.
\<close>

theorem draws_acknowledged:
  assumes "gl_reach G M plat w"
  shows "received_draws w = acknowledged w + length (copies w) + waiting w +
    length (filter owes_ack (gblocks w))"
proof -
  have "ack_balance w" using assms
  proof (induction rule: gl_reach.induct)
    case (gl_draw w encodes x y dw dh out)
    then show ?case using gl_draw_effects[OF gl_draw(2)] by (auto simp: ack_balance_def gl_after_def)
  next
    case (create w mons capable fmt pw ph stride data out)
    then show ?case by (intro ack_balance_quiet) (rule quiet_create)
  next
    case (monitors w mons capable out)
    then show ?case by (intro ack_balance_quiet) (rule quiet_monitors)
  next
    case (run w b bs)
    then show ?case using run_display_acks[of G M plat b "gdisp w"]
      by (auto simp: ack_balance_def gl_after_def)
  qed (auto intro: ack_balance_quiet, auto simp: ack_balance_def setDevice_no_ack owes_ack_def)
  then show ?thesis by (simp add: ack_balance_def)
qed

theorem draws_acknowledged_witness:
  "\<exists>w :: gl_sys. received_draws w = 1 \<and> acknowledged w = 1 \<and> received_draws w = acknowledged w + length (copies w) + waiting w +
    length (filter owes_ack (gblocks w))"
proof -
  let ?G = "model_cg" and ?P = "TARGET_OS_OSX"
  let ?w0 = "\<lparr>gdisp = blank_display, received_draws = 0, acknowledged = 0, copies = [], waiting = 0, gblocks = []\<rparr>"
  let ?scan = "\<lparr>poll_fails = True, poll_in = False, poll_hup = False, read_whole = False, looked_up = None,
    so_width = 4, so_height = 3\<rparr>"
  let ?d1 = "blank_display\<lparr>isGLEnabled := True\<rparr>"
  let ?w1 = "?w0\<lparr>gdisp := ?d1\<rparr>"
  fix M
  have "blank_display\<lparr>monitorID := 0\<rparr> = blank_display" by (simp add: blank_display_def)
  then have "gl_reach ?G M ?P ?w0"
    using gl_reach.start[of ?G M ?P "[]" True 0 None "(blank_display, [])"] by (simp add: initWithChannel_def Let_def)
  then have r1: "gl_reach ?G M ?P ?w1"
    using gl_reach.scanout[of ?G M ?P ?w0 "Some ?scan" ?d1]
    by (simp add: cs_gl_scanout_def rebuildScanoutTextureWithScanout_def)
  let ?w2 = "?w1\<lparr>received_draws := 1, waiting := 1\<rparr>"
  have "cs_gl_draw ?G True 0 0 2 2 ?d1 = Done (?d1, [Renderers_invalidate_ack])"
    by (simp add: cs_gl_draw_def copyScanoutRect_def blank_display_def)
  then have r2: "gl_reach ?G M ?P ?w2"
    using gl_reach.gl_draw[OF r1, of True 0 0 2 2 "(?d1, [Renderers_invalidate_ack])"]
    by (simp add: gl_after_def acks_def committed_def ack_requests_def)
  let ?w3 = "?w2\<lparr>waiting := 0, gblocks := [Ack_block]\<rparr>"
  have r3: "gl_reach ?G M ?P ?w3" using gl_reach.reported[OF r2, of 0] by simp
  let ?w4 = "?w3\<lparr>gblocks := [], acknowledged := 1\<rparr>"
  have "gl_reach ?G M ?P ?w4" using gl_reach.run[OF r3, of Ack_block "[]"]
    by (simp add: gl_after_def acks_def committed_def ack_requests_def gl_ack_def)
  from draws_acknowledged[OF this] show ?thesis by (intro exI[of _ ?w4]) simp
qed

section \<open>What is published\<close>

definition pub :: "cs_display \<Rightarrow> texture option \<times> texture option" where
  "pub self = (presentTexture self, shadowTexture self)"

lemma pub_drawRegion [simp]: "pub (fst (drawRegion plat r self)) = pub self"
  by (simp add: drawRegion_def pub_def split: option.split)

lemma pub_rebuildCanvas [simp]: "pub (fst (rebuildCanvasTexture G M plat self)) = pub self"
  by (cases plat) (simp_all add: rebuildCanvasTexture_def Let_def, simp_all add: pub_def)

lemma pub_rebuildVertices [simp]: "pub (rebuildDisplayVertices G M self) = pub self"
  by (simp add: rebuildDisplayVertices_def Let_def pub_def)

lemma pub_ready [simp]: "pub (self\<lparr>ready := b\<rparr>) = pub self"
  by (simp add: pub_def)

lemma pub_visible [simp]: "pub (fst (updateVisibleAreaWithRect G M plat r self)) = pub self"
  by (simp add: updateVisibleAreaWithRect_def Let_def split_beta) (simp add: pub_def)

lemma pub_draw_done [simp]: "pub (fst (draw_done G plat self)) = pub self"
  by (simp add: draw_done_def Let_def) (simp add: pub_def)

lemma pub_monitors: "cs_update_monitor_area G M plat mons capable self = Done out \<Longrightarrow> pub (fst out) = pub self"
  by (auto simp: cs_update_monitor_area_def Let_def split: if_splits list.splits)

lemma pub_create: "cs_primary_create G M plat mons capable f pw ph st d self = Done out \<Longrightarrow> pub (fst out) = pub self"
  by (auto simp: cs_primary_create_def split: if_splits dest!: pub_monitors) (simp_all add: pub_def)

definition published_ok :: "cs_display \<Rightarrow> bool" where
  "published_ok self \<longleftrightarrow> presentTexture self = None \<or> presentTexture self = shadowTexture self"

lemma published_pub: "pub s = pub s' \<Longrightarrow> published_ok s = published_ok s'"
  by (simp add: pub_def published_ok_def)

lemma published_gl_draw: "cs_gl_draw G encodes x y dw dh self = Done out \<Longrightarrow> pub (fst out) = pub self"
  by (auto simp: cs_gl_draw_def copyScanoutRect_def Let_def pub_def split: if_splits option.splits)

lemma published_surface:
  "published_ok self \<Longrightarrow> published_ok (rebuildScanoutTextureWithSurface M surface sw sh self)"
  by (simp add: rebuildScanoutTextureWithSurface_def rebuildShadowTexture_def Let_def published_ok_def)

lemma published_scanout:
  "cs_gl_scanout G M scan self = Done out \<Longrightarrow> published_ok self \<Longrightarrow> published_ok out"
proof -
  assume out: "cs_gl_scanout G M scan self = Done out" and ok: "published_ok self"
  then obtain s where "out = rebuildScanoutTextureWithScanout G M s (self\<lparr>isGLEnabled := True\<rparr>)"
    by (auto simp: cs_gl_scanout_def split: option.splits)
  moreover have "published_ok (self\<lparr>isGLEnabled := True, surface_refs := r, delayedScanoutSurface := dl,
      delayedScanoutInfo := i\<rparr>)" for r dl i
    using ok by (simp add: published_ok_def)
  ultimately show ?thesis
    using ok published_pub[OF pub_rebuildVertices] published_surface
    by (auto simp: rebuildScanoutTextureWithScanout_def Let_def split: option.split)
      (simp_all add: published_ok_def)
qed

lemma published_set_device: "published_ok (fst (set_device G M plat dev self))"
proof -
  let ?s = "self\<lparr>device := dev, shadowTexture := None, presentTexture := None\<rparr>"
  have s: "published_ok ?s" "published_ok (?s\<lparr>surface_refs := r\<rparr>)" for r by (simp_all add: published_ok_def)
  have "published_ok (fst (rebuildCanvasTexture G M plat ?s))"
    using s(1) published_pub[OF pub_rebuildCanvas] by blast
  moreover have "published_ok (t\<lparr>delayedScanoutSurface := None\<rparr>)" if "published_ok t" for t
    using that by (simp add: published_ok_def)
  ultimately show ?thesis
    using published_pub[OF pub_rebuildVertices] published_surface s
    by (simp add: set_device_def Let_def split_beta split: option.split)
qed

lemma published_run: "published_ok self \<Longrightarrow> published_ok (fst (run_display G M plat b self))"
proof (cases b)
  case Draw_done_block
  assume "published_ok self"
  then show ?thesis using Draw_done_block published_pub[OF pub_draw_done] by simp
qed (simp_all add: published_set_device copy_done_def gl_ack_def, simp_all add: published_ok_def)

lemma published_reach: "gl_reach G M plat w \<Longrightarrow> published_ok (gdisp w)"
proof (induction rule: gl_reach.induct)
  case (start mons capable ch primary out)
  then have "pub (fst out) = pub (blank_display\<lparr>monitorID := ch\<rparr>)"
    by (auto simp: initWithChannel_def Let_def split: option.splits dest: pub_create)
  then show ?case by (simp add: published_ok_def pub_def blank_display_def)
next
  case (gl_draw w encodes x y dw dh out)
  from published_pub[OF published_gl_draw[OF gl_draw(2)]] gl_draw(3) show ?case by (simp add: gl_after_def)
next
  case (create w mons capable fmt pw ph stride data out)
  from published_pub[OF pub_create[OF create(2)]] create(3) show ?case by (simp add: gl_after_def)
next
  case (monitors w mons capable out)
  from published_pub[OF pub_monitors[OF monitors(2)]] monitors(3) show ?case by (simp add: gl_after_def)
qed (simp_all add: gl_after_def published_scanout published_run, simp_all add: published_ok_def cs_primary_destroy_def)

text \<open>
  Only the current private copy is ever published: whatever the order of scanouts, copies,
  device changes and destroyed surfaces, the texture shown in GL mode is the present shadow
  texture, or the scanout itself when nothing has been published; a copy that finishes after
  its target was replaced, or fails, publishes nothing.
\<close>

theorem only_current_copy_published:
  assumes "gl_reach G M plat w" and "isGLEnabled (gdisp w)"
  shows "(presentTexture (gdisp w) = None \<longrightarrow> display_texture (gdisp w) = glTexture (gdisp w)) \<and>
    (presentTexture (gdisp w) \<noteq> None \<longrightarrow> display_texture (gdisp w) = shadowTexture (gdisp w)) \<and>
    (\<not> (succeeded \<and> shadowTexture (gdisp w) = Some t) \<longrightarrow>
      presentTexture (fst (copy_done succeeded t (gdisp w))) = presentTexture (gdisp w))"
  using published_reach[OF assms(1)] assms(2)
  by (auto simp: published_ok_def display_texture_def copy_done_def gl_ack_def split: option.split)

theorem only_current_copy_published_witness:
  "presentTexture (fst (copy_done False \<lparr>tex_ref = 1, tex_format = BGRA8Unorm, tex_width = 4, tex_height = 3,
     tex_surface = None\<rparr> (blank_display\<lparr>isGLEnabled := True\<rparr>))) = None"
proof -
  let ?w0 = "\<lparr>gdisp = blank_display, received_draws = 0, acknowledged = 0, copies = [], waiting = 0, gblocks = []\<rparr>"
  let ?scan = "\<lparr>poll_fails = True, poll_in = False, poll_hup = False, read_whole = False, looked_up = None,
    so_width = 4, so_height = 3\<rparr>"
  let ?d1 = "blank_display\<lparr>isGLEnabled := True\<rparr>"
  fix M
  have "blank_display\<lparr>monitorID := 0\<rparr> = blank_display" by (simp add: blank_display_def)
  then have "gl_reach model_cg M TARGET_OS_OSX ?w0"
    using gl_reach.start[of model_cg M TARGET_OS_OSX "[]" True 0 None "(blank_display, [])"]
    by (simp add: initWithChannel_def Let_def)
  then have "gl_reach model_cg M TARGET_OS_OSX (?w0\<lparr>gdisp := ?d1\<rparr>)"
    using gl_reach.scanout[of model_cg M TARGET_OS_OSX ?w0 "Some ?scan" ?d1]
    by (simp add: cs_gl_scanout_def rebuildScanoutTextureWithScanout_def)
  from only_current_copy_published[OF this, of False] show ?thesis by (simp add: blank_display_def)
qed

section \<open>The private copy and the scanout\<close>

text \<open>
  Which pixels of the private copy are not those of the scanout: a draw of the server changes the
  pixels of its rectangle, a committed copy brings the copied ones up to date.
\<close>

definition scan_bounds :: "cs_display \<Rightarrow> (int \<times> int) set" where
  "scan_bounds self =
     (case (glTexture self, shadowTexture self) of
        (Some s, Some d) \<Rightarrow> {0..<int (min (tex_width s) (tex_width d))} \<times> {0..<int (min (tex_height s) (tex_height d))}
      | _ \<Rightarrow> {})"

definition nat_rect :: "nat \<times> nat \<times> nat \<times> nat \<Rightarrow> cgrect" where
  "nat_rect r = (case r of (x, y, w, h) \<Rightarrow> CGRectMake (of_nat x) (of_nat y) (of_nat w) (of_nat h))"

definition copied_pixels :: "display_effect list \<Rightarrow> (int \<times> int) set" where
  "copied_pixels es = \<Union> (set (map (\<lambda>e. case e of Commit_copy s d (Some r) \<Rightarrow> pixels r | _ \<Rightarrow> {}) es))"

definition shadow_step :: "cg_functions \<Rightarrow> bool \<times> nat \<times> nat \<times> nat \<times> nat \<Rightarrow>
    cs_display \<times> (int \<times> int) set \<Rightarrow> cs_display \<times> (int \<times> int) set" where
  "shadow_step G d ss =
     (let out = copyScanoutRect G (fst d) (nat_rect (snd d)) (fst ss)
      in (fst out, (snd ss \<union> (pixels (nat_rect (snd d)) \<inter> scan_bounds (fst ss))) - copied_pixels (snd out)))"

definition can_copy :: "cs_display \<Rightarrow> bool" where
  "can_copy self \<longleftrightarrow> ready self \<and> renderers self \<noteq> [] \<and> glTexture self \<noteq> None \<and> shadowTexture self \<noteq> None"

lemma pixels_of_nat:
  "pixels (CGRectMake 0 0 (of_nat a) (of_nat b)) = {0..<int a} \<times> {0..<int b}"
proof -
  have "(of_int i :: rat) < of_nat a \<longleftrightarrow> i < int a" for i a by (metis of_int_less_iff of_int_of_nat_eq)
  then show ?thesis by auto
qed

lemma integral_nat_rect [simp]: "integral (nat_rect r)"
  by (cases r) (simp add: nat_rect_def)

lemma copy_step:
  assumes "cg_documented G" and "can_copy self"
  shows "\<exists>es. copyScanoutRect G True (nat_rect r) self = (self\<lparr>shadowNeedsFullCopy := False\<rparr>, es) \<and>
    copied_pixels es = (if shadowNeedsFullCopy self then scan_bounds self
                        else pixels (nat_rect r) \<inter> scan_bounds self)"
proof -
  obtain s d where sd: "glTexture self = Some s" "shadowTexture self = Some d"
    using assms(2) by (auto simp: can_copy_def)
  let ?b = "CGRectMake 0 0 (of_nat (min (tex_width s) (tex_width d))) (of_nat (min (tex_height s) (tex_height d)))"
  define dmg where "dmg = (if shadowNeedsFullCopy self then ?b else cg_intersection G (nat_rect r) ?b)"
  have b: "integral ?b" "pixels ?b = scan_bounds self"
    by (simp, simp only: pixels_of_nat scan_bounds_def sd prod.case option.case)
  note i = cg_laws(1,2)[OF assms(1) integral_nat_rect b(1)]
  have dmg_pixels: "pixels dmg = (if shadowNeedsFullCopy self then scan_bounds self else pixels (nat_rect r) \<inter> scan_bounds self)"
    unfolding dmg_def using i(2) b(2) by (cases "shadowNeedsFullCopy self") (simp_all only: if_True if_False)
  have "integral dmg" unfolding dmg_def using i(1) b(1)
    by (cases "shadowNeedsFullCopy self") (simp_all only: if_True if_False)
  then have empty: "cg_is_empty G dmg \<longleftrightarrow> pixels dmg = {}" by (rule cg_laws(6)[OF assms(1)])
  have copy: "copyScanoutRect G True (nat_rect r) self = (self\<lparr>shadowNeedsFullCopy := False\<rparr>,
      [Commit_copy s d (if cg_is_empty G dmg then None else Some dmg)])"
    unfolding dmg_def using assms(2) by (simp add: copyScanoutRect_def sd can_copy_def Let_def)
  have "copied_pixels [Commit_copy s d (if cg_is_empty G dmg then None else Some dmg)] = pixels dmg"
    using empty by (simp add: copied_pixels_def)
  with copy dmg_pixels show ?thesis by blast
qed

lemma shadow_step_encoded:
  assumes "cg_documented G" and "can_copy self" and "stale \<subseteq> scan_bounds self"
    and "shadowNeedsFullCopy self \<or> stale = {}"
  shows "shadow_step G (True, r) (self, stale) = (self\<lparr>shadowNeedsFullCopy := False\<rparr>, {})"
proof -
  obtain es where "copyScanoutRect G True (nat_rect r) self = (self\<lparr>shadowNeedsFullCopy := False\<rparr>, es)"
    "copied_pixels es = (if shadowNeedsFullCopy self then scan_bounds self else pixels (nat_rect r) \<inter> scan_bounds self)"
    using copy_step[OF assms(1,2)] by blast
  then show ?thesis using assms(3,4) by (auto simp: shadow_step_def)
qed


lemma sample_gl:
  "can_copy (blank_display\<lparr>ready := True, renderers := [1], shadowNeedsFullCopy := False,
     glTexture := Some \<lparr>tex_ref = 1, tex_format = BGRA8Unorm, tex_width = 4, tex_height = 3, tex_surface = None\<rparr>,
     shadowTexture := Some \<lparr>tex_ref = 2, tex_format = BGRA8Unorm, tex_width = 4, tex_height = 3, tex_surface = None\<rparr>\<rparr>)"
  by (simp add: can_copy_def)

definition gl_metal :: metal where
  "gl_metal = \<lparr>newTexture = (\<lambda>f w h. Some \<lparr>tex_ref = 2, tex_format = f, tex_width = w, tex_height = h, tex_surface = None\<rparr>),
     newSurfaceTexture = (\<lambda>s f w h. Some \<lparr>tex_ref = 3, tex_format = f, tex_width = w, tex_height = h, tex_surface = Some s\<rparr>),
     newBuffer = (\<lambda>a n. Some 4), newVertices = (\<lambda>v. Some 5), surfaceFourCC = (\<lambda>s. 0), pageSize = 4096\<rparr>"


text \<open>
  A draw that is not copied, because the display was not ready or the queue gave no encoder,
  does not ask for a full copy later: after the next draw that is copied the private copy still
  lacks the part of the first rectangle outside the second, and nothing will bring it up to date.
\<close>

theorem skipped_copy_stays_stale:
  assumes "cg_documented G" and "can_copy self" and "\<not> shadowNeedsFullCopy self"
  shows "fold (shadow_step G) [(False, r1), (True, r2)] (self, {}) =
    (self\<lparr>shadowNeedsFullCopy := False\<rparr>, pixels (nat_rect r1) \<inter> scan_bounds self - pixels (nat_rect r2))"
proof -
  have "copyScanoutRect G False (nat_rect r1) self = (self, [Renderers_invalidate_ack])"
    by (auto simp: copyScanoutRect_def split: option.split)
  then have "shadow_step G (False, r1) (self, {}) = (self, pixels (nat_rect r1) \<inter> scan_bounds self)"
    by (simp add: shadow_step_def copied_pixels_def)
  moreover obtain es where "copyScanoutRect G True (nat_rect r2) self = (self\<lparr>shadowNeedsFullCopy := False\<rparr>, es)"
    "copied_pixels es = pixels (nat_rect r2) \<inter> scan_bounds self"
    using copy_step[OF assms(1,2)] assms(3) by fastforce
  ultimately show ?thesis by (auto simp: shadow_step_def)
qed

theorem skipped_copy_stays_stale_witness:
  "\<exists>self. snd (fold (shadow_step model_cg) [(False, 0, 0, 1, 1), (True, 2, 2, 1, 1)] (self, {})) =
     pixels (nat_rect (0, 0, 1, 1)) \<inter> scan_bounds self - pixels (nat_rect (2, 2, 1, 1))"
proof -
  let ?s = "blank_display\<lparr>ready := True, renderers := [1], shadowNeedsFullCopy := False,
     glTexture := Some \<lparr>tex_ref = 1, tex_format = BGRA8Unorm, tex_width = 4, tex_height = 3, tex_surface = None\<rparr>,
     shadowTexture := Some \<lparr>tex_ref = 2, tex_format = BGRA8Unorm, tex_width = 4, tex_height = 3, tex_surface = None\<rparr>\<rparr>"
  have "\<not> shadowNeedsFullCopy ?s" by simp
  from skipped_copy_stays_stale[OF model_cg_documented sample_gl this, of "(0, 0, 1, 1)" "(2, 2, 1, 1)"]
  show ?thesis by (intro exI[of _ ?s]) (simp only: snd_conv)
qed

text \<open>
  When a draw cannot be copied, or its copy fails, the server is released and the renderers are
  invalidated right after; if nothing has been published yet, what they then show is the scanout
  surface the server may be overwriting.
\<close>

theorem released_scanout_shown:
  assumes "isGLEnabled self" and "presentTexture self = None" and "\<not> ready self \<or> \<not> encodes"
  shows "cs_gl_draw G encodes x y w h self = Done (self, [Renderers_invalidate_ack]) \<and>
    run_display G M plat Ack_block self = (self, [Gl_draw_done, Renderers_invalidate]) \<and>
    run_display G M plat (Copy_done_block False t) self = (self, [Gl_draw_done, Renderers_invalidate]) \<and>
    display_texture self = glTexture self"
  using assms by (auto simp: cs_gl_draw_def copyScanoutRect_def gl_ack_def copy_done_def display_texture_def
      split: option.split)

theorem released_scanout_shown_witness:
  "display_texture (blank_display\<lparr>isGLEnabled := True\<rparr>) = glTexture (blank_display\<lparr>isGLEnabled := True\<rparr>)"
  using released_scanout_shown[of "blank_display\<lparr>isGLEnabled := True\<rparr>" False] by (simp add: blank_display_def)

section \<open>References on surfaces\<close>

definition surface_ok :: "cs_display \<Rightarrow> bool" where
  "surface_ok self \<longleftrightarrow> surface_refs self = (case delayedScanoutSurface self of None \<Rightarrow> [] | Some s \<Rightarrow> [s])"

lemma surf_rebuildCanvas [simp]:
  "surface_refs (fst (rebuildCanvasTexture G M plat self)) = surface_refs self"
  "delayedScanoutSurface (fst (rebuildCanvasTexture G M plat self)) = delayedScanoutSurface self"
  by (cases plat; simp add: rebuildCanvasTexture_def drawRegion_def Let_def split: option.split)+

lemma surf_rebuildVertices [simp]:
  "surface_refs (rebuildDisplayVertices G M self) = surface_refs self"
  "delayedScanoutSurface (rebuildDisplayVertices G M self) = delayedScanoutSurface self"
  by (simp_all add: rebuildDisplayVertices_def Let_def)

lemma surf_rebuildSurface [simp]:
  "surface_refs (rebuildScanoutTextureWithSurface M s sw sh self) = remove1 s (surface_refs self)"
  "delayedScanoutSurface (rebuildScanoutTextureWithSurface M s sw sh self) = delayedScanoutSurface self"
  by (simp_all add: rebuildScanoutTextureWithSurface_def rebuildShadowTexture_def Let_def)

lemma surface_after_scanout:
  assumes "surface_ok self" and "device self \<noteq> None \<or> delayedScanoutSurface self = None"
  shows "surface_ok (rebuildScanoutTextureWithScanout G M scan self)"
  using assms by (auto simp: surface_ok_def rebuildScanoutTextureWithScanout_def Let_def split: option.split)

lemma surface_after_device:
  assumes "surface_ok self" shows "surface_ok (fst (set_device G M plat dev self))"
  using assms by (auto simp: surface_ok_def set_device_def Let_def split_beta split: option.split)

text \<open>
  References on IOSurfaces balance: the display owns one on the delayed surface and no other,
  across scanouts and device changes, except that a scanout arriving while another one is still
  delayed replaces it without giving its reference back.
\<close>

theorem surface_references:
  assumes "surface_ok self" and "device other = None" and "surface_ok other"
    and "delayedScanoutSurface other = Some s1"
    and "\<not> poll_fails scan" and "poll_in scan" and "\<not> poll_hup scan" and "read_whole scan"
    and "looked_up scan = Some s2"
  shows "surface_ok (fst (set_device G M plat dev self)) \<and>
    (device self \<noteq> None \<or> delayedScanoutSurface self = None \<longrightarrow>
      surface_ok (rebuildScanoutTextureWithScanout G M any_scan self)) \<and>
    surface_refs (rebuildScanoutTextureWithScanout G M scan other) = [s2, s1] \<and>
    delayedScanoutSurface (rebuildScanoutTextureWithScanout G M scan other) = Some s2"
  using assms surface_after_device[OF assms(1)] surface_after_scanout[OF assms(1)]
  by (simp add: rebuildScanoutTextureWithScanout_def surface_ok_def)

theorem surface_references_witness:
  "surface_refs (rebuildScanoutTextureWithScanout model_cg gl_metal
     \<lparr>poll_fails = False, poll_in = True, poll_hup = False, read_whole = True, looked_up = Some 8,
      so_width = 4, so_height = 3\<rparr>
     (blank_display\<lparr>delayedScanoutSurface := Some 7, surface_refs := [7]\<rparr>)) = [8, 7]"
proof -
  let ?o = "blank_display\<lparr>delayedScanoutSurface := Some 7, surface_refs := [7]\<rparr>"
  let ?scan = "\<lparr>poll_fails = False, poll_in = True, poll_hup = False, read_whole = True, looked_up = Some 8,
      so_width = 4, so_height = 3\<rparr>"
  have "surface_ok blank_display" "surface_ok ?o" "device ?o = None"
    by (simp_all add: surface_ok_def blank_display_def)
  from surface_references[OF this(1,3,2), of 7 ?scan 8] show ?thesis by simp
qed

end
