(* ===== verification/Cursor.thy ===== *)
theory Cursor
  imports Display_Scanout
begin

text \<open>
  \<^verbatim>\<open>CSCursor.m\<close>: the guest's pointer as a render source of its own, shown over the display it is
  attached to. Shown: where the hotspot lands on the screen, when the cursor is visible, and what
  part of the shape's data an upload reads, with and without a Metal device.
\<close>

section \<open>State\<close>

text \<open>
  The display is a weak reference; \<open>env\<close> below gives the present state of a display that is still
  alive. A shape's data is \<open>NULL\<close> or its bytes.
\<close>

record cs_cursor =
  cur_display :: "objref option"
  cursorSize :: "cgfloat \<times> cgfloat"
  cursorHotspot :: cgpoint
  hasCursor :: bool
  cursorHidden :: bool
  isInhibited :: bool
  mouseGuest :: cgpoint
  cur_texture :: "texture option"
  cur_numVertices :: nat
  cur_vertices :: "objref option"
  cur_vertexData :: "vertex list"

record cursor_shape =
  shape_width :: nat
  shape_height :: nat
  hot_spot_x :: nat
  hot_spot_y :: nat
  shape_data :: "guint8 list option"

datatype cursor_effect =
    Invalidate_display objref
  | Replace_region texture nat nat "guint8 list" nat
  | Free_shape

datatype cursor_block = Move_to cgpoint

type_synonym displays = "objref \<Rightarrow> cs_display option"

definition blank_cursor :: cs_cursor where
  "blank_cursor = \<lparr>cur_display = None, cursorSize = (0, 0), cursorHotspot = (0, 0), hasCursor = False,
     cursorHidden = False, isInhibited = False, mouseGuest = (0, 0), cur_texture = None,
     cur_numVertices = 0, cur_vertices = None, cur_vertexData = []\<rparr>"

definition display_of :: "displays \<Rightarrow> cs_cursor \<Rightarrow> cs_display option" where
  "display_of env self = (case cur_display self of None \<Rightarrow> None | Some r \<Rightarrow> env r)"

definition cursor_device :: "displays \<Rightarrow> cs_cursor \<Rightarrow> objref option" where
  "cursor_device env self = (case display_of env self of None \<Rightarrow> None | Some d \<Rightarrow> device d)"

section \<open>Drawing\<close>

definition cursor_quad :: "cgfloat \<times> cgfloat \<Rightarrow> cgpoint \<Rightarrow> vertex list" where
  "cursor_quad sz hotspot =
     (let (w, h) = sz; (x, y) = hotspot
      in [Vertex (- x + w, y) (1, 0),
          Vertex (- x, y) (0, 0),
          Vertex (- x, y - h) (0, 1),
          Vertex (- x + w, y) (1, 0),
          Vertex (- x, y - h) (0, 1),
          Vertex (- x + w, y - h) (1, 1)])"

definition rebuildCursorWithSize :: "metal \<Rightarrow> displays \<Rightarrow> cgfloat \<times> cgfloat \<Rightarrow> cgpoint \<Rightarrow> cs_cursor \<Rightarrow> cs_cursor" where
  "rebuildCursorWithSize M env sz hotspot self =
     (if cursor_device env self = None then self
      else (let quad = cursor_quad sz hotspot
            in self\<lparr>cur_texture := newTexture M BGRA8Unorm (nat_of (fst sz)) (nat_of (snd sz)),
                    cur_vertices := newVertices M quad, cur_vertexData := quad,
                    cur_numVertices := length quad, cursorSize := sz, cursorHotspot := hotspot,
                    hasCursor := True\<rparr>))"

definition destroyCursor :: "cs_cursor \<Rightarrow> cs_cursor" where
  "destroyCursor self = self\<lparr>cur_numVertices := 0, cur_vertices := None, cur_vertexData := [],
     cur_texture := None, cursorSize := (0, 0), cursorHotspot := (0, 0), hasCursor := False\<rparr>"

text \<open>The upload copies \<open>height\<close> rows of \<open>bytesPerRow\<close> bytes from the buffer; a \<open>nil\<close> texture does nothing.\<close>

definition drawCursor :: "guint8 list \<Rightarrow> cs_cursor \<Rightarrow> cursor_effect list" where
  "drawCursor buffer self =
     (if cursorSize self = (0, 0) then []
      else (case cur_texture self of
              None \<Rightarrow> []
            | Some t \<Rightarrow> [Replace_region t (nat_of (fst (cursorSize self))) (nat_of (snd (cursorSize self)))
                          buffer (nat_of (fst (cursorSize self) * 4))]))"

section \<open>Handlers\<close>

definition cs_cursor_invalidate :: "displays \<Rightarrow> cs_cursor \<Rightarrow> cursor_effect list" where
  "cs_cursor_invalidate env self =
     (case cur_display self of
        None \<Rightarrow> []
      | Some r \<Rightarrow> (case env r of None \<Rightarrow> [] | Some d \<Rightarrow> [Invalidate_display r]))"

definition cs_cursor_set :: "metal \<Rightarrow> displays \<Rightarrow> cursor_shape option \<Rightarrow> cs_cursor \<Rightarrow>
    cs_cursor \<times> cursor_effect list" where
  "cs_cursor_set M env shape self =
     (case shape of
        None \<Rightarrow> (self, [])
      | Some s \<Rightarrow>
          (case shape_data s of
             None \<Rightarrow> (self, [Free_shape])
           | Some data \<Rightarrow>
               (let hotspot = (of_nat (hot_spot_x s), of_nat (hot_spot_y s));
                    newSize = (of_nat (shape_width s), of_nat (shape_height s));
                    self1 = (if newSize \<noteq> cursorSize self \<or> hotspot \<noteq> cursorHotspot self
                             then rebuildCursorWithSize M env newSize hotspot self else self)
                in (self1\<lparr>cursorHidden := False\<rparr>,
                    drawCursor data self1 @ [Free_shape] @ cs_cursor_invalidate env self1))))"

definition cs_cursor_move :: "displays \<Rightarrow> int \<Rightarrow> int \<Rightarrow> cs_cursor \<Rightarrow> cs_cursor \<times> cursor_effect list" where
  "cs_cursor_move env x y self =
     (let self1 = self\<lparr>mouseGuest := (of_int x, of_int y)\<rparr>;
          self2 = (if hasCursor self1 then self1\<lparr>cursorHidden := False\<rparr> else self1)
      in (self2, cs_cursor_invalidate env self2))"

definition cs_cursor_hide :: "displays \<Rightarrow> cs_cursor \<Rightarrow> cs_cursor \<times> cursor_effect list" where
  "cs_cursor_hide env self = (self\<lparr>cursorHidden := True\<rparr>, cs_cursor_invalidate env self)"

definition cs_cursor_reset :: "displays \<Rightarrow> cs_cursor \<Rightarrow> cs_cursor \<times> cursor_effect list" where
  "cs_cursor_reset env self = (destroyCursor self, cs_cursor_invalidate env (destroyCursor self))"

text \<open>\<open>server\<close>: the main channel's mouse mode is \<open>SPICE_MOUSE_MODE_SERVER\<close>.\<close>

definition cs_update_mouse_mode :: "bool \<Rightarrow> cs_cursor \<Rightarrow> cs_cursor" where
  "cs_update_mouse_mode server self = (if server then self\<lparr>mouseGuest := (- 1, - 1)\<rparr> else self)"

definition setDisplay :: "metal \<Rightarrow> displays \<Rightarrow> cursor_shape option \<Rightarrow> objref option \<Rightarrow> cs_cursor \<Rightarrow>
    cs_cursor \<times> cursor_effect list" where
  "setDisplay M env shape display self = cs_cursor_set M env shape (self\<lparr>cur_display := display\<rparr>)"

definition cursor_init :: "metal \<Rightarrow> displays \<Rightarrow> cursor_shape option \<Rightarrow> cs_cursor \<times> cursor_effect list" where
  "cursor_init M env shape =
     (case shape of
        None \<Rightarrow> (blank_cursor, [])
      | Some s \<Rightarrow> (let (self, effects) = cs_cursor_set M env shape blank_cursor in (self, Free_shape # effects)))"

fun run_cursor :: "displays \<Rightarrow> cursor_block \<Rightarrow> cs_cursor \<Rightarrow> cs_cursor \<times> cursor_effect list" where
  "run_cursor env (Move_to point) self =
     (self\<lparr>mouseGuest := point\<rparr>, cs_cursor_invalidate env (self\<lparr>mouseGuest := point\<rparr>))"

definition moveTo :: "displays \<Rightarrow> bool \<Rightarrow> cgpoint \<Rightarrow> (cs_cursor, cursor_block, cursor_effect) world \<Rightarrow>
    (cs_cursor, cursor_block, cursor_effect) world" where
  "moveTo env on_context point = asyncWith (run_cursor env) on_context (Move_to point)"

section \<open>The render source\<close>

definition cursor_isVisible :: "cs_cursor \<Rightarrow> bool" where
  "cursor_isVisible self \<longleftrightarrow> \<not> isInhibited self \<and> hasCursor self \<and> \<not> cursorHidden self"

definition cursor_offset :: "displays \<Rightarrow> cs_cursor \<Rightarrow> cgpoint" where
  "cursor_offset env self =
     (case display_of env self of
        None \<Rightarrow> (0, 0)
      | Some d \<Rightarrow> (fst (mouseGuest self) - fst (displaySize d) / 2, snd (mouseGuest self) - snd (displaySize d) / 2))"

definition cursor_isInverted :: "displays \<Rightarrow> cs_cursor \<Rightarrow> bool" where
  "cursor_isInverted env self \<longleftrightarrow> \<not> (case display_of env self of None \<Rightarrow> False | Some d \<Rightarrow> isGLEnabled d)"

definition cursor_source :: "displays \<Rightarrow> cs_cursor \<Rightarrow> render_source" where
  "cursor_source env self = Render_source (cursor_isVisible self) (cursor_offset env self)
     (map_option tex_ref (cur_texture self)) (cur_numVertices self) (cur_vertices self) True
     (cursor_isInverted env self) None"

section \<open>Where the pointer is drawn\<close>

text \<open>
  The point of a quad at the given fractions of its width from the left edge and of its height
  from the top edge: the three corners that determine it are its first three vertices.
\<close>

definition quad_point :: "vertex list \<Rightarrow> cgfloat \<Rightarrow> cgfloat \<Rightarrow> cgpoint" where
  "quad_point vs a b =
     (case vs of
        Vertex (x1, y1) _ # Vertex (x0, y0) _ # Vertex (x2, y2) _ # _ \<Rightarrow>
          (x0 + a * (x1 - x0) + b * (x2 - x0), y0 + a * (y1 - y0) + b * (y2 - y0))
      | _ \<Rightarrow> (0, 0))"

lemma display_quad_point:
  assumes "rect_width (visibleArea self) = w" and "rect_height (visibleArea self) = h"
  shows "quad_point (display_quad G self) a b = (a * w - w / 2, h / 2 - b * h)"
  using assms by (simp add: display_quad_def Let_def quad_point_def split_beta algebra_simps)

lemma cursor_quad_point:
  "quad_point (cursor_quad (w, h) (x, y)) a b = (a * w - x, y - b * h)"
  by (simp add: cursor_quad_def quad_point_def algebra_simps)

lemma land_quad: "land (Quad (ox, oy) s v n al i t) (px, py) = (s * px + ox, s * py - oy)"
  by (simp add: matrix_scale_translate_def)

lemma initWithRenderSource_display:
  assumes "display_isVisible self" and "cur_texture c = Some ct" and "cur_vertices c = Some cv"
  shows "\<exists>d. initWithRenderSource (display_source (Some (cursor_source env c)) self) (0, 0) = Some d \<and>
    sd_offset d = (0, 0) \<and>
    sd_cursorSource d = Some (Source_data (cursor_offset env c) cv (cur_numVertices c) (tex_ref ct) True
       (cursor_isInverted env c) (cursor_isVisible c) None)"
  using assms by (cases "cursor_offset env c")
    (auto simp: display_isVisible_def display_source_def cursor_source_def add_points_def)

text \<open>
  C18. The pointer is drawn where it points: in every frame of a visible display with a visible
  cursor, the hotspot of the cursor's shape lands on the same point of the view as the pixel
  of the display at the guest's mouse position.
\<close>

theorem cursor_points_at_pixel:
  assumes "display_isVisible disp" and "cur_texture cur = Some ct" and "cur_vertices cur = Some cv"
    and "cur_display cur = Some r" and "env r = Some disp"
    and "displaySize disp = rect_size (visibleArea disp)" and "visibleArea disp = CGRectMake vx vy w h"
    and "0 < w" and "0 < h" and "cursorSize cur = (cw, ch)" and "0 < cw" and "0 < ch"
    and "cursor_isVisible cur"
  shows "\<exists>d screen pointer. initWithRenderSource (display_source (Some (cursor_source env cur)) disp) (0, 0) = Some d \<and>
    renderCommand origin scale d = [screen, pointer] \<and>
    quad_vertices pointer = cv \<and>
    land pointer (quad_point (cursor_quad (cw, ch) (cursorHotspot cur))
        (fst (cursorHotspot cur) / cw) (snd (cursorHotspot cur) / ch)) =
    land screen (quad_point (display_quad G disp) (fst (mouseGuest cur) / w) (snd (mouseGuest cur) / h))"
proof -
  obtain d where d: "initWithRenderSource (display_source (Some (cursor_source env cur)) disp) (0, 0) = Some d"
    "sd_offset d = (0, 0)"
    "sd_cursorSource d = Some (Source_data (cursor_offset env cur) cv (cur_numVertices cur) (tex_ref ct) True
       (cursor_isInverted env cur) (cursor_isVisible cur) None)"
    using initWithRenderSource_display[OF assms(1-3), of env] by (elim exE conjE) (rule that)
  have off: "cursor_offset env cur = (fst (mouseGuest cur) - w / 2, snd (mouseGuest cur) - h / 2)"
    using assms(4-7) by (simp add: cursor_offset_def display_of_def rect_size_def)
  obtain hx hy where hot: "cursorHotspot cur = (hx, hy)" by fastforce
  obtain ox oy where orig: "origin = (ox, oy)" by fastforce
  have screen: "quad_point (display_quad G disp) a b = (a * w - w / 2, h / 2 - b * h)" for a b
    using assms(7) by (intro display_quad_point) simp_all
  define screen where "screen = quad_of (place_origin origin scale (0, 0)) scale d"
  define pointer where "pointer = quad_of (place_origin origin scale (add_points (0, 0) (cursor_offset env cur))) scale
     (Source_data (cursor_offset env cur) cv (cur_numVertices cur) (tex_ref ct) True
       (cursor_isInverted env cur) (cursor_isVisible cur) None)"
  have "renderCommand origin scale d = [screen, pointer]"
    unfolding renderCommand_def screen_def pointer_def d(2,3) using assms(13) by simp
  moreover have "land pointer (quad_point (cursor_quad (cw, ch) (hx, hy)) (hx / cw) (hy / ch)) =
      (ox + (fst (mouseGuest cur) - w / 2) * scale, - (oy + (snd (mouseGuest cur) - h / 2) * scale))"
    using assms(11,12)
    by (simp add: cursor_quad_point pointer_def off orig quad_of_def place_origin_def add_points_def land_quad
        del: land.simps)
  moreover have "land screen (quad_point (display_quad G disp) (fst (mouseGuest cur) / w) (snd (mouseGuest cur) / h)) =
      (ox + (fst (mouseGuest cur) - w / 2) * scale, - (oy + (snd (mouseGuest cur) - h / 2) * scale))"
    using assms(8,9)
    by (simp add: screen screen_def orig quad_of_def place_origin_def land_quad del: land.simps)
      (simp add: algebra_simps)
  moreover have "quad_vertices pointer = cv" by (simp add: pointer_def quad_of_def)
  ultimately show ?thesis using d(1) unfolding hot by (intro exI[of _ d] exI[of _ screen] exI[of _ pointer]) simp
qed

theorem cursor_points_at_pixel_witness:
  "\<exists>screen pointer. quad_vertices pointer = 7 \<and>
     land pointer (quad_point (cursor_quad (2, 2) (1, 1)) (1 / 2) (1 / 2)) =
     land screen (quad_point (display_quad model_cg (blank_display\<lparr>ready := True, vertices := Some 5,
       canvasTexture := Some \<lparr>tex_ref = 1, tex_format = BGRA8Unorm, tex_width = 4, tex_height = 3, tex_surface = None\<rparr>,
       visibleArea := CGRectMake 0 0 4 3, displaySize := (4, 3)\<rparr>)) (1 / 4) (2 / 3))"
proof -
  define disp where "disp = blank_display\<lparr>ready := True, vertices := Some 5,
       canvasTexture := Some \<lparr>tex_ref = 1, tex_format = BGRA8Unorm, tex_width = 4, tex_height = 3, tex_surface = None\<rparr>,
       visibleArea := CGRectMake 0 0 4 3, displaySize := (4, 3)\<rparr>"
  define ct where "ct = \<lparr>tex_ref = 2, tex_format = BGRA8Unorm, tex_width = 2, tex_height = 2, tex_surface = None\<rparr>"
  define cur where "cur = blank_cursor\<lparr>cur_texture := Some ct, cur_vertices := Some 7, cur_display := Some 1,
       hasCursor := True, cursorSize := (2, 2), cursorHotspot := (1, 1), mouseGuest := (1, 2)\<rparr>"
  have "display_isVisible disp"
    by (simp add: disp_def display_isVisible_def display_texture_def blank_display_def)
  moreover have "displaySize disp = rect_size (visibleArea disp)" "visibleArea disp = CGRectMake 0 0 4 3"
    by (simp_all add: disp_def rect_size_def)
  moreover have "cur_texture cur = Some ct" "cur_vertices cur = Some 7" "cur_display cur = Some 1"
    "cursorSize cur = (2, 2)" "cursor_isVisible cur" "cursorHotspot cur = (1, 1)" "mouseGuest cur = (1, 2)"
    by (simp_all add: cur_def cursor_isVisible_def blank_cursor_def)
  moreover note cursor_points_at_pixel[of disp cur ct 7 1 "[1 \<mapsto> disp]" 0 0 4 3 2 2 "(0, 0)" 1 model_cg]
  ultimately have "\<exists>d screen pointer. initWithRenderSource (display_source (Some (cursor_source [1 \<mapsto> disp] cur)) disp) (0, 0) = Some d \<and>
    renderCommand (0, 0) 1 d = [screen, pointer] \<and> quad_vertices pointer = 7 \<and>
    land pointer (quad_point (cursor_quad (2, 2) (1, 1)) (1 / 2) (1 / 2)) =
    land screen (quad_point (display_quad model_cg disp) (1 / 4) (2 / 3))" by simp
  then show ?thesis unfolding disp_def by blast
qed

section \<open>When the pointer is shown\<close>

text \<open>What happens to a cursor; attaching it carries the shape the channel has at that moment.\<close>

datatype cursor_event =
    Shape "cursor_shape option"
  | Move int int
  | Hide
  | Reset
  | Mouse_mode bool
  | Attach "objref option" "cursor_shape option"
  | Warp cgpoint
  | Inhibit bool

fun cursor_step :: "metal \<Rightarrow> displays \<Rightarrow> cursor_event \<Rightarrow> cs_cursor \<Rightarrow> cs_cursor \<times> cursor_effect list" where
  "cursor_step M env (Shape s) self = cs_cursor_set M env s self"
| "cursor_step M env (Move x y) self = cs_cursor_move env x y self"
| "cursor_step M env Hide self = cs_cursor_hide env self"
| "cursor_step M env Reset self = cs_cursor_reset env self"
| "cursor_step M env (Mouse_mode server) self = (cs_update_mouse_mode server self, [])"
| "cursor_step M env (Attach d s) self = setDisplay M env s d self"
| "cursor_step M env (Warp p) self = run_cursor env (Move_to p) self"
| "cursor_step M env (Inhibit b) self = (self\<lparr>isInhibited := b\<rparr>, [])"

definition cursor_run :: "metal \<Rightarrow> (displays \<times> cursor_event) list \<Rightarrow> cs_cursor \<Rightarrow> cs_cursor" where
  "cursor_run M evs self = fold (\<lambda>(env, e) s. fst (cursor_step M env e s)) evs self"

text \<open>The abstract pointer: absent, hidden by the guest, or shown.\<close>

datatype pointer = Absent | Hidden | Shown

record pointer_state =
  attached_to :: "objref option"
  inhibited :: bool
  pointer :: pointer

definition device_there :: "displays \<Rightarrow> objref option \<Rightarrow> bool" where
  "device_there env d = (case d of None \<Rightarrow> False | Some r \<Rightarrow>
     (case env r of None \<Rightarrow> False | Some disp \<Rightarrow> device disp \<noteq> None))"

text \<open>A shape shows the pointer, but the first one only when there is a device to make it with.\<close>

fun pointer_set :: "bool \<Rightarrow> cursor_shape option \<Rightarrow> pointer \<Rightarrow> pointer" where
  "pointer_set dev None p = p"
| "pointer_set dev (Some s) p =
     (if shape_data s = None then p
      else if p = Absent \<and> (\<not> dev \<or>
        (shape_width s = 0 \<and> shape_height s = 0 \<and> hot_spot_x s = 0 \<and> hot_spot_y s = 0)) then Absent
      else Shown)"

fun pointer_step :: "displays \<Rightarrow> cursor_event \<Rightarrow> pointer_state \<Rightarrow> pointer_state" where
  "pointer_step env (Shape s) p = p\<lparr>pointer := pointer_set (device_there env (attached_to p)) s (pointer p)\<rparr>"
| "pointer_step env (Move x y) p = p\<lparr>pointer := (if pointer p = Absent then Absent else Shown)\<rparr>"
| "pointer_step env Hide p = p\<lparr>pointer := (if pointer p = Absent then Absent else Hidden)\<rparr>"
| "pointer_step env Reset p = p\<lparr>pointer := Absent\<rparr>"
| "pointer_step env (Mouse_mode server) p = p"
| "pointer_step env (Attach d s) p =
     p\<lparr>attached_to := d, pointer := pointer_set (device_there env d) s (pointer p)\<rparr>"
| "pointer_step env (Warp q) p = p"
| "pointer_step env (Inhibit b) p = p\<lparr>inhibited := b\<rparr>"

definition pointer_of :: "cs_cursor \<Rightarrow> pointer_state" where
  "pointer_of self = \<lparr>attached_to = cur_display self, inhibited = isInhibited self,
     pointer = (if \<not> hasCursor self then Absent else if cursorHidden self then Hidden else Shown)\<rparr>"

text \<open>What holds of every cursor: no image without a size, and a texture of the recorded size.\<close>

definition metal_sizes :: "metal \<Rightarrow> bool" where
  "metal_sizes M \<longleftrightarrow> (\<forall>f w h t. newTexture M f w h = Some t \<longrightarrow> tex_width t = w \<and> tex_height t = h)"

definition cursor_ok :: "cs_cursor \<Rightarrow> bool" where
  "cursor_ok self \<longleftrightarrow> (\<not> hasCursor self \<longrightarrow> cursorSize self = (0, 0) \<and> cursorHotspot self = (0, 0)) \<and>
     (\<forall>t. cur_texture self = Some t \<longrightarrow>
        cursorSize self = (of_nat (tex_width t), of_nat (tex_height t)))"

lemma nat_of_of_nat [simp]: "nat_of (of_nat n) = n"
  by (simp add: nat_of_def c_trunc_def)

lemma cursor_device_there: "cursor_device env self \<noteq> None \<longleftrightarrow> device_there env (cur_display self)"
  by (simp add: cursor_device_def display_of_def device_there_def split: option.splits)

lemma rebuild_no_device: "cursor_device env self = None \<Longrightarrow> rebuildCursorWithSize M env sz hot self = self"
  by (simp add: rebuildCursorWithSize_def)

lemma rebuild_frame:
  "cursor_device env self \<noteq> None \<Longrightarrow> hasCursor (rebuildCursorWithSize M env sz hot self)"
  "cursor_device env self \<noteq> None \<Longrightarrow> cursorSize (rebuildCursorWithSize M env sz hot self) = sz"
  "cursor_device env self \<noteq> None \<Longrightarrow> cursorHotspot (rebuildCursorWithSize M env sz hot self) = hot"
  "isInhibited (rebuildCursorWithSize M env sz hot self) = isInhibited self"
  "cur_display (rebuildCursorWithSize M env sz hot self) = cur_display self"
  by (auto simp: rebuildCursorWithSize_def Let_def)

lemma cursor_ok_rebuild:
  "metal_sizes M \<Longrightarrow> cursor_ok self \<Longrightarrow> cursor_ok (rebuildCursorWithSize M env (of_nat w, of_nat h) hot self)"
  by (auto simp: rebuildCursorWithSize_def cursor_ok_def Let_def metal_sizes_def)

lemma cursor_ok_set: "metal_sizes M \<Longrightarrow> cursor_ok self \<Longrightarrow> cursor_ok (fst (cs_cursor_set M env s self))"
  using cursor_ok_rebuild[of M self env]
  by (auto simp: cs_cursor_set_def Let_def cursor_ok_def split: option.split)

lemma cursor_ok_step:
  assumes "metal_sizes M" and "cursor_ok self" shows "cursor_ok (fst (cursor_step M env e self))"
proof (cases e)
  case (Attach d s)
  have "cursor_ok (self\<lparr>cur_display := d\<rparr>)" using assms(2) by (simp add: cursor_ok_def)
  with Attach assms(1) show ?thesis by (simp add: setDisplay_def cursor_ok_set)
next
  case (Shape s)
  with assms show ?thesis by (simp add: cursor_ok_set)
qed (use assms in \<open>auto simp: cs_cursor_move_def cs_cursor_hide_def cs_cursor_reset_def
      cs_update_mouse_mode_def destroyCursor_def cursor_ok_def Let_def\<close>)

lemma cursor_ok_run: "metal_sizes M \<Longrightarrow> cursor_ok self \<Longrightarrow> cursor_ok (cursor_run M evs self)"
  unfolding cursor_run_def by (induction evs arbitrary: self) (auto simp: cursor_ok_step)

lemma cursor_ok_blank [simp]: "cursor_ok blank_cursor"
  by (simp add: cursor_ok_def blank_cursor_def)

lemma pointer_of_set:
  assumes "cursor_ok self"
  shows "pointer_of (fst (cs_cursor_set M env s self)) =
    (pointer_of self)\<lparr>pointer := pointer_set (device_there env (cur_display self)) s (pointer (pointer_of self))\<rparr>"
proof (cases "\<exists>sh data. s = Some sh \<and> shape_data sh = Some data")
  case True
  then obtain sh data where s: "s = Some sh" "shape_data sh = Some data" by blast
  define hot :: cgpoint where "hot = (of_nat (hot_spot_x sh), of_nat (hot_spot_y sh))"
  define sz :: "cgfloat \<times> cgfloat" where "sz = (of_nat (shape_width sh), of_nat (shape_height sh))"
  define self1 where "self1 = (if sz \<noteq> cursorSize self \<or> hot \<noteq> cursorHotspot self
    then rebuildCursorWithSize M env sz hot self else self)"
  have set_eq: "fst (cs_cursor_set M env s self) = self1\<lparr>cursorHidden := False\<rparr>"
    by (simp add: cs_cursor_set_def s self1_def hot_def sz_def Let_def)
  have zero: "sz = (0, 0) \<and> hot = (0, 0) \<longleftrightarrow>
      shape_width sh = 0 \<and> shape_height sh = 0 \<and> hot_spot_x sh = 0 \<and> hot_spot_y sh = 0"
    by (simp add: sz_def hot_def conj_assoc)
  have "hasCursor self1 \<longleftrightarrow> hasCursor self \<or> (cursor_device env self \<noteq> None \<and> \<not> (sz = (0, 0) \<and> hot = (0, 0)))"
  proof (cases "cursor_device env self = None")
    case False
    then show ?thesis using assms rebuild_frame(1)[OF False, of M sz hot]
      by (cases "hasCursor self") (auto simp: self1_def cursor_ok_def)
  qed (simp add: self1_def rebuild_no_device)
  moreover have "isInhibited self1 = isInhibited self" "cur_display self1 = cur_display self"
    by (simp_all add: self1_def rebuild_frame(4,5))
  ultimately show ?thesis
    using zero cursor_device_there[of env self] unfolding set_eq unfolding s(1)
    by (auto simp: pointer_of_def s(2))
next
  case False
  then have "fst (cs_cursor_set M env s self) = self" "pointer_set dev s p = p" for dev p
    by (auto simp: cs_cursor_set_def split: option.split) (cases s; simp)+
  then show ?thesis by (simp add: pointer_of_def)
qed

lemma pointer_of_step:
  assumes "cursor_ok self"
  shows "pointer_of (fst (cursor_step M env e self)) = pointer_step env e (pointer_of self)"
proof (cases e)
  case (Attach d s)
  have "cursor_ok (self\<lparr>cur_display := d\<rparr>)" using assms by (simp add: cursor_ok_def)
  from pointer_of_set[OF this] Attach show ?thesis by (simp add: setDisplay_def) (simp add: pointer_of_def)
next
  case (Shape s)
  with pointer_of_set[OF assms] show ?thesis by (simp add: pointer_of_def)
qed (auto simp: cs_cursor_move_def cs_cursor_hide_def cs_cursor_reset_def cs_update_mouse_mode_def
      destroyCursor_def pointer_of_def Let_def)

text \<open>
  The cursor refines the abstract pointer: after any sequence of events it is visible exactly
  when it is not inhibited and the pointer the events describe is shown.
\<close>

theorem cursor_visibility:
  assumes "metal_sizes M"
  shows "pointer_of (cursor_run M evs blank_cursor) =
      fold (\<lambda>(env, e). pointer_step env e) evs (pointer_of blank_cursor) \<and>
    (cursor_isVisible (cursor_run M evs blank_cursor) \<longleftrightarrow>
      \<not> inhibited (pointer_of (cursor_run M evs blank_cursor)) \<and>
      pointer (pointer_of (cursor_run M evs blank_cursor)) = Shown)"
proof
  have "cursor_ok self \<Longrightarrow>
      pointer_of (cursor_run M evs self) = fold (\<lambda>(env, e). pointer_step env e) evs (pointer_of self)" for self
    unfolding cursor_run_def
    by (induction evs arbitrary: self) (auto simp: pointer_of_step cursor_ok_step[OF assms])
  then show "pointer_of (cursor_run M evs blank_cursor) =
      fold (\<lambda>(env, e). pointer_step env e) evs (pointer_of blank_cursor)" by simp
  show "cursor_isVisible (cursor_run M evs blank_cursor) \<longleftrightarrow>
      \<not> inhibited (pointer_of (cursor_run M evs blank_cursor)) \<and>
      pointer (pointer_of (cursor_run M evs blank_cursor)) = Shown"
    by (simp add: cursor_isVisible_def pointer_of_def)
qed

theorem cursor_visibility_witness:
  "cursor_isVisible (cursor_run gl_metal
     [(\<lambda>r. Some (blank_display\<lparr>device := Some 6\<rparr>), Attach (Some 1) None),
      (\<lambda>r. Some (blank_display\<lparr>device := Some 6\<rparr>),
        Shape (Some \<lparr>shape_width = 1, shape_height = 1, hot_spot_x = 0, hot_spot_y = 0, shape_data = Some [0, 0, 0, 0]\<rparr>)),
      (\<lambda>r. None, Hide), (\<lambda>r. None, Move 3 4)] blank_cursor)"
proof -
  let ?evs = "[(\<lambda>r. Some (blank_display\<lparr>device := Some 6\<rparr>), Attach (Some 1) None),
      (\<lambda>r. Some (blank_display\<lparr>device := Some 6\<rparr>),
        Shape (Some \<lparr>shape_width = 1, shape_height = 1, hot_spot_x = 0, hot_spot_y = 0, shape_data = Some [0, 0, 0, 0]\<rparr>)),
      (\<lambda>r. None, Hide), (\<lambda>r. None, Move 3 4)]"
  have "metal_sizes gl_metal" by (auto simp: metal_sizes_def gl_metal_def)
  note refines = cursor_visibility[OF this, of ?evs]
  have "fold (\<lambda>(env, e). pointer_step env e) ?evs (pointer_of blank_cursor) =
      \<lparr>attached_to = Some 1, inhibited = False, pointer = Shown\<rparr>"
    by (simp add: pointer_of_def blank_cursor_def device_there_def)
  with refines show ?thesis by simp
qed

section \<open>What an upload reads\<close>

text \<open>Bytes read from the buffer, and whether the region lies in the texture.\<close>

fun upload_ok :: "nat \<Rightarrow> cursor_effect \<Rightarrow> bool" where
  "upload_ok n (Replace_region t w h buffer bytesPerRow) \<longleftrightarrow>
     bytesPerRow * h = n \<and> n = length buffer \<and> w \<le> tex_width t \<and> h \<le> tex_height t"
| "upload_ok n (Invalidate_display r) = True"
| "upload_ok n Free_shape = True"

definition well_formed_shape :: "cursor_shape \<Rightarrow> bool" where
  "well_formed_shape s \<longleftrightarrow> (\<forall>data. shape_data s = Some data \<longrightarrow> length data = 4 * shape_width s * shape_height s)"

lemma nat_of_times_4 [simp]: "nat_of (of_nat n * 4) = n * 4"
proof -
  have "(of_nat n * 4 :: cgfloat) = of_nat (n * 4)" by simp
  then show ?thesis by (simp only: nat_of_of_nat)
qed

lemma upload_ok_draw:
  assumes "cursor_ok self" and "cursorSize self = (of_nat w, of_nat h)" and "length data = 4 * w * h"
  shows "list_all (upload_ok (4 * w * h)) (drawCursor data self)"
  using assms by (auto simp: drawCursor_def cursor_ok_def split: option.split)

lemma upload_ok_set:
  assumes "metal_sizes M" and "cursor_ok self" and "well_formed_shape s" and "device_there env (cur_display self)"
  shows "list_all (upload_ok (4 * shape_width s * shape_height s)) (snd (cs_cursor_set M env (Some s) self))"
proof (cases "shape_data s")
  case (Some data)
  define hot :: cgpoint where "hot = (of_nat (hot_spot_x s), of_nat (hot_spot_y s))"
  define sz :: "cgfloat \<times> cgfloat" where "sz = (of_nat (shape_width s), of_nat (shape_height s))"
  define self1 where "self1 = (if sz \<noteq> cursorSize self \<or> hot \<noteq> cursorHotspot self
    then rebuildCursorWithSize M env sz hot self else self)"
  have effects: "snd (cs_cursor_set M env (Some s) self) =
      drawCursor data self1 @ [Free_shape] @ cs_cursor_invalidate env self1"
    by (simp add: cs_cursor_set_def Some self1_def hot_def sz_def Let_def)
  have "cursor_device env self \<noteq> None" using assms(4) by (simp only: cursor_device_there)
  from rebuild_frame(2)[OF this, of M sz hot] have "cursorSize self1 = sz" by (simp add: self1_def)
  moreover have "cursor_ok self1" using assms(1,2) by (auto simp: self1_def sz_def cursor_ok_rebuild)
  moreover have "length data = 4 * shape_width s * shape_height s"
    using assms(3) Some by (simp add: well_formed_shape_def)
  ultimately have "list_all (upload_ok (4 * shape_width s * shape_height s)) (drawCursor data self1)"
    by (intro upload_ok_draw) (simp_all add: sz_def)
  moreover have "list_all (upload_ok n) (cs_cursor_invalidate env self1)" for n
    by (simp add: cs_cursor_invalidate_def split: option.split)
  ultimately show ?thesis by (simp add: effects)
qed (simp add: cs_cursor_set_def)

text \<open>
  With a device, a new shape is uploaded exactly: after any history of the cursor, setting a
  shape, or attaching to a display while the channel has one, reads all of the shape's bytes
  and nothing beyond, and writes inside the cursor's texture.
\<close>

theorem cursor_upload_exact:
  assumes "metal_sizes M" and "well_formed_shape s"
  shows "(device_there env (cur_display (cursor_run M evs blank_cursor)) \<longrightarrow>
      list_all (upload_ok (4 * shape_width s * shape_height s))
        (snd (cursor_step M env (Shape (Some s)) (cursor_run M evs blank_cursor)))) \<and>
    (device_there env d \<longrightarrow>
      list_all (upload_ok (4 * shape_width s * shape_height s))
        (snd (cursor_step M env (Attach d (Some s)) (cursor_run M evs blank_cursor))))"
proof -
  have ok: "cursor_ok (cursor_run M evs blank_cursor)" using assms(1) by (simp add: cursor_ok_run)
  then have "cursor_ok ((cursor_run M evs blank_cursor)\<lparr>cur_display := d\<rparr>)" by (simp add: cursor_ok_def)
  then show ?thesis using upload_ok_set[OF assms(1) _ assms(2)] ok by (simp add: setDisplay_def)
qed

definition small_shape :: cursor_shape where
  "small_shape = \<lparr>shape_width = 1, shape_height = 1, hot_spot_x = 0, hot_spot_y = 0,
     shape_data = Some [0, 0, 0, 0]\<rparr>"

definition big_shape :: cursor_shape where
  "big_shape = \<lparr>shape_width = 2, shape_height = 1, hot_spot_x = 0, hot_spot_y = 0,
     shape_data = Some [0, 0, 0, 0, 0, 0, 0, 0]\<rparr>"

lemma metal_sizes_gl_metal: "metal_sizes gl_metal"
  by (auto simp: metal_sizes_def gl_metal_def)

theorem cursor_upload_exact_witness:
  "list_all (upload_ok 4) (snd (cursor_step gl_metal (\<lambda>r. Some (blank_display\<lparr>device := Some 6\<rparr>))
     (Attach (Some 1) (Some small_shape)) blank_cursor))"
proof -
  have "well_formed_shape small_shape" by (simp add: well_formed_shape_def small_shape_def)
  note exact = cursor_upload_exact[OF metal_sizes_gl_metal this, of
      "\<lambda>r. Some (blank_display\<lparr>device := Some 6\<rparr>)" "[]" "Some 1"]
  moreover have "device_there (\<lambda>r. Some (blank_display\<lparr>device := Some 6\<rparr>)) (Some 1)"
    by (simp add: device_there_def)
  moreover have "4 * shape_width small_shape * shape_height small_shape = 4" by (simp add: small_shape_def)
  ultimately show ?thesis by (simp only: cursor_run_def fold_simps)
qed

text \<open>
  Without a device the old texture and size stay while the new shape's data is uploaded: a
  shape smaller than the last one that was made makes the upload read past the end of its
  data.
\<close>

theorem cursor_overread:
  assumes "metal_sizes M" and "cursor_ok self" and "\<not> device_there env (cur_display self)"
    and "cur_texture self = Some t" and "shape_data s = Some data" and "length data = 4 * shape_width s * shape_height s"
    and "shape_width s * shape_height s < tex_width t * tex_height t"
  shows "\<exists>h bytesPerRow w. Replace_region t w h data bytesPerRow \<in> set (snd (cs_cursor_set M env (Some s) self)) \<and>
    length data < bytesPerRow * h"
proof -
  have "cursor_device env self = None" using assms(3) cursor_device_there[of env self] by simp
  then have keep: "rebuildCursorWithSize M env sz hot self = self" for sz hot by (rule rebuild_no_device)
  have sz: "cursorSize self = (of_nat (tex_width t), of_nat (tex_height t))"
    using assms(2,4) by (simp add: cursor_ok_def)
  have "0 < tex_width t" "0 < tex_height t" using assms(7) by (auto intro: gr0I)
  then have "Replace_region t (tex_width t) (tex_height t) data (tex_width t * 4) \<in>
      set (snd (cs_cursor_set M env (Some s) self))"
    by (simp add: cs_cursor_set_def assms(5) keep drawCursor_def sz assms(4) Let_def)
  moreover have "length data < tex_width t * 4 * tex_height t" using assms(6,7) by simp
  ultimately show ?thesis by blast
qed

theorem cursor_overread_witness:
  "\<exists>t w h bytesPerRow data. Replace_region t w h data bytesPerRow \<in>
     set (snd (cursor_step gl_metal (\<lambda>r. None) (Shape (Some small_shape))
       (cursor_run gl_metal [(\<lambda>r. Some (blank_display\<lparr>device := Some 6\<rparr>), Attach (Some 1) (Some big_shape))] blank_cursor))) \<and>
     length data < bytesPerRow * h"
proof -
  let ?self = "cursor_run gl_metal [(\<lambda>r. Some (blank_display\<lparr>device := Some 6\<rparr>), Attach (Some 1) (Some big_shape))] blank_cursor"
  have ok: "cursor_ok ?self" by (simp add: cursor_ok_run metal_sizes_gl_metal)
  have t: "cur_texture ?self = Some \<lparr>tex_ref = 2, tex_format = BGRA8Unorm, tex_width = 2, tex_height = 1, tex_surface = None\<rparr>"
  proof -
    have "nat_of 2 = 2" "nat_of 1 = 1" using nat_of_of_nat[of 2] nat_of_of_nat[of 1] by simp_all
    then show ?thesis
      by (simp add: cursor_run_def setDisplay_def cs_cursor_set_def big_shape_def blank_cursor_def
          rebuildCursorWithSize_def cursor_device_def display_of_def gl_metal_def Let_def)
  qed
  have "\<not> device_there (\<lambda>r. None) (cur_display ?self)" by (simp add: device_there_def split: option.split)
  from cursor_overread[OF metal_sizes_gl_metal ok this t, of small_shape "[0, 0, 0, 0]"]
  have "\<exists>h bytesPerRow w. Replace_region \<lparr>tex_ref = 2, tex_format = BGRA8Unorm, tex_width = 2, tex_height = 1, tex_surface = None\<rparr>
      w h [0, 0, 0, 0] bytesPerRow \<in> set (snd (cs_cursor_set gl_metal (\<lambda>r. None) (Some small_shape) ?self)) \<and>
      length [0, 0, 0, 0 :: guint8] < bytesPerRow * h"
    by (simp add: small_shape_def)
  then show ?thesis unfolding cursor_step.simps by blast
qed

section \<open>A device that arrives late\<close>

lemma device_kept:
  "device (rebuildDisplayVertices G M disp) = device disp"
  "device (rebuildScanoutTextureWithSurface M surf sw sh disp) = device disp"
  "device (fst (rebuildCanvasTexture G M plat disp)) = device disp"
  by (simp_all add: rebuildDisplayVertices_def rebuildScanoutTextureWithSurface_def rebuildShadowTexture_def Let_def)
    (cases plat; simp add: rebuildCanvasTexture_def drawRegion_def Let_def split: option.split)

text \<open>
  \<open>setDevice:\<close> called away from the SPICE thread tells the cursor to rebuild before the block
  that records the device has run: the cursor of a display that had none gets no image from
  it, and nothing asks it again, while the same request made after the block would have made
  the image.
\<close>

theorem late_device_misses_cursor:
  assumes "device disp = None" and "disp_cursor disp = Some c" and "\<not> hasCursor cur"
    and "shape_data s = Some data" and "0 < shape_width s" and "cursorSize cur = (0, 0)"
  shows "\<exists>block. setDevice (Some dev) disp = ([block], [Cursor_set_display (Some c) True]) \<and>
    device (fst (run_display G M plat block disp)) = Some dev \<and>
    \<not> hasCursor (fst (setDisplay M [r \<mapsto> disp] (Some s) (Some r) cur)) \<and>
    hasCursor (fst (setDisplay M [r \<mapsto> fst (run_display G M plat block disp)] (Some s) (Some r) cur))"
proof -
  have dev: "device (fst (run_display G M plat (Set_device_block (Some dev)) disp)) = Some dev"
    by (simp add: set_device_def Let_def split_beta device_kept split: option.split)
  have before: "cursor_device [r \<mapsto> disp] (cur\<lparr>cur_display := Some r\<rparr>) = None"
    using assms(1) by (simp add: cursor_device_def display_of_def)
  have after: "cursor_device [r \<mapsto> fst (run_display G M plat (Set_device_block (Some dev)) disp)]
      (cur\<lparr>cur_display := Some r\<rparr>) \<noteq> None"
    using dev by (simp add: cursor_device_def display_of_def)
  have "setDevice (Some dev) disp = ([Set_device_block (Some dev)], [Cursor_set_display (Some c) True])"
    using assms(1,2) by (simp add: setDevice_def)
  moreover have "\<not> hasCursor (fst (setDisplay M [r \<mapsto> disp] (Some s) (Some r) cur))"
    using assms(3,4) rebuild_no_device[OF before] by (simp add: setDisplay_def cs_cursor_set_def Let_def)
  moreover have "hasCursor (fst (setDisplay M [r \<mapsto> fst (run_display G M plat (Set_device_block (Some dev)) disp)]
      (Some s) (Some r) cur))"
    using assms(4-6) rebuild_frame(1)[OF after] by (simp add: setDisplay_def cs_cursor_set_def Let_def)
  ultimately show ?thesis using dev by blast
qed

theorem late_device_misses_cursor_witness:
  "\<not> hasCursor (fst (setDisplay gl_metal [1 \<mapsto> blank_display\<lparr>disp_cursor := Some 2\<rparr>] (Some small_shape) (Some 1) blank_cursor))"
proof -
  have "device (blank_display\<lparr>disp_cursor := Some 2\<rparr>) = None" "\<not> hasCursor blank_cursor" "cursorSize blank_cursor = (0, 0)"
    "disp_cursor (blank_display\<lparr>disp_cursor := Some 2\<rparr>) = Some 2" "shape_data small_shape = Some [0, 0, 0, 0]"
    "0 < shape_width small_shape"
    by (simp_all add: blank_display_def blank_cursor_def small_shape_def)
  from late_device_misses_cursor[OF this(1,4,2,5,6,3)] show ?thesis by blast
qed

end
