(* ===== verification/Connection.thy ===== *)
theory Connection
  imports Main_Context Wire
begin

text \<open>
  \<^verbatim>\<open>CSConnection.m\<close>: the session's properties, the registry of channel wrappers and the delegate's
  events. Handlers run on the SPICE thread one after the other; each returns the new state and
  what it tells the delegate and the client library, in order. The properties are in
  \<^theory_text>\<open>Connection_Registry\<close>.
\<close>

section \<open>State\<close>

datatype CSConnectionError = kCSConnectionErrorNone | kCSConnectionErrorConnect
  | kCSConnectionErrorAuthentication | kCSConnectionErrorIO | kCSConnectionErrorUnknown

text \<open>
  A wrapper of a channel: its class by the channel's type, the main channel it was given, and for a
  display whether it was announced and the cursor it shows (by the cursor's channel).
\<close>

record channel_wrap =
  wrap_type :: spice_channel_type
  spiceChannel :: objref
  channelID :: nat
  wrap_main :: "objref option"
  wrap_hasInitialConfig :: bool
  wrap_cursor :: "objref option"

record session_properties =
  sp_host :: "string option"
  sp_port :: "string option"
  sp_tls_port :: "string option"
  sp_unix_path :: "string option"
  sp_pubkey :: "guint8 list option"
  sp_password :: "string option"
  sp_secure_all :: bool

datatype conn_signal = Channel_event | Agent_update | Notify_monitors | Notify_port_opened

text \<open>\<open>main_refs\<close> are the references on main channels the connection and its wrappers own.\<close>

record cs_connection =
  isTLSOnly :: bool
  sprops :: session_properties
  unixSocketURL :: "string option"
  tlsServerPublicKey :: "guint8 list option"
  spiceMain :: "objref option"
  mutableChannels :: "channel_wrap list"
  audioPlayback :: "objref option"
  audioEnabled :: bool
  conn_delegate :: "objref option"
  conn_handlers :: "(objref \<times> conn_signal) list"
  main_refs :: "objref list"

datatype conn_event =
    Spice_connected
  | Spice_disconnected
  | Spice_error CSConnectionError string
  | Display_created objref
  | Display_updated objref
  | Display_destroyed objref
  | Agent_connected bool
  | Agent_disconnected
  | Port_opened objref
  | Port_closed objref
  | Input_available objref
  | Input_unavailable objref
  | Session_disconnect
  | Enable_display objref
  | Channel_connect objref

definition tell_delegate :: "cs_connection \<Rightarrow> conn_event \<Rightarrow> conn_event list" where
  "tell_delegate self e = (if conn_delegate self = None then [] else [e])"

text \<open>A \<open>SpiceWebdavChannel\<close> is a \<open>SpicePortChannel\<close>.\<close>

definition is_port_channel :: "spice_channel_type \<Rightarrow> bool" where
  "is_port_channel t \<longleftrightarrow> t = SPICE_CHANNEL_PORT \<or> t = SPICE_CHANNEL_WEBDAV"

section \<open>Main channel\<close>

definition generic_message :: string where
  "generic_message = ''An error occurred trying to connect to SPICE.''"

definition error_code :: "SpiceChannelEvent \<Rightarrow> CSConnectionError" where
  "error_code event = (case event of
     SPICE_CHANNEL_ERROR_IO \<Rightarrow> kCSConnectionErrorIO
   | SPICE_CHANNEL_ERROR_TLS \<Rightarrow> kCSConnectionErrorAuthentication
   | SPICE_CHANNEL_ERROR_LINK \<Rightarrow> kCSConnectionErrorAuthentication
   | SPICE_CHANNEL_ERROR_AUTH \<Rightarrow> kCSConnectionErrorAuthentication
   | SPICE_CHANNEL_ERROR_CONNECT \<Rightarrow> kCSConnectionErrorConnect
   | _ \<Rightarrow> kCSConnectionErrorUnknown)"

definition cs_main_channel_event :: "string option \<Rightarrow> nat \<Rightarrow> cs_connection \<Rightarrow> conn_event list" where
  "cs_main_channel_event error number self =
     (case channel_event.decode number of
        None \<Rightarrow> []
      | Some event \<Rightarrow>
          (if event = SPICE_CHANNEL_OPENED then tell_delegate self Spice_connected
           else if event = SPICE_CHANNEL_SWITCHING then []
           else if event = SPICE_CHANNEL_CLOSED then [Session_disconnect]
           else if event \<in> {SPICE_CHANNEL_ERROR_IO, SPICE_CHANNEL_ERROR_TLS, SPICE_CHANNEL_ERROR_LINK,
                            SPICE_CHANNEL_ERROR_CONNECT, SPICE_CHANNEL_ERROR_AUTH}
           then tell_delegate self (Spice_error (error_code event)
                  (case error of Some message \<Rightarrow> message | None \<Rightarrow> generic_message))
           else []))"

definition cs_main_agent_update :: "bool \<Rightarrow> bool \<Rightarrow> cs_connection \<Rightarrow> conn_event list" where
  "cs_main_agent_update agent_connected monitors_config self =
     (if agent_connected then tell_delegate self (Agent_connected monitors_config)
      else tell_delegate self Agent_disconnected)"

text \<open>Setting a wrapper's main channel takes a reference on the new one and drops the old one's.\<close>

definition swap_ref :: "objref option \<Rightarrow> objref option \<Rightarrow> objref list \<Rightarrow> objref list" where
  "swap_ref old new refs =
     (let refs1 = (case new of None \<Rightarrow> refs | Some m \<Rightarrow> m # refs)
      in case old of None \<Rightarrow> refs1 | Some m \<Rightarrow> remove1 m refs1)"

definition setSpiceMain :: "objref option \<Rightarrow> cs_connection \<Rightarrow> cs_connection" where
  "setSpiceMain new self =
     (let refs1 = (case new of None \<Rightarrow> main_refs self | Some m \<Rightarrow> m # main_refs self);
          refs2 = fold (\<lambda>w. swap_ref (wrap_main w) new) (mutableChannels self) refs1;
          refs3 = (case spiceMain self of None \<Rightarrow> refs2 | Some m \<Rightarrow> remove1 m refs2)
      in self\<lparr>spiceMain := new, main_refs := refs3,
              mutableChannels := map (\<lambda>w. w\<lparr>wrap_main := new\<rparr>) (mutableChannels self)\<rparr>)"

section \<open>Signals of displays and ports\<close>

text \<open>\<open>cfgs\<close> is the length of the monitors array, \<open>None\<close> for \<open>NULL\<close>.\<close>

definition cs_display_monitors :: "nat option \<Rightarrow> objref \<Rightarrow> cs_connection \<Rightarrow>
    (cs_connection \<times> conn_event list) outcome" where
  "cs_display_monitors cfgs channel self =
     (case cfgs of
        None \<Rightarrow> CriticalReturn
      | Some len \<Rightarrow>
          (case find (\<lambda>w. spiceChannel w = channel) (mutableChannels self) of
             None \<Rightarrow> AssertionFailure
           | Some display \<Rightarrow>
               if wrap_type display \<noteq> SPICE_CHANNEL_DISPLAY then AssertionFailure
               else if 0 < len then
                 (if len \<noteq> 1 then AssertionFailure
                  else if wrap_hasInitialConfig display
                  then Done (self, tell_delegate self (Display_updated channel))
                  else Done (self\<lparr>mutableChannels := map (\<lambda>w. if spiceChannel w = channel
                               then w\<lparr>wrap_hasInitialConfig := True\<rparr> else w) (mutableChannels self)\<rparr>,
                             tell_delegate self (Display_created channel)))
               else Done (self, tell_delegate self (Display_destroyed channel))))"

definition conn_port_opened :: "bool \<Rightarrow> objref \<Rightarrow> cs_connection \<Rightarrow> conn_event list outcome" where
  "conn_port_opened isOpen channel self =
     (case find (\<lambda>w. spiceChannel w = channel) (mutableChannels self) of
        None \<Rightarrow> AssertionFailure
      | Some port \<Rightarrow>
          if \<not> is_port_channel (wrap_type port) then AssertionFailure
          else Done (tell_delegate self (if isOpen then Port_opened channel else Port_closed channel)))"

section \<open>Channels appear and go\<close>

definition new_wrap :: "spice_channel_type \<Rightarrow> nat \<Rightarrow> objref \<Rightarrow> cs_connection \<Rightarrow> channel_wrap" where
  "new_wrap type chid channel self = \<lparr>wrap_type = type, spiceChannel = channel, channelID = chid,
     wrap_main = spiceMain self, wrap_hasInitialConfig = False, wrap_cursor = None\<rparr>"

definition register :: "channel_wrap \<Rightarrow> cs_connection \<Rightarrow> cs_connection" where
  "register w self = self\<lparr>mutableChannels := mutableChannels self @ [w],
     main_refs := swap_ref None (wrap_main w) (main_refs self)\<rparr>"

text \<open>The first element that satisfies a condition is replaced.\<close>

fun update_first :: "('a \<Rightarrow> bool) \<Rightarrow> ('a \<Rightarrow> 'a) \<Rightarrow> 'a list \<Rightarrow> 'a list" where
  "update_first P f [] = []"
| "update_first P f (x # xs) = (if P x then f x # xs else x # update_first P f xs)"

definition cs_channel_new :: "spice_channel_type \<Rightarrow> nat \<Rightarrow> objref \<Rightarrow> cs_connection \<Rightarrow>
    (cs_connection \<times> conn_event list) outcome" where
  "cs_channel_new type chid channel self =
     (if type = SPICE_CHANNEL_MAIN then
        (if spiceMain self \<noteq> None then AssertionFailure
         else Done ((setSpiceMain (Some channel) self)\<lparr>conn_handlers :=
                 (channel, Channel_event) # (channel, Agent_update) # conn_handlers self\<rparr>, []))
      else if type = SPICE_CHANNEL_DISPLAY then
        (let display = new_wrap type chid channel self;
             cursor = find (\<lambda>w. wrap_type w = SPICE_CHANNEL_CURSOR \<and> channelID w = chid) (mutableChannels self);
             paired = (case cursor of None \<Rightarrow> display | Some c \<Rightarrow> display\<lparr>wrap_cursor := Some (spiceChannel c)\<rparr>)
         in Done ((register paired self)\<lparr>conn_handlers := (channel, Notify_monitors) # conn_handlers self\<rparr>,
                  [Enable_display channel, Channel_connect channel]))
      else if type = SPICE_CHANNEL_CURSOR then
        (let self1 = register (new_wrap type chid channel self) self
         in Done (self1\<lparr>mutableChannels :=
                    update_first (\<lambda>w. wrap_type w = SPICE_CHANNEL_DISPLAY \<and> channelID w = chid)
                      (\<lambda>w. w\<lparr>wrap_cursor := Some channel\<rparr>) (mutableChannels self1)\<rparr>,
                  [Channel_connect channel]))
      else if type = SPICE_CHANNEL_INPUTS then
        Done (register (new_wrap type chid channel self) self,
              tell_delegate self (Input_available channel) @ [Channel_connect channel])
      else if type = SPICE_CHANNEL_PLAYBACK then
        (if audioEnabled self then Done (self\<lparr>audioPlayback := Some channel\<rparr>, [Channel_connect channel])
         else Done (self, []))
      else if is_port_channel type then
        Done ((register (new_wrap type chid channel self) self)\<lparr>conn_handlers :=
                (channel, Notify_port_opened) # conn_handlers self\<rparr>, [Channel_connect channel])
      else Done (self, []))"

text \<open>
  The loop of \<open>cs_channel_destroy\<close> from the last index down; removing a wrapper from the array frees
  it and the reference it owns.
\<close>

definition gone_event :: "spice_channel_type \<Rightarrow> objref \<Rightarrow> cs_connection \<Rightarrow> conn_event list" where
  "gone_event type channel self =
     (if type = SPICE_CHANNEL_DISPLAY then tell_delegate self (Display_destroyed channel)
      else if is_port_channel type then tell_delegate self (Port_closed channel)
      else if type = SPICE_CHANNEL_INPUTS then tell_delegate self (Input_unavailable channel)
      else [])"

primrec remove_wraps :: "spice_channel_type \<Rightarrow> objref \<Rightarrow> nat \<Rightarrow> cs_connection \<Rightarrow> cs_connection \<times> conn_event list" where
  "remove_wraps type channel 0 self = (self, [])"
| "remove_wraps type channel (Suc i) self =
     (let wrap = mutableChannels self ! i
      in if spiceChannel wrap = channel
         then (let self1 = self\<lparr>mutableChannels := take i (mutableChannels self) @ drop (Suc i) (mutableChannels self),
                                main_refs := swap_ref (wrap_main wrap) None (main_refs self)\<rparr>;
                   (self2, events) = remove_wraps type channel i self1
               in (self2, gone_event type channel self @ events))
         else remove_wraps type channel i self)"

definition cs_channel_destroy :: "spice_channel_type \<Rightarrow> objref \<Rightarrow> cs_connection \<Rightarrow> cs_connection \<times> conn_event list" where
  "cs_channel_destroy type channel self =
     (let self1 = (if type = SPICE_CHANNEL_MAIN
                   then (setSpiceMain None self)\<lparr>conn_handlers :=
                     filter (\<lambda>h. h \<notin> {(channel, Channel_event), (channel, Agent_update)}) (conn_handlers self)\<rparr>
                   else self);
          self2 = (if type = SPICE_CHANNEL_DISPLAY
                   then self1\<lparr>conn_handlers := filter (\<lambda>h. h \<noteq> (channel, Notify_monitors)) (conn_handlers self1)\<rparr>
                   else self1);
          self3 = (if type = SPICE_CHANNEL_PLAYBACK then self2\<lparr>audioPlayback := None\<rparr> else self2);
          self4 = (if is_port_channel type
                   then self3\<lparr>conn_handlers := filter (\<lambda>h. h \<noteq> (channel, Notify_port_opened)) (conn_handlers self3)\<rparr>
                   else self3);
          (self5, events) = remove_wraps type channel (length (mutableChannels self4)) self4
      in (self5, events @ (if mutableChannels self5 = [] then tell_delegate self5 Spice_disconnected else [])))"

section \<open>Creation, properties and destruction\<close>

definition setHost :: "string option \<Rightarrow> cs_connection \<Rightarrow> cs_connection" where
  "setHost host self = self\<lparr>sprops := (sprops self)\<lparr>sp_host := host\<rparr>\<rparr>"

definition setPort :: "string option \<Rightarrow> cs_connection \<Rightarrow> cs_connection" where
  "setPort port self = self\<lparr>sprops := (if isTLSOnly self then (sprops self)\<lparr>sp_tls_port := port\<rparr>
     else (sprops self)\<lparr>sp_port := port\<rparr>)\<rparr>"

text \<open>\<open>stringWithUTF8String:\<close> raises an exception for \<open>NULL\<close>.\<close>

definition conn_host :: "cs_connection \<Rightarrow> string outcome" where
  "conn_host self = (case sp_host (sprops self) of Some s \<Rightarrow> Done s | None \<Rightarrow> AssertionFailure)"

definition conn_port :: "cs_connection \<Rightarrow> string outcome" where
  "conn_port self = (case if isTLSOnly self then sp_tls_port (sprops self) else sp_port (sprops self) of
     Some s \<Rightarrow> Done s | None \<Rightarrow> AssertionFailure)"

definition setUnixSocketURL :: "string option \<Rightarrow> cs_connection \<Rightarrow> cs_connection" where
  "setUnixSocketURL url self =
     self\<lparr>sprops := (sprops self)\<lparr>sp_unix_path := url\<rparr>, unixSocketURL := url\<rparr>"

definition setTlsServerPublicKey :: "guint8 list option \<Rightarrow> cs_connection \<Rightarrow> cs_connection" where
  "setTlsServerPublicKey key self =
     (case key of
        None \<Rightarrow> self\<lparr>sprops := (sprops self)\<lparr>sp_pubkey := None\<rparr>\<rparr>
      | Some k \<Rightarrow> self\<lparr>sprops := (sprops self)\<lparr>sp_pubkey := Some k\<rparr>, tlsServerPublicKey := Some k\<rparr>)"

definition conn_password :: "cs_connection \<Rightarrow> string option" where
  "conn_password self = sp_password (sprops self)"

definition setPassword :: "string option \<Rightarrow> cs_connection \<Rightarrow> cs_connection" where
  "setPassword password self = self\<lparr>sprops := (sprops self)\<lparr>sp_password := password\<rparr>\<rparr>"

definition blank_connection :: cs_connection where
  "blank_connection = \<lparr>isTLSOnly = False,
     sprops = \<lparr>sp_host = None, sp_port = None, sp_tls_port = None, sp_unix_path = None, sp_pubkey = None,
               sp_password = None, sp_secure_all = False\<rparr>,
     unixSocketURL = None, tlsServerPublicKey = None, spiceMain = None, mutableChannels = [],
     audioPlayback = None, audioEnabled = False, conn_delegate = None, conn_handlers = [], main_refs = []\<rparr>"

definition finishInit :: "cs_connection \<Rightarrow> cs_connection" where
  "finishInit self = self\<lparr>mutableChannels := []\<rparr>"

definition initWithHost :: "string option \<Rightarrow> string option \<Rightarrow> cs_connection" where
  "initWithHost host port = finishInit (setPort port (setHost host blank_connection))"

definition initWithHostTLS :: "string option \<Rightarrow> string option \<Rightarrow> guint8 list option \<Rightarrow> cs_connection" where
  "initWithHostTLS host tlsPort serverPublicKey =
     (let self = setTlsServerPublicKey serverPublicKey
        (setPort tlsPort (setHost host (blank_connection\<lparr>isTLSOnly := True\<rparr>)))
      in finishInit (self\<lparr>sprops := (sprops self)\<lparr>sp_secure_all := True\<rparr>\<rparr>))"

definition initWithUnixSocketFile :: "string option \<Rightarrow> cs_connection" where
  "initWithUnixSocketFile socketFile = finishInit (setUnixSocketURL socketFile blank_connection)"

text \<open>\<open>dealloc\<close>: the loop reads \<open>self.channels[i]\<close> at every index; past the end it raises.\<close>

primrec dealloc_loop :: "nat \<Rightarrow> cs_connection \<Rightarrow> (cs_connection \<times> conn_event list) outcome" where
  "dealloc_loop 0 self = Done (self, [])"
| "dealloc_loop (Suc i) self =
     (if length (mutableChannels self) \<le> i then AssertionFailure
      else (let wrap = mutableChannels self ! i;
                (self1, events) = cs_channel_destroy (wrap_type wrap) (spiceChannel wrap) self
            in case dealloc_loop i self1 of Done (self2, es) \<Rightarrow> Done (self2, events @ es) | r \<Rightarrow> r))"

definition conn_dealloc :: "cs_connection \<Rightarrow> (cs_connection \<times> conn_event list) outcome" where
  "conn_dealloc self =
     (case dealloc_loop (length (mutableChannels self)) self of
        Done (self1, events) \<Rightarrow>
          (case spiceMain self1 of
             None \<Rightarrow> Done (self1, events)
           | Some main \<Rightarrow> (let (self2, es) = cs_channel_destroy SPICE_CHANNEL_MAIN main self1
                           in Done (self2, events @ es)))
      | r \<Rightarrow> r)"

end
