(* ===== verification/Connection_Registry.thy ===== *)
theory Connection_Registry
  imports Connection "HOL-Library.Multiset"
begin

text \<open>
  Properties of \<^verbatim>\<open>CSConnection.m\<close> over all histories of channels: the registry of wrappers and the
  references on the main channel, the pairing of displays and cursors, the order in which the
  delegate hears of displays, and deallocation.
\<close>

section \<open>Histories\<close>

text \<open>
  What the client library and the guest do to a connection with a delegate. \<open>L\<close> is the set of
  channels that exist, with type and number, \<open>E\<close> all channels there ever were, \<open>said\<close> what was said so far.
  A channel is announced once; type and number identify a living channel.
\<close>

definition wrapped :: "spice_channel_type \<Rightarrow> bool" where
  "wrapped t \<longleftrightarrow> t \<in> {SPICE_CHANNEL_DISPLAY, SPICE_CHANNEL_CURSOR, SPICE_CHANNEL_INPUTS} \<or> is_port_channel t"

inductive conn_reach :: "(objref \<times> spice_channel_type \<times> nat) set \<Rightarrow> objref set \<Rightarrow> conn_event list \<Rightarrow>
    cs_connection \<Rightarrow> bool" where
  init: "c \<in> {initWithHost h p, initWithHostTLS h p k, initWithUnixSocketFile u} \<Longrightarrow>
    conn_reach {} {} [] (c\<lparr>conn_delegate := Some d, audioEnabled := audio\<rparr>)"
| appear: "conn_reach L E said self \<Longrightarrow> ch \<notin> E \<Longrightarrow> (\<forall>c. (c, type, chid) \<notin> L) \<Longrightarrow>
    (type = SPICE_CHANNEL_MAIN \<longrightarrow> (\<forall>c i. (c, SPICE_CHANNEL_MAIN, i) \<notin> L)) \<Longrightarrow>
    cs_channel_new type chid ch self = Done (self', es) \<Longrightarrow>
    conn_reach (insert (ch, type, chid) L) (insert ch E) (said @ es) self'"
| disappear: "conn_reach L E said self \<Longrightarrow> (ch, type, chid) \<in> L \<Longrightarrow>
    cs_channel_destroy type ch self = (self', es) \<Longrightarrow>
    conn_reach (L - {(ch, type, chid)}) E (said @ es) self'"
| monitors: "conn_reach L E said self \<Longrightarrow> (ch, SPICE_CHANNEL_DISPLAY, chid) \<in> L \<Longrightarrow>
    cs_display_monitors (Some len) ch self = Done (self', es) \<Longrightarrow> conn_reach L E (said @ es) self'"
| port: "conn_reach L E said self \<Longrightarrow> (ch, type, chid) \<in> L \<Longrightarrow> is_port_channel type \<Longrightarrow>
    conn_port_opened isOpen ch self = Done es \<Longrightarrow> conn_reach L E (said @ es) self"
| main_event: "conn_reach L E said self \<Longrightarrow>
    conn_reach L E (said @ cs_main_channel_event error number self) self"
| agent: "conn_reach L E said self \<Longrightarrow>
    conn_reach L E (said @ cs_main_agent_update is_connected monitors_config self) self"

text \<open>Every update of a display comes after its creation, which is told once.\<close>

definition display_order :: "conn_event list \<Rightarrow> bool" where
  "display_order said \<longleftrightarrow> (\<forall>pre e post ch. said = pre @ e # post \<longrightarrow>
     (e = Display_updated ch \<longrightarrow> Display_created ch \<in> set pre) \<and>
     (e = Display_created ch \<longrightarrow> Display_created ch \<notin> set pre))"

definition paired :: "channel_wrap list \<Rightarrow> bool" where
  "paired chs \<longleftrightarrow> (\<forall>d\<in>set chs. \<forall>c\<in>set chs. wrap_type d = SPICE_CHANNEL_DISPLAY \<and>
     wrap_type c = SPICE_CHANNEL_CURSOR \<and> channelID d = channelID c \<longrightarrow> wrap_cursor d = Some (spiceChannel c))"

definition key :: "channel_wrap \<Rightarrow> objref \<times> spice_channel_type \<times> nat" where
  "key w = (spiceChannel w, wrap_type w, channelID w)"

definition refs_ok :: "cs_connection \<Rightarrow> bool" where
  "refs_ok self \<longleftrightarrow> (\<forall>w\<in>set (mutableChannels self). wrap_main w = spiceMain self) \<and>
     mset (main_refs self) =
       (case spiceMain self of None \<Rightarrow> {#} | Some m \<Rightarrow> replicate_mset (Suc (length (mutableChannels self))) m)"

definition conn_ok :: "(objref \<times> spice_channel_type \<times> nat) set \<Rightarrow> objref set \<Rightarrow> conn_event list \<Rightarrow>
    cs_connection \<Rightarrow> bool" where
  "conn_ok L E said self \<longleftrightarrow>
     conn_delegate self \<noteq> None \<and> fst ` L \<subseteq> E \<and> inj_on fst L \<and> inj_on snd L \<and>
     (\<forall>m. spiceMain self = Some m \<longleftrightarrow> (\<exists>i. (m, SPICE_CHANNEL_MAIN, i) \<in> L)) \<and>
     distinct (map spiceChannel (mutableChannels self)) \<and>
     key ` set (mutableChannels self) = {k \<in> L. wrapped (fst (snd k))} \<and>
     refs_ok self \<and> paired (mutableChannels self) \<and> display_order said \<and>
     (\<forall>ch. Display_created ch \<in> set said \<longrightarrow> ch \<in> E) \<and>
     (\<forall>w\<in>set (mutableChannels self). wrap_hasInitialConfig w \<longleftrightarrow> Display_created (spiceChannel w) \<in> set said)"

section \<open>Parts of the invariant\<close>

definition no_display_news :: "conn_event list \<Rightarrow> bool" where
  "no_display_news es \<longleftrightarrow> (\<forall>ch. Display_created ch \<notin> set es \<and> Display_updated ch \<notin> set es)"

lemma append_eq_snoc_cases [consumes 1]:
  assumes "said @ es = pre @ e # post"
  obtains q where "said = pre @ e # q" | q where "pre = said @ q" "es = q @ e # post"
  using assms by (auto simp: append_eq_append_conv2 append_eq_Cons_conv)

lemma display_orderD:
  "display_order (pre @ e # post) \<Longrightarrow> (e = Display_updated ch \<longrightarrow> Display_created ch \<in> set pre) \<and>
     (e = Display_created ch \<longrightarrow> Display_created ch \<notin> set pre)"
  unfolding display_order_def by blast

lemma display_order_quiet:
  assumes "display_order said" and "no_display_news es" shows "display_order (said @ es)"
  unfolding display_order_def
proof (intro allI impI)
  fix pre e post ch
  assume "said @ es = pre @ e # post"
  then show "(e = Display_updated ch \<longrightarrow> Display_created ch \<in> set pre) \<and>
    (e = Display_created ch \<longrightarrow> Display_created ch \<notin> set pre)"
  proof (cases rule: append_eq_snoc_cases)
    case 1
    with assms(1) show ?thesis by (simp add: display_orderD)
  next
    case 2
    with assms(2) show ?thesis by (auto simp: no_display_news_def)
  qed
qed

lemma display_order_snoc:
  assumes "display_order said"
    and "\<And>ch. e = Display_updated ch \<Longrightarrow> Display_created ch \<in> set said"
    and "\<And>ch. e = Display_created ch \<Longrightarrow> Display_created ch \<notin> set said"
  shows "display_order (said @ [e])"
  unfolding display_order_def
proof (intro allI impI)
  fix pre e' post ch
  assume "said @ [e] = pre @ e' # post"
  then show "(e' = Display_updated ch \<longrightarrow> Display_created ch \<in> set pre) \<and>
    (e' = Display_created ch \<longrightarrow> Display_created ch \<notin> set pre)"
  proof (cases rule: append_eq_snoc_cases)
    case 1
    with assms(1) show ?thesis by (simp add: display_orderD)
  next
    case (2 q)
    then have "q = []" "e' = e" by (auto simp: append_eq_Cons_conv Cons_eq_append_conv)
    with 2 assms(2,3) show ?thesis by simp
  qed
qed

lemma mset_fold_take:
  "\<forall>w\<in>set ws. wrap_main w = None \<Longrightarrow>
     mset (fold (\<lambda>w. swap_ref (wrap_main w) (Some m)) ws r) = mset r + replicate_mset (length ws) m"
  by (induction ws arbitrary: r) (simp_all add: swap_ref_def)

lemma mset_fold_drop:
  "\<forall>w\<in>set ws. wrap_main w = Some m \<Longrightarrow>
     mset (fold (\<lambda>w. swap_ref (wrap_main w) None) ws r) = mset r - replicate_mset (length ws) m"
  by (induction ws arbitrary: r) (simp_all add: swap_ref_def)

lemma refs_ok_set_main:
  "refs_ok self \<Longrightarrow> spiceMain self = None \<Longrightarrow> refs_ok (setSpiceMain (Some m) self)"
  "refs_ok self \<Longrightarrow> refs_ok (setSpiceMain None self)"
proof -
  assume ok: "refs_ok self"
  { assume none: "spiceMain self = None"
    then have "\<forall>w\<in>set (mutableChannels self). wrap_main w = None" "mset (main_refs self) = {#}"
      using ok by (simp_all add: refs_ok_def)
    with none mset_fold_take[OF this(1), of m "[m]"] show "refs_ok (setSpiceMain (Some m) self)"
      by (simp add: refs_ok_def setSpiceMain_def) }
  show "refs_ok (setSpiceMain None self)"
  proof (cases "spiceMain self")
    case None
    have "fold (\<lambda>w. swap_ref (wrap_main w) None) ws r = r" if "\<forall>w\<in>set ws. wrap_main w = None" for ws r
      using that by (induction ws arbitrary: r) (simp_all add: swap_ref_def)
    from this[of "mutableChannels self" "main_refs self"]
    show ?thesis using None ok by (simp add: refs_ok_def setSpiceMain_def)
  next
    case (Some m)
    then have "\<forall>w\<in>set (mutableChannels self). wrap_main w = Some m"
      "mset (main_refs self) = replicate_mset (Suc (length (mutableChannels self))) m"
      using ok by (simp_all add: refs_ok_def)
    with Some mset_fold_drop[OF this(1), of "main_refs self"] show ?thesis
      by (simp add: refs_ok_def setSpiceMain_def)
  qed
qed

lemma refs_ok_register:
  "refs_ok self \<Longrightarrow> wrap_main w = spiceMain self \<Longrightarrow> refs_ok (register w self)"
  by (auto simp: refs_ok_def register_def swap_ref_def split: option.splits)

lemma setSpiceMain_frame [simp]:
  "map spiceChannel (mutableChannels (setSpiceMain m self)) = map spiceChannel (mutableChannels self)"
  "key ` set (mutableChannels (setSpiceMain m self)) = key ` set (mutableChannels self)"
  "spiceMain (setSpiceMain m self) = m" "conn_delegate (setSpiceMain m self) = conn_delegate self"
  "paired (mutableChannels (setSpiceMain m self)) = paired (mutableChannels self)"
  by (auto simp: setSpiceMain_def Let_def key_def paired_def image_image)

section \<open>Removing a wrapper\<close>

lemma remove_wraps_none:
  "(\<forall>i<n. spiceChannel (mutableChannels self ! i) \<noteq> ch) \<Longrightarrow> remove_wraps type ch n self = (self, [])"
  by (induction n) (simp_all add: Let_def)

lemma remove_wraps_one:
  assumes "distinct (map spiceChannel (mutableChannels self))" and "i < n" and "n \<le> length (mutableChannels self)"
    and "spiceChannel (mutableChannels self ! i) = ch"
  shows "remove_wraps type ch n self =
    (self\<lparr>mutableChannels := take i (mutableChannels self) @ drop (Suc i) (mutableChannels self),
          main_refs := swap_ref (wrap_main (mutableChannels self ! i)) None (main_refs self)\<rparr>,
     gone_event type ch self)"
  using assms
proof (induction n)
  case (Suc n)
  have other: "spiceChannel (mutableChannels self ! k) \<noteq> ch" if "k < length (mutableChannels self)" "k \<noteq> i" for k
    using that Suc.prems nth_eq_iff_index_eq[of "map spiceChannel (mutableChannels self)" k i] by simp
  show ?case
  proof (cases "n = i")
    case True
    have "remove_wraps type ch i (self\<lparr>mutableChannels := take i (mutableChannels self) @ drop (Suc i) (mutableChannels self),
        main_refs := r\<rparr>) = (self\<lparr>mutableChannels := take i (mutableChannels self) @ drop (Suc i) (mutableChannels self),
        main_refs := r\<rparr>, [])" for r
      using Suc.prems other by (intro remove_wraps_none) (simp add: nth_append)
    with True Suc.prems(4) show ?thesis by (simp add: Let_def)
  next
    case False
    with Suc.prems other[of n] show ?thesis using Suc.IH by (simp add: Let_def)
  qed
qed simp

lemma filter_index:
  "distinct (map f xs) \<Longrightarrow> i < length xs \<Longrightarrow>
     take i xs @ drop (Suc i) xs = filter (\<lambda>x. f x \<noteq> f (xs ! i)) xs"
proof (induction xs arbitrary: i)
  case (Cons x xs)
  show ?case
  proof (cases i)
    case 0
    have "filter (\<lambda>y. f y \<noteq> f x) xs = xs" using Cons.prems by (intro filter_True) (force simp: image_iff)
    with 0 show ?thesis by simp
  next
    case (Suc k)
    with Cons.prems have "f x \<noteq> f (xs ! k)" by auto
    with Suc Cons show ?thesis by simp
  qed
qed simp

text \<open>What one pass of the loop does to a registry of distinct channels.\<close>

lemma remove_wraps_all:
  assumes "distinct (map spiceChannel (mutableChannels self))" and "refs_ok self"
  shows "\<exists>self' es. remove_wraps type ch (length (mutableChannels self)) self = (self', es) \<and>
    mutableChannels self' = filter (\<lambda>w. spiceChannel w \<noteq> ch) (mutableChannels self) \<and> refs_ok self' \<and>
    self' = self\<lparr>mutableChannels := mutableChannels self', main_refs := main_refs self'\<rparr> \<and>
    es = (if ch \<in> spiceChannel ` set (mutableChannels self) then gone_event type ch self else [])"
proof (cases "ch \<in> spiceChannel ` set (mutableChannels self)")
  case False
  then have "remove_wraps type ch (length (mutableChannels self)) self = (self, [])"
    by (intro remove_wraps_none) (metis imageI nth_mem)
  moreover have "filter (\<lambda>w. spiceChannel w \<noteq> ch) (mutableChannels self) = mutableChannels self"
    using False by (auto simp: filter_id_conv)
  ultimately show ?thesis using False assms(2) by simp
next
  case True
  then obtain i where i: "i < length (mutableChannels self)" "spiceChannel (mutableChannels self ! i) = ch"
    by (auto simp: in_set_conv_nth)
  let ?chs = "take i (mutableChannels self) @ drop (Suc i) (mutableChannels self)"
  have chs: "?chs = filter (\<lambda>w. spiceChannel w \<noteq> ch) (mutableChannels self)"
    using filter_index[OF assms(1) i(1)] by (simp only: i(2))
  have len: "length (mutableChannels self) = Suc (length ?chs)" using i(1) by simp
  have main: "wrap_main (mutableChannels self ! i) = spiceMain self" using assms(2) i(1) by (simp add: refs_ok_def)
  have "set ?chs \<subseteq> set (mutableChannels self)" unfolding chs by auto
  then have "refs_ok (self\<lparr>mutableChannels := ?chs,
      main_refs := swap_ref (wrap_main (mutableChannels self ! i)) None (main_refs self)\<rparr>)"
    using assms(2) unfolding main refs_ok_def len
    by (cases "spiceMain self") (auto simp: swap_ref_def simp del: take_append drop_append)
  with remove_wraps_one[OF assms(1) i(1) order_refl i(2)] True chs show ?thesis by simp
qed

section \<open>The invariant\<close>

lemma key_unique:
  assumes "conn_ok L E said self" and "w \<in> set (mutableChannels self)" and "w' \<in> set (mutableChannels self)"
    and "wrap_type w = wrap_type w'" and "channelID w = channelID w'"
  shows "w = w'"
proof -
  have L: "key w \<in> L" "key w' \<in> L" using assms(1-3) unfolding conn_ok_def by blast+
  have "inj_on snd L" "distinct (map spiceChannel (mutableChannels self))" using assms(1) by (auto simp: conn_ok_def)
  have "key w = key w'"
    using L assms(4,5) by (intro inj_onD[OF \<open>inj_on snd L\<close>]) (simp_all add: key_def)
  then have "spiceChannel w = spiceChannel w'" by (simp add: key_def)
  with assms(2,3) \<open>distinct _\<close> show ?thesis by (auto simp: distinct_map inj_on_def)
qed

lemma registered:
  assumes "conn_ok L E said self" and "(ch, type, chid) \<in> L" and "wrapped type"
  obtains w where "w \<in> set (mutableChannels self)" "spiceChannel w = ch" "wrap_type w = type" "channelID w = chid"
    "find (\<lambda>w. spiceChannel w = ch) (mutableChannels self) = Some w"
proof -
  have "(ch, type, chid) \<in> key ` set (mutableChannels self)" using assms by (simp add: conn_ok_def)
  then obtain w where w: "w \<in> set (mutableChannels self)" "spiceChannel w = ch" "wrap_type w = type" "channelID w = chid"
    by (auto simp: key_def)
  have "find (\<lambda>w. spiceChannel w = ch) (mutableChannels self) = Some w"
  proof (cases "find (\<lambda>w. spiceChannel w = ch) (mutableChannels self)")
    case None
    with w show ?thesis by (auto simp: find_None_iff)
  next
    case (Some v)
    then have "v \<in> set (mutableChannels self)" "spiceChannel v = ch" by (auto simp: find_Some_iff)
    moreover have "distinct (map spiceChannel (mutableChannels self))" using assms(1) by (simp add: conn_ok_def)
    ultimately have "v = w" using w by (auto simp: distinct_map inj_on_def)
    with Some show ?thesis by simp
  qed
  with w that show thesis by blast
qed

lemma conn_ok_said:
  assumes "conn_ok L E said self" and "no_display_news es" shows "conn_ok L E (said @ es) self"
  using assms display_order_quiet[of said es] unfolding conn_ok_def by (auto simp: no_display_news_def)

lemma quiet_events [simp]:
  "no_display_news []" "no_display_news (cs_main_channel_event error number self)"
  "no_display_news (cs_main_agent_update c m self)"
  by (auto simp: no_display_news_def cs_main_channel_event_def cs_main_agent_update_def tell_delegate_def
      split: option.splits if_splits)

text \<open>A registered wrapper whose key is new: the common part of every arrival.\<close>

lemma conn_ok_register:
  assumes ok: "conn_ok L E said self" and new: "ch \<notin> E" "\<forall>c. (c, type, chid) \<notin> L" "wrapped type"
    and w: "spiceChannel w = ch" "wrap_type w = type" "channelID w = chid" "wrap_main w = spiceMain self"
      "\<not> wrap_hasInitialConfig w"
    and pair: "paired (mutableChannels self @ [w])"
  shows "conn_ok (insert (ch, type, chid) L) (insert ch E) said (register w self)"
proof -
  have fresh: "ch \<notin> fst ` L" using ok new(1) by (auto simp: conn_ok_def)
  have "spiceChannel ` set (mutableChannels self) \<subseteq> fst ` L"
  proof
    fix c assume "c \<in> spiceChannel ` set (mutableChannels self)"
    then obtain v where v: "v \<in> set (mutableChannels self)" "c = spiceChannel v" by blast
    then have "key v \<in> L" using ok unfolding conn_ok_def by blast
    with v show "c \<in> fst ` L" by (force simp: key_def)
  qed
  with fresh have dist: "distinct (map spiceChannel (mutableChannels self @ [w]))"
    using ok w(1) by (auto simp: conn_ok_def)
  have inj: "inj_on fst (insert (ch, type, chid) L)" "inj_on snd (insert (ch, type, chid) L)"
    using ok new(2) fresh by (auto simp: conn_ok_def inj_on_def image_iff)
  have keys: "key ` set (mutableChannels self @ [w]) = {k \<in> insert (ch, type, chid) L. wrapped (fst (snd k))}"
  proof -
    have "key ` set (mutableChannels self) = {k \<in> L. wrapped (fst (snd k))}" using ok by (simp add: conn_ok_def)
    moreover have "key w = (ch, type, chid)" using w by (simp add: key_def)
    ultimately show ?thesis using new(3) by auto
  qed
  have "type \<noteq> SPICE_CHANNEL_MAIN" using new(3) by (auto simp: wrapped_def is_port_channel_def)
  moreover have "Display_created ch \<notin> set said" using ok new(1) by (auto simp: conn_ok_def)
  moreover have "refs_ok (register w self)" using ok w(4) by (intro refs_ok_register) (simp_all add: conn_ok_def)
  ultimately show ?thesis
    using ok dist inj keys pair w(1,5) unfolding conn_ok_def register_def by (auto simp: conn_ok_def)
qed

lemma conn_ok_frame [simp]:
  "conn_ok L E said (self\<lparr>conn_handlers := h\<rparr>) = conn_ok L E said self"
  "conn_ok L E said (self\<lparr>audioPlayback := a\<rparr>) = conn_ok L E said self"
proof -
  have "refs_ok (self\<lparr>conn_handlers := h\<rparr>) = refs_ok self" "refs_ok (self\<lparr>audioPlayback := a\<rparr>) = refs_ok self"
    by (simp_all add: refs_ok_def split: option.split)
  then show "conn_ok L E said (self\<lparr>conn_handlers := h\<rparr>) = conn_ok L E said self"
    "conn_ok L E said (self\<lparr>audioPlayback := a\<rparr>) = conn_ok L E said self"
    by (simp_all add: conn_ok_def)
qed

lemma conn_ok_map:
  assumes "conn_ok L E said self" and "paired (map f (mutableChannels self))"
    and "\<And>w. key (f w) = key w" and "\<And>w. wrap_main (f w) = wrap_main w"
    and "\<And>w. w \<in> set (mutableChannels self) \<Longrightarrow> wrap_hasInitialConfig (f w) = wrap_hasInitialConfig w"
  shows "conn_ok L E said (self\<lparr>mutableChannels := map f (mutableChannels self)\<rparr>)"
proof -
  have ch: "spiceChannel (f w) = spiceChannel w" for w using assms(3)[of w] by (simp add: key_def)
  then have "spiceChannel \<circ> f = spiceChannel" by (simp add: fun_eq_iff)
  moreover have "key ` set (map f (mutableChannels self)) = key ` set (mutableChannels self)"
    by (simp add: image_image assms(3))
  moreover have "refs_ok (self\<lparr>mutableChannels := map f (mutableChannels self)\<rparr>)"
  proof -
    have "refs_ok self" using assms(1) by (simp add: conn_ok_def)
    then show ?thesis by (cases "spiceMain self") (simp_all add: refs_ok_def assms(4))
  qed
  ultimately show ?thesis using assms(1,2,5) by (simp add: conn_ok_def ch)
qed

lemma paired_display:
  assumes ok: "conn_ok L E said self" and w: "wrap_type w = SPICE_CHANNEL_DISPLAY"
    and cur: "wrap_cursor w = map_option spiceChannel
      (find (\<lambda>c. wrap_type c = SPICE_CHANNEL_CURSOR \<and> channelID c = channelID w) (mutableChannels self))"
  shows "paired (mutableChannels self @ [w])"
proof -
  have "wrap_cursor w = Some (spiceChannel c)"
    if c: "c \<in> set (mutableChannels self)" "wrap_type c = SPICE_CHANNEL_CURSOR" "channelID c = channelID w" for c
  proof (cases "find (\<lambda>c. wrap_type c = SPICE_CHANNEL_CURSOR \<and> channelID c = channelID w) (mutableChannels self)")
    case None
    with c show ?thesis by (auto simp: find_None_iff)
  next
    case (Some v)
    then have "v \<in> set (mutableChannels self)" "wrap_type v = SPICE_CHANNEL_CURSOR" "channelID v = channelID w"
      by (auto simp: find_Some_iff)
    with key_unique[OF ok this(1) c(1)] c have "v = c" by simp
    with Some cur show ?thesis by simp
  qed
  moreover have "paired (mutableChannels self)" using ok by (simp add: conn_ok_def)
  ultimately show ?thesis using w by (auto simp: paired_def)
qed

lemma paired_other:
  "paired chs \<Longrightarrow> wrap_type w \<notin> {SPICE_CHANNEL_DISPLAY, SPICE_CHANNEL_CURSOR} \<Longrightarrow> paired (chs @ [w])"
  by (auto simp: paired_def)

text \<open>The cursor's arrival: the display of its number, if any, gets it.\<close>

lemma cursor_arrival:
  assumes ok: "conn_ok L E said self" and new: "\<forall>c. (c, SPICE_CHANNEL_CURSOR, chid) \<notin> L"
    and w: "wrap_type w = SPICE_CHANNEL_CURSOR" "channelID w = chid"
  defines "f \<equiv> \<lambda>v. if wrap_type v = SPICE_CHANNEL_DISPLAY \<and> channelID v = chid
      then v\<lparr>wrap_cursor := Some (spiceChannel w)\<rparr> else v"
  shows "conn_ok L E said (self\<lparr>mutableChannels := map f (mutableChannels self)\<rparr>)"
    and "paired (map f (mutableChannels self) @ [w])"
    and "update_first (\<lambda>w. wrap_type w = SPICE_CHANNEL_DISPLAY \<and> channelID w = chid)
           (\<lambda>v. v\<lparr>wrap_cursor := Some (spiceChannel w)\<rparr>) (mutableChannels self @ [w]) = map f (mutableChannels self) @ [w]"
proof -
  have f: "wrap_type (f v) = wrap_type v" "channelID (f v) = channelID v" "spiceChannel (f v) = spiceChannel v"
    "wrap_main (f v) = wrap_main v" "wrap_hasInitialConfig (f v) = wrap_hasInitialConfig v" "key (f v) = key v" for v
    by (simp_all add: f_def key_def)
  have no: "\<not> (wrap_type c = SPICE_CHANNEL_CURSOR \<and> channelID c = chid)" if "c \<in> set (mutableChannels self)" for c
  proof
    assume "wrap_type c = SPICE_CHANNEL_CURSOR \<and> channelID c = chid"
    then have "key c = (spiceChannel c, SPICE_CHANNEL_CURSOR, chid)" by (simp add: key_def)
    moreover have "key c \<in> L" using ok that unfolding conn_ok_def by blast
    ultimately show False using new by simp
  qed
  have pair: "paired (mutableChannels self)" using ok by (simp add: conn_ok_def)
  have old: "wrap_cursor (f d) = Some (spiceChannel c)"
    if "d \<in> set (mutableChannels self)" "c \<in> set (mutableChannels self)" "wrap_type d = SPICE_CHANNEL_DISPLAY"
      "wrap_type c = SPICE_CHANNEL_CURSOR" "channelID d = channelID c" for d c
    using that no[of c] pair by (auto simp: f_def paired_def)
  then have "paired (map f (mutableChannels self))" by (auto simp: paired_def f)
  with ok f show "conn_ok L E said (self\<lparr>mutableChannels := map f (mutableChannels self)\<rparr>)"
    by (intro conn_ok_map)
  show "paired (map f (mutableChannels self) @ [w])"
    using old w by (auto simp: paired_def f) (simp add: f_def)
  have "update_first (\<lambda>w. wrap_type w = SPICE_CHANNEL_DISPLAY \<and> channelID w = chid)
      (\<lambda>v. v\<lparr>wrap_cursor := Some (spiceChannel w)\<rparr>) xs = map f xs"
    if "set xs \<subseteq> set (mutableChannels self)" "distinct xs" for xs
    using that
  proof (induction xs)
    case (Cons x xs)
    show ?case
    proof (cases "wrap_type x = SPICE_CHANNEL_DISPLAY \<and> channelID x = chid")
      case True
      have "map f xs = xs"
      proof (rule map_idI)
        fix v assume "v \<in> set xs"
        with Cons.prems have "v \<noteq> x" "v \<in> set (mutableChannels self)" "x \<in> set (mutableChannels self)" by auto
        with key_unique[OF ok, of v x] True show "f v = v" by (auto simp: f_def)
      qed
      with True show ?thesis by (simp add: f_def)
    next
      case False
      then have "f x = x" unfolding f_def by (rule if_not_P)
      moreover have "update_first (\<lambda>w. wrap_type w = SPICE_CHANNEL_DISPLAY \<and> channelID w = chid)
          (\<lambda>v. v\<lparr>wrap_cursor := Some (spiceChannel w)\<rparr>) xs = map f xs" using Cons by simp
      ultimately show ?thesis using False by auto
    qed
  qed simp
  moreover have "distinct (mutableChannels self)" using ok by (auto simp: conn_ok_def distinct_map)
  moreover have "update_first P g (xs @ [w]) = update_first P g xs @ [w]" if "\<not> P w" for P g and xs :: "channel_wrap list"
    using that by (induction xs) simp_all
  ultimately show "update_first (\<lambda>w. wrap_type w = SPICE_CHANNEL_DISPLAY \<and> channelID w = chid)
      (\<lambda>v. v\<lparr>wrap_cursor := Some (spiceChannel w)\<rparr>) (mutableChannels self @ [w]) = map f (mutableChannels self) @ [w]"
    using w by simp
qed

lemma conn_ok_unwrapped:
  assumes "conn_ok L E said self" and "ch \<notin> E" and "\<forall>c. (c, type, chid) \<notin> L" and "\<not> wrapped type"
    and "type \<noteq> SPICE_CHANNEL_MAIN"
  shows "conn_ok (insert (ch, type, chid) L) (insert ch E) said self"
proof -
  have "inj_on fst (insert (ch, type, chid) L)" "inj_on snd (insert (ch, type, chid) L)"
    using assms(1-3) by (auto simp: conn_ok_def inj_on_def image_iff)
  moreover have "key ` set (mutableChannels self) = {k \<in> insert (ch, type, chid) L. wrapped (fst (snd k))}"
    using assms(1,4) by (auto simp: conn_ok_def)
  ultimately show ?thesis using assms unfolding conn_ok_def by auto
qed

lemma conn_ok_main:
  assumes ok: "conn_ok L E said self" and new: "ch \<notin> E" "\<forall>c i. (c, SPICE_CHANNEL_MAIN, i) \<notin> L"
  shows "spiceMain self = None"
    and "conn_ok (insert (ch, SPICE_CHANNEL_MAIN, chid) L) (insert ch E) said (setSpiceMain (Some ch) self)"
proof -
  show none: "spiceMain self = None" using ok new(2) unfolding conn_ok_def by (metis not_Some_eq)
  have "inj_on fst (insert (ch, SPICE_CHANNEL_MAIN, chid) L)" "inj_on snd (insert (ch, SPICE_CHANNEL_MAIN, chid) L)"
    using ok new by (auto simp: conn_ok_def inj_on_def image_iff)
  moreover have "key ` set (mutableChannels self) = {k \<in> insert (ch, SPICE_CHANNEL_MAIN, chid) L. wrapped (fst (snd k))}"
    using ok by (auto simp: conn_ok_def wrapped_def is_port_channel_def)
  moreover have "refs_ok (setSpiceMain (Some ch) self)" using ok none by (simp add: conn_ok_def refs_ok_set_main)
  moreover have "wrap_hasInitialConfig w \<longleftrightarrow> Display_created (spiceChannel w) \<in> set said"
    if w: "w \<in> set (mutableChannels (setSpiceMain (Some ch) self))" for w
  proof -
    obtain v where "v \<in> set (mutableChannels self)" "w = v\<lparr>wrap_main := Some ch\<rparr>"
      using w by (auto simp: setSpiceMain_def Let_def)
    with ok show ?thesis by (simp add: conn_ok_def)
  qed
  ultimately show "conn_ok (insert (ch, SPICE_CHANNEL_MAIN, chid) L) (insert ch E) said (setSpiceMain (Some ch) self)"
    using ok new(2) unfolding conn_ok_def by auto
qed

lemma conn_ok_appear:
  assumes ok: "conn_ok L E said self" and new: "ch \<notin> E" "\<forall>c. (c, type, chid) \<notin> L"
    and main: "type = SPICE_CHANNEL_MAIN \<longrightarrow> (\<forall>c i. (c, SPICE_CHANNEL_MAIN, i) \<notin> L)"
  shows "\<exists>self' es. cs_channel_new type chid ch self = Done (self', es) \<and>
    conn_ok (insert (ch, type, chid) L) (insert ch E) (said @ es) self'"
proof -
  have w: "spiceChannel (new_wrap type chid ch self) = ch" "wrap_type (new_wrap type chid ch self) = type"
    "channelID (new_wrap type chid ch self) = chid" "wrap_main (new_wrap type chid ch self) = spiceMain self"
    "\<not> wrap_hasInitialConfig (new_wrap type chid ch self)"
    by (simp_all add: new_wrap_def)
  have pair: "paired (mutableChannels self)" using ok by (simp add: conn_ok_def)
  consider "type = SPICE_CHANNEL_MAIN" | "type = SPICE_CHANNEL_DISPLAY" | "type = SPICE_CHANNEL_CURSOR"
    | "type = SPICE_CHANNEL_INPUTS" | "is_port_channel type"
    | "\<not> wrapped type" "type \<noteq> SPICE_CHANNEL_MAIN" by (auto simp: wrapped_def)
  then show ?thesis
  proof cases
    case 1
    with conn_ok_main[OF ok new(1)] main show ?thesis by (simp add: cs_channel_new_def)
  next
    case 2
    let ?w = "(new_wrap type chid ch self)\<lparr>wrap_cursor := map_option spiceChannel
      (find (\<lambda>c. wrap_type c = SPICE_CHANNEL_CURSOR \<and> channelID c = chid) (mutableChannels self))\<rparr>"
    have "paired (mutableChannels self @ [?w])" using 2 w by (intro paired_display[OF ok]) simp_all
    then have "conn_ok (insert (ch, type, chid) L) (insert ch E) said (register ?w self)"
      using 2 w by (intro conn_ok_register[OF ok new]) (simp_all add: wrapped_def)
    then have "conn_ok (insert (ch, type, chid) L) (insert ch E) (said @ [Enable_display ch, Channel_connect ch])
        (register ?w self)" by (rule conn_ok_said) (simp add: no_display_news_def)
    moreover have "cs_channel_new type chid ch self =
        Done ((register ?w self)\<lparr>conn_handlers := (ch, Notify_monitors) # conn_handlers self\<rparr>,
          [Enable_display ch, Channel_connect ch])"
      using 2 by (cases "find (\<lambda>c. wrap_type c = SPICE_CHANNEL_CURSOR \<and> channelID c = chid) (mutableChannels self)")
        (simp_all add: cs_channel_new_def new_wrap_def Let_def)
    ultimately show ?thesis by simp
  next
    case 3
    let ?w = "new_wrap type chid ch self"
    let ?f = "\<lambda>v. if wrap_type v = SPICE_CHANNEL_DISPLAY \<and> channelID v = chid
      then v\<lparr>wrap_cursor := Some (spiceChannel ?w)\<rparr> else v"
    let ?self = "self\<lparr>mutableChannels := map ?f (mutableChannels self)\<rparr>"
    have arrival: "conn_ok L E said ?self" "paired (map ?f (mutableChannels self) @ [?w])"
      "update_first (\<lambda>w. wrap_type w = SPICE_CHANNEL_DISPLAY \<and> channelID w = chid)
         (\<lambda>v. v\<lparr>wrap_cursor := Some (spiceChannel ?w)\<rparr>) (mutableChannels self @ [?w]) = map ?f (mutableChannels self) @ [?w]"
      using cursor_arrival[OF ok, of chid ?w] new(2) w 3 by simp_all
    have "conn_ok (insert (ch, type, chid) L) (insert ch E) said (register ?w ?self)"
      using 3 w arrival(2) by (intro conn_ok_register[OF arrival(1) new]) (simp_all add: wrapped_def)
    then have "conn_ok (insert (ch, type, chid) L) (insert ch E) (said @ [Channel_connect ch]) (register ?w ?self)"
      by (rule conn_ok_said) (simp add: no_display_news_def)
    moreover have "cs_channel_new type chid ch self = Done (register ?w ?self, [Channel_connect ch])"
      using 3 arrival(3) w by (simp add: cs_channel_new_def register_def Let_def)
    ultimately show ?thesis by simp
  next
    case 4
    have "conn_ok (insert (ch, type, chid) L) (insert ch E) said (register (new_wrap type chid ch self) self)"
      using 4 w pair by (intro conn_ok_register[OF ok new]) (simp_all add: wrapped_def paired_other)
    then have "conn_ok (insert (ch, type, chid) L) (insert ch E)
        (said @ tell_delegate self (Input_available ch) @ [Channel_connect ch]) (register (new_wrap type chid ch self) self)"
      by (rule conn_ok_said) (simp add: no_display_news_def tell_delegate_def)
    with 4 show ?thesis by (simp add: cs_channel_new_def)
  next
    case 5
    then have t: "type = SPICE_CHANNEL_PORT \<or> type = SPICE_CHANNEL_WEBDAV" by (simp add: is_port_channel_def)
    have "conn_ok (insert (ch, type, chid) L) (insert ch E) said (register (new_wrap type chid ch self) self)"
      using 5 t w pair by (intro conn_ok_register[OF ok new]) (auto simp: wrapped_def paired_other)
    then have "conn_ok (insert (ch, type, chid) L) (insert ch E) (said @ [Channel_connect ch])
        (register (new_wrap type chid ch self) self)"
      by (rule conn_ok_said) (simp add: no_display_news_def)
    with 5 t show ?thesis by (auto simp: cs_channel_new_def)
  next
    case 6
    have "conn_ok (insert (ch, type, chid) L) (insert ch E) said self"
      "conn_ok (insert (ch, type, chid) L) (insert ch E) (said @ [Channel_connect ch]) self"
      using conn_ok_unwrapped[OF ok new 6] conn_ok_said[OF conn_ok_unwrapped[OF ok new 6], of "[Channel_connect ch]"]
      by (simp_all add: no_display_news_def)
    moreover have "\<not> is_port_channel type" "type \<notin> {SPICE_CHANNEL_DISPLAY, SPICE_CHANNEL_CURSOR, SPICE_CHANNEL_INPUTS}"
      using 6 by (auto simp: wrapped_def)
    ultimately show ?thesis using 6(2) by (auto simp: cs_channel_new_def)
  qed
qed

lemma gone_event_quiet [simp]: "no_display_news (gone_event type ch self)" "no_display_news (tell_delegate self Spice_disconnected)"
  by (auto simp: gone_event_def tell_delegate_def no_display_news_def)

lemma no_display_news_append [simp]: "no_display_news (xs @ ys) \<longleftrightarrow> no_display_news xs \<and> no_display_news ys"
  by (auto simp: no_display_news_def)

lemma conn_ok_filter:
  assumes ok: "conn_ok L E said self" and L: "(ch, type, chid) \<in> L" and not_main: "type \<noteq> SPICE_CHANNEL_MAIN"
    and chs: "mutableChannels self' = filter (\<lambda>w. spiceChannel w \<noteq> ch) (mutableChannels self)"
    and refs: "refs_ok self'" and self': "self' = self\<lparr>mutableChannels := mutableChannels self', main_refs := main_refs self'\<rparr>"
  shows "conn_ok (L - {(ch, type, chid)}) E said self'"
proof -
  have same: "conn_delegate self' = conn_delegate self" "spiceMain self' = spiceMain self"
    by (subst self', simp)+
  have unique: "k = (ch, type, chid)" if "k \<in> L" "fst k = ch" for k
    using ok L that by (auto simp: conn_ok_def inj_on_def)
  have "key ` set (mutableChannels self') = {k \<in> L - {(ch, type, chid)}. wrapped (fst (snd k))}"
  proof -
    have "set (mutableChannels self') = {w \<in> set (mutableChannels self). fst (key w) \<noteq> ch}"
      by (simp add: chs key_def)
    then have "key ` set (mutableChannels self') = {k \<in> key ` set (mutableChannels self). fst k \<noteq> ch}"
      by blast
    moreover have "key ` set (mutableChannels self) = {k \<in> L. wrapped (fst (snd k))}"
      using ok by (simp add: conn_ok_def)
    ultimately have "key ` set (mutableChannels self') = {k \<in> L. wrapped (fst (snd k)) \<and> fst k \<noteq> ch}" by simp
    also have "\<dots> = {k \<in> L - {(ch, type, chid)}. wrapped (fst (snd k))}"
    proof (rule Collect_cong)
      fix k show "k \<in> L \<and> wrapped (fst (snd k)) \<and> fst k \<noteq> ch \<longleftrightarrow>
          k \<in> L - {(ch, type, chid)} \<and> wrapped (fst (snd k))" using unique[of k] by (cases k) auto
    qed
    finally show ?thesis .
  qed
  moreover have "distinct (map spiceChannel (mutableChannels self'))"
    using ok by (simp add: chs conn_ok_def distinct_map_filter)
  moreover have "paired (mutableChannels self')" using ok by (auto simp: chs conn_ok_def paired_def)
  moreover have "inj_on fst (L - {(ch, type, chid)})" "inj_on snd (L - {(ch, type, chid)})" "fst ` (L - {(ch, type, chid)}) \<subseteq> E"
    using ok by (auto simp: conn_ok_def intro: inj_on_subset)
  moreover have "(\<exists>i. (m, SPICE_CHANNEL_MAIN, i) \<in> L - {(ch, type, chid)}) \<longleftrightarrow> (\<exists>i. (m, SPICE_CHANNEL_MAIN, i) \<in> L)" for m
    using not_main by auto
  ultimately show ?thesis using ok refs same by (simp add: conn_ok_def) (simp add: chs)
qed

lemma conn_ok_main_gone:
  assumes ok: "conn_ok L E said self" and L: "(ch, SPICE_CHANNEL_MAIN, chid) \<in> L"
  shows "conn_ok (L - {(ch, SPICE_CHANNEL_MAIN, chid)}) E said (setSpiceMain None self)"
    and "ch \<notin> spiceChannel ` set (mutableChannels self)"
proof -
  have only: "k = (ch, SPICE_CHANNEL_MAIN, chid)" if kL: "k \<in> L" "fst (snd k) = SPICE_CHANNEL_MAIN" for k
  proof -
    obtain c i where k: "k = (c, SPICE_CHANNEL_MAIN, i)" using kL(2) by (cases k) auto
    have main: "spiceMain self = Some m \<longleftrightarrow> (\<exists>i. (m, SPICE_CHANNEL_MAIN, i) \<in> L)" for m using ok by (simp add: conn_ok_def)
    have "spiceMain self = Some c" unfolding main using k kL(1) by blast
    moreover have "spiceMain self = Some ch" unfolding main using L by blast
    ultimately have "c = ch" by simp
    then have "fst k = fst (ch, SPICE_CHANNEL_MAIN, chid)" using k by simp
    moreover have "inj_on fst L" using ok by (simp add: conn_ok_def)
    ultimately show ?thesis using inj_onD[of fst L k "(ch, SPICE_CHANNEL_MAIN, chid)"] kL(1) L by blast
  qed
  have not_wrapped: "\<not> wrapped SPICE_CHANNEL_MAIN" by (simp add: wrapped_def is_port_channel_def)
  show "ch \<notin> spiceChannel ` set (mutableChannels self)"
  proof
    assume "ch \<in> spiceChannel ` set (mutableChannels self)"
    then obtain w where w: "w \<in> set (mutableChannels self)" "spiceChannel w = ch" by auto
    then have "key w \<in> {k \<in> L. wrapped (fst (snd k))}" using ok unfolding conn_ok_def by blast
    then have k: "key w \<in> L" "wrapped (wrap_type w)" by (simp_all add: key_def)
    have "fst (key w) = fst (ch, SPICE_CHANNEL_MAIN, chid)" using w by (simp add: key_def)
    moreover have "inj_on fst L" using ok by (simp add: conn_ok_def)
    ultimately have "key w = (ch, SPICE_CHANNEL_MAIN, chid)"
      using inj_onD[of fst L "key w" "(ch, SPICE_CHANNEL_MAIN, chid)"] k(1) L by blast
    with k(2) not_wrapped show False by (simp add: key_def)
  qed
  have "key ` set (mutableChannels (setSpiceMain None self)) = {k \<in> L - {(ch, SPICE_CHANNEL_MAIN, chid)}. wrapped (fst (snd k))}"
    using ok not_wrapped by (auto simp: conn_ok_def)
  moreover have "\<nexists>i. (m, SPICE_CHANNEL_MAIN, i) \<in> L - {(ch, SPICE_CHANNEL_MAIN, chid)}" for m
    using only by force
  moreover have "inj_on fst (L - {(ch, SPICE_CHANNEL_MAIN, chid)})" "inj_on snd (L - {(ch, SPICE_CHANNEL_MAIN, chid)})"
    "fst ` (L - {(ch, SPICE_CHANNEL_MAIN, chid)}) \<subseteq> E"
    using ok by (auto simp: conn_ok_def intro: inj_on_subset)
  moreover have "refs_ok (setSpiceMain None self)" using ok by (simp add: conn_ok_def refs_ok_set_main)
  moreover have "wrap_hasInitialConfig w \<longleftrightarrow> Display_created (spiceChannel w) \<in> set said"
    if w: "w \<in> set (mutableChannels (setSpiceMain None self))" for w
  proof -
    obtain v where "v \<in> set (mutableChannels self)" "w = v\<lparr>wrap_main := None\<rparr>"
      using w by (auto simp: setSpiceMain_def Let_def)
    with ok show ?thesis by (simp add: conn_ok_def)
  qed
  ultimately show "conn_ok (L - {(ch, SPICE_CHANNEL_MAIN, chid)}) E said (setSpiceMain None self)"
    using ok unfolding conn_ok_def by simp
qed

text \<open>\<open>cs_channel_destroy\<close> up to handlers and playback: drop the main channel, then the loop.\<close>

lemma destroy_base:
  obtains base self' es where "base = (if type = SPICE_CHANNEL_MAIN then setSpiceMain None self else self)
      \<lparr>conn_handlers := conn_handlers base, audioPlayback := audioPlayback base\<rparr>"
    "remove_wraps type ch (length (mutableChannels base)) base = (self', es)"
    "cs_channel_destroy type ch self =
      (self', es @ (if mutableChannels self' = [] then tell_delegate self' Spice_disconnected else []))"
proof -
  define s1 where "s1 = (if type = SPICE_CHANNEL_MAIN then (setSpiceMain None self)\<lparr>conn_handlers :=
      filter (\<lambda>h. h \<notin> {(ch, Channel_event), (ch, Agent_update)}) (conn_handlers self)\<rparr> else self)"
  define s2 where "s2 = (if type = SPICE_CHANNEL_DISPLAY
      then s1\<lparr>conn_handlers := filter (\<lambda>h. h \<noteq> (ch, Notify_monitors)) (conn_handlers s1)\<rparr> else s1)"
  define s3 where "s3 = (if type = SPICE_CHANNEL_PLAYBACK then s2\<lparr>audioPlayback := None\<rparr> else s2)"
  define s4 where "s4 = (if is_port_channel type
      then s3\<lparr>conn_handlers := filter (\<lambda>h. h \<noteq> (ch, Notify_port_opened)) (conn_handlers s3)\<rparr> else s3)"
  obtain self' es where r: "remove_wraps type ch (length (mutableChannels s4)) s4 = (self', es)" by fastforce
  have "s4 = (if type = SPICE_CHANNEL_MAIN then setSpiceMain None self else self)
      \<lparr>conn_handlers := conn_handlers s4, audioPlayback := audioPlayback s4\<rparr>"
    by (simp add: s4_def s3_def s2_def s1_def)
  moreover have "cs_channel_destroy type ch self =
      (self', es @ (if mutableChannels self' = [] then tell_delegate self' Spice_disconnected else []))"
    using r unfolding cs_channel_destroy_def Let_def
    by (fold s1_def, fold s2_def, fold s3_def, fold s4_def) simp
  ultimately show thesis using r that by blast
qed

lemma conn_ok_base:
  assumes "base = s\<lparr>conn_handlers := conn_handlers base, audioPlayback := audioPlayback base\<rparr>"
  shows "conn_ok L E said base = conn_ok L E said s"
  by (subst assms) simp

lemma destroy_spec:
  assumes ok: "conn_ok L E said self" and L: "(ch, type, chid) \<in> L"
    and destroy: "cs_channel_destroy type ch self = (self', es)"
  shows "conn_ok (L - {(ch, type, chid)}) E (said @ es) self'"
    and "Spice_disconnected \<in> set es \<longleftrightarrow> mutableChannels self' = []"
proof -
  obtain base self1 es1 where base: "base = (if type = SPICE_CHANNEL_MAIN then setSpiceMain None self else self)
      \<lparr>conn_handlers := conn_handlers base, audioPlayback := audioPlayback base\<rparr>"
    "remove_wraps type ch (length (mutableChannels base)) base = (self1, es1)"
    "cs_channel_destroy type ch self =
      (self1, es1 @ (if mutableChannels self1 = [] then tell_delegate self1 Spice_disconnected else []))"
    by (rule destroy_base)
  have self': "self' = self1" using destroy base(3) by simp
  have es: "es = es1 @ (if mutableChannels self' = [] then tell_delegate self' Spice_disconnected else [])"
    using destroy base(3) unfolding self' by simp
  have reg: "distinct (map spiceChannel (mutableChannels s))" "refs_ok s" if "conn_ok L' E said s" for L' s
    using that by (simp_all add: conn_ok_def)
  have loop: "\<exists>s es2. remove_wraps type ch (length (mutableChannels base)) base = (s, es2) \<and>
      mutableChannels s = filter (\<lambda>w. spiceChannel w \<noteq> ch) (mutableChannels base) \<and> refs_ok s \<and>
      s = base\<lparr>mutableChannels := mutableChannels s, main_refs := main_refs s\<rparr> \<and>
      es2 = (if ch \<in> spiceChannel ` set (mutableChannels base) then gone_event type ch base else [])"
    if "conn_ok L' E said base" for L'
    by (rule remove_wraps_all[OF reg[OF that]])
  have "conn_ok (L - {(ch, type, chid)}) E said self1 \<and> (es1 = gone_event type ch base \<or> es1 = [])"
  proof (cases "type = SPICE_CHANNEL_MAIN")
    case True
    note main = conn_ok_main_gone[OF ok L[unfolded True]]
    have ok': "conn_ok (L - {(ch, type, chid)}) E said base"
      using main(1) conn_ok_base[OF base(1)] True by simp
    have "spiceChannel ` set (mutableChannels base) = spiceChannel ` set (mutableChannels self)"
      using True by (subst base(1)) (simp add: setSpiceMain_def Let_def image_image)
    then have "ch \<notin> spiceChannel ` set (mutableChannels base)" using main(2) by simp
    then have "remove_wraps type ch (length (mutableChannels base)) base = (base, [])"
      by (intro remove_wraps_none) (metis imageI nth_mem)
    with ok' base(2) show ?thesis by simp
  next
    case False
    then have ok': "conn_ok L E said base" using ok conn_ok_base[OF base(1)] by simp
    from loop[OF ok'] base(2) have s: "mutableChannels self1 = filter (\<lambda>w. spiceChannel w \<noteq> ch) (mutableChannels base)"
      "refs_ok self1" "self1 = base\<lparr>mutableChannels := mutableChannels self1, main_refs := main_refs self1\<rparr>"
      "es1 = gone_event type ch base \<or> es1 = []"
      by auto
    from conn_ok_filter[OF ok' L False s(1-3)] s(4) show ?thesis by simp
  qed
  then have ok1: "conn_ok (L - {(ch, type, chid)}) E said self'" and quiet: "es1 = gone_event type ch base \<or> es1 = []"
    by (simp_all add: self')
  show "conn_ok (L - {(ch, type, chid)}) E (said @ es) self'"
    using quiet by (intro conn_ok_said[OF ok1]) (auto simp: es no_display_news_def[of "[]"])
  have "Spice_disconnected \<notin> set es1" using quiet by (auto simp: gone_event_def tell_delegate_def split: if_splits)
  moreover have "conn_delegate self' \<noteq> None" using ok1 by (simp add: conn_ok_def)
  ultimately show "Spice_disconnected \<in> set es \<longleftrightarrow> mutableChannels self' = []"
    by (auto simp: es tell_delegate_def)
qed

lemma monitors_spec:
  assumes ok: "conn_ok L E said self" and L: "(ch, SPICE_CHANNEL_DISPLAY, chid) \<in> L" and "len \<le> 1"
  shows "\<exists>self' es. cs_display_monitors (Some len) ch self = Done (self', es) \<and> conn_ok L E (said @ es) self'"
proof -
  obtain w where w: "w \<in> set (mutableChannels self)" "spiceChannel w = ch" "wrap_type w = SPICE_CHANNEL_DISPLAY"
    "find (\<lambda>w. spiceChannel w = ch) (mutableChannels self) = Some w"
    using registered[OF ok L] by (auto simp: wrapped_def)
  have dele: "tell_delegate self e = [e]" for e using ok by (simp add: conn_ok_def tell_delegate_def)
  have told: "wrap_hasInitialConfig w \<longleftrightarrow> Display_created ch \<in> set said" using ok w(1,2) by (auto simp: conn_ok_def)
  have order: "display_order said" using ok by (simp add: conn_ok_def)
  consider "len = 0" | "len = 1" "wrap_hasInitialConfig w" | "len = 1" "\<not> wrap_hasInitialConfig w"
    using assms(3) by linarith
  then show ?thesis
  proof cases
    case 1
    have "conn_ok L E (said @ [Display_destroyed ch]) self" by (rule conn_ok_said[OF ok]) (simp add: no_display_news_def)
    with 1 w show ?thesis by (simp add: cs_display_monitors_def dele)
  next
    case 2
    have "display_order (said @ [Display_updated ch])" using told 2 order by (intro display_order_snoc) simp_all
    then have "conn_ok L E (said @ [Display_updated ch]) self" using ok by (simp add: conn_ok_def)
    with 2 w show ?thesis by (simp add: cs_display_monitors_def dele)
  next
    case 3
    let ?f = "\<lambda>v :: channel_wrap. if spiceChannel v = ch then v\<lparr>wrap_hasInitialConfig := True\<rparr> else v"
    have "display_order (said @ [Display_created ch])" using told 3 order by (intro display_order_snoc) simp_all
    moreover have "refs_ok (self\<lparr>mutableChannels := map ?f (mutableChannels self)\<rparr>)"
      using ok by (cases "spiceMain self") (auto simp: conn_ok_def refs_ok_def)
    moreover have "distinct (map (spiceChannel \<circ> ?f) (mutableChannels self))"
    proof -
      have "spiceChannel \<circ> ?f = spiceChannel" by (simp add: fun_eq_iff)
      moreover have "distinct (map spiceChannel (mutableChannels self))" using ok by (simp add: conn_ok_def)
      ultimately show ?thesis by (simp only:)
    qed
    moreover have "key ` ?f ` set (mutableChannels self) = key ` set (mutableChannels self)"
    proof -
      have "key (?f v) = key v" for v by (simp add: key_def)
      then show ?thesis by (simp only: image_image)
    qed
    moreover have "paired (map ?f (mutableChannels self))" using ok by (auto simp: conn_ok_def paired_def)
    moreover have "ch \<in> E" using ok L by (force simp: conn_ok_def)
    ultimately have "conn_ok L E (said @ [Display_created ch]) (self\<lparr>mutableChannels := map ?f (mutableChannels self)\<rparr>)"
      using ok by (simp add: conn_ok_def) auto
    with 3 w show ?thesis by (simp add: cs_display_monitors_def dele)
  qed
qed

lemma port_quiet: "conn_port_opened isOpen ch self = Done es \<Longrightarrow> no_display_news es"
  by (auto simp: conn_port_opened_def tell_delegate_def no_display_news_def split: option.splits if_splits)

lemma monitors_len: "cs_display_monitors (Some len) ch self = Done out \<Longrightarrow> len \<le> 1"
  by (auto simp: cs_display_monitors_def split: option.splits if_splits)

lemma conn_ok_init:
  assumes "c \<in> {initWithHost h p, initWithHostTLS h p k, initWithUnixSocketFile u}"
  shows "conn_ok {} {} [] (c\<lparr>conn_delegate := Some d, audioEnabled := audio\<rparr>)"
proof -
  have "mutableChannels c = [] \<and> spiceMain c = None \<and> main_refs c = []"
    using assms by (auto simp: initWithHost_def initWithHostTLS_def initWithUnixSocketFile_def finishInit_def
        setPort_def setHost_def setUnixSocketURL_def setTlsServerPublicKey_def blank_connection_def Let_def
        split: option.split)
  then show ?thesis by (simp add: conn_ok_def refs_ok_def paired_def display_order_def)
qed

lemma conn_reach_ok: "conn_reach L E said self \<Longrightarrow> conn_ok L E said self"
proof (induction rule: conn_reach.induct)
  case (init c h p k u d audio)
  then show ?case by (rule conn_ok_init)
next
  case (appear L E said self ch type chid self' es)
  with conn_ok_appear[of L E said self ch type chid] show ?case by auto
next
  case (disappear L E said self ch type chid self' es)
  then show ?case by (intro destroy_spec(1))
next
  case (monitors L E said self ch chid len self' es)
  with monitors_spec[OF monitors.IH monitors.hyps(2) monitors_len[OF monitors.hyps(3)]] show ?case by simp
next
  case (port L E said self ch type chid isOpen es)
  then show ?case by (intro conn_ok_said port_quiet)
qed (simp_all add: conn_ok_said)

section \<open>Deallocation\<close>

lemma main_known:
  "conn_ok L E said self \<Longrightarrow> spiceMain self = Some m \<longleftrightarrow> (\<exists>i. (m, SPICE_CHANNEL_MAIN, i) \<in> L)"
  by (simp add: conn_ok_def)

lemma length_registry:
  assumes "conn_ok L E said self"
  shows "length (mutableChannels self) = card {k \<in> L. wrapped (fst (snd k))}"
    and "finite {k \<in> L. wrapped (fst (snd k))}"
proof -
  have keys: "key ` set (mutableChannels self) = {k \<in> L. wrapped (fst (snd k))}"
    and "distinct (map spiceChannel (mutableChannels self))" using assms by (simp_all add: conn_ok_def)
  then have "inj_on key (set (mutableChannels self))" "distinct (mutableChannels self)"
    by (auto simp: distinct_map inj_on_def key_def)
  with keys show "length (mutableChannels self) = card {k \<in> L. wrapped (fst (snd k))}"
    by (metis card_image distinct_card)
  show "finite {k \<in> L. wrapped (fst (snd k))}" using keys by (metis finite_imageI List.finite_set)
qed

lemma dealloc_loop_empties:
  assumes "conn_ok L E said self" and "n = length (mutableChannels self)"
  shows "\<exists>self' es L' said'. dealloc_loop n self = Done (self', es) \<and> conn_ok L' E said' self' \<and> mutableChannels self' = []"
  using assms
proof (induction n arbitrary: L said self)
  case (Suc n)
  define w where "w = mutableChannels self ! n"
  obtain self1 es1 where d: "cs_channel_destroy (wrap_type w) (spiceChannel w) self = (self1, es1)" by fastforce
  have w: "w \<in> set (mutableChannels self)" using Suc.prems(2) by (simp add: w_def)
  then have "key w \<in> key ` set (mutableChannels self)" by blast
  then have k: "key w \<in> L" "wrapped (wrap_type w)" using Suc.prems(1) by (auto simp: conn_ok_def key_def)
  have ok1: "conn_ok (L - {key w}) E (said @ es1) self1"
    using destroy_spec(1)[OF Suc.prems(1) _ d] k(1) by (simp add: key_def)
  have "{k \<in> L - {key w}. wrapped (fst (snd k))} = {k \<in> L. wrapped (fst (snd k))} - {key w}" by auto
  then have "length (mutableChannels self1) = length (mutableChannels self) - 1"
    using length_registry[OF Suc.prems(1)] length_registry(1)[OF ok1] k
    by (simp add: card_Diff_singleton key_def)
  then have "n = length (mutableChannels self1)" using Suc.prems(2) by simp
  from Suc.IH[OF ok1 this] obtain self2 es2 L' said' where 2: "dealloc_loop n self1 = Done (self2, es2)"
    "conn_ok L' E said' self2" "mutableChannels self2 = []" by (elim exE conjE) (rule that)
  have "dealloc_loop (Suc n) self = Done (self2, es1 @ es2)"
  proof -
    have "\<not> length (mutableChannels self) \<le> n" using Suc.prems(2) by simp
    then show ?thesis using 2(1) d unfolding dealloc_loop.simps(2) w_def by (simp add: Let_def)
  qed
  with 2 show ?case by blast
qed auto

lemma conn_dealloc_clean:
  assumes "conn_ok L E said self"
  shows "\<exists>self' es. conn_dealloc self = Done (self', es) \<and> mutableChannels self' = [] \<and> main_refs self' = []"
proof -
  obtain self1 es1 L1 said1 where 1: "dealloc_loop (length (mutableChannels self)) self = Done (self1, es1)"
    "conn_ok L1 E said1 self1" "mutableChannels self1 = []"
    using dealloc_loop_empties[OF assms refl] by (elim exE conjE) (rule that)
  show ?thesis
  proof (cases "spiceMain self1")
    case None
    then have "main_refs self1 = []" using 1(2) by (simp add: conn_ok_def refs_ok_def)
    with None 1 show ?thesis by (simp add: conn_dealloc_def)
  next
    case (Some m)
    then obtain i where i: "(m, SPICE_CHANNEL_MAIN, i) \<in> L1" using main_known[OF 1(2)] by blast
    obtain self2 es2 where d: "cs_channel_destroy SPICE_CHANNEL_MAIN m self1 = (self2, es2)" by fastforce
    note ok2 = destroy_spec(1)[OF 1(2) i d]
    have "{k \<in> L1 - {(m, SPICE_CHANNEL_MAIN, i)}. wrapped (fst (snd k))} = {k \<in> L1. wrapped (fst (snd k))}"
      by (auto simp: wrapped_def is_port_channel_def)
    then have empty: "mutableChannels self2 = []"
      using length_registry(1)[OF 1(2)] length_registry(1)[OF ok2] 1(3) by simp
    have "spiceMain self2 = None"
    proof (cases "spiceMain self2")
      case (Some m')
      then obtain j where j: "(m', SPICE_CHANNEL_MAIN, j) \<in> L1 - {(m, SPICE_CHANNEL_MAIN, i)}"
        using main_known[OF ok2] by blast
      then have "spiceMain self1 = Some m'" unfolding main_known[OF 1(2)] by blast
      with \<open>spiceMain self1 = Some m\<close> have "m' = m" by simp
      moreover have "inj_on fst L1" using 1(2) by (simp add: conn_ok_def)
      ultimately show ?thesis
        using inj_onD[of fst L1 "(m', SPICE_CHANNEL_MAIN, j)" "(m, SPICE_CHANNEL_MAIN, i)"] i j by auto
    qed simp
    then have "main_refs self2 = []" using ok2 by (simp add: conn_ok_def refs_ok_def)
    with Some 1 d empty show ?thesis by (simp add: conn_dealloc_def)
  qed
qed

section \<open>Properties\<close>

text \<open>
  C6. In every history the registry is in order: it wraps exactly the living channels the package
  knows, each wrapper has the connection's main channel, a display and a cursor of the same
  number are paired whichever came first, and deallocation runs to its end, empties the
  registry and gives back every reference on the main channel.
\<close>

theorem connection_registry:
  assumes "conn_reach L E said self"
  shows "key ` set (mutableChannels self) = {k \<in> L. wrapped (fst (snd k))} \<and>
    (\<forall>w\<in>set (mutableChannels self). wrap_main w = spiceMain self) \<and>
    paired (mutableChannels self) \<and>
    (\<exists>self' es. conn_dealloc self = Done (self', es) \<and> mutableChannels self' = [] \<and> main_refs self' = [])"
  using conn_reach_ok[OF assms] conn_dealloc_clean[OF conn_reach_ok[OF assms]]
  by (simp add: conn_ok_def refs_ok_def)

definition sample_connection :: cs_connection where
  "sample_connection = (initWithHost (Some ''h'') (Some ''p''))\<lparr>conn_delegate := Some 1, audioEnabled := False\<rparr>"

definition two_channels :: cs_connection where
  "two_channels = sample_connection\<lparr>
     spiceMain := Some 10, main_refs := [10, 10],
     conn_handlers := [(11, Notify_monitors), (10, Channel_event), (10, Agent_update)],
     mutableChannels := [\<lparr>wrap_type = SPICE_CHANNEL_DISPLAY, spiceChannel = 11, channelID = 0,
        wrap_main = Some 10, wrap_hasInitialConfig = False, wrap_cursor = None\<rparr>]\<rparr>"

lemma sample_reach: "conn_reach {} {} [] sample_connection"
  unfolding sample_connection_def by (rule conn_reach.init[where h = "Some ''h''" and p = "Some ''p''"]) simp

lemmas sample_simps = sample_connection_def initWithHost_def finishInit_def setPort_def setHost_def
  blank_connection_def

lemma two_channels_reach:
  "conn_reach (insert (11, SPICE_CHANNEL_DISPLAY, 0) {(10, SPICE_CHANNEL_MAIN, 0)}) (insert 11 {10})
     [Enable_display 11, Channel_connect 11] two_channels"
proof -
  define one where "one = sample_connection\<lparr>spiceMain := Some 10, main_refs := [10],
    conn_handlers := [(10, Channel_event), (10, Agent_update)]\<rparr>"
  have "cs_channel_new SPICE_CHANNEL_MAIN 0 10 sample_connection = Done (one, [])"
    by (simp add: cs_channel_new_def setSpiceMain_def one_def sample_simps)
  from conn_reach.appear[OF sample_reach _ _ _ this] have
    "conn_reach {(10, SPICE_CHANNEL_MAIN, 0)} {10} [] one" by simp
  moreover have "cs_channel_new SPICE_CHANNEL_DISPLAY 0 11 one =
      Done (two_channels, [Enable_display 11, Channel_connect 11])"
    by (simp add: cs_channel_new_def one_def two_channels_def register_def new_wrap_def swap_ref_def sample_simps)
  ultimately show ?thesis using conn_reach.appear[of "{(10, SPICE_CHANNEL_MAIN, 0)}" "{10}" "[]" one 11 SPICE_CHANNEL_DISPLAY 0]
    by simp
qed

theorem connection_registry_witness:
  "key ` set (mutableChannels two_channels) = {(11, SPICE_CHANNEL_DISPLAY, 0)} \<and>
   (\<exists>self' es. conn_dealloc two_channels = Done (self', es) \<and> mutableChannels self' = [] \<and> main_refs self' = [])"
  using connection_registry[OF two_channels_reach] by (simp add: two_channels_def key_def)

text \<open>
  No handler fails an assertion: whatever channel appears next and whatever signal a living
  channel gives, the handlers return, as long as the server offers at most one monitor per
  display channel.
\<close>

theorem connection_handlers_return:
  assumes "conn_reach L E said self" and "ch \<notin> E" and "\<forall>c. (c, type, chid) \<notin> L"
    and "type = SPICE_CHANNEL_MAIN \<longrightarrow> (\<forall>c i. (c, SPICE_CHANNEL_MAIN, i) \<notin> L)"
    and "(d, SPICE_CHANNEL_DISPLAY, di) \<in> L" and "len \<le> 1" and "(p, pt, pi') \<in> L" and "is_port_channel pt"
  shows "(\<exists>out. cs_channel_new type chid ch self = Done out) \<and>
    (\<exists>out. cs_display_monitors (Some len) d self = Done out) \<and>
    (\<exists>es. conn_port_opened isOpen p self = Done es)"
proof -
  note ok = conn_reach_ok[OF assms(1)]
  have "wrapped pt" using assms(8) by (simp add: wrapped_def)
  from registered[OF ok assms(7) this] obtain w where
    "find (\<lambda>w. spiceChannel w = p) (mutableChannels self) = Some w" "wrap_type w = pt" by blast
  then have "\<exists>es. conn_port_opened isOpen p self = Done es" using assms(8) by (simp add: conn_port_opened_def)
  then show ?thesis using conn_ok_appear[OF ok assms(2-4)] monitors_spec[OF ok assms(5,6)] by blast
qed

theorem connection_handlers_return_witness:
  "\<exists>self. (\<exists>out. cs_channel_new SPICE_CHANNEL_CURSOR 0 13 self = Done out) \<and>
     (\<exists>out. cs_display_monitors (Some 1) 11 self = Done out) \<and> (\<exists>es. conn_port_opened True 12 self = Done es)"
proof -
  have "\<exists>self es. cs_channel_new SPICE_CHANNEL_PORT 0 12 two_channels = Done (self, es)"
    using conn_ok_appear[OF conn_reach_ok[OF two_channels_reach], of 12 SPICE_CHANNEL_PORT 0] by auto
  then obtain self es where "cs_channel_new SPICE_CHANNEL_PORT 0 12 two_channels = Done (self, es)" by blast
  from conn_reach.appear[OF two_channels_reach _ _ _ this] have
    "conn_reach (insert (12, SPICE_CHANNEL_PORT, 0) (insert (11, SPICE_CHANNEL_DISPLAY, 0) {(10, SPICE_CHANNEL_MAIN, 0)}))
       (insert 12 (insert 11 {10})) ([Enable_display 11, Channel_connect 11] @ es) self" by simp
  from connection_handlers_return[OF this, of 13 SPICE_CHANNEL_CURSOR 0 11 0 1 12 SPICE_CHANNEL_PORT 0 True]
  show ?thesis by (intro exI[of _ self]) (simp add: is_port_channel_def)
qed

text \<open>
  C37. The delegate hears of a display in order: in every history a display is created before it is
  updated, and created once.
\<close>

theorem display_announced_first:
  assumes "conn_reach L E said self" and "said = pre @ e # post"
  shows "(e = Display_updated d \<longrightarrow> Display_created d \<in> set pre) \<and>
    (e = Display_created d \<longrightarrow> Display_created d \<notin> set pre)"
proof -
  have "display_order (pre @ e # post)" using conn_reach_ok[OF assms(1)] assms(2) by (simp add: conn_ok_def)
  then show ?thesis by (rule display_orderD)
qed

theorem display_announced_first_witness:
  "\<exists>self. conn_reach (insert (11, SPICE_CHANNEL_DISPLAY, 0) {(10, SPICE_CHANNEL_MAIN, 0)}) (insert 11 {10})
     ([Enable_display 11, Channel_connect 11, Display_created 11] @ Display_updated 11 # []) self \<and>
   Display_created 11 \<in> set [Enable_display 11, Channel_connect 11, Display_created 11]"
proof -
  define seen where "seen = two_channels\<lparr>mutableChannels := [\<lparr>wrap_type = SPICE_CHANNEL_DISPLAY, spiceChannel = 11,
      channelID = 0, wrap_main = Some 10, wrap_hasInitialConfig = True, wrap_cursor = None\<rparr>]\<rparr>"
  have "cs_display_monitors (Some 1) 11 two_channels = Done (seen, [Display_created 11])"
    by (simp add: cs_display_monitors_def two_channels_def seen_def tell_delegate_def sample_simps)
  from conn_reach.monitors[OF two_channels_reach _ this] have
    "conn_reach (insert (11, SPICE_CHANNEL_DISPLAY, 0) {(10, SPICE_CHANNEL_MAIN, 0)}) (insert 11 {10})
       [Enable_display 11, Channel_connect 11, Display_created 11] seen" by simp
  moreover have "cs_display_monitors (Some 1) 11 seen = Done (seen, [Display_updated 11])"
    by (simp add: cs_display_monitors_def seen_def two_channels_def tell_delegate_def sample_simps)
  ultimately have *: "conn_reach (insert (11, SPICE_CHANNEL_DISPLAY, 0) {(10, SPICE_CHANNEL_MAIN, 0)}) (insert 11 {10})
      ([Enable_display 11, Channel_connect 11, Display_created 11] @ Display_updated 11 # []) seen"
    using conn_reach.monitors[of "insert (11, SPICE_CHANNEL_DISPLAY, 0) {(10, SPICE_CHANNEL_MAIN, 0)}" "insert 11 {10}"
        "[Enable_display 11, Channel_connect 11, Display_created 11]" seen 11 0 1 seen "[Display_updated 11]"] by simp
  with display_announced_first[OF * refl, of 11] show ?thesis by blast
qed

text \<open>
  Each destruction that leaves no wrapper says \<open>spiceDisconnected:\<close>, so ending a session says it
  once for the last wrapper and again for every unwrapped channel that goes after it.
\<close>

theorem disconnected_told_again:
  assumes "conn_reach L E said self" and "L = {(d, t, i), (m, SPICE_CHANNEL_MAIN, j)}" and "wrapped t"
    and "cs_channel_destroy t d self = (self1, es1)" and "cs_channel_destroy SPICE_CHANNEL_MAIN m self1 = (self2, es2)"
  shows "Spice_disconnected \<in> set es1 \<and> Spice_disconnected \<in> set es2"
proof -
  note ok = conn_reach_ok[OF assms(1)]
  have t: "t \<noteq> SPICE_CHANNEL_MAIN" using assms(3) by (auto simp: wrapped_def is_port_channel_def)
  have nw: "\<not> wrapped SPICE_CHANNEL_MAIN" by (simp add: wrapped_def is_port_channel_def)
  have "(d, t, i) \<in> L" using assms(2) by simp
  note one = destroy_spec[OF ok this assms(4)]
  have L1: "L - {(d, t, i)} = {(m, SPICE_CHANNEL_MAIN, j)}" using assms(2) t by auto
  then have "{k \<in> L - {(d, t, i)}. wrapped (fst (snd k))} = {}" using nw by auto
  then have none: "mutableChannels self1 = []" using length_registry(1)[OF one(1)] by (simp only: card.empty) simp
  have m: "(m, SPICE_CHANNEL_MAIN, j) \<in> L - {(d, t, i)}" using L1 by simp
  note two = destroy_spec[OF one(1) m assms(5)]
  have "mutableChannels self2 = []" using length_registry(1)[OF two(1)] L1 by simp
  then show ?thesis using none one(2) two(2) by simp
qed

theorem disconnected_told_again_witness:
  "Spice_disconnected \<in> set (snd (cs_channel_destroy SPICE_CHANNEL_DISPLAY 11 two_channels)) \<and>
   Spice_disconnected \<in> set (snd (cs_channel_destroy SPICE_CHANNEL_MAIN 10
     (fst (cs_channel_destroy SPICE_CHANNEL_DISPLAY 11 two_channels))))"
proof -
  have "wrapped SPICE_CHANNEL_DISPLAY" by (simp add: wrapped_def)
  from disconnected_told_again[OF two_channels_reach refl this prod.collapse[symmetric] prod.collapse[symmetric]]
  show ?thesis .
qed

end
