(* ===== verification/Byte_Order.thy ===== *)
theory Byte_Order
  imports Prelude
begin

text \<open>
  Byte order: the swapping and conversion macros of \<open>gtypes.h\<close> and \<open>glibconfig.h\<close>, every variant
  the preprocessor can choose, over a byte memory in which the reader and writer macros of the
  later theories work.  The bit-level lemmas that identify a word with its bytes are here too.
\<close>

section \<open>Memory, bytes and words\<close>

text \<open>Memory is addressed by byte; a pointer is an address.\<close>

type_synonym mem = "nat \<Rightarrow> guint8"

text \<open>The bytes of a word, the least significant first, and the word some bytes make.\<close>

definition word_bytes :: "nat \<Rightarrow> 'a::len word \<Rightarrow> guint8 list" where
  "word_bytes n v = map (\<lambda>i. ucast (drop_bit (8 * i) v)) [0..<n]"

primrec bytes_word :: "guint8 list \<Rightarrow> 'a::len word" where
  "bytes_word [] = 0"
| "bytes_word (b # bs) = ucast b OR push_bit 8 (bytes_word bs)"

definition mem_bytes :: "mem \<Rightarrow> nat \<Rightarrow> nat \<Rightarrow> guint8 list" where
  "mem_bytes m p n = map (\<lambda>i. m (p + i)) [0..<n]"

definition mem_store :: "mem \<Rightarrow> nat \<Rightarrow> guint8 list \<Rightarrow> mem" where
  "mem_store m p bs = (\<lambda>a. if p \<le> a \<and> a < p + length bs then bs ! (a - p) else m a)"

lemma length_word_bytes [simp]: "length (word_bytes n v) = n"
  by (simp add: word_bytes_def)

lemma nth_word_bytes [simp]: "i < n \<Longrightarrow> word_bytes n v ! i = ucast (drop_bit (8 * i) v)"
  by (simp add: word_bytes_def)

lemma length_mem_bytes [simp]: "length (mem_bytes m p n) = n"
  by (simp add: mem_bytes_def)

lemma nth_mem_bytes [simp]: "i < n \<Longrightarrow> mem_bytes m p n ! i = m (p + i)"
  by (simp add: mem_bytes_def)

lemma mem_bytes_append: "mem_bytes m p (k + n) = mem_bytes m p k @ mem_bytes m (p + k) n"
  by (rule nth_equalityI) (auto simp: nth_append add.assoc)

lemma mem_bytes_cong: "(\<And>i. i < n \<Longrightarrow> m (p + i) = m' (p + i)) \<Longrightarrow> mem_bytes m p n = mem_bytes m' p n"
  by (simp add: mem_bytes_def)

lemma mem_bytes_store [simp]: "length bs = n \<Longrightarrow> mem_bytes (mem_store m p bs) p n = bs"
  by (rule nth_equalityI) (simp_all add: mem_store_def)

lemma mem_store_other: "a < p \<or> p + length bs \<le> a \<Longrightarrow> mem_store m p bs a = m a"
  by (auto simp: mem_store_def)

lemma bit_bytes_word:
  "bit (bytes_word bs :: 'a::len word) k \<longleftrightarrow>
     k < LENGTH('a) \<and> k div 8 < length bs \<and> bit (bs ! (k div 8)) (k mod 8)"
proof (induction bs arbitrary: k)
  case Nil
  then show ?case by simp
next
  case (Cons b bs)
  show ?case
  proof (cases "k < 8")
    case True
    then show ?thesis by (auto simp: bit_simps dest: bit_imp_le_length)
  next
    case False
    then obtain j where k: "k = j + 8" by (metis add.commute le_Suc_ex not_less)
    have "\<not> bit b k" using False bit_imp_le_length[of b k] by auto
    then show ?thesis using Cons.IH[of j] by (auto simp: k bit_simps)
  qed
qed

lemma bytes_word_bytes:
  assumes "LENGTH('a) \<le> 8 * n"
  shows "bytes_word (word_bytes n v) = (v :: 'a::len word)"
proof (rule bit_word_eqI)
  fix k assume "k < LENGTH('a)"
  moreover from this have "k div 8 < n" using assms by linarith
  ultimately show "bit (bytes_word (word_bytes n v) :: 'a word) k = bit v k"
    by (simp add: bit_bytes_word bit_simps)
qed

lemma word_bytes_word:
  assumes "8 * length bs \<le> LENGTH('a::len)"
  shows "word_bytes (length bs) (bytes_word bs :: 'a word) = bs"
proof (rule nth_equalityI)
  fix i assume i: "i < length (word_bytes (length bs) (bytes_word bs :: 'a word))"
  show "word_bytes (length bs) (bytes_word bs :: 'a word) ! i = bs ! i"
  proof (rule bit_word_eqI)
    fix k assume "k < LENGTH(8)"
    then have "k < 8" by simp
    then have "8 * i + k < LENGTH('a)" "(8 * i + k) div 8 = i" "(8 * i + k) mod 8 = k"
      using i assms by auto
    then show "bit (word_bytes (length bs) (bytes_word bs :: 'a word) ! i) k = bit (bs ! i) k"
      using i \<open>k < 8\<close> by (simp add: bit_simps bit_bytes_word)
  qed
qed simp

section \<open>\<open>gtypes.h\<close>: swapping\<close>

text \<open>The value \<open>G_BYTE_ORDER\<close> expands to.\<close>

datatype byte_order = G_LITTLE_ENDIAN | G_BIG_ENDIAN

primrec byte_order_code :: "byte_order \<Rightarrow> int" where
  "byte_order_code G_LITTLE_ENDIAN = 1234"
| "byte_order_code G_BIG_ENDIAN = 4321"

definition GUINT16_SWAP_LE_BE_CONSTANT :: "guint16 \<Rightarrow> guint16" where
  "GUINT16_SWAP_LE_BE_CONSTANT v = drop_bit 8 v OR push_bit 8 v"

definition GUINT32_SWAP_LE_BE_CONSTANT :: "guint32 \<Rightarrow> guint32" where
  "GUINT32_SWAP_LE_BE_CONSTANT v =
     push_bit 24 (v AND 0x000000ff) OR push_bit 8 (v AND 0x0000ff00) OR
     drop_bit 8 (v AND 0x00ff0000) OR drop_bit 24 (v AND 0xff000000)"

definition GUINT64_SWAP_LE_BE_CONSTANT :: "guint64 \<Rightarrow> guint64" where
  "GUINT64_SWAP_LE_BE_CONSTANT v =
     push_bit 56 (v AND 0x00000000000000ff) OR push_bit 40 (v AND 0x000000000000ff00) OR
     push_bit 24 (v AND 0x0000000000ff0000) OR push_bit 8 (v AND 0x00000000ff000000) OR
     drop_bit 8 (v AND 0x000000ff00000000) OR drop_bit 24 (v AND 0x0000ff0000000000) OR
     drop_bit 40 (v AND 0x00ff000000000000) OR drop_bit 56 (v AND 0xff00000000000000)"

text \<open>
  What the instructions in the \<open>asm\<close> statements compute: \<open>rorw $8, %w0\<close> rotates the low half of
  the register, \<open>rorl $16, %0\<close> all of it, \<open>bswap\<close> and IA-64's \<open>mux1 @rev\<close> reverse the bytes, and
  \<open>__builtin_bswap\<close> is documented to do the same.
\<close>

definition bswap :: "nat \<Rightarrow> 'a::len word \<Rightarrow> 'a word" where
  "bswap n v = bytes_word (rev (word_bytes n v))"

definition rorw8 :: "guint32 \<Rightarrow> guint32" where
  "rorw8 v = (v AND 0xffff0000) OR ucast (word_rotr 8 (ucast v :: guint16))"

definition GUINT16_SWAP_LE_BE_IA32 :: "guint16 \<Rightarrow> guint16" where
  "GUINT16_SWAP_LE_BE_IA32 v = word_rotr 8 v"

definition GUINT32_SWAP_LE_BE_I386 :: "guint32 \<Rightarrow> guint32" where
  "GUINT32_SWAP_LE_BE_I386 v = rorw8 (word_rotr 16 (rorw8 v))"

definition GUINT32_SWAP_LE_BE_I486 :: "guint32 \<Rightarrow> guint32" where
  "GUINT32_SWAP_LE_BE_I486 v = bswap 4 v"

text \<open>The union of a \<open>guint64\<close> and two \<open>guint32\<close> on the little-endian IA-32.\<close>

definition GUINT64_SWAP_LE_BE_IA32 :: "(guint32 \<Rightarrow> guint32) \<Rightarrow> guint64 \<Rightarrow> guint64" where
  "GUINT64_SWAP_LE_BE_IA32 swap32 v =
     (let w0 = ucast v; w1 = ucast (drop_bit 32 v); r0 = swap32 w1; r1 = swap32 w0
      in ucast r0 OR push_bit 32 (ucast r1))"

definition GUINT16_SWAP_LE_BE_IA64 :: "guint16 \<Rightarrow> guint16" where
  "GUINT16_SWAP_LE_BE_IA64 v = ucast (bswap 8 (push_bit 48 (ucast v :: guint64)))"

definition GUINT32_SWAP_LE_BE_IA64 :: "guint32 \<Rightarrow> guint32" where
  "GUINT32_SWAP_LE_BE_IA64 v = ucast (bswap 8 (push_bit 32 (ucast v :: guint64)))"

definition GUINT64_SWAP_LE_BE_IA64 :: "guint64 \<Rightarrow> guint64" where
  "GUINT64_SWAP_LE_BE_IA64 v = bswap 8 v"

definition GUINT32_SWAP_LE_BE_X86_64 :: "guint32 \<Rightarrow> guint32" where
  "GUINT32_SWAP_LE_BE_X86_64 v = bswap 4 v"

definition GUINT64_SWAP_LE_BE_X86_64 :: "guint64 \<Rightarrow> guint64" where
  "GUINT64_SWAP_LE_BE_X86_64 v = bswap 8 v"

text \<open>The compilation targets the \<open>#if\<close> chain tells apart, and the definition each gets.\<close>

datatype swap_target = Generic | Generic_GCC | IA32_386 | IA32_486 | IA64 | X86_64

record target =
  cpu :: swap_target
  gcc_4_3 :: bool

definition GUINT16_SWAP_LE_BE :: "target \<Rightarrow> guint16 \<Rightarrow> guint16" where
  "GUINT16_SWAP_LE_BE t =
     (case cpu t of
        IA32_386 \<Rightarrow> GUINT16_SWAP_LE_BE_IA32
      | IA32_486 \<Rightarrow> GUINT16_SWAP_LE_BE_IA32
      | IA64 \<Rightarrow> GUINT16_SWAP_LE_BE_IA64
      | _ \<Rightarrow> GUINT16_SWAP_LE_BE_CONSTANT)"

definition GUINT32_SWAP_LE_BE :: "target \<Rightarrow> guint32 \<Rightarrow> guint32" where
  "GUINT32_SWAP_LE_BE t =
     (if cpu t \<noteq> Generic \<and> gcc_4_3 t then bswap 4
      else case cpu t of
        IA32_386 \<Rightarrow> GUINT32_SWAP_LE_BE_I386
      | IA32_486 \<Rightarrow> GUINT32_SWAP_LE_BE_I486
      | IA64 \<Rightarrow> GUINT32_SWAP_LE_BE_IA64
      | X86_64 \<Rightarrow> GUINT32_SWAP_LE_BE_X86_64
      | _ \<Rightarrow> GUINT32_SWAP_LE_BE_CONSTANT)"

definition GUINT64_SWAP_LE_BE :: "target \<Rightarrow> guint64 \<Rightarrow> guint64" where
  "GUINT64_SWAP_LE_BE t =
     (if cpu t \<noteq> Generic \<and> gcc_4_3 t then bswap 8
      else case cpu t of
        IA32_386 \<Rightarrow> GUINT64_SWAP_LE_BE_IA32 (GUINT32_SWAP_LE_BE t)
      | IA32_486 \<Rightarrow> GUINT64_SWAP_LE_BE_IA32 (GUINT32_SWAP_LE_BE t)
      | IA64 \<Rightarrow> GUINT64_SWAP_LE_BE_IA64
      | X86_64 \<Rightarrow> GUINT64_SWAP_LE_BE_X86_64
      | _ \<Rightarrow> GUINT64_SWAP_LE_BE_CONSTANT)"

definition GUINT16_SWAP_LE_PDP :: "guint16 \<Rightarrow> guint16" where
  "GUINT16_SWAP_LE_PDP v = v"

definition GUINT16_SWAP_BE_PDP :: "target \<Rightarrow> guint16 \<Rightarrow> guint16" where
  "GUINT16_SWAP_BE_PDP t v = GUINT16_SWAP_LE_BE t v"

definition GUINT32_SWAP_LE_PDP :: "guint32 \<Rightarrow> guint32" where
  "GUINT32_SWAP_LE_PDP v = push_bit 16 (v AND 0x0000ffff) OR drop_bit 16 (v AND 0xffff0000)"

definition GUINT32_SWAP_BE_PDP :: "guint32 \<Rightarrow> guint32" where
  "GUINT32_SWAP_BE_PDP v = push_bit 8 (v AND 0x00ff00ff) OR drop_bit 8 (v AND 0xff00ff00)"

lemma bit_bswap:
  fixes v :: "'a::len word"
  assumes "LENGTH('a) = 8 * n"
  shows "bit (bswap n v) k \<longleftrightarrow> k < 8 * n \<and> bit v (8 * (n - 1 - k div 8) + k mod 8)"
proof (cases "k < 8 * n")
  case True
  then have "k div 8 < n" by linarith
  then have "rev (word_bytes n v) ! (k div 8) = ucast (drop_bit (8 * (n - 1 - k div 8)) v)"
    by (simp add: rev_nth)
  then show ?thesis using True \<open>k div 8 < n\<close> assms
    by (simp add: bswap_def bit_bytes_word bit_simps)
next
  case False
  then show ?thesis using assms bit_imp_le_length[of "bswap n v" k] by auto
qed

lemma bswap_bswap:
  fixes v :: "'a::len word"
  assumes "LENGTH('a) = 8 * n"
  shows "bswap n (bswap n v) = v"
  using assms word_bytes_word[of "rev (word_bytes n v)", where ?'a = 'a]
  by (simp add: bswap_def bytes_word_bytes)

text \<open>The masks of the source as runs of ones.\<close>

lemma swap_masks:
  "(0x000000ff :: guint32) = push_bit 0 (mask 8)" "(0x0000ff00 :: guint32) = push_bit 8 (mask 8)"
  "(0x00ff0000 :: guint32) = push_bit 16 (mask 8)" "(0xff000000 :: guint32) = push_bit 24 (mask 8)"
  "(0x0000ffff :: guint32) = push_bit 0 (mask 16)" "(0xffff0000 :: guint32) = push_bit 16 (mask 16)"
  by (simp_all add: mask_eq_exp_minus_1 push_bit_eq_mult)

lemma swap64_masks:
  "(0x00000000000000ff :: guint64) = push_bit 0 (mask 8)"
  "(0x000000000000ff00 :: guint64) = push_bit 8 (mask 8)"
  "(0x0000000000ff0000 :: guint64) = push_bit 16 (mask 8)"
  "(0x00000000ff000000 :: guint64) = push_bit 24 (mask 8)"
  "(0x000000ff00000000 :: guint64) = push_bit 32 (mask 8)"
  "(0x0000ff0000000000 :: guint64) = push_bit 40 (mask 8)"
  "(0x00ff000000000000 :: guint64) = push_bit 48 (mask 8)"
  "(0xff00000000000000 :: guint64) = push_bit 56 (mask 8)"
  by (simp_all add: mask_eq_exp_minus_1 push_bit_eq_mult)


text \<open>A statement about every bit below a literal width is a finite conjunction.\<close>

lemma word16_eqI: "(\<forall>k\<in>set [0..<16]. bit v k = bit w k) \<Longrightarrow> v = (w :: guint16)"
  by (rule bit_word_eqI) auto
lemma word32_eqI: "(\<forall>k\<in>set [0..<32]. bit v k = bit w k) \<Longrightarrow> v = (w :: guint32)"
  by (rule bit_word_eqI) auto
lemma word64_eqI: "(\<forall>k\<in>set [0..<64]. bit v k = bit w k) \<Longrightarrow> v = (w :: guint64)"
  by (rule bit_word_eqI) auto

lemma bit_beyond:
  "16 \<le> n \<Longrightarrow> \<not> bit (v16 :: guint16) n" "32 \<le> n \<Longrightarrow> \<not> bit (v32 :: guint32) n"
  "64 \<le> n \<Longrightarrow> \<not> bit (v64 :: guint64) n"
  by (auto dest: bit_imp_le_length)

lemmas each_bit = bit_simps upt_rec [of 0] upt_rec [of "Suc 0"] numeral_2_eq_2 [symmetric] bit_beyond

lemma swap16_constant: "GUINT16_SWAP_LE_BE_CONSTANT v = bswap 2 v"
  by (rule word16_eqI) (simp add: GUINT16_SWAP_LE_BE_CONSTANT_def bit_bswap each_bit)

lemma swap32_constant: "GUINT32_SWAP_LE_BE_CONSTANT v = bswap 4 v"
  by (rule word32_eqI)
    (simp add: GUINT32_SWAP_LE_BE_CONSTANT_def swap_masks bit_bswap each_bit)

lemma swap64_constant: "GUINT64_SWAP_LE_BE_CONSTANT v = bswap 8 v"
  by (rule word64_eqI)
    (simp add: GUINT64_SWAP_LE_BE_CONSTANT_def swap64_masks bit_bswap each_bit)

lemma swap16_ia32: "GUINT16_SWAP_LE_BE_IA32 v = bswap 2 v"
  by (rule word16_eqI) (simp add: GUINT16_SWAP_LE_BE_IA32_def bit_bswap each_bit)

lemma swap32_i386: "GUINT32_SWAP_LE_BE_I386 v = bswap 4 v"
  by (rule word32_eqI)
    (simp add: GUINT32_SWAP_LE_BE_I386_def rorw8_def swap_masks bit_bswap each_bit)

lemma swap64_ia32: "GUINT64_SWAP_LE_BE_IA32 (bswap 4) v = bswap 8 v"
  by (rule word64_eqI)
    (simp add: GUINT64_SWAP_LE_BE_IA32_def Let_def bit_bswap each_bit)

lemma swap16_ia64: "GUINT16_SWAP_LE_BE_IA64 v = bswap 2 v"
  by (rule word16_eqI) (simp add: GUINT16_SWAP_LE_BE_IA64_def bit_bswap each_bit)

lemma swap32_ia64: "GUINT32_SWAP_LE_BE_IA64 v = bswap 4 v"
  by (rule word32_eqI) (simp add: GUINT32_SWAP_LE_BE_IA64_def bit_bswap each_bit)

section \<open>\<open>glibconfig.h\<close> and \<open>gtypes.h\<close>: conversions\<close>

text \<open>
  The configuration in the tree is little-endian.  A signed integer is the word of its bits,
  read with \<open>sint\<close>; a conversion through a signed type leaves the bits alone.
\<close>

definition G_BYTE_ORDER_config :: byte_order where
  "G_BYTE_ORDER_config = G_LITTLE_ENDIAN"

definition GINT16_TO_LE :: "guint16 \<Rightarrow> guint16" where
  "GINT16_TO_LE v = v"

definition GUINT16_TO_LE :: "guint16 \<Rightarrow> guint16" where
  "GUINT16_TO_LE v = v"

definition GINT16_TO_BE :: "target \<Rightarrow> guint16 \<Rightarrow> guint16" where
  "GINT16_TO_BE t v = GUINT16_SWAP_LE_BE t v"

definition GUINT16_TO_BE :: "target \<Rightarrow> guint16 \<Rightarrow> guint16" where
  "GUINT16_TO_BE t v = GUINT16_SWAP_LE_BE t v"

definition GINT32_TO_LE :: "guint32 \<Rightarrow> guint32" where
  "GINT32_TO_LE v = v"

definition GUINT32_TO_LE :: "guint32 \<Rightarrow> guint32" where
  "GUINT32_TO_LE v = v"

definition GINT32_TO_BE :: "target \<Rightarrow> guint32 \<Rightarrow> guint32" where
  "GINT32_TO_BE t v = GUINT32_SWAP_LE_BE t v"

definition GUINT32_TO_BE :: "target \<Rightarrow> guint32 \<Rightarrow> guint32" where
  "GUINT32_TO_BE t v = GUINT32_SWAP_LE_BE t v"

definition GINT64_TO_LE :: "guint64 \<Rightarrow> guint64" where
  "GINT64_TO_LE v = v"

definition GUINT64_TO_LE :: "guint64 \<Rightarrow> guint64" where
  "GUINT64_TO_LE v = v"

definition GINT64_TO_BE :: "target \<Rightarrow> guint64 \<Rightarrow> guint64" where
  "GINT64_TO_BE t v = GUINT64_SWAP_LE_BE t v"

definition GUINT64_TO_BE :: "target \<Rightarrow> guint64 \<Rightarrow> guint64" where
  "GUINT64_TO_BE t v = GUINT64_SWAP_LE_BE t v"

definition GLONG_TO_LE :: "guint64 \<Rightarrow> guint64" where
  "GLONG_TO_LE v = GINT64_TO_LE v"

definition GLONG_TO_BE :: "target \<Rightarrow> guint64 \<Rightarrow> guint64" where
  "GLONG_TO_BE t v = GINT64_TO_BE t v"

definition GULONG_TO_LE :: "guint64 \<Rightarrow> guint64" where
  "GULONG_TO_LE v = GUINT64_TO_LE v"

definition GULONG_TO_BE :: "target \<Rightarrow> guint64 \<Rightarrow> guint64" where
  "GULONG_TO_BE t v = GUINT64_TO_BE t v"

definition GINT_TO_LE :: "guint32 \<Rightarrow> guint32" where
  "GINT_TO_LE v = GINT32_TO_LE v"

definition GINT_TO_BE :: "target \<Rightarrow> guint32 \<Rightarrow> guint32" where
  "GINT_TO_BE t v = GINT32_TO_BE t v"

definition GUINT_TO_LE :: "guint32 \<Rightarrow> guint32" where
  "GUINT_TO_LE v = GUINT32_TO_LE v"

definition GUINT_TO_BE :: "target \<Rightarrow> guint32 \<Rightarrow> guint32" where
  "GUINT_TO_BE t v = GUINT32_TO_BE t v"

definition GSIZE_TO_LE :: "guint64 \<Rightarrow> guint64" where
  "GSIZE_TO_LE v = GUINT64_TO_LE v"

definition GSIZE_TO_BE :: "target \<Rightarrow> guint64 \<Rightarrow> guint64" where
  "GSIZE_TO_BE t v = GUINT64_TO_BE t v"

definition GSSIZE_TO_LE :: "guint64 \<Rightarrow> guint64" where
  "GSSIZE_TO_LE v = GINT64_TO_LE v"

definition GSSIZE_TO_BE :: "target \<Rightarrow> guint64 \<Rightarrow> guint64" where
  "GSSIZE_TO_BE t v = GINT64_TO_BE t v"

definition GINT16_FROM_LE :: "guint16 \<Rightarrow> guint16" where
  "GINT16_FROM_LE v = GINT16_TO_LE v"

definition GINT16_FROM_BE :: "target \<Rightarrow> guint16 \<Rightarrow> guint16" where
  "GINT16_FROM_BE t v = GINT16_TO_BE t v"

definition GUINT16_FROM_LE :: "guint16 \<Rightarrow> guint16" where
  "GUINT16_FROM_LE v = GUINT16_TO_LE v"

definition GUINT16_FROM_BE :: "target \<Rightarrow> guint16 \<Rightarrow> guint16" where
  "GUINT16_FROM_BE t v = GUINT16_TO_BE t v"

definition GINT32_FROM_LE :: "guint32 \<Rightarrow> guint32" where
  "GINT32_FROM_LE v = GINT32_TO_LE v"

definition GINT32_FROM_BE :: "target \<Rightarrow> guint32 \<Rightarrow> guint32" where
  "GINT32_FROM_BE t v = GINT32_TO_BE t v"

definition GUINT32_FROM_LE :: "guint32 \<Rightarrow> guint32" where
  "GUINT32_FROM_LE v = GUINT32_TO_LE v"

definition GUINT32_FROM_BE :: "target \<Rightarrow> guint32 \<Rightarrow> guint32" where
  "GUINT32_FROM_BE t v = GUINT32_TO_BE t v"

definition GINT64_FROM_LE :: "guint64 \<Rightarrow> guint64" where
  "GINT64_FROM_LE v = GINT64_TO_LE v"

definition GINT64_FROM_BE :: "target \<Rightarrow> guint64 \<Rightarrow> guint64" where
  "GINT64_FROM_BE t v = GINT64_TO_BE t v"

definition GUINT64_FROM_LE :: "guint64 \<Rightarrow> guint64" where
  "GUINT64_FROM_LE v = GUINT64_TO_LE v"

definition GUINT64_FROM_BE :: "target \<Rightarrow> guint64 \<Rightarrow> guint64" where
  "GUINT64_FROM_BE t v = GUINT64_TO_BE t v"

definition GLONG_FROM_LE :: "guint64 \<Rightarrow> guint64" where
  "GLONG_FROM_LE v = GLONG_TO_LE v"

definition GLONG_FROM_BE :: "target \<Rightarrow> guint64 \<Rightarrow> guint64" where
  "GLONG_FROM_BE t v = GLONG_TO_BE t v"

definition GULONG_FROM_LE :: "guint64 \<Rightarrow> guint64" where
  "GULONG_FROM_LE v = GULONG_TO_LE v"

definition GULONG_FROM_BE :: "target \<Rightarrow> guint64 \<Rightarrow> guint64" where
  "GULONG_FROM_BE t v = GULONG_TO_BE t v"

definition GINT_FROM_LE :: "guint32 \<Rightarrow> guint32" where
  "GINT_FROM_LE v = GINT_TO_LE v"

definition GINT_FROM_BE :: "target \<Rightarrow> guint32 \<Rightarrow> guint32" where
  "GINT_FROM_BE t v = GINT_TO_BE t v"

definition GUINT_FROM_LE :: "guint32 \<Rightarrow> guint32" where
  "GUINT_FROM_LE v = GUINT_TO_LE v"

definition GUINT_FROM_BE :: "target \<Rightarrow> guint32 \<Rightarrow> guint32" where
  "GUINT_FROM_BE t v = GUINT_TO_BE t v"

definition GSIZE_FROM_LE :: "guint64 \<Rightarrow> guint64" where
  "GSIZE_FROM_LE v = GSIZE_TO_LE v"

definition GSIZE_FROM_BE :: "target \<Rightarrow> guint64 \<Rightarrow> guint64" where
  "GSIZE_FROM_BE t v = GSIZE_TO_BE t v"

definition GSSIZE_FROM_LE :: "guint64 \<Rightarrow> guint64" where
  "GSSIZE_FROM_LE v = GSSIZE_TO_LE v"

definition GSSIZE_FROM_BE :: "target \<Rightarrow> guint64 \<Rightarrow> guint64" where
  "GSSIZE_FROM_BE t v = GSSIZE_TO_BE t v"

definition g_ntohl :: "target \<Rightarrow> guint32 \<Rightarrow> guint32" where
  "g_ntohl t v = GUINT32_FROM_BE t v"

definition g_ntohs :: "target \<Rightarrow> guint16 \<Rightarrow> guint16" where
  "g_ntohs t v = GUINT16_FROM_BE t v"

definition g_htonl :: "target \<Rightarrow> guint32 \<Rightarrow> guint32" where
  "g_htonl t v = GUINT32_TO_BE t v"

definition g_htons :: "target \<Rightarrow> guint16 \<Rightarrow> guint16" where
  "g_htons t v = GUINT16_TO_BE t v"

lemmas conversion_defs =
  GINT16_TO_LE_def GINT16_TO_BE_def GUINT16_TO_LE_def GUINT16_TO_BE_def GINT32_TO_LE_def
  GINT32_TO_BE_def GUINT32_TO_LE_def GUINT32_TO_BE_def GINT64_TO_LE_def GINT64_TO_BE_def
  GUINT64_TO_LE_def GUINT64_TO_BE_def GLONG_TO_LE_def GLONG_TO_BE_def GULONG_TO_LE_def
  GULONG_TO_BE_def GINT_TO_LE_def GINT_TO_BE_def GUINT_TO_LE_def GUINT_TO_BE_def GSIZE_TO_LE_def
  GSIZE_TO_BE_def GSSIZE_TO_LE_def GSSIZE_TO_BE_def GINT16_FROM_LE_def GINT16_FROM_BE_def
  GUINT16_FROM_LE_def GUINT16_FROM_BE_def GINT32_FROM_LE_def GINT32_FROM_BE_def
  GUINT32_FROM_LE_def GUINT32_FROM_BE_def GINT64_FROM_LE_def GINT64_FROM_BE_def
  GUINT64_FROM_LE_def GUINT64_FROM_BE_def GLONG_FROM_LE_def GLONG_FROM_BE_def GULONG_FROM_LE_def
  GULONG_FROM_BE_def GINT_FROM_LE_def GINT_FROM_BE_def GUINT_FROM_LE_def GUINT_FROM_BE_def
  GSIZE_FROM_LE_def GSIZE_FROM_BE_def GSSIZE_FROM_LE_def GSSIZE_FROM_BE_def g_ntohl_def
  g_ntohs_def g_htonl_def g_htons_def

section \<open>\<open>gtypes.h\<close>: checked arithmetic\<close>

text \<open>
  The built-ins compute in unbounded precision, store the wrapped result and return whether it
  did not fit.  Each function returns what it stores in \<open>dest\<close> and its result; \<open>builtins\<close> is
  \<open>_GLIB_HAVE_BUILTIN_OVERFLOW_CHECKS\<close>.
\<close>

definition builtin_add_overflow :: "'a::len word \<Rightarrow> 'a word \<Rightarrow> 'a word \<times> bool" where
  "builtin_add_overflow a b = (a + b, 2 ^ LENGTH('a) \<le> unat a + unat b)"

definition builtin_mul_overflow :: "'a::len word \<Rightarrow> 'a word \<Rightarrow> 'a word \<times> bool" where
  "builtin_mul_overflow a b = (a * b, 2 ^ LENGTH('a) \<le> unat a * unat b)"

definition fallback_add :: "'a::len word \<Rightarrow> 'a word \<Rightarrow> 'a word \<times> bool" where
  "fallback_add a b = (let r = a + b in (r, a \<le> r))"

definition fallback_mul :: "'a::len word \<Rightarrow> 'a word \<Rightarrow> 'a word \<times> bool" where
  "fallback_mul a b = (let r = a * b in (r, a = 0 \<or> r div a = b))"

definition GLIB_CHECKED_ADD_U32 :: "bool \<Rightarrow> guint32 \<Rightarrow> guint32 \<Rightarrow> guint32 \<times> bool" where
  "GLIB_CHECKED_ADD_U32 builtins a b =
     (if builtins then apsnd Not (builtin_add_overflow a b) else fallback_add a b)"

definition GLIB_CHECKED_MUL_U32 :: "bool \<Rightarrow> guint32 \<Rightarrow> guint32 \<Rightarrow> guint32 \<times> bool" where
  "GLIB_CHECKED_MUL_U32 builtins a b =
     (if builtins then apsnd Not (builtin_mul_overflow a b) else fallback_mul a b)"

definition GLIB_CHECKED_ADD_U64 :: "bool \<Rightarrow> guint64 \<Rightarrow> guint64 \<Rightarrow> guint64 \<times> bool" where
  "GLIB_CHECKED_ADD_U64 builtins a b =
     (if builtins then apsnd Not (builtin_add_overflow a b) else fallback_add a b)"

definition GLIB_CHECKED_MUL_U64 :: "bool \<Rightarrow> guint64 \<Rightarrow> guint64 \<Rightarrow> guint64 \<times> bool" where
  "GLIB_CHECKED_MUL_U64 builtins a b =
     (if builtins then apsnd Not (builtin_mul_overflow a b) else fallback_mul a b)"

definition g_uint_checked_add :: "bool \<Rightarrow> guint32 \<Rightarrow> guint32 \<Rightarrow> guint32 \<times> bool" where
  "g_uint_checked_add = GLIB_CHECKED_ADD_U32"

definition g_uint_checked_mul :: "bool \<Rightarrow> guint32 \<Rightarrow> guint32 \<Rightarrow> guint32 \<times> bool" where
  "g_uint_checked_mul = GLIB_CHECKED_MUL_U32"

definition g_uint64_checked_add :: "bool \<Rightarrow> guint64 \<Rightarrow> guint64 \<Rightarrow> guint64 \<times> bool" where
  "g_uint64_checked_add = GLIB_CHECKED_ADD_U64"

definition g_uint64_checked_mul :: "bool \<Rightarrow> guint64 \<Rightarrow> guint64 \<Rightarrow> guint64 \<times> bool" where
  "g_uint64_checked_mul = GLIB_CHECKED_MUL_U64"

text \<open>\<open>GLIB_SIZEOF_SIZE_T\<close> is 8 on the platforms the tree is built for.\<close>

definition g_size_checked_add :: "bool \<Rightarrow> guint64 \<Rightarrow> guint64 \<Rightarrow> guint64 \<times> bool" where
  "g_size_checked_add = GLIB_CHECKED_ADD_U64"

definition g_size_checked_mul :: "bool \<Rightarrow> guint64 \<Rightarrow> guint64 \<Rightarrow> guint64 \<times> bool" where
  "g_size_checked_mul = GLIB_CHECKED_MUL_U64"

section \<open>\<open>gtypes.h\<close>: the fields of an IEEE 754 pattern\<close>

text \<open>
  Bit fields are allocated from the least significant bit on a little-endian target and from
  the most significant on a big-endian one; the unions list them in the order that suits.
\<close>

primrec fields_from_lsb :: "nat list \<Rightarrow> 'a::len word \<Rightarrow> nat list" where
  "fields_from_lsb [] v = []"
| "fields_from_lsb (w # ws) v = unat (take_bit w v) # fields_from_lsb ws (drop_bit w v)"

definition bit_fields :: "byte_order \<Rightarrow> nat list \<Rightarrow> 'a::len word \<Rightarrow> nat list" where
  "bit_fields bo ws v =
     (case bo of G_LITTLE_ENDIAN \<Rightarrow> fields_from_lsb ws v
               | G_BIG_ENDIAN \<Rightarrow> rev (fields_from_lsb (rev ws) v))"

record float_mpn =
  mantissa :: nat
  biased_exponent :: nat
  ieee_sign :: nat

record double_mpn =
  mantissa_low :: nat
  mantissa_high :: nat
  biased_exponent_d :: nat
  ieee_sign_d :: nat

definition GFloatIEEE754 :: "byte_order \<Rightarrow> guint32 \<Rightarrow> float_mpn" where
  "GFloatIEEE754 bo v =
     (case bo of
        G_LITTLE_ENDIAN \<Rightarrow>
          (let f = bit_fields bo [23, 8, 1] v
           in \<lparr>mantissa = f ! 0, biased_exponent = f ! 1, ieee_sign = f ! 2\<rparr>)
      | G_BIG_ENDIAN \<Rightarrow>
          (let f = bit_fields bo [1, 8, 23] v
           in \<lparr>mantissa = f ! 2, biased_exponent = f ! 1, ieee_sign = f ! 0\<rparr>))"

definition GDoubleIEEE754 :: "byte_order \<Rightarrow> guint64 \<Rightarrow> double_mpn" where
  "GDoubleIEEE754 bo v =
     (case bo of
        G_LITTLE_ENDIAN \<Rightarrow>
          (let f = bit_fields bo [32, 20, 11, 1] v
           in \<lparr>mantissa_low = f ! 0, mantissa_high = f ! 1, biased_exponent_d = f ! 2,
               ieee_sign_d = f ! 3\<rparr>)
      | G_BIG_ENDIAN \<Rightarrow>
          (let f = bit_fields bo [1, 11, 20, 32] v
           in \<lparr>mantissa_low = f ! 3, mantissa_high = f ! 2, biased_exponent_d = f ! 1,
               ieee_sign_d = f ! 0\<rparr>))"

definition G_IEEE754_FLOAT_BIAS :: nat where
  "G_IEEE754_FLOAT_BIAS = 127"

definition G_IEEE754_DOUBLE_BIAS :: nat where
  "G_IEEE754_DOUBLE_BIAS = 1023"

section \<open>Properties\<close>

lemma swap_pdp_masks:
  "(0x00ff00ff :: guint32) = mask 8 OR push_bit 16 (mask 8)"
  "(0xff00ff00 :: guint32) = push_bit 8 (mask 8) OR push_bit 24 (mask 8)"
  by (simp_all add: mask_eq_exp_minus_1 push_bit_eq_mult)

lemma swap16: "GUINT16_SWAP_LE_BE t v = bswap 2 v"
  by (simp add: GUINT16_SWAP_LE_BE_def swap16_constant swap16_ia32 swap16_ia64 split: swap_target.split)

lemma swap32: "GUINT32_SWAP_LE_BE t v = bswap 4 v"
  by (simp add: GUINT32_SWAP_LE_BE_def GUINT32_SWAP_LE_BE_I486_def GUINT32_SWAP_LE_BE_X86_64_def
      swap32_constant swap32_i386 swap32_ia64 split: swap_target.split)

lemma swap64: "GUINT64_SWAP_LE_BE t v = bswap 8 v"
proof -
  have "GUINT32_SWAP_LE_BE t = bswap 4" by (rule ext) (rule swap32)
  then show ?thesis
    by (simp add: GUINT64_SWAP_LE_BE_def GUINT64_SWAP_LE_BE_IA64_def GUINT64_SWAP_LE_BE_X86_64_def
        swap64_constant swap64_ia32 split: swap_target.split)
qed

lemma word_bytes_bswap:
  fixes v :: "'a::len word"
  assumes "LENGTH('a) = 8 * n"
  shows "word_bytes n (bswap n v) = rev (word_bytes n v)"
  using assms word_bytes_word[of "rev (word_bytes n v)", where ?'a = 'a] by (simp add: bswap_def)

lemma pdp_swap32:
  "GUINT32_SWAP_BE_PDP (GUINT32_SWAP_LE_PDP v) = bswap 4 v"
  by (rule word32_eqI)
    (simp add: GUINT32_SWAP_BE_PDP_def GUINT32_SWAP_LE_PDP_def swap_masks bit_bswap each_bit
      swap_pdp_masks)

text \<open>
  On every compilation target the swap macros compute the same function: the bytes of the
  result are the bytes of the argument reversed, so swapping twice changes nothing, and going
  from little-endian to PDP order and from there to big-endian is a swap.
\<close>

theorem swap_reverses_bytes:
  "word_bytes 2 (GUINT16_SWAP_LE_BE t v16) = rev (word_bytes 2 v16) \<and>
   word_bytes 4 (GUINT32_SWAP_LE_BE t v32) = rev (word_bytes 4 v32) \<and>
   word_bytes 8 (GUINT64_SWAP_LE_BE t v64) = rev (word_bytes 8 v64) \<and>
   GUINT16_SWAP_LE_BE t (GUINT16_SWAP_LE_BE t v16) = v16 \<and>
   GUINT32_SWAP_LE_BE t (GUINT32_SWAP_LE_BE t v32) = v32 \<and>
   GUINT64_SWAP_LE_BE t (GUINT64_SWAP_LE_BE t v64) = v64 \<and>
   GUINT32_SWAP_BE_PDP (GUINT32_SWAP_LE_PDP v32) = GUINT32_SWAP_LE_BE t v32 \<and>
   GUINT16_SWAP_BE_PDP t (GUINT16_SWAP_LE_PDP v16) = GUINT16_SWAP_LE_BE t v16"
  by (simp add: swap16 swap32 swap64 word_bytes_bswap bswap_bswap pdp_swap32
      GUINT16_SWAP_BE_PDP_def GUINT16_SWAP_LE_PDP_def)

lemma fallback_add_exact: "fallback_add a b = apsnd Not (builtin_add_overflow a b)"
proof -
  have "a \<le> a + b \<longleftrightarrow> unat a + unat b < 2 ^ LENGTH('a)" for a b :: "'a::len word"
    by (metis (no_types, lifting) le_add_same_cancel1 not_less unat_add_lem word_le_nat_alt
        no_olen_add_nat)
  then show ?thesis by (simp add: fallback_add_def builtin_add_overflow_def Let_def not_le)
qed

lemma fallback_mul_exact: "fallback_mul a b = apsnd Not (builtin_mul_overflow a b)"
proof -
  have "a = 0 \<or> (a * b) div a = b \<longleftrightarrow> unat a * unat b < 2 ^ LENGTH('a)" for a b :: "'a::len word"
  proof (cases "a = 0")
    case False
    then have pos: "0 < unat a" by (simp add: unat_gt_0)
    show ?thesis
    proof
      assume "a = 0 \<or> (a * b) div a = b"
      then have "unat (a * b) div unat a = unat b" using False by (metis unat_div)
      then have "unat a * unat b \<le> unat (a * b)" by (metis div_times_less_eq_dividend mult.commute)
      then show "unat a * unat b < 2 ^ LENGTH('a)" using unsigned_less[of "a * b", where ?'a = nat] by linarith
    next
      assume "unat a * unat b < 2 ^ LENGTH('a)"
      then have "unat (a * b) = unat a * unat b" by (simp add: unat_mult_lem)
      then have "unat ((a * b) div a) = unat b" using pos by (simp add: unat_div)
      then show "a = 0 \<or> (a * b) div a = b" by (blast intro: unsigned_word_eqI)
    qed
  qed simp
  then show ?thesis by (simp add: fallback_mul_def builtin_mul_overflow_def Let_def not_le)
qed

lemma fits32:
  fixes a b :: guint32
  shows "unat a + unat b < 4294967296 \<Longrightarrow> unat (a + b) = unat a + unat b"
    and "unat a * unat b < 4294967296 \<Longrightarrow> unat (a * b) = unat a * unat b"
  using unat_add_lem[of a b] unat_mult_lem[of a b] by simp_all

lemma fits64:
  fixes a b :: guint64
  shows "unat a + unat b < 18446744073709551616 \<Longrightarrow> unat (a + b) = unat a + unat b"
    and "unat a * unat b < 18446744073709551616 \<Longrightarrow> unat (a * b) = unat a * unat b"
  using unat_add_lem[of a b] unat_mult_lem[of a b] by simp_all

text \<open>
  The checked additions and multiplications of unsigned integers return true exactly when the
  mathematical result fits the type, and then store it; the portable fallback and the version
  over the compiler's built-ins do the same.
\<close>

theorem checked_arithmetic:
  "snd (g_uint_checked_add builtins a b) = (unat a + unat b < 2 ^ 32) \<and>
   (snd (g_uint_checked_add builtins a b) \<longrightarrow>
      unat (fst (g_uint_checked_add builtins a b)) = unat a + unat b) \<and>
   snd (g_uint_checked_mul builtins a b) = (unat a * unat b < 2 ^ 32) \<and>
   (snd (g_uint_checked_mul builtins a b) \<longrightarrow>
      unat (fst (g_uint_checked_mul builtins a b)) = unat a * unat b) \<and>
   snd (g_size_checked_add builtins c d) = (unat c + unat d < 2 ^ 64) \<and>
   (snd (g_size_checked_add builtins c d) \<longrightarrow>
      unat (fst (g_size_checked_add builtins c d)) = unat c + unat d) \<and>
   snd (g_size_checked_mul builtins c d) = (unat c * unat d < 2 ^ 64) \<and>
   (snd (g_size_checked_mul builtins c d) \<longrightarrow>
      unat (fst (g_size_checked_mul builtins c d)) = unat c * unat d) \<and>
   g_uint64_checked_add = g_size_checked_add \<and> g_uint64_checked_mul = g_size_checked_mul"
  by (simp add: g_uint_checked_add_def g_uint_checked_mul_def g_size_checked_add_def
      g_size_checked_mul_def g_uint64_checked_add_def g_uint64_checked_mul_def
      GLIB_CHECKED_ADD_U32_def GLIB_CHECKED_MUL_U32_def GLIB_CHECKED_ADD_U64_def
      GLIB_CHECKED_MUL_U64_def fallback_add_exact fallback_mul_exact builtin_add_overflow_def
      builtin_mul_overflow_def not_le fits32 fits64)

lemma checked_arithmetic_witness:
  "snd (g_uint_checked_mul False 0x10000 0x10000) = False \<and>
   unat (fst (g_size_checked_mul True 0x10000 0x10000)) = 0x100000000"
  using checked_arithmetic[of False "0x10000" "0x10000" 0 0]
    checked_arithmetic[of True 0 0 "0x10000" "0x10000"] by simp

text \<open>
  Host and network order: reading four bytes of memory as a native little-endian \<open>guint32\<close> and
  applying \<open>g_ntohl\<close> gives the big-endian value of these bytes, converting to the network and
  back is the identity, and so is every other pair of conversions.
\<close>

theorem network_order:
  "g_ntohl t (bytes_word [b0, b1, b2, b3]) = bytes_word [b3, b2, b1, b0] \<and>
   g_ntohs t (bytes_word [b0, b1]) = bytes_word [b1, b0] \<and>
   g_ntohl t (g_htonl t v32) = v32 \<and> g_ntohs t (g_htons t v16) = v16 \<and>
   GUINT64_FROM_BE t (GUINT64_TO_BE t v64) = v64 \<and> GINT64_FROM_BE t (GINT64_TO_BE t v64) = v64 \<and>
   GINT32_FROM_BE t (GINT32_TO_BE t v32) = v32 \<and> GINT16_FROM_BE t (GINT16_TO_BE t v16) = v16 \<and>
   GLONG_FROM_BE t (GLONG_TO_BE t v64) = v64 \<and> GULONG_FROM_BE t (GULONG_TO_BE t v64) = v64 \<and>
   GINT_FROM_BE t (GINT_TO_BE t v32) = v32 \<and> GUINT_FROM_BE t (GUINT_TO_BE t v32) = v32 \<and>
   GSIZE_FROM_BE t (GSIZE_TO_BE t v64) = v64 \<and> GSSIZE_FROM_BE t (GSSIZE_TO_BE t v64) = v64"
proof -
  have "word_bytes (length [b0, b1, b2, b3]) (bytes_word [b0, b1, b2, b3] :: guint32) = [b0, b1, b2, b3]"
    "word_bytes (length [b0, b1]) (bytes_word [b0, b1] :: guint16) = [b0, b1]"
    by (rule word_bytes_word, simp)+
  then have "word_bytes 4 (bytes_word [b0, b1, b2, b3] :: guint32) = [b0, b1, b2, b3]"
    "word_bytes 2 (bytes_word [b0, b1] :: guint16) = [b0, b1]"
    by (simp_all add: eval_nat_numeral del: bytes_word.simps)
  then have "bswap 4 (bytes_word [b0, b1, b2, b3] :: guint32) = bytes_word [b3, b2, b1, b0]"
    "bswap 2 (bytes_word [b0, b1] :: guint16) = bytes_word [b1, b0]"
    by (simp_all add: bswap_def del: bytes_word.simps)
  then show ?thesis
    by (simp add: conversion_defs swap16 swap32 swap64 bswap_bswap del: bytes_word.simps)
qed

lemma bit_fields_sum:
  "unat (v :: 'a::len word) = unat (take_bit w v) + 2 ^ w * unat (drop_bit w v)"
  by (simp only: unsigned_take_bit_eq unat_drop_bit_eq) (simp add: take_bit_eq_mod drop_bit_eq_div)

lemma top_field: "take_bit (LENGTH('a) - n) (drop_bit n v) = drop_bit n (v :: 'a::len word)"
  by (rule bit_word_eqI) (auto simp: bit_simps dest: bit_imp_le_length)

text \<open>
  The unions over a floating-point pattern name the same fields on targets of both byte
  orders, and the fields make up the whole pattern.
\<close>

theorem ieee_fields:
  "GFloatIEEE754 G_BIG_ENDIAN f = GFloatIEEE754 G_LITTLE_ENDIAN f \<and>
   GDoubleIEEE754 G_BIG_ENDIAN d = GDoubleIEEE754 G_LITTLE_ENDIAN d \<and>
   unat f = mantissa (GFloatIEEE754 bo f) + 2 ^ 23 * biased_exponent (GFloatIEEE754 bo f)
     + 2 ^ 31 * ieee_sign (GFloatIEEE754 bo f) \<and>
   unat d = mantissa_low (GDoubleIEEE754 bo d) + 2 ^ 32 * mantissa_high (GDoubleIEEE754 bo d)
     + 2 ^ 52 * biased_exponent_d (GDoubleIEEE754 bo d) + 2 ^ 63 * ieee_sign_d (GDoubleIEEE754 bo d)"
proof -
  have f: "unat f = unat (take_bit 23 f) + 2 ^ 23 * unat (take_bit 8 (drop_bit 23 f))
      + 2 ^ 31 * unat (take_bit (Suc 0) (drop_bit 31 f))"
    using bit_fields_sum[of f 23] bit_fields_sum[of "drop_bit 23 f" 8] top_field[of 31 f] by simp
  have d: "unat d = unat (take_bit 32 d) + 2 ^ 32 * unat (take_bit 20 (drop_bit 32 d))
      + 2 ^ 52 * unat (take_bit 11 (drop_bit 52 d)) + 2 ^ 63 * unat (take_bit (Suc 0) (drop_bit 63 d))"
    using bit_fields_sum[of d 32] bit_fields_sum[of "drop_bit 32 d" 20]
      bit_fields_sum[of "drop_bit 52 d" 11] top_field[of 63 d] by simp
  show ?thesis using f d
    by (cases bo) (simp_all add: GFloatIEEE754_def GDoubleIEEE754_def bit_fields_def Let_def)
qed

end
