(* ===== verification/Gst_Utils.thy ===== *)
theory Gst_Utils
  imports Byte_Order
begin

text \<open>
  The memory access macros of \<open>gst/gstutils.h\<close>: reading and writing integers and floating-point
  numbers of either byte order at any address, in the version for targets that allow unaligned
  access (a native access, swapped if need be) and in the byte-by-byte version, and the rounding
  macros.  The lemmas identify every version with the bytes at the address.
\<close>

section \<open>Reading and writing memory\<close>

text \<open>What the configuration fixes, and a floating-point number as the pattern of its bits.\<close>

record platform =
  compiler :: target
  G_BYTE_ORDER :: byte_order
  GST_HAVE_UNALIGNED_ACCESS :: bool

type_synonym gfloat = guint32
type_synonym gdouble = guint64

text \<open>An access through a pointer to an integer of \<open>n\<close> bytes.\<close>

definition native_read :: "platform \<Rightarrow> nat \<Rightarrow> mem \<Rightarrow> nat \<Rightarrow> 'a::len word" where
  "native_read pf n m p =
     bytes_word (case G_BYTE_ORDER pf of G_LITTLE_ENDIAN \<Rightarrow> mem_bytes m p n
                                       | G_BIG_ENDIAN \<Rightarrow> rev (mem_bytes m p n))"

definition native_write :: "platform \<Rightarrow> nat \<Rightarrow> mem \<Rightarrow> nat \<Rightarrow> 'a::len word \<Rightarrow> mem" where
  "native_write pf n m p v =
     mem_store m p (case G_BYTE_ORDER pf of G_LITTLE_ENDIAN \<Rightarrow> word_bytes n v
                                          | G_BIG_ENDIAN \<Rightarrow> rev (word_bytes n v))"

definition GST_GET :: "mem \<Rightarrow> nat \<Rightarrow> nat \<Rightarrow> nat \<Rightarrow> 'a::len word" where
  "GST_GET m data idx shift = push_bit shift (ucast (m (data + idx)))"

definition GST_PUT :: "nat \<Rightarrow> nat \<Rightarrow> nat \<Rightarrow> 'a::len word \<Rightarrow> mem \<Rightarrow> mem" where
  "GST_PUT data idx shift num m = m(data + idx := ucast (drop_bit shift num AND 0xff))"

definition gst_fast_read16 :: "platform \<Rightarrow> mem \<Rightarrow> nat \<Rightarrow> guint16" where
  "gst_fast_read16 pf m v =
     native_read pf 2 m v"

definition gst_fast_read32 :: "platform \<Rightarrow> mem \<Rightarrow> nat \<Rightarrow> guint32" where
  "gst_fast_read32 pf m v =
     native_read pf 4 m v"

definition gst_fast_read64 :: "platform \<Rightarrow> mem \<Rightarrow> nat \<Rightarrow> guint64" where
  "gst_fast_read64 pf m v =
     native_read pf 8 m v"

definition gst_fast_read_swap16 :: "platform \<Rightarrow> mem \<Rightarrow> nat \<Rightarrow> guint16" where
  "gst_fast_read_swap16 pf m v =
     GUINT16_SWAP_LE_BE (compiler pf) (native_read pf 2 m v)"

definition gst_fast_read_swap32 :: "platform \<Rightarrow> mem \<Rightarrow> nat \<Rightarrow> guint32" where
  "gst_fast_read_swap32 pf m v =
     GUINT32_SWAP_LE_BE (compiler pf) (native_read pf 4 m v)"

definition gst_fast_read_swap64 :: "platform \<Rightarrow> mem \<Rightarrow> nat \<Rightarrow> guint64" where
  "gst_fast_read_swap64 pf m v =
     GUINT64_SWAP_LE_BE (compiler pf) (native_read pf 8 m v)"

definition gst_fast_write16 :: "platform \<Rightarrow> nat \<Rightarrow> guint16 \<Rightarrow> mem \<Rightarrow> mem" where
  "gst_fast_write16 pf p v m =
     native_write pf 2 m p v"

definition gst_fast_write32 :: "platform \<Rightarrow> nat \<Rightarrow> guint32 \<Rightarrow> mem \<Rightarrow> mem" where
  "gst_fast_write32 pf p v m =
     native_write pf 4 m p v"

definition gst_fast_write64 :: "platform \<Rightarrow> nat \<Rightarrow> guint64 \<Rightarrow> mem \<Rightarrow> mem" where
  "gst_fast_write64 pf p v m =
     native_write pf 8 m p v"

definition gst_fast_write_swap16 :: "platform \<Rightarrow> nat \<Rightarrow> guint16 \<Rightarrow> mem \<Rightarrow> mem" where
  "gst_fast_write_swap16 pf p v m =
     native_write pf 2 m p (GUINT16_SWAP_LE_BE (compiler pf) v)"

definition gst_fast_write_swap32 :: "platform \<Rightarrow> nat \<Rightarrow> guint32 \<Rightarrow> mem \<Rightarrow> mem" where
  "gst_fast_write_swap32 pf p v m =
     native_write pf 4 m p (GUINT32_SWAP_LE_BE (compiler pf) v)"

definition gst_fast_write_swap64 :: "platform \<Rightarrow> nat \<Rightarrow> guint64 \<Rightarrow> mem \<Rightarrow> mem" where
  "gst_fast_write_swap64 pf p v m =
     native_write pf 8 m p (GUINT64_SWAP_LE_BE (compiler pf) v)"

definition gst_slow_read64_be :: "mem \<Rightarrow> nat \<Rightarrow> guint64" where
  "gst_slow_read64_be m data =
     GST_GET m data 0 56 OR GST_GET m data 1 48 OR GST_GET m data 2 40 OR
     GST_GET m data 3 32 OR GST_GET m data 4 24 OR GST_GET m data 5 16 OR
     GST_GET m data 6 8 OR GST_GET m data 7 0"

definition gst_slow_read64_le :: "mem \<Rightarrow> nat \<Rightarrow> guint64" where
  "gst_slow_read64_le m data =
     GST_GET m data 7 56 OR GST_GET m data 6 48 OR GST_GET m data 5 40 OR
     GST_GET m data 4 32 OR GST_GET m data 3 24 OR GST_GET m data 2 16 OR
     GST_GET m data 1 8 OR GST_GET m data 0 0"

definition gst_slow_read32_be :: "mem \<Rightarrow> nat \<Rightarrow> guint32" where
  "gst_slow_read32_be m data =
     GST_GET m data 0 24 OR GST_GET m data 1 16 OR GST_GET m data 2 8 OR GST_GET m data 3 0"

definition gst_slow_read32_le :: "mem \<Rightarrow> nat \<Rightarrow> guint32" where
  "gst_slow_read32_le m data =
     GST_GET m data 3 24 OR GST_GET m data 2 16 OR GST_GET m data 1 8 OR GST_GET m data 0 0"

definition gst_slow_read24_be :: "mem \<Rightarrow> nat \<Rightarrow> guint32" where
  "gst_slow_read24_be m data =
     GST_GET m data 0 16 OR GST_GET m data 1 8 OR GST_GET m data 2 0"

definition gst_slow_read24_le :: "mem \<Rightarrow> nat \<Rightarrow> guint32" where
  "gst_slow_read24_le m data =
     GST_GET m data 2 16 OR GST_GET m data 1 8 OR GST_GET m data 0 0"

definition gst_slow_read16_be :: "mem \<Rightarrow> nat \<Rightarrow> guint16" where
  "gst_slow_read16_be m data =
     GST_GET m data 0 8 OR GST_GET m data 1 0"

definition gst_slow_read16_le :: "mem \<Rightarrow> nat \<Rightarrow> guint16" where
  "gst_slow_read16_le m data =
     GST_GET m data 1 8 OR GST_GET m data 0 0"

definition GST_READ_UINT64_BE :: "platform \<Rightarrow> mem \<Rightarrow> nat \<Rightarrow> guint64" where
  "GST_READ_UINT64_BE pf m data =
     (if GST_HAVE_UNALIGNED_ACCESS pf
      then if G_BYTE_ORDER pf = G_BIG_ENDIAN then gst_fast_read64 pf m data else gst_fast_read_swap64 pf m data
      else gst_slow_read64_be m data)"

definition GST_READ_UINT64_LE :: "platform \<Rightarrow> mem \<Rightarrow> nat \<Rightarrow> guint64" where
  "GST_READ_UINT64_LE pf m data =
     (if GST_HAVE_UNALIGNED_ACCESS pf
      then if G_BYTE_ORDER pf = G_LITTLE_ENDIAN then gst_fast_read64 pf m data else gst_fast_read_swap64 pf m data
      else gst_slow_read64_le m data)"

definition GST_READ_UINT32_BE :: "platform \<Rightarrow> mem \<Rightarrow> nat \<Rightarrow> guint32" where
  "GST_READ_UINT32_BE pf m data =
     (if GST_HAVE_UNALIGNED_ACCESS pf
      then if G_BYTE_ORDER pf = G_BIG_ENDIAN then gst_fast_read32 pf m data else gst_fast_read_swap32 pf m data
      else gst_slow_read32_be m data)"

definition GST_READ_UINT32_LE :: "platform \<Rightarrow> mem \<Rightarrow> nat \<Rightarrow> guint32" where
  "GST_READ_UINT32_LE pf m data =
     (if GST_HAVE_UNALIGNED_ACCESS pf
      then if G_BYTE_ORDER pf = G_LITTLE_ENDIAN then gst_fast_read32 pf m data else gst_fast_read_swap32 pf m data
      else gst_slow_read32_le m data)"

definition GST_READ_UINT16_BE :: "platform \<Rightarrow> mem \<Rightarrow> nat \<Rightarrow> guint16" where
  "GST_READ_UINT16_BE pf m data =
     (if GST_HAVE_UNALIGNED_ACCESS pf
      then if G_BYTE_ORDER pf = G_BIG_ENDIAN then gst_fast_read16 pf m data else gst_fast_read_swap16 pf m data
      else gst_slow_read16_be m data)"

definition GST_READ_UINT16_LE :: "platform \<Rightarrow> mem \<Rightarrow> nat \<Rightarrow> guint16" where
  "GST_READ_UINT16_LE pf m data =
     (if GST_HAVE_UNALIGNED_ACCESS pf
      then if G_BYTE_ORDER pf = G_LITTLE_ENDIAN then gst_fast_read16 pf m data else gst_fast_read_swap16 pf m data
      else gst_slow_read16_le m data)"

definition GST_READ_UINT24_BE :: "mem \<Rightarrow> nat \<Rightarrow> guint32" where
  "GST_READ_UINT24_BE m data =
     gst_slow_read24_be m data"

definition GST_READ_UINT24_LE :: "mem \<Rightarrow> nat \<Rightarrow> guint32" where
  "GST_READ_UINT24_LE m data =
     gst_slow_read24_le m data"

definition GST_READ_UINT8 :: "mem \<Rightarrow> nat \<Rightarrow> guint8" where
  "GST_READ_UINT8 m data =
     GST_GET m data 0 0"

text \<open>The statements of the writing macros are run in the order the source has them.\<close>

definition run_puts :: "(mem \<Rightarrow> mem) list \<Rightarrow> mem \<Rightarrow> mem" where
  "run_puts ps m = fold (\<lambda>f m. f m) ps m"

definition gst_slow_write64_be :: "nat \<Rightarrow> guint64 \<Rightarrow> mem \<Rightarrow> mem" where
  "gst_slow_write64_be data val =
     run_puts
      [GST_PUT data 0 56 val, GST_PUT data 1 48 val, GST_PUT data 2 40 val,
       GST_PUT data 3 32 val, GST_PUT data 4 24 val, GST_PUT data 5 16 val,
       GST_PUT data 6 8 val, GST_PUT data 7 0 val]"

definition gst_slow_write64_le :: "nat \<Rightarrow> guint64 \<Rightarrow> mem \<Rightarrow> mem" where
  "gst_slow_write64_le data val =
     run_puts
      [GST_PUT data 0 0 val, GST_PUT data 1 8 val, GST_PUT data 2 16 val,
       GST_PUT data 3 24 val, GST_PUT data 4 32 val, GST_PUT data 5 40 val,
       GST_PUT data 6 48 val, GST_PUT data 7 56 val]"

definition gst_slow_write32_be :: "nat \<Rightarrow> guint32 \<Rightarrow> mem \<Rightarrow> mem" where
  "gst_slow_write32_be data val =
     run_puts
      [GST_PUT data 0 24 val, GST_PUT data 1 16 val, GST_PUT data 2 8 val, GST_PUT data 3 0 val]"

definition gst_slow_write32_le :: "nat \<Rightarrow> guint32 \<Rightarrow> mem \<Rightarrow> mem" where
  "gst_slow_write32_le data val =
     run_puts
      [GST_PUT data 0 0 val, GST_PUT data 1 8 val, GST_PUT data 2 16 val, GST_PUT data 3 24 val]"

definition GST_WRITE_UINT24_BE :: "nat \<Rightarrow> guint32 \<Rightarrow> mem \<Rightarrow> mem" where
  "GST_WRITE_UINT24_BE data val =
     run_puts
      [GST_PUT data 0 16 val, GST_PUT data 1 8 val, GST_PUT data 2 0 val]"

definition GST_WRITE_UINT24_LE :: "nat \<Rightarrow> guint32 \<Rightarrow> mem \<Rightarrow> mem" where
  "GST_WRITE_UINT24_LE data val =
     run_puts
      [GST_PUT data 0 0 val, GST_PUT data 1 8 val, GST_PUT data 2 16 val]"

definition gst_slow_write16_be :: "nat \<Rightarrow> guint16 \<Rightarrow> mem \<Rightarrow> mem" where
  "gst_slow_write16_be data val =
     run_puts
      [GST_PUT data 0 8 val, GST_PUT data 1 0 val]"

definition gst_slow_write16_le :: "nat \<Rightarrow> guint16 \<Rightarrow> mem \<Rightarrow> mem" where
  "gst_slow_write16_le data val =
     run_puts
      [GST_PUT data 0 0 val, GST_PUT data 1 8 val]"

definition GST_WRITE_UINT64_BE :: "platform \<Rightarrow> nat \<Rightarrow> guint64 \<Rightarrow> mem \<Rightarrow> mem" where
  "GST_WRITE_UINT64_BE pf data val =
     (if GST_HAVE_UNALIGNED_ACCESS pf
      then if G_BYTE_ORDER pf = G_BIG_ENDIAN then gst_fast_write64 pf data val
           else gst_fast_write_swap64 pf data val
      else gst_slow_write64_be data val)"

definition GST_WRITE_UINT64_LE :: "platform \<Rightarrow> nat \<Rightarrow> guint64 \<Rightarrow> mem \<Rightarrow> mem" where
  "GST_WRITE_UINT64_LE pf data val =
     (if GST_HAVE_UNALIGNED_ACCESS pf
      then if G_BYTE_ORDER pf = G_LITTLE_ENDIAN then gst_fast_write64 pf data val
           else gst_fast_write_swap64 pf data val
      else gst_slow_write64_le data val)"

definition GST_WRITE_UINT32_BE :: "platform \<Rightarrow> nat \<Rightarrow> guint32 \<Rightarrow> mem \<Rightarrow> mem" where
  "GST_WRITE_UINT32_BE pf data val =
     (if GST_HAVE_UNALIGNED_ACCESS pf
      then if G_BYTE_ORDER pf = G_BIG_ENDIAN then gst_fast_write32 pf data val
           else gst_fast_write_swap32 pf data val
      else gst_slow_write32_be data val)"

definition GST_WRITE_UINT32_LE :: "platform \<Rightarrow> nat \<Rightarrow> guint32 \<Rightarrow> mem \<Rightarrow> mem" where
  "GST_WRITE_UINT32_LE pf data val =
     (if GST_HAVE_UNALIGNED_ACCESS pf
      then if G_BYTE_ORDER pf = G_LITTLE_ENDIAN then gst_fast_write32 pf data val
           else gst_fast_write_swap32 pf data val
      else gst_slow_write32_le data val)"

definition GST_WRITE_UINT16_BE :: "platform \<Rightarrow> nat \<Rightarrow> guint16 \<Rightarrow> mem \<Rightarrow> mem" where
  "GST_WRITE_UINT16_BE pf data val =
     (if GST_HAVE_UNALIGNED_ACCESS pf
      then if G_BYTE_ORDER pf = G_BIG_ENDIAN then gst_fast_write16 pf data val
           else gst_fast_write_swap16 pf data val
      else gst_slow_write16_be data val)"

definition GST_WRITE_UINT16_LE :: "platform \<Rightarrow> nat \<Rightarrow> guint16 \<Rightarrow> mem \<Rightarrow> mem" where
  "GST_WRITE_UINT16_LE pf data val =
     (if GST_HAVE_UNALIGNED_ACCESS pf
      then if G_BYTE_ORDER pf = G_LITTLE_ENDIAN then gst_fast_write16 pf data val
           else gst_fast_write_swap16 pf data val
      else gst_slow_write16_le data val)"

definition GST_WRITE_UINT8 :: "nat \<Rightarrow> guint8 \<Rightarrow> mem \<Rightarrow> mem" where
  "GST_WRITE_UINT8 data num =
     GST_PUT data 0 0 num"

section \<open>Floating-point numbers\<close>

text \<open>The unions pun a floating-point number with the integer of the same bits.\<close>

definition GFLOAT_SWAP_LE_BE :: "platform \<Rightarrow> gfloat \<Rightarrow> gfloat" where
  "GFLOAT_SWAP_LE_BE pf in_val =
     GUINT32_SWAP_LE_BE (compiler pf) in_val"

definition GDOUBLE_SWAP_LE_BE :: "platform \<Rightarrow> gdouble \<Rightarrow> gdouble" where
  "GDOUBLE_SWAP_LE_BE pf in_val =
     GUINT64_SWAP_LE_BE (compiler pf) in_val"

definition GFLOAT_TO_LE :: "platform \<Rightarrow> gfloat \<Rightarrow> gfloat" where
  "GFLOAT_TO_LE pf val =
     (if G_BYTE_ORDER pf = G_LITTLE_ENDIAN then val else GFLOAT_SWAP_LE_BE pf val)"

definition GDOUBLE_TO_LE :: "platform \<Rightarrow> gdouble \<Rightarrow> gdouble" where
  "GDOUBLE_TO_LE pf val =
     (if G_BYTE_ORDER pf = G_LITTLE_ENDIAN then val else GDOUBLE_SWAP_LE_BE pf val)"

definition GFLOAT_TO_BE :: "platform \<Rightarrow> gfloat \<Rightarrow> gfloat" where
  "GFLOAT_TO_BE pf val =
     (if G_BYTE_ORDER pf = G_BIG_ENDIAN then val else GFLOAT_SWAP_LE_BE pf val)"

definition GDOUBLE_TO_BE :: "platform \<Rightarrow> gdouble \<Rightarrow> gdouble" where
  "GDOUBLE_TO_BE pf val =
     (if G_BYTE_ORDER pf = G_BIG_ENDIAN then val else GDOUBLE_SWAP_LE_BE pf val)"

definition GFLOAT_FROM_LE :: "platform \<Rightarrow> gfloat \<Rightarrow> gfloat" where
  "GFLOAT_FROM_LE pf val =
     GFLOAT_TO_LE pf val"

definition GDOUBLE_FROM_LE :: "platform \<Rightarrow> gdouble \<Rightarrow> gdouble" where
  "GDOUBLE_FROM_LE pf val =
     GDOUBLE_TO_LE pf val"

definition GFLOAT_FROM_BE :: "platform \<Rightarrow> gfloat \<Rightarrow> gfloat" where
  "GFLOAT_FROM_BE pf val =
     GFLOAT_TO_BE pf val"

definition GDOUBLE_FROM_BE :: "platform \<Rightarrow> gdouble \<Rightarrow> gdouble" where
  "GDOUBLE_FROM_BE pf val =
     GDOUBLE_TO_BE pf val"

definition GST_READ_FLOAT_LE :: "platform \<Rightarrow> mem \<Rightarrow> nat \<Rightarrow> gfloat" where
  "GST_READ_FLOAT_LE pf m data =
     GST_READ_UINT32_LE pf m data"

definition GST_READ_FLOAT_BE :: "platform \<Rightarrow> mem \<Rightarrow> nat \<Rightarrow> gfloat" where
  "GST_READ_FLOAT_BE pf m data =
     GST_READ_UINT32_BE pf m data"

definition GST_READ_DOUBLE_LE :: "platform \<Rightarrow> mem \<Rightarrow> nat \<Rightarrow> gdouble" where
  "GST_READ_DOUBLE_LE pf m data =
     GST_READ_UINT64_LE pf m data"

definition GST_READ_DOUBLE_BE :: "platform \<Rightarrow> mem \<Rightarrow> nat \<Rightarrow> gdouble" where
  "GST_READ_DOUBLE_BE pf m data =
     GST_READ_UINT64_BE pf m data"

definition GST_WRITE_FLOAT_LE :: "platform \<Rightarrow> nat \<Rightarrow> gfloat \<Rightarrow> mem \<Rightarrow> mem" where
  "GST_WRITE_FLOAT_LE pf data num =
     GST_WRITE_UINT32_LE pf data num"

definition GST_WRITE_FLOAT_BE :: "platform \<Rightarrow> nat \<Rightarrow> gfloat \<Rightarrow> mem \<Rightarrow> mem" where
  "GST_WRITE_FLOAT_BE pf data num =
     GST_WRITE_UINT32_BE pf data num"

definition GST_WRITE_DOUBLE_LE :: "platform \<Rightarrow> nat \<Rightarrow> gdouble \<Rightarrow> mem \<Rightarrow> mem" where
  "GST_WRITE_DOUBLE_LE pf data num =
     GST_WRITE_UINT64_LE pf data num"

definition GST_WRITE_DOUBLE_BE :: "platform \<Rightarrow> nat \<Rightarrow> gdouble \<Rightarrow> mem \<Rightarrow> mem" where
  "GST_WRITE_DOUBLE_BE pf data num =
     GST_WRITE_UINT64_BE pf data num"

section \<open>Rounding\<close>

text \<open>
  The constants are \<open>int\<close>s, so their complements are sign-extended to the type of the number.
\<close>

definition GST_ROUND_UP_2 :: "'a::len word \<Rightarrow> 'a word" where
  "GST_ROUND_UP_2 num =
     (num + 1) AND NOT 1"

definition GST_ROUND_UP_4 :: "'a::len word \<Rightarrow> 'a word" where
  "GST_ROUND_UP_4 num =
     (num + 3) AND NOT 3"

definition GST_ROUND_UP_8 :: "'a::len word \<Rightarrow> 'a word" where
  "GST_ROUND_UP_8 num =
     (num + 7) AND NOT 7"

definition GST_ROUND_UP_16 :: "'a::len word \<Rightarrow> 'a word" where
  "GST_ROUND_UP_16 num =
     (num + 15) AND NOT 15"

definition GST_ROUND_UP_32 :: "'a::len word \<Rightarrow> 'a word" where
  "GST_ROUND_UP_32 num =
     (num + 31) AND NOT 31"

definition GST_ROUND_UP_64 :: "'a::len word \<Rightarrow> 'a word" where
  "GST_ROUND_UP_64 num =
     (num + 63) AND NOT 63"

definition GST_ROUND_UP_128 :: "'a::len word \<Rightarrow> 'a word" where
  "GST_ROUND_UP_128 num =
     (num + 127) AND NOT 127"

definition GST_ROUND_UP_N :: "'a::len word \<Rightarrow> 'a word \<Rightarrow> 'a word" where
  "GST_ROUND_UP_N num align =
     (num + (align - 1)) AND NOT (align - 1)"

definition GST_ROUND_DOWN_2 :: "'a::len word \<Rightarrow> 'a word" where
  "GST_ROUND_DOWN_2 num =
     num AND NOT 1"

definition GST_ROUND_DOWN_4 :: "'a::len word \<Rightarrow> 'a word" where
  "GST_ROUND_DOWN_4 num =
     num AND NOT 3"

definition GST_ROUND_DOWN_8 :: "'a::len word \<Rightarrow> 'a word" where
  "GST_ROUND_DOWN_8 num =
     num AND NOT 7"

definition GST_ROUND_DOWN_16 :: "'a::len word \<Rightarrow> 'a word" where
  "GST_ROUND_DOWN_16 num =
     num AND NOT 15"

definition GST_ROUND_DOWN_32 :: "'a::len word \<Rightarrow> 'a word" where
  "GST_ROUND_DOWN_32 num =
     num AND NOT 31"

definition GST_ROUND_DOWN_64 :: "'a::len word \<Rightarrow> 'a word" where
  "GST_ROUND_DOWN_64 num =
     num AND NOT 63"

definition GST_ROUND_DOWN_128 :: "'a::len word \<Rightarrow> 'a word" where
  "GST_ROUND_DOWN_128 num =
     num AND NOT 127"

definition GST_ROUND_DOWN_N :: "'a::len word \<Rightarrow> 'a word \<Rightarrow> 'a word" where
  "GST_ROUND_DOWN_N num align =
     num AND NOT (align - 1)"

text \<open>
  With a 64-bit number and a 32-bit unsigned alignment the complement is taken in 32 bits and
  then extended with zeros.
\<close>

definition GST_ROUND_UP_N_mixed :: "guint64 \<Rightarrow> guint32 \<Rightarrow> guint64" where
  "GST_ROUND_UP_N_mixed num align = (num + ucast (align - 1)) AND ucast (NOT (align - 1))"

definition GST_ROUND_DOWN_N_mixed :: "guint64 \<Rightarrow> guint32 \<Rightarrow> guint64" where
  "GST_ROUND_DOWN_N_mixed num align = num AND ucast (NOT (align - 1))"

section \<open>Every version is the bytes at the address\<close>

definition read_order :: "bool \<Rightarrow> 'b list \<Rightarrow> 'b list" where
  "read_order be bs = (if be then rev bs else bs)"

lemma length_read_order [simp]: "length (read_order be bs) = length bs"
  by (simp add: read_order_def)

lemma read_order_twice [simp]: "read_order be (read_order be bs) = bs"
  by (simp add: read_order_def)

lemma mem_bytes_Suc: "mem_bytes m p (Suc n) = m p # mem_bytes m (Suc p) n"
proof -
  have "[0..<Suc n] = 0 # map Suc [0..<n]" by (simp add: map_Suc_upt upt_conv_Cons)
  then show ?thesis by (simp add: mem_bytes_def comp_def)
qed

lemma mem_bytes_0: "mem_bytes m p 0 = []"
  by (simp add: mem_bytes_def)

lemma word_bytes_0: "word_bytes 0 v = []"
  by (simp add: word_bytes_def)

lemma word_bytes_Suc: "word_bytes (Suc n) v = ucast v # word_bytes n (drop_bit 8 v)"
proof -
  have "[0..<Suc n] = 0 # map Suc [0..<n]" by (simp add: map_Suc_upt upt_conv_Cons)
  then show ?thesis by (simp add: word_bytes_def comp_def add.commute)
qed

lemma mem_store_Nil: "mem_store m p [] = m"
  by (rule ext) (auto simp: mem_store_def)

lemma mem_store_Cons: "mem_store m p (b # bs) = mem_store (m(p := b)) (Suc p) bs"
  by (rule ext) (auto simp: mem_store_def nth_Cons')

lemma low_byte: "ucast (v AND 0xff :: 'a::len word) = (ucast v :: guint8)"
proof -
  have m: "(0xff :: 'a word) = mask 8" by (simp add: mask_eq_exp_minus_1)
  show ?thesis unfolding m by (intro bit_word_eqI) (auto simp: bit_simps dest: bit_imp_le_length)
qed

lemmas bytes_explicit =
  eval_nat_numeral mem_bytes_Suc mem_bytes_0 word_bytes_Suc word_bytes_0 mem_store_Cons mem_store_Nil

lemma mem_bytes_explicit1: "mem_bytes m p (Suc 0) = [m p]"
  by (simp add: mem_bytes_def upt_rec [of 0] upt_rec [of "Suc 0"] numeral_2_eq_2 [symmetric])

lemma mem_bytes_explicit2: "mem_bytes m p 2 = [m p, m (p + 1)]"
  by (simp add: mem_bytes_def upt_rec [of 0] upt_rec [of "Suc 0"] numeral_2_eq_2 [symmetric])

lemma mem_bytes_explicit3: "mem_bytes m p 3 = [m p, m (p + 1), m (p + 2)]"
  by (simp add: mem_bytes_def upt_rec [of 0] upt_rec [of "Suc 0"] numeral_2_eq_2 [symmetric])

lemma mem_bytes_explicit4: "mem_bytes m p 4 = [m p, m (p + 1), m (p + 2), m (p + 3)]"
  by (simp add: mem_bytes_def upt_rec [of 0] upt_rec [of "Suc 0"] numeral_2_eq_2 [symmetric])

lemma mem_bytes_explicit8: "mem_bytes m p 8 = [m p, m (p + 1), m (p + 2), m (p + 3), m (p + 4), m (p + 5), m (p + 6), m (p + 7)]"
  by (simp add: mem_bytes_def upt_rec [of 0] upt_rec [of "Suc 0"] numeral_2_eq_2 [symmetric])

lemma bswap_read: "LENGTH('a) = 8 * length bs \<Longrightarrow> bswap (length bs) (bytes_word bs :: 'a::len word) = bytes_word (rev bs)"
  by (simp add: bswap_def word_bytes_word)

lemma read64_be: "GST_READ_UINT64_BE pf m p = bytes_word (read_order True (mem_bytes m p 8))"
proof -
  have "gst_slow_read64_be m p = bytes_word (read_order True (mem_bytes m p 8))"
    by (simp add: gst_slow_read64_be_def GST_GET_def read_order_def mem_bytes_explicit8 ac_simps)
  moreover have "bswap 8 (bytes_word (mem_bytes m p 8) :: guint64) = bytes_word (rev (mem_bytes m p 8))"
    "bswap 8 (bytes_word (rev (mem_bytes m p 8)) :: guint64) = bytes_word (mem_bytes m p 8)"
    using bswap_read[of "mem_bytes m p 8", where ?'a = 64]
      bswap_read[of "rev (mem_bytes m p 8)", where ?'a = 64] by simp_all
  ultimately show ?thesis
    by (cases "G_BYTE_ORDER pf")
      (simp_all add: GST_READ_UINT64_BE_def gst_fast_read64_def gst_fast_read_swap64_def
        native_read_def swap64 read_order_def)
qed

lemma read64_le: "GST_READ_UINT64_LE pf m p = bytes_word (read_order False (mem_bytes m p 8))"
proof -
  have "gst_slow_read64_le m p = bytes_word (read_order False (mem_bytes m p 8))"
    by (simp add: gst_slow_read64_le_def GST_GET_def read_order_def mem_bytes_explicit8 ac_simps)
  moreover have "bswap 8 (bytes_word (mem_bytes m p 8) :: guint64) = bytes_word (rev (mem_bytes m p 8))"
    "bswap 8 (bytes_word (rev (mem_bytes m p 8)) :: guint64) = bytes_word (mem_bytes m p 8)"
    using bswap_read[of "mem_bytes m p 8", where ?'a = 64]
      bswap_read[of "rev (mem_bytes m p 8)", where ?'a = 64] by simp_all
  ultimately show ?thesis
    by (cases "G_BYTE_ORDER pf")
      (simp_all add: GST_READ_UINT64_LE_def gst_fast_read64_def gst_fast_read_swap64_def
        native_read_def swap64 read_order_def)
qed

lemma read32_be: "GST_READ_UINT32_BE pf m p = bytes_word (read_order True (mem_bytes m p 4))"
proof -
  have "gst_slow_read32_be m p = bytes_word (read_order True (mem_bytes m p 4))"
    by (simp add: gst_slow_read32_be_def GST_GET_def read_order_def mem_bytes_explicit4 ac_simps)
  moreover have "bswap 4 (bytes_word (mem_bytes m p 4) :: guint32) = bytes_word (rev (mem_bytes m p 4))"
    "bswap 4 (bytes_word (rev (mem_bytes m p 4)) :: guint32) = bytes_word (mem_bytes m p 4)"
    using bswap_read[of "mem_bytes m p 4", where ?'a = 32]
      bswap_read[of "rev (mem_bytes m p 4)", where ?'a = 32] by simp_all
  ultimately show ?thesis
    by (cases "G_BYTE_ORDER pf")
      (simp_all add: GST_READ_UINT32_BE_def gst_fast_read32_def gst_fast_read_swap32_def
        native_read_def swap32 read_order_def)
qed

lemma read32_le: "GST_READ_UINT32_LE pf m p = bytes_word (read_order False (mem_bytes m p 4))"
proof -
  have "gst_slow_read32_le m p = bytes_word (read_order False (mem_bytes m p 4))"
    by (simp add: gst_slow_read32_le_def GST_GET_def read_order_def mem_bytes_explicit4 ac_simps)
  moreover have "bswap 4 (bytes_word (mem_bytes m p 4) :: guint32) = bytes_word (rev (mem_bytes m p 4))"
    "bswap 4 (bytes_word (rev (mem_bytes m p 4)) :: guint32) = bytes_word (mem_bytes m p 4)"
    using bswap_read[of "mem_bytes m p 4", where ?'a = 32]
      bswap_read[of "rev (mem_bytes m p 4)", where ?'a = 32] by simp_all
  ultimately show ?thesis
    by (cases "G_BYTE_ORDER pf")
      (simp_all add: GST_READ_UINT32_LE_def gst_fast_read32_def gst_fast_read_swap32_def
        native_read_def swap32 read_order_def)
qed

lemma read16_be: "GST_READ_UINT16_BE pf m p = bytes_word (read_order True (mem_bytes m p 2))"
proof -
  have "gst_slow_read16_be m p = bytes_word (read_order True (mem_bytes m p 2))"
    by (simp add: gst_slow_read16_be_def GST_GET_def read_order_def mem_bytes_explicit2 ac_simps)
  moreover have "bswap 2 (bytes_word (mem_bytes m p 2) :: guint16) = bytes_word (rev (mem_bytes m p 2))"
    "bswap 2 (bytes_word (rev (mem_bytes m p 2)) :: guint16) = bytes_word (mem_bytes m p 2)"
    using bswap_read[of "mem_bytes m p 2", where ?'a = 16]
      bswap_read[of "rev (mem_bytes m p 2)", where ?'a = 16] by simp_all
  ultimately show ?thesis
    by (cases "G_BYTE_ORDER pf")
      (simp_all add: GST_READ_UINT16_BE_def gst_fast_read16_def gst_fast_read_swap16_def
        native_read_def swap16 read_order_def)
qed

lemma read16_le: "GST_READ_UINT16_LE pf m p = bytes_word (read_order False (mem_bytes m p 2))"
proof -
  have "gst_slow_read16_le m p = bytes_word (read_order False (mem_bytes m p 2))"
    by (simp add: gst_slow_read16_le_def GST_GET_def read_order_def mem_bytes_explicit2 ac_simps)
  moreover have "bswap 2 (bytes_word (mem_bytes m p 2) :: guint16) = bytes_word (rev (mem_bytes m p 2))"
    "bswap 2 (bytes_word (rev (mem_bytes m p 2)) :: guint16) = bytes_word (mem_bytes m p 2)"
    using bswap_read[of "mem_bytes m p 2", where ?'a = 16]
      bswap_read[of "rev (mem_bytes m p 2)", where ?'a = 16] by simp_all
  ultimately show ?thesis
    by (cases "G_BYTE_ORDER pf")
      (simp_all add: GST_READ_UINT16_LE_def gst_fast_read16_def gst_fast_read_swap16_def
        native_read_def swap16 read_order_def)
qed

lemma read24_be: "GST_READ_UINT24_BE m p = bytes_word (read_order True (mem_bytes m p 3))"
  by (simp add: GST_READ_UINT24_BE_def gst_slow_read24_be_def GST_GET_def read_order_def mem_bytes_explicit3
      ac_simps)

lemma read24_le: "GST_READ_UINT24_LE m p = bytes_word (read_order False (mem_bytes m p 3))"
  by (simp add: GST_READ_UINT24_LE_def gst_slow_read24_le_def GST_GET_def read_order_def mem_bytes_explicit3
      ac_simps)

lemma read8: "GST_READ_UINT8 m p = bytes_word (mem_bytes m p 1)"
  by (simp add: GST_READ_UINT8_def GST_GET_def mem_bytes_explicit1)

lemma mem_store_explicit1: "mem_store m p [b0] = m(p := b0)"
  by (simp add: mem_store_Cons mem_store_Nil eval_nat_numeral)

lemma word_bytes_explicit1: "word_bytes (Suc 0) v = [ucast v]"
  by (simp add: word_bytes_def upt_rec [of 0] upt_rec [of "Suc 0"] numeral_2_eq_2 [symmetric])

lemma mem_store_explicit2: "mem_store m p [b0, b1] = m(p := b0, p + 1 := b1)"
  by (simp add: mem_store_Cons mem_store_Nil eval_nat_numeral)

lemma word_bytes_explicit2: "word_bytes 2 v = [ucast v, ucast (drop_bit 8 v)]"
  by (simp add: word_bytes_def upt_rec [of 0] upt_rec [of "Suc 0"] numeral_2_eq_2 [symmetric])

lemma mem_store_explicit3: "mem_store m p [b0, b1, b2] = m(p := b0, p + 1 := b1, p + 2 := b2)"
  by (simp add: mem_store_Cons mem_store_Nil eval_nat_numeral)

lemma word_bytes_explicit3: "word_bytes 3 v = [ucast v, ucast (drop_bit 8 v), ucast (drop_bit 16 v)]"
  by (simp add: word_bytes_def upt_rec [of 0] upt_rec [of "Suc 0"] numeral_2_eq_2 [symmetric])

lemma mem_store_explicit4: "mem_store m p [b0, b1, b2, b3] = m(p := b0, p + 1 := b1, p + 2 := b2, p + 3 := b3)"
  by (simp add: mem_store_Cons mem_store_Nil eval_nat_numeral)

lemma word_bytes_explicit4: "word_bytes 4 v = [ucast v, ucast (drop_bit 8 v), ucast (drop_bit 16 v), ucast (drop_bit 24 v)]"
  by (simp add: word_bytes_def upt_rec [of 0] upt_rec [of "Suc 0"] numeral_2_eq_2 [symmetric])

lemma mem_store_explicit8: "mem_store m p [b0, b1, b2, b3, b4, b5, b6, b7] = m(p := b0, p + 1 := b1, p + 2 := b2, p + 3 := b3, p + 4 := b4, p + 5 := b5, p + 6 := b6, p + 7 := b7)"
  by (simp add: mem_store_Cons mem_store_Nil eval_nat_numeral)

lemma word_bytes_explicit8: "word_bytes 8 v = [ucast v, ucast (drop_bit 8 v), ucast (drop_bit 16 v), ucast (drop_bit 24 v), ucast (drop_bit 32 v), ucast (drop_bit 40 v), ucast (drop_bit 48 v), ucast (drop_bit 56 v)]"
  by (simp add: word_bytes_def upt_rec [of 0] upt_rec [of "Suc 0"] numeral_2_eq_2 [symmetric])

lemma write64_be: "GST_WRITE_UINT64_BE pf p v m = mem_store m p (read_order True (word_bytes 8 v))"
proof -
  have "gst_slow_write64_be p v m = mem_store m p (read_order True (word_bytes 8 v))"
    by (simp add: gst_slow_write64_be_def run_puts_def GST_PUT_def read_order_def low_byte
        word_bytes_explicit8 mem_store_explicit8)
  then show ?thesis
    by (cases "G_BYTE_ORDER pf")
      (simp_all add: GST_WRITE_UINT64_BE_def gst_fast_write64_def gst_fast_write_swap64_def
        native_write_def swap64 word_bytes_bswap read_order_def)
qed

lemma write64_le: "GST_WRITE_UINT64_LE pf p v m = mem_store m p (read_order False (word_bytes 8 v))"
proof -
  have "gst_slow_write64_le p v m = mem_store m p (read_order False (word_bytes 8 v))"
    by (simp add: gst_slow_write64_le_def run_puts_def GST_PUT_def read_order_def low_byte
        word_bytes_explicit8 mem_store_explicit8)
  then show ?thesis
    by (cases "G_BYTE_ORDER pf")
      (simp_all add: GST_WRITE_UINT64_LE_def gst_fast_write64_def gst_fast_write_swap64_def
        native_write_def swap64 word_bytes_bswap read_order_def)
qed

lemma write32_be: "GST_WRITE_UINT32_BE pf p v m = mem_store m p (read_order True (word_bytes 4 v))"
proof -
  have "gst_slow_write32_be p v m = mem_store m p (read_order True (word_bytes 4 v))"
    by (simp add: gst_slow_write32_be_def run_puts_def GST_PUT_def read_order_def low_byte
        word_bytes_explicit4 mem_store_explicit4)
  then show ?thesis
    by (cases "G_BYTE_ORDER pf")
      (simp_all add: GST_WRITE_UINT32_BE_def gst_fast_write32_def gst_fast_write_swap32_def
        native_write_def swap32 word_bytes_bswap read_order_def)
qed

lemma write32_le: "GST_WRITE_UINT32_LE pf p v m = mem_store m p (read_order False (word_bytes 4 v))"
proof -
  have "gst_slow_write32_le p v m = mem_store m p (read_order False (word_bytes 4 v))"
    by (simp add: gst_slow_write32_le_def run_puts_def GST_PUT_def read_order_def low_byte
        word_bytes_explicit4 mem_store_explicit4)
  then show ?thesis
    by (cases "G_BYTE_ORDER pf")
      (simp_all add: GST_WRITE_UINT32_LE_def gst_fast_write32_def gst_fast_write_swap32_def
        native_write_def swap32 word_bytes_bswap read_order_def)
qed

lemma write16_be: "GST_WRITE_UINT16_BE pf p v m = mem_store m p (read_order True (word_bytes 2 v))"
proof -
  have "gst_slow_write16_be p v m = mem_store m p (read_order True (word_bytes 2 v))"
    by (simp add: gst_slow_write16_be_def run_puts_def GST_PUT_def read_order_def low_byte
        word_bytes_explicit2 mem_store_explicit2)
  then show ?thesis
    by (cases "G_BYTE_ORDER pf")
      (simp_all add: GST_WRITE_UINT16_BE_def gst_fast_write16_def gst_fast_write_swap16_def
        native_write_def swap16 word_bytes_bswap read_order_def)
qed

lemma write16_le: "GST_WRITE_UINT16_LE pf p v m = mem_store m p (read_order False (word_bytes 2 v))"
proof -
  have "gst_slow_write16_le p v m = mem_store m p (read_order False (word_bytes 2 v))"
    by (simp add: gst_slow_write16_le_def run_puts_def GST_PUT_def read_order_def low_byte
        word_bytes_explicit2 mem_store_explicit2)
  then show ?thesis
    by (cases "G_BYTE_ORDER pf")
      (simp_all add: GST_WRITE_UINT16_LE_def gst_fast_write16_def gst_fast_write_swap16_def
        native_write_def swap16 word_bytes_bswap read_order_def)
qed

lemma write24_be: "GST_WRITE_UINT24_BE p v m = mem_store m p (read_order True (word_bytes 3 v))"
  by (simp add: GST_WRITE_UINT24_BE_def run_puts_def GST_PUT_def read_order_def low_byte
      word_bytes_explicit3 mem_store_explicit3)

lemma write24_le: "GST_WRITE_UINT24_LE p v m = mem_store m p (read_order False (word_bytes 3 v))"
  by (simp add: GST_WRITE_UINT24_LE_def run_puts_def GST_PUT_def read_order_def low_byte
      word_bytes_explicit3 mem_store_explicit3)

lemma write8: "GST_WRITE_UINT8 p v m = mem_store m p (word_bytes 1 v)"
  using low_byte[of v] by (simp add: GST_WRITE_UINT8_def GST_PUT_def low_byte word_bytes_explicit1 mem_store_explicit1)

lemmas float_accesses =
  GST_READ_FLOAT_LE_def GST_READ_FLOAT_BE_def GST_READ_DOUBLE_LE_def GST_READ_DOUBLE_BE_def
  GST_WRITE_FLOAT_LE_def GST_WRITE_FLOAT_BE_def GST_WRITE_DOUBLE_LE_def GST_WRITE_DOUBLE_BE_def

lemmas mem_reads = read64_be read64_le read32_be read32_le read24_be read24_le read16_be read16_le read8
lemmas mem_writes =
  write64_be write64_le write32_be write32_le write24_be write24_le write16_be write16_le write8


section \<open>Properties\<close>

lemmas rounding_defs =
  GST_ROUND_UP_2_def GST_ROUND_UP_4_def GST_ROUND_UP_8_def GST_ROUND_UP_16_def GST_ROUND_UP_32_def
  GST_ROUND_UP_64_def GST_ROUND_UP_128_def GST_ROUND_DOWN_2_def GST_ROUND_DOWN_4_def
  GST_ROUND_DOWN_8_def GST_ROUND_DOWN_16_def GST_ROUND_DOWN_32_def GST_ROUND_DOWN_64_def
  GST_ROUND_DOWN_128_def

lemma bytes_word_word_bytes_take:
  "bytes_word (word_bytes n v) = take_bit (8 * n) (v :: 'a::len word)"
proof (rule bit_word_eqI)
  fix k assume "k < LENGTH('a)"
  moreover have "k div 8 < n \<longleftrightarrow> k < 8 * n" by linarith
  moreover have "k div 8 < n \<Longrightarrow> bit (word_bytes n v ! (k div 8)) (k mod 8) = bit v k"
    by (simp add: bit_simps)
  ultimately show "bit (bytes_word (word_bytes n v) :: 'a word) k = bit (take_bit (8 * n) v) k"
    by (auto simp: bit_bytes_word bit_take_bit_iff)
qed

lemma read_written:
  "mem_bytes (mem_store m p (read_order be (word_bytes n v))) p n = read_order be (word_bytes n v)"
  by simp

text \<open>
  What one platform writes, any platform reads back: for every width and byte order of the macros,
  with or without unaligned access and whatever the byte orders of the writing and the reading
  target, the value read is the value written (its low 24 bits for the 24-bit macros).
\<close>

theorem memory_round_trip:
  "GST_READ_UINT64_BE pf' (GST_WRITE_UINT64_BE pf p v64 m) p = v64 \<and>
   GST_READ_UINT64_LE pf' (GST_WRITE_UINT64_LE pf p v64 m) p = v64 \<and>
   GST_READ_UINT32_BE pf' (GST_WRITE_UINT32_BE pf p v32 m) p = v32 \<and>
   GST_READ_UINT32_LE pf' (GST_WRITE_UINT32_LE pf p v32 m) p = v32 \<and>
   GST_READ_UINT24_BE (GST_WRITE_UINT24_BE p v32 m) p = take_bit 24 v32 \<and>
   GST_READ_UINT24_LE (GST_WRITE_UINT24_LE p v32 m) p = take_bit 24 v32 \<and>
   GST_READ_UINT16_BE pf' (GST_WRITE_UINT16_BE pf p v16 m) p = v16 \<and>
   GST_READ_UINT16_LE pf' (GST_WRITE_UINT16_LE pf p v16 m) p = v16 \<and>
   GST_READ_UINT8 (GST_WRITE_UINT8 p v8 m) p = v8 \<and>
   GST_READ_FLOAT_BE pf' (GST_WRITE_FLOAT_BE pf p v32 m) p = v32 \<and>
   GST_READ_FLOAT_LE pf' (GST_WRITE_FLOAT_LE pf p v32 m) p = v32 \<and>
   GST_READ_DOUBLE_BE pf' (GST_WRITE_DOUBLE_BE pf p v64 m) p = v64 \<and>
   GST_READ_DOUBLE_LE pf' (GST_WRITE_DOUBLE_LE pf p v64 m) p = v64"
proof -
  have "bytes_word (word_bytes 8 v64) = v64" "bytes_word (word_bytes 4 v32) = v32"
    "bytes_word (word_bytes 2 v16) = v16" "bytes_word (word_bytes 1 v8) = v8"
    by (rule bytes_word_bytes, simp)+
  moreover have "bytes_word (word_bytes 3 v32) = take_bit 24 v32"
    by (simp add: bytes_word_word_bytes_take)
  ultimately show ?thesis
    by (simp add: mem_reads mem_writes float_accesses del: bytes_word.simps One_nat_def)
qed

text \<open>
  C40. The version of a macro for targets with unaligned access and the byte-by-byte version read the
  same value: the big-endian macros the bytes with the most significant first, the little-endian
  ones with the least significant first.
\<close>

theorem fast_and_slow_reads_agree:
  "GST_READ_UINT64_BE pf m p = gst_slow_read64_be m p \<and>
   GST_READ_UINT64_LE pf m p = gst_slow_read64_le m p \<and>
   GST_READ_UINT32_BE pf m p = gst_slow_read32_be m p \<and>
   GST_READ_UINT32_LE pf m p = gst_slow_read32_le m p \<and>
   GST_READ_UINT16_BE pf m p = gst_slow_read16_be m p \<and>
   GST_READ_UINT16_LE pf m p = gst_slow_read16_le m p \<and>
   GST_READ_UINT32_BE pf m p = bytes_word [m (p + 3), m (p + 2), m (p + 1), m p] \<and>
   GST_READ_UINT32_LE pf m p = bytes_word [m p, m (p + 1), m (p + 2), m (p + 3)]"
proof -
  let ?slow = "pf\<lparr>GST_HAVE_UNALIGNED_ACCESS := False\<rparr>"
  have "GST_READ_UINT64_BE ?slow m p = gst_slow_read64_be m p"
    "GST_READ_UINT64_LE ?slow m p = gst_slow_read64_le m p"
    "GST_READ_UINT32_BE ?slow m p = gst_slow_read32_be m p"
    "GST_READ_UINT32_LE ?slow m p = gst_slow_read32_le m p"
    "GST_READ_UINT16_BE ?slow m p = gst_slow_read16_be m p"
    "GST_READ_UINT16_LE ?slow m p = gst_slow_read16_le m p"
    by (simp_all add: GST_READ_UINT64_BE_def GST_READ_UINT64_LE_def GST_READ_UINT32_BE_def
        GST_READ_UINT32_LE_def GST_READ_UINT16_BE_def GST_READ_UINT16_LE_def)
  then show ?thesis
    by (simp add: mem_reads read_order_def mem_bytes_explicit4 del: bytes_word.simps)
qed

lemma mem_store_byte: "a \<noteq> p \<Longrightarrow> length bs = Suc 0 \<Longrightarrow> mem_store m p bs a = m a"
  by (auto simp: mem_store_def)

text \<open>
  A write changes no byte outside the ones it stores, on any platform.
\<close>

theorem writes_stay_inside:
  "(a < p \<or> p + 8 \<le> a \<longrightarrow> GST_WRITE_UINT64_BE pf p v64 m a = m a \<and> GST_WRITE_UINT64_LE pf p v64 m a = m a) \<and>
   (a < p \<or> p + 4 \<le> a \<longrightarrow> GST_WRITE_UINT32_BE pf p v32 m a = m a \<and> GST_WRITE_UINT32_LE pf p v32 m a = m a) \<and>
   (a < p \<or> p + 3 \<le> a \<longrightarrow> GST_WRITE_UINT24_BE p v32 m a = m a \<and> GST_WRITE_UINT24_LE p v32 m a = m a) \<and>
   (a < p \<or> p + 2 \<le> a \<longrightarrow> GST_WRITE_UINT16_BE pf p v16 m a = m a \<and> GST_WRITE_UINT16_LE pf p v16 m a = m a) \<and>
   (a \<noteq> p \<longrightarrow> GST_WRITE_UINT8 p v8 m a = m a)"
  by (auto simp: mem_writes mem_store_other mem_store_byte)

lemma writes_stay_inside_witness:
  "GST_WRITE_UINT32_BE \<lparr>compiler = \<lparr>cpu = X86_64, gcc_4_3 = True\<rparr>, G_BYTE_ORDER = G_LITTLE_ENDIAN,
       GST_HAVE_UNALIGNED_ACCESS = True\<rparr> 16 0x01020304 (\<lambda>_. 7) 20 = 7"
  using writes_stay_inside[of 20 16 _ 0 "\<lambda>_. 7" "0x01020304" 0 0] by simp

text \<open>Clearing the low \<open>k\<close> bits rounds down; adding the mask first rounds up.\<close>

lemma clear_low_bits: "unat (n AND NOT (mask k) :: 'a::len word) = unat n div 2 ^ k * 2 ^ k"
proof -
  have "n AND NOT (mask k) = push_bit k (drop_bit k n)"
    by (rule bit_word_eqI) (auto simp: bit_simps)
  moreover have d: "unat (drop_bit k n) = unat n div 2 ^ k"
    by (simp only: unat_drop_bit_eq) (simp add: drop_bit_eq_div)
  moreover have "unat n div 2 ^ k * 2 ^ k < 2 ^ LENGTH('a)"
    using unsigned_less[of n, where ?'a = nat] by (meson div_times_less_eq_dividend le_less_trans)
  then have "unat (push_bit k (drop_bit k n)) = unat n div 2 ^ k * 2 ^ k"
    by (simp only: unsigned_push_bit_eq d) (simp add: push_bit_eq_mult take_bit_eq_mod)
  ultimately show ?thesis by simp
qed

lemma unat_mask: "k \<le> LENGTH('a) \<Longrightarrow> unat (mask k :: 'a::len word) = 2 ^ k - 1"
proof -
  assume "k \<le> LENGTH('a)"
  then have "unat (mask k :: 'a word) = mask k" by (intro bit_eqI) (auto simp: bit_simps)
  then show ?thesis by (simp add: mask_eq_exp_minus_1)
qed

lemma rounds_up:
  assumes "unat n + 2 ^ k \<le> 2 ^ LENGTH('a::len)"
  shows "unat ((n + mask k) AND NOT (mask k) :: 'a word) = (unat n + (2 ^ k - 1)) div 2 ^ k * 2 ^ k"
proof -
  have "k \<le> LENGTH('a)" using assms by (metis add_leD2 one_less_numeral_iff power_le_imp_le_exp semiring_norm(76))
  then have m: "unat (mask k :: 'a word) = 2 ^ k - 1"
    by (rule unat_mask)
  have "1 \<le> (2 :: nat) ^ k" by simp
  then have "unat n + (2 ^ k - 1) < 2 ^ LENGTH('a)" using assms by linarith
  then have "unat (n + mask k) = unat n + (2 ^ k - 1)" using unat_add_lem[of n "mask k"] by (simp only: m)
  then show ?thesis by (simp add: clear_low_bits)
qed

lemma least_multiple:
  fixes n b :: nat
  assumes "0 < b"
  shows "b dvd (n + (b - 1)) div b * b \<and> n \<le> (n + (b - 1)) div b * b \<and> (n + (b - 1)) div b * b < n + b"
proof -
  define q where "q = (n + (b - 1)) div b * b"
  have "q + (n + (b - 1)) mod b = n + (b - 1)" by (simp add: q_def)
  moreover have "(n + (b - 1)) mod b < b" using assms by simp
  ultimately have "n \<le> q" "q < n + b" using assms by linarith+
  then show ?thesis unfolding q_def by (intro conjI) (rule dvd_triv_right)
qed

text \<open>
  Rounding a number up to a power of two gives the next multiple of it when the sum fits the type;
  when it does not, the result wraps to zero.  Rounding down always gives the multiple at or
  below, and the macros for fixed alignments are instances.
\<close>

theorem rounding:
  "(unat n + 2 ^ k \<le> 2 ^ 64 \<longrightarrow>
      2 ^ k dvd unat (GST_ROUND_UP_N n (2 ^ k)) \<and> unat n \<le> unat (GST_ROUND_UP_N n (2 ^ k)) \<and>
      unat (GST_ROUND_UP_N n (2 ^ k)) < unat n + 2 ^ k) \<and>
   (k < 64 \<and> 2 ^ 64 < unat n + 2 ^ k \<longrightarrow> GST_ROUND_UP_N (n :: guint64) (2 ^ k) = 0) \<and>
   unat (GST_ROUND_DOWN_N n (2 ^ k)) = unat n div 2 ^ k * 2 ^ k \<and>
   GST_ROUND_UP_2 n = GST_ROUND_UP_N n 2 \<and> GST_ROUND_UP_4 n = GST_ROUND_UP_N n 4 \<and>
   GST_ROUND_UP_8 n = GST_ROUND_UP_N n 8 \<and> GST_ROUND_UP_16 n = GST_ROUND_UP_N n 16 \<and>
   GST_ROUND_UP_32 n = GST_ROUND_UP_N n 32 \<and> GST_ROUND_UP_64 n = GST_ROUND_UP_N n 64 \<and>
   GST_ROUND_UP_128 n = GST_ROUND_UP_N n 128 \<and>
   GST_ROUND_DOWN_2 n = GST_ROUND_DOWN_N n 2 \<and> GST_ROUND_DOWN_4 n = GST_ROUND_DOWN_N n 4 \<and>
   GST_ROUND_DOWN_8 n = GST_ROUND_DOWN_N n 8 \<and> GST_ROUND_DOWN_16 n = GST_ROUND_DOWN_N n 16 \<and>
   GST_ROUND_DOWN_32 n = GST_ROUND_DOWN_N n 32 \<and> GST_ROUND_DOWN_64 n = GST_ROUND_DOWN_N n 64 \<and>
   GST_ROUND_DOWN_128 n = GST_ROUND_DOWN_N n 128"
proof -
  have m: "2 ^ k - 1 = (mask k :: guint64)" by (simp add: mask_eq_exp_minus_1)
  have 1: "GST_ROUND_UP_N n (2 ^ k) = 0" if "k < 64" "2 ^ 64 < unat n + 2 ^ k"
  proof -
    have mk: "unat (mask k :: guint64) = 2 ^ k - 1"
      using that(1) by (simp add: unat_mask)
    have "unat n < 2 ^ 64" using unsigned_less[of n, where ?'a = nat] by simp
    moreover have "(2 :: nat) ^ k < 2 ^ 64" using that(1) by (rule power_strict_increasing) simp
    ultimately have "unat (n + mask k) = unat n + (2 ^ k - 1) - 2 ^ 64"
      using that(2) unat_word_ariths(1)[of n "mask k"] mk by (simp add: mod_if)
    then have "unat (n + mask k) < 2 ^ k" using \<open>unat n < 2 ^ 64\<close> zero_less_power[of "2 :: nat" k] by linarith
    then have "unat ((n + mask k) AND NOT (mask k)) = 0" by (simp add: clear_low_bits)
    then show ?thesis by (simp add: GST_ROUND_UP_N_def m unat_eq_0)
  qed
  show ?thesis
    using rounds_up[of n k] least_multiple[of "2 ^ k" "unat n"] 1
    by (simp add: GST_ROUND_UP_N_def GST_ROUND_DOWN_N_def m clear_low_bits rounding_defs)
qed

lemma rounding_witness:
  "unat (GST_ROUND_UP_N (5 :: guint64) (2 ^ 3)) < 13 \<and> GST_ROUND_UP_N (0xfffffffffffffff9 :: guint64) (2 ^ 3) = 0"
  using rounding[of 5 3] rounding[of "0xfffffffffffffff9" 3] by simp

text \<open>
  Rounding a 64-bit number with an unsigned 32-bit alignment loses its upper half: the complement
  of the alignment mask is a 32-bit number, so the result is below \<open>2 ^ 32\<close> whatever the number.
\<close>

theorem mixed_rounding_truncates:
  "unat (GST_ROUND_UP_N_mixed num align) < 2 ^ 32 \<and> unat (GST_ROUND_DOWN_N_mixed num align) < 2 ^ 32 \<and>
   GST_ROUND_DOWN_N_mixed 0x100000000 4 = 0 \<and> GST_ROUND_DOWN_N (0x100000000 :: guint64) 4 = 0x100000000"
proof -
  have small: "unat (v AND ucast (w :: guint32)) < 2 ^ 32" for v :: guint64 and w
  proof -
    have "v AND ucast w = take_bit 32 (v AND ucast w)"
      by (rule bit_word_eqI) (auto simp: bit_simps dest: bit_imp_le_length)
    then have "unat (v AND ucast w) = take_bit 32 (unat (v AND ucast w))"
      by (metis unsigned_take_bit_eq)
    then show ?thesis by (metis take_bit_nat_less_exp)
  qed
  then show ?thesis
    by (simp add: GST_ROUND_UP_N_mixed_def GST_ROUND_DOWN_N_mixed_def GST_ROUND_DOWN_N_def)
qed

end
