(* ===== verification/Byte_Reader.thy ===== *)
theory Byte_Reader
  imports Gst_Utils
begin

text \<open>
  \<open>gst/base/gstbytereader.h\<close>: a cursor over a block of memory from which scalars of every width,
  sign and byte order, runs of bytes and sub-readers are taken.  The header writes the accessors
  with macros instantiated for 22 formats; so does this theory: a record of macro arguments per
  instantiation, the macro bodies once, and the accessors under the header's names.  A
  signed integer is the word of its bits, a floating-point number the pattern of its bits.
\<close>

section \<open>The reader\<close>

record gst_byte_reader =
  rd_data :: nat
  rd_size :: guint32
  rd_byte :: guint32

definition GST_BYTE_READER_INIT :: "nat \<Rightarrow> guint32 \<Rightarrow> gst_byte_reader" where
  "GST_BYTE_READER_INIT data n = \<lparr>rd_data = data, rd_size = n, rd_byte = 0\<rparr>"

definition gst_byte_reader_skip_unchecked :: "guint32 \<Rightarrow> gst_byte_reader \<Rightarrow> gst_byte_reader" where
  "gst_byte_reader_skip_unchecked nbytes reader = reader\<lparr>rd_byte := rd_byte reader + nbytes\<rparr>"

text \<open>The arguments \<open>bits\<close>, \<open>upper\<close> and \<open>adj\<close> of an instantiation of the accessor macros.\<close>

record 'a byte_format =
  fmt_bits :: nat
  fmt_read :: "platform \<Rightarrow> mem \<Rightarrow> nat \<Rightarrow> 'a"
  fmt_adj :: "'a \<Rightarrow> 'a"

definition peek_unchecked :: "'a byte_format \<Rightarrow> platform \<Rightarrow> mem \<Rightarrow> gst_byte_reader \<Rightarrow> 'a" where
  "peek_unchecked fmt pf m reader =
     fmt_adj fmt (fmt_read fmt pf m (rd_data reader + unat (rd_byte reader)))"

definition get_unchecked ::
  "'a byte_format \<Rightarrow> platform \<Rightarrow> mem \<Rightarrow> gst_byte_reader \<Rightarrow> 'a \<times> gst_byte_reader" where
  "get_unchecked fmt pf m reader =
     (peek_unchecked fmt pf m reader,
      reader\<lparr>rd_byte := rd_byte reader + of_nat (fmt_bits fmt div 8)\<rparr>)"

definition sign_fix24 :: "guint32 \<Rightarrow> guint32" where
  "sign_fix24 val = (if val AND 0x00800000 \<noteq> 0 then val OR 0xff000000 else val)"

definition uint8_format :: "guint8 byte_format" where
  "uint8_format = \<lparr>fmt_bits = 8, fmt_read = (\<lambda>pf. GST_READ_UINT8), fmt_adj = (\<lambda>val. val)\<rparr>"

definition int8_format :: "guint8 byte_format" where
  "int8_format = \<lparr>fmt_bits = 8, fmt_read = (\<lambda>pf. GST_READ_UINT8), fmt_adj = (\<lambda>val. val)\<rparr>"

definition uint16_le_format :: "guint16 byte_format" where
  "uint16_le_format = \<lparr>fmt_bits = 16, fmt_read = GST_READ_UINT16_LE, fmt_adj = (\<lambda>val. val)\<rparr>"

definition uint16_be_format :: "guint16 byte_format" where
  "uint16_be_format = \<lparr>fmt_bits = 16, fmt_read = GST_READ_UINT16_BE, fmt_adj = (\<lambda>val. val)\<rparr>"

definition int16_le_format :: "guint16 byte_format" where
  "int16_le_format = \<lparr>fmt_bits = 16, fmt_read = GST_READ_UINT16_LE, fmt_adj = (\<lambda>val. val)\<rparr>"

definition int16_be_format :: "guint16 byte_format" where
  "int16_be_format = \<lparr>fmt_bits = 16, fmt_read = GST_READ_UINT16_BE, fmt_adj = (\<lambda>val. val)\<rparr>"

definition uint32_le_format :: "guint32 byte_format" where
  "uint32_le_format = \<lparr>fmt_bits = 32, fmt_read = GST_READ_UINT32_LE, fmt_adj = (\<lambda>val. val)\<rparr>"

definition uint32_be_format :: "guint32 byte_format" where
  "uint32_be_format = \<lparr>fmt_bits = 32, fmt_read = GST_READ_UINT32_BE, fmt_adj = (\<lambda>val. val)\<rparr>"

definition int32_le_format :: "guint32 byte_format" where
  "int32_le_format = \<lparr>fmt_bits = 32, fmt_read = GST_READ_UINT32_LE, fmt_adj = (\<lambda>val. val)\<rparr>"

definition int32_be_format :: "guint32 byte_format" where
  "int32_be_format = \<lparr>fmt_bits = 32, fmt_read = GST_READ_UINT32_BE, fmt_adj = (\<lambda>val. val)\<rparr>"

definition uint24_le_format :: "guint32 byte_format" where
  "uint24_le_format = \<lparr>fmt_bits = 24, fmt_read = (\<lambda>pf. GST_READ_UINT24_LE), fmt_adj = (\<lambda>val. val)\<rparr>"

definition uint24_be_format :: "guint32 byte_format" where
  "uint24_be_format = \<lparr>fmt_bits = 24, fmt_read = (\<lambda>pf. GST_READ_UINT24_BE), fmt_adj = (\<lambda>val. val)\<rparr>"

definition int24_le_format :: "guint32 byte_format" where
  "int24_le_format = \<lparr>fmt_bits = 24, fmt_read = (\<lambda>pf. GST_READ_UINT24_LE), fmt_adj = sign_fix24\<rparr>"

definition int24_be_format :: "guint32 byte_format" where
  "int24_be_format = \<lparr>fmt_bits = 24, fmt_read = (\<lambda>pf. GST_READ_UINT24_BE), fmt_adj = sign_fix24\<rparr>"

definition uint64_le_format :: "guint64 byte_format" where
  "uint64_le_format = \<lparr>fmt_bits = 64, fmt_read = GST_READ_UINT64_LE, fmt_adj = (\<lambda>val. val)\<rparr>"

definition uint64_be_format :: "guint64 byte_format" where
  "uint64_be_format = \<lparr>fmt_bits = 64, fmt_read = GST_READ_UINT64_BE, fmt_adj = (\<lambda>val. val)\<rparr>"

definition int64_le_format :: "guint64 byte_format" where
  "int64_le_format = \<lparr>fmt_bits = 64, fmt_read = GST_READ_UINT64_LE, fmt_adj = (\<lambda>val. val)\<rparr>"

definition int64_be_format :: "guint64 byte_format" where
  "int64_be_format = \<lparr>fmt_bits = 64, fmt_read = GST_READ_UINT64_BE, fmt_adj = (\<lambda>val. val)\<rparr>"

definition float32_le_format :: "gfloat byte_format" where
  "float32_le_format = \<lparr>fmt_bits = 32, fmt_read = GST_READ_FLOAT_LE, fmt_adj = (\<lambda>val. val)\<rparr>"

definition float32_be_format :: "gfloat byte_format" where
  "float32_be_format = \<lparr>fmt_bits = 32, fmt_read = GST_READ_FLOAT_BE, fmt_adj = (\<lambda>val. val)\<rparr>"

definition float64_le_format :: "gdouble byte_format" where
  "float64_le_format = \<lparr>fmt_bits = 64, fmt_read = GST_READ_DOUBLE_LE, fmt_adj = (\<lambda>val. val)\<rparr>"

definition float64_be_format :: "gdouble byte_format" where
  "float64_be_format = \<lparr>fmt_bits = 64, fmt_read = GST_READ_DOUBLE_BE, fmt_adj = (\<lambda>val. val)\<rparr>"

section \<open>Checked accessors\<close>

definition gst_byte_reader_peek_data_unchecked :: "gst_byte_reader \<Rightarrow> nat" where
  "gst_byte_reader_peek_data_unchecked reader = rd_data reader + unat (rd_byte reader)"

definition gst_byte_reader_get_data_unchecked :: "guint32 \<Rightarrow> gst_byte_reader \<Rightarrow> nat \<times> gst_byte_reader" where
  "gst_byte_reader_get_data_unchecked n reader =
     (gst_byte_reader_peek_data_unchecked reader, gst_byte_reader_skip_unchecked n reader)"

text \<open>The copy GLib's \<open>g_memdup\<close> makes of \<open>n\<close> bytes at an address is a parameter.\<close>

definition gst_byte_reader_dup_data_unchecked ::
  "(nat \<Rightarrow> guint32 \<Rightarrow> 'p) \<Rightarrow> guint32 \<Rightarrow> gst_byte_reader \<Rightarrow> 'p \<times> gst_byte_reader" where
  "gst_byte_reader_dup_data_unchecked g_memdup n reader =
     (let (data, reader) = gst_byte_reader_get_data_unchecked n reader in (g_memdup data n, reader))"

definition gst_byte_reader_get_pos_unchecked :: "gst_byte_reader \<Rightarrow> guint32" where
  "gst_byte_reader_get_pos_unchecked reader = rd_byte reader"

definition gst_byte_reader_get_remaining_unchecked :: "gst_byte_reader \<Rightarrow> guint32" where
  "gst_byte_reader_get_remaining_unchecked reader = rd_size reader - rd_byte reader"

definition gst_byte_reader_get_size_unchecked :: "gst_byte_reader \<Rightarrow> guint32" where
  "gst_byte_reader_get_size_unchecked reader = rd_size reader"

text \<open>
  The reader is \<open>None\<close> when the pointer is \<open>NULL\<close>, \<open>val\<close> is whether the result pointer is there.
  A checked accessor returns its result (\<open>None\<close> for \<open>FALSE\<close>) and the reader.
\<close>

definition gst_byte_reader_get_remaining_inline :: "gst_byte_reader option \<Rightarrow> guint32 outcome" where
  "gst_byte_reader_get_remaining_inline reader =
     (case reader of None \<Rightarrow> CriticalReturn
      | Some r \<Rightarrow> Done (gst_byte_reader_get_remaining_unchecked r))"

definition gst_byte_reader_get_size_inline :: "gst_byte_reader option \<Rightarrow> guint32 outcome" where
  "gst_byte_reader_get_size_inline reader =
     (case reader of None \<Rightarrow> CriticalReturn
      | Some r \<Rightarrow> Done (gst_byte_reader_get_size_unchecked r))"

definition peek_inline ::
  "'a byte_format \<Rightarrow> platform \<Rightarrow> mem \<Rightarrow> gst_byte_reader option \<Rightarrow> bool \<Rightarrow> 'a option outcome" where
  "peek_inline fmt pf m reader val =
     (case reader of None \<Rightarrow> CriticalReturn
      | Some r \<Rightarrow>
          if \<not> val then CriticalReturn
          else if gst_byte_reader_get_remaining_unchecked r < of_nat (fmt_bits fmt div 8)
          then Done None
          else Done (Some (peek_unchecked fmt pf m r)))"

definition get_inline ::
  "'a byte_format \<Rightarrow> platform \<Rightarrow> mem \<Rightarrow> gst_byte_reader option \<Rightarrow> bool \<Rightarrow>
     ('a option \<times> gst_byte_reader) outcome" where
  "get_inline fmt pf m reader val =
     (case reader of None \<Rightarrow> CriticalReturn
      | Some r \<Rightarrow>
          if \<not> val then CriticalReturn
          else if gst_byte_reader_get_remaining_unchecked r < of_nat (fmt_bits fmt div 8)
          then Done (None, r)
          else Done (apfst Some (get_unchecked fmt pf m r)))"

definition gst_byte_reader_peek_uint8_inline ::
  "platform \<Rightarrow> mem \<Rightarrow> gst_byte_reader option \<Rightarrow> bool \<Rightarrow> guint8 option outcome" where
  "gst_byte_reader_peek_uint8_inline = peek_inline uint8_format"

definition gst_byte_reader_get_uint8_inline ::
  "platform \<Rightarrow> mem \<Rightarrow> gst_byte_reader option \<Rightarrow> bool \<Rightarrow> (guint8 option \<times> gst_byte_reader) outcome" where
  "gst_byte_reader_get_uint8_inline = get_inline uint8_format"

definition gst_byte_reader_peek_int8_inline ::
  "platform \<Rightarrow> mem \<Rightarrow> gst_byte_reader option \<Rightarrow> bool \<Rightarrow> guint8 option outcome" where
  "gst_byte_reader_peek_int8_inline = peek_inline int8_format"

definition gst_byte_reader_get_int8_inline ::
  "platform \<Rightarrow> mem \<Rightarrow> gst_byte_reader option \<Rightarrow> bool \<Rightarrow> (guint8 option \<times> gst_byte_reader) outcome" where
  "gst_byte_reader_get_int8_inline = get_inline int8_format"

definition gst_byte_reader_peek_uint16_le_inline ::
  "platform \<Rightarrow> mem \<Rightarrow> gst_byte_reader option \<Rightarrow> bool \<Rightarrow> guint16 option outcome" where
  "gst_byte_reader_peek_uint16_le_inline = peek_inline uint16_le_format"

definition gst_byte_reader_get_uint16_le_inline ::
  "platform \<Rightarrow> mem \<Rightarrow> gst_byte_reader option \<Rightarrow> bool \<Rightarrow> (guint16 option \<times> gst_byte_reader) outcome" where
  "gst_byte_reader_get_uint16_le_inline = get_inline uint16_le_format"

definition gst_byte_reader_peek_uint16_be_inline ::
  "platform \<Rightarrow> mem \<Rightarrow> gst_byte_reader option \<Rightarrow> bool \<Rightarrow> guint16 option outcome" where
  "gst_byte_reader_peek_uint16_be_inline = peek_inline uint16_be_format"

definition gst_byte_reader_get_uint16_be_inline ::
  "platform \<Rightarrow> mem \<Rightarrow> gst_byte_reader option \<Rightarrow> bool \<Rightarrow> (guint16 option \<times> gst_byte_reader) outcome" where
  "gst_byte_reader_get_uint16_be_inline = get_inline uint16_be_format"

definition gst_byte_reader_peek_int16_le_inline ::
  "platform \<Rightarrow> mem \<Rightarrow> gst_byte_reader option \<Rightarrow> bool \<Rightarrow> guint16 option outcome" where
  "gst_byte_reader_peek_int16_le_inline = peek_inline int16_le_format"

definition gst_byte_reader_get_int16_le_inline ::
  "platform \<Rightarrow> mem \<Rightarrow> gst_byte_reader option \<Rightarrow> bool \<Rightarrow> (guint16 option \<times> gst_byte_reader) outcome" where
  "gst_byte_reader_get_int16_le_inline = get_inline int16_le_format"

definition gst_byte_reader_peek_int16_be_inline ::
  "platform \<Rightarrow> mem \<Rightarrow> gst_byte_reader option \<Rightarrow> bool \<Rightarrow> guint16 option outcome" where
  "gst_byte_reader_peek_int16_be_inline = peek_inline int16_be_format"

definition gst_byte_reader_get_int16_be_inline ::
  "platform \<Rightarrow> mem \<Rightarrow> gst_byte_reader option \<Rightarrow> bool \<Rightarrow> (guint16 option \<times> gst_byte_reader) outcome" where
  "gst_byte_reader_get_int16_be_inline = get_inline int16_be_format"

definition gst_byte_reader_peek_uint32_le_inline ::
  "platform \<Rightarrow> mem \<Rightarrow> gst_byte_reader option \<Rightarrow> bool \<Rightarrow> guint32 option outcome" where
  "gst_byte_reader_peek_uint32_le_inline = peek_inline uint32_le_format"

definition gst_byte_reader_get_uint32_le_inline ::
  "platform \<Rightarrow> mem \<Rightarrow> gst_byte_reader option \<Rightarrow> bool \<Rightarrow> (guint32 option \<times> gst_byte_reader) outcome" where
  "gst_byte_reader_get_uint32_le_inline = get_inline uint32_le_format"

definition gst_byte_reader_peek_uint32_be_inline ::
  "platform \<Rightarrow> mem \<Rightarrow> gst_byte_reader option \<Rightarrow> bool \<Rightarrow> guint32 option outcome" where
  "gst_byte_reader_peek_uint32_be_inline = peek_inline uint32_be_format"

definition gst_byte_reader_get_uint32_be_inline ::
  "platform \<Rightarrow> mem \<Rightarrow> gst_byte_reader option \<Rightarrow> bool \<Rightarrow> (guint32 option \<times> gst_byte_reader) outcome" where
  "gst_byte_reader_get_uint32_be_inline = get_inline uint32_be_format"

definition gst_byte_reader_peek_int32_le_inline ::
  "platform \<Rightarrow> mem \<Rightarrow> gst_byte_reader option \<Rightarrow> bool \<Rightarrow> guint32 option outcome" where
  "gst_byte_reader_peek_int32_le_inline = peek_inline int32_le_format"

definition gst_byte_reader_get_int32_le_inline ::
  "platform \<Rightarrow> mem \<Rightarrow> gst_byte_reader option \<Rightarrow> bool \<Rightarrow> (guint32 option \<times> gst_byte_reader) outcome" where
  "gst_byte_reader_get_int32_le_inline = get_inline int32_le_format"

definition gst_byte_reader_peek_int32_be_inline ::
  "platform \<Rightarrow> mem \<Rightarrow> gst_byte_reader option \<Rightarrow> bool \<Rightarrow> guint32 option outcome" where
  "gst_byte_reader_peek_int32_be_inline = peek_inline int32_be_format"

definition gst_byte_reader_get_int32_be_inline ::
  "platform \<Rightarrow> mem \<Rightarrow> gst_byte_reader option \<Rightarrow> bool \<Rightarrow> (guint32 option \<times> gst_byte_reader) outcome" where
  "gst_byte_reader_get_int32_be_inline = get_inline int32_be_format"

definition gst_byte_reader_peek_uint24_le_inline ::
  "platform \<Rightarrow> mem \<Rightarrow> gst_byte_reader option \<Rightarrow> bool \<Rightarrow> guint32 option outcome" where
  "gst_byte_reader_peek_uint24_le_inline = peek_inline uint24_le_format"

definition gst_byte_reader_get_uint24_le_inline ::
  "platform \<Rightarrow> mem \<Rightarrow> gst_byte_reader option \<Rightarrow> bool \<Rightarrow> (guint32 option \<times> gst_byte_reader) outcome" where
  "gst_byte_reader_get_uint24_le_inline = get_inline uint24_le_format"

definition gst_byte_reader_peek_uint24_be_inline ::
  "platform \<Rightarrow> mem \<Rightarrow> gst_byte_reader option \<Rightarrow> bool \<Rightarrow> guint32 option outcome" where
  "gst_byte_reader_peek_uint24_be_inline = peek_inline uint24_be_format"

definition gst_byte_reader_get_uint24_be_inline ::
  "platform \<Rightarrow> mem \<Rightarrow> gst_byte_reader option \<Rightarrow> bool \<Rightarrow> (guint32 option \<times> gst_byte_reader) outcome" where
  "gst_byte_reader_get_uint24_be_inline = get_inline uint24_be_format"

definition gst_byte_reader_peek_int24_le_inline ::
  "platform \<Rightarrow> mem \<Rightarrow> gst_byte_reader option \<Rightarrow> bool \<Rightarrow> guint32 option outcome" where
  "gst_byte_reader_peek_int24_le_inline = peek_inline int24_le_format"

definition gst_byte_reader_get_int24_le_inline ::
  "platform \<Rightarrow> mem \<Rightarrow> gst_byte_reader option \<Rightarrow> bool \<Rightarrow> (guint32 option \<times> gst_byte_reader) outcome" where
  "gst_byte_reader_get_int24_le_inline = get_inline int24_le_format"

definition gst_byte_reader_peek_int24_be_inline ::
  "platform \<Rightarrow> mem \<Rightarrow> gst_byte_reader option \<Rightarrow> bool \<Rightarrow> guint32 option outcome" where
  "gst_byte_reader_peek_int24_be_inline = peek_inline int24_be_format"

definition gst_byte_reader_get_int24_be_inline ::
  "platform \<Rightarrow> mem \<Rightarrow> gst_byte_reader option \<Rightarrow> bool \<Rightarrow> (guint32 option \<times> gst_byte_reader) outcome" where
  "gst_byte_reader_get_int24_be_inline = get_inline int24_be_format"

definition gst_byte_reader_peek_uint64_le_inline ::
  "platform \<Rightarrow> mem \<Rightarrow> gst_byte_reader option \<Rightarrow> bool \<Rightarrow> guint64 option outcome" where
  "gst_byte_reader_peek_uint64_le_inline = peek_inline uint64_le_format"

definition gst_byte_reader_get_uint64_le_inline ::
  "platform \<Rightarrow> mem \<Rightarrow> gst_byte_reader option \<Rightarrow> bool \<Rightarrow> (guint64 option \<times> gst_byte_reader) outcome" where
  "gst_byte_reader_get_uint64_le_inline = get_inline uint64_le_format"

definition gst_byte_reader_peek_uint64_be_inline ::
  "platform \<Rightarrow> mem \<Rightarrow> gst_byte_reader option \<Rightarrow> bool \<Rightarrow> guint64 option outcome" where
  "gst_byte_reader_peek_uint64_be_inline = peek_inline uint64_be_format"

definition gst_byte_reader_get_uint64_be_inline ::
  "platform \<Rightarrow> mem \<Rightarrow> gst_byte_reader option \<Rightarrow> bool \<Rightarrow> (guint64 option \<times> gst_byte_reader) outcome" where
  "gst_byte_reader_get_uint64_be_inline = get_inline uint64_be_format"

definition gst_byte_reader_peek_int64_le_inline ::
  "platform \<Rightarrow> mem \<Rightarrow> gst_byte_reader option \<Rightarrow> bool \<Rightarrow> guint64 option outcome" where
  "gst_byte_reader_peek_int64_le_inline = peek_inline int64_le_format"

definition gst_byte_reader_get_int64_le_inline ::
  "platform \<Rightarrow> mem \<Rightarrow> gst_byte_reader option \<Rightarrow> bool \<Rightarrow> (guint64 option \<times> gst_byte_reader) outcome" where
  "gst_byte_reader_get_int64_le_inline = get_inline int64_le_format"

definition gst_byte_reader_peek_int64_be_inline ::
  "platform \<Rightarrow> mem \<Rightarrow> gst_byte_reader option \<Rightarrow> bool \<Rightarrow> guint64 option outcome" where
  "gst_byte_reader_peek_int64_be_inline = peek_inline int64_be_format"

definition gst_byte_reader_get_int64_be_inline ::
  "platform \<Rightarrow> mem \<Rightarrow> gst_byte_reader option \<Rightarrow> bool \<Rightarrow> (guint64 option \<times> gst_byte_reader) outcome" where
  "gst_byte_reader_get_int64_be_inline = get_inline int64_be_format"

definition gst_byte_reader_peek_float32_le_inline ::
  "platform \<Rightarrow> mem \<Rightarrow> gst_byte_reader option \<Rightarrow> bool \<Rightarrow> gfloat option outcome" where
  "gst_byte_reader_peek_float32_le_inline = peek_inline float32_le_format"

definition gst_byte_reader_get_float32_le_inline ::
  "platform \<Rightarrow> mem \<Rightarrow> gst_byte_reader option \<Rightarrow> bool \<Rightarrow> (gfloat option \<times> gst_byte_reader) outcome" where
  "gst_byte_reader_get_float32_le_inline = get_inline float32_le_format"

definition gst_byte_reader_peek_float32_be_inline ::
  "platform \<Rightarrow> mem \<Rightarrow> gst_byte_reader option \<Rightarrow> bool \<Rightarrow> gfloat option outcome" where
  "gst_byte_reader_peek_float32_be_inline = peek_inline float32_be_format"

definition gst_byte_reader_get_float32_be_inline ::
  "platform \<Rightarrow> mem \<Rightarrow> gst_byte_reader option \<Rightarrow> bool \<Rightarrow> (gfloat option \<times> gst_byte_reader) outcome" where
  "gst_byte_reader_get_float32_be_inline = get_inline float32_be_format"

definition gst_byte_reader_peek_float64_le_inline ::
  "platform \<Rightarrow> mem \<Rightarrow> gst_byte_reader option \<Rightarrow> bool \<Rightarrow> gdouble option outcome" where
  "gst_byte_reader_peek_float64_le_inline = peek_inline float64_le_format"

definition gst_byte_reader_get_float64_le_inline ::
  "platform \<Rightarrow> mem \<Rightarrow> gst_byte_reader option \<Rightarrow> bool \<Rightarrow> (gdouble option \<times> gst_byte_reader) outcome" where
  "gst_byte_reader_get_float64_le_inline = get_inline float64_le_format"

definition gst_byte_reader_peek_float64_be_inline ::
  "platform \<Rightarrow> mem \<Rightarrow> gst_byte_reader option \<Rightarrow> bool \<Rightarrow> gdouble option outcome" where
  "gst_byte_reader_peek_float64_be_inline = peek_inline float64_be_format"

definition gst_byte_reader_get_float64_be_inline ::
  "platform \<Rightarrow> mem \<Rightarrow> gst_byte_reader option \<Rightarrow> bool \<Rightarrow> (gdouble option \<times> gst_byte_reader) outcome" where
  "gst_byte_reader_get_float64_be_inline = get_inline float64_be_format"

text \<open>The names the header gives its users; \<open>G_LIKELY\<close> is its argument.\<close>

definition gst_byte_reader_get_uint8 ::
  "platform \<Rightarrow> mem \<Rightarrow> gst_byte_reader option \<Rightarrow> bool \<Rightarrow> (guint8 option \<times> gst_byte_reader) outcome" where
  "gst_byte_reader_get_uint8 = gst_byte_reader_get_uint8_inline"

definition gst_byte_reader_get_int8 ::
  "platform \<Rightarrow> mem \<Rightarrow> gst_byte_reader option \<Rightarrow> bool \<Rightarrow> (guint8 option \<times> gst_byte_reader) outcome" where
  "gst_byte_reader_get_int8 = gst_byte_reader_get_int8_inline"

definition gst_byte_reader_get_uint16_le ::
  "platform \<Rightarrow> mem \<Rightarrow> gst_byte_reader option \<Rightarrow> bool \<Rightarrow> (guint16 option \<times> gst_byte_reader) outcome" where
  "gst_byte_reader_get_uint16_le = gst_byte_reader_get_uint16_le_inline"

definition gst_byte_reader_get_uint16_be ::
  "platform \<Rightarrow> mem \<Rightarrow> gst_byte_reader option \<Rightarrow> bool \<Rightarrow> (guint16 option \<times> gst_byte_reader) outcome" where
  "gst_byte_reader_get_uint16_be = gst_byte_reader_get_uint16_be_inline"

definition gst_byte_reader_get_int16_le ::
  "platform \<Rightarrow> mem \<Rightarrow> gst_byte_reader option \<Rightarrow> bool \<Rightarrow> (guint16 option \<times> gst_byte_reader) outcome" where
  "gst_byte_reader_get_int16_le = gst_byte_reader_get_int16_le_inline"

definition gst_byte_reader_get_int16_be ::
  "platform \<Rightarrow> mem \<Rightarrow> gst_byte_reader option \<Rightarrow> bool \<Rightarrow> (guint16 option \<times> gst_byte_reader) outcome" where
  "gst_byte_reader_get_int16_be = gst_byte_reader_get_int16_be_inline"

definition gst_byte_reader_get_uint32_le ::
  "platform \<Rightarrow> mem \<Rightarrow> gst_byte_reader option \<Rightarrow> bool \<Rightarrow> (guint32 option \<times> gst_byte_reader) outcome" where
  "gst_byte_reader_get_uint32_le = gst_byte_reader_get_uint32_le_inline"

definition gst_byte_reader_get_uint32_be ::
  "platform \<Rightarrow> mem \<Rightarrow> gst_byte_reader option \<Rightarrow> bool \<Rightarrow> (guint32 option \<times> gst_byte_reader) outcome" where
  "gst_byte_reader_get_uint32_be = gst_byte_reader_get_uint32_be_inline"

definition gst_byte_reader_get_int32_le ::
  "platform \<Rightarrow> mem \<Rightarrow> gst_byte_reader option \<Rightarrow> bool \<Rightarrow> (guint32 option \<times> gst_byte_reader) outcome" where
  "gst_byte_reader_get_int32_le = gst_byte_reader_get_int32_le_inline"

definition gst_byte_reader_get_int32_be ::
  "platform \<Rightarrow> mem \<Rightarrow> gst_byte_reader option \<Rightarrow> bool \<Rightarrow> (guint32 option \<times> gst_byte_reader) outcome" where
  "gst_byte_reader_get_int32_be = gst_byte_reader_get_int32_be_inline"

definition gst_byte_reader_get_uint24_le ::
  "platform \<Rightarrow> mem \<Rightarrow> gst_byte_reader option \<Rightarrow> bool \<Rightarrow> (guint32 option \<times> gst_byte_reader) outcome" where
  "gst_byte_reader_get_uint24_le = gst_byte_reader_get_uint24_le_inline"

definition gst_byte_reader_get_uint24_be ::
  "platform \<Rightarrow> mem \<Rightarrow> gst_byte_reader option \<Rightarrow> bool \<Rightarrow> (guint32 option \<times> gst_byte_reader) outcome" where
  "gst_byte_reader_get_uint24_be = gst_byte_reader_get_uint24_be_inline"

definition gst_byte_reader_get_int24_le ::
  "platform \<Rightarrow> mem \<Rightarrow> gst_byte_reader option \<Rightarrow> bool \<Rightarrow> (guint32 option \<times> gst_byte_reader) outcome" where
  "gst_byte_reader_get_int24_le = gst_byte_reader_get_int24_le_inline"

definition gst_byte_reader_get_int24_be ::
  "platform \<Rightarrow> mem \<Rightarrow> gst_byte_reader option \<Rightarrow> bool \<Rightarrow> (guint32 option \<times> gst_byte_reader) outcome" where
  "gst_byte_reader_get_int24_be = gst_byte_reader_get_int24_be_inline"

definition gst_byte_reader_get_uint64_le ::
  "platform \<Rightarrow> mem \<Rightarrow> gst_byte_reader option \<Rightarrow> bool \<Rightarrow> (guint64 option \<times> gst_byte_reader) outcome" where
  "gst_byte_reader_get_uint64_le = gst_byte_reader_get_uint64_le_inline"

definition gst_byte_reader_get_uint64_be ::
  "platform \<Rightarrow> mem \<Rightarrow> gst_byte_reader option \<Rightarrow> bool \<Rightarrow> (guint64 option \<times> gst_byte_reader) outcome" where
  "gst_byte_reader_get_uint64_be = gst_byte_reader_get_uint64_be_inline"

definition gst_byte_reader_get_int64_le ::
  "platform \<Rightarrow> mem \<Rightarrow> gst_byte_reader option \<Rightarrow> bool \<Rightarrow> (guint64 option \<times> gst_byte_reader) outcome" where
  "gst_byte_reader_get_int64_le = gst_byte_reader_get_int64_le_inline"

definition gst_byte_reader_get_int64_be ::
  "platform \<Rightarrow> mem \<Rightarrow> gst_byte_reader option \<Rightarrow> bool \<Rightarrow> (guint64 option \<times> gst_byte_reader) outcome" where
  "gst_byte_reader_get_int64_be = gst_byte_reader_get_int64_be_inline"

definition gst_byte_reader_get_float32_le ::
  "platform \<Rightarrow> mem \<Rightarrow> gst_byte_reader option \<Rightarrow> bool \<Rightarrow> (gfloat option \<times> gst_byte_reader) outcome" where
  "gst_byte_reader_get_float32_le = gst_byte_reader_get_float32_le_inline"

definition gst_byte_reader_get_float32_be ::
  "platform \<Rightarrow> mem \<Rightarrow> gst_byte_reader option \<Rightarrow> bool \<Rightarrow> (gfloat option \<times> gst_byte_reader) outcome" where
  "gst_byte_reader_get_float32_be = gst_byte_reader_get_float32_be_inline"

definition gst_byte_reader_get_float64_le ::
  "platform \<Rightarrow> mem \<Rightarrow> gst_byte_reader option \<Rightarrow> bool \<Rightarrow> (gdouble option \<times> gst_byte_reader) outcome" where
  "gst_byte_reader_get_float64_le = gst_byte_reader_get_float64_le_inline"

definition gst_byte_reader_get_float64_be ::
  "platform \<Rightarrow> mem \<Rightarrow> gst_byte_reader option \<Rightarrow> bool \<Rightarrow> (gdouble option \<times> gst_byte_reader) outcome" where
  "gst_byte_reader_get_float64_be = gst_byte_reader_get_float64_be_inline"

definition gst_byte_reader_peek_uint8 ::
  "platform \<Rightarrow> mem \<Rightarrow> gst_byte_reader option \<Rightarrow> bool \<Rightarrow> guint8 option outcome" where
  "gst_byte_reader_peek_uint8 = gst_byte_reader_peek_uint8_inline"

definition gst_byte_reader_peek_int8 ::
  "platform \<Rightarrow> mem \<Rightarrow> gst_byte_reader option \<Rightarrow> bool \<Rightarrow> guint8 option outcome" where
  "gst_byte_reader_peek_int8 = gst_byte_reader_peek_int8_inline"

definition gst_byte_reader_peek_uint16_le ::
  "platform \<Rightarrow> mem \<Rightarrow> gst_byte_reader option \<Rightarrow> bool \<Rightarrow> guint16 option outcome" where
  "gst_byte_reader_peek_uint16_le = gst_byte_reader_peek_uint16_le_inline"

definition gst_byte_reader_peek_uint16_be ::
  "platform \<Rightarrow> mem \<Rightarrow> gst_byte_reader option \<Rightarrow> bool \<Rightarrow> guint16 option outcome" where
  "gst_byte_reader_peek_uint16_be = gst_byte_reader_peek_uint16_be_inline"

definition gst_byte_reader_peek_int16_le ::
  "platform \<Rightarrow> mem \<Rightarrow> gst_byte_reader option \<Rightarrow> bool \<Rightarrow> guint16 option outcome" where
  "gst_byte_reader_peek_int16_le = gst_byte_reader_peek_int16_le_inline"

definition gst_byte_reader_peek_int16_be ::
  "platform \<Rightarrow> mem \<Rightarrow> gst_byte_reader option \<Rightarrow> bool \<Rightarrow> guint16 option outcome" where
  "gst_byte_reader_peek_int16_be = gst_byte_reader_peek_int16_be_inline"

definition gst_byte_reader_peek_uint32_le ::
  "platform \<Rightarrow> mem \<Rightarrow> gst_byte_reader option \<Rightarrow> bool \<Rightarrow> guint32 option outcome" where
  "gst_byte_reader_peek_uint32_le = gst_byte_reader_peek_uint32_le_inline"

definition gst_byte_reader_peek_uint32_be ::
  "platform \<Rightarrow> mem \<Rightarrow> gst_byte_reader option \<Rightarrow> bool \<Rightarrow> guint32 option outcome" where
  "gst_byte_reader_peek_uint32_be = gst_byte_reader_peek_uint32_be_inline"

definition gst_byte_reader_peek_int32_le ::
  "platform \<Rightarrow> mem \<Rightarrow> gst_byte_reader option \<Rightarrow> bool \<Rightarrow> guint32 option outcome" where
  "gst_byte_reader_peek_int32_le = gst_byte_reader_peek_int32_le_inline"

definition gst_byte_reader_peek_int32_be ::
  "platform \<Rightarrow> mem \<Rightarrow> gst_byte_reader option \<Rightarrow> bool \<Rightarrow> guint32 option outcome" where
  "gst_byte_reader_peek_int32_be = gst_byte_reader_peek_int32_be_inline"

definition gst_byte_reader_peek_uint24_le ::
  "platform \<Rightarrow> mem \<Rightarrow> gst_byte_reader option \<Rightarrow> bool \<Rightarrow> guint32 option outcome" where
  "gst_byte_reader_peek_uint24_le = gst_byte_reader_peek_uint24_le_inline"

definition gst_byte_reader_peek_uint24_be ::
  "platform \<Rightarrow> mem \<Rightarrow> gst_byte_reader option \<Rightarrow> bool \<Rightarrow> guint32 option outcome" where
  "gst_byte_reader_peek_uint24_be = gst_byte_reader_peek_uint24_be_inline"

definition gst_byte_reader_peek_int24_le ::
  "platform \<Rightarrow> mem \<Rightarrow> gst_byte_reader option \<Rightarrow> bool \<Rightarrow> guint32 option outcome" where
  "gst_byte_reader_peek_int24_le = gst_byte_reader_peek_int24_le_inline"

definition gst_byte_reader_peek_int24_be ::
  "platform \<Rightarrow> mem \<Rightarrow> gst_byte_reader option \<Rightarrow> bool \<Rightarrow> guint32 option outcome" where
  "gst_byte_reader_peek_int24_be = gst_byte_reader_peek_int24_be_inline"

definition gst_byte_reader_peek_uint64_le ::
  "platform \<Rightarrow> mem \<Rightarrow> gst_byte_reader option \<Rightarrow> bool \<Rightarrow> guint64 option outcome" where
  "gst_byte_reader_peek_uint64_le = gst_byte_reader_peek_uint64_le_inline"

definition gst_byte_reader_peek_uint64_be ::
  "platform \<Rightarrow> mem \<Rightarrow> gst_byte_reader option \<Rightarrow> bool \<Rightarrow> guint64 option outcome" where
  "gst_byte_reader_peek_uint64_be = gst_byte_reader_peek_uint64_be_inline"

definition gst_byte_reader_peek_int64_le ::
  "platform \<Rightarrow> mem \<Rightarrow> gst_byte_reader option \<Rightarrow> bool \<Rightarrow> guint64 option outcome" where
  "gst_byte_reader_peek_int64_le = gst_byte_reader_peek_int64_le_inline"

definition gst_byte_reader_peek_int64_be ::
  "platform \<Rightarrow> mem \<Rightarrow> gst_byte_reader option \<Rightarrow> bool \<Rightarrow> guint64 option outcome" where
  "gst_byte_reader_peek_int64_be = gst_byte_reader_peek_int64_be_inline"

definition gst_byte_reader_peek_float32_le ::
  "platform \<Rightarrow> mem \<Rightarrow> gst_byte_reader option \<Rightarrow> bool \<Rightarrow> gfloat option outcome" where
  "gst_byte_reader_peek_float32_le = gst_byte_reader_peek_float32_le_inline"

definition gst_byte_reader_peek_float32_be ::
  "platform \<Rightarrow> mem \<Rightarrow> gst_byte_reader option \<Rightarrow> bool \<Rightarrow> gfloat option outcome" where
  "gst_byte_reader_peek_float32_be = gst_byte_reader_peek_float32_be_inline"

definition gst_byte_reader_peek_float64_le ::
  "platform \<Rightarrow> mem \<Rightarrow> gst_byte_reader option \<Rightarrow> bool \<Rightarrow> gdouble option outcome" where
  "gst_byte_reader_peek_float64_le = gst_byte_reader_peek_float64_le_inline"

definition gst_byte_reader_peek_float64_be ::
  "platform \<Rightarrow> mem \<Rightarrow> gst_byte_reader option \<Rightarrow> bool \<Rightarrow> gdouble option outcome" where
  "gst_byte_reader_peek_float64_be = gst_byte_reader_peek_float64_be_inline"

lemmas format_defs =
  uint8_format_def int8_format_def uint16_le_format_def uint16_be_format_def int16_le_format_def
  int16_be_format_def uint32_le_format_def uint32_be_format_def int32_le_format_def
  int32_be_format_def uint24_le_format_def uint24_be_format_def int24_le_format_def
  int24_be_format_def uint64_le_format_def uint64_be_format_def int64_le_format_def
  int64_be_format_def float32_le_format_def float32_be_format_def float64_le_format_def
  float64_be_format_def

lemmas reader_get_defs =
  gst_byte_reader_get_uint8_def gst_byte_reader_get_uint8_inline_def gst_byte_reader_get_int8_def
  gst_byte_reader_get_int8_inline_def gst_byte_reader_get_uint16_le_def
  gst_byte_reader_get_uint16_le_inline_def gst_byte_reader_get_uint16_be_def
  gst_byte_reader_get_uint16_be_inline_def gst_byte_reader_get_int16_le_def
  gst_byte_reader_get_int16_le_inline_def gst_byte_reader_get_int16_be_def
  gst_byte_reader_get_int16_be_inline_def gst_byte_reader_get_uint32_le_def
  gst_byte_reader_get_uint32_le_inline_def gst_byte_reader_get_uint32_be_def
  gst_byte_reader_get_uint32_be_inline_def gst_byte_reader_get_int32_le_def
  gst_byte_reader_get_int32_le_inline_def gst_byte_reader_get_int32_be_def
  gst_byte_reader_get_int32_be_inline_def gst_byte_reader_get_uint24_le_def
  gst_byte_reader_get_uint24_le_inline_def gst_byte_reader_get_uint24_be_def
  gst_byte_reader_get_uint24_be_inline_def gst_byte_reader_get_int24_le_def
  gst_byte_reader_get_int24_le_inline_def gst_byte_reader_get_int24_be_def
  gst_byte_reader_get_int24_be_inline_def gst_byte_reader_get_uint64_le_def
  gst_byte_reader_get_uint64_le_inline_def gst_byte_reader_get_uint64_be_def
  gst_byte_reader_get_uint64_be_inline_def gst_byte_reader_get_int64_le_def
  gst_byte_reader_get_int64_le_inline_def gst_byte_reader_get_int64_be_def
  gst_byte_reader_get_int64_be_inline_def gst_byte_reader_get_float32_le_def
  gst_byte_reader_get_float32_le_inline_def gst_byte_reader_get_float32_be_def
  gst_byte_reader_get_float32_be_inline_def gst_byte_reader_get_float64_le_def
  gst_byte_reader_get_float64_le_inline_def gst_byte_reader_get_float64_be_def
  gst_byte_reader_get_float64_be_inline_def

lemmas reader_peek_defs =
  gst_byte_reader_peek_uint8_def gst_byte_reader_peek_uint8_inline_def
  gst_byte_reader_peek_int8_def gst_byte_reader_peek_int8_inline_def
  gst_byte_reader_peek_uint16_le_def gst_byte_reader_peek_uint16_le_inline_def
  gst_byte_reader_peek_uint16_be_def gst_byte_reader_peek_uint16_be_inline_def
  gst_byte_reader_peek_int16_le_def gst_byte_reader_peek_int16_le_inline_def
  gst_byte_reader_peek_int16_be_def gst_byte_reader_peek_int16_be_inline_def
  gst_byte_reader_peek_uint32_le_def gst_byte_reader_peek_uint32_le_inline_def
  gst_byte_reader_peek_uint32_be_def gst_byte_reader_peek_uint32_be_inline_def
  gst_byte_reader_peek_int32_le_def gst_byte_reader_peek_int32_le_inline_def
  gst_byte_reader_peek_int32_be_def gst_byte_reader_peek_int32_be_inline_def
  gst_byte_reader_peek_uint24_le_def gst_byte_reader_peek_uint24_le_inline_def
  gst_byte_reader_peek_uint24_be_def gst_byte_reader_peek_uint24_be_inline_def
  gst_byte_reader_peek_int24_le_def gst_byte_reader_peek_int24_le_inline_def
  gst_byte_reader_peek_int24_be_def gst_byte_reader_peek_int24_be_inline_def
  gst_byte_reader_peek_uint64_le_def gst_byte_reader_peek_uint64_le_inline_def
  gst_byte_reader_peek_uint64_be_def gst_byte_reader_peek_uint64_be_inline_def
  gst_byte_reader_peek_int64_le_def gst_byte_reader_peek_int64_le_inline_def
  gst_byte_reader_peek_int64_be_def gst_byte_reader_peek_int64_be_inline_def
  gst_byte_reader_peek_float32_le_def gst_byte_reader_peek_float32_le_inline_def
  gst_byte_reader_peek_float32_be_def gst_byte_reader_peek_float32_be_inline_def
  gst_byte_reader_peek_float64_le_def gst_byte_reader_peek_float64_le_inline_def
  gst_byte_reader_peek_float64_be_def gst_byte_reader_peek_float64_be_inline_def

definition gst_byte_reader_init_inline ::
  "gst_byte_reader option \<Rightarrow> nat \<Rightarrow> guint32 \<Rightarrow> gst_byte_reader outcome" where
  "gst_byte_reader_init_inline reader data n =
     (case reader of None \<Rightarrow> CriticalReturn
      | Some r \<Rightarrow> Done (r\<lparr>rd_data := data, rd_size := n, rd_byte := 0\<rparr>))"

definition gst_byte_reader_peek_sub_reader_inline ::
  "gst_byte_reader option \<Rightarrow> gst_byte_reader option \<Rightarrow> guint32 \<Rightarrow> gst_byte_reader option outcome" where
  "gst_byte_reader_peek_sub_reader_inline reader sub_reader n =
     (case (reader, sub_reader) of
        (Some r, Some s) \<Rightarrow>
          if gst_byte_reader_get_remaining_unchecked r < n then Done None
          else Done (Some (s\<lparr>rd_data := rd_data r + unat (rd_byte r), rd_byte := 0, rd_size := n\<rparr>))
      | _ \<Rightarrow> CriticalReturn)"

text \<open>Here a failed guard of the callee is \<open>FALSE\<close> to the caller.\<close>

definition gst_byte_reader_get_sub_reader_inline ::
  "gst_byte_reader option \<Rightarrow> gst_byte_reader option \<Rightarrow> guint32 \<Rightarrow>
     (gst_byte_reader option \<times> gst_byte_reader option) outcome" where
  "gst_byte_reader_get_sub_reader_inline reader sub_reader n =
     (case gst_byte_reader_peek_sub_reader_inline reader sub_reader n of
        Done (Some s) \<Rightarrow> Done (Some s, map_option (gst_byte_reader_skip_unchecked n) reader)
      | Done None \<Rightarrow> Done (None, reader)
      | _ \<Rightarrow> CriticalReturn)"

definition data_refused :: "guint32 \<Rightarrow> gst_byte_reader \<Rightarrow> bool" where
  "data_refused n r \<longleftrightarrow> rd_size r < n \<or> gst_byte_reader_get_remaining_unchecked r < n"

definition gst_byte_reader_dup_data_inline ::
  "(nat \<Rightarrow> guint32 \<Rightarrow> 'p) \<Rightarrow> gst_byte_reader option \<Rightarrow> guint32 \<Rightarrow> bool \<Rightarrow>
     ('p option \<times> gst_byte_reader) outcome" where
  "gst_byte_reader_dup_data_inline g_memdup reader n val =
     (case reader of None \<Rightarrow> CriticalReturn
      | Some r \<Rightarrow>
          if \<not> val then CriticalReturn
          else if data_refused n r then Done (None, r)
          else Done (apfst Some (gst_byte_reader_dup_data_unchecked g_memdup n r)))"

definition gst_byte_reader_get_data_inline ::
  "gst_byte_reader option \<Rightarrow> guint32 \<Rightarrow> bool \<Rightarrow> (nat option \<times> gst_byte_reader) outcome" where
  "gst_byte_reader_get_data_inline reader n val =
     (case reader of None \<Rightarrow> CriticalReturn
      | Some r \<Rightarrow>
          if \<not> val then CriticalReturn
          else if data_refused n r then Done (None, r)
          else Done (apfst Some (gst_byte_reader_get_data_unchecked n r)))"

definition gst_byte_reader_peek_data_inline ::
  "gst_byte_reader option \<Rightarrow> guint32 \<Rightarrow> bool \<Rightarrow> nat option outcome" where
  "gst_byte_reader_peek_data_inline reader n val =
     (case reader of None \<Rightarrow> CriticalReturn
      | Some r \<Rightarrow>
          if \<not> val then CriticalReturn
          else if data_refused n r then Done None
          else Done (Some (gst_byte_reader_peek_data_unchecked r)))"

definition gst_byte_reader_get_pos_inline :: "gst_byte_reader option \<Rightarrow> guint32 outcome" where
  "gst_byte_reader_get_pos_inline reader =
     (case reader of None \<Rightarrow> CriticalReturn | Some r \<Rightarrow> Done (gst_byte_reader_get_pos_unchecked r))"

definition gst_byte_reader_skip_inline ::
  "gst_byte_reader option \<Rightarrow> guint32 \<Rightarrow> (bool \<times> gst_byte_reader) outcome" where
  "gst_byte_reader_skip_inline reader nbytes =
     (case reader of None \<Rightarrow> CriticalReturn
      | Some r \<Rightarrow>
          if gst_byte_reader_get_remaining_unchecked r < nbytes then Done (False, r)
          else Done (True, r\<lparr>rd_byte := rd_byte r + nbytes\<rparr>))"

definition gst_byte_reader_init ::
  "gst_byte_reader option \<Rightarrow> nat \<Rightarrow> guint32 \<Rightarrow> gst_byte_reader outcome" where
  "gst_byte_reader_init = gst_byte_reader_init_inline"

definition gst_byte_reader_get_remaining ::
  "gst_byte_reader option \<Rightarrow> guint32 outcome" where
  "gst_byte_reader_get_remaining = gst_byte_reader_get_remaining_inline"

definition gst_byte_reader_get_size ::
  "gst_byte_reader option \<Rightarrow> guint32 outcome" where
  "gst_byte_reader_get_size = gst_byte_reader_get_size_inline"

definition gst_byte_reader_get_pos ::
  "gst_byte_reader option \<Rightarrow> guint32 outcome" where
  "gst_byte_reader_get_pos = gst_byte_reader_get_pos_inline"

definition gst_byte_reader_dup_data ::
  "(nat \<Rightarrow> guint32 \<Rightarrow> 'p) \<Rightarrow> gst_byte_reader option \<Rightarrow> guint32 \<Rightarrow> bool \<Rightarrow>
     ('p option \<times> gst_byte_reader) outcome" where
  "gst_byte_reader_dup_data = gst_byte_reader_dup_data_inline"

definition gst_byte_reader_get_data ::
  "gst_byte_reader option \<Rightarrow> guint32 \<Rightarrow> bool \<Rightarrow> (nat option \<times> gst_byte_reader) outcome" where
  "gst_byte_reader_get_data = gst_byte_reader_get_data_inline"

definition gst_byte_reader_peek_data ::
  "gst_byte_reader option \<Rightarrow> guint32 \<Rightarrow> bool \<Rightarrow> nat option outcome" where
  "gst_byte_reader_peek_data = gst_byte_reader_peek_data_inline"

definition gst_byte_reader_skip ::
  "gst_byte_reader option \<Rightarrow> guint32 \<Rightarrow> (bool \<times> gst_byte_reader) outcome" where
  "gst_byte_reader_skip = gst_byte_reader_skip_inline"

lemmas reader_api_defs =
  gst_byte_reader_init_def gst_byte_reader_init_inline_def gst_byte_reader_get_remaining_def
  gst_byte_reader_get_remaining_inline_def gst_byte_reader_get_size_def
  gst_byte_reader_get_size_inline_def gst_byte_reader_get_pos_def
  gst_byte_reader_get_pos_inline_def gst_byte_reader_dup_data_def
  gst_byte_reader_dup_data_inline_def gst_byte_reader_get_data_def
  gst_byte_reader_get_data_inline_def gst_byte_reader_peek_data_def
  gst_byte_reader_peek_data_inline_def gst_byte_reader_skip_def gst_byte_reader_skip_inline_def
  gst_byte_reader_get_remaining_unchecked_def gst_byte_reader_get_size_unchecked_def
  gst_byte_reader_get_pos_unchecked_def

section \<open>Scalars as data\<close>

text \<open>
  A scalar with its format.  Reading \<open>like\<close> a scalar calls the accessor of its format, so that
  the statements below cover every accessor.
\<close>

datatype scalar =
    Uint8 guint8
  | Int8 guint8
  | Uint16_le guint16
  | Uint16_be guint16
  | Int16_le guint16
  | Int16_be guint16
  | Uint32_le guint32
  | Uint32_be guint32
  | Int32_le guint32
  | Int32_be guint32
  | Uint24_le guint32
  | Uint24_be guint32
  | Int24_le guint32
  | Int24_be guint32
  | Uint64_le guint64
  | Uint64_be guint64
  | Int64_le guint64
  | Int64_be guint64
  | Float32_le gfloat
  | Float32_be gfloat
  | Float64_le gdouble
  | Float64_be gdouble

primrec scalar_size :: "scalar \<Rightarrow> nat" where
  "scalar_size (Uint8 v) = 1"
| "scalar_size (Int8 v) = 1"
| "scalar_size (Uint16_le v) = 2"
| "scalar_size (Uint16_be v) = 2"
| "scalar_size (Int16_le v) = 2"
| "scalar_size (Int16_be v) = 2"
| "scalar_size (Uint32_le v) = 4"
| "scalar_size (Uint32_be v) = 4"
| "scalar_size (Int32_le v) = 4"
| "scalar_size (Int32_be v) = 4"
| "scalar_size (Uint24_le v) = 3"
| "scalar_size (Uint24_be v) = 3"
| "scalar_size (Int24_le v) = 3"
| "scalar_size (Int24_be v) = 3"
| "scalar_size (Uint64_le v) = 8"
| "scalar_size (Uint64_be v) = 8"
| "scalar_size (Int64_le v) = 8"
| "scalar_size (Int64_be v) = 8"
| "scalar_size (Float32_le v) = 4"
| "scalar_size (Float32_be v) = 4"
| "scalar_size (Float64_le v) = 8"
| "scalar_size (Float64_be v) = 8"

primrec encode :: "scalar \<Rightarrow> guint8 list" where
  "encode (Uint8 v) = read_order False (word_bytes 1 v)"
| "encode (Int8 v) = read_order False (word_bytes 1 v)"
| "encode (Uint16_le v) = read_order False (word_bytes 2 v)"
| "encode (Uint16_be v) = read_order True (word_bytes 2 v)"
| "encode (Int16_le v) = read_order False (word_bytes 2 v)"
| "encode (Int16_be v) = read_order True (word_bytes 2 v)"
| "encode (Uint32_le v) = read_order False (word_bytes 4 v)"
| "encode (Uint32_be v) = read_order True (word_bytes 4 v)"
| "encode (Int32_le v) = read_order False (word_bytes 4 v)"
| "encode (Int32_be v) = read_order True (word_bytes 4 v)"
| "encode (Uint24_le v) = read_order False (word_bytes 3 v)"
| "encode (Uint24_be v) = read_order True (word_bytes 3 v)"
| "encode (Int24_le v) = read_order False (word_bytes 3 v)"
| "encode (Int24_be v) = read_order True (word_bytes 3 v)"
| "encode (Uint64_le v) = read_order False (word_bytes 8 v)"
| "encode (Uint64_be v) = read_order True (word_bytes 8 v)"
| "encode (Int64_le v) = read_order False (word_bytes 8 v)"
| "encode (Int64_be v) = read_order True (word_bytes 8 v)"
| "encode (Float32_le v) = read_order False (word_bytes 4 v)"
| "encode (Float32_be v) = read_order True (word_bytes 4 v)"
| "encode (Float64_le v) = read_order False (word_bytes 8 v)"
| "encode (Float64_be v) = read_order True (word_bytes 8 v)"

primrec decode_like :: "scalar \<Rightarrow> guint8 list \<Rightarrow> scalar" where
  "decode_like (Uint8 v) bs = Uint8 (bytes_word (read_order False bs))"
| "decode_like (Int8 v) bs = Int8 (bytes_word (read_order False bs))"
| "decode_like (Uint16_le v) bs = Uint16_le (bytes_word (read_order False bs))"
| "decode_like (Uint16_be v) bs = Uint16_be (bytes_word (read_order True bs))"
| "decode_like (Int16_le v) bs = Int16_le (bytes_word (read_order False bs))"
| "decode_like (Int16_be v) bs = Int16_be (bytes_word (read_order True bs))"
| "decode_like (Uint32_le v) bs = Uint32_le (bytes_word (read_order False bs))"
| "decode_like (Uint32_be v) bs = Uint32_be (bytes_word (read_order True bs))"
| "decode_like (Int32_le v) bs = Int32_le (bytes_word (read_order False bs))"
| "decode_like (Int32_be v) bs = Int32_be (bytes_word (read_order True bs))"
| "decode_like (Uint24_le v) bs = Uint24_le (bytes_word (read_order False bs))"
| "decode_like (Uint24_be v) bs = Uint24_be (bytes_word (read_order True bs))"
| "decode_like (Int24_le v) bs = Int24_le (sign_fix24 (bytes_word (read_order False bs)))"
| "decode_like (Int24_be v) bs = Int24_be (sign_fix24 (bytes_word (read_order True bs)))"
| "decode_like (Uint64_le v) bs = Uint64_le (bytes_word (read_order False bs))"
| "decode_like (Uint64_be v) bs = Uint64_be (bytes_word (read_order True bs))"
| "decode_like (Int64_le v) bs = Int64_le (bytes_word (read_order False bs))"
| "decode_like (Int64_be v) bs = Int64_be (bytes_word (read_order True bs))"
| "decode_like (Float32_le v) bs = Float32_le (bytes_word (read_order False bs))"
| "decode_like (Float32_be v) bs = Float32_be (bytes_word (read_order True bs))"
| "decode_like (Float64_le v) bs = Float64_le (bytes_word (read_order False bs))"
| "decode_like (Float64_be v) bs = Float64_be (bytes_word (read_order True bs))"

text \<open>A 24-bit scalar is held in 32 bits; it fits its format when it has the range of 24.\<close>

primrec scalar_fits :: "scalar \<Rightarrow> bool" where
  "scalar_fits (Uint8 v) \<longleftrightarrow> True"
| "scalar_fits (Int8 v) \<longleftrightarrow> True"
| "scalar_fits (Uint16_le v) \<longleftrightarrow> True"
| "scalar_fits (Uint16_be v) \<longleftrightarrow> True"
| "scalar_fits (Int16_le v) \<longleftrightarrow> True"
| "scalar_fits (Int16_be v) \<longleftrightarrow> True"
| "scalar_fits (Uint32_le v) \<longleftrightarrow> True"
| "scalar_fits (Uint32_be v) \<longleftrightarrow> True"
| "scalar_fits (Int32_le v) \<longleftrightarrow> True"
| "scalar_fits (Int32_be v) \<longleftrightarrow> True"
| "scalar_fits (Uint24_le v) \<longleftrightarrow> unat v < 2 ^ 24"
| "scalar_fits (Uint24_be v) \<longleftrightarrow> unat v < 2 ^ 24"
| "scalar_fits (Int24_le v) \<longleftrightarrow> - (2 ^ 23) \<le> sint v \<and> sint v < 2 ^ 23"
| "scalar_fits (Int24_be v) \<longleftrightarrow> - (2 ^ 23) \<le> sint v \<and> sint v < 2 ^ 23"
| "scalar_fits (Uint64_le v) \<longleftrightarrow> True"
| "scalar_fits (Uint64_be v) \<longleftrightarrow> True"
| "scalar_fits (Int64_le v) \<longleftrightarrow> True"
| "scalar_fits (Int64_be v) \<longleftrightarrow> True"
| "scalar_fits (Float32_le v) \<longleftrightarrow> True"
| "scalar_fits (Float32_be v) \<longleftrightarrow> True"
| "scalar_fits (Float64_le v) \<longleftrightarrow> True"
| "scalar_fits (Float64_be v) \<longleftrightarrow> True"

primrec get_like :: "scalar \<Rightarrow> platform \<Rightarrow> mem \<Rightarrow> gst_byte_reader option \<Rightarrow> bool \<Rightarrow>
     (scalar option \<times> gst_byte_reader) outcome" where
  "get_like (Uint8 v) pf m r val =
     map_outcome (apfst (map_option Uint8)) (gst_byte_reader_get_uint8 pf m r val)"
| "get_like (Int8 v) pf m r val =
     map_outcome (apfst (map_option Int8)) (gst_byte_reader_get_int8 pf m r val)"
| "get_like (Uint16_le v) pf m r val =
     map_outcome (apfst (map_option Uint16_le)) (gst_byte_reader_get_uint16_le pf m r val)"
| "get_like (Uint16_be v) pf m r val =
     map_outcome (apfst (map_option Uint16_be)) (gst_byte_reader_get_uint16_be pf m r val)"
| "get_like (Int16_le v) pf m r val =
     map_outcome (apfst (map_option Int16_le)) (gst_byte_reader_get_int16_le pf m r val)"
| "get_like (Int16_be v) pf m r val =
     map_outcome (apfst (map_option Int16_be)) (gst_byte_reader_get_int16_be pf m r val)"
| "get_like (Uint32_le v) pf m r val =
     map_outcome (apfst (map_option Uint32_le)) (gst_byte_reader_get_uint32_le pf m r val)"
| "get_like (Uint32_be v) pf m r val =
     map_outcome (apfst (map_option Uint32_be)) (gst_byte_reader_get_uint32_be pf m r val)"
| "get_like (Int32_le v) pf m r val =
     map_outcome (apfst (map_option Int32_le)) (gst_byte_reader_get_int32_le pf m r val)"
| "get_like (Int32_be v) pf m r val =
     map_outcome (apfst (map_option Int32_be)) (gst_byte_reader_get_int32_be pf m r val)"
| "get_like (Uint24_le v) pf m r val =
     map_outcome (apfst (map_option Uint24_le)) (gst_byte_reader_get_uint24_le pf m r val)"
| "get_like (Uint24_be v) pf m r val =
     map_outcome (apfst (map_option Uint24_be)) (gst_byte_reader_get_uint24_be pf m r val)"
| "get_like (Int24_le v) pf m r val =
     map_outcome (apfst (map_option Int24_le)) (gst_byte_reader_get_int24_le pf m r val)"
| "get_like (Int24_be v) pf m r val =
     map_outcome (apfst (map_option Int24_be)) (gst_byte_reader_get_int24_be pf m r val)"
| "get_like (Uint64_le v) pf m r val =
     map_outcome (apfst (map_option Uint64_le)) (gst_byte_reader_get_uint64_le pf m r val)"
| "get_like (Uint64_be v) pf m r val =
     map_outcome (apfst (map_option Uint64_be)) (gst_byte_reader_get_uint64_be pf m r val)"
| "get_like (Int64_le v) pf m r val =
     map_outcome (apfst (map_option Int64_le)) (gst_byte_reader_get_int64_le pf m r val)"
| "get_like (Int64_be v) pf m r val =
     map_outcome (apfst (map_option Int64_be)) (gst_byte_reader_get_int64_be pf m r val)"
| "get_like (Float32_le v) pf m r val =
     map_outcome (apfst (map_option Float32_le)) (gst_byte_reader_get_float32_le pf m r val)"
| "get_like (Float32_be v) pf m r val =
     map_outcome (apfst (map_option Float32_be)) (gst_byte_reader_get_float32_be pf m r val)"
| "get_like (Float64_le v) pf m r val =
     map_outcome (apfst (map_option Float64_le)) (gst_byte_reader_get_float64_le pf m r val)"
| "get_like (Float64_be v) pf m r val =
     map_outcome (apfst (map_option Float64_be)) (gst_byte_reader_get_float64_be pf m r val)"

primrec peek_like :: "scalar \<Rightarrow> platform \<Rightarrow> mem \<Rightarrow> gst_byte_reader option \<Rightarrow> bool \<Rightarrow> scalar option outcome" where
  "peek_like (Uint8 v) pf m r val =
     map_outcome (map_option Uint8) (gst_byte_reader_peek_uint8 pf m r val)"
| "peek_like (Int8 v) pf m r val =
     map_outcome (map_option Int8) (gst_byte_reader_peek_int8 pf m r val)"
| "peek_like (Uint16_le v) pf m r val =
     map_outcome (map_option Uint16_le) (gst_byte_reader_peek_uint16_le pf m r val)"
| "peek_like (Uint16_be v) pf m r val =
     map_outcome (map_option Uint16_be) (gst_byte_reader_peek_uint16_be pf m r val)"
| "peek_like (Int16_le v) pf m r val =
     map_outcome (map_option Int16_le) (gst_byte_reader_peek_int16_le pf m r val)"
| "peek_like (Int16_be v) pf m r val =
     map_outcome (map_option Int16_be) (gst_byte_reader_peek_int16_be pf m r val)"
| "peek_like (Uint32_le v) pf m r val =
     map_outcome (map_option Uint32_le) (gst_byte_reader_peek_uint32_le pf m r val)"
| "peek_like (Uint32_be v) pf m r val =
     map_outcome (map_option Uint32_be) (gst_byte_reader_peek_uint32_be pf m r val)"
| "peek_like (Int32_le v) pf m r val =
     map_outcome (map_option Int32_le) (gst_byte_reader_peek_int32_le pf m r val)"
| "peek_like (Int32_be v) pf m r val =
     map_outcome (map_option Int32_be) (gst_byte_reader_peek_int32_be pf m r val)"
| "peek_like (Uint24_le v) pf m r val =
     map_outcome (map_option Uint24_le) (gst_byte_reader_peek_uint24_le pf m r val)"
| "peek_like (Uint24_be v) pf m r val =
     map_outcome (map_option Uint24_be) (gst_byte_reader_peek_uint24_be pf m r val)"
| "peek_like (Int24_le v) pf m r val =
     map_outcome (map_option Int24_le) (gst_byte_reader_peek_int24_le pf m r val)"
| "peek_like (Int24_be v) pf m r val =
     map_outcome (map_option Int24_be) (gst_byte_reader_peek_int24_be pf m r val)"
| "peek_like (Uint64_le v) pf m r val =
     map_outcome (map_option Uint64_le) (gst_byte_reader_peek_uint64_le pf m r val)"
| "peek_like (Uint64_be v) pf m r val =
     map_outcome (map_option Uint64_be) (gst_byte_reader_peek_uint64_be pf m r val)"
| "peek_like (Int64_le v) pf m r val =
     map_outcome (map_option Int64_le) (gst_byte_reader_peek_int64_le pf m r val)"
| "peek_like (Int64_be v) pf m r val =
     map_outcome (map_option Int64_be) (gst_byte_reader_peek_int64_be pf m r val)"
| "peek_like (Float32_le v) pf m r val =
     map_outcome (map_option Float32_le) (gst_byte_reader_peek_float32_le pf m r val)"
| "peek_like (Float32_be v) pf m r val =
     map_outcome (map_option Float32_be) (gst_byte_reader_peek_float32_be pf m r val)"
| "peek_like (Float64_le v) pf m r val =
     map_outcome (map_option Float64_le) (gst_byte_reader_peek_float64_le pf m r val)"
| "peek_like (Float64_be v) pf m r val =
     map_outcome (map_option Float64_be) (gst_byte_reader_peek_float64_be pf m r val)"

section \<open>What an accessor does\<close>

lemma read_order_False [simp]: "read_order False bs = bs"
  by (simp add: read_order_def)

text \<open>
  A reader is well formed while its position is within its block.  The interface of a format:
  its accessor reads exactly \<open>n\<close> bytes at the position and makes the value of these.
\<close>

definition reader_ok :: "gst_byte_reader \<Rightarrow> bool" where
  "reader_ok r \<longleftrightarrow> rd_byte r \<le> rd_size r"

definition remaining :: "gst_byte_reader \<Rightarrow> nat" where
  "remaining r = unat (rd_size r) - unat (rd_byte r)"

definition advance :: "nat \<Rightarrow> gst_byte_reader \<Rightarrow> gst_byte_reader" where
  "advance n r = r\<lparr>rd_byte := rd_byte r + of_nat n\<rparr>"

definition next_bytes :: "mem \<Rightarrow> gst_byte_reader \<Rightarrow> nat \<Rightarrow> guint8 list" where
  "next_bytes m r n = mem_bytes m (rd_data r + unat (rd_byte r)) n"

lemma remaining_unchecked:
  "reader_ok r \<Longrightarrow> unat (gst_byte_reader_get_remaining_unchecked r) = remaining r"
  by (simp add: gst_byte_reader_get_remaining_unchecked_def remaining_def reader_ok_def unat_sub)

lemma remaining_less:
  "reader_ok r \<Longrightarrow> gst_byte_reader_get_remaining_unchecked r < n \<longleftrightarrow> remaining r < unat n"
  by (simp add: word_less_nat_alt remaining_unchecked)

lemma advance_ok:
  assumes "reader_ok r" "n \<le> remaining r"
  shows "reader_ok (advance n r)" "remaining (advance n r) = remaining r - n"
    "unat (rd_byte (advance n r)) = unat (rd_byte r) + n"
proof -
  have le: "unat (rd_byte r) + n \<le> unat (rd_size r)"
    using assms by (simp add: remaining_def reader_ok_def word_le_nat_alt)
  moreover have "unat (rd_size r) < 2 ^ 32" using unsigned_less[of "rd_size r", where ?'a = nat] by simp
  ultimately have "unat (rd_byte r + of_nat n) = unat (rd_byte r) + n"
    by (simp add: unat_word_ariths unat_of_nat)
  with le show "reader_ok (advance n r)" "remaining (advance n r) = remaining r - n"
    "unat (rd_byte (advance n r)) = unat (rd_byte r) + n"
    by (simp_all add: advance_def reader_ok_def remaining_def word_le_nat_alt)
qed

locale format_laws =
  fixes fmt :: "'a byte_format" and nbytes :: nat and dec :: "guint8 list \<Rightarrow> 'a"
  assumes bits: "fmt_bits fmt = 8 * nbytes"
    and few: "nbytes \<le> 8"
    and reads: "fmt_adj fmt (fmt_read fmt pf m p) = dec (mem_bytes m p nbytes)"
begin

lemma peek_value: "peek_unchecked fmt pf m r = dec (next_bytes m r nbytes)"
  by (simp add: peek_unchecked_def reads next_bytes_def)

lemma size_word: "unat (of_nat (fmt_bits fmt div 8) :: guint32) = nbytes"
  using few by (simp add: bits unat_of_nat)

lemma get_spec:
  assumes "reader_ok r"
  shows "get_inline fmt pf m (Some r) True =
     Done (if remaining r < nbytes then (None, r) else (Some (dec (next_bytes m r nbytes)), advance nbytes r))"
  using assms size_word
  by (simp add: get_inline_def remaining_less get_unchecked_def peek_value advance_def bits)

lemma peek_spec:
  assumes "reader_ok r"
  shows "peek_inline fmt pf m (Some r) True =
     Done (if remaining r < nbytes then None else Some (dec (next_bytes m r nbytes)))"
  using assms size_word by (simp add: peek_inline_def remaining_less peek_value)

end

interpretation uint8: format_laws uint8_format 1 "\<lambda>bs. bytes_word (read_order False bs)"
  by unfold_locales (simp_all add: uint8_format_def mem_reads float_accesses del: bytes_word.simps)

interpretation int8: format_laws int8_format 1 "\<lambda>bs. bytes_word (read_order False bs)"
  by unfold_locales (simp_all add: int8_format_def mem_reads float_accesses del: bytes_word.simps)

interpretation uint16_le: format_laws uint16_le_format 2 "\<lambda>bs. bytes_word (read_order False bs)"
  by unfold_locales (simp_all add: uint16_le_format_def mem_reads float_accesses del: bytes_word.simps)

interpretation uint16_be: format_laws uint16_be_format 2 "\<lambda>bs. bytes_word (read_order True bs)"
  by unfold_locales (simp_all add: uint16_be_format_def mem_reads float_accesses del: bytes_word.simps)

interpretation int16_le: format_laws int16_le_format 2 "\<lambda>bs. bytes_word (read_order False bs)"
  by unfold_locales (simp_all add: int16_le_format_def mem_reads float_accesses del: bytes_word.simps)

interpretation int16_be: format_laws int16_be_format 2 "\<lambda>bs. bytes_word (read_order True bs)"
  by unfold_locales (simp_all add: int16_be_format_def mem_reads float_accesses del: bytes_word.simps)

interpretation uint32_le: format_laws uint32_le_format 4 "\<lambda>bs. bytes_word (read_order False bs)"
  by unfold_locales (simp_all add: uint32_le_format_def mem_reads float_accesses del: bytes_word.simps)

interpretation uint32_be: format_laws uint32_be_format 4 "\<lambda>bs. bytes_word (read_order True bs)"
  by unfold_locales (simp_all add: uint32_be_format_def mem_reads float_accesses del: bytes_word.simps)

interpretation int32_le: format_laws int32_le_format 4 "\<lambda>bs. bytes_word (read_order False bs)"
  by unfold_locales (simp_all add: int32_le_format_def mem_reads float_accesses del: bytes_word.simps)

interpretation int32_be: format_laws int32_be_format 4 "\<lambda>bs. bytes_word (read_order True bs)"
  by unfold_locales (simp_all add: int32_be_format_def mem_reads float_accesses del: bytes_word.simps)

interpretation uint24_le: format_laws uint24_le_format 3 "\<lambda>bs. bytes_word (read_order False bs)"
  by unfold_locales (simp_all add: uint24_le_format_def mem_reads float_accesses del: bytes_word.simps)

interpretation uint24_be: format_laws uint24_be_format 3 "\<lambda>bs. bytes_word (read_order True bs)"
  by unfold_locales (simp_all add: uint24_be_format_def mem_reads float_accesses del: bytes_word.simps)

interpretation int24_le: format_laws int24_le_format 3 "\<lambda>bs. sign_fix24 (bytes_word (read_order False bs))"
  by unfold_locales (simp_all add: int24_le_format_def mem_reads float_accesses del: bytes_word.simps)

interpretation int24_be: format_laws int24_be_format 3 "\<lambda>bs. sign_fix24 (bytes_word (read_order True bs))"
  by unfold_locales (simp_all add: int24_be_format_def mem_reads float_accesses del: bytes_word.simps)

interpretation uint64_le: format_laws uint64_le_format 8 "\<lambda>bs. bytes_word (read_order False bs)"
  by unfold_locales (simp_all add: uint64_le_format_def mem_reads float_accesses del: bytes_word.simps)

interpretation uint64_be: format_laws uint64_be_format 8 "\<lambda>bs. bytes_word (read_order True bs)"
  by unfold_locales (simp_all add: uint64_be_format_def mem_reads float_accesses del: bytes_word.simps)

interpretation int64_le: format_laws int64_le_format 8 "\<lambda>bs. bytes_word (read_order False bs)"
  by unfold_locales (simp_all add: int64_le_format_def mem_reads float_accesses del: bytes_word.simps)

interpretation int64_be: format_laws int64_be_format 8 "\<lambda>bs. bytes_word (read_order True bs)"
  by unfold_locales (simp_all add: int64_be_format_def mem_reads float_accesses del: bytes_word.simps)

interpretation float32_le: format_laws float32_le_format 4 "\<lambda>bs. bytes_word (read_order False bs)"
  by unfold_locales (simp_all add: float32_le_format_def mem_reads float_accesses del: bytes_word.simps)

interpretation float32_be: format_laws float32_be_format 4 "\<lambda>bs. bytes_word (read_order True bs)"
  by unfold_locales (simp_all add: float32_be_format_def mem_reads float_accesses del: bytes_word.simps)

interpretation float64_le: format_laws float64_le_format 8 "\<lambda>bs. bytes_word (read_order False bs)"
  by unfold_locales (simp_all add: float64_le_format_def mem_reads float_accesses del: bytes_word.simps)

interpretation float64_be: format_laws float64_be_format 8 "\<lambda>bs. bytes_word (read_order True bs)"
  by unfold_locales (simp_all add: float64_be_format_def mem_reads float_accesses del: bytes_word.simps)

lemmas accessor_gets =
  uint8.get_spec int8.get_spec uint16_le.get_spec uint16_be.get_spec int16_le.get_spec
  int16_be.get_spec uint32_le.get_spec uint32_be.get_spec int32_le.get_spec int32_be.get_spec
  uint24_le.get_spec uint24_be.get_spec int24_le.get_spec int24_be.get_spec uint64_le.get_spec
  uint64_be.get_spec int64_le.get_spec int64_be.get_spec float32_le.get_spec float32_be.get_spec
  float64_le.get_spec float64_be.get_spec

lemmas accessor_peeks =
  uint8.peek_spec int8.peek_spec uint16_le.peek_spec uint16_be.peek_spec int16_le.peek_spec
  int16_be.peek_spec uint32_le.peek_spec uint32_be.peek_spec int32_le.peek_spec int32_be.peek_spec
  uint24_le.peek_spec uint24_be.peek_spec int24_le.peek_spec int24_be.peek_spec
  uint64_le.peek_spec uint64_be.peek_spec int64_le.peek_spec int64_be.peek_spec
  float32_le.peek_spec float32_be.peek_spec float64_le.peek_spec float64_be.peek_spec

lemma get_like_spec:
  assumes "reader_ok r"
  shows "get_like x pf m (Some r) True =
     Done (if remaining r < scalar_size x then (None, r)
           else (Some (decode_like x (next_bytes m r (scalar_size x))), advance (scalar_size x) r))"
  using assms
  by (cases x) (simp_all add: reader_get_defs accessor_gets del: bytes_word.simps One_nat_def)

lemma peek_like_spec:
  assumes "reader_ok r"
  shows "peek_like x pf m (Some r) True =
     Done (if remaining r < scalar_size x then None
           else Some (decode_like x (next_bytes m r (scalar_size x))))"
  using assms
  by (cases x) (simp_all add: reader_peek_defs accessor_peeks del: bytes_word.simps One_nat_def)

section \<open>Encoding and decoding\<close>

lemma bit_signed24:
  assumes "- (2 ^ 23) \<le> sint v" "sint v < 2 ^ 23" "23 \<le> k" "k < 32"
  shows "bit (v :: guint32) k = bit v 23"
proof -
  have s: "signed_take_bit 23 (sint v) = sint v"
    using assms(1,2) by (simp add: signed_take_bit_int_eq_self)
  have "bit (signed_take_bit 23 (sint v)) k = bit (signed_take_bit 23 (sint v)) 23"
    using assms(3) by (simp add: bit_signed_take_bit_iff min_def)
  then have "bit (sint v) k = bit (sint v) 23" unfolding s .
  then show ?thesis using assms(3,4) by (auto simp: bit_sint_iff)
qed

lemma sign_fix24_restores:
  assumes "- (2 ^ 23) \<le> sint v" "sint v < 2 ^ 23"
  shows "sign_fix24 (take_bit 24 v) = v"
proof (rule bit_word_eqI)
  fix k assume "k < LENGTH(32)"
  then have k: "k < 32" by simp
  have sign: "take_bit 24 v AND 0x00800000 = 0 \<longleftrightarrow> \<not> bit v 23"
    using and_exp_eq_0_iff_not_bit[of "take_bit 24 v" 23] by (simp add: bit_simps)
  have m: "(0xff000000 :: guint32) = push_bit 24 (mask 8)"
    by (simp add: mask_eq_exp_minus_1 push_bit_eq_mult)
  show "bit (sign_fix24 (take_bit 24 v)) k = bit v k"
    using bit_signed24[OF assms, of k] k
    by (cases "k < 24") (auto simp: sign_fix24_def m sign bit_simps)
qed

lemma take_bit_small: "unat v < 2 ^ n \<Longrightarrow> take_bit n v = (v :: 'a::len word)"
proof -
  assume "unat v < 2 ^ n"
  then have "unat (take_bit n v) = unat v" by (simp add: unsigned_take_bit_eq take_bit_nat_eq_self)
  then show ?thesis by (rule unsigned_word_eqI)
qed

lemma length_encode [simp]: "length (encode x) = scalar_size x"
  by (cases x) simp_all

lemma scalar_size_bounds: "0 < scalar_size x" "scalar_size x \<le> 8"
  by (cases x; simp)+

lemma decode_encode: "scalar_fits x \<Longrightarrow> decode_like x (encode x) = x"
  by (cases x)
    (simp_all add: bytes_word_word_bytes_take take_bit_small sign_fix24_restores take_bit_word_eq_self
      del: One_nat_def word_bytes_explicit1)

lemma decode_like_keeps: "scalar_size (decode_like x bs) = scalar_size x"
  by (cases x) simp_all

section \<open>Properties\<close>

text \<open>
  C26. No accessor reads outside the reader's block: two memories that agree on it, and any two
  platforms, give every \<open>get\<close> and \<open>peek\<close> the same outcome, and the position stays inside it.
\<close>

theorem reader_stays_inside:
  assumes "reader_ok r"
    and "\<And>a. rd_data r \<le> a \<Longrightarrow> a < rd_data r + unat (rd_size r) \<Longrightarrow> m a = m' a"
  shows "get_like x pf m (Some r) True = get_like x pf' m' (Some r) True \<and>
    peek_like x pf m (Some r) True = peek_like x pf' m' (Some r) True \<and>
    (\<exists>v r'. get_like x pf m (Some r) True = Done (v, r') \<and> reader_ok r' \<and>
       rd_data r' = rd_data r \<and> rd_size r' = rd_size r)"
proof -
  have "next_bytes m r n = next_bytes m' r n" if "n \<le> remaining r" for n
    using assms that
    by (auto simp: next_bytes_def remaining_def reader_ok_def word_le_nat_alt intro!: mem_bytes_cong)
  then show ?thesis
    using assms(1) advance_ok(1)[OF assms(1), of "scalar_size x"]
    by (auto simp: get_like_spec peek_like_spec advance_def not_less)
qed

text \<open>
  C28. An accessor fails exactly when fewer bytes remain than its scalar needs, and then leaves the
  reader as it was; \<open>peek\<close> gives what \<open>get\<close> would, and a \<open>NULL\<close> reader or result pointer is
  reported, not followed.
\<close>

theorem reader_failure:
  assumes "reader_ok r"
  shows "(get_like x pf m (Some r) True = Done (None, r) \<longleftrightarrow>
      unat (rd_size r) < unat (rd_byte r) + scalar_size x) \<and>
    (\<forall>v r'. get_like x pf m (Some r) True = Done (Some v, r') \<longrightarrow>
       unat (rd_byte r') = unat (rd_byte r) + scalar_size x \<and> peek_like x pf m (Some r) True = Done (Some v)) \<and>
    (peek_like x pf m (Some r) True = Done None \<longleftrightarrow>
      unat (rd_size r) < unat (rd_byte r) + scalar_size x) \<and>
    get_like x pf m None val = CriticalReturn \<and> get_like x pf m (Some r) False = CriticalReturn \<and>
    peek_like x pf m None val = CriticalReturn \<and> peek_like x pf m (Some r) False = CriticalReturn"
proof -
  have "get_like x pf m None val = CriticalReturn" "get_like x pf m (Some r) False = CriticalReturn"
    "peek_like x pf m None val = CriticalReturn" "peek_like x pf m (Some r) False = CriticalReturn"
    by (cases x; simp add: reader_get_defs reader_peek_defs get_inline_def peek_inline_def)+
  moreover have "remaining r < scalar_size x \<longleftrightarrow> unat (rd_size r) < unat (rd_byte r) + scalar_size x"
    using assms by (auto simp: remaining_def reader_ok_def word_le_nat_alt)
  ultimately show ?thesis
    using assms advance_ok(3)[OF assms, of "scalar_size x"]
    by (auto simp: get_like_spec peek_like_spec)
qed

lemma sub_reader_covers_parts:
  assumes "reader_ok r"
  shows "gst_byte_reader_get_sub_reader_inline (Some r) (Some s) n =
     Done (if remaining r < unat n then (None, Some r)
           else (Some (s\<lparr>rd_data := rd_data r + unat (rd_byte r), rd_byte := 0, rd_size := n\<rparr>),
                 Some (advance (unat n) r)))"
    and "gst_byte_reader_get_sub_reader_inline (Some r) (Some s) n = Done (Some s', Some r') \<Longrightarrow>
     reader_ok s' \<and> reader_ok r' \<and> next_bytes m s' (unat n) = next_bytes m r (unat n) \<and>
     rd_data s' + unat (rd_size s') = rd_data r' + unat (rd_byte r') \<and>
     rd_data s' + unat (rd_size s') \<le> rd_data r + unat (rd_size r)"
proof -
  show spec: "gst_byte_reader_get_sub_reader_inline (Some r) (Some s) n =
     Done (if remaining r < unat n then (None, Some r)
           else (Some (s\<lparr>rd_data := rd_data r + unat (rd_byte r), rd_byte := 0, rd_size := n\<rparr>),
                 Some (advance (unat n) r)))"
    using assms
    by (simp add: gst_byte_reader_get_sub_reader_inline_def gst_byte_reader_peek_sub_reader_inline_def
        remaining_less gst_byte_reader_skip_unchecked_def advance_def)
  assume "gst_byte_reader_get_sub_reader_inline (Some r) (Some s) n = Done (Some s', Some r')"
  then have "unat n \<le> remaining r" and s': "rd_data s' = rd_data r + unat (rd_byte r)" "rd_byte s' = 0"
    "rd_size s' = n" and r': "r' = advance (unat n) r"
    using spec by (auto split: if_splits)
  with assms advance_ok[OF assms, of "unat n"]
  show "reader_ok s' \<and> reader_ok r' \<and> next_bytes m s' (unat n) = next_bytes m r (unat n) \<and>
     rd_data s' + unat (rd_size s') = rd_data r' + unat (rd_byte r') \<and>
     rd_data s' + unat (rd_size s') \<le> rd_data r + unat (rd_size r)"
    by (auto simp: reader_ok_def next_bytes_def advance_def remaining_def word_le_nat_alt)
qed

text \<open>
  A sub-reader taken from a reader is well formed, covers exactly the next \<open>n\<close> bytes of the
  block, and the reader goes on behind them; when fewer bytes remain nothing changes.
\<close>

theorem sub_reader_covers:
  assumes "reader_ok r"
  shows "gst_byte_reader_get_sub_reader_inline (Some r) (Some s) n =
     Done (if remaining r < unat n then (None, Some r)
           else (Some (s\<lparr>rd_data := rd_data r + unat (rd_byte r), rd_byte := 0, rd_size := n\<rparr>),
                 Some (advance (unat n) r))) \<and>
    (\<forall>s' r' m. gst_byte_reader_get_sub_reader_inline (Some r) (Some s) n = Done (Some s', Some r') \<longrightarrow>
       reader_ok s' \<and> reader_ok r' \<and> next_bytes m s' (unat n) = next_bytes m r (unat n) \<and>
       rd_data s' + unat (rd_size s') = rd_data r' + unat (rd_byte r') \<and>
       rd_data s' + unat (rd_size s') \<le> rd_data r + unat (rd_size r))"
  using sub_reader_covers_parts[OF assms] by blast

text \<open>
  Taking or skipping \<open>n\<close> bytes succeeds exactly when \<open>n\<close> bytes remain; the address handed out is
  the current position and its \<open>n\<close> bytes lie in the block, and a peek does not move.
\<close>

theorem data_accessors:
  assumes "reader_ok r"
  shows "gst_byte_reader_get_data (Some r) n True =
      Done (if remaining r < unat n then (None, r)
            else (Some (rd_data r + unat (rd_byte r)), advance (unat n) r)) \<and>
    gst_byte_reader_peek_data (Some r) n True =
      Done (if remaining r < unat n then None else Some (rd_data r + unat (rd_byte r))) \<and>
    gst_byte_reader_dup_data dup (Some r) n True =
      Done (if remaining r < unat n then (None, r)
            else (Some (dup (rd_data r + unat (rd_byte r)) n), advance (unat n) r)) \<and>
    gst_byte_reader_skip (Some r) n =
      Done (if remaining r < unat n then (False, r) else (True, advance (unat n) r)) \<and>
    (\<not> remaining r < unat n \<longrightarrow> reader_ok (advance (unat n) r) \<and>
      rd_data r + unat (rd_byte r) + unat n \<le> rd_data r + unat (rd_size r))"
proof -
  have "data_refused n r \<longleftrightarrow> remaining r < unat n"
    using remaining_unchecked[OF assms] by (auto simp: data_refused_def word_less_nat_alt remaining_def)
  moreover have "rd_size r - rd_byte r < n \<longleftrightarrow> remaining r < unat n"
    using remaining_less[OF assms, of n] by (simp add: gst_byte_reader_get_remaining_unchecked_def)
  moreover have "unat (rd_byte r) + unat n \<le> unat (rd_size r)" if "\<not> remaining r < unat n"
    using assms that by (simp add: remaining_def reader_ok_def word_le_nat_alt)
  ultimately show ?thesis
    using assms advance_ok(1)[OF assms, of "unat n"]
    by (auto simp: reader_api_defs gst_byte_reader_peek_data_unchecked_def
        gst_byte_reader_get_data_unchecked_def gst_byte_reader_dup_data_unchecked_def
        gst_byte_reader_skip_unchecked_def advance_def Let_def)
qed

definition sample_reader :: gst_byte_reader where
  "sample_reader = GST_BYTE_READER_INIT 100 3"

definition sample_platform :: platform where
  "sample_platform = \<lparr>compiler = \<lparr>cpu = X86_64, gcc_4_3 = False\<rparr>, G_BYTE_ORDER = G_LITTLE_ENDIAN,
     GST_HAVE_UNALIGNED_ACCESS = True\<rparr>"

lemma sample_reader_ok: "reader_ok sample_reader"
  by (simp add: reader_ok_def sample_reader_def GST_BYTE_READER_INIT_def)

lemma reader_stays_inside_witness:
  "get_like (Uint16_be 0) sample_platform (\<lambda>a. if a < 103 then 1 else 2) (Some sample_reader) True =
   get_like (Uint16_be 0) sample_platform (\<lambda>a. if a < 103 then 1 else 3) (Some sample_reader) True"
  using reader_stays_inside[OF sample_reader_ok, of "\<lambda>a. if a < 103 then 1 else 2"
      "\<lambda>a. if a < 103 then 1 else 3" "Uint16_be 0" sample_platform sample_platform]
  by (simp add: sample_reader_def GST_BYTE_READER_INIT_def)

lemma reader_failure_witness:
  "get_like (Uint32_le 0) sample_platform (\<lambda>_. 0) (Some sample_reader) True = Done (None, sample_reader)"
  using reader_failure[OF sample_reader_ok, of "Uint32_le 0" sample_platform "\<lambda>_. 0" True]
  by (simp add: sample_reader_def GST_BYTE_READER_INIT_def)

lemma sub_reader_covers_witness:
  "\<exists>s' r'. gst_byte_reader_get_sub_reader_inline (Some sample_reader) (Some sample_reader) 2 =
     Done (Some s', Some r') \<and> rd_data s' + unat (rd_size s') \<le> 103"
  using sub_reader_covers[OF sample_reader_ok, of sample_reader 2]
  by (fastforce simp: sample_reader_def GST_BYTE_READER_INIT_def remaining_def)

lemma data_accessors_witness:
  "gst_byte_reader_skip (Some sample_reader) 4 = Done (False, sample_reader)"
  using data_accessors[OF sample_reader_ok, of 4 "\<lambda>_ _. ()"]
  by (simp add: sample_reader_def GST_BYTE_READER_INIT_def remaining_def)

end
