(* ===== verification/Byte_Writer.thy ===== *)
theory Byte_Writer
  imports Byte_Reader
begin

text \<open>
  \<open>gst/base/gstbytewriter.h\<close>: a growing buffer with a cursor, into which scalars of the reader's 22
  formats, runs of bytes and the contents of a \<open>GstBuffer\<close> are put.  The heap the buffer lives in
  is a byte memory with the size of the block at each address; GLib's \<open>g_try_realloc\<close> is a
  parameter, and what is relied on of it is stated by \<open>realloc_ok\<close>.
\<close>

section \<open>Heap and writer\<close>

record heap =
  heap_bytes :: mem
  heap_block :: "nat \<Rightarrow> nat"

type_synonym realloc = "heap \<Rightarrow> nat \<Rightarrow> guint32 \<Rightarrow> (heap \<times> nat) option"

text \<open>
  As documented: on success the block returned has the size asked for and starts with what the
  old block held, as far as both reach; \<open>None\<close> is \<open>NULL\<close>, and then nothing has changed.
\<close>

definition realloc_ok :: "realloc \<Rightarrow> bool" where
  "realloc_ok re \<longleftrightarrow>
     (\<forall>h p n h' p'. re h p n = Some (h', p') \<longrightarrow>
        heap_block h' p' = unat n \<and>
        (\<forall>i < min (heap_block h p) (unat n). heap_bytes h' (p' + i) = heap_bytes h (p + i)))"

record gst_byte_writer =
  w_parent :: gst_byte_reader
  alloc_size :: guint32
  w_fixed :: bool
  w_owned :: bool

definition gst_byte_writer_get_pos :: "gst_byte_writer option \<Rightarrow> guint32 outcome" where
  "gst_byte_writer_get_pos writer = gst_byte_reader_get_pos (map_option w_parent writer)"

definition gst_byte_writer_get_size :: "gst_byte_writer option \<Rightarrow> guint32 outcome" where
  "gst_byte_writer_get_size writer = gst_byte_reader_get_size (map_option w_parent writer)"

lemma shifted_out: "push_bit 32 (v :: guint32) = 0"
  by (rule bit_word_eqI) (simp add: bit_simps)

text \<open>The loop ends because shifting a word left makes it zero in the end.\<close>

function next_pow2_loop :: "guint32 \<Rightarrow> guint32 \<Rightarrow> guint32" where
  "next_pow2_loop n ret =
     (if ret < n \<and> 0 < ret then next_pow2_loop n (push_bit 1 ret) else ret)"
  by auto

termination
proof (relation "measure (\<lambda>(n, ret). LEAST k. push_bit k ret = 0)")
  show "wf (measure (\<lambda>(n, ret :: guint32). LEAST k. push_bit k ret = 0))" by simp
next
  fix n ret :: guint32
  assume "ret < n \<and> 0 < ret"
  define k where "k = (LEAST k. push_bit k ret = 0)"
  have z: "push_bit k ret = 0" unfolding k_def by (rule LeastI) (rule shifted_out)
  then obtain j where k: "k = Suc j" using \<open>ret < n \<and> 0 < ret\<close> by (cases k) auto
  then have "push_bit j (push_bit 1 ret) = 0" using z by (simp add: push_bit_push_bit)
  then have "(LEAST k. push_bit k (push_bit 1 ret) = 0) \<le> j" by (rule Least_le)
  then show "((n, push_bit 1 ret), n, ret) \<in> measure (\<lambda>(n, ret). LEAST k. push_bit k ret = 0)"
    using k by (simp add: k_def [symmetric])
qed

declare next_pow2_loop.simps [simp del]

definition gst_byte_writer_next_pow2 :: "guint32 \<Rightarrow> guint32" where
  "gst_byte_writer_next_pow2 n = (let ret = next_pow2_loop n 16 in if ret \<noteq> 0 then ret else n)"

definition gst_byte_writer_ensure_free_space_inline ::
  "realloc \<Rightarrow> guint32 \<Rightarrow> heap \<Rightarrow> gst_byte_writer \<Rightarrow> bool \<times> heap \<times> gst_byte_writer" where
  "gst_byte_writer_ensure_free_space_inline g_try_realloc n h writer =
     (if n \<le> alloc_size writer - rd_byte (w_parent writer) then (True, h, writer)
      else if w_fixed writer \<or> \<not> w_owned writer then (False, h, writer)
      else if 0xffffffff - n < rd_byte (w_parent writer) then (False, h, writer)
      else
        let writer = writer\<lparr>alloc_size := gst_byte_writer_next_pow2 (rd_byte (w_parent writer) + n)\<rparr>
        in case g_try_realloc h (rd_data (w_parent writer)) (alloc_size writer) of
             None \<Rightarrow> (False, h, writer)
           | Some (h, data) \<Rightarrow> (True, h, writer\<lparr>w_parent := (w_parent writer)\<lparr>rd_data := data\<rparr>\<rparr>))"

definition gst_byte_writer_ensure_free_space ::
  "realloc \<Rightarrow> guint32 \<Rightarrow> heap \<Rightarrow> gst_byte_writer \<Rightarrow> bool \<times> heap \<times> gst_byte_writer" where
  "gst_byte_writer_ensure_free_space = gst_byte_writer_ensure_free_space_inline"

section \<open>Putting scalars\<close>

text \<open>The cursor moves behind what was stored, and the size follows it.\<close>

definition moved :: "guint32 \<Rightarrow> gst_byte_writer \<Rightarrow> gst_byte_writer" where
  "moved n writer =
     (let r = w_parent writer; b = rd_byte r + n
      in writer\<lparr>w_parent := r\<lparr>rd_byte := b, rd_size := max (rd_size r) b\<rparr>\<rparr>)"

definition cursor_address :: "gst_byte_writer \<Rightarrow> nat" where
  "cursor_address writer = rd_data (w_parent writer) + unat (rd_byte (w_parent writer))"

text \<open>The arguments \<open>bits\<close> and \<open>write_func\<close> of an instantiation.\<close>

record 'a write_format =
  wf_bits :: nat
  wf_write :: "platform \<Rightarrow> nat \<Rightarrow> 'a \<Rightarrow> mem \<Rightarrow> mem"

definition put_unchecked ::
  "'a write_format \<Rightarrow> platform \<Rightarrow> 'a \<Rightarrow> heap \<Rightarrow> gst_byte_writer \<Rightarrow> heap \<times> gst_byte_writer" where
  "put_unchecked wfmt pf val h writer =
     (h\<lparr>heap_bytes := wf_write wfmt pf (cursor_address writer) val (heap_bytes h)\<rparr>,
      moved (of_nat (wf_bits wfmt div 8)) writer)"

definition put_inline ::
  "'a write_format \<Rightarrow> realloc \<Rightarrow> platform \<Rightarrow> heap \<Rightarrow> gst_byte_writer option \<Rightarrow> 'a \<Rightarrow>
     (bool \<times> heap \<times> gst_byte_writer) outcome" where
  "put_inline wfmt re pf h writer val =
     (case writer of None \<Rightarrow> CriticalReturn
      | Some w \<Rightarrow>
          (case gst_byte_writer_ensure_free_space_inline re (of_nat (wf_bits wfmt div 8)) h w of
             (False, h, w) \<Rightarrow> Done (False, h, w)
           | (True, h, w) \<Rightarrow> Done (True, put_unchecked wfmt pf val h w)))"

section \<open>Putting bytes and buffers\<close>

definition gst_byte_writer_put_data_unchecked ::
  "nat \<Rightarrow> guint32 \<Rightarrow> heap \<Rightarrow> gst_byte_writer \<Rightarrow> heap \<times> gst_byte_writer" where
  "gst_byte_writer_put_data_unchecked data n h writer =
     (h\<lparr>heap_bytes := mem_store (heap_bytes h) (cursor_address writer)
                        (mem_bytes (heap_bytes h) data (unat n))\<rparr>,
      moved n writer)"

definition gst_byte_writer_put_data_inline ::
  "realloc \<Rightarrow> heap \<Rightarrow> gst_byte_writer option \<Rightarrow> nat \<Rightarrow> guint32 \<Rightarrow> (bool \<times> heap \<times> gst_byte_writer) outcome" where
  "gst_byte_writer_put_data_inline re h writer data n =
     (case writer of None \<Rightarrow> CriticalReturn
      | Some w \<Rightarrow>
          (case gst_byte_writer_ensure_free_space_inline re n h w of
             (False, h, w) \<Rightarrow> Done (False, h, w)
           | (True, h, w) \<Rightarrow> Done (True, gst_byte_writer_put_data_unchecked data n h w)))"

definition gst_byte_writer_fill_unchecked ::
  "guint8 \<Rightarrow> guint32 \<Rightarrow> heap \<Rightarrow> gst_byte_writer \<Rightarrow> heap \<times> gst_byte_writer" where
  "gst_byte_writer_fill_unchecked val n h writer =
     (h\<lparr>heap_bytes := mem_store (heap_bytes h) (cursor_address writer) (replicate (unat n) val)\<rparr>,
      moved n writer)"

definition gst_byte_writer_fill_inline ::
  "realloc \<Rightarrow> heap \<Rightarrow> gst_byte_writer option \<Rightarrow> guint8 \<Rightarrow> guint32 \<Rightarrow> (bool \<times> heap \<times> gst_byte_writer) outcome" where
  "gst_byte_writer_fill_inline re h writer val n =
     (case writer of None \<Rightarrow> CriticalReturn
      | Some w \<Rightarrow>
          (case gst_byte_writer_ensure_free_space_inline re n h w of
             (False, h, w) \<Rightarrow> Done (False, h, w)
           | (True, h, w) \<Rightarrow> Done (True, gst_byte_writer_fill_unchecked val n h w)))"

text \<open>
  A \<open>GstBuffer\<close> is reached through two library calls, \<open>gst_buffer_get_size\<close> and
  \<open>gst_buffer_extract\<close> (offset, destination, size), which are parameters.  The size is a 64-bit
  signed integer here and a 32-bit unsigned one where space is ensured.
\<close>

record gst_buffer_calls =
  gst_buffer_get_size :: guint64
  gst_buffer_extract :: "guint64 \<Rightarrow> nat \<Rightarrow> guint64 \<Rightarrow> mem \<Rightarrow> mem"

definition gst_byte_writer_put_buffer_unchecked ::
  "gst_buffer_calls \<Rightarrow> guint64 \<Rightarrow> guint64 \<Rightarrow> heap \<Rightarrow> gst_byte_writer \<Rightarrow> heap \<times> gst_byte_writer" where
  "gst_byte_writer_put_buffer_unchecked buffer offset n h writer =
     (let extract = \<lambda>n. (h\<lparr>heap_bytes := gst_buffer_extract buffer offset (cursor_address writer) n
                                          (heap_bytes h)\<rparr>, moved (ucast n) writer)
      in if n = - 1 then
           if gst_buffer_get_size buffer \<le> offset then (h, writer)
           else extract (gst_buffer_get_size buffer - offset)
         else extract n)"

definition gst_byte_writer_put_buffer_inline ::
  "realloc \<Rightarrow> heap \<Rightarrow> gst_byte_writer option \<Rightarrow> gst_buffer_calls \<Rightarrow> guint64 \<Rightarrow> guint64 \<Rightarrow>
     (bool \<times> heap \<times> gst_byte_writer) outcome" where
  "gst_byte_writer_put_buffer_inline re h writer buffer offset n =
     (case writer of None \<Rightarrow> CriticalReturn
      | Some w \<Rightarrow>
          if sint n < - 1 then CriticalReturn
          else if n = - 1 \<and> gst_buffer_get_size buffer \<le> offset then Done (True, h, w)
          else
            let n = (if n = - 1 then gst_buffer_get_size buffer - offset else n)
            in (case gst_byte_writer_ensure_free_space_inline re (ucast n) h w of
                  (False, h, w) \<Rightarrow> Done (False, h, w)
                | (True, h, w) \<Rightarrow> Done (True, gst_byte_writer_put_buffer_unchecked buffer offset n h w)))"

definition gst_byte_writer_put_data ::
  "realloc \<Rightarrow> heap \<Rightarrow> gst_byte_writer option \<Rightarrow> nat \<Rightarrow> guint32 \<Rightarrow> (bool \<times> heap \<times> gst_byte_writer) outcome" where
  "gst_byte_writer_put_data = gst_byte_writer_put_data_inline"

definition gst_byte_writer_fill ::
  "realloc \<Rightarrow> heap \<Rightarrow> gst_byte_writer option \<Rightarrow> guint8 \<Rightarrow> guint32 \<Rightarrow> (bool \<times> heap \<times> gst_byte_writer) outcome" where
  "gst_byte_writer_fill = gst_byte_writer_fill_inline"

definition gst_byte_writer_put_buffer ::
  "realloc \<Rightarrow> heap \<Rightarrow> gst_byte_writer option \<Rightarrow> gst_buffer_calls \<Rightarrow> guint64 \<Rightarrow> guint64 \<Rightarrow>
     (bool \<times> heap \<times> gst_byte_writer) outcome" where
  "gst_byte_writer_put_buffer = gst_byte_writer_put_buffer_inline"

section \<open>The accessors of the 22 formats\<close>

definition uint8_write :: "guint8 write_format" where
  "uint8_write = \<lparr>wf_bits = 8, wf_write = (\<lambda>pf. GST_WRITE_UINT8)\<rparr>"

definition int8_write :: "guint8 write_format" where
  "int8_write = \<lparr>wf_bits = 8, wf_write = (\<lambda>pf. GST_WRITE_UINT8)\<rparr>"

definition uint16_le_write :: "guint16 write_format" where
  "uint16_le_write = \<lparr>wf_bits = 16, wf_write = GST_WRITE_UINT16_LE\<rparr>"

definition uint16_be_write :: "guint16 write_format" where
  "uint16_be_write = \<lparr>wf_bits = 16, wf_write = GST_WRITE_UINT16_BE\<rparr>"

definition int16_le_write :: "guint16 write_format" where
  "int16_le_write = \<lparr>wf_bits = 16, wf_write = GST_WRITE_UINT16_LE\<rparr>"

definition int16_be_write :: "guint16 write_format" where
  "int16_be_write = \<lparr>wf_bits = 16, wf_write = GST_WRITE_UINT16_BE\<rparr>"

definition uint32_le_write :: "guint32 write_format" where
  "uint32_le_write = \<lparr>wf_bits = 32, wf_write = GST_WRITE_UINT32_LE\<rparr>"

definition uint32_be_write :: "guint32 write_format" where
  "uint32_be_write = \<lparr>wf_bits = 32, wf_write = GST_WRITE_UINT32_BE\<rparr>"

definition int32_le_write :: "guint32 write_format" where
  "int32_le_write = \<lparr>wf_bits = 32, wf_write = GST_WRITE_UINT32_LE\<rparr>"

definition int32_be_write :: "guint32 write_format" where
  "int32_be_write = \<lparr>wf_bits = 32, wf_write = GST_WRITE_UINT32_BE\<rparr>"

definition uint24_le_write :: "guint32 write_format" where
  "uint24_le_write = \<lparr>wf_bits = 24, wf_write = (\<lambda>pf. GST_WRITE_UINT24_LE)\<rparr>"

definition uint24_be_write :: "guint32 write_format" where
  "uint24_be_write = \<lparr>wf_bits = 24, wf_write = (\<lambda>pf. GST_WRITE_UINT24_BE)\<rparr>"

definition int24_le_write :: "guint32 write_format" where
  "int24_le_write = \<lparr>wf_bits = 24, wf_write = (\<lambda>pf. GST_WRITE_UINT24_LE)\<rparr>"

definition int24_be_write :: "guint32 write_format" where
  "int24_be_write = \<lparr>wf_bits = 24, wf_write = (\<lambda>pf. GST_WRITE_UINT24_BE)\<rparr>"

definition uint64_le_write :: "guint64 write_format" where
  "uint64_le_write = \<lparr>wf_bits = 64, wf_write = GST_WRITE_UINT64_LE\<rparr>"

definition uint64_be_write :: "guint64 write_format" where
  "uint64_be_write = \<lparr>wf_bits = 64, wf_write = GST_WRITE_UINT64_BE\<rparr>"

definition int64_le_write :: "guint64 write_format" where
  "int64_le_write = \<lparr>wf_bits = 64, wf_write = GST_WRITE_UINT64_LE\<rparr>"

definition int64_be_write :: "guint64 write_format" where
  "int64_be_write = \<lparr>wf_bits = 64, wf_write = GST_WRITE_UINT64_BE\<rparr>"

definition float32_le_write :: "gfloat write_format" where
  "float32_le_write = \<lparr>wf_bits = 32, wf_write = GST_WRITE_FLOAT_LE\<rparr>"

definition float32_be_write :: "gfloat write_format" where
  "float32_be_write = \<lparr>wf_bits = 32, wf_write = GST_WRITE_FLOAT_BE\<rparr>"

definition float64_le_write :: "gdouble write_format" where
  "float64_le_write = \<lparr>wf_bits = 64, wf_write = GST_WRITE_DOUBLE_LE\<rparr>"

definition float64_be_write :: "gdouble write_format" where
  "float64_be_write = \<lparr>wf_bits = 64, wf_write = GST_WRITE_DOUBLE_BE\<rparr>"

definition gst_byte_writer_put_uint8 ::
  "realloc \<Rightarrow> platform \<Rightarrow> heap \<Rightarrow> gst_byte_writer option \<Rightarrow> guint8 \<Rightarrow> (bool \<times> heap \<times> gst_byte_writer) outcome" where
  "gst_byte_writer_put_uint8 = put_inline uint8_write"

definition gst_byte_writer_put_int8 ::
  "realloc \<Rightarrow> platform \<Rightarrow> heap \<Rightarrow> gst_byte_writer option \<Rightarrow> guint8 \<Rightarrow> (bool \<times> heap \<times> gst_byte_writer) outcome" where
  "gst_byte_writer_put_int8 = put_inline int8_write"

definition gst_byte_writer_put_uint16_le ::
  "realloc \<Rightarrow> platform \<Rightarrow> heap \<Rightarrow> gst_byte_writer option \<Rightarrow> guint16 \<Rightarrow> (bool \<times> heap \<times> gst_byte_writer) outcome" where
  "gst_byte_writer_put_uint16_le = put_inline uint16_le_write"

definition gst_byte_writer_put_uint16_be ::
  "realloc \<Rightarrow> platform \<Rightarrow> heap \<Rightarrow> gst_byte_writer option \<Rightarrow> guint16 \<Rightarrow> (bool \<times> heap \<times> gst_byte_writer) outcome" where
  "gst_byte_writer_put_uint16_be = put_inline uint16_be_write"

definition gst_byte_writer_put_int16_le ::
  "realloc \<Rightarrow> platform \<Rightarrow> heap \<Rightarrow> gst_byte_writer option \<Rightarrow> guint16 \<Rightarrow> (bool \<times> heap \<times> gst_byte_writer) outcome" where
  "gst_byte_writer_put_int16_le = put_inline int16_le_write"

definition gst_byte_writer_put_int16_be ::
  "realloc \<Rightarrow> platform \<Rightarrow> heap \<Rightarrow> gst_byte_writer option \<Rightarrow> guint16 \<Rightarrow> (bool \<times> heap \<times> gst_byte_writer) outcome" where
  "gst_byte_writer_put_int16_be = put_inline int16_be_write"

definition gst_byte_writer_put_uint32_le ::
  "realloc \<Rightarrow> platform \<Rightarrow> heap \<Rightarrow> gst_byte_writer option \<Rightarrow> guint32 \<Rightarrow> (bool \<times> heap \<times> gst_byte_writer) outcome" where
  "gst_byte_writer_put_uint32_le = put_inline uint32_le_write"

definition gst_byte_writer_put_uint32_be ::
  "realloc \<Rightarrow> platform \<Rightarrow> heap \<Rightarrow> gst_byte_writer option \<Rightarrow> guint32 \<Rightarrow> (bool \<times> heap \<times> gst_byte_writer) outcome" where
  "gst_byte_writer_put_uint32_be = put_inline uint32_be_write"

definition gst_byte_writer_put_int32_le ::
  "realloc \<Rightarrow> platform \<Rightarrow> heap \<Rightarrow> gst_byte_writer option \<Rightarrow> guint32 \<Rightarrow> (bool \<times> heap \<times> gst_byte_writer) outcome" where
  "gst_byte_writer_put_int32_le = put_inline int32_le_write"

definition gst_byte_writer_put_int32_be ::
  "realloc \<Rightarrow> platform \<Rightarrow> heap \<Rightarrow> gst_byte_writer option \<Rightarrow> guint32 \<Rightarrow> (bool \<times> heap \<times> gst_byte_writer) outcome" where
  "gst_byte_writer_put_int32_be = put_inline int32_be_write"

definition gst_byte_writer_put_uint24_le ::
  "realloc \<Rightarrow> platform \<Rightarrow> heap \<Rightarrow> gst_byte_writer option \<Rightarrow> guint32 \<Rightarrow> (bool \<times> heap \<times> gst_byte_writer) outcome" where
  "gst_byte_writer_put_uint24_le = put_inline uint24_le_write"

definition gst_byte_writer_put_uint24_be ::
  "realloc \<Rightarrow> platform \<Rightarrow> heap \<Rightarrow> gst_byte_writer option \<Rightarrow> guint32 \<Rightarrow> (bool \<times> heap \<times> gst_byte_writer) outcome" where
  "gst_byte_writer_put_uint24_be = put_inline uint24_be_write"

definition gst_byte_writer_put_int24_le ::
  "realloc \<Rightarrow> platform \<Rightarrow> heap \<Rightarrow> gst_byte_writer option \<Rightarrow> guint32 \<Rightarrow> (bool \<times> heap \<times> gst_byte_writer) outcome" where
  "gst_byte_writer_put_int24_le = put_inline int24_le_write"

definition gst_byte_writer_put_int24_be ::
  "realloc \<Rightarrow> platform \<Rightarrow> heap \<Rightarrow> gst_byte_writer option \<Rightarrow> guint32 \<Rightarrow> (bool \<times> heap \<times> gst_byte_writer) outcome" where
  "gst_byte_writer_put_int24_be = put_inline int24_be_write"

definition gst_byte_writer_put_uint64_le ::
  "realloc \<Rightarrow> platform \<Rightarrow> heap \<Rightarrow> gst_byte_writer option \<Rightarrow> guint64 \<Rightarrow> (bool \<times> heap \<times> gst_byte_writer) outcome" where
  "gst_byte_writer_put_uint64_le = put_inline uint64_le_write"

definition gst_byte_writer_put_uint64_be ::
  "realloc \<Rightarrow> platform \<Rightarrow> heap \<Rightarrow> gst_byte_writer option \<Rightarrow> guint64 \<Rightarrow> (bool \<times> heap \<times> gst_byte_writer) outcome" where
  "gst_byte_writer_put_uint64_be = put_inline uint64_be_write"

definition gst_byte_writer_put_int64_le ::
  "realloc \<Rightarrow> platform \<Rightarrow> heap \<Rightarrow> gst_byte_writer option \<Rightarrow> guint64 \<Rightarrow> (bool \<times> heap \<times> gst_byte_writer) outcome" where
  "gst_byte_writer_put_int64_le = put_inline int64_le_write"

definition gst_byte_writer_put_int64_be ::
  "realloc \<Rightarrow> platform \<Rightarrow> heap \<Rightarrow> gst_byte_writer option \<Rightarrow> guint64 \<Rightarrow> (bool \<times> heap \<times> gst_byte_writer) outcome" where
  "gst_byte_writer_put_int64_be = put_inline int64_be_write"

definition gst_byte_writer_put_float32_le ::
  "realloc \<Rightarrow> platform \<Rightarrow> heap \<Rightarrow> gst_byte_writer option \<Rightarrow> gfloat \<Rightarrow> (bool \<times> heap \<times> gst_byte_writer) outcome" where
  "gst_byte_writer_put_float32_le = put_inline float32_le_write"

definition gst_byte_writer_put_float32_be ::
  "realloc \<Rightarrow> platform \<Rightarrow> heap \<Rightarrow> gst_byte_writer option \<Rightarrow> gfloat \<Rightarrow> (bool \<times> heap \<times> gst_byte_writer) outcome" where
  "gst_byte_writer_put_float32_be = put_inline float32_be_write"

definition gst_byte_writer_put_float64_le ::
  "realloc \<Rightarrow> platform \<Rightarrow> heap \<Rightarrow> gst_byte_writer option \<Rightarrow> gdouble \<Rightarrow> (bool \<times> heap \<times> gst_byte_writer) outcome" where
  "gst_byte_writer_put_float64_le = put_inline float64_le_write"

definition gst_byte_writer_put_float64_be ::
  "realloc \<Rightarrow> platform \<Rightarrow> heap \<Rightarrow> gst_byte_writer option \<Rightarrow> gdouble \<Rightarrow> (bool \<times> heap \<times> gst_byte_writer) outcome" where
  "gst_byte_writer_put_float64_be = put_inline float64_be_write"

lemmas writer_put_defs =
  gst_byte_writer_put_uint8_def gst_byte_writer_put_int8_def gst_byte_writer_put_uint16_le_def
  gst_byte_writer_put_uint16_be_def gst_byte_writer_put_int16_le_def
  gst_byte_writer_put_int16_be_def gst_byte_writer_put_uint32_le_def
  gst_byte_writer_put_uint32_be_def gst_byte_writer_put_int32_le_def
  gst_byte_writer_put_int32_be_def gst_byte_writer_put_uint24_le_def
  gst_byte_writer_put_uint24_be_def gst_byte_writer_put_int24_le_def
  gst_byte_writer_put_int24_be_def gst_byte_writer_put_uint64_le_def
  gst_byte_writer_put_uint64_be_def gst_byte_writer_put_int64_le_def
  gst_byte_writer_put_int64_be_def gst_byte_writer_put_float32_le_def
  gst_byte_writer_put_float32_be_def gst_byte_writer_put_float64_le_def
  gst_byte_writer_put_float64_be_def

primrec put_like ::
  "scalar \<Rightarrow> realloc \<Rightarrow> platform \<Rightarrow> heap \<Rightarrow> gst_byte_writer option \<Rightarrow> (bool \<times> heap \<times> gst_byte_writer) outcome" where
  "put_like (Uint8 v) re pf h w = gst_byte_writer_put_uint8 re pf h w v"
| "put_like (Int8 v) re pf h w = gst_byte_writer_put_int8 re pf h w v"
| "put_like (Uint16_le v) re pf h w = gst_byte_writer_put_uint16_le re pf h w v"
| "put_like (Uint16_be v) re pf h w = gst_byte_writer_put_uint16_be re pf h w v"
| "put_like (Int16_le v) re pf h w = gst_byte_writer_put_int16_le re pf h w v"
| "put_like (Int16_be v) re pf h w = gst_byte_writer_put_int16_be re pf h w v"
| "put_like (Uint32_le v) re pf h w = gst_byte_writer_put_uint32_le re pf h w v"
| "put_like (Uint32_be v) re pf h w = gst_byte_writer_put_uint32_be re pf h w v"
| "put_like (Int32_le v) re pf h w = gst_byte_writer_put_int32_le re pf h w v"
| "put_like (Int32_be v) re pf h w = gst_byte_writer_put_int32_be re pf h w v"
| "put_like (Uint24_le v) re pf h w = gst_byte_writer_put_uint24_le re pf h w v"
| "put_like (Uint24_be v) re pf h w = gst_byte_writer_put_uint24_be re pf h w v"
| "put_like (Int24_le v) re pf h w = gst_byte_writer_put_int24_le re pf h w v"
| "put_like (Int24_be v) re pf h w = gst_byte_writer_put_int24_be re pf h w v"
| "put_like (Uint64_le v) re pf h w = gst_byte_writer_put_uint64_le re pf h w v"
| "put_like (Uint64_be v) re pf h w = gst_byte_writer_put_uint64_be re pf h w v"
| "put_like (Int64_le v) re pf h w = gst_byte_writer_put_int64_le re pf h w v"
| "put_like (Int64_be v) re pf h w = gst_byte_writer_put_int64_be re pf h w v"
| "put_like (Float32_le v) re pf h w = gst_byte_writer_put_float32_le re pf h w v"
| "put_like (Float32_be v) re pf h w = gst_byte_writer_put_float32_be re pf h w v"
| "put_like (Float64_le v) re pf h w = gst_byte_writer_put_float64_le re pf h w v"
| "put_like (Float64_be v) re pf h w = gst_byte_writer_put_float64_be re pf h w v"

section \<open>Growing\<close>

lemma pow2_unat: "k < 32 \<Longrightarrow> unat (2 ^ k :: guint32) = 2 ^ k"
proof -
  assume "k < 32"
  then have "(2 :: nat) ^ k < 2 ^ 32" by (rule power_strict_increasing) simp
  moreover have "(2 ^ k :: guint32) = push_bit k 1" by (simp add: push_bit_eq_mult)
  moreover have "unat (push_bit k (1 :: guint32)) = take_bit 32 (push_bit k 1)"
    by (simp only: unsigned_push_bit_eq unsigned_1) simp
  ultimately show ?thesis by (simp add: push_bit_eq_mult take_bit_eq_mod)
qed

text \<open>Doubling a power of two until it reaches \<open>n\<close>, or until it is shifted out.\<close>

lemma next_pow2_loop_pow2:
  assumes "k < 32" "k = 0 \<or> 2 ^ (k - 1) < unat n \<or> k = 4"
  shows "(\<exists>j\<ge>k. j < 32 \<and> next_pow2_loop n (2 ^ k) = 2 ^ j \<and> unat n \<le> 2 ^ j \<and>
           (j = k \<or> 2 ^ (j - 1) < unat n)) \<or>
         (next_pow2_loop n (2 ^ k) = 0 \<and> 2 ^ 31 < unat n)"
  using assms
proof (induction "31 - k" arbitrary: k)
  case 0
  then have k: "k = 31" by simp
  have "next_pow2_loop n 0 = 0" by (subst next_pow2_loop.simps) simp
  moreover have z: "(4294967296 :: guint32) = 0" by simp
  ultimately have "next_pow2_loop n (2 ^ 31) = (if 2 ^ 31 < unat n then 0 else 2 ^ 31)"
    using pow2_unat[of 31]
    by (subst next_pow2_loop.simps) (simp add: word_less_nat_alt z)
  then show ?case unfolding k by (intro disjCI exI[of _ 31]) (auto split: if_splits)
next
  case (Suc x)
  then have k: "Suc k < 32" by simp
  have shift: "push_bit 1 (2 ^ k :: guint32) = 2 ^ Suc k" by (simp add: push_bit_eq_mult)
  show ?case
  proof (cases "2 ^ k < unat n")
    case True
    then have "next_pow2_loop n (2 ^ k) = next_pow2_loop n (2 ^ Suc k)"
      using pow2_unat[of k] k shift
      by (subst next_pow2_loop.simps) (simp add: word_less_nat_alt mult.commute)
    moreover have "x = 31 - Suc k" using Suc.hyps(2) by simp
    ultimately show ?thesis
      using Suc.hyps(1)[of "Suc k"] k True
      by (metis Suc_leD diff_Suc_1)
  next
    case False
    then have "next_pow2_loop n (2 ^ k) = 2 ^ k"
      using pow2_unat[of k] k by (subst next_pow2_loop.simps) (simp add: word_less_nat_alt)
    then show ?thesis using False k by (intro disjI1 exI[of _ k]) auto
  qed
qed

lemma next_pow2_cases:
  "(\<exists>j. 4 \<le> j \<and> j < 32 \<and> gst_byte_writer_next_pow2 n = 2 ^ j \<and> unat n \<le> 2 ^ j \<and>
      (j = 4 \<or> 2 ^ (j - 1) < unat n)) \<or>
   (gst_byte_writer_next_pow2 n = n \<and> 2 ^ 31 < unat n)"
proof -
  have nz: "(2 :: guint32) ^ j \<noteq> 0" if "j < 32" for j
    using pow2_unat[OF that] by (metis power_not_zero unat_0 zero_neq_numeral)
  have "(16 :: guint32) = 2 ^ 4" by simp
  then show ?thesis
    using next_pow2_loop_pow2[of 4 n] nz
    by (auto simp: gst_byte_writer_next_pow2_def Let_def)
qed

lemma next_pow2_ge: "unat n \<le> unat (gst_byte_writer_next_pow2 n)"
  using next_pow2_cases[of n] by (auto simp: pow2_unat)

text \<open>
  A writer is well formed on a heap while its position, size and capacity are in order and the
  block at its data is as large as it believes.
\<close>

definition writer_ok :: "heap \<Rightarrow> gst_byte_writer \<Rightarrow> bool" where
  "writer_ok h w \<longleftrightarrow>
     unat (rd_byte (w_parent w)) \<le> unat (rd_size (w_parent w)) \<and>
     unat (rd_size (w_parent w)) \<le> unat (alloc_size w) \<and>
     unat (alloc_size w) \<le> heap_block h (rd_data (w_parent w))"

definition contents :: "heap \<Rightarrow> gst_byte_writer \<Rightarrow> guint8 list" where
  "contents h w = mem_bytes (heap_bytes h) (rd_data (w_parent w)) (unat (rd_size (w_parent w)))"

definition position :: "gst_byte_writer \<Rightarrow> nat" where
  "position w = unat (rd_byte (w_parent w))"

text \<open>Whether room for \<open>n\<close> more bytes can be had, and what having it gives.\<close>

definition refused :: "realloc \<Rightarrow> nat \<Rightarrow> heap \<Rightarrow> gst_byte_writer \<Rightarrow> bool" where
  "refused re n h w \<longleftrightarrow>
     unat (alloc_size w) < position w + n \<and>
     (w_fixed w \<or> \<not> w_owned w \<or> 2 ^ 32 \<le> position w + n \<or>
      re h (rd_data (w_parent w)) (gst_byte_writer_next_pow2 (of_nat (position w + n))) = None)"

definition has_room :: "nat \<Rightarrow> heap \<Rightarrow> gst_byte_writer \<Rightarrow> heap \<Rightarrow> gst_byte_writer \<Rightarrow> bool" where
  "has_room n h w h' w' \<longleftrightarrow>
     writer_ok h' w' \<and> position w' = position w \<and> position w + n \<le> unat (alloc_size w') \<and>
     contents h' w' = contents h w \<and> w_fixed w' = w_fixed w \<and> w_owned w' = w_owned w"

lemma ensure_free_space_spec:
  assumes "writer_ok h w" "realloc_ok re"
  obtains h' w' where
    "gst_byte_writer_ensure_free_space_inline re n h w = (\<not> refused re (unat n) h w, h', w')"
    "\<not> refused re (unat n) h w \<Longrightarrow> has_room (unat n) h w h' w'"
    "unat (alloc_size w) < position w + unat n \<or> (h', w') = (h, w)"
proof -
  let ?b = "rd_byte (w_parent w)"
  have le: "unat ?b \<le> unat (alloc_size w)" using assms(1) by (simp add: writer_ok_def)
  then have fits: "n \<le> alloc_size w - ?b \<longleftrightarrow> position w + unat n \<le> unat (alloc_size w)"
    by (simp add: word_le_nat_alt unat_sub position_def le_diff_conv2 add.commute)
  have n32: "unat n < 2 ^ 32" using unsigned_less[of n, where ?'a = nat] by simp
  have mx: "unat (0xffffffff - n) = 2 ^ 32 - 1 - unat n"
    using n32 by (simp add: unat_sub word_le_nat_alt)
  have over: "0xffffffff - n < ?b \<longleftrightarrow> 2 ^ 32 \<le> position w + unat n"
    using n32 by (auto simp: word_less_nat_alt mx position_def)
  show thesis
  proof (cases "position w + unat n \<le> unat (alloc_size w)")
    case True
    then have "\<not> refused re (unat n) h w" by (simp add: refused_def)
    with True that[of h w] assms(1) show thesis
      by (simp add: gst_byte_writer_ensure_free_space_inline_def fits has_room_def)
  next
    case small: False
    show thesis
    proof (cases "w_fixed w \<or> \<not> w_owned w \<or> 2 ^ 32 \<le> position w + unat n")
      case True
      then have "refused re (unat n) h w" using small by (auto simp: refused_def)
      with small True that[of h w] show thesis
        by (auto simp: gst_byte_writer_ensure_free_space_inline_def fits over)
    next
      case grow: False
      let ?a = "gst_byte_writer_next_pow2 (?b + n)"
      have a: "position w + unat n \<le> unat ?a"
        using next_pow2_ge[of "?b + n"] grow by (simp add: unat_word_ariths position_def)
      show thesis
      proof (cases "re h (rd_data (w_parent w)) ?a")
        case None
        then have "refused re (unat n) h w" using small by (simp add: refused_def position_def)
        with small grow None that[of h "w\<lparr>alloc_size := ?a\<rparr>"] show thesis
          by (simp add: gst_byte_writer_ensure_free_space_inline_def fits over)
      next
        case (Some hp)
        obtain h' p' where hp: "hp = (h', p')" by (cases hp)
        let ?w = "w\<lparr>alloc_size := ?a, w_parent := (w_parent w)\<lparr>rd_data := p'\<rparr>\<rparr>"
        have nr: "\<not> refused re (unat n) h w" using grow Some by (simp add: refused_def position_def)
        have blk: "heap_block h' p' = unat ?a"
          and keep: "\<And>i. i < min (heap_block h (rd_data (w_parent w))) (unat ?a) \<Longrightarrow>
             heap_bytes h' (p' + i) = heap_bytes h (rd_data (w_parent w) + i)"
          using assms(2) Some hp by (auto simp: realloc_ok_def)
        have sz: "unat (rd_size (w_parent w)) \<le> unat ?a"
          using assms(1) small a by (simp add: writer_ok_def)
        have "contents h' ?w = contents h w"
          using keep sz assms(1) by (auto simp: contents_def writer_ok_def mem_bytes_def)
        then have "has_room (unat n) h w h' ?w"
          using assms(1) sz a blk by (simp add: has_room_def writer_ok_def position_def)
        with small grow Some hp nr that[of h' ?w] show thesis
          by (simp add: gst_byte_writer_ensure_free_space_inline_def fits over)
      qed
    qed
  qed
qed

section \<open>Storing at the cursor\<close>

definition store_bytes :: "guint8 list \<Rightarrow> heap \<Rightarrow> gst_byte_writer \<Rightarrow> heap \<times> gst_byte_writer" where
  "store_bytes bs h w =
     (h\<lparr>heap_bytes := mem_store (heap_bytes h) (cursor_address w) bs\<rparr>, moved (of_nat (length bs)) w)"

text \<open>On the abstract buffer, storing overwrites from the position on.\<close>

definition overwrite :: "'b list \<Rightarrow> nat \<Rightarrow> 'b list \<Rightarrow> 'b list" where
  "overwrite xs i bs = take i xs @ bs @ drop (i + length bs) xs"

lemma unat_max: "unat (max a b :: 'a::len word) = max (unat a) (unat b)"
  by (simp add: max_def word_le_nat_alt)

lemma store_bytes_spec:
  assumes "writer_ok h w" "position w + length bs \<le> unat (alloc_size w)"
    and "store_bytes bs h w = (h', w')"
  shows "writer_ok h' w' \<and> position w' = position w + length bs \<and>
    contents h' w' = overwrite (contents h w) (position w) bs \<and>
    w_fixed w' = w_fixed w \<and> w_owned w' = w_owned w \<and> alloc_size w' = alloc_size w \<and>
    rd_data (w_parent w') = rd_data (w_parent w) \<and>
    (\<forall>a. a < rd_data (w_parent w) \<or> rd_data (w_parent w) + unat (alloc_size w) \<le> a \<longrightarrow>
       heap_bytes h' a = heap_bytes h a)"
proof -
  let ?p = "rd_data (w_parent w)" and ?b = "rd_byte (w_parent w)" and ?s = "rd_size (w_parent w)"
  have "unat (alloc_size w) < 2 ^ 32" using unsigned_less[of "alloc_size w", where ?'a = nat] by simp
  then have b: "unat (?b + of_nat (length bs)) = unat ?b + length bs"
    using assms(2) by (simp add: unat_word_ariths unat_of_nat position_def)
  have h': "h' = h\<lparr>heap_bytes := mem_store (heap_bytes h) (?p + unat ?b) bs\<rparr>"
    and w': "w' = moved (of_nat (length bs)) w"
    using assms(3) by (auto simp: store_bytes_def cursor_address_def)
  have sz: "unat (rd_size (w_parent w')) = max (unat ?s) (unat ?b + length bs)"
    by (simp add: w' moved_def Let_def unat_max b)
  have d: "rd_data (w_parent w') = ?p" "rd_byte (w_parent w') = ?b + of_nat (length bs)"
    "alloc_size w' = alloc_size w" "w_fixed w' = w_fixed w" "w_owned w' = w_owned w"
    by (simp_all add: w' moved_def Let_def)
  have le: "unat ?b \<le> unat ?s" using assms(1) by (simp add: writer_ok_def)
  have "contents h' w' = overwrite (contents h w) (position w) bs"
  proof (rule nth_equalityI)
    show "length (contents h' w') = length (overwrite (contents h w) (position w) bs)"
      using le by (simp add: contents_def overwrite_def sz position_def)
  next
    fix i assume "i < length (contents h' w')"
    then have i: "i < max (unat ?s) (unat ?b + length bs)" by (simp add: contents_def sz)
    then show "contents h' w' ! i = overwrite (contents h w) (position w) bs ! i"
      using le
      by (auto simp: contents_def overwrite_def sz d h' position_def nth_append mem_store_def)
  qed
  then show ?thesis
    using assms(1,2) le
    by (auto simp: writer_ok_def position_def sz d b h' mem_store_other)
qed

locale write_laws =
  fixes wfmt :: "'a write_format" and nbytes :: nat and enc :: "'a \<Rightarrow> guint8 list"
  assumes wbits: "wf_bits wfmt = 8 * nbytes"
    and wfew: "nbytes \<le> 8"
    and writes: "wf_write wfmt pf p v m = mem_store m p (enc v)"
    and enc_length: "length (enc v) = nbytes"
begin

lemma put_spec:
  "put_inline wfmt re pf h (Some w) v =
     (case gst_byte_writer_ensure_free_space_inline re (of_nat nbytes) h w of
        (False, h, w) \<Rightarrow> Done (False, h, w)
      | (True, h, w) \<Rightarrow> Done (True, store_bytes (enc v) h w))"
  by (simp add: put_inline_def wbits put_unchecked_def writes store_bytes_def enc_length split: prod.split bool.split)

end

interpretation uint8_w: write_laws uint8_write 1 "\<lambda>v. read_order False (word_bytes 1 v)"
  by unfold_locales (simp_all add: uint8_write_def mem_writes float_accesses)

interpretation int8_w: write_laws int8_write 1 "\<lambda>v. read_order False (word_bytes 1 v)"
  by unfold_locales (simp_all add: int8_write_def mem_writes float_accesses)

interpretation uint16_le_w: write_laws uint16_le_write 2 "\<lambda>v. read_order False (word_bytes 2 v)"
  by unfold_locales (simp_all add: uint16_le_write_def mem_writes float_accesses)

interpretation uint16_be_w: write_laws uint16_be_write 2 "\<lambda>v. read_order True (word_bytes 2 v)"
  by unfold_locales (simp_all add: uint16_be_write_def mem_writes float_accesses)

interpretation int16_le_w: write_laws int16_le_write 2 "\<lambda>v. read_order False (word_bytes 2 v)"
  by unfold_locales (simp_all add: int16_le_write_def mem_writes float_accesses)

interpretation int16_be_w: write_laws int16_be_write 2 "\<lambda>v. read_order True (word_bytes 2 v)"
  by unfold_locales (simp_all add: int16_be_write_def mem_writes float_accesses)

interpretation uint32_le_w: write_laws uint32_le_write 4 "\<lambda>v. read_order False (word_bytes 4 v)"
  by unfold_locales (simp_all add: uint32_le_write_def mem_writes float_accesses)

interpretation uint32_be_w: write_laws uint32_be_write 4 "\<lambda>v. read_order True (word_bytes 4 v)"
  by unfold_locales (simp_all add: uint32_be_write_def mem_writes float_accesses)

interpretation int32_le_w: write_laws int32_le_write 4 "\<lambda>v. read_order False (word_bytes 4 v)"
  by unfold_locales (simp_all add: int32_le_write_def mem_writes float_accesses)

interpretation int32_be_w: write_laws int32_be_write 4 "\<lambda>v. read_order True (word_bytes 4 v)"
  by unfold_locales (simp_all add: int32_be_write_def mem_writes float_accesses)

interpretation uint24_le_w: write_laws uint24_le_write 3 "\<lambda>v. read_order False (word_bytes 3 v)"
  by unfold_locales (simp_all add: uint24_le_write_def mem_writes float_accesses)

interpretation uint24_be_w: write_laws uint24_be_write 3 "\<lambda>v. read_order True (word_bytes 3 v)"
  by unfold_locales (simp_all add: uint24_be_write_def mem_writes float_accesses)

interpretation int24_le_w: write_laws int24_le_write 3 "\<lambda>v. read_order False (word_bytes 3 v)"
  by unfold_locales (simp_all add: int24_le_write_def mem_writes float_accesses)

interpretation int24_be_w: write_laws int24_be_write 3 "\<lambda>v. read_order True (word_bytes 3 v)"
  by unfold_locales (simp_all add: int24_be_write_def mem_writes float_accesses)

interpretation uint64_le_w: write_laws uint64_le_write 8 "\<lambda>v. read_order False (word_bytes 8 v)"
  by unfold_locales (simp_all add: uint64_le_write_def mem_writes float_accesses)

interpretation uint64_be_w: write_laws uint64_be_write 8 "\<lambda>v. read_order True (word_bytes 8 v)"
  by unfold_locales (simp_all add: uint64_be_write_def mem_writes float_accesses)

interpretation int64_le_w: write_laws int64_le_write 8 "\<lambda>v. read_order False (word_bytes 8 v)"
  by unfold_locales (simp_all add: int64_le_write_def mem_writes float_accesses)

interpretation int64_be_w: write_laws int64_be_write 8 "\<lambda>v. read_order True (word_bytes 8 v)"
  by unfold_locales (simp_all add: int64_be_write_def mem_writes float_accesses)

interpretation float32_le_w: write_laws float32_le_write 4 "\<lambda>v. read_order False (word_bytes 4 v)"
  by unfold_locales (simp_all add: float32_le_write_def mem_writes float_accesses)

interpretation float32_be_w: write_laws float32_be_write 4 "\<lambda>v. read_order True (word_bytes 4 v)"
  by unfold_locales (simp_all add: float32_be_write_def mem_writes float_accesses)

interpretation float64_le_w: write_laws float64_le_write 8 "\<lambda>v. read_order False (word_bytes 8 v)"
  by unfold_locales (simp_all add: float64_le_write_def mem_writes float_accesses)

interpretation float64_be_w: write_laws float64_be_write 8 "\<lambda>v. read_order True (word_bytes 8 v)"
  by unfold_locales (simp_all add: float64_be_write_def mem_writes float_accesses)

lemmas accessor_puts =
  uint8_w.put_spec int8_w.put_spec uint16_le_w.put_spec uint16_be_w.put_spec int16_le_w.put_spec
  int16_be_w.put_spec uint32_le_w.put_spec uint32_be_w.put_spec int32_le_w.put_spec
  int32_be_w.put_spec uint24_le_w.put_spec uint24_be_w.put_spec int24_le_w.put_spec
  int24_be_w.put_spec uint64_le_w.put_spec uint64_be_w.put_spec int64_le_w.put_spec
  int64_be_w.put_spec float32_le_w.put_spec float32_be_w.put_spec float64_le_w.put_spec
  float64_be_w.put_spec

lemma put_like_spec:
  "put_like x re pf h (Some w) =
     (case gst_byte_writer_ensure_free_space_inline re (of_nat (scalar_size x)) h w of
        (False, h, w) \<Rightarrow> Done (False, h, w)
      | (True, h, w) \<Rightarrow> Done (True, store_bytes (encode x) h w))"
  by (cases x) (simp_all add: writer_put_defs accessor_puts del: One_nat_def of_nat_numeral
      split: prod.split bool.split)

section \<open>Properties\<close>

lemma put_like_outcome:
  assumes "writer_ok h w" "realloc_ok re"
  obtains h' w' where
    "put_like x re pf h (Some w) = Done (\<not> refused re (scalar_size x) h w, h', w')"
    "\<not> refused re (scalar_size x) h w \<longrightarrow>
       writer_ok h' w' \<and> position w' = position w + scalar_size x \<and>
       contents h' w' = overwrite (contents h w) (position w) (encode x) \<and>
       w_fixed w' = w_fixed w \<and> w_owned w' = w_owned w"
proof -
  have n: "unat (of_nat (scalar_size x) :: guint32) = scalar_size x"
    using scalar_size_bounds[of x] by (simp add: unat_of_nat)
  obtain h1 w1 where e: "gst_byte_writer_ensure_free_space_inline re (of_nat (scalar_size x)) h w
      = (\<not> refused re (scalar_size x) h w, h1, w1)"
    "\<not> refused re (scalar_size x) h w \<Longrightarrow> has_room (scalar_size x) h w h1 w1"
    using ensure_free_space_spec[OF assms, of "of_nat (scalar_size x)"] n by metis
  show thesis
  proof (cases "refused re (scalar_size x) h w")
    case True
    show thesis by (rule that[of h1 w1]) (simp_all add: put_like_spec e(1) True)
  next
    case False
    obtain h2 w2 where s: "store_bytes (encode x) h1 w1 = (h2, w2)" by fastforce
    from False e have room: "has_room (scalar_size x) h w h1 w1" by simp
    from room have ok: "writer_ok h1 w1" "position w1 + length (encode x) \<le> unat (alloc_size w1)"
      by (simp_all add: has_room_def)
    have put: "put_like x re pf h (Some w) = Done (\<not> refused re (scalar_size x) h w, h2, w2)"
      by (simp add: put_like_spec e(1) False s)
    show thesis
      by (rule that[OF put]) (use store_bytes_spec[OF ok s] room in \<open>simp add: has_room_def\<close>)
  qed
qed

text \<open>
  C4. Putting a scalar into a well-formed writer, as a refinement: when room is to be had the call
  returns true and, on the abstract buffer, overwrites the bytes from the position on with the
  scalar's encoding and moves behind it, whatever the platform; otherwise it returns false.
\<close>

theorem put_overwrites:
  assumes "writer_ok h w" "realloc_ok re"
  shows "\<exists>h' w'. put_like x re pf h (Some w) = Done (\<not> refused re (scalar_size x) h w, h', w') \<and>
    (\<not> refused re (scalar_size x) h w \<longrightarrow>
       writer_ok h' w' \<and> position w' = position w + scalar_size x \<and>
       contents h' w' = overwrite (contents h w) (position w) (encode x))"
  by (rule put_like_outcome[OF assms, of x pf]) auto

text \<open>Running a list of puts, and of gets of the same formats, while they succeed.\<close>

fun put_all ::
  "realloc \<Rightarrow> platform \<Rightarrow> scalar list \<Rightarrow> heap \<Rightarrow> gst_byte_writer \<Rightarrow> (heap \<times> gst_byte_writer) option" where
  "put_all re pf [] h w = Some (h, w)"
| "put_all re pf (x # xs) h w =
     (case put_like x re pf h (Some w) of
        Done (True, h, w) \<Rightarrow> put_all re pf xs h w
      | _ \<Rightarrow> None)"

fun get_all :: "platform \<Rightarrow> mem \<Rightarrow> scalar list \<Rightarrow> gst_byte_reader \<Rightarrow> (scalar list \<times> gst_byte_reader) option" where
  "get_all pf m [] r = Some ([], r)"
| "get_all pf m (x # xs) r =
     (case get_like x pf m (Some r) True of
        Done (Some v, r) \<Rightarrow> map_option (apfst (Cons v)) (get_all pf m xs r)
      | _ \<Rightarrow> None)"

definition encode_all :: "scalar list \<Rightarrow> guint8 list" where
  "encode_all xs = concat (map encode xs)"

lemma encode_all_simps [simp]:
  "encode_all [] = []" "encode_all (x # xs) = encode x @ encode_all xs"
  by (simp_all add: encode_all_def)

lemma contents_end: "writer_ok h w \<Longrightarrow> position w = length (contents h w) \<Longrightarrow>
    overwrite (contents h w) (position w) bs = contents h w @ bs"
  by (simp add: overwrite_def)

lemma put_all_appends:
  assumes "writer_ok h w" "realloc_ok re" "position w = length (contents h w)"
    and "put_all re pf xs h w = Some (h', w')"
  shows "writer_ok h' w' \<and> contents h' w' = contents h w @ encode_all xs"
  using assms
proof (induction xs arbitrary: h w)
  case Nil
  then show ?case by simp
next
  case (Cons x xs)
  obtain h1 w1 where p: "put_like x re pf h (Some w) = Done (\<not> refused re (scalar_size x) h w, h1, w1)"
    "\<not> refused re (scalar_size x) h w \<longrightarrow>
       writer_ok h1 w1 \<and> position w1 = position w + scalar_size x \<and>
       contents h1 w1 = overwrite (contents h w) (position w) (encode x) \<and>
       w_fixed w1 = w_fixed w \<and> w_owned w1 = w_owned w"
    using put_like_outcome[OF Cons.prems(1,2), of x pf] by blast
  have nr: "\<not> refused re (scalar_size x) h w" using p(1) Cons.prems(4) by (cases "refused re (scalar_size x) h w") simp_all
  have all: "put_all re pf xs h1 w1 = Some (h', w')" using p(1) nr Cons.prems(4) by simp
  from p(2)[rule_format, OF nr] have c: "contents h1 w1 = contents h w @ encode x"
    using contents_end[OF Cons.prems(1,3)] by simp
  then have "position w1 = length (contents h1 w1)" "writer_ok h1 w1"
    using p(2)[rule_format, OF nr] Cons.prems(3) by simp_all
  with Cons.IH[OF _ Cons.prems(2) _ all] c show ?case by simp
qed

lemma put_all_succeeds:
  assumes "writer_ok h w" "realloc_ok re" "position w = length (contents h w)"
    and "\<And>h p n. re h p n \<noteq> None" "w_owned w" "\<not> w_fixed w"
    and "length (contents h w) + length (encode_all xs) < 2 ^ 32"
  shows "\<exists>h' w'. put_all re pf xs h w = Some (h', w')"
  using assms
proof (induction xs arbitrary: h w)
  case Nil
  then show ?case by simp
next
  case (Cons x xs)
  obtain h1 w1 where p: "put_like x re pf h (Some w) = Done (\<not> refused re (scalar_size x) h w, h1, w1)"
    "\<not> refused re (scalar_size x) h w \<longrightarrow>
       writer_ok h1 w1 \<and> position w1 = position w + scalar_size x \<and>
       contents h1 w1 = overwrite (contents h w) (position w) (encode x) \<and>
       w_fixed w1 = w_fixed w \<and> w_owned w1 = w_owned w"
    using put_like_outcome[OF Cons.prems(1,2), of x pf] by blast
  have nr: "\<not> refused re (scalar_size x) h w"
    using Cons.prems(3-7) by (simp add: refused_def)
  from p(2)[rule_format, OF nr] have "contents h1 w1 = contents h w @ encode x"
    using contents_end[OF Cons.prems(1,3)] by simp
  with Cons.IH[of h1 w1] p nr Cons.prems show ?case by simp
qed

lemma get_all_encoded:
  assumes "reader_ok r" "list_all scalar_fits xs" "next_bytes m r (remaining r) = encode_all xs @ rest"
  shows "\<exists>r'. get_all pf m xs r = Some (xs, r') \<and> reader_ok r' \<and> remaining r' = length rest"
  using assms
proof (induction xs arbitrary: r)
  case Nil
  then have "remaining r = length rest" by (metis append_Nil encode_all_simps(1) length_mem_bytes next_bytes_def)
  with Nil show ?case by simp
next
  case (Cons x xs)
  let ?n = "scalar_size x"
  have "remaining r = length (encode x) + length (encode_all xs @ rest)"
    using Cons.prems(3) by (metis append.assoc encode_all_simps(2) length_append length_mem_bytes next_bytes_def)
  then have rem: "remaining r = ?n + length (encode_all xs @ rest)" by simp
  then have n: "?n \<le> remaining r" by simp
  note adv = advance_ok[OF Cons.prems(1) n]
  have "next_bytes m r ?n @ next_bytes m (advance ?n r) (length (encode_all xs @ rest))
      = encode x @ (encode_all xs @ rest)"
    using Cons.prems(3) rem adv(3)
    by (simp add: next_bytes_def mem_bytes_append advance_def add.assoc)
  then have "next_bytes m r ?n = encode x"
    "next_bytes m (advance ?n r) (length (encode_all xs @ rest)) = encode_all xs @ rest"
    by (simp_all add: append_eq_append_conv next_bytes_def)
  then show ?case
    using Cons.IH[OF adv(1)] Cons.prems(1,2) n adv(2) rem
    by (auto simp: get_like_spec decode_encode)
qed

text \<open>
  C9. What a writer writes a reader reads: appending any scalars that fit their formats to a
  growing writer succeeds while memory can be had and the size stays below \<open>2 ^ 32\<close>, the buffer is
  then the old contents and the encodings in order, and reading the same formats from where the
  writer began, on any platform, returns the same scalars and ends at the end of the buffer.
\<close>

theorem writer_reader_round_trip:
  assumes "writer_ok h w" "realloc_ok re" "position w = length (contents h w)"
    and "\<And>h p n. re h p n \<noteq> None" "w_owned w" "\<not> w_fixed w"
    and "length (contents h w) + length (encode_all xs) < 2 ^ 32"
    and "list_all scalar_fits xs"
  shows "\<exists>h' w' r. put_all re pf xs h w = Some (h', w') \<and>
    contents h' w' = contents h w @ encode_all xs \<and>
    get_all pf' (heap_bytes h') xs ((w_parent w')\<lparr>rd_byte := of_nat (length (contents h w))\<rparr>) = Some (xs, r) \<and>
    unat (rd_byte r) = length (contents h' w')"
proof -
  obtain h' w' where p: "put_all re pf xs h w = Some (h', w')"
    using put_all_succeeds[OF assms(1-7)] by blast
  note app = put_all_appends[OF assms(1-3) p]
  let ?r = "(w_parent w')\<lparr>rd_byte := of_nat (length (contents h w))\<rparr>"
  have len: "unat (rd_size (w_parent w')) = length (contents h w) + length (encode_all xs)"
    using app by (metis contents_def length_append length_mem_bytes)
  have start: "unat (rd_byte ?r) = length (contents h w)"
    using assms(7) by (simp add: unat_of_nat)
  have ok: "reader_ok ?r" using len start by (simp add: reader_ok_def word_le_nat_alt)
  have rem: "remaining ?r = length (encode_all xs)" using len start by (simp add: remaining_def)
  have "contents h' w' = contents h w @ encode_all xs" using app by simp
  then have "mem_bytes (heap_bytes h') (rd_data (w_parent w')) (length (contents h w)) @
      next_bytes (heap_bytes h') ?r (length (encode_all xs)) = contents h w @ encode_all xs"
    using start by (simp add: contents_def[of h' w'] len mem_bytes_append next_bytes_def)
  then have "next_bytes (heap_bytes h') ?r (remaining ?r) = encode_all xs @ []"
    by (simp add: append_eq_append_conv rem)
  from get_all_encoded[OF ok assms(8) this, of pf'] obtain r where
    r: "get_all pf' (heap_bytes h') xs ?r = Some (xs, r)" "reader_ok r" "remaining r = 0"
    by auto
  have keep: "rd_size r' = rd_size s" if "get_all pf' m ys s = Some (zs, r')" for m ys zs s r'
    using that
  proof (induction ys arbitrary: s zs)
    case (Cons y ys)
    then obtain v s' where g: "get_like y pf' m (Some s) True = Done (Some v, s')"
      "\<exists>zs. get_all pf' m ys s' = Some (zs, r')"
      by (auto split: outcome.splits option.splits)
    have "rd_size s' = rd_size s"
      using g(1)
      by (cases y) (auto simp: reader_get_defs get_inline_def get_unchecked_def split: if_splits)
    with g(2) Cons.IH show ?case by auto
  qed simp
  have "unat (rd_byte r) = length (contents h' w')"
    using r(2,3) keep[OF r(1)] by (simp add: remaining_def reader_ok_def contents_def word_le_nat_alt)
  with p app r(1) show ?thesis by blast
qed

text \<open>A concrete heap and writer; the reallocation grows blocks in place.\<close>

definition grow_in_place :: realloc where
  "grow_in_place h p n = Some (h\<lparr>heap_block := (heap_block h)(p := unat n)\<rparr>, p)"

lemma grow_in_place_ok: "realloc_ok grow_in_place"
  by (simp add: realloc_ok_def grow_in_place_def)

definition sample_heap :: heap where
  "sample_heap = \<lparr>heap_bytes = (\<lambda>_. 0), heap_block = (\<lambda>_. 0)\<rparr>"

definition new_writer :: gst_byte_writer where
  "new_writer = \<lparr>w_parent = \<lparr>rd_data = 64, rd_size = 0, rd_byte = 0\<rparr>, alloc_size = 0, w_fixed = False,
     w_owned = True\<rparr>"

lemma new_writer_ok:
  "writer_ok sample_heap new_writer" "position new_writer = length (contents sample_heap new_writer)"
  "contents sample_heap new_writer = []" "w_owned new_writer" "\<not> w_fixed new_writer"
  by (simp_all add: writer_ok_def new_writer_def sample_heap_def position_def contents_def mem_bytes_def)

lemma writer_reader_round_trip_witness:
  "\<exists>h' w' r. put_all grow_in_place sample_platform [Int24_be (- 2), Uint16_le 0x1234] sample_heap new_writer
       = Some (h', w') \<and>
     get_all sample_platform (heap_bytes h') [Int24_be (- 2), Uint16_le 0x1234]
       ((w_parent w')\<lparr>rd_byte := of_nat (length (contents sample_heap new_writer))\<rparr>)
       = Some ([Int24_be (- 2), Uint16_le 0x1234], r)"
  using writer_reader_round_trip[OF new_writer_ok(1) grow_in_place_ok new_writer_ok(2) _ new_writer_ok(4,5),
      of "[Int24_be (- 2), Uint16_le 0x1234]" sample_platform sample_platform]
  by (fastforce simp: grow_in_place_def new_writer_ok(3))

lemma put_overwrites_witness:
  "\<exists>h' w'. put_like (Uint32_be 7) grow_in_place sample_platform sample_heap (Some new_writer) =
     Done (True, h', w') \<and> contents h' w' = encode (Uint32_be 7)"
proof -
  have "\<not> refused grow_in_place (scalar_size (Uint32_be 7)) sample_heap new_writer"
    by (simp add: refused_def grow_in_place_def new_writer_def position_def)
  then show ?thesis
    using put_overwrites[OF new_writer_ok(1) grow_in_place_ok, of "Uint32_be 7" sample_platform]
      contents_end[OF new_writer_ok(1,2), of "encode (Uint32_be 7)"] new_writer_ok(3) by auto
qed

text \<open>
  The capacity loop ends for every request; the capacity is the smallest power of two, at least
  16, that holds it, and the request itself when no power of two below \<open>2 ^ 32\<close> does.
\<close>

theorem next_pow2_least:
  "unat n \<le> unat (gst_byte_writer_next_pow2 n) \<and>
   (unat n \<le> 2 ^ 31 \<longrightarrow> (\<exists>j\<ge>4. gst_byte_writer_next_pow2 n = 2 ^ j \<and> j < 32 \<and>
      (j = 4 \<or> unat (gst_byte_writer_next_pow2 n) < 2 * unat n))) \<and>
   (2 ^ 31 < unat n \<longrightarrow> gst_byte_writer_next_pow2 n = n)"
proof -
  have double: "(2 :: nat) ^ j < 2 * unat n" if "4 \<le> j" "2 ^ (j - 1) < unat n" for j
  proof -
    have "j = Suc (j - 1)" using that(1) by simp
    then have "(2 :: nat) ^ j = 2 * 2 ^ (j - 1)" by (metis power_Suc)
    then show ?thesis using that(2) by simp
  qed
  have big: "\<not> 2 ^ 31 < unat n" if "j < 32" "unat n \<le> 2 ^ j" for j
  proof -
    have "(2 :: nat) ^ j \<le> 2 ^ 31" using that(1) by (intro power_increasing) auto
    then show ?thesis using that(2) by linarith
  qed
  show ?thesis
    using next_pow2_cases[of n]
  proof
    assume "\<exists>j. 4 \<le> j \<and> j < 32 \<and> gst_byte_writer_next_pow2 n = 2 ^ j \<and> unat n \<le> 2 ^ j \<and>
      (j = 4 \<or> 2 ^ (j - 1) < unat n)"
    then obtain j where j: "4 \<le> j" "j < 32" "gst_byte_writer_next_pow2 n = 2 ^ j" "unat n \<le> 2 ^ j"
      "j = 4 \<or> 2 ^ (j - 1) < unat n" by blast
    then show ?thesis using double[of j] big[of j] pow2_unat[of j] by auto
  qed auto
qed

lemma next_pow2_least_witness:
  "unat (gst_byte_writer_next_pow2 17) < 34 \<and> gst_byte_writer_next_pow2 0x80000001 = 0x80000001"
proof -
  have "gst_byte_writer_next_pow2 17 \<noteq> 2 ^ 4"
    using next_pow2_least[of 17] by auto
  then show ?thesis using next_pow2_least[of 17] next_pow2_least[of "0x80000001"] by auto
qed

lemma put_data_and_fill_parts:
  assumes "writer_ok h w" "realloc_ok re"
  shows "\<exists>h' w'. gst_byte_writer_fill re h (Some w) val n = Done (\<not> refused re (unat n) h w, h', w') \<and>
      (\<not> refused re (unat n) h w \<longrightarrow>
         writer_ok h' w' \<and> contents h' w' = overwrite (contents h w) (position w) (replicate (unat n) val))"
    and "\<exists>h1 w1 h' w'. gst_byte_writer_ensure_free_space re n h w = (\<not> refused re (unat n) h w, h1, w1) \<and>
      gst_byte_writer_put_data re h (Some w) data n = Done (\<not> refused re (unat n) h w, h', w') \<and>
      (\<not> refused re (unat n) h w \<longrightarrow>
         writer_ok h' w' \<and>
         contents h' w' = overwrite (contents h w) (position w) (mem_bytes (heap_bytes h1) data (unat n)))"
    and "w_fixed w \<or> \<not> w_owned w \<Longrightarrow> unat (alloc_size w) < position w + unat n \<Longrightarrow>
      gst_byte_writer_fill re h (Some w) val n = Done (False, h, w) \<and>
      gst_byte_writer_put_data re h (Some w) data n = Done (False, h, w)"
proof -
  obtain h1 w1 where e: "gst_byte_writer_ensure_free_space_inline re n h w
      = (\<not> refused re (unat n) h w, h1, w1)"
    "\<not> refused re (unat n) h w \<longrightarrow> has_room (unat n) h w h1 w1"
    using ensure_free_space_spec[OF assms, of n] by blast
  have store: "writer_ok h' w' \<and> contents h' w' = overwrite (contents h w) (position w) bs"
    if "store_bytes bs h1 w1 = (h', w')" "length bs = unat n" "\<not> refused re (unat n) h w" for bs h' w'
    using store_bytes_spec[OF _ _ that(1)] e(2) that(2,3) by (simp add: has_room_def)
  obtain h2 w2 where s: "store_bytes (replicate (unat n) val) h1 w1 = (h2, w2)" by fastforce
  obtain h3 w3 where d: "store_bytes (mem_bytes (heap_bytes h1) data (unat n)) h1 w1 = (h3, w3)" by fastforce
  show "\<exists>h' w'. gst_byte_writer_fill re h (Some w) val n = Done (\<not> refused re (unat n) h w, h', w') \<and>
      (\<not> refused re (unat n) h w \<longrightarrow>
         writer_ok h' w' \<and> contents h' w' = overwrite (contents h w) (position w) (replicate (unat n) val))"
    using e(1) s store[OF s]
    by (cases "refused re (unat n) h w")
      (simp_all add: gst_byte_writer_fill_def gst_byte_writer_fill_inline_def
        gst_byte_writer_fill_unchecked_def store_bytes_def)
  show "\<exists>h1 w1 h' w'. gst_byte_writer_ensure_free_space re n h w = (\<not> refused re (unat n) h w, h1, w1) \<and>
      gst_byte_writer_put_data re h (Some w) data n = Done (\<not> refused re (unat n) h w, h', w') \<and>
      (\<not> refused re (unat n) h w \<longrightarrow>
         writer_ok h' w' \<and>
         contents h' w' = overwrite (contents h w) (position w) (mem_bytes (heap_bytes h1) data (unat n)))"
    using e(1) d store[OF d]
    by (cases "refused re (unat n) h w")
      (simp_all add: gst_byte_writer_put_data_def gst_byte_writer_put_data_inline_def
        gst_byte_writer_put_data_unchecked_def store_bytes_def gst_byte_writer_ensure_free_space_def)
next
  assume a: "w_fixed w \<or> \<not> w_owned w" "unat (alloc_size w) < position w + unat n"
  have "unat (rd_byte (w_parent w)) \<le> unat (alloc_size w)" using assms(1) by (simp add: writer_ok_def)
  then have "\<not> n \<le> alloc_size w - rd_byte (w_parent w)"
    using a(2) by (simp add: word_le_nat_alt unat_sub position_def)
  then show "gst_byte_writer_fill re h (Some w) val n = Done (False, h, w) \<and>
      gst_byte_writer_put_data re h (Some w) data n = Done (False, h, w)"
    using a(1)
    by (simp add: gst_byte_writer_fill_def gst_byte_writer_fill_inline_def gst_byte_writer_put_data_def
        gst_byte_writer_put_data_inline_def gst_byte_writer_ensure_free_space_inline_def)
qed

text \<open>
  Bytes and fills: putting a run of bytes, or \<open>n\<close> copies of a byte, overwrites the buffer at
  the position with that run when there is room and fails otherwise; a writer that is fixed or
  does not own its data never gets more room, and is left as it was.
\<close>

theorem put_data_and_fill:
  assumes "writer_ok h w" "realloc_ok re"
  shows "(\<exists>h' w'. gst_byte_writer_fill re h (Some w) val n = Done (\<not> refused re (unat n) h w, h', w') \<and>
      (\<not> refused re (unat n) h w \<longrightarrow>
         writer_ok h' w' \<and> contents h' w' = overwrite (contents h w) (position w) (replicate (unat n) val))) \<and>
    (\<exists>h1 w1 h' w'. gst_byte_writer_ensure_free_space re n h w = (\<not> refused re (unat n) h w, h1, w1) \<and>
      gst_byte_writer_put_data re h (Some w) data n = Done (\<not> refused re (unat n) h w, h', w') \<and>
      (\<not> refused re (unat n) h w \<longrightarrow>
         writer_ok h' w' \<and>
         contents h' w' = overwrite (contents h w) (position w) (mem_bytes (heap_bytes h1) data (unat n)))) \<and>
    ((w_fixed w \<or> \<not> w_owned w) \<and> unat (alloc_size w) < position w + unat n \<longrightarrow>
      gst_byte_writer_fill re h (Some w) val n = Done (False, h, w) \<and>
      gst_byte_writer_put_data re h (Some w) data n = Done (False, h, w))"
  by (intro conjI impI put_data_and_fill_parts[OF assms]) (simp_all add: put_data_and_fill_parts(3)[OF assms])

lemma put_data_and_fill_witness:
  "gst_byte_writer_fill grow_in_place sample_heap (Some (new_writer\<lparr>w_fixed := True\<rparr>)) 1 2 =
     Done (False, sample_heap, new_writer\<lparr>w_fixed := True\<rparr>)"
proof -
  have "writer_ok sample_heap (new_writer\<lparr>w_fixed := True\<rparr>)"
    by (simp add: writer_ok_def new_writer_def sample_heap_def)
  from put_data_and_fill[OF this grow_in_place_ok, of 1 2 0] show ?thesis
    by (simp add: new_writer_def position_def)
qed

text \<open>
  When memory runs out while the buffer grows, the writer is left with a capacity it does not
  have: the put that failed is refused, but the same put tried again is accepted without any
  reallocation and stores behind the end of the block.
\<close>

theorem failed_growth_believed:
  assumes "writer_ok h w" "w_owned w" "\<not> w_fixed w"
    and "unat (alloc_size w) = heap_block h (rd_data (w_parent w))"
    and "heap_block h (rd_data (w_parent w)) < position w + unat n" "position w + unat n < 2 ^ 32"
    and "\<And>h p n. re h p n = None"
  shows "\<exists>w1. gst_byte_writer_fill re h (Some w) val n = Done (False, h, w1) \<and>
    (\<exists>h2 w2. gst_byte_writer_fill re h (Some w1) val n = Done (True, h2, w2) \<and>
       rd_data (w_parent w2) = rd_data (w_parent w) \<and>
       heap_block h2 (rd_data (w_parent w)) < position w2 \<and>
       heap_bytes h2 (rd_data (w_parent w) + position w2 - 1) = val)"
proof -
  let ?b = "rd_byte (w_parent w)" and ?p = "rd_data (w_parent w)"
  let ?a = "gst_byte_writer_next_pow2 (?b + n)"
  let ?w1 = "w\<lparr>alloc_size := ?a\<rparr>"
  have b: "unat ?b \<le> unat (alloc_size w)" using assms(1) by (simp add: writer_ok_def)
  have sum: "unat (?b + n) = unat ?b + unat n" using assms(6) by (simp add: unat_word_ariths position_def)
  then have a: "unat ?b + unat n \<le> unat ?a" using next_pow2_ge[of "?b + n"] by simp
  have n: "0 < unat n" using assms(4,5) b by (simp add: position_def)
  have small: "\<not> n \<le> alloc_size w - ?b"
    using assms(4,5) b by (simp add: word_le_nat_alt unat_sub position_def)
  have "unat (0xffffffff - n) = 2 ^ 32 - 1 - unat n"
    using unsigned_less[of n, where ?'a = nat] by (simp add: unat_sub word_le_nat_alt)
  then have over: "\<not> 0xffffffff - n < ?b"
    using assms(6) by (simp add: word_less_nat_alt position_def)
  have fits: "n \<le> ?a - ?b" using a by (simp add: word_le_nat_alt unat_sub)
  have first: "gst_byte_writer_fill re h (Some w) val n = Done (False, h, ?w1)"
    using assms(2,3,7) small over
    by (simp add: gst_byte_writer_fill_def gst_byte_writer_fill_inline_def
        gst_byte_writer_ensure_free_space_inline_def)
  obtain h2 w2 where s: "gst_byte_writer_fill_unchecked val n h ?w1 = (h2, w2)" by fastforce
  have second: "gst_byte_writer_fill re h (Some ?w1) val n = Done (True, h2, w2)"
    using fits s
    by (simp add: gst_byte_writer_fill_def gst_byte_writer_fill_inline_def
        gst_byte_writer_ensure_free_space_inline_def)
  have "h2 = h\<lparr>heap_bytes := mem_store (heap_bytes h) (?p + unat ?b) (replicate (unat n) val)\<rparr>"
    "w2 = moved n ?w1"
    using s by (auto simp: gst_byte_writer_fill_unchecked_def cursor_address_def)
  then have "rd_data (w_parent w2) = ?p" "position w2 = unat ?b + unat n"
    "heap_block h2 ?p < position w2" "heap_bytes h2 (?p + position w2 - 1) = val"
    using sum n assms(5) by (auto simp: moved_def Let_def position_def mem_store_def)
  with first second show ?thesis by blast
qed

lemma failed_growth_believed_witness:
  "\<exists>w1. gst_byte_writer_fill (\<lambda>h p n. None) sample_heap (Some new_writer) 1 4 = Done (False, sample_heap, w1) \<and>
    (\<exists>h2 w2. gst_byte_writer_fill (\<lambda>h p n. None) sample_heap (Some w1) 1 4 = Done (True, h2, w2))"
  using failed_growth_believed[OF new_writer_ok(1,4,5), of 4 "\<lambda>h p n. None" 1]
  by (fastforce simp: new_writer_def sample_heap_def position_def)

text \<open>
  The size of the piece of a buffer to put is 64 bits wide where the piece is extracted but 32
  where space is ensured: a piece of \<open>2 ^ 32 + k\<close> bytes is accepted by a writer with room for \<open>k\<close>,
  and the extraction is asked for all of it.
\<close>

theorem put_buffer_truncates_size:
  assumes "unat k \<le> unat (alloc_size w) - position w" "position w \<le> unat (alloc_size w)"
    and "n = 0x100000000 + ucast (k :: guint32)" "sint n > - 1"
  shows "\<exists>w'. gst_byte_writer_put_buffer re h (Some w) buffer offset n =
      Done (True, h\<lparr>heap_bytes := gst_buffer_extract buffer offset (cursor_address w) n (heap_bytes h)\<rparr>, w') \<and>
    unat (alloc_size w) < unat n \<and> position w' = position w + unat k"
proof -
  have k32: "unat k < 2 ^ 32" using unsigned_less[of k, where ?'a = nat] by simp
  have un: "unat n = 2 ^ 32 + unat k"
    using k32 by (simp add: assms(3) unat_word_ariths unsigned_ucast_eq take_bit_eq_mod)
  have low: "ucast n = k"
    by (rule unsigned_word_eqI[where ?'a = nat]) (use k32 un in \<open>simp add: unsigned_ucast_eq take_bit_eq_mod\<close>)
  have nm: "n \<noteq> - 1" using assms(4) by auto
  have fits: "k \<le> alloc_size w - rd_byte (w_parent w)"
    using assms(1,2) by (simp add: word_le_nat_alt unat_sub position_def)
  have "unat (alloc_size w) < 2 ^ 32" using unsigned_less[of "alloc_size w", where ?'a = nat] by simp
  moreover have "unat (rd_byte (w_parent w) + k) = position w + unat k"
    using assms(1,2) \<open>unat (alloc_size w) < 2 ^ 32\<close> by (simp add: unat_word_ariths position_def)
  ultimately show ?thesis
    using assms(4) nm fits un
    by (simp add: gst_byte_writer_put_buffer_def gst_byte_writer_put_buffer_inline_def Let_def low
        gst_byte_writer_ensure_free_space_inline_def gst_byte_writer_put_buffer_unchecked_def
        moved_def position_def)
qed

lemma put_buffer_truncates_size_witness:
  "\<exists>h' w'. gst_byte_writer_put_buffer grow_in_place sample_heap (Some (new_writer\<lparr>alloc_size := 16\<rparr>))
      \<lparr>gst_buffer_get_size = 0x200000000, gst_buffer_extract = (\<lambda>offset dest n m. m(dest + unat n - 1 := 1))\<rparr>
      0 0x100000004 = Done (True, h', w') \<and> heap_bytes h' (64 + 0x100000003) = 1 \<and> position w' = 4"
  using put_buffer_truncates_size[of 4 "new_writer\<lparr>alloc_size := 16\<rparr>" "0x100000004" grow_in_place sample_heap
      "\<lparr>gst_buffer_get_size = 0x200000000, gst_buffer_extract = (\<lambda>offset dest n m. m(dest + unat n - 1 := 1))\<rparr>" 0]
  by (auto simp: new_writer_def position_def cursor_address_def)

end
