(* ===== verification/Bit_Reader.thy ===== *)
theory Bit_Reader
  imports Byte_Writer
begin

text \<open>
  \<open>gst/base/gstbitreader.h\<close>: a cursor that takes up to 64 bits at a time from a block of memory,
  the most significant bit of each byte first.  The accessor macros are instantiated for results
  of 8, 16, 32 and 64 bits; the bodies here are polymorphic in the width of the result.
\<close>

section \<open>The reader\<close>

record gst_bit_reader =
  br_data :: nat
  br_size :: guint32
  br_byte :: guint32
  br_bit :: guint32

definition GST_BIT_READER_INIT :: "nat \<Rightarrow> guint32 \<Rightarrow> gst_bit_reader" where
  "GST_BIT_READER_INIT data n = \<lparr>br_data = data, br_size = n, br_byte = 0, br_bit = 0\<rparr>"

definition gst_bit_reader_skip_unchecked :: "guint32 \<Rightarrow> gst_bit_reader \<Rightarrow> gst_bit_reader" where
  "gst_bit_reader_skip_unchecked nbits reader =
     (let b = br_bit reader + nbits
      in reader\<lparr>br_byte := br_byte reader + b div 8, br_bit := b mod 8\<rparr>)"

definition gst_bit_reader_skip_to_byte_unchecked :: "gst_bit_reader \<Rightarrow> gst_bit_reader" where
  "gst_bit_reader_skip_to_byte_unchecked reader =
     (if br_bit reader \<noteq> 0 then reader\<lparr>br_bit := 0, br_byte := br_byte reader + 1\<rparr> else reader)"

text \<open>
  The loop takes what is left of the current byte, or as many bits as are still wanted.  With a bit
  position of 8 or more it would take nothing for ever, or shift by a negative amount: \<open>None\<close>.
\<close>

function bit_peek_loop ::
  "mem \<Rightarrow> nat \<Rightarrow> guint32 \<Rightarrow> nat \<Rightarrow> nat \<Rightarrow> 'a::len word \<Rightarrow> 'a word option" where
  "bit_peek_loop m data byte bitpos nbits ret =
     (if nbits = 0 then Some ret
      else if 8 \<le> bitpos then None
      else
        let toread = min nbits (8 - bitpos);
          ret = push_bit toread ret OR
            ucast (drop_bit (8 - toread - bitpos) (m (data + unat byte) AND drop_bit bitpos 0xff));
          bitpos = bitpos + toread
        in if 8 \<le> bitpos then bit_peek_loop m data (byte + 1) 0 (nbits - toread) ret
           else bit_peek_loop m data byte bitpos (nbits - toread) ret)"
  by pat_completeness auto
termination
  by (relation "measure (\<lambda>(m, data, byte, bitpos, nbits, ret). nbits)") auto

declare bit_peek_loop.simps [simp del]

definition peek_bits_unchecked :: "mem \<Rightarrow> gst_bit_reader \<Rightarrow> guint32 \<Rightarrow> 'a::len word option" where
  "peek_bits_unchecked m reader nbits =
     bit_peek_loop m (br_data reader) (br_byte reader) (unat (br_bit reader)) (unat nbits) 0"

definition get_bits_unchecked ::
  "mem \<Rightarrow> gst_bit_reader \<Rightarrow> guint32 \<Rightarrow> ('a::len word \<times> gst_bit_reader) option" where
  "get_bits_unchecked m reader nbits =
     map_option (\<lambda>ret. (ret, gst_bit_reader_skip_unchecked nbits reader))
       (peek_bits_unchecked m reader nbits)"

definition gst_bit_reader_peek_bits_uint8_unchecked ::
  "mem \<Rightarrow> gst_bit_reader \<Rightarrow> guint32 \<Rightarrow> guint8 option" where
  "gst_bit_reader_peek_bits_uint8_unchecked = peek_bits_unchecked"

definition gst_bit_reader_get_bits_uint8_unchecked ::
  "mem \<Rightarrow> gst_bit_reader \<Rightarrow> guint32 \<Rightarrow> (guint8 \<times> gst_bit_reader) option" where
  "gst_bit_reader_get_bits_uint8_unchecked = get_bits_unchecked"

definition gst_bit_reader_peek_bits_uint16_unchecked ::
  "mem \<Rightarrow> gst_bit_reader \<Rightarrow> guint32 \<Rightarrow> guint16 option" where
  "gst_bit_reader_peek_bits_uint16_unchecked = peek_bits_unchecked"

definition gst_bit_reader_get_bits_uint16_unchecked ::
  "mem \<Rightarrow> gst_bit_reader \<Rightarrow> guint32 \<Rightarrow> (guint16 \<times> gst_bit_reader) option" where
  "gst_bit_reader_get_bits_uint16_unchecked = get_bits_unchecked"

definition gst_bit_reader_peek_bits_uint32_unchecked ::
  "mem \<Rightarrow> gst_bit_reader \<Rightarrow> guint32 \<Rightarrow> guint32 option" where
  "gst_bit_reader_peek_bits_uint32_unchecked = peek_bits_unchecked"

definition gst_bit_reader_get_bits_uint32_unchecked ::
  "mem \<Rightarrow> gst_bit_reader \<Rightarrow> guint32 \<Rightarrow> (guint32 \<times> gst_bit_reader) option" where
  "gst_bit_reader_get_bits_uint32_unchecked = get_bits_unchecked"

definition gst_bit_reader_peek_bits_uint64_unchecked ::
  "mem \<Rightarrow> gst_bit_reader \<Rightarrow> guint32 \<Rightarrow> guint64 option" where
  "gst_bit_reader_peek_bits_uint64_unchecked = peek_bits_unchecked"

definition gst_bit_reader_get_bits_uint64_unchecked ::
  "mem \<Rightarrow> gst_bit_reader \<Rightarrow> guint32 \<Rightarrow> (guint64 \<times> gst_bit_reader) option" where
  "gst_bit_reader_get_bits_uint64_unchecked = get_bits_unchecked"

definition gst_bit_reader_get_size_unchecked :: "gst_bit_reader \<Rightarrow> guint32" where
  "gst_bit_reader_get_size_unchecked reader = br_size reader * 8"

definition gst_bit_reader_get_pos_unchecked :: "gst_bit_reader \<Rightarrow> guint32" where
  "gst_bit_reader_get_pos_unchecked reader = br_byte reader * 8 + br_bit reader"

definition gst_bit_reader_get_remaining_unchecked :: "gst_bit_reader \<Rightarrow> guint32" where
  "gst_bit_reader_get_remaining_unchecked reader =
     br_size reader * 8 - (br_byte reader * 8 + br_bit reader)"

section \<open>Checked accessors\<close>

definition gst_bit_reader_get_size_inline :: "gst_bit_reader option \<Rightarrow> guint32 outcome" where
  "gst_bit_reader_get_size_inline reader =
     (case reader of None \<Rightarrow> CriticalReturn | Some r \<Rightarrow> Done (gst_bit_reader_get_size_unchecked r))"

definition gst_bit_reader_get_pos_inline :: "gst_bit_reader option \<Rightarrow> guint32 outcome" where
  "gst_bit_reader_get_pos_inline reader =
     (case reader of None \<Rightarrow> CriticalReturn | Some r \<Rightarrow> Done (gst_bit_reader_get_pos_unchecked r))"

definition gst_bit_reader_get_remaining_inline :: "gst_bit_reader option \<Rightarrow> guint32 outcome" where
  "gst_bit_reader_get_remaining_inline reader =
     (case reader of None \<Rightarrow> CriticalReturn
      | Some r \<Rightarrow> Done (gst_bit_reader_get_remaining_unchecked r))"

definition gst_bit_reader_skip_inline ::
  "gst_bit_reader option \<Rightarrow> guint32 \<Rightarrow> (bool \<times> gst_bit_reader) outcome" where
  "gst_bit_reader_skip_inline reader nbits =
     (case reader of None \<Rightarrow> CriticalReturn
      | Some r \<Rightarrow>
          if gst_bit_reader_get_remaining_unchecked r < nbits then Done (False, r)
          else Done (True, gst_bit_reader_skip_unchecked nbits r))"

definition gst_bit_reader_skip_to_byte_inline ::
  "gst_bit_reader option \<Rightarrow> (bool \<times> gst_bit_reader) outcome" where
  "gst_bit_reader_skip_to_byte_inline reader =
     (case reader of None \<Rightarrow> CriticalReturn
      | Some r \<Rightarrow>
          if br_size r < br_byte r then Done (False, r)
          else Done (True, gst_bit_reader_skip_to_byte_unchecked r))"

text \<open>
  The body of the checked accessors, over the unchecked ones; \<open>val\<close> is whether the result pointer
  is there.
\<close>

definition get_bits_inline ::
  "(mem \<Rightarrow> gst_bit_reader \<Rightarrow> guint32 \<Rightarrow> ('a::len word \<times> gst_bit_reader) option) \<Rightarrow>
     mem \<Rightarrow> gst_bit_reader option \<Rightarrow> bool \<Rightarrow> guint32 \<Rightarrow> ('a word option \<times> gst_bit_reader) outcome" where
  "get_bits_inline unchecked m reader val nbits =
     (case reader of None \<Rightarrow> CriticalReturn
      | Some r \<Rightarrow>
          if \<not> val \<or> LENGTH('a) < unat nbits then CriticalReturn
          else if gst_bit_reader_get_remaining_unchecked r < nbits then Done (None, r)
          else (case unchecked m r nbits of
                  None \<Rightarrow> UndefinedBehaviour
                | Some (v, r) \<Rightarrow> Done (Some v, r)))"

definition peek_bits_inline ::
  "(mem \<Rightarrow> gst_bit_reader \<Rightarrow> guint32 \<Rightarrow> 'a::len word option) \<Rightarrow>
     mem \<Rightarrow> gst_bit_reader option \<Rightarrow> bool \<Rightarrow> guint32 \<Rightarrow> 'a word option outcome" where
  "peek_bits_inline unchecked m reader val nbits =
     (case reader of None \<Rightarrow> CriticalReturn
      | Some r \<Rightarrow>
          if \<not> val \<or> LENGTH('a) < unat nbits then CriticalReturn
          else if gst_bit_reader_get_remaining_unchecked r < nbits then Done None
          else (case unchecked m r nbits of
                  None \<Rightarrow> UndefinedBehaviour
                | Some v \<Rightarrow> Done (Some v)))"

definition gst_bit_reader_get_bits_uint8_inline ::
  "mem \<Rightarrow> gst_bit_reader option \<Rightarrow> bool \<Rightarrow> guint32 \<Rightarrow> (guint8 option \<times> gst_bit_reader) outcome" where
  "gst_bit_reader_get_bits_uint8_inline =
     get_bits_inline gst_bit_reader_get_bits_uint8_unchecked"

definition gst_bit_reader_peek_bits_uint8_inline ::
  "mem \<Rightarrow> gst_bit_reader option \<Rightarrow> bool \<Rightarrow> guint32 \<Rightarrow> guint8 option outcome" where
  "gst_bit_reader_peek_bits_uint8_inline =
     peek_bits_inline gst_bit_reader_peek_bits_uint8_unchecked"

definition gst_bit_reader_get_bits_uint16_inline ::
  "mem \<Rightarrow> gst_bit_reader option \<Rightarrow> bool \<Rightarrow> guint32 \<Rightarrow> (guint16 option \<times> gst_bit_reader) outcome" where
  "gst_bit_reader_get_bits_uint16_inline =
     get_bits_inline gst_bit_reader_get_bits_uint16_unchecked"

definition gst_bit_reader_peek_bits_uint16_inline ::
  "mem \<Rightarrow> gst_bit_reader option \<Rightarrow> bool \<Rightarrow> guint32 \<Rightarrow> guint16 option outcome" where
  "gst_bit_reader_peek_bits_uint16_inline =
     peek_bits_inline gst_bit_reader_peek_bits_uint16_unchecked"

definition gst_bit_reader_get_bits_uint32_inline ::
  "mem \<Rightarrow> gst_bit_reader option \<Rightarrow> bool \<Rightarrow> guint32 \<Rightarrow> (guint32 option \<times> gst_bit_reader) outcome" where
  "gst_bit_reader_get_bits_uint32_inline =
     get_bits_inline gst_bit_reader_get_bits_uint32_unchecked"

definition gst_bit_reader_peek_bits_uint32_inline ::
  "mem \<Rightarrow> gst_bit_reader option \<Rightarrow> bool \<Rightarrow> guint32 \<Rightarrow> guint32 option outcome" where
  "gst_bit_reader_peek_bits_uint32_inline =
     peek_bits_inline gst_bit_reader_peek_bits_uint32_unchecked"

definition gst_bit_reader_get_bits_uint64_inline ::
  "mem \<Rightarrow> gst_bit_reader option \<Rightarrow> bool \<Rightarrow> guint32 \<Rightarrow> (guint64 option \<times> gst_bit_reader) outcome" where
  "gst_bit_reader_get_bits_uint64_inline =
     get_bits_inline gst_bit_reader_get_bits_uint64_unchecked"

definition gst_bit_reader_peek_bits_uint64_inline ::
  "mem \<Rightarrow> gst_bit_reader option \<Rightarrow> bool \<Rightarrow> guint32 \<Rightarrow> guint64 option outcome" where
  "gst_bit_reader_peek_bits_uint64_inline =
     peek_bits_inline gst_bit_reader_peek_bits_uint64_unchecked"

definition gst_bit_reader_get_bits_uint8 ::
  "mem \<Rightarrow> gst_bit_reader option \<Rightarrow> bool \<Rightarrow> guint32 \<Rightarrow> (guint8 option \<times> gst_bit_reader) outcome" where
  "gst_bit_reader_get_bits_uint8 = gst_bit_reader_get_bits_uint8_inline"

definition gst_bit_reader_get_bits_uint16 ::
  "mem \<Rightarrow> gst_bit_reader option \<Rightarrow> bool \<Rightarrow> guint32 \<Rightarrow> (guint16 option \<times> gst_bit_reader) outcome" where
  "gst_bit_reader_get_bits_uint16 = gst_bit_reader_get_bits_uint16_inline"

definition gst_bit_reader_get_bits_uint32 ::
  "mem \<Rightarrow> gst_bit_reader option \<Rightarrow> bool \<Rightarrow> guint32 \<Rightarrow> (guint32 option \<times> gst_bit_reader) outcome" where
  "gst_bit_reader_get_bits_uint32 = gst_bit_reader_get_bits_uint32_inline"

definition gst_bit_reader_get_bits_uint64 ::
  "mem \<Rightarrow> gst_bit_reader option \<Rightarrow> bool \<Rightarrow> guint32 \<Rightarrow> (guint64 option \<times> gst_bit_reader) outcome" where
  "gst_bit_reader_get_bits_uint64 = gst_bit_reader_get_bits_uint64_inline"

definition gst_bit_reader_peek_bits_uint8 ::
  "mem \<Rightarrow> gst_bit_reader option \<Rightarrow> bool \<Rightarrow> guint32 \<Rightarrow> guint8 option outcome" where
  "gst_bit_reader_peek_bits_uint8 = gst_bit_reader_peek_bits_uint8_inline"

definition gst_bit_reader_peek_bits_uint16 ::
  "mem \<Rightarrow> gst_bit_reader option \<Rightarrow> bool \<Rightarrow> guint32 \<Rightarrow> guint16 option outcome" where
  "gst_bit_reader_peek_bits_uint16 = gst_bit_reader_peek_bits_uint16_inline"

definition gst_bit_reader_peek_bits_uint32 ::
  "mem \<Rightarrow> gst_bit_reader option \<Rightarrow> bool \<Rightarrow> guint32 \<Rightarrow> guint32 option outcome" where
  "gst_bit_reader_peek_bits_uint32 = gst_bit_reader_peek_bits_uint32_inline"

definition gst_bit_reader_peek_bits_uint64 ::
  "mem \<Rightarrow> gst_bit_reader option \<Rightarrow> bool \<Rightarrow> guint32 \<Rightarrow> guint64 option outcome" where
  "gst_bit_reader_peek_bits_uint64 = gst_bit_reader_peek_bits_uint64_inline"

definition gst_bit_reader_get_size :: "gst_bit_reader option \<Rightarrow> guint32 outcome" where
  "gst_bit_reader_get_size = gst_bit_reader_get_size_inline"

definition gst_bit_reader_get_pos :: "gst_bit_reader option \<Rightarrow> guint32 outcome" where
  "gst_bit_reader_get_pos = gst_bit_reader_get_pos_inline"

definition gst_bit_reader_get_remaining :: "gst_bit_reader option \<Rightarrow> guint32 outcome" where
  "gst_bit_reader_get_remaining = gst_bit_reader_get_remaining_inline"

definition gst_bit_reader_skip :: "gst_bit_reader option \<Rightarrow> guint32 \<Rightarrow> (bool \<times> gst_bit_reader) outcome" where
  "gst_bit_reader_skip = gst_bit_reader_skip_inline"

definition gst_bit_reader_skip_to_byte :: "gst_bit_reader option \<Rightarrow> (bool \<times> gst_bit_reader) outcome" where
  "gst_bit_reader_skip_to_byte = gst_bit_reader_skip_to_byte_inline"

lemmas bit_reader_api_defs =
  gst_bit_reader_get_size_def gst_bit_reader_get_size_inline_def gst_bit_reader_get_size_unchecked_def
  gst_bit_reader_get_pos_def gst_bit_reader_get_pos_inline_def gst_bit_reader_get_pos_unchecked_def
  gst_bit_reader_get_remaining_def gst_bit_reader_get_remaining_inline_def
  gst_bit_reader_skip_def gst_bit_reader_skip_inline_def
  gst_bit_reader_skip_to_byte_def gst_bit_reader_skip_to_byte_inline_def

lemmas bit_accessor_defs =
  gst_bit_reader_get_bits_uint8_def gst_bit_reader_get_bits_uint8_inline_def gst_bit_reader_get_bits_uint8_unchecked_def
  gst_bit_reader_get_bits_uint16_def gst_bit_reader_get_bits_uint16_inline_def gst_bit_reader_get_bits_uint16_unchecked_def
  gst_bit_reader_get_bits_uint32_def gst_bit_reader_get_bits_uint32_inline_def gst_bit_reader_get_bits_uint32_unchecked_def
  gst_bit_reader_get_bits_uint64_def gst_bit_reader_get_bits_uint64_inline_def gst_bit_reader_get_bits_uint64_unchecked_def
  gst_bit_reader_peek_bits_uint8_def gst_bit_reader_peek_bits_uint8_inline_def gst_bit_reader_peek_bits_uint8_unchecked_def
  gst_bit_reader_peek_bits_uint16_def gst_bit_reader_peek_bits_uint16_inline_def gst_bit_reader_peek_bits_uint16_unchecked_def
  gst_bit_reader_peek_bits_uint32_def gst_bit_reader_peek_bits_uint32_inline_def gst_bit_reader_peek_bits_uint32_unchecked_def
  gst_bit_reader_peek_bits_uint64_def gst_bit_reader_peek_bits_uint64_inline_def gst_bit_reader_peek_bits_uint64_unchecked_def

section \<open>The stream of bits\<close>

text \<open>Bit \<open>k\<close> of memory, counting the most significant bit of each byte first.\<close>

definition mem_bit :: "mem \<Rightarrow> nat \<Rightarrow> bool" where
  "mem_bit m k = bit (m (k div 8)) (7 - k mod 8)"

definition mem_bits :: "mem \<Rightarrow> nat \<Rightarrow> nat \<Rightarrow> bool list" where
  "mem_bits m k n = map (\<lambda>i. mem_bit m (k + i)) [0..<n]"

text \<open>The low \<open>n\<close> bits of a word, the most significant first.\<close>

definition value_bits :: "nat \<Rightarrow> 'a::len word \<Rightarrow> bool list" where
  "value_bits n v = map (\<lambda>i. bit v (n - 1 - i)) [0..<n]"

lemma length_mem_bits [simp]: "length (mem_bits m k n) = n"
  by (simp add: mem_bits_def)

lemma length_value_bits [simp]: "length (value_bits n v) = n"
  by (simp add: value_bits_def)

lemma mem_bits_append: "mem_bits m k (a + b) = mem_bits m k a @ mem_bits m (k + a) b"
  by (rule nth_equalityI) (auto simp: mem_bits_def nth_append add.assoc)

lemma mem_bits_cong: "(\<And>i. i < n \<Longrightarrow> mem_bit m (k + i) = mem_bit m' (k' + i)) \<Longrightarrow>
    mem_bits m k n = mem_bits m' k' n"
  by (simp add: mem_bits_def)

lemma value_bits_eq_iff:
  "value_bits n v = value_bits n (w :: 'a::len word) \<longleftrightarrow> take_bit n v = take_bit n w"
proof -
  have "value_bits n v = value_bits n w \<longleftrightarrow> (\<forall>i<n. bit v (n - 1 - i) = bit w (n - 1 - i))"
    by (auto simp: value_bits_def list_eq_iff_nth_eq)
  also have "\<dots> \<longleftrightarrow> (\<forall>i<n. bit v i = bit w i)"
  proof safe
    fix i assume "\<forall>i<n. bit v (n - 1 - i) = bit w (n - 1 - i)" "i < n"
    from this(1)[rule_format, of "n - 1 - i"] this(2)
    show "bit v i \<Longrightarrow> bit w i" "bit w i \<Longrightarrow> bit v i" by simp_all
  qed auto
  also have "\<dots> \<longleftrightarrow> take_bit n v = take_bit n w"
    by (auto simp: bit_eq_iff bit_take_bit_iff dest: bit_imp_le_length)
  finally show ?thesis .
qed

text \<open>One turn of the loop appends the bits it takes.\<close>

lemma bit_chunk:
  assumes "bitpos < 8" "t \<le> 8 - bitpos" "0 < t"
  shows "bit (drop_bit (8 - t - bitpos) (x AND drop_bit bitpos 0xff) :: guint8) j \<longleftrightarrow>
    j < t \<and> bit x (7 - (bitpos + t - 1 - j))"
proof -
  have m: "(0xff :: guint8) = mask 8" by (simp add: mask_eq_exp_minus_1)
  show ?thesis
  proof (cases "j < t")
    case True
    then have "8 - t - bitpos + j = 7 - (bitpos + t - 1 - j)" using assms by auto
    then show ?thesis using True assms unfolding m by (auto simp: bit_simps)
  next
    case False
    then show ?thesis using assms unfolding m by (auto simp: bit_simps)
  qed
qed

lemma bit_peek_loop_spec:
  fixes ret :: "'a::len word"
  assumes "bitpos < 8" "unat byte + (bitpos + nbits) div 8 < 2 ^ 32"
  shows "\<exists>v. bit_peek_loop m data byte bitpos nbits ret = Some v \<and>
    (\<forall>i<LENGTH('a). bit v i =
       (if i < nbits then mem_bit m (8 * (data + unat byte) + bitpos + nbits - 1 - i) else bit ret (i - nbits)))"
  using assms
proof (induction m data byte bitpos nbits ret rule: bit_peek_loop.induct)
  case (1 m data byte bitpos nbits ret)
  show ?case
  proof (cases "nbits = 0")
    case True
    then show ?thesis by (simp add: bit_peek_loop.simps)
  next
    case False
    define t where "t = min nbits (8 - bitpos)"
    define r where "r = push_bit t ret OR
      ucast (drop_bit (8 - t - bitpos) (m (data + unat byte) AND drop_bit bitpos 0xff))"
    define P where "P = 8 * (data + unat byte) + bitpos"
    have t: "0 < t" "t \<le> nbits" "t \<le> 8 - bitpos" using False 1(3) by (auto simp: t_def)
    have r: "bit r i = (if i < t then mem_bit m (P + t - 1 - i) else bit ret (i - t))"
      if "i < LENGTH('a)" for i
    proof -
      have pos: "(P + t - 1 - i) div 8 = data + unat byte" "(P + t - 1 - i) mod 8 = bitpos + t - 1 - i" if "i < t"
      proof -
        have e: "P + t - 1 - i = 8 * (data + unat byte) + (bitpos + t - 1 - i)" using that t by (simp add: P_def)
        have "bitpos + t - 1 - i < 8" using t 1(3) by auto
        then show "(P + t - 1 - i) div 8 = data + unat byte" "(P + t - 1 - i) mod 8 = bitpos + t - 1 - i"
          unfolding e by (simp_all only: mod_mult_self4 div_mult_self4) simp_all
      qed
      show ?thesis
        using that bit_chunk[OF 1(3) t(3,1), of "m (data + unat byte)"] pos
        by (auto simp: r_def bit_simps mem_bit_def)
    qed
    have join: "(\<forall>i<LENGTH('a). bit v i = (if i < nbits then mem_bit m (P + nbits - 1 - i) else bit ret (i - nbits)))"
      if "\<forall>i<LENGTH('a). bit v i =
         (if i < nbits - t then mem_bit m (P + t + (nbits - t) - 1 - i) else bit r (i - (nbits - t)))"
      for v :: "'a word"
    proof (intro allI impI)
      fix i assume i: "i < LENGTH('a)"
      have "bit v i = (if i < nbits - t then mem_bit m (P + nbits - 1 - i) else bit r (i - (nbits - t)))"
        using that i t(2) by simp
      moreover have "bit r (i - (nbits - t)) =
          (if i < nbits then mem_bit m (P + nbits - 1 - i) else bit ret (i - nbits))" if "\<not> i < nbits - t"
      proof -
        have "P + t - 1 - (i - (nbits - t)) = P + nbits - 1 - i" using that t by simp
        moreover have "i - (nbits - t) < t \<longleftrightarrow> i < nbits" using that t by auto
        ultimately show ?thesis using r[of "i - (nbits - t)"] i that t by (simp add: less_imp_diff_less)
      qed
      ultimately show "bit v i = (if i < nbits then mem_bit m (P + nbits - 1 - i) else bit ret (i - nbits))"
        using t by auto
    qed
    have unfold: "bit_peek_loop m data byte bitpos nbits ret =
      (if 8 \<le> bitpos + t then bit_peek_loop m data (byte + 1) 0 (nbits - t) r
       else bit_peek_loop m data byte (bitpos + t) (nbits - t) r)"
      using False 1(3) by (subst bit_peek_loop.simps) (simp add: Let_def t_def r_def)
    show ?thesis
    proof (cases "8 \<le> bitpos + t")
      case wrap: True
      then have t8: "bitpos + t = 8" using t 1(3) by simp
      have small: "unat byte + (bitpos + nbits) div 8 = unat byte + 1 + (nbits - t) div 8"
      proof -
        have "bitpos + nbits = 8 + (nbits - t)" using t8 t by linarith
        then show ?thesis by simp
      qed
      then have b: "unat (byte + 1) = unat byte + 1" using 1(4) by (simp add: unat_word_ariths)
      have Pt: "8 * (data + unat (byte + 1)) + 0 = P + t" using t8 b by (simp add: P_def)
      have "\<exists>v. bit_peek_loop m data (byte + 1) 0 (nbits - t) r = Some v \<and>
          (\<forall>i<LENGTH('a). bit v i = (if i < nbits - t
            then mem_bit m (8 * (data + unat (byte + 1)) + 0 + (nbits - t) - 1 - i)
            else bit r (i - (nbits - t))))"
        by (rule 1(1)[OF False _ t_def r_def refl]) (use wrap 1(3,4) small b in simp_all)
      then obtain v where v: "bit_peek_loop m data (byte + 1) 0 (nbits - t) r = Some v"
        "\<forall>i<LENGTH('a). bit v i = (if i < nbits - t
            then mem_bit m (P + t + (nbits - t) - 1 - i) else bit r (i - (nbits - t)))"
        unfolding Pt by blast
      have "bit_peek_loop m data byte bitpos nbits ret = Some v" using v(1) wrap by (simp add: unfold)
      with join[OF v(2)] show ?thesis unfolding P_def by blast
    next
      case stay: False
      have Pt: "8 * (data + unat byte) + (bitpos + t) = P + t" by (simp add: P_def)
      have "\<exists>v. bit_peek_loop m data byte (bitpos + t) (nbits - t) r = Some v \<and>
          (\<forall>i<LENGTH('a). bit v i = (if i < nbits - t
            then mem_bit m (8 * (data + unat byte) + (bitpos + t) + (nbits - t) - 1 - i)
            else bit r (i - (nbits - t))))"
        by (rule 1(2)[OF False _ t_def r_def refl]) (use stay 1(3,4) t in simp_all)
      then obtain v where v: "bit_peek_loop m data byte (bitpos + t) (nbits - t) r = Some v"
        "\<forall>i<LENGTH('a). bit v i = (if i < nbits - t
            then mem_bit m (P + t + (nbits - t) - 1 - i) else bit r (i - (nbits - t)))"
        unfolding Pt by blast
      have "bit_peek_loop m data byte bitpos nbits ret = Some v" using v(1) stay by (simp add: unfold)
      with join[OF v(2)] show ?thesis unfolding P_def by blast
    qed
  qed
qed

section \<open>What an accessor does\<close>

text \<open>
  A reader is well formed while its position is within its block.  The position and the size are
  counted in bits in 32-bit integers, so blocks of \<open>2 ^ 29\<close> bytes or more are left out here.
\<close>

definition bit_reader_ok :: "gst_bit_reader \<Rightarrow> bool" where
  "bit_reader_ok r \<longleftrightarrow> unat (br_size r) < 2 ^ 29 \<and> unat (br_bit r) < 8 \<and>
     8 * unat (br_byte r) + unat (br_bit r) \<le> 8 * unat (br_size r)"

definition bit_pos :: "gst_bit_reader \<Rightarrow> nat" where
  "bit_pos r = 8 * unat (br_byte r) + unat (br_bit r)"

definition bits_left :: "gst_bit_reader \<Rightarrow> nat" where
  "bits_left r = 8 * unat (br_size r) - bit_pos r"

lemma unat_times8: "unat (w :: guint32) < 2 ^ 29 \<Longrightarrow> unat (w * 8) = 8 * unat w"
  by (simp add: unat_word_ariths)

lemma bit_remaining:
  assumes "bit_reader_ok r"
  shows "unat (gst_bit_reader_get_remaining_unchecked r) = bits_left r"
    and "unat (gst_bit_reader_get_pos_unchecked r) = bit_pos r"
    and "unat (gst_bit_reader_get_size_unchecked r) = 8 * unat (br_size r)"
proof -
  have small: "unat (br_byte r) < 2 ^ 29" using assms by (auto simp: bit_reader_ok_def)
  have pos: "unat (br_byte r * 8 + br_bit r) = bit_pos r"
    using assms small by (simp add: unat_word_ariths bit_reader_ok_def bit_pos_def)
  have sz: "unat (br_size r * 8) = 8 * unat (br_size r)"
    using assms by (simp add: unat_times8 bit_reader_ok_def)
  have "br_byte r * 8 + br_bit r \<le> br_size r * 8"
    using assms by (simp add: word_le_nat_alt pos sz bit_pos_def bit_reader_ok_def)
  then show "unat (gst_bit_reader_get_remaining_unchecked r) = bits_left r"
    by (simp add: gst_bit_reader_get_remaining_unchecked_def unat_sub pos sz bits_left_def)
  show "unat (gst_bit_reader_get_pos_unchecked r) = bit_pos r"
    by (simp add: gst_bit_reader_get_pos_unchecked_def pos)
  show "unat (gst_bit_reader_get_size_unchecked r) = 8 * unat (br_size r)"
    by (simp add: gst_bit_reader_get_size_unchecked_def sz)
qed

lemma bit_skip:
  assumes "bit_reader_ok r" "unat n \<le> bits_left r"
  shows "bit_reader_ok (gst_bit_reader_skip_unchecked n r)"
    and "bit_pos (gst_bit_reader_skip_unchecked n r) = bit_pos r + unat n"
    and "br_data (gst_bit_reader_skip_unchecked n r) = br_data r"
    and "br_size (gst_bit_reader_skip_unchecked n r) = br_size r"
proof -
  let ?b = "br_bit r + n"
  have le: "bit_pos r + unat n \<le> 8 * unat (br_size r)"
    using assms by (auto simp: bits_left_def bit_reader_ok_def bit_pos_def)
  have b: "unat ?b = unat (br_bit r) + unat n"
    using le assms(1) by (simp add: unat_word_ariths bit_pos_def bit_reader_ok_def)
  have d: "unat (?b div 8) = (unat (br_bit r) + unat n) div 8"
    "unat (?b mod 8) = (unat (br_bit r) + unat n) mod 8"
    by (simp_all add: unat_div unat_mod b)
  have "unat (br_byte r) + (unat (br_bit r) + unat n) div 8 < 2 ^ 32"
    using le assms(1) div_le_dividend[of "unat (br_bit r) + unat n" 8]
    by (auto simp: bit_pos_def bit_reader_ok_def)
  then have y: "unat (br_byte r + ?b div 8) = unat (br_byte r) + (unat (br_bit r) + unat n) div 8"
    using d(1) by (simp add: unat_word_ariths(1)[of "br_byte r"])
  have "bit_pos (gst_bit_reader_skip_unchecked n r) = 8 * unat (br_byte r + ?b div 8) + unat (?b mod 8)"
    by (simp add: bit_pos_def gst_bit_reader_skip_unchecked_def Let_def)
  also have "\<dots> = bit_pos r + unat n"
    unfolding y d by (simp add: bit_pos_def distrib_left)
  finally show pos: "bit_pos (gst_bit_reader_skip_unchecked n r) = bit_pos r + unat n" .
  have "unat (br_bit (gst_bit_reader_skip_unchecked n r)) < 8"
    by (simp add: gst_bit_reader_skip_unchecked_def Let_def d)
  with le assms(1) pos show "bit_reader_ok (gst_bit_reader_skip_unchecked n r)"
    by (simp add: bit_reader_ok_def bit_pos_def[of "gst_bit_reader_skip_unchecked n r", symmetric])
      (simp add: gst_bit_reader_skip_unchecked_def Let_def)
  show "br_data (gst_bit_reader_skip_unchecked n r) = br_data r"
    "br_size (gst_bit_reader_skip_unchecked n r) = br_size r"
    by (simp_all add: gst_bit_reader_skip_unchecked_def Let_def)
qed

text \<open>The next \<open>n\<close> bits of the block.\<close>

definition next_bits :: "mem \<Rightarrow> gst_bit_reader \<Rightarrow> nat \<Rightarrow> bool list" where
  "next_bits m r n = mem_bits m (8 * br_data r + bit_pos r) n"

lemma peek_bits_value:
  assumes "bit_reader_ok r" "unat n \<le> bits_left r" "unat n \<le> LENGTH('a::len)"
  obtains v where "peek_bits_unchecked m r n = Some (v :: 'a word)"
    "value_bits (unat n) v = next_bits m r (unat n)" "take_bit (unat n) v = v"
proof -
  have "unat (br_byte r) + (unat (br_bit r) + unat n) div 8 < 2 ^ 32"
    using assms(1,2) by (auto simp: bits_left_def bit_reader_ok_def bit_pos_def)
  then obtain v :: "'a word" where v: "peek_bits_unchecked m r n = Some v"
    "\<forall>i<LENGTH('a). bit v i = (if i < unat n
       then mem_bit m (8 * (br_data r + unat (br_byte r)) + unat (br_bit r) + unat n - 1 - i)
       else False)"
    using bit_peek_loop_spec[of "unat (br_bit r)" "br_byte r" "unat n" m "br_data r" "0 :: 'a word"] assms(1)
    by (auto simp: peek_bits_unchecked_def bit_reader_ok_def)
  have "value_bits (unat n) v = next_bits m r (unat n)"
  proof (rule nth_equalityI)
    fix i assume "i < length (value_bits (unat n) v)"
    then have i: "i < unat n" by simp
    then have j: "unat n - 1 - i < LENGTH('a)" using assms(3) by simp
    have "8 * (br_data r + unat (br_byte r)) + unat (br_bit r) + unat n - 1 - (unat n - 1 - i)
        = 8 * br_data r + bit_pos r + i"
      using i by (simp add: bit_pos_def)
    then show "value_bits (unat n) v ! i = next_bits m r (unat n) ! i"
      using i v(2)[rule_format, OF j] by (simp add: value_bits_def next_bits_def mem_bits_def bit_pos_def add.assoc)
  qed (simp add: next_bits_def)
  moreover have "take_bit (unat n) v = v"
    by (rule bit_word_eqI) (auto simp: bit_take_bit_iff v(2))
  ultimately show thesis using v(1) that by blast
qed

text \<open>The accessor for results of each width, on results as words of 64 bits.\<close>

datatype bit_width = W8 | W16 | W32 | W64

primrec width :: "bit_width \<Rightarrow> nat" where
  "width W8 = 8" | "width W16 = 16" | "width W32 = 32" | "width W64 = 64"

primrec bits_get ::
  "bit_width \<Rightarrow> mem \<Rightarrow> gst_bit_reader option \<Rightarrow> bool \<Rightarrow> guint32 \<Rightarrow>
     (guint64 option \<times> gst_bit_reader) outcome" where
  "bits_get W8 m r val n = map_outcome (apfst (map_option ucast)) (gst_bit_reader_get_bits_uint8 m r val n)"
| "bits_get W16 m r val n = map_outcome (apfst (map_option ucast)) (gst_bit_reader_get_bits_uint16 m r val n)"
| "bits_get W32 m r val n = map_outcome (apfst (map_option ucast)) (gst_bit_reader_get_bits_uint32 m r val n)"
| "bits_get W64 m r val n = map_outcome (apfst (map_option ucast)) (gst_bit_reader_get_bits_uint64 m r val n)"

primrec bits_peek ::
  "bit_width \<Rightarrow> mem \<Rightarrow> gst_bit_reader option \<Rightarrow> bool \<Rightarrow> guint32 \<Rightarrow> guint64 option outcome" where
  "bits_peek W8 m r val n = map_outcome (map_option ucast) (gst_bit_reader_peek_bits_uint8 m r val n)"
| "bits_peek W16 m r val n = map_outcome (map_option ucast) (gst_bit_reader_peek_bits_uint16 m r val n)"
| "bits_peek W32 m r val n = map_outcome (map_option ucast) (gst_bit_reader_peek_bits_uint32 m r val n)"
| "bits_peek W64 m r val n = map_outcome (map_option ucast) (gst_bit_reader_peek_bits_uint64 m r val n)"

lemma value_bits_ucast:
  assumes "n \<le> LENGTH('a::len)" "n \<le> LENGTH('b::len)"
  shows "value_bits n (ucast v :: 'b word) = value_bits n (v :: 'a word)"
  using assms by (auto simp: value_bits_def bit_ucast_iff)

lemma take_bit_ucast:
  "take_bit n v = v \<Longrightarrow> take_bit n (ucast (v :: 'a::len word) :: 'b::len word) = ucast v"
  by (metis unsigned_take_bit_eq)

text \<open>The body of the checked accessors at any width, with its result as a 64-bit word.\<close>

lemma checked_bits:
  assumes "bit_reader_ok r" "unat n \<le> LENGTH('a)" "LENGTH('a) \<le> 64"
  shows "\<exists>v :: guint64. map_outcome (apfst (map_option ucast))
        (get_bits_inline (get_bits_unchecked :: _ \<Rightarrow> _ \<Rightarrow> _ \<Rightarrow> ('a::len word \<times> _) option) m (Some r) True n) =
      Done (if bits_left r < unat n then (None, r) else (Some v, gst_bit_reader_skip_unchecked n r)) \<and>
    map_outcome (map_option ucast)
        (peek_bits_inline (peek_bits_unchecked :: _ \<Rightarrow> _ \<Rightarrow> _ \<Rightarrow> 'a word option) m (Some r) True n) =
      Done (if bits_left r < unat n then None else Some v) \<and>
    (unat n \<le> bits_left r \<longrightarrow> value_bits (unat n) v = next_bits m r (unat n) \<and> take_bit (unat n) v = v)"
proof (cases "bits_left r < unat n")
  case True
  then show ?thesis
    using assms bit_remaining(1)[OF assms(1)]
    by (auto simp: get_bits_inline_def peek_bits_inline_def word_less_nat_alt)
next
  case False
  then have le: "unat n \<le> bits_left r" by simp
  obtain v :: "'a word" where v: "peek_bits_unchecked m r n = Some v"
    "value_bits (unat n) v = next_bits m r (unat n)" "take_bit (unat n) v = v"
    using peek_bits_value[OF assms(1) le assms(2)] by blast
  have "value_bits (unat n) (ucast v :: guint64) = next_bits m r (unat n)"
    using value_bits_ucast[of "unat n", where ?'a = 'a and ?'b = 64] assms(2,3) v(2) by simp
  then show ?thesis
    using False assms v bit_remaining(1)[OF assms(1)] take_bit_ucast[OF v(3)]
    by (intro exI[of _ "ucast v"])
      (simp add: get_bits_inline_def peek_bits_inline_def word_less_nat_alt get_bits_unchecked_def)
qed

lemma bits_get_spec:
  assumes "bit_reader_ok r" "unat n \<le> width k"
  obtains v where
    "bits_get k m (Some r) True n =
      Done (if bits_left r < unat n then (None, r) else (Some v, gst_bit_reader_skip_unchecked n r))"
    "bits_peek k m (Some r) True n = Done (if bits_left r < unat n then None else Some v)"
    "unat n \<le> bits_left r \<longrightarrow> value_bits (unat n) v = next_bits m r (unat n) \<and> take_bit (unat n) v = v"
proof -
  note body = checked_bits[OF assms(1), of n, where m = m]
  have "\<exists>v. bits_get k m (Some r) True n =
      Done (if bits_left r < unat n then (None, r) else (Some v, gst_bit_reader_skip_unchecked n r)) \<and>
    bits_peek k m (Some r) True n = Done (if bits_left r < unat n then None else Some v) \<and>
    (unat n \<le> bits_left r \<longrightarrow> value_bits (unat n) v = next_bits m r (unat n) \<and> take_bit (unat n) v = v)"
    using assms(2) body[where ?'a = 8] body[where ?'a = 16] body[where ?'a = 32] body[where ?'a = 64]
    by (cases k) (simp_all add: bit_accessor_defs)
  then show thesis using that by blast
qed

section \<open>Properties\<close>

text \<open>
  C12. Reading \<open>n\<close> bits, \<open>n\<close> at most the width of the result: the loop ends, and the result's low \<open>n\<close>
  bits are the next \<open>n\<close> bits of the block, the first of them most significant, the others zero;
  the reader moves by \<open>n\<close> bits, a peek gives the same without moving, and with fewer than \<open>n\<close>
  bits left the call fails and the reader stays.
\<close>

theorem bits_read_in_order:
  assumes "bit_reader_ok r" "unat n \<le> width k"
  shows "if bits_left r < unat n
    then bits_get k m (Some r) True n = Done (None, r) \<and> bits_peek k m (Some r) True n = Done None
    else \<exists>v r'. bits_get k m (Some r) True n = Done (Some v, r') \<and> bits_peek k m (Some r) True n = Done (Some v) \<and>
      value_bits (unat n) v = next_bits m r (unat n) \<and> take_bit (unat n) v = v \<and>
      bit_reader_ok r' \<and> bit_pos r' = bit_pos r + unat n \<and> br_data r' = br_data r \<and> br_size r' = br_size r"
proof (rule bits_get_spec[OF assms, of m])
  fix v
  assume v: "bits_get k m (Some r) True n =
      Done (if bits_left r < unat n then (None, r) else (Some v, gst_bit_reader_skip_unchecked n r))"
    "bits_peek k m (Some r) True n = Done (if bits_left r < unat n then None else Some v)"
    "unat n \<le> bits_left r \<longrightarrow> value_bits (unat n) v = next_bits m r (unat n) \<and> take_bit (unat n) v = v"
  show ?thesis
  proof (cases "bits_left r < unat n")
    case False
    with v bit_skip[OF assms(1), of n] show ?thesis by auto
  qed (use v in simp)
qed

text \<open>
  Reading bits never depends on memory outside the reader's block.
\<close>

theorem bit_reader_stays_inside:
  assumes "bit_reader_ok r" "unat n \<le> width k"
    and "\<And>a. br_data r \<le> a \<Longrightarrow> a < br_data r + unat (br_size r) \<Longrightarrow> m a = m' a"
  shows "bits_get k m (Some r) True n = bits_get k m' (Some r) True n"
proof (cases "bits_left r < unat n")
  case True
  obtain v where "bits_get k m (Some r) True n =
      Done (if bits_left r < unat n then (None, r) else (Some v, gst_bit_reader_skip_unchecked n r))"
    using bits_get_spec[OF assms(1,2), of m] by blast
  moreover obtain v' where "bits_get k m' (Some r) True n =
      Done (if bits_left r < unat n then (None, r) else (Some v', gst_bit_reader_skip_unchecked n r))"
    using bits_get_spec[OF assms(1,2), of m'] by blast
  ultimately show ?thesis using True by simp
next
  case False
  obtain v where v: "bits_get k m (Some r) True n =
      Done (if bits_left r < unat n then (None, r) else (Some v, gst_bit_reader_skip_unchecked n r))"
    "unat n \<le> bits_left r \<longrightarrow> value_bits (unat n) v = next_bits m r (unat n) \<and> take_bit (unat n) v = v"
    using bits_get_spec[OF assms(1,2), of m] by blast
  obtain v' where v': "bits_get k m' (Some r) True n =
      Done (if bits_left r < unat n then (None, r) else (Some v', gst_bit_reader_skip_unchecked n r))"
    "unat n \<le> bits_left r \<longrightarrow> value_bits (unat n) v' = next_bits m' r (unat n) \<and> take_bit (unat n) v' = v'"
    using bits_get_spec[OF assms(1,2), of m'] by blast
  have "next_bits m r (unat n) = next_bits m' r (unat n)"
    unfolding next_bits_def
  proof (rule mem_bits_cong)
    fix i assume "i < unat n"
    then have "bit_pos r + i < 8 * unat (br_size r)" using False by (simp add: bits_left_def)
    then have "br_data r \<le> (8 * br_data r + bit_pos r + i) div 8"
      "(8 * br_data r + bit_pos r + i) div 8 < br_data r + unat (br_size r)" by linarith+
    then show "mem_bit m (8 * br_data r + bit_pos r + i) = mem_bit m' (8 * br_data r + bit_pos r + i)"
      using assms(3) by (simp add: mem_bit_def)
  qed
  then have "v = v'" using v(2) v'(2) False value_bits_eq_iff[of "unat n" v v'] by simp
  then show ?thesis using v(1) v'(1) by simp
qed

text \<open>
  Sizes are multiplied by 8 in 32 bits: a reader over a block of \<open>2 ^ 29\<close> bytes reports
  that nothing remains and refuses every read.
\<close>

theorem large_block_unreadable:
  assumes "0 < n" "unat n \<le> width k"
  shows "gst_bit_reader_get_remaining (Some (GST_BIT_READER_INIT data 0x20000000)) = Done 0 \<and>
    bits_get k m (Some (GST_BIT_READER_INIT data 0x20000000)) True n =
      Done (None, GST_BIT_READER_INIT data 0x20000000)"
proof -
  have z: "(4294967296 :: guint32) = 0" by simp
  show ?thesis using assms
  by (cases k)
    (simp_all add: z bit_reader_api_defs gst_bit_reader_get_remaining_unchecked_def GST_BIT_READER_INIT_def
      bit_accessor_defs get_bits_inline_def)
qed

definition sample_bit_reader :: gst_bit_reader where
  "sample_bit_reader = GST_BIT_READER_INIT 10 2"

lemma sample_bit_reader_ok: "bit_reader_ok sample_bit_reader"
  by (simp add: bit_reader_ok_def sample_bit_reader_def GST_BIT_READER_INIT_def)

lemma bits_read_in_order_witness:
  "\<exists>v r'. bits_get W16 (\<lambda>_. 0xa5) (Some sample_bit_reader) True 12 = Done (Some v, r') \<and> bit_pos r' = 12"
  using bits_read_in_order[OF sample_bit_reader_ok, of 12 W16 "\<lambda>_. 0xa5"]
  by (auto simp: sample_bit_reader_def GST_BIT_READER_INIT_def bits_left_def bit_pos_def)

lemma bit_reader_stays_inside_witness:
  "bits_get W8 (\<lambda>a. if a < 12 then 3 else 4) (Some sample_bit_reader) True 7 =
   bits_get W8 (\<lambda>a. if a < 12 then 3 else 5) (Some sample_bit_reader) True 7"
  using bit_reader_stays_inside[OF sample_bit_reader_ok, of 7 W8 "\<lambda>a. if a < 12 then 3 else 4"
      "\<lambda>a. if a < 12 then 3 else 5"]
  by (simp add: sample_bit_reader_def GST_BIT_READER_INIT_def)

lemma large_block_unreadable_witness:
  "bits_get W8 (\<lambda>_. 1) (Some (GST_BIT_READER_INIT 0 0x20000000)) True 1 =
     Done (None, GST_BIT_READER_INIT 0 0x20000000)"
  using large_block_unreadable[of 1 W8 0 "\<lambda>_. 1"] by simp

end
