(* ===== verification/Bit_Writer.thy ===== *)
theory Bit_Writer
  imports Bit_Reader
begin

text \<open>
  \<open>gst/base/gstbitwriter.h\<close>: a buffer that grows by whole pages of 256 bytes and takes up to 64
  bits at a time, the counterpart of the bit reader.  Bits are added to the current byte with
  a bitwise or, so the bits behind the end of the buffer have to be zero: that is the invariant here.
\<close>

section \<open>The writer\<close>

record gst_bit_writer =
  bw_data :: nat
  bit_size :: guint32
  bit_capacity :: guint32
  auto_grow :: bool
  bw_owned :: bool

definition GST_BIT_WRITER_DATA :: "gst_bit_writer \<Rightarrow> nat" where
  "GST_BIT_WRITER_DATA writer = bw_data writer"

definition GST_BIT_WRITER_BIT_SIZE :: "gst_bit_writer \<Rightarrow> guint32" where
  "GST_BIT_WRITER_BIT_SIZE writer = bit_size writer"

definition bit_filling_mask :: "guint8 list" where
  "bit_filling_mask =
     [0x00, 0x01, 0x03, 0x07,
      0x0F, 0x1F, 0x3F, 0x7F,
      0xFF]"

definition GST_BITS_WRITER_ALIGNMENT_MASK :: guint32 where
  "GST_BITS_WRITER_ALIGNMENT_MASK = 2047"

definition GST_BITS_WRITER_ALIGNED :: "guint32 \<Rightarrow> guint32" where
  "GST_BITS_WRITER_ALIGNED bitsize =
     (bitsize + GST_BITS_WRITER_ALIGNMENT_MASK) AND NOT GST_BITS_WRITER_ALIGNMENT_MASK"

text \<open>
  GLib's \<open>g_realloc\<close> is a parameter; it ends the program rather than return \<open>NULL\<close>, so it always
  gives a heap and an address here.
\<close>

type_synonym bit_realloc = "heap \<Rightarrow> nat \<Rightarrow> guint32 \<Rightarrow> heap \<times> nat"

definition gst_bit_writer_check_remaining ::
  "bit_realloc \<Rightarrow> guint32 \<Rightarrow> heap \<Rightarrow> gst_bit_writer \<Rightarrow> (bool \<times> heap \<times> gst_bit_writer) outcome" where
  "gst_bit_writer_check_remaining g_realloc bits h w =
     (let new_bit_size = bits + bit_size w
      in if \<not> bit_size w \<le> bit_capacity w then AssertionFailure
         else if new_bit_size \<le> bit_capacity w then Done (True, h, w)
         else if \<not> auto_grow w then Done (False, h, w)
         else
           let new_bit_size = GST_BITS_WRITER_ALIGNED new_bit_size
           in if \<not> (new_bit_size \<noteq> 0 \<and> new_bit_size AND GST_BITS_WRITER_ALIGNMENT_MASK = 0)
              then AssertionFailure
              else
                let clear_pos = drop_bit 3 (bit_size w + 7);
                  (h, data) = g_realloc h (bw_data w) (drop_bit 3 new_bit_size);
                  zeros = replicate (unat (drop_bit 3 new_bit_size - clear_pos)) 0
                in Done (True,
                     h\<lparr>heap_bytes := mem_store (heap_bytes h) (data + unat clear_pos) zeros\<rparr>,
                     w\<lparr>bw_data := data, bit_capacity := new_bit_size\<rparr>))"

text \<open>
  The loop of the macro body: it fills what is left of the current byte, or as many bits as are
  still to be put.  The offset is below 8, as asserted before.
\<close>

function bit_put_loop ::
  "'a::len word \<Rightarrow> nat \<Rightarrow> nat \<Rightarrow> nat \<Rightarrow> guint32 \<Rightarrow> mem \<Rightarrow> nat \<times> guint32 \<times> mem" where
  "bit_put_loop val nbits bit_offset cur_byte bsize m =
     (if nbits = 0 \<or> 8 \<le> bit_offset then (cur_byte, bsize, m)
      else
        let fill_bits = (if 8 - bit_offset < nbits then 8 - bit_offset else nbits);
          nbits = nbits - fill_bits
        in bit_put_loop val nbits 0 (cur_byte + 1) (bsize + of_nat fill_bits)
             (m(cur_byte := m cur_byte OR
                  push_bit (8 - bit_offset - fill_bits)
                    (ucast (drop_bit nbits val) AND bit_filling_mask ! fill_bits))))"
  by pat_completeness auto
termination
  by (relation "measure (\<lambda>(val, nbits, off, cur, bsize, m). nbits)") auto

declare bit_put_loop.simps [simp del]

definition put_bits_unchecked ::
  "'a::len word \<Rightarrow> guint32 \<Rightarrow> heap \<Rightarrow> gst_bit_writer \<Rightarrow> (heap \<times> gst_bit_writer) outcome" where
  "put_bits_unchecked val nbits h w =
     (let byte_pos = drop_bit 3 (bit_size w); bit_offset = bit_size w AND 0x07
      in if \<not> unat nbits \<le> LENGTH('a) \<or> \<not> (bit_offset < 8 \<and> bit_size w \<le> bit_capacity w)
         then AssertionFailure
         else
           let (cur_byte, bsize, m) =
                 bit_put_loop val (unat nbits) (unat bit_offset) (bw_data w + unat byte_pos) (bit_size w)
                   (heap_bytes h)
           in if \<not> cur_byte \<le> bw_data w + unat (drop_bit 3 (bit_capacity w)) then AssertionFailure
              else Done (h\<lparr>heap_bytes := m\<rparr>, w\<lparr>bit_size := bsize\<rparr>))"

definition gst_bit_writer_put_bits_uint8_unchecked ::
  "guint8 \<Rightarrow> guint32 \<Rightarrow> heap \<Rightarrow> gst_bit_writer \<Rightarrow> (heap \<times> gst_bit_writer) outcome" where
  "gst_bit_writer_put_bits_uint8_unchecked = put_bits_unchecked"

definition gst_bit_writer_put_bits_uint16_unchecked ::
  "guint16 \<Rightarrow> guint32 \<Rightarrow> heap \<Rightarrow> gst_bit_writer \<Rightarrow> (heap \<times> gst_bit_writer) outcome" where
  "gst_bit_writer_put_bits_uint16_unchecked = put_bits_unchecked"

definition gst_bit_writer_put_bits_uint32_unchecked ::
  "guint32 \<Rightarrow> guint32 \<Rightarrow> heap \<Rightarrow> gst_bit_writer \<Rightarrow> (heap \<times> gst_bit_writer) outcome" where
  "gst_bit_writer_put_bits_uint32_unchecked = put_bits_unchecked"

definition gst_bit_writer_put_bits_uint64_unchecked ::
  "guint64 \<Rightarrow> guint32 \<Rightarrow> heap \<Rightarrow> gst_bit_writer \<Rightarrow> (heap \<times> gst_bit_writer) outcome" where
  "gst_bit_writer_put_bits_uint64_unchecked = put_bits_unchecked"

definition gst_bit_writer_get_size_unchecked :: "gst_bit_writer \<Rightarrow> guint32" where
  "gst_bit_writer_get_size_unchecked w = GST_BIT_WRITER_BIT_SIZE w"

definition gst_bit_writer_get_data_unchecked :: "gst_bit_writer \<Rightarrow> nat" where
  "gst_bit_writer_get_data_unchecked w = GST_BIT_WRITER_DATA w"

definition gst_bit_writer_set_pos_unchecked :: "guint32 \<Rightarrow> gst_bit_writer \<Rightarrow> bool \<times> gst_bit_writer" where
  "gst_bit_writer_set_pos_unchecked pos w = (True, w\<lparr>bit_size := pos\<rparr>)"

definition gst_bit_writer_get_remaining_unchecked :: "gst_bit_writer \<Rightarrow> guint32" where
  "gst_bit_writer_get_remaining_unchecked w = bit_capacity w - bit_size w"

text \<open>On an unaligned writer the assertion fails before the loop is reached.\<close>

definition gst_bit_writer_put_bytes_unchecked ::
  "nat \<Rightarrow> guint32 \<Rightarrow> heap \<Rightarrow> gst_bit_writer \<Rightarrow> (heap \<times> gst_bit_writer) outcome" where
  "gst_bit_writer_put_bytes_unchecked data nbytes h w =
     (if bit_size w AND 0x07 = 0
      then Done
        (h\<lparr>heap_bytes := mem_store (heap_bytes h) (bw_data w + unat (drop_bit 3 (bit_size w)))
                           (mem_bytes (heap_bytes h) data (unat nbytes))\<rparr>,
         w\<lparr>bit_size := bit_size w + push_bit 3 nbytes\<rparr>)
      else AssertionFailure)"

definition gst_bit_writer_align_bytes_unchecked ::
  "guint8 \<Rightarrow> heap \<Rightarrow> gst_bit_writer \<Rightarrow> (heap \<times> gst_bit_writer) outcome" where
  "gst_bit_writer_align_bytes_unchecked trailing_bit h w =
     (let bit_offset = bit_size w AND 0x07
      in if bit_offset = 0 then Done (h, w)
         else
           let bit_left = 8 - bit_offset;
             val = (if trailing_bit \<noteq> 0 then bit_filling_mask ! unat bit_left else 0)
           in gst_bit_writer_put_bits_uint8_unchecked val bit_left h w)"

section \<open>Checked operations\<close>

definition put_bits_inline ::
  "('a::len word \<Rightarrow> guint32 \<Rightarrow> heap \<Rightarrow> gst_bit_writer \<Rightarrow> (heap \<times> gst_bit_writer) outcome) \<Rightarrow>
     bit_realloc \<Rightarrow> heap \<Rightarrow> gst_bit_writer option \<Rightarrow> 'a word \<Rightarrow> guint32 \<Rightarrow>
     (bool \<times> heap \<times> gst_bit_writer) outcome" where
  "put_bits_inline unchecked re h writer val nbits =
     (case writer of None \<Rightarrow> CriticalReturn
      | Some w \<Rightarrow>
          if nbits = 0 \<or> LENGTH('a) < unat nbits then CriticalReturn
          else
            (case gst_bit_writer_check_remaining re nbits h w of
               Done (True, h, w) \<Rightarrow> map_outcome (Pair True) (unchecked val nbits h w)
             | r \<Rightarrow> r))"

definition gst_bit_writer_put_bits_uint8_inline ::
  "bit_realloc \<Rightarrow> heap \<Rightarrow> gst_bit_writer option \<Rightarrow> guint8 \<Rightarrow> guint32 \<Rightarrow>
     (bool \<times> heap \<times> gst_bit_writer) outcome" where
  "gst_bit_writer_put_bits_uint8_inline = put_bits_inline gst_bit_writer_put_bits_uint8_unchecked"

definition gst_bit_writer_put_bits_uint16_inline ::
  "bit_realloc \<Rightarrow> heap \<Rightarrow> gst_bit_writer option \<Rightarrow> guint16 \<Rightarrow> guint32 \<Rightarrow>
     (bool \<times> heap \<times> gst_bit_writer) outcome" where
  "gst_bit_writer_put_bits_uint16_inline = put_bits_inline gst_bit_writer_put_bits_uint16_unchecked"

definition gst_bit_writer_put_bits_uint32_inline ::
  "bit_realloc \<Rightarrow> heap \<Rightarrow> gst_bit_writer option \<Rightarrow> guint32 \<Rightarrow> guint32 \<Rightarrow>
     (bool \<times> heap \<times> gst_bit_writer) outcome" where
  "gst_bit_writer_put_bits_uint32_inline = put_bits_inline gst_bit_writer_put_bits_uint32_unchecked"

definition gst_bit_writer_put_bits_uint64_inline ::
  "bit_realloc \<Rightarrow> heap \<Rightarrow> gst_bit_writer option \<Rightarrow> guint64 \<Rightarrow> guint32 \<Rightarrow>
     (bool \<times> heap \<times> gst_bit_writer) outcome" where
  "gst_bit_writer_put_bits_uint64_inline = put_bits_inline gst_bit_writer_put_bits_uint64_unchecked"

definition gst_bit_writer_put_bits_uint8 ::
  "bit_realloc \<Rightarrow> heap \<Rightarrow> gst_bit_writer option \<Rightarrow> guint8 \<Rightarrow> guint32 \<Rightarrow>
     (bool \<times> heap \<times> gst_bit_writer) outcome" where
  "gst_bit_writer_put_bits_uint8 = gst_bit_writer_put_bits_uint8_inline"

definition gst_bit_writer_put_bits_uint16 ::
  "bit_realloc \<Rightarrow> heap \<Rightarrow> gst_bit_writer option \<Rightarrow> guint16 \<Rightarrow> guint32 \<Rightarrow>
     (bool \<times> heap \<times> gst_bit_writer) outcome" where
  "gst_bit_writer_put_bits_uint16 = gst_bit_writer_put_bits_uint16_inline"

definition gst_bit_writer_put_bits_uint32 ::
  "bit_realloc \<Rightarrow> heap \<Rightarrow> gst_bit_writer option \<Rightarrow> guint32 \<Rightarrow> guint32 \<Rightarrow>
     (bool \<times> heap \<times> gst_bit_writer) outcome" where
  "gst_bit_writer_put_bits_uint32 = gst_bit_writer_put_bits_uint32_inline"

definition gst_bit_writer_put_bits_uint64 ::
  "bit_realloc \<Rightarrow> heap \<Rightarrow> gst_bit_writer option \<Rightarrow> guint64 \<Rightarrow> guint32 \<Rightarrow>
     (bool \<times> heap \<times> gst_bit_writer) outcome" where
  "gst_bit_writer_put_bits_uint64 = gst_bit_writer_put_bits_uint64_inline"

definition gst_bit_writer_get_size_inline :: "gst_bit_writer option \<Rightarrow> guint32 outcome" where
  "gst_bit_writer_get_size_inline writer =
     (case writer of None \<Rightarrow> CriticalReturn | Some w \<Rightarrow> Done (gst_bit_writer_get_size_unchecked w))"

definition gst_bit_writer_get_data_inline :: "gst_bit_writer option \<Rightarrow> nat outcome" where
  "gst_bit_writer_get_data_inline writer =
     (case writer of None \<Rightarrow> CriticalReturn | Some w \<Rightarrow> Done (gst_bit_writer_get_data_unchecked w))"

definition gst_bit_writer_set_pos_inline ::
  "gst_bit_writer option \<Rightarrow> guint32 \<Rightarrow> (bool \<times> gst_bit_writer) outcome" where
  "gst_bit_writer_set_pos_inline writer pos =
     (case writer of None \<Rightarrow> CriticalReturn
      | Some w \<Rightarrow>
          if \<not> pos \<le> bit_capacity w then CriticalReturn
          else Done (gst_bit_writer_set_pos_unchecked pos w))"

definition gst_bit_writer_get_remaining_inline :: "gst_bit_writer option \<Rightarrow> guint32 outcome" where
  "gst_bit_writer_get_remaining_inline writer =
     (case writer of None \<Rightarrow> CriticalReturn
      | Some w \<Rightarrow>
          if \<not> bit_size w < bit_capacity w then CriticalReturn
          else Done (gst_bit_writer_get_remaining_unchecked w))"

text \<open>The address of the bytes is \<open>None\<close> when the pointer is \<open>NULL\<close>.\<close>

definition gst_bit_writer_put_bytes_inline ::
  "bit_realloc \<Rightarrow> heap \<Rightarrow> gst_bit_writer option \<Rightarrow> nat option \<Rightarrow> guint32 \<Rightarrow>
     (bool \<times> heap \<times> gst_bit_writer) outcome" where
  "gst_bit_writer_put_bytes_inline re h writer data nbytes =
     (case (writer, data) of
        (Some w, Some d) \<Rightarrow>
          if nbytes = 0 then CriticalReturn
          else
            (case gst_bit_writer_check_remaining re (nbytes * 8) h w of
               Done (True, h, w) \<Rightarrow>
                 map_outcome (Pair True) (gst_bit_writer_put_bytes_unchecked d nbytes h w)
             | r \<Rightarrow> r)
      | _ \<Rightarrow> CriticalReturn)"

definition gst_bit_writer_align_bytes_inline ::
  "heap \<Rightarrow> gst_bit_writer option \<Rightarrow> guint8 \<Rightarrow> (bool \<times> heap \<times> gst_bit_writer) outcome" where
  "gst_bit_writer_align_bytes_inline h writer trailing_bit =
     (case writer of None \<Rightarrow> CriticalReturn
      | Some w \<Rightarrow>
          if \<not> (trailing_bit = 0 \<or> trailing_bit = 1) then CriticalReturn
          else if \<not> (bit_size w + 7) AND NOT 7 \<le> bit_capacity w then CriticalReturn
          else map_outcome (Pair True) (gst_bit_writer_align_bytes_unchecked trailing_bit h w))"

definition gst_bit_writer_get_size :: "gst_bit_writer option \<Rightarrow> guint32 outcome" where
  "gst_bit_writer_get_size = gst_bit_writer_get_size_inline"

definition gst_bit_writer_get_data :: "gst_bit_writer option \<Rightarrow> nat outcome" where
  "gst_bit_writer_get_data = gst_bit_writer_get_data_inline"

definition gst_bit_writer_set_pos :: "gst_bit_writer option \<Rightarrow> guint32 \<Rightarrow> (bool \<times> gst_bit_writer) outcome" where
  "gst_bit_writer_set_pos = gst_bit_writer_set_pos_inline"

definition gst_bit_writer_get_remaining :: "gst_bit_writer option \<Rightarrow> guint32 outcome" where
  "gst_bit_writer_get_remaining = gst_bit_writer_get_remaining_inline"

definition gst_bit_writer_put_bytes ::
  "bit_realloc \<Rightarrow> heap \<Rightarrow> gst_bit_writer option \<Rightarrow> nat option \<Rightarrow> guint32 \<Rightarrow>
     (bool \<times> heap \<times> gst_bit_writer) outcome" where
  "gst_bit_writer_put_bytes = gst_bit_writer_put_bytes_inline"

definition gst_bit_writer_align_bytes ::
  "heap \<Rightarrow> gst_bit_writer option \<Rightarrow> guint8 \<Rightarrow> (bool \<times> heap \<times> gst_bit_writer) outcome" where
  "gst_bit_writer_align_bytes = gst_bit_writer_align_bytes_inline"

lemmas bit_put_defs =
  gst_bit_writer_put_bits_uint8_def gst_bit_writer_put_bits_uint8_inline_def gst_bit_writer_put_bits_uint8_unchecked_def
  gst_bit_writer_put_bits_uint16_def gst_bit_writer_put_bits_uint16_inline_def gst_bit_writer_put_bits_uint16_unchecked_def
  gst_bit_writer_put_bits_uint32_def gst_bit_writer_put_bits_uint32_inline_def gst_bit_writer_put_bits_uint32_unchecked_def
  gst_bit_writer_put_bits_uint64_def gst_bit_writer_put_bits_uint64_inline_def gst_bit_writer_put_bits_uint64_unchecked_def

section \<open>The loop\<close>

lemma filling_mask: "k \<le> 8 \<Longrightarrow> bit_filling_mask ! k = mask k"
proof -
  assume "k \<le> 8"
  then consider "k = 0" | "k = 1" | "k = 2" | "k = 3" | "k = 4" | "k = 5" | "k = 6" | "k = 7" | "k = 8"
    by linarith
  then show ?thesis by cases (simp_all add: bit_filling_mask_def mask_eq_exp_minus_1)
qed

lemma mem_bit_update:
  "mem_bit (m(c := x)) k = (if k div 8 = c then bit x (7 - k mod 8) else mem_bit m k)"
  by (simp add: mem_bit_def)

text \<open>Putting \<open>n\<close> bits ors them, the most significant first, onto the bits from the position on.\<close>

lemma bit_put_loop_spec:
  fixes val :: "'a::len word"
  assumes "off < 8" "n \<le> LENGTH('a)"
  shows "\<exists>m'. bit_put_loop val n off cur bsize m = (cur + (off * of_bool (0 < n) + n + 7) div 8, bsize + of_nat n, m') \<and>
    (\<forall>k. mem_bit m' k = (mem_bit m k \<or>
       (8 * cur + off \<le> k \<and> k < 8 * cur + off + n \<and> bit val (n - 1 - (k - (8 * cur + off))))))"
  using assms
proof (induction n arbitrary: off cur bsize m rule: less_induct)
  case (less n)
  show ?case
  proof (cases "n = 0")
    case True
    then show ?thesis by (auto simp: bit_put_loop.simps)
  next
    case False
    define f where "f = (if 8 - off < n then 8 - off else n)"
    define x where "x = m cur OR push_bit (8 - off - f) (ucast (drop_bit (n - f) val) AND bit_filling_mask ! f)"
    have f: "0 < f" "f \<le> n" "off + f \<le> 8" using False less.prems by (auto simp: f_def)
    have x: "bit x j = (bit (m cur) j \<or> (8 - off - f \<le> j \<and> j < 8 - off \<and> bit val (n - f + (j - (8 - off - f)))))"
      if "j < 8" for j
    proof -
      have "j - (8 - off - f) < f \<longleftrightarrow> j < 8 - off" if "8 - off - f \<le> j" using that f by auto
      then show ?thesis
        using \<open>j < 8\<close> filling_mask[of f] f
        by (auto simp: x_def bit_simps ac_simps)
    qed
    have here: "mem_bit (m(cur := x)) k = (mem_bit m k \<or>
        (8 * cur + off \<le> k \<and> k < 8 * cur + off + f \<and> bit val (n - 1 - (k - (8 * cur + off)))))" for k
    proof (cases "k div 8 = cur")
      case True
      define j where "j = k mod 8"
      have k: "k = 8 * cur + j" "j < 8" using True by (auto simp: j_def)
      have "bit x (7 - j) = (bit (m cur) (7 - j) \<or> (off \<le> j \<and> j < off + f \<and> bit val (n - 1 - (j - off))))"
      proof -
        have "8 - off - f \<le> 7 - j \<longleftrightarrow> j < off + f" "7 - j < 8 - off \<longleftrightarrow> off \<le> j" using k f by auto
        moreover have "n - f + (7 - j - (8 - off - f)) = n - 1 - (j - off)" if "off \<le> j" "j < off + f"
          using that f k by auto
        ultimately show ?thesis using x[of "7 - j"] by auto
      qed
      then show ?thesis using True k by (simp add: mem_bit_def j_def[symmetric])
    next
      case False
      then have "\<not> (8 * cur + off \<le> k \<and> k < 8 * cur + off + f)" using f less.prems by auto
      then show ?thesis using False by (auto simp: mem_bit_update)
    qed
    have unfold: "bit_put_loop val n off cur bsize m =
        bit_put_loop val (n - f) 0 (cur + 1) (bsize + of_nat f) (m(cur := x))"
      using False less.prems by (subst bit_put_loop.simps) (simp add: Let_def f_def x_def)
    have p: "n - f < n" "(0 :: nat) < 8" "n - f \<le> LENGTH('a)" using f less.prems by auto
    obtain m' where m': "bit_put_loop val (n - f) 0 (cur + 1) (bsize + of_nat f) (m(cur := x)) =
        (cur + 1 + (0 * of_bool (0 < n - f) + (n - f) + 7) div 8, bsize + of_nat f + of_nat (n - f), m')"
      "\<And>k. mem_bit m' k = (mem_bit (m(cur := x)) k \<or>
         (8 * (cur + 1) + 0 \<le> k \<and> k < 8 * (cur + 1) + 0 + (n - f) \<and>
          bit val (n - f - 1 - (k - (8 * (cur + 1) + 0)))))"
      using less.IH[OF p, of "cur + 1" "bsize + of_nat f" "m(cur := x)"] by blast
    have size: "bsize + of_nat f + of_nat (n - f) = bsize + of_nat n"
      using f by (simp add: of_nat_diff)
    show ?thesis
    proof (cases "f = n")
      case True
      have c: "cur + 1 + (0 * of_bool (0 < n - f) + (n - f) + 7) div 8 = cur + (off * of_bool (0 < n) + n + 7) div 8"
      proof -
        have "(off + n + 7) div 8 = 1" using True f False by auto
        then show ?thesis using True False by simp
      qed
      have res: "bit_put_loop val n off cur bsize m =
          (cur + (off * of_bool (0 < n) + n + 7) div 8, bsize + of_nat n, m')"
        unfolding unfold m'(1) c size by (rule refl)
      have "mem_bit m' k = mem_bit (m(cur := x)) k" for k using m'(2)[of k] True by auto
      then show ?thesis using res here[unfolded True] by blast
    next
      case more: False
      then have f8: "off + f = 8" using f by (auto simp: f_def split: if_splits)
      have c: "cur + 1 + (0 * of_bool (0 < n - f) + (n - f) + 7) div 8 = cur + (off * of_bool (0 < n) + n + 7) div 8"
      proof -
        have "off + n + 7 = 8 + (n - f + 7)" using f8 f by auto
        then show ?thesis using False by simp
      qed
      have res: "bit_put_loop val n off cur bsize m =
          (cur + (off * of_bool (0 < n) + n + 7) div 8, bsize + of_nat n, m')"
        unfolding unfold m'(1) c size by (rule refl)
      have "mem_bit m' k = (mem_bit m k \<or>
        (8 * cur + off \<le> k \<and> k < 8 * cur + off + n \<and> bit val (n - 1 - (k - (8 * cur + off)))))" for k
      proof -
        have "n - f - 1 - (k - 8 * (cur + 1)) = n - 1 - (k - (8 * cur + off))" if "8 * (cur + 1) \<le> k"
          using that f8 f by auto
        moreover have "8 * cur + off + f = 8 * (cur + 1)" "8 * (cur + 1) + (n - f) = 8 * cur + off + n"
          using f8 f by auto
        ultimately show ?thesis using m'(2)[of k] here[of k] by auto
      qed
      then show ?thesis using res by blast
    qed
  qed
qed

section \<open>Well-formed writers\<close>

text \<open>
  A writer is well formed on a heap while its size is within its capacity, its capacity whole
  bytes of its block, and every bit behind the end zero.
\<close>

definition bit_writer_ok :: "heap \<Rightarrow> gst_bit_writer \<Rightarrow> bool" where
  "bit_writer_ok h w \<longleftrightarrow>
     unat (bit_size w) \<le> unat (bit_capacity w) \<and> unat (bit_capacity w) mod 8 = 0 \<and>
     unat (bit_capacity w) div 8 \<le> heap_block h (bw_data w) \<and>
     (\<forall>k. unat (bit_size w) \<le> k \<and> k < unat (bit_capacity w) \<longrightarrow>
        \<not> mem_bit (heap_bytes h) (8 * bw_data w + k))"

definition written :: "heap \<Rightarrow> gst_bit_writer \<Rightarrow> bool list" where
  "written h w = mem_bits (heap_bytes h) (8 * bw_data w) (unat (bit_size w))"

definition bit_realloc_ok :: "bit_realloc \<Rightarrow> bool" where
  "bit_realloc_ok re \<longleftrightarrow>
     (\<forall>h p n h' p'. re h p n = (h', p') \<longrightarrow>
        heap_block h' p' = unat n \<and>
        (\<forall>i < min (heap_block h p) (unat n). heap_bytes h' (p' + i) = heap_bytes h (p + i)))"

lemma unat_and_7: "unat (w AND 7 :: guint32) = unat w mod 8"
proof -
  have "(7 :: guint32) = mask 3" by (simp add: mask_eq_exp_minus_1)
  then have "w AND 7 = take_bit 3 w" by (simp add: take_bit_eq_mask)
  moreover have "unat (take_bit 3 w) = unat w mod 8"
    by (simp only: unsigned_take_bit_eq) (simp add: take_bit_eq_mod)
  ultimately show ?thesis by simp
qed

lemma unat_drop_3: "unat (drop_bit 3 w :: guint32) = unat w div 8"
  by (simp only: unat_drop_bit_eq) (simp add: drop_bit_eq_div)

lemma aligned_spec:
  assumes "unat x + 2047 < 2 ^ 32"
  shows "unat (GST_BITS_WRITER_ALIGNED x) = (unat x + 2047) div 2048 * 2048"
    and "GST_BITS_WRITER_ALIGNED x AND GST_BITS_WRITER_ALIGNMENT_MASK = 0"
proof -
  have m: "(2047 :: guint32) = mask 11" by (simp add: mask_eq_exp_minus_1)
  show "unat (GST_BITS_WRITER_ALIGNED x) = (unat x + 2047) div 2048 * 2048"
    using rounds_up[of x 11] assms
    by (simp add: GST_BITS_WRITER_ALIGNED_def GST_BITS_WRITER_ALIGNMENT_MASK_def m)
  show "GST_BITS_WRITER_ALIGNED x AND GST_BITS_WRITER_ALIGNMENT_MASK = 0"
    unfolding GST_BITS_WRITER_ALIGNED_def GST_BITS_WRITER_ALIGNMENT_MASK_def
    by (rule bit_word_eqI) (simp add: bit_simps)
qed

text \<open>Growing keeps what was written and clears everything behind it.\<close>

lemma grown_ok:
  assumes "bit_writer_ok h w" "bit_realloc_ok re" "auto_grow w"
    and "unat bits + unat (bit_size w) + 2047 < 2 ^ 32"
    and "unat (bit_capacity w) < unat bits + unat (bit_size w)"
  shows "\<exists>h' w'. gst_bit_writer_check_remaining re bits h w = Done (True, h', w') \<and>
    bit_writer_ok h' w' \<and> written h' w' = written h w \<and> bit_size w' = bit_size w \<and>
    unat bits + unat (bit_size w) \<le> unat (bit_capacity w') \<and> auto_grow w' = auto_grow w"
proof -
  let ?s = "unat (bit_size w)"
  define new where "new = GST_BITS_WRITER_ALIGNED (bits + bit_size w)"
  have sum: "unat (bits + bit_size w) = unat bits + ?s" using assms(4) by (simp add: unat_word_ariths)
  have new: "unat new = (unat bits + ?s + 2047) div 2048 * 2048"
    using aligned_spec(1)[of "bits + bit_size w"] assms(4) sum by (simp add: new_def)
  have ge: "unat bits + ?s \<le> unat new" unfolding new by linarith
  have n8: "unat new mod 8 = 0" unfolding new by (simp add: mod_mult_right_eq[symmetric])
  have nz: "new \<noteq> 0" using ge assms(5) by auto
  obtain h1 p1 where re: "re h (bw_data w) (drop_bit 3 new) = (h1, p1)" by fastforce
  have blk: "heap_block h1 p1 = unat new div 8"
    and keep: "\<And>i. i < heap_block h (bw_data w) \<Longrightarrow> i < unat new div 8 \<Longrightarrow>
      heap_bytes h1 (p1 + i) = heap_bytes h (bw_data w + i)"
    using assms(2) re by (auto simp: bit_realloc_ok_def unat_drop_3)
  define c where "c = (?s + 7) div 8"
  have "unat (bit_size w + 7) = ?s + 7" using assms(4) by (simp add: unat_word_ariths)
  then have c: "unat (drop_bit 3 (bit_size w + 7)) = c" by (simp add: unat_drop_3 c_def)
  have cap: "?s \<le> unat (bit_capacity w)" "unat (bit_capacity w) mod 8 = 0"
    "unat (bit_capacity w) div 8 \<le> heap_block h (bw_data w)"
    using assms(1) by (auto simp: bit_writer_ok_def)
  have ccap: "c \<le> unat (bit_capacity w) div 8" "c \<le> unat new div 8"
    using cap ge assms(5) n8 by (auto simp: c_def)
  have sub: "unat (drop_bit 3 new - drop_bit 3 (bit_size w + 7)) = unat new div 8 - c"
    using ccap by (subst unat_sub) (simp_all add: word_le_nat_alt unat_drop_3 c[unfolded unat_drop_3])
  define h' where "h' = h1\<lparr>heap_bytes := mem_store (heap_bytes h1) (p1 + c) (replicate (unat new div 8 - c) 0)\<rparr>"
  define w' where "w' = w\<lparr>bw_data := p1, bit_capacity := new\<rparr>"
  have check: "gst_bit_writer_check_remaining re bits h w = Done (True, h', w')"
    using assms(3,5) cap(1) sum nz aligned_spec(2)[of "bits + bit_size w"] assms(4)
    by (simp add: gst_bit_writer_check_remaining_def Let_def new_def[symmetric] re c sub h'_def w'_def
        word_le_nat_alt)
  have byte: "heap_bytes h' (p1 + i) = (if i < c then heap_bytes h (bw_data w + i) else 0)"
    if "i < unat new div 8" for i
    using that ccap cap(3) keep[of i] by (auto simp: h'_def mem_store_def)
  have bits: "mem_bit (heap_bytes h') (8 * p1 + k) =
      (if k div 8 < c then mem_bit (heap_bytes h) (8 * bw_data w + k) else False)"
    if "k < unat new" for k
  proof -
    have "(8 * q + k) div 8 = q + k div 8" "(8 * q + k) mod 8 = k mod 8" for q by simp_all
    moreover have "k div 8 < unat new div 8" using that n8 by auto
    ultimately show ?thesis using byte[of "k div 8"] by (simp add: mem_bit_def)
  qed
  have "bit_writer_ok h' w'"
    unfolding bit_writer_ok_def
  proof (intro conjI allI impI)
    fix k assume k: "unat (bit_size w') \<le> k \<and> k < unat (bit_capacity w')"
    show "\<not> mem_bit (heap_bytes h') (8 * bw_data w' + k)"
    proof (cases "k div 8 < c")
      case True
      then have "k < unat (bit_capacity w)" using ccap(1) cap(2) by auto
      then show ?thesis using k bits[of k] assms(1) by (auto simp: w'_def bit_writer_ok_def)
    next
      case False
      then show ?thesis using k bits[of k] by (simp add: w'_def)
    qed
  qed (use ge n8 blk in \<open>auto simp: w'_def h'_def\<close>)
  moreover have "written h' w' = written h w"
    unfolding written_def w'_def
  proof (simp, rule mem_bits_cong)
    fix k assume k: "k < ?s"
    then have "k div 8 < c" by (auto simp: c_def)
    then show "mem_bit (heap_bytes h') (8 * p1 + k) = mem_bit (heap_bytes h) (8 * bw_data w + k)"
      using bits[of k] k ge by simp
  qed
  ultimately show ?thesis using check ge by (auto simp: w'_def)
qed

lemma check_remaining_spec:
  assumes "bit_writer_ok h w" "bit_realloc_ok re" "unat bits + unat (bit_size w) + 2047 < 2 ^ 32"
  shows "if unat bits + unat (bit_size w) \<le> unat (bit_capacity w) \<or> auto_grow w
    then \<exists>h' w'. gst_bit_writer_check_remaining re bits h w = Done (True, h', w') \<and>
      bit_writer_ok h' w' \<and> written h' w' = written h w \<and> bit_size w' = bit_size w \<and>
      unat bits + unat (bit_size w) \<le> unat (bit_capacity w') \<and> auto_grow w' = auto_grow w
    else gst_bit_writer_check_remaining re bits h w = Done (False, h, w)"
proof -
  have sum: "unat (bits + bit_size w) = unat bits + unat (bit_size w)"
    using assms(3) by (simp add: unat_word_ariths)
  have le: "bit_size w \<le> bit_capacity w" using assms(1) by (simp add: bit_writer_ok_def word_le_nat_alt)
  show ?thesis
  proof (cases "unat bits + unat (bit_size w) \<le> unat (bit_capacity w)")
    case True
    then show ?thesis
      using assms(1) le
      by (simp add: gst_bit_writer_check_remaining_def Let_def word_le_nat_alt[of "bits + bit_size w"] sum)
  next
    case False
    then show ?thesis
      using grown_ok[OF assms(1,2) _ assms(3)] le
      by (simp add: gst_bit_writer_check_remaining_def Let_def word_le_nat_alt[of "bits + bit_size w"] sum)
  qed
qed

text \<open>Whatever is there, putting ors the bits onto it.\<close>

lemma put_unchecked_or:
  fixes val :: "'a::len word"
  assumes "unat n \<le> LENGTH('a)" "0 < n" "unat (bit_capacity w) mod 8 = 0"
    and "unat n + unat (bit_size w) \<le> unat (bit_capacity w)"
  obtains m' where
    "put_bits_unchecked val n h w = Done (h\<lparr>heap_bytes := m'\<rparr>, w\<lparr>bit_size := bit_size w + n\<rparr>)"
    "\<And>k. mem_bit m' k = (mem_bit (heap_bytes h) k \<or>
       (8 * bw_data w + unat (bit_size w) \<le> k \<and> k < 8 * bw_data w + unat (bit_size w) + unat n \<and>
        bit val (unat n - 1 - (k - (8 * bw_data w + unat (bit_size w))))))"
    "unat (bit_size w + n) = unat (bit_size w) + unat n"
proof -
  let ?s = "unat (bit_size w)" and ?m = "heap_bytes h" and ?d = "bw_data w"
  have n: "0 < unat n" using assms(2) by (simp add: unat_gt_0)
  have P: "8 * (?d + ?s div 8) + ?s mod 8 = 8 * ?d + ?s" by simp
  obtain m' where loop: "bit_put_loop val (unat n) (?s mod 8) (?d + ?s div 8) (bit_size w) ?m =
      (?d + ?s div 8 + (?s mod 8 + unat n + 7) div 8, bit_size w + n, m')"
    and m': "\<And>k. mem_bit m' k = (mem_bit ?m k \<or>
       (8 * ?d + ?s \<le> k \<and> k < 8 * ?d + ?s + unat n \<and> bit val (unat n - 1 - (k - (8 * ?d + ?s)))))"
    using bit_put_loop_spec[of "?s mod 8" "unat n" val "?d + ?s div 8" "bit_size w" ?m] n assms(1)
    unfolding P by auto
  have "?s div 8 + (?s mod 8 + unat n + 7) div 8 = (?s + unat n + 7) div 8"
    by (metis (no_types, lifting) add.assoc div_mult_self3 mult.commute mult_div_mod_eq zero_neq_numeral)
  also have "\<dots> \<le> unat (bit_capacity w) div 8" using assms(3,4) by auto
  finally have cur: "?d + ?s div 8 + (?s mod 8 + unat n + 7) div 8 \<le> ?d + unat (bit_capacity w) div 8" by simp
  have "bit_size w AND 7 < 8" by (simp add: word_less_nat_alt unat_and_7)
  then have put: "put_bits_unchecked val n h w = Done (h\<lparr>heap_bytes := m'\<rparr>, w\<lparr>bit_size := bit_size w + n\<rparr>)"
    using assms(1,4) cur
    by (simp add: put_bits_unchecked_def Let_def unat_and_7 unat_drop_3 loop word_le_nat_alt)
  have "unat (bit_capacity w) < 2 ^ 32" using unsigned_less[of "bit_capacity w", where ?'a = nat] by simp
  then have "unat (bit_size w + n) = ?s + unat n" using assms(4) by (simp add: unat_word_ariths)
  with put m' that show thesis by blast
qed

lemma put_unchecked_spec:
  fixes val :: "'a::len word"
  assumes "bit_writer_ok h w" "unat n \<le> LENGTH('a)" "0 < n"
    and "unat n + unat (bit_size w) \<le> unat (bit_capacity w)"
  shows "\<exists>h' w'. put_bits_unchecked val n h w = Done (h', w') \<and> bit_writer_ok h' w' \<and>
    written h' w' = written h w @ value_bits (unat n) val \<and>
    unat (bit_size w') = unat (bit_size w) + unat n \<and> auto_grow w' = auto_grow w"
proof -
  let ?s = "unat (bit_size w)" and ?m = "heap_bytes h" and ?d = "bw_data w"
  have zero: "\<And>k. ?s \<le> k \<Longrightarrow> k < unat (bit_capacity w) \<Longrightarrow> \<not> mem_bit ?m (8 * ?d + k)"
    and cap8: "unat (bit_capacity w) mod 8 = 0"
    using assms(1) by (auto simp: bit_writer_ok_def)
  obtain m' where put: "put_bits_unchecked val n h w = Done (h\<lparr>heap_bytes := m'\<rparr>, w\<lparr>bit_size := bit_size w + n\<rparr>)"
    and m': "\<And>k. mem_bit m' k = (mem_bit ?m k \<or>
       (8 * ?d + ?s \<le> k \<and> k < 8 * ?d + ?s + unat n \<and> bit val (unat n - 1 - (k - (8 * ?d + ?s)))))"
    and size: "unat (bit_size w + n) = ?s + unat n"
    by (rule put_unchecked_or[OF assms(2,3) cap8 assms(4), of val h]) blast
  define h' where "h' = h\<lparr>heap_bytes := m'\<rparr>"
  define w' where "w' = w\<lparr>bit_size := bit_size w + n\<rparr>"
  have "written h' w' = written h w @ value_bits (unat n) val"
  proof -
    have "mem_bits m' (8 * ?d) ?s = mem_bits ?m (8 * ?d) ?s"
      by (rule mem_bits_cong) (simp add: m')
    moreover have "mem_bits m' (8 * ?d + ?s) (unat n) = value_bits (unat n) val"
    proof (rule nth_equalityI)
      fix i assume i: "i < length (mem_bits m' (8 * ?d + ?s) (unat n))"
      have z: "\<not> mem_bit ?m (8 * ?d + (?s + i))" using i assms(4) by (intro zero) simp_all
      show "mem_bits m' (8 * ?d + ?s) (unat n) ! i = value_bits (unat n) val ! i"
        using i z by (simp add: mem_bits_def value_bits_def m' add.assoc)
    qed simp
    ultimately show ?thesis
      by (simp add: written_def h'_def w'_def size mem_bits_append)
  qed
  moreover have "bit_writer_ok h' w'"
    using assms(1,4) zero size
    by (auto simp: bit_writer_ok_def h'_def w'_def m')
  ultimately show ?thesis using put size by (auto simp: w'_def h'_def)
qed

text \<open>The put of each width, with its value as a 64-bit word.\<close>

primrec bits_put ::
  "bit_width \<Rightarrow> bit_realloc \<Rightarrow> heap \<Rightarrow> gst_bit_writer option \<Rightarrow> guint64 \<Rightarrow> guint32 \<Rightarrow>
     (bool \<times> heap \<times> gst_bit_writer) outcome" where
  "bits_put W8 re h w v n = gst_bit_writer_put_bits_uint8 re h w (ucast v) n"
| "bits_put W16 re h w v n = gst_bit_writer_put_bits_uint16 re h w (ucast v) n"
| "bits_put W32 re h w v n = gst_bit_writer_put_bits_uint32 re h w (ucast v) n"
| "bits_put W64 re h w v n = gst_bit_writer_put_bits_uint64 re h w (ucast v) n"

lemma put_bits_inline_spec:
  fixes v :: guint64
  assumes "bit_writer_ok h w" "bit_realloc_ok re" "0 < n" "unat n \<le> LENGTH('a::len)" "LENGTH('a) \<le> 64"
    and "unat n + unat (bit_size w) + 2047 < 2 ^ 32"
  shows "if unat n + unat (bit_size w) \<le> unat (bit_capacity w) \<or> auto_grow w
    then \<exists>h' w'. put_bits_inline put_bits_unchecked re h (Some w) (ucast v :: 'a word) n = Done (True, h', w') \<and>
      bit_writer_ok h' w' \<and> written h' w' = written h w @ value_bits (unat n) v \<and>
      unat (bit_size w') = unat (bit_size w) + unat n \<and> auto_grow w' = auto_grow w
    else put_bits_inline put_bits_unchecked re h (Some w) (ucast v :: 'a word) n = Done (False, h, w)"
proof (cases "unat n + unat (bit_size w) \<le> unat (bit_capacity w) \<or> auto_grow w")
  case True
  obtain h1 w1 where c: "gst_bit_writer_check_remaining re n h w = Done (True, h1, w1)"
    "bit_writer_ok h1 w1" "written h1 w1 = written h w" "bit_size w1 = bit_size w"
    "unat n + unat (bit_size w1) \<le> unat (bit_capacity w1)" "auto_grow w1 = auto_grow w"
    using check_remaining_spec[OF assms(1,2,6)] True by auto
  obtain h2 w2 where p: "put_bits_unchecked (ucast v :: 'a word) n h1 w1 = Done (h2, w2)" "bit_writer_ok h2 w2"
    "written h2 w2 = written h1 w1 @ value_bits (unat n) (ucast v :: 'a word)"
    "unat (bit_size w2) = unat (bit_size w1) + unat n" "auto_grow w2 = auto_grow w1"
    using put_unchecked_spec[OF c(2) assms(4,3) c(5), of "ucast v"] by blast
  have "value_bits (unat n) (ucast v :: 'a word) = value_bits (unat n) v"
    using assms(4,5) by (simp add: value_bits_ucast)
  then show ?thesis
    using True c p assms(3,4) by (simp add: put_bits_inline_def)
next
  case False
  then show ?thesis
    using check_remaining_spec[OF assms(1,2,6)] assms(3,4) by (auto simp: put_bits_inline_def)
qed

lemma bits_put_spec:
  assumes "bit_writer_ok h w" "bit_realloc_ok re" "0 < n" "unat n \<le> width k"
    and "unat n + unat (bit_size w) + 2047 < 2 ^ 32"
  shows "if unat n + unat (bit_size w) \<le> unat (bit_capacity w) \<or> auto_grow w
    then \<exists>h' w'. bits_put k re h (Some w) v n = Done (True, h', w') \<and>
      bit_writer_ok h' w' \<and> written h' w' = written h w @ value_bits (unat n) v \<and>
      unat (bit_size w') = unat (bit_size w) + unat n \<and> auto_grow w' = auto_grow w
    else bits_put k re h (Some w) v n = Done (False, h, w)"
proof (cases k)
  case W8
  show ?thesis unfolding W8 bits_put.simps bit_put_defs
    by (rule put_bits_inline_spec[OF assms(1-3) _ _ assms(5)]) (use assms(4) W8 in simp_all)
next
  case W16
  show ?thesis unfolding W16 bits_put.simps bit_put_defs
    by (rule put_bits_inline_spec[OF assms(1-3) _ _ assms(5)]) (use assms(4) W16 in simp_all)
next
  case W32
  show ?thesis unfolding W32 bits_put.simps bit_put_defs
    by (rule put_bits_inline_spec[OF assms(1-3) _ _ assms(5)]) (use assms(4) W32 in simp_all)
next
  case W64
  show ?thesis unfolding W64 bits_put.simps bit_put_defs
    by (rule put_bits_inline_spec[OF assms(1-3) _ _ assms(5)]) (use assms(4) W64 in simp_all)
qed

section \<open>Properties\<close>

text \<open>
  Putting \<open>n\<close> bits of a value into a well-formed writer appends them, the most significant
  first, to the bits written so far, growing the buffer if it may grow and keeping the bits
  behind the end zero; a writer that is full and may not grow refuses and is left as it was.
\<close>

theorem bits_appended:
  assumes "bit_writer_ok h w" "bit_realloc_ok re" "0 < n" "unat n \<le> width k"
    and "unat n + unat (bit_size w) + 2047 < 2 ^ 32"
  shows "if unat n + unat (bit_size w) \<le> unat (bit_capacity w) \<or> auto_grow w
    then \<exists>h' w'. bits_put k re h (Some w) v n = Done (True, h', w') \<and>
      bit_writer_ok h' w' \<and> written h' w' = written h w @ value_bits (unat n) v \<and>
      unat (bit_size w') = unat (bit_size w) + unat n \<and> auto_grow w' = auto_grow w
    else bits_put k re h (Some w) v n = Done (False, h, w)"
  by (rule bits_put_spec[OF assms])

text \<open>Running a list of puts, and of gets of the same widths, while they succeed.\<close>

type_synonym bit_field = "bit_width \<times> guint32 \<times> guint64"

fun field_ok :: "bit_field \<Rightarrow> bool" where
  "field_ok (k, n, v) \<longleftrightarrow> 0 < n \<and> unat n \<le> width k"

fun field_bits :: "bit_field \<Rightarrow> bool list" where
  "field_bits (k, n, v) = value_bits (unat n) v"

definition stream_of :: "bit_field list \<Rightarrow> bool list" where
  "stream_of fs = concat (map field_bits fs)"

lemma stream_of_simps [simp]:
  "stream_of [] = []" "stream_of (f # fs) = field_bits f @ stream_of fs"
  by (simp_all add: stream_of_def)

fun put_fields :: "bit_realloc \<Rightarrow> bit_field list \<Rightarrow> heap \<Rightarrow> gst_bit_writer \<Rightarrow> (heap \<times> gst_bit_writer) option" where
  "put_fields re [] h w = Some (h, w)"
| "put_fields re ((k, n, v) # fs) h w =
     (case bits_put k re h (Some w) v n of
        Done (True, h, w) \<Rightarrow> put_fields re fs h w
      | _ \<Rightarrow> None)"

fun get_fields :: "mem \<Rightarrow> bit_field list \<Rightarrow> gst_bit_reader \<Rightarrow> (guint64 list \<times> gst_bit_reader) option" where
  "get_fields m [] r = Some ([], r)"
| "get_fields m ((k, n, v) # fs) r =
     (case bits_get k m (Some r) True n of
        Done (Some x, r) \<Rightarrow> map_option (apfst (Cons x)) (get_fields m fs r)
      | _ \<Rightarrow> None)"

lemma put_fields_appends:
  assumes "bit_writer_ok h w" "bit_realloc_ok re" "auto_grow w" "list_all field_ok fs"
    and "unat (bit_size w) + length (stream_of fs) + 2047 < 2 ^ 32"
  shows "\<exists>h' w'. put_fields re fs h w = Some (h', w') \<and> bit_writer_ok h' w' \<and>
    written h' w' = written h w @ stream_of fs \<and>
    unat (bit_size w') = unat (bit_size w) + length (stream_of fs)"
  using assms
proof (induction fs arbitrary: h w)
  case Nil
  then show ?case by simp
next
  case (Cons f fs)
  obtain k n v where f: "f = (k, n, v)" by (cases f)
  have ok: "0 < n" "unat n \<le> width k" "unat n + unat (bit_size w) + 2047 < 2 ^ 32"
    using Cons.prems(4,5) by (simp_all add: f)
  obtain h1 w1 where p: "bits_put k re h (Some w) v n = Done (True, h1, w1)" "bit_writer_ok h1 w1"
    "written h1 w1 = written h w @ value_bits (unat n) v"
    "unat (bit_size w1) = unat (bit_size w) + unat n" "auto_grow w1"
    using bits_put_spec[OF Cons.prems(1,2) ok, of v] Cons.prems(3) by auto
  then show ?case
    using Cons.IH[OF p(2) Cons.prems(2) p(5)] Cons.prems(4,5) by (simp add: f add.assoc)
qed

lemma get_fields_stream:
  assumes "bit_reader_ok r" "list_all field_ok fs" "length (stream_of fs) \<le> bits_left r"
    and "next_bits m r (length (stream_of fs)) = stream_of fs"
  shows "\<exists>r'. get_fields m fs r = Some (map (\<lambda>(k, n, v). take_bit (unat n) v) fs, r')"
  using assms
proof (induction fs arbitrary: r)
  case Nil
  then show ?case by simp
next
  case (Cons f fs)
  obtain k n v where f: "f = (k, n, v)" by (cases f)
  have ok: "unat n \<le> width k" "unat n \<le> bits_left r" using Cons.prems(2,3) by (simp_all add: f)
  obtain x where x: "bits_get k m (Some r) True n =
      Done (if bits_left r < unat n then (None, r) else (Some x, gst_bit_reader_skip_unchecked n r))"
    "unat n \<le> bits_left r \<longrightarrow> value_bits (unat n) x = next_bits m r (unat n) \<and> take_bit (unat n) x = x"
    using bits_get_spec[OF Cons.prems(1) ok(1), of m] by blast
  note skip = bit_skip[OF Cons.prems(1) ok(2)]
  have "next_bits m r (unat n) @ next_bits m (gst_bit_reader_skip_unchecked n r) (length (stream_of fs))
      = value_bits (unat n) v @ stream_of fs"
    using Cons.prems(4) by (simp add: f next_bits_def mem_bits_append skip add.assoc)
  then have s: "next_bits m r (unat n) = value_bits (unat n) v"
    "next_bits m (gst_bit_reader_skip_unchecked n r) (length (stream_of fs)) = stream_of fs"
    by (simp_all add: append_eq_append_conv next_bits_def)
  then have "x = take_bit (unat n) v" using x(2) ok(2) value_bits_eq_iff[of "unat n" x v] by metis
  moreover have "length (stream_of fs) \<le> bits_left (gst_bit_reader_skip_unchecked n r)"
    using Cons.prems(3) by (simp add: f bits_left_def skip)
  ultimately show ?case
    using Cons.IH[OF skip(1) _ _ s(2)] Cons.prems(2) x(1) ok(2) by (auto simp: f)
qed

text \<open>
  C17. What a bit writer writes a bit reader reads: putting any list of fields of 1 to 64 bits into
  an empty growing writer succeeds, the buffer is the bits of the fields in order, and a reader over
  its bytes returns, field by field, the low bits of each value.
\<close>

theorem bit_writer_reader_round_trip:
  assumes "bit_writer_ok h w" "bit_realloc_ok re" "auto_grow w" "bit_size w = 0" "list_all field_ok fs"
    and "length (stream_of fs) + 2047 < 2 ^ 32"
  shows "\<exists>h' w' r'. put_fields re fs h w = Some (h', w') \<and> written h' w' = stream_of fs \<and>
    get_fields (heap_bytes h') fs (GST_BIT_READER_INIT (bw_data w') (drop_bit 3 (bit_size w' + 7))) =
      Some (map (\<lambda>(k, n, v). take_bit (unat n) v) fs, r')"
proof -
  obtain h' w' where p: "put_fields re fs h w = Some (h', w')" "written h' w' = written h w @ stream_of fs"
    "unat (bit_size w') = unat (bit_size w) + length (stream_of fs)"
    using put_fields_appends[OF assms(1-3,5)] assms(4,6) by auto
  have empty: "written h w = []" using assms(4) by (simp add: written_def mem_bits_def)
  let ?r = "GST_BIT_READER_INIT (bw_data w') (drop_bit 3 (bit_size w' + 7))"
  have len: "unat (bit_size w') = length (stream_of fs)" using p(3) assms(4) by simp
  then have "unat (bit_size w' + 7) = length (stream_of fs) + 7"
    using assms(6) by (simp add: unat_word_ariths)
  then have size: "unat (br_size ?r) = (length (stream_of fs) + 7) div 8"
    by (simp add: GST_BIT_READER_INIT_def unat_drop_3)
  have r: "bit_pos ?r = 0" "br_data ?r = bw_data w'"
    by (simp_all add: GST_BIT_READER_INIT_def bit_pos_def)
  have ok: "bit_reader_ok ?r"
    using assms(6) size by (auto simp: bit_reader_ok_def) (simp_all add: GST_BIT_READER_INIT_def)
  have left: "length (stream_of fs) \<le> bits_left ?r" using size by (simp add: bits_left_def r)
  have "next_bits (heap_bytes h') ?r (length (stream_of fs)) = stream_of fs"
    using p(2) empty by (simp add: next_bits_def r written_def len)
  from get_fields_stream[OF ok assms(5) left this] p(1,2) empty show ?thesis by auto
qed

text \<open>
  The size of a request is added, and the bytes of a run multiplied, in 32 bits: putting
  \<open>2 ^ 29\<close> bytes into an aligned writer asks for no space, succeeds without growing and copies
  all of them behind the end of the block, leaving the size as it was.
\<close>

theorem large_put_unchecked:
  assumes "bit_size w \<le> bit_capacity w" "bit_size w AND 7 = 0"
  shows "gst_bit_writer_put_bytes re h (Some w) (Some data) 0x20000000 =
      Done (True, h\<lparr>heap_bytes := mem_store (heap_bytes h) (bw_data w + unat (bit_size w) div 8)
                             (mem_bytes (heap_bytes h) data (2 ^ 29))\<rparr>, w)"
proof -
  have z: "(4294967296 :: guint32) = 0" by simp
  have "push_bit 3 (0x20000000 :: guint32) = 0" by simp
  then show ?thesis
    using assms
    by (simp add: gst_bit_writer_put_bytes_def gst_bit_writer_put_bytes_inline_def z
        gst_bit_writer_check_remaining_def Let_def gst_bit_writer_put_bytes_unchecked_def unat_drop_3)
qed

text \<open>
  Moving the position back and writing again does not replace the bits there: the new bits
  are or'ed onto the old ones.
\<close>

theorem rewritten_bits_merge:
  assumes "bit_writer_ok h w" "unat pos + unat n \<le> unat (bit_size w)" "unat n \<le> width k" "0 < n"
  shows "\<exists>w1 h' w'. gst_bit_writer_set_pos (Some w) pos = Done (True, w1) \<and>
    bits_put k re h (Some w1) v n = Done (True, h', w') \<and>
    (\<forall>i < unat n. mem_bit (heap_bytes h') (8 * bw_data w + unat pos + i) =
       (written h w ! (unat pos + i) \<or> bit v (unat n - 1 - i)))"
proof -
  let ?w1 = "w\<lparr>bit_size := pos\<rparr>"
  have cap: "unat (bit_size w) \<le> unat (bit_capacity w)" "unat (bit_capacity w) mod 8 = 0"
    using assms(1) by (simp_all add: bit_writer_ok_def)
  have set: "gst_bit_writer_set_pos (Some w) pos = Done (True, ?w1)"
    using assms(2) cap(1)
    by (simp add: gst_bit_writer_set_pos_def gst_bit_writer_set_pos_inline_def
        gst_bit_writer_set_pos_unchecked_def word_le_nat_alt)
  have "unat (bit_capacity w) < 2 ^ 32" using unsigned_less[of "bit_capacity w", where ?'a = nat] by simp
  then have "unat (n + pos) = unat n + unat pos" using assms(2) cap(1) by (simp add: unat_word_ariths)
  then have check: "gst_bit_writer_check_remaining re n h ?w1 = Done (True, h, ?w1)"
    using assms(2) cap(1) by (simp add: gst_bit_writer_check_remaining_def Let_def word_le_nat_alt)
  have body: "\<exists>h' w'. put_bits_inline put_bits_unchecked re h (Some ?w1) (ucast v :: 'a::len word) n = Done (True, h', w') \<and>
      (\<forall>i < unat n. mem_bit (heap_bytes h') (8 * bw_data w + unat pos + i) =
         (written h w ! (unat pos + i) \<or> bit v (unat n - 1 - i)))"
    if len: "unat n \<le> LENGTH('a)" "LENGTH('a) \<le> 64"
  proof -
    have c: "unat (bit_capacity ?w1) mod 8 = 0" "unat n + unat (bit_size ?w1) \<le> unat (bit_capacity ?w1)"
      using assms(2) cap by simp_all
    have "\<exists>m'. put_bits_unchecked (ucast v :: 'a word) n h ?w1 =
        Done (h\<lparr>heap_bytes := m'\<rparr>, ?w1\<lparr>bit_size := pos + n\<rparr>) \<and>
      (\<forall>k. mem_bit m' k = (mem_bit (heap_bytes h) k \<or>
         (8 * bw_data w + unat pos \<le> k \<and> k < 8 * bw_data w + unat pos + unat n \<and>
          bit (ucast v :: 'a word) (unat n - 1 - (k - (8 * bw_data w + unat pos))))))"
    proof (rule put_unchecked_or[OF len(1) assms(4) c, of "ucast v" h])
      fix m'
      assume "put_bits_unchecked (ucast v :: 'a word) n h ?w1 =
          Done (h\<lparr>heap_bytes := m'\<rparr>, ?w1\<lparr>bit_size := bit_size ?w1 + n\<rparr>)"
        "\<And>k. mem_bit m' k = (mem_bit (heap_bytes h) k \<or>
          (8 * bw_data ?w1 + unat (bit_size ?w1) \<le> k \<and> k < 8 * bw_data ?w1 + unat (bit_size ?w1) + unat n \<and>
           bit (ucast v :: 'a word) (unat n - 1 - (k - (8 * bw_data ?w1 + unat (bit_size ?w1))))))"
      then show ?thesis by (intro exI[of _ m']) simp
    qed
    then obtain m' where put: "put_bits_unchecked (ucast v :: 'a word) n h ?w1 =
        Done (h\<lparr>heap_bytes := m'\<rparr>, ?w1\<lparr>bit_size := pos + n\<rparr>)"
      and m': "\<And>k. mem_bit m' k = (mem_bit (heap_bytes h) k \<or>
         (8 * bw_data w + unat pos \<le> k \<and> k < 8 * bw_data w + unat pos + unat n \<and>
          bit (ucast v :: 'a word) (unat n - 1 - (k - (8 * bw_data w + unat pos)))))"
      by blast
    have "mem_bit m' (8 * bw_data w + unat pos + i) = (written h w ! (unat pos + i) \<or> bit v (unat n - 1 - i))"
      if "i < unat n" for i
      using that len assms(2) by (auto simp: m' written_def mem_bits_def bit_ucast_iff add.assoc)
    then show ?thesis using put check assms(4) len(1) by (simp add: put_bits_inline_def)
  qed
  have "\<exists>h' w'. bits_put k re h (Some ?w1) v n = Done (True, h', w') \<and>
      (\<forall>i < unat n. mem_bit (heap_bytes h') (8 * bw_data w + unat pos + i) =
         (written h w ! (unat pos + i) \<or> bit v (unat n - 1 - i)))"
  proof (cases k)
    case W8
    show ?thesis unfolding W8 bits_put.simps bit_put_defs by (rule body) (use assms(3) W8 in simp_all)
  next
    case W16
    show ?thesis unfolding W16 bits_put.simps bit_put_defs by (rule body) (use assms(3) W16 in simp_all)
  next
    case W32
    show ?thesis unfolding W32 bits_put.simps bit_put_defs by (rule body) (use assms(3) W32 in simp_all)
  next
    case W64
    show ?thesis unfolding W64 bits_put.simps bit_put_defs by (rule body) (use assms(3) W64 in simp_all)
  qed
  with set show ?thesis by blast
qed

definition move_nothing :: bit_realloc where
  "move_nothing h p n = (h\<lparr>heap_block := (heap_block h)(p := unat n)\<rparr>, p)"

lemma move_nothing_ok: "bit_realloc_ok move_nothing"
  by (simp add: bit_realloc_ok_def move_nothing_def)

definition new_bit_writer :: gst_bit_writer where
  "new_bit_writer = \<lparr>bw_data = 32, bit_size = 0, bit_capacity = 0, auto_grow = True, bw_owned = True\<rparr>"

lemma new_bit_writer_ok: "bit_writer_ok sample_heap new_bit_writer" "auto_grow new_bit_writer"
  "bit_size new_bit_writer = 0"
  by (simp_all add: bit_writer_ok_def new_bit_writer_def)

lemma bits_appended_witness:
  "\<exists>h' w'. bits_put W8 move_nothing sample_heap (Some new_bit_writer) 5 3 = Done (True, h', w') \<and>
     written h' w' = [True, False, True]"
proof -
  have "written sample_heap new_bit_writer = []" by (simp add: written_def new_bit_writer_def mem_bits_def)
  moreover have "value_bits 3 (5 :: guint64) = [True, False, True]"
    by (simp add: value_bits_def upt_rec [of 0] upt_rec [of "Suc 0"] numeral_2_eq_2 [symmetric])
  ultimately show ?thesis
    using bits_appended[OF new_bit_writer_ok(1) move_nothing_ok, of 3 W8 5] new_bit_writer_ok by auto
qed

lemma bit_writer_reader_round_trip_witness:
  "\<exists>h' w' r'. put_fields move_nothing [(W8, 3, 5), (W32, 17, 0x1abcd)] sample_heap new_bit_writer = Some (h', w') \<and>
    get_fields (heap_bytes h') [(W8, 3, 5), (W32, 17, 0x1abcd)]
      (GST_BIT_READER_INIT (bw_data w') (drop_bit 3 (bit_size w' + 7))) = Some ([5, 0x1abcd], r')"
  using bit_writer_reader_round_trip[OF new_bit_writer_ok(1) move_nothing_ok new_bit_writer_ok(2,3),
      of "[(W8, 3, 5), (W32, 17, 0x1abcd)]"] by auto

lemma large_put_unchecked_witness:
  "\<exists>h'. gst_bit_writer_put_bytes move_nothing sample_heap (Some new_bit_writer) (Some 7) 0x20000000 =
     Done (True, h', new_bit_writer)"
  using large_put_unchecked[of new_bit_writer move_nothing sample_heap 7] by (simp add: new_bit_writer_def)

lemma rewritten_bits_merge_witness:
  "\<exists>w1 h' w'. gst_bit_writer_set_pos
       (Some (new_bit_writer\<lparr>bit_size := 8, bit_capacity := 8\<rparr>)) 0 = Done (True, w1) \<and>
     bits_put W8 move_nothing (sample_heap\<lparr>heap_bytes := (\<lambda>_. 0xa0), heap_block := (\<lambda>_. 1)\<rparr>) (Some w1) 5 4 =
       Done (True, h', w') \<and> mem_bit (heap_bytes h') 256 \<and> \<not> bit (5 :: guint64) 3"
proof -
  let ?h = "sample_heap\<lparr>heap_bytes := (\<lambda>_. 0xa0 :: guint8), heap_block := (\<lambda>_. 1)\<rparr>"
    and ?w = "new_bit_writer\<lparr>bit_size := 8, bit_capacity := 8\<rparr>"
  have ok: "bit_writer_ok ?h ?w" by (auto simp: bit_writer_ok_def new_bit_writer_def)
  have "written ?h ?w ! 0" by (simp add: written_def mem_bits_def mem_bit_def new_bit_writer_def)
  then show ?thesis
    using rewritten_bits_merge[OF ok, of 0 4 W8 move_nothing 5] by (fastforce simp: new_bit_writer_def)
qed

end
