(* ===== verification/Spice_Ring.thy ===== *)
theory Spice_Ring
  imports Gst_Utils
begin

text \<open>
  \<open>spice/ipc_ring.h\<close>: the ring buffers the guest driver and the QXL device share.  One side only
  produces and one only consumes; each macro is a handful of accesses to the shared counters with
  a memory barrier between them, so the two sides are modelled as a step relation over single
  accesses, in every interleaving.  What the ring promises is a queue and no lost wake-up.
\<close>

section \<open>Sizes\<close>

text \<open>The macros are applied to sizes, constants of type \<open>size_t\<close>.\<close>

definition SPICE_MSB_MASK4 :: "guint64 \<Rightarrow> guint64" where
  "SPICE_MSB_MASK4 x =
     (if x AND 0x8 \<noteq> 0 then 0x8 else if x AND 0x4 \<noteq> 0 then 0x4
      else if x AND 0x2 \<noteq> 0 then 0x2 else if x AND 0x1 \<noteq> 0 then 0x1 else 0)"

definition SPICE_MSB_MASK8 :: "guint64 \<Rightarrow> guint64" where
  "SPICE_MSB_MASK8 x =
     (if x AND 0xf0 \<noteq> 0 then push_bit 4 (SPICE_MSB_MASK4 (drop_bit 4 x)) else SPICE_MSB_MASK4 x)"

definition SPICE_MSB_MASK16 :: "guint64 \<Rightarrow> guint64" where
  "SPICE_MSB_MASK16 x =
     (if x AND 0xff00 \<noteq> 0 then push_bit 8 (SPICE_MSB_MASK8 (drop_bit 8 x)) else SPICE_MSB_MASK8 x)"

definition SPICE_MSB_MASK :: "guint64 \<Rightarrow> guint64" where
  "SPICE_MSB_MASK x =
     (if x AND 0xffff0000 \<noteq> 0 then push_bit 16 (SPICE_MSB_MASK16 (drop_bit 16 x)) else SPICE_MSB_MASK16 x)"

definition SPICE_POWER2_ALIGN :: "guint64 \<Rightarrow> guint64" where
  "SPICE_POWER2_ALIGN x = SPICE_MSB_MASK (x * 2 - 1)"

definition SPICE_TOSHIFT_4 :: "guint64 \<Rightarrow> nat" where
  "SPICE_TOSHIFT_4 x =
     (if x AND 0x8 \<noteq> 0 then 3 else if x AND 0x4 \<noteq> 0 then 2 else if x AND 0x2 \<noteq> 0 then 1 else 0)"

definition SPICE_TOSHIFT_8 :: "guint64 \<Rightarrow> nat" where
  "SPICE_TOSHIFT_8 x =
     (if x AND 0xf0 \<noteq> 0 then SPICE_TOSHIFT_4 (drop_bit 4 x) + 4 else SPICE_TOSHIFT_4 x)"

definition SPICE_TOSHIFT_16 :: "guint64 \<Rightarrow> nat" where
  "SPICE_TOSHIFT_16 x =
     (if x AND 0xff00 \<noteq> 0 then SPICE_TOSHIFT_8 (drop_bit 8 x) + 8 else SPICE_TOSHIFT_8 x)"

definition SPICE_POWER2_TO_SHIFT :: "guint64 \<Rightarrow> nat" where
  "SPICE_POWER2_TO_SHIFT x =
     (if x AND 0xffff0000 \<noteq> 0 then SPICE_TOSHIFT_16 (drop_bit 16 x) + 16 else SPICE_TOSHIFT_16 x)"

section \<open>The ring\<close>

text \<open>
  \<open>SPICE_RING_DECLARE(name, el_type, size)\<close>: the elements are padded to \<open>el_size\<close> bytes, a power of
  two, and there are \<open>SPICE_POWER2_ALIGN(size)\<close> of them.
\<close>

record 'a spice_ring =
  num_items :: guint32
  prod :: guint32
  notify_on_prod :: guint32
  cons :: guint32
  notify_on_cons :: guint32
  items :: "'a list"

definition ring_el_size :: "guint64 \<Rightarrow> guint64" where
  "ring_el_size el_type_size = SPICE_POWER2_ALIGN el_type_size"

definition ring_item_count :: "guint64 \<Rightarrow> guint64" where
  "ring_item_count n = SPICE_POWER2_ALIGN n"

definition SPICE_RING_INIT :: "guint64 \<Rightarrow> 'a spice_ring \<Rightarrow> 'a spice_ring" where
  "SPICE_RING_INIT el_size r =
     r\<lparr>num_items := ucast (drop_bit (SPICE_POWER2_TO_SHIFT el_size) (of_nat (length (items r)) * el_size)),
       cons := 0, prod := 0, notify_on_prod := 1, notify_on_cons := 0\<rparr>"

definition SPICE_RING_INDEX_MASK :: "'a spice_ring \<Rightarrow> guint32" where
  "SPICE_RING_INDEX_MASK r = num_items r - 1"

definition SPICE_RING_IS_PACKED :: "guint64 \<Rightarrow> bool" where
  "SPICE_RING_IS_PACKED el_type_size \<longleftrightarrow> ring_el_size el_type_size = el_type_size"

definition SPICE_RING_IS_EMPTY :: "'a spice_ring \<Rightarrow> bool" where
  "SPICE_RING_IS_EMPTY r \<longleftrightarrow> cons r = prod r"

definition SPICE_RING_IS_FULL :: "'a spice_ring \<Rightarrow> bool" where
  "SPICE_RING_IS_FULL r \<longleftrightarrow> prod r - cons r = num_items r"

text \<open>The address of an item is its index.\<close>

definition SPICE_RING_PROD_ITEM :: "'a spice_ring \<Rightarrow> nat" where
  "SPICE_RING_PROD_ITEM r = unat (prod r AND SPICE_RING_INDEX_MASK r)"

definition SPICE_RING_CONS_ITEM :: "'a spice_ring \<Rightarrow> nat" where
  "SPICE_RING_CONS_ITEM r = unat (cons r AND SPICE_RING_INDEX_MASK r)"

text \<open>The assignments of the macros, one definition each.\<close>

definition ring_set_notify_on_cons :: "'a spice_ring \<Rightarrow> 'a spice_ring" where
  "ring_set_notify_on_cons r = r\<lparr>notify_on_cons := cons r + 1\<rparr>"

definition ring_set_notify_on_prod :: "'a spice_ring \<Rightarrow> 'a spice_ring" where
  "ring_set_notify_on_prod r = r\<lparr>notify_on_prod := prod r + 1\<rparr>"

definition ring_push :: "'a spice_ring \<Rightarrow> 'a spice_ring" where
  "ring_push r = r\<lparr>prod := prod r + 1\<rparr>"

definition ring_push_notify :: "'a spice_ring \<Rightarrow> bool" where
  "ring_push_notify r \<longleftrightarrow> prod r = notify_on_prod r"

definition ring_pop :: "'a spice_ring \<Rightarrow> 'a spice_ring" where
  "ring_pop r = r\<lparr>cons := cons r + 1\<rparr>"

definition ring_pop_notify :: "'a spice_ring \<Rightarrow> bool" where
  "ring_pop_notify r \<longleftrightarrow> cons r = notify_on_cons r"

section \<open>The macros when nobody else runs\<close>

definition SPICE_RING_PROD_WAIT :: "'a spice_ring \<Rightarrow> bool \<times> 'a spice_ring" where
  "SPICE_RING_PROD_WAIT r =
     (if SPICE_RING_IS_FULL r
      then let r = ring_set_notify_on_cons r in (SPICE_RING_IS_FULL r, r)
      else (False, r))"

definition SPICE_RING_CONS_WAIT :: "'a spice_ring \<Rightarrow> bool \<times> 'a spice_ring" where
  "SPICE_RING_CONS_WAIT r =
     (if SPICE_RING_IS_EMPTY r
      then let r = ring_set_notify_on_prod r in (SPICE_RING_IS_EMPTY r, r)
      else (False, r))"

definition SPICE_RING_PUSH :: "'a spice_ring \<Rightarrow> bool \<times> 'a spice_ring" where
  "SPICE_RING_PUSH r = (let r = ring_push r in (ring_push_notify r, r))"

definition SPICE_RING_POP :: "'a spice_ring \<Rightarrow> bool \<times> 'a spice_ring" where
  "SPICE_RING_POP r = (let r = ring_pop r in (ring_pop_notify r, r))"

section \<open>The sizes the macros compute\<close>

text \<open>By halves: the top bit is in the upper half unless that is zero.\<close>

definition top_bit :: "guint64 \<Rightarrow> guint64 \<Rightarrow> nat \<Rightarrow> bool" where
  "top_bit x m s \<longleftrightarrow> m = 2 ^ s \<and> 2 ^ s \<le> unat x \<and> unat x < 2 ^ (s + 1) \<and> s < 64"

lemma unat_shift_right: "unat (drop_bit n (x :: guint64)) = unat x div 2 ^ n"
  by (rule trans[OF unat_drop_bit_eq]) (rule drop_bit_eq_div)

lemma upper_half:
  fixes x :: guint64
  assumes "unat x < 2 ^ (n + n)" "n + n \<le> 64"
  shows "x AND push_bit n (mask n) = 0 \<longleftrightarrow> drop_bit n x = 0" "unat (drop_bit n x) < 2 ^ n"
proof -
  have t: "take_bit (n + n) x = x"
    by (rule iffD2[OF word_unat_eq_iff]) (simp only: unsigned_take_bit_eq take_bit_nat_eq_self[OF assms(1)])
  then have "bit x i \<longrightarrow> i < n + n" for i by (metis bit_take_bit_iff)
  then have "x AND push_bit n (mask n) = push_bit n (drop_bit n x)"
    by (intro bit_eqI) (auto simp: bit_simps less_diff_conv2)
  moreover have "push_bit n (drop_bit n x) = 0 \<longleftrightarrow> drop_bit n x = 0"
  proof
    assume z: "push_bit n (drop_bit n x) = 0"
    show "drop_bit n x = 0"
    proof (rule bit_word_eqI)
      fix i
      have "\<not> bit (push_bit n (drop_bit n x)) (n + i)" unfolding z by simp
      then have "\<not> bit x (n + i)" using bit_imp_le_length[of x "n + i"] by (simp add: bit_simps) linarith
      then show "bit (drop_bit n x) i = bit 0 i" by (simp add: bit_simps)
    qed
  qed simp
  ultimately show "x AND push_bit n (mask n) = 0 \<longleftrightarrow> drop_bit n x = 0" by simp
  show "unat (drop_bit n x) < 2 ^ n"
    using assms(1) by (simp only: unat_shift_right power_add less_mult_imp_div_less)
qed

lemma top_bit_upper:
  assumes "top_bit (drop_bit n x) m s" "s + n < 64"
  shows "top_bit x (push_bit n m) (s + n)"
proof -
  have "2 ^ s \<le> unat x div 2 ^ n" "unat x div 2 ^ n < 2 ^ (s + 1)"
    using assms(1) unfolding top_bit_def unat_shift_right by blast+
  then have "2 ^ s * 2 ^ n \<le> unat x" "unat x < 2 ^ (s + 1) * 2 ^ n"
    by (simp_all add: less_eq_div_iff_mult_less_eq div_less_iff_less_mult)
  then show ?thesis using assms
    by (simp add: top_bit_def push_bit_eq_mult power_add mult.commute)
qed


definition is_top :: "nat \<Rightarrow> (guint64 \<Rightarrow> guint64) \<Rightarrow> (guint64 \<Rightarrow> nat) \<Rightarrow> bool" where
  "is_top n f g \<longleftrightarrow> (\<forall>x. x \<noteq> 0 \<longrightarrow> unat x < 2 ^ n \<longrightarrow> top_bit x (f x) (g x) \<and> g x < n)"

lemma is_top_double:
  assumes "is_top n f g" "n + n \<le> 64"
    and "\<And>x. f' x = (if x AND push_bit n (mask n) \<noteq> 0 then push_bit n (f (drop_bit n x)) else f x)"
    and "\<And>x. g' x = (if x AND push_bit n (mask n) \<noteq> 0 then g (drop_bit n x) + n else g x)"
  shows "is_top (n + n) f' g'"
  unfolding is_top_def
proof (intro allI impI)
  fix x :: guint64
  assume x: "x \<noteq> 0" "unat x < 2 ^ (n + n)"
  note u = upper_half[OF x(2) assms(2)]
  show "top_bit x (f' x) (g' x) \<and> g' x < n + n"
  proof (cases "drop_bit n x = 0")
    case True
    then have "unat x div 2 ^ n = 0" by (metis unat_shift_right unsigned_0)
    then have "unat x < 2 ^ n" by (simp add: div_eq_0_iff)
    then have "top_bit x (f x) (g x) \<and> g x < n" using assms(1) x(1) by (simp add: is_top_def)
    then show ?thesis using True u(1) assms(3,4) by simp
  next
    case False
    then have "top_bit (drop_bit n x) (f (drop_bit n x)) (g (drop_bit n x)) \<and> g (drop_bit n x) < n"
      using assms(1) u(2) by (simp add: is_top_def)
    then show ?thesis using False u(1) assms(2) top_bit_upper[of n x] by (simp add: assms(3,4))
  qed
qed

lemma is_top_4: "is_top 4 SPICE_MSB_MASK4 SPICE_TOSHIFT_4"
  unfolding is_top_def
proof (intro allI impI)
  fix x :: guint64
  assume x: "x \<noteq> 0" "unat x < 2 ^ 4"
  define m where "m = unat x"
  have "x = of_nat m" by (simp add: m_def)
  moreover have "m \<in> set [1..<16]" using x by (simp add: m_def unat_gt_0 Suc_le_eq)
  moreover have "\<forall>m \<in> set [1..<16]. top_bit (of_nat m) (SPICE_MSB_MASK4 (of_nat m)) (SPICE_TOSHIFT_4 (of_nat m))
      \<and> SPICE_TOSHIFT_4 (of_nat m) < 4"
    by code_simp
  ultimately show "top_bit x (SPICE_MSB_MASK4 x) (SPICE_TOSHIFT_4 x) \<and> SPICE_TOSHIFT_4 x < 4"
    by blast
qed

lemma is_top_32: "is_top 32 SPICE_MSB_MASK SPICE_POWER2_TO_SHIFT"
proof -
  have "is_top (4 + 4) SPICE_MSB_MASK8 SPICE_TOSHIFT_8"
    by (rule is_top_double[OF is_top_4]) (simp_all add: SPICE_MSB_MASK8_def SPICE_TOSHIFT_8_def push_bit_eq_mult mask_eq_exp_minus_1)
  then have "is_top 8 SPICE_MSB_MASK8 SPICE_TOSHIFT_8" by simp
  then have "is_top (8 + 8) SPICE_MSB_MASK16 SPICE_TOSHIFT_16"
    by (rule is_top_double) (simp_all add: SPICE_MSB_MASK16_def SPICE_TOSHIFT_16_def push_bit_eq_mult mask_eq_exp_minus_1)
  then have "is_top 16 SPICE_MSB_MASK16 SPICE_TOSHIFT_16" by simp
  then have "is_top (16 + 16) SPICE_MSB_MASK SPICE_POWER2_TO_SHIFT"
    by (rule is_top_double) (simp_all add: SPICE_MSB_MASK_def SPICE_POWER2_TO_SHIFT_def push_bit_eq_mult mask_eq_exp_minus_1)
  then show ?thesis by simp
qed

lemma top_bit_unique:
  assumes "2 ^ a \<le> n" "n < (2 :: nat) ^ (a + 1)" "2 ^ b \<le> n" "n < 2 ^ (b + 1)"
  shows "a = b"
proof -
  have "(2 :: nat) ^ a < 2 ^ (b + 1)" "(2 :: nat) ^ b < 2 ^ (a + 1)" using assms by linarith+
  then have "a < b + 1" "b < a + 1" by (simp_all only: power_strict_increasing_iff one_less_numeral_iff semiring_norm)
  then show ?thesis by simp
qed

lemma pow2_word: "k < 32 \<Longrightarrow> unat (2 ^ k :: guint32) = 2 ^ k"
proof -
  assume "k < 32"
  then have "(2 :: nat) ^ k < 2 ^ 32" by (rule power_strict_increasing) simp
  moreover have "(2 ^ k :: guint32) = of_nat (2 ^ k)" by simp
  ultimately show ?thesis by (simp only: unat_of_nat) simp
qed

lemma pow2_unat64:
  assumes "e < 32"
  shows "unat (2 ^ e :: guint64) = 2 ^ e"
proof -
  have "(2 :: nat) ^ e < 2 ^ 32" using assms by (rule power_strict_increasing) simp
  moreover have "(2 ^ e :: guint64) = of_nat (2 ^ e)" by simp
  ultimately show ?thesis by (simp only: unat_of_nat) simp
qed

lemma to_shift_pow2:
  assumes "e < 32"
  shows "SPICE_POWER2_TO_SHIFT (2 ^ e) = e"
proof -
  note u = pow2_unat64[OF assms]
  have "(2 :: nat) ^ e < 2 ^ 32" using assms by (rule power_strict_increasing) simp
  have "(2 ^ e :: guint64) \<noteq> 0" using u by (metis unsigned_0 power_not_zero zero_neq_numeral)
  then have "top_bit (2 ^ e) (SPICE_MSB_MASK (2 ^ e)) (SPICE_POWER2_TO_SHIFT (2 ^ e))"
    using u is_top_32 \<open>(2 :: nat) ^ e < 2 ^ 32\<close> by (auto simp: is_top_def)
  then have b: "2 ^ SPICE_POWER2_TO_SHIFT (2 ^ e) \<le> (2 :: nat) ^ e"
    "(2 :: nat) ^ e < 2 ^ (SPICE_POWER2_TO_SHIFT (2 ^ e) + 1)"
    unfolding top_bit_def u by blast+
  show ?thesis using top_bit_unique[OF b, of e] by simp
qed


lemma init_num_items:
  assumes "length (items r) = 2 ^ k" "k < 32" "e < 32"
  shows "num_items (SPICE_RING_INIT (2 ^ e) r) = 2 ^ k"
proof -
  have l: "(2 :: nat) ^ k * 2 ^ e < 2 ^ 64"
  proof -
    have "(2 :: nat) ^ (k + e) < 2 ^ 64" using assms(2,3) by (intro power_strict_increasing) auto
    then show ?thesis by (simp add: power_add)
  qed
  have "unat (drop_bit e (of_nat (2 ^ k) * 2 ^ e :: guint64)) = 2 ^ k * 2 ^ e div 2 ^ e"
  proof -
    have "(of_nat (2 ^ k) * 2 ^ e :: guint64) = of_nat (2 ^ k * 2 ^ e)" by simp
    then have "unat (of_nat (2 ^ k) * 2 ^ e :: guint64) = 2 ^ k * 2 ^ e"
      using l by (simp only: unat_of_nat) simp
    then show ?thesis by (simp only: unat_shift_right)
  qed
  then have "(ucast (drop_bit e (of_nat (2 ^ k) * 2 ^ e :: guint64)) :: guint32) = of_nat (2 ^ k)"
    by (subst of_nat_unat[symmetric]) (simp only: nonzero_mult_div_cancel_right[OF power_not_zero[OF zero_neq_numeral[symmetric]]])
  then show ?thesis
    using assms(1) to_shift_pow2[OF assms(3)] by (simp add: SPICE_RING_INIT_def)
qed

lemma ring_sizes_parts:
  assumes "0 < x" "x \<le> 2 ^ 31"
  shows "SPICE_POWER2_ALIGN x = 2 ^ SPICE_POWER2_TO_SHIFT (SPICE_POWER2_ALIGN x)"
    and "unat x \<le> unat (SPICE_POWER2_ALIGN x)"
    and "\<And>e. unat x \<le> 2 ^ e \<Longrightarrow> unat (SPICE_POWER2_ALIGN x) \<le> 2 ^ e"
proof -
  define y where "y = x * 2 - 1"
  have x: "0 < unat x" "unat x \<le> 2 ^ 31" using assms by (simp_all add: word_less_nat_alt word_le_nat_alt)
  have "x * 2 - 1 = of_nat (unat x * 2 - 1)" using x(1) by (simp add: of_nat_diff)
  then have y: "unat y = unat x * 2 - 1" unfolding y_def using x by (simp only: unat_of_nat) simp
  then have "y \<noteq> 0" "unat y < 2 ^ 32" using x by auto
  then have t: "top_bit y (SPICE_MSB_MASK y) (SPICE_POWER2_TO_SHIFT y)" "SPICE_POWER2_TO_SHIFT y < 32"
    using is_top_32 unfolding is_top_def by blast+
  define s where "s = SPICE_POWER2_TO_SHIFT y"
  have a: "SPICE_POWER2_ALIGN x = 2 ^ s" and b: "2 ^ s \<le> unat y" "unat y < 2 ^ (s + 1)" and "s < 32"
    using t unfolding SPICE_POWER2_ALIGN_def y_def[symmetric] s_def top_bit_def by blast+
  show "SPICE_POWER2_ALIGN x = 2 ^ SPICE_POWER2_TO_SHIFT (SPICE_POWER2_ALIGN x)"
    using a to_shift_pow2[OF \<open>s < 32\<close>] by simp
  have u: "unat (SPICE_POWER2_ALIGN x) = 2 ^ s" using a pow2_unat64[OF \<open>s < 32\<close>] by simp
  show "unat x \<le> unat (SPICE_POWER2_ALIGN x)" using b y x u by simp
  show "unat (SPICE_POWER2_ALIGN x) \<le> 2 ^ e" if "unat x \<le> 2 ^ e" for e
  proof -
    have "2 ^ s < (2 :: nat) ^ (e + 1)" using b(1) y x that by simp
    then have "s < e + 1" by (simp only: power_strict_increasing_iff one_less_numeral_iff semiring_norm)
    then show ?thesis using u by simp
  qed
qed

text \<open>
  \<open>SPICE_POWER2_ALIGN\<close> is the least power of two that is not smaller, for sizes from 1 to \<open>2 ^ 31\<close>;
  \<open>SPICE_POWER2_TO_SHIFT\<close> is its exponent; and \<open>SPICE_RING_INIT\<close> recovers the number of items from
  the size of the array.
\<close>

theorem ring_sizes:
  assumes "0 < x" "x \<le> 2 ^ 31"
  shows "SPICE_POWER2_ALIGN x = 2 ^ SPICE_POWER2_TO_SHIFT (SPICE_POWER2_ALIGN x) \<and>
    unat x \<le> unat (SPICE_POWER2_ALIGN x) \<and>
    (\<forall>e. unat x \<le> 2 ^ e \<longrightarrow> unat (SPICE_POWER2_ALIGN x) \<le> 2 ^ e) \<and>
    (\<forall>e < 32. \<forall>k < 32. \<forall>r :: 'a spice_ring. length (items r) = 2 ^ k \<longrightarrow>
       unat (num_items (SPICE_RING_INIT (2 ^ e) r)) = length (items r))"
  by (intro conjI allI impI ring_sizes_parts[OF assms]) (simp_all add: init_num_items pow2_word)

theorem ring_sizes_witness:
  "SPICE_POWER2_ALIGN 24 = 2 ^ SPICE_POWER2_TO_SHIFT (SPICE_POWER2_ALIGN 24) \<and>
   unat (24 :: guint64) \<le> unat (SPICE_POWER2_ALIGN 24)"
proof -
  have "0 < (24 :: guint64)" "(24 :: guint64) \<le> 2 ^ 31" by simp_all
  from ring_sizes[OF this] show ?thesis by blast
qed

section \<open>Both sides, access by access\<close>

text \<open>
  Where each side is.  After \<open>WAIT\<close> came out false a side is \<open>Ready\<close>; after it came out true it sleeps
  until the other side's \<open>notify\<close>.  The producer writes the item and pushes, the consumer reads
  the item and pops.
\<close>

datatype prod_pc = P_Idle | P_Mark | P_Recheck | P_Ready | P_Written | P_Pushed | P_Asleep
datatype cons_pc = C_Idle | C_Mark | C_Recheck | C_Ready | C_Read | C_Popped | C_Asleep

text \<open>With the ring, the items pushed and popped so far.\<close>

record 'a ring_system =
  ring :: "'a spice_ring"
  ppc :: prod_pc
  cpc :: cons_pc
  pushed :: "'a list"
  popped :: "'a list"

inductive ring_step :: "'a ring_system \<Rightarrow> 'a ring_system \<Rightarrow> bool" where
  prod_wait_check: "ppc s = P_Idle \<Longrightarrow>
    ring_step s (s\<lparr>ppc := if SPICE_RING_IS_FULL (ring s) then P_Mark else P_Ready\<rparr>)"
| prod_wait_mark: "ppc s = P_Mark \<Longrightarrow>
    ring_step s (s\<lparr>ring := ring_set_notify_on_cons (ring s), ppc := P_Recheck\<rparr>)"
| prod_wait_recheck: "ppc s = P_Recheck \<Longrightarrow>
    ring_step s (s\<lparr>ppc := if SPICE_RING_IS_FULL (ring s) then P_Asleep else P_Ready\<rparr>)"
| prod_write: "ppc s = P_Ready \<Longrightarrow>
    ring_step s (s\<lparr>ring := (ring s)\<lparr>items := (items (ring s))[SPICE_RING_PROD_ITEM (ring s) := x]\<rparr>, ppc := P_Written\<rparr>)"
| prod_push: "ppc s = P_Written \<Longrightarrow>
    ring_step s (s\<lparr>ring := ring_push (ring s), ppc := P_Pushed,
      pushed := pushed s @ [items (ring s) ! SPICE_RING_PROD_ITEM (ring s)]\<rparr>)"
| prod_notify: "ppc s = P_Pushed \<Longrightarrow>
    ring_step s (s\<lparr>ppc := P_Idle,
      cpc := if ring_push_notify (ring s) \<and> cpc s = C_Asleep then C_Idle else cpc s\<rparr>)"
| cons_wait_check: "cpc s = C_Idle \<Longrightarrow>
    ring_step s (s\<lparr>cpc := if SPICE_RING_IS_EMPTY (ring s) then C_Mark else C_Ready\<rparr>)"
| cons_wait_mark: "cpc s = C_Mark \<Longrightarrow>
    ring_step s (s\<lparr>ring := ring_set_notify_on_prod (ring s), cpc := C_Recheck\<rparr>)"
| cons_wait_recheck: "cpc s = C_Recheck \<Longrightarrow>
    ring_step s (s\<lparr>cpc := if SPICE_RING_IS_EMPTY (ring s) then C_Asleep else C_Ready\<rparr>)"
| cons_read: "cpc s = C_Ready \<Longrightarrow>
    ring_step s (s\<lparr>cpc := C_Read, popped := popped s @ [items (ring s) ! SPICE_RING_CONS_ITEM (ring s)]\<rparr>)"
| cons_pop: "cpc s = C_Read \<Longrightarrow>
    ring_step s (s\<lparr>ring := ring_pop (ring s), cpc := C_Popped\<rparr>)"
| cons_notify: "cpc s = C_Popped \<Longrightarrow>
    ring_step s (s\<lparr>cpc := C_Idle,
      ppc := if ring_pop_notify (ring s) \<and> ppc s = P_Asleep then P_Idle else ppc s\<rparr>)"

text \<open>
  A ring starts initialised, over items whose number is a power of two; the consumer may start
  asleep, as the device does, because the first push then notifies.
\<close>

inductive ring_reach :: "'a ring_system \<Rightarrow> bool" where
  ring_init: "length (items r) = 2 ^ k \<Longrightarrow> k < 32 \<Longrightarrow> e < 32 \<Longrightarrow> c \<in> {C_Idle, C_Asleep} \<Longrightarrow>
    ring_reach \<lparr>ring = SPICE_RING_INIT (2 ^ e) r, ppc = P_Idle, cpc = c, pushed = [], popped = []\<rparr>"
| ring_more: "ring_reach s \<Longrightarrow> ring_step s t \<Longrightarrow> ring_reach t"

section \<open>Counters that wrap\<close>

lemma of_nat_close:
  assumes "a \<le> b" "b - a < 2 ^ 32"
  shows "(of_nat b :: guint32) = of_nat a \<longleftrightarrow> a = b" "unat (of_nat b - of_nat a :: guint32) = b - a"
proof -
  have d: "(of_nat b - of_nat a :: guint32) = of_nat (b - a)" using assms(1) by (simp add: of_nat_diff)
  then show u: "unat (of_nat b - of_nat a :: guint32) = b - a"
    using assms(2) by (simp add: unat_of_nat)
  show "(of_nat b :: guint32) = of_nat a \<longleftrightarrow> a = b"
  proof
    assume "(of_nat b :: guint32) = of_nat a"
    then show "a = b" using u assms(1) by simp
  qed simp
qed

lemma index_of_counter:
  assumes "k < 32"
  shows "unat (of_nat n AND (2 ^ k - 1) :: guint32) = n mod 2 ^ k"
proof -
  have "(2 ^ k - 1 :: guint32) = mask k" by (simp add: mask_eq_exp_minus_1)
  then have "(of_nat n AND (2 ^ k - 1) :: guint32) = take_bit k (of_nat n)" by (simp add: take_bit_eq_mask)
  then have "unat (of_nat n AND (2 ^ k - 1) :: guint32) = n mod 2 ^ 32 mod 2 ^ k"
    by (simp only: unsigned_take_bit_eq unat_of_nat) (simp add: take_bit_eq_mod)
  also have "\<dots> = n mod 2 ^ k"
    using assms by (metis less_imp_le mod_mod_cancel le_imp_power_dvd)
  finally show ?thesis .
qed

lemma mod_differs:
  fixes i j n :: nat
  assumes "i < j" "j - i < n"
  shows "i mod n \<noteq> j mod n"
proof
  assume "i mod n = j mod n"
  then have "n dvd j - i" using assms(1) by (metis less_imp_le mod_eq_dvd_iff_nat)
  then show False using assms by (auto dest: dvd_imp_le)
qed

section \<open>The invariant\<close>

text \<open>
  With \<open>2 ^ k\<close> items and \<open>nc\<close> pops so far: the counters count the pushes and pops, the items between
  them are the ones pushed and not yet popped, and a side that sleeps, or is about to look again before
  it does, has left its mark one step ahead of the counter it waits for.
\<close>

definition ring_counts :: "nat \<Rightarrow> nat \<Rightarrow> 'a ring_system \<Rightarrow> bool" where
  "ring_counts k nc s \<longleftrightarrow>
     k < 32 \<and> num_items (ring s) = 2 ^ k \<and> length (items (ring s)) = 2 ^ k \<and>
     prod (ring s) = of_nat (length (pushed s)) \<and> cons (ring s) = of_nat nc \<and>
     nc \<le> length (pushed s) \<and> length (pushed s) \<le> nc + 2 ^ k \<and>
     length (popped s) = nc + (if cpc s = C_Read then 1 else 0) \<and>
     (cpc s \<in> {C_Ready, C_Read} \<longrightarrow> nc < length (pushed s)) \<and>
     (ppc s \<in> {P_Ready, P_Written} \<longrightarrow> length (pushed s) < nc + 2 ^ k)"

definition ring_data :: "nat \<Rightarrow> nat \<Rightarrow> 'a ring_system \<Rightarrow> bool" where
  "ring_data k nc s \<longleftrightarrow>
     popped s = take (length (popped s)) (pushed s) \<and>
     (\<forall>i. nc \<le> i \<and> i < length (pushed s) \<longrightarrow> items (ring s) ! (i mod 2 ^ k) = pushed s ! i)"

definition ring_marks :: "nat \<Rightarrow> nat \<Rightarrow> 'a ring_system \<Rightarrow> bool" where
  "ring_marks k nc s \<longleftrightarrow>
     (cpc s = C_Recheck \<longrightarrow>
        (\<exists>q. nc \<le> q \<and> q \<le> length (pushed s) \<and> notify_on_prod (ring s) = of_nat (q + 1))) \<and>
     (cpc s = C_Asleep \<longrightarrow> notify_on_prod (ring s) = of_nat (nc + 1) \<and>
        (length (pushed s) = nc \<or> length (pushed s) = nc + 1 \<and> ppc s = P_Pushed)) \<and>
     (ppc s = P_Recheck \<longrightarrow>
        (\<exists>q. q \<le> nc \<and> length (pushed s) \<le> q + 2 ^ k \<and> notify_on_cons (ring s) = of_nat (q + 1))) \<and>
     (ppc s = P_Asleep \<longrightarrow> notify_on_cons (ring s) = of_nat (length (pushed s) + 1 - 2 ^ k) \<and>
        (length (pushed s) = nc + 2 ^ k \<or> length (pushed s) + 1 = nc + 2 ^ k \<and> cpc s = C_Popped))"

lemma window: "k < 32 \<Longrightarrow> (2 :: nat) ^ k \<le> 2 ^ 31"
  by (rule power_increasing) auto

lemma ring_indices:
  assumes "ring_counts k nc s"
  shows "SPICE_RING_PROD_ITEM (ring s) = length (pushed s) mod 2 ^ k"
    and "SPICE_RING_CONS_ITEM (ring s) = nc mod 2 ^ k"
    and "SPICE_RING_IS_EMPTY (ring s) \<longleftrightarrow> length (pushed s) = nc"
    and "SPICE_RING_IS_FULL (ring s) \<longleftrightarrow> length (pushed s) = nc + 2 ^ k"
proof -
  have c: "k < 32" "num_items (ring s) = 2 ^ k" "prod (ring s) = of_nat (length (pushed s))"
    "cons (ring s) = of_nat nc" "nc \<le> length (pushed s)" "length (pushed s) \<le> nc + 2 ^ k"
    using assms by (auto simp: ring_counts_def)
  note close = of_nat_close[of nc "length (pushed s)"]
  have near: "length (pushed s) - nc < 2 ^ 32" using c(5,6) window[OF c(1)] by simp
  show "SPICE_RING_PROD_ITEM (ring s) = length (pushed s) mod 2 ^ k"
    "SPICE_RING_CONS_ITEM (ring s) = nc mod 2 ^ k"
    using index_of_counter[OF c(1)] c
    by (simp_all add: SPICE_RING_PROD_ITEM_def SPICE_RING_CONS_ITEM_def SPICE_RING_INDEX_MASK_def)
  show "SPICE_RING_IS_EMPTY (ring s) \<longleftrightarrow> length (pushed s) = nc"
    using close(1)[OF c(5) near] c by (auto simp: SPICE_RING_IS_EMPTY_def)
  have "SPICE_RING_IS_FULL (ring s) \<longleftrightarrow> unat (prod (ring s) - cons (ring s)) = unat (num_items (ring s))"
    by (simp add: SPICE_RING_IS_FULL_def word_unat_eq_iff)
  then show "SPICE_RING_IS_FULL (ring s) \<longleftrightarrow> length (pushed s) = nc + 2 ^ k"
    using close(2)[OF c(5) near] c pow2_word[OF c(1)] by auto
qed

lemmas ring_updates =
  ring_set_notify_on_cons_def ring_set_notify_on_prod_def ring_push_def ring_pop_def

lemma ring_counts_step:
  assumes "ring_step s t" "ring_counts k nc s"
  shows "ring_counts k (if cpc s = C_Read \<and> cpc t = C_Popped then nc + 1 else nc) t"
  using assms ring_indices[OF assms(2)]
  by (cases rule: ring_step.cases) (auto simp: ring_counts_def ring_updates)


lemma ring_data_step:
  assumes "ring_step s t" "ring_counts k nc s" "ring_data k nc s"
  shows "ring_data k (if cpc s = C_Read \<and> cpc t = C_Popped then nc + 1 else nc) t"
  using assms(1)
proof cases
  case (prod_write x)
  have d: "length (pushed s) mod 2 ^ k \<noteq> i mod 2 ^ k" if "nc \<le> i" "i < length (pushed s)" for i
  proof (rule not_sym, rule mod_differs)
    show "length (pushed s) - i < 2 ^ k"
    proof -
      have "length (pushed s) < nc + 2 ^ k" using assms(2) prod_write by (simp add: ring_counts_def)
      then show ?thesis using that by linarith
    qed
  qed (rule that(2))
  show ?thesis using prod_write(1) assms(3) d ring_indices(1)[OF assms(2)]
    by (simp add: ring_data_def)
next
  case prod_push
  have w: "items (ring s) ! (length (pushed s) mod 2 ^ k) =
      (pushed s @ [items (ring s) ! (length (pushed s) mod 2 ^ k)]) ! length (pushed s)" by simp
  have p: "length (popped s) \<le> length (pushed s)"
    using assms(2) by (auto simp: ring_counts_def split: if_splits)
  show ?thesis
    using prod_push assms(2,3) ring_indices[OF assms(2)] p
    by (auto simp: ring_data_def ring_updates nth_append less_Suc_eq)
next
  case cons_read
  then have n: "nc < length (pushed s)" "length (popped s) = nc" using assms(2) by (auto simp: ring_counts_def)
  then show ?thesis using cons_read assms(3) ring_indices[OF assms(2)]
    by (auto simp: ring_data_def take_Suc_conv_app_nth)
qed (use assms(3) in \<open>auto simp: ring_data_def ring_updates\<close>)


lemma ring_marks_step:
  assumes "ring_step s t" "ring_counts k nc s" "ring_marks k nc s"
  shows "ring_marks k (if cpc s = C_Read \<and> cpc t = C_Popped then nc + 1 else nc) t"
proof -
  have c: "nc \<le> length (pushed s)" "length (pushed s) \<le> nc + 2 ^ k" "k < 32"
    "spice_ring.prod (ring s) = of_nat (length (pushed s))" "cons (ring s) = of_nat nc"
    using assms(2) by (auto simp: ring_counts_def)
  from assms(1) show ?thesis
  proof cases
    case prod_wait_recheck
    then obtain q where "q \<le> nc" "length (pushed s) \<le> q + 2 ^ k" "notify_on_cons (ring s) = of_nat (q + 1)"
      using assms(3) by (auto simp: ring_marks_def)
    moreover from this have "q = nc" if "length (pushed s) = nc + 2 ^ k" using that by simp
    ultimately show ?thesis
      using prod_wait_recheck assms(3) ring_indices(4)[OF assms(2)] by (auto simp: ring_marks_def)
  next
    case cons_wait_recheck
    then obtain q where "nc \<le> q" "q \<le> length (pushed s)" "notify_on_prod (ring s) = of_nat (q + 1)"
      using assms(3) by (auto simp: ring_marks_def)
    moreover from this have "q = nc" if "length (pushed s) = nc" using that by simp
    ultimately show ?thesis
      using cons_wait_recheck assms(3) ring_indices(3)[OF assms(2)] by (auto simp: ring_marks_def)
  next
    case prod_wait_mark
    then show ?thesis using assms(3) c
      by (auto simp: ring_marks_def ring_updates intro!: exI[of _ nc])
  next
    case cons_wait_mark
    then show ?thesis using assms(3) c
      by (auto simp: ring_marks_def ring_updates intro!: exI[of _ "length (pushed s)"])
  next
    case prod_push
    then show ?thesis using assms(3)
      by (auto simp: ring_marks_def ring_updates intro: le_SucI)
  next
    case cons_pop
    then have n: "nc < length (pushed s)" using assms(2) by (auto simp: ring_counts_def)
    then show ?thesis using assms(3) cons_pop
      by (auto simp: ring_marks_def ring_updates intro: le_SucI)
  next
    case prod_notify
    then show ?thesis using assms(3) c by (auto simp: ring_marks_def ring_push_notify_def)
  next
    case cons_notify
    have "length (pushed s) + 1 - 2 ^ k = nc" if "length (pushed s) + 1 = nc + 2 ^ k" using that by simp
    then show ?thesis using cons_notify assms(3) c by (auto simp: ring_marks_def ring_pop_notify_def)
  qed (use assms(3) in \<open>auto simp: ring_marks_def\<close>)
qed

section \<open>What the ring promises\<close>

definition ring_inv :: "nat \<Rightarrow> 'a ring_system \<Rightarrow> bool" where
  "ring_inv k s \<longleftrightarrow> (\<exists>nc. ring_counts k nc s \<and> ring_data k nc s \<and> ring_marks k nc s)"

lemma ring_inv_step: "ring_step s t \<Longrightarrow> ring_inv k s \<Longrightarrow> ring_inv k t"
  unfolding ring_inv_def using ring_counts_step ring_data_step ring_marks_step by blast

lemma ring_inv_init:
  assumes "length (items r) = 2 ^ k" "k < 32" "e < 32" "c \<in> {C_Idle, C_Asleep}"
  shows "ring_inv k \<lparr>ring = SPICE_RING_INIT (2 ^ e) r, ppc = P_Idle, cpc = c, pushed = [], popped = []\<rparr>"
proof -
  note n = init_num_items[OF assms(1-3)]
  have "ring_counts k 0 \<lparr>ring = SPICE_RING_INIT (2 ^ e) r, ppc = P_Idle, cpc = c, pushed = [], popped = []\<rparr>"
    using assms n by (auto simp: ring_counts_def SPICE_RING_INIT_def)
  moreover have "ring_marks k 0 \<lparr>ring = SPICE_RING_INIT (2 ^ e) r, ppc = P_Idle, cpc = c, pushed = [], popped = []\<rparr>"
    using assms(4) by (auto simp: ring_marks_def SPICE_RING_INIT_def)
  ultimately show ?thesis unfolding ring_inv_def by (intro exI[of _ 0]) (simp add: ring_data_def)
qed

lemma ring_reach_inv: "ring_reach s \<Longrightarrow> \<exists>k. ring_inv k s"
proof (induction rule: ring_reach.induct)
  case (ring_init r k e c)
  then show ?case using ring_inv_init by blast
next
  case (ring_more s t)
  then show ?case using ring_inv_step by blast
qed

lemma ring_is_a_queue_parts:
  assumes "ring_reach s"
  shows "popped s = take (length (popped s)) (pushed s)"
    and "length (popped s) \<le> length (pushed s)"
    and "length (pushed s) \<le> length (popped s) + length (items (ring s))"
    and "SPICE_RING_PROD_ITEM (ring s) < length (items (ring s))"
    and "SPICE_RING_CONS_ITEM (ring s) < length (items (ring s))"
proof -
  obtain k nc where c: "ring_counts k nc s" and d: "ring_data k nc s"
    using ring_reach_inv[OF assms] unfolding ring_inv_def by blast
  show "popped s = take (length (popped s)) (pushed s)" using d unfolding ring_data_def by blast
  show "length (popped s) \<le> length (pushed s)"
    "length (pushed s) \<le> length (popped s) + length (items (ring s))"
    using c by (auto simp: ring_counts_def split: if_splits)
  show "SPICE_RING_PROD_ITEM (ring s) < length (items (ring s))"
    "SPICE_RING_CONS_ITEM (ring s) < length (items (ring s))"
    using ring_indices(1,2)[OF c] c by (simp_all add: ring_counts_def)
qed

text \<open>
  C16. The ring is a queue: in every interleaving of the two sides what has been popped is the first part of
  what has been pushed, in order, and what is between fits the ring; the producer writes only where no
  item waits, and the consumer reads only an item that is there.
\<close>

theorem ring_is_a_queue:
  assumes "ring_reach s"
  shows "popped s = take (length (popped s)) (pushed s) \<and>
    length (popped s) \<le> length (pushed s) \<and>
    length (pushed s) \<le> length (popped s) + length (items (ring s)) \<and>
    SPICE_RING_PROD_ITEM (ring s) < length (items (ring s)) \<and>
    SPICE_RING_CONS_ITEM (ring s) < length (items (ring s))"
  using ring_is_a_queue_parts[OF assms] by blast

lemma ring_no_lost_wakeup_parts:
  assumes "ring_reach s"
  shows "cpc s = C_Asleep \<Longrightarrow> SPICE_RING_IS_EMPTY (ring s) \<or> ppc s = P_Pushed \<and> ring_push_notify (ring s)"
    and "ppc s = P_Asleep \<Longrightarrow> SPICE_RING_IS_FULL (ring s) \<or> cpc s = C_Popped \<and> ring_pop_notify (ring s)"
    and "\<not> (cpc s = C_Asleep \<and> ppc s = P_Asleep)"
    and "\<exists>t. ring_step s t"
proof -
  obtain k nc where c: "ring_counts k nc s" and m: "ring_marks k nc s"
    using ring_reach_inv[OF assms] unfolding ring_inv_def by blast
  note i = ring_indices(3,4)[OF c]
  show "SPICE_RING_IS_EMPTY (ring s) \<or> ppc s = P_Pushed \<and> ring_push_notify (ring s)" if "cpc s = C_Asleep"
    using that c m i by (auto simp: ring_marks_def ring_counts_def ring_push_notify_def)
  show "SPICE_RING_IS_FULL (ring s) \<or> cpc s = C_Popped \<and> ring_pop_notify (ring s)" if a: "ppc s = P_Asleep"
  proof -
    have "notify_on_cons (ring s) = of_nat (length (pushed s) + 1 - 2 ^ k)"
      "length (pushed s) = nc + 2 ^ k \<or> length (pushed s) + 1 = nc + 2 ^ k \<and> cpc s = C_Popped"
      using a m unfolding ring_marks_def by blast+
    moreover have "cons (ring s) = of_nat nc" using c unfolding ring_counts_def by blast
    moreover have "length (pushed s) + 1 - 2 ^ k = nc" if "length (pushed s) + 1 = nc + 2 ^ k" using that by simp
    ultimately show ?thesis using i(2) unfolding ring_pop_notify_def by metis
  qed
  show n: "\<not> (cpc s = C_Asleep \<and> ppc s = P_Asleep)"
  proof
    assume b: "cpc s = C_Asleep \<and> ppc s = P_Asleep"
    then show False using m unfolding ring_marks_def by clarsimp
  qed
  show "\<exists>t. ring_step s t"
  proof (cases "ppc s = P_Asleep")
    case True
    then have "cpc s \<noteq> C_Asleep" using n by blast
    then show ?thesis by (cases "cpc s") (blast intro: ring_step.intros)+
  next
    case False
    then show ?thesis by (cases "ppc s") (blast intro: ring_step.intros)+
  qed
qed

text \<open>
  C2. No wake-up is lost: a consumer asleep while an item waits is one whose producer has just pushed and
  is about to notify it, a producer asleep while there is room one whose consumer has just popped and
  is about to notify it, and the two are never both asleep; so one of them can always go on.
\<close>

theorem ring_no_lost_wakeup:
  assumes "ring_reach s"
  shows "(cpc s = C_Asleep \<longrightarrow>
      SPICE_RING_IS_EMPTY (ring s) \<or> ppc s = P_Pushed \<and> ring_push_notify (ring s)) \<and>
    (ppc s = P_Asleep \<longrightarrow>
      SPICE_RING_IS_FULL (ring s) \<or> cpc s = C_Popped \<and> ring_pop_notify (ring s)) \<and>
    \<not> (cpc s = C_Asleep \<and> ppc s = P_Asleep) \<and> (\<exists>t. ring_step s t)"
  using ring_no_lost_wakeup_parts[OF assms] by blast

lemma ring_macros_are_runs_parts:
  shows "ppc s = P_Idle \<Longrightarrow>
      ring_step\<^sup>*\<^sup>* s (s\<lparr>ring := snd (SPICE_RING_PROD_WAIT (ring s)),
        ppc := if fst (SPICE_RING_PROD_WAIT (ring s)) then P_Asleep else P_Ready\<rparr>)"
    and "cpc s = C_Idle \<Longrightarrow>
      ring_step\<^sup>*\<^sup>* s (s\<lparr>ring := snd (SPICE_RING_CONS_WAIT (ring s)),
        cpc := if fst (SPICE_RING_CONS_WAIT (ring s)) then C_Asleep else C_Ready\<rparr>)"
    and "ppc s = P_Written \<Longrightarrow>
      ring_step\<^sup>*\<^sup>* s (s\<lparr>ring := snd (SPICE_RING_PUSH (ring s)),
        pushed := pushed s @ [items (ring s) ! SPICE_RING_PROD_ITEM (ring s)], ppc := P_Idle,
        cpc := if fst (SPICE_RING_PUSH (ring s)) \<and> cpc s = C_Asleep then C_Idle else cpc s\<rparr>)"
    and "cpc s = C_Read \<Longrightarrow>
      ring_step\<^sup>*\<^sup>* s (s\<lparr>ring := snd (SPICE_RING_POP (ring s)), cpc := C_Idle,
        ppc := if fst (SPICE_RING_POP (ring s)) \<and> ppc s = P_Asleep then P_Idle else ppc s\<rparr>)"
proof -
  note run = converse_rtranclp_into_rtranclp[where r = ring_step]
  show "ring_step\<^sup>*\<^sup>* s (s\<lparr>ring := snd (SPICE_RING_PROD_WAIT (ring s)),
        ppc := if fst (SPICE_RING_PROD_WAIT (ring s)) then P_Asleep else P_Ready\<rparr>)" if i: "ppc s = P_Idle"
  proof (cases "SPICE_RING_IS_FULL (ring s)")
    case True
    define r where "r = ring_set_notify_on_cons (ring s)"
    have "ring_step s (s\<lparr>ppc := P_Mark\<rparr>)" using prod_wait_check[OF i] True by simp
    moreover have "ring_step (s\<lparr>ppc := P_Mark\<rparr>) (s\<lparr>ring := r, ppc := P_Recheck\<rparr>)"
      using prod_wait_mark[of "s\<lparr>ppc := P_Mark\<rparr>"] by (simp add: r_def)
    moreover have "ring_step (s\<lparr>ring := r, ppc := P_Recheck\<rparr>)
        (s\<lparr>ring := r, ppc := if SPICE_RING_IS_FULL r then P_Asleep else P_Ready\<rparr>)"
      using prod_wait_recheck[of "s\<lparr>ring := r, ppc := P_Recheck\<rparr>"] by simp
    ultimately show ?thesis
      using True by (simp add: SPICE_RING_PROD_WAIT_def Let_def r_def[symmetric] run[OF _ run[OF _ r_into_rtranclp]])
  next
    case False
    then have "ring_step s (s\<lparr>ppc := P_Ready\<rparr>)" using prod_wait_check[OF i] by simp
    then show ?thesis using False by (simp add: SPICE_RING_PROD_WAIT_def r_into_rtranclp)
  qed
  show "ring_step\<^sup>*\<^sup>* s (s\<lparr>ring := snd (SPICE_RING_CONS_WAIT (ring s)),
        cpc := if fst (SPICE_RING_CONS_WAIT (ring s)) then C_Asleep else C_Ready\<rparr>)" if i: "cpc s = C_Idle"
  proof (cases "SPICE_RING_IS_EMPTY (ring s)")
    case True
    define r where "r = ring_set_notify_on_prod (ring s)"
    have "ring_step s (s\<lparr>cpc := C_Mark\<rparr>)" using cons_wait_check[OF i] True by simp
    moreover have "ring_step (s\<lparr>cpc := C_Mark\<rparr>) (s\<lparr>ring := r, cpc := C_Recheck\<rparr>)"
      using cons_wait_mark[of "s\<lparr>cpc := C_Mark\<rparr>"] by (simp add: r_def)
    moreover have "ring_step (s\<lparr>ring := r, cpc := C_Recheck\<rparr>)
        (s\<lparr>ring := r, cpc := if SPICE_RING_IS_EMPTY r then C_Asleep else C_Ready\<rparr>)"
      using cons_wait_recheck[of "s\<lparr>ring := r, cpc := C_Recheck\<rparr>"] by simp
    ultimately show ?thesis
      using True by (simp add: SPICE_RING_CONS_WAIT_def Let_def r_def[symmetric] run[OF _ run[OF _ r_into_rtranclp]])
  next
    case False
    then have "ring_step s (s\<lparr>cpc := C_Ready\<rparr>)" using cons_wait_check[OF i] by simp
    then show ?thesis using False by (simp add: SPICE_RING_CONS_WAIT_def r_into_rtranclp)
  qed
  show "ring_step\<^sup>*\<^sup>* s (s\<lparr>ring := snd (SPICE_RING_PUSH (ring s)),
        pushed := pushed s @ [items (ring s) ! SPICE_RING_PROD_ITEM (ring s)], ppc := P_Idle,
        cpc := if fst (SPICE_RING_PUSH (ring s)) \<and> cpc s = C_Asleep then C_Idle else cpc s\<rparr>)"
    if i: "ppc s = P_Written"
  proof (rule run[OF prod_push[OF i] r_into_rtranclp])
    let ?p = "s\<lparr>ring := ring_push (ring s), ppc := P_Pushed,
      pushed := pushed s @ [items (ring s) ! SPICE_RING_PROD_ITEM (ring s)]\<rparr>"
    show "ring_step ?p (s\<lparr>ring := snd (SPICE_RING_PUSH (ring s)),
        pushed := pushed s @ [items (ring s) ! SPICE_RING_PROD_ITEM (ring s)], ppc := P_Idle,
        cpc := if fst (SPICE_RING_PUSH (ring s)) \<and> cpc s = C_Asleep then C_Idle else cpc s\<rparr>)"
      using prod_notify[of ?p] by (simp cong: if_cong add: SPICE_RING_PUSH_def Let_def)
  qed
  show "ring_step\<^sup>*\<^sup>* s (s\<lparr>ring := snd (SPICE_RING_POP (ring s)), cpc := C_Idle,
        ppc := if fst (SPICE_RING_POP (ring s)) \<and> ppc s = P_Asleep then P_Idle else ppc s\<rparr>)"
    if i: "cpc s = C_Read"
  proof (rule run[OF cons_pop[OF i] r_into_rtranclp])
    let ?p = "s\<lparr>ring := ring_pop (ring s), cpc := C_Popped\<rparr>"
    show "ring_step ?p (s\<lparr>ring := snd (SPICE_RING_POP (ring s)), cpc := C_Idle,
        ppc := if fst (SPICE_RING_POP (ring s)) \<and> ppc s = P_Asleep then P_Idle else ppc s\<rparr>)"
      using cons_notify[of ?p] by (simp cong: if_cong add: SPICE_RING_POP_def Let_def)
  qed
qed

text \<open>
  The macros are what the steps add up to when the other side does not run in between: a \<open>WAIT\<close> that
  comes out false leaves the side ready, one that comes out true asleep, and \<open>PUSH\<close> and \<open>POP\<close> are the
  counter's step and the notification.
\<close>

theorem ring_macros_are_runs:
  "(ppc s = P_Idle \<longrightarrow>
      ring_step\<^sup>*\<^sup>* s (s\<lparr>ring := snd (SPICE_RING_PROD_WAIT (ring s)),
        ppc := if fst (SPICE_RING_PROD_WAIT (ring s)) then P_Asleep else P_Ready\<rparr>)) \<and>
   (cpc s = C_Idle \<longrightarrow>
      ring_step\<^sup>*\<^sup>* s (s\<lparr>ring := snd (SPICE_RING_CONS_WAIT (ring s)),
        cpc := if fst (SPICE_RING_CONS_WAIT (ring s)) then C_Asleep else C_Ready\<rparr>)) \<and>
   (ppc s = P_Written \<longrightarrow>
      ring_step\<^sup>*\<^sup>* s (s\<lparr>ring := snd (SPICE_RING_PUSH (ring s)),
        pushed := pushed s @ [items (ring s) ! SPICE_RING_PROD_ITEM (ring s)], ppc := P_Idle,
        cpc := if fst (SPICE_RING_PUSH (ring s)) \<and> cpc s = C_Asleep then C_Idle else cpc s\<rparr>)) \<and>
   (cpc s = C_Read \<longrightarrow>
      ring_step\<^sup>*\<^sup>* s (s\<lparr>ring := snd (SPICE_RING_POP (ring s)), cpc := C_Idle,
        ppc := if fst (SPICE_RING_POP (ring s)) \<and> ppc s = P_Asleep then P_Idle else ppc s\<rparr>))"
  using ring_macros_are_runs_parts[of s] by blast

text \<open>A ring of two items, the consumer asleep, and the producer's first push.\<close>

definition small_ring :: "nat spice_ring" where
  "small_ring = \<lparr>num_items = 0, prod = 0, notify_on_prod = 0, cons = 0, notify_on_cons = 0, items = [0, 0]\<rparr>"

definition ring_start :: "nat ring_system" where
  "ring_start = \<lparr>ring = SPICE_RING_INIT (2 ^ 3) small_ring, ppc = P_Idle, cpc = C_Asleep, pushed = [], popped = []\<rparr>"

definition ring_pushed_one :: "nat ring_system" where
  "ring_pushed_one = ring_start\<lparr>
     ring := (ring ring_start)\<lparr>items := [7, 0], prod := 1\<rparr>, ppc := P_Pushed, pushed := [7]\<rparr>"

lemma ring_pushed_one_reach: "ring_reach ring_pushed_one"
proof -
  have "ring_reach ring_start"
    unfolding ring_start_def by (rule ring_init[where k = 1]) (simp_all add: small_ring_def)
  moreover have n: "num_items (ring ring_start) = 2"
    using init_num_items[of small_ring 1 3] by (simp add: ring_start_def small_ring_def)
  moreover have "ring_step ring_start (ring_start\<lparr>ppc := P_Ready\<rparr>)"
    using prod_wait_check[of ring_start] n
    by (simp add: SPICE_RING_IS_FULL_def) (simp add: ring_start_def SPICE_RING_INIT_def)
  ultimately have a: "ring_reach (ring_start\<lparr>ppc := P_Ready\<rparr>)" by (blast intro: ring_more)
  have z: "SPICE_RING_PROD_ITEM (ring ring_start) = 0"
    by (simp add: SPICE_RING_PROD_ITEM_def ring_start_def SPICE_RING_INIT_def)
  have i: "items (ring ring_start) = [0, 0]" "prod (ring ring_start) = 0" "pushed ring_start = []"
    by (simp_all add: ring_start_def SPICE_RING_INIT_def small_ring_def)
  have b: "ring_reach (ring_start\<lparr>ring := (ring ring_start)\<lparr>items := [7, 0]\<rparr>, ppc := P_Written\<rparr>)"
    using ring_more[OF a prod_write[of "ring_start\<lparr>ppc := P_Ready\<rparr>" 7]] z i by simp
  have "SPICE_RING_PROD_ITEM ((ring ring_start)\<lparr>items := [7, 0]\<rparr>) = 0"
    by (simp add: SPICE_RING_PROD_ITEM_def i)
  then show ?thesis
    using ring_more[OF b prod_push] i by (simp add: ring_pushed_one_def ring_push_def)
qed

theorem ring_is_a_queue_witness:
  "length (popped ring_pushed_one) \<le> 1 \<and> SPICE_RING_CONS_ITEM (ring ring_pushed_one) < 2"
  using ring_is_a_queue[OF ring_pushed_one_reach]
  by (simp add: ring_pushed_one_def ring_start_def)

theorem ring_no_lost_wakeup_witness:
  "ring_push_notify (ring ring_pushed_one) \<and> (\<exists>t. ring_step ring_pushed_one t)"
  using ring_no_lost_wakeup[OF ring_pushed_one_reach]
  by (simp add: ring_pushed_one_def ring_start_def SPICE_RING_IS_EMPTY_def SPICE_RING_INIT_def)

theorem ring_macros_are_runs_witness:
  "ring_step\<^sup>*\<^sup>* ring_start (ring_start\<lparr>ring := snd (SPICE_RING_PROD_WAIT (ring ring_start)), ppc := P_Ready\<rparr>)"
proof -
  have "num_items (ring ring_start) = 2"
    using init_num_items[of small_ring 1 3] by (simp add: ring_start_def small_ring_def)
  then have "\<not> fst (SPICE_RING_PROD_WAIT (ring ring_start))"
    by (simp add: SPICE_RING_PROD_WAIT_def SPICE_RING_IS_FULL_def) (simp add: ring_start_def SPICE_RING_INIT_def)
  moreover have "ppc ring_start = P_Idle" by (simp add: ring_start_def)
  ultimately show ?thesis using ring_macros_are_runs[of ring_start] by simp
qed

end
