(* ===== verification/C_Layout.thy ===== *)
theory C_Layout
  imports Gst_Utils
begin

text \<open>
  How a C compiler lays out the structures of the SPICE headers: sizes, alignments and offsets of
  packed and plain structures and unions, under both ways \<open>start-packed.h\<close> has of packing, the access
  to a member through a path, and what makes a layout the same for every compiler.
\<close>

section \<open>Types and packing\<close>

text \<open>
  An integer of some bytes, signed or not; an array; a structure with its \<open>SPICE_ATTR_PACKED\<close> flag and
  \<open>SPICE_ATTR_ALIGNED\<close> value (1 when there is none); a union.  A member without a name has the empty
  name.
\<close>

datatype ctype =
    Int_t nat bool
  | Array_t ctype nat
  | Struct_t bool nat fields
  | Union_t bool fields
and fields =
    No_fields
  | Field string ctype fields

primrec fields_of :: "(string \<times> ctype) list \<Rightarrow> fields" where
  "fields_of [] = No_fields"
| "fields_of (f # fs) = Field (fst f) (snd f) (fields_of fs)"

abbreviation PACKED :: "(string \<times> ctype) list \<Rightarrow> ctype" where "PACKED fs \<equiv> Struct_t True 1 (fields_of fs)"
abbreviation PLAIN :: "(string \<times> ctype) list \<Rightarrow> ctype" where "PLAIN fs \<equiv> Struct_t False 1 (fields_of fs)"
abbreviation UNION :: "(string \<times> ctype) list \<Rightarrow> ctype" where "UNION fs \<equiv> Union_t False (fields_of fs)"
abbreviation UINT8 :: ctype where "UINT8 \<equiv> Int_t 1 False"
abbreviation UINT16 :: ctype where "UINT16 \<equiv> Int_t 2 False"
abbreviation UINT32 :: ctype where "UINT32 \<equiv> Int_t 4 False"
abbreviation UINT64 :: ctype where "UINT64 \<equiv> Int_t 8 False"
abbreviation INT8 :: ctype where "INT8 \<equiv> Int_t 1 True"
abbreviation INT16 :: ctype where "INT16 \<equiv> Int_t 2 True"
abbreviation INT32 :: ctype where "INT32 \<equiv> Int_t 4 True"

text \<open>
  \<open>start-packed.h\<close>: GCC packs a structure by the attribute it carries, other compilers pack everything
  between the two headers by a pragma and the attribute is empty.
\<close>

datatype packing = Attribute_packing | Pragma_packing

definition packs :: "packing \<Rightarrow> bool \<Rightarrow> bool" where
  "packs m attr = (case m of Attribute_packing \<Rightarrow> attr | Pragma_packing \<Rightarrow> True)"

section \<open>Sizes and offsets\<close>

definition round_up :: "nat \<Rightarrow> nat \<Rightarrow> nat" where
  "round_up off a = off + (a - off mod a) mod a"

fun align_of :: "packing \<Rightarrow> ctype \<Rightarrow> nat" and fields_align :: "packing \<Rightarrow> fields \<Rightarrow> nat" where
  "align_of m (Int_t n s) = n"
| "align_of m (Array_t t n) = align_of m t"
| "align_of m (Struct_t p a fs) = max a (if packs m p then 1 else fields_align m fs)"
| "align_of m (Union_t p fs) = (if packs m p then 1 else fields_align m fs)"
| "fields_align m No_fields = 1"
| "fields_align m (Field x t fs) = max (align_of m t) (fields_align m fs)"

fun size_of :: "packing \<Rightarrow> ctype \<Rightarrow> nat" and fields_end :: "packing \<Rightarrow> bool \<Rightarrow> nat \<Rightarrow> fields \<Rightarrow> nat"
  and fields_max :: "packing \<Rightarrow> fields \<Rightarrow> nat" where
  "size_of m (Int_t n s) = n"
| "size_of m (Array_t t n) = n * size_of m t"
| "size_of m (Struct_t p a fs) = round_up (fields_end m (packs m p) 0 fs) (align_of m (Struct_t p a fs))"
| "size_of m (Union_t p fs) = round_up (fields_max m fs) (align_of m (Union_t p fs))"
| "fields_end m tight off No_fields = off"
| "fields_end m tight off (Field x t fs) =
     fields_end m tight (round_up off (if tight then 1 else align_of m t) + size_of m t) fs"
| "fields_max m No_fields = 0"
| "fields_max m (Field x t fs) = max (size_of m t) (fields_max m fs)"

fun field_at :: "packing \<Rightarrow> bool \<Rightarrow> nat \<Rightarrow> fields \<Rightarrow> string \<Rightarrow> (nat \<times> ctype) option" where
  "field_at m tight off No_fields x = None"
| "field_at m tight off (Field y t fs) x =
     (let off = round_up off (if tight then 1 else align_of m t)
      in if x = y then Some (off, t) else field_at m tight (off + size_of m t) fs x)"

fun member_type :: "fields \<Rightarrow> string \<Rightarrow> ctype option" where
  "member_type No_fields x = None"
| "member_type (Field y t fs) x = (if x = y then Some t else member_type fs x)"

text \<open>A path is what stands behind the name of the object: \<open>.member\<close> and \<open>[index]\<close>.\<close>

datatype selector = Member string | Index nat

fun child :: "packing \<Rightarrow> ctype \<Rightarrow> selector \<Rightarrow> (nat \<times> ctype) option" where
  "child m (Struct_t p a fs) (Member x) = field_at m (packs m p) 0 fs x"
| "child m (Union_t p fs) (Member x) = map_option (Pair 0) (member_type fs x)"
| "child m (Array_t t n) (Index i) = (if i < n then Some (i * size_of m t, t) else None)"
| "child m t s = None"

primrec locate :: "packing \<Rightarrow> selector list \<Rightarrow> ctype \<Rightarrow> (nat \<times> ctype) option" where
  "locate m [] t = Some (0, t)"
| "locate m (s # p) t =
     (case child m t s of None \<Rightarrow> None
      | Some (off, t') \<Rightarrow> map_option (\<lambda>(off', t''). (off + off', t'')) (locate m p t'))"

section \<open>Access to a member\<close>

definition get_field :: "platform \<Rightarrow> packing \<Rightarrow> mem \<Rightarrow> nat \<Rightarrow> ctype \<Rightarrow> selector list \<Rightarrow> int option" where
  "get_field pf m h base t p =
     (case locate m p t of
        Some (off, Int_t n s) \<Rightarrow>
          let v = uint (native_read pf n h (base + off) :: guint64)
          in Some (if s then signed_take_bit (8 * n - 1) v else v)
      | _ \<Rightarrow> None)"

definition set_field :: "platform \<Rightarrow> packing \<Rightarrow> nat \<Rightarrow> ctype \<Rightarrow> selector list \<Rightarrow> int \<Rightarrow> mem \<Rightarrow> mem option" where
  "set_field pf m base t p v h =
     (case locate m p t of
        Some (off, Int_t n s) \<Rightarrow> Some (native_write pf n h (base + off) (word_of_int v :: guint64))
      | _ \<Rightarrow> None)"

definition fits_int :: "nat \<Rightarrow> bool \<Rightarrow> int \<Rightarrow> bool" where
  "fits_int n s v \<longleftrightarrow> (if s then - (2 ^ (8 * n - 1)) \<le> v \<and> v < 2 ^ (8 * n - 1) else 0 \<le> v \<and> v < 2 ^ (8 * n))"

text \<open>Two paths part at a structure or an array, where members do not share bytes.\<close>

fun parting :: "packing \<Rightarrow> ctype \<Rightarrow> selector list \<Rightarrow> selector list \<Rightarrow> bool" where
  "parting m t (s # p) (s' # q) =
     (if s = s' then (case child m t s of None \<Rightarrow> False | Some (off, t') \<Rightarrow> parting m t' p q)
      else (case t of Union_t _ _ \<Rightarrow> False | _ \<Rightarrow> True))"
| "parting m t p q = False"

section \<open>Members lie inside and apart\<close>

lemma round_up_ge [simp]: "off \<le> round_up off a"
  by (simp add: round_up_def)

lemma round_up_1 [simp]: "round_up off (Suc 0) = off"
  by (simp add: round_up_def)

lemma fields_only_induct [case_names No_fields Field]:
  assumes "P No_fields" "\<And>x t fs. P fs \<Longrightarrow> P (Field x t fs)"
  shows "P fs"
  by (rule fields.induct[where ?P1.0 = "\<lambda>_. True"]) (use assms in auto)

lemma fields_end_ge: "off \<le> fields_end m tight off fs"
proof (induction fs arbitrary: off rule: fields_only_induct)
  case (Field x t fs)
  let ?o = "round_up off (if tight then 1 else align_of m t)"
  have "off \<le> ?o + size_of m t" using round_up_ge[of off] by (rule trans_le_add1)
  also have "\<dots> \<le> fields_end m tight (?o + size_of m t) fs" by (rule Field.IH)
  finally show ?case by simp
qed simp_all

lemma field_at_inside:
  "field_at m tight off fs x = Some (o', t) \<Longrightarrow> off \<le> o' \<and> o' + size_of m t \<le> fields_end m tight off fs"
proof (induction fs arbitrary: off rule: fields_only_induct)
  case (Field y u fs)
  let ?o = "round_up off (if tight then 1 else align_of m u)"
  show ?case
  proof (cases "x = y")
    case True
    then show ?thesis using Field.prems fields_end_ge[of "?o + size_of m u" m tight fs]
      by (auto simp: Let_def)
  next
    case False
    then have "?o + size_of m u \<le> o' \<and> o' + size_of m t \<le> fields_end m tight (?o + size_of m u) fs"
      using Field by (simp add: Let_def)
    then show ?thesis using round_up_ge[of off "if tight then 1 else align_of m u"] False
      by (auto simp: Let_def simp del: round_up_ge)
  qed
qed simp_all

lemma field_at_apart:
  "field_at m tight off fs x = Some (o1, t1) \<Longrightarrow> field_at m tight off fs y = Some (o2, t2) \<Longrightarrow> x \<noteq> y \<Longrightarrow>
     o1 + size_of m t1 \<le> o2 \<or> o2 + size_of m t2 \<le> o1"
proof (induction fs arbitrary: off rule: fields_only_induct)
  case (Field z u fs)
  let ?o = "round_up off (if tight then 1 else align_of m u)"
  consider "x = z" | "y = z" | "x \<noteq> z" "y \<noteq> z" by blast
  then show ?case
  proof cases
    case 1
    then show ?thesis using Field.prems field_at_inside[of m tight "?o + size_of m u" fs y o2 t2]
      by (auto simp: Let_def split: if_splits)
  next
    case 2
    then show ?thesis using Field.prems field_at_inside[of m tight "?o + size_of m u" fs x o1 t1]
      by (auto simp: Let_def split: if_splits)
  next
    case 3
    then show ?thesis using Field by (simp add: Let_def)
  qed
qed simp_all

lemma member_type_max: "member_type fs x = Some t \<Longrightarrow> size_of m t \<le> fields_max m fs"
  by (induction fs rule: fields_only_induct) (auto split: if_splits)

lemma child_inside:
  assumes "child m t s = Some (off, t')"
  shows "off + size_of m t' \<le> size_of m t"
proof (cases t)
  case (Int_t n b)
  then show ?thesis using assms by (cases s) auto
next
  case (Array_t u n)
  then obtain i where i: "s = Index i" using assms by (cases s) auto
  then have "i < n" "off = i * size_of m u" "t' = u" using assms Array_t by (auto split: if_splits)
  moreover from this have "Suc i * size_of m u \<le> n * size_of m u" by (intro mult_le_mono1) simp
  ultimately show ?thesis using Array_t by simp
next
  case (Struct_t p a fs)
  then obtain x where "s = Member x" using assms by (cases s) auto
  then have "off + size_of m t' \<le> fields_end m (packs m p) 0 fs"
    using assms Struct_t field_at_inside[of m "packs m p" 0 fs x off t'] by simp
  also have "\<dots> \<le> size_of m t" using Struct_t by simp
  finally show ?thesis .
next
  case (Union_t p fs)
  then obtain x where "s = Member x" using assms by (cases s) auto
  then have "off + size_of m t' \<le> fields_max m fs"
    using assms Union_t member_type_max[of fs x t'] by auto
  also have "\<dots> \<le> size_of m t" using Union_t by simp
  finally show ?thesis .
qed

lemma locate_inside: "locate m p t = Some (off, t') \<Longrightarrow> off + size_of m t' \<le> size_of m t"
proof (induction p arbitrary: t off)
  case (Cons s p)
  then obtain o1 u o2 where "child m t s = Some (o1, u)" "locate m p u = Some (o2, t')" "off = o1 + o2"
    by (auto split: option.splits)
  then show ?case using Cons.IH[of u o2] child_inside[of m t s o1 u] by simp
qed simp

lemma child_apart:
  assumes "child m t s = Some (o1, t1)" "child m t s' = Some (o2, t2)" "s \<noteq> s'" "\<nexists>p fs. t = Union_t p fs"
  shows "o1 + size_of m t1 \<le> o2 \<or> o2 + size_of m t2 \<le> o1"
proof (cases t)
  case (Array_t u n)
  then obtain i j where ij: "s = Index i" "s' = Index j" using assms(1,2)
    by (cases s; cases s') auto
  then have "i < j \<or> j < i" using assms(3) by auto
  then have "Suc i * size_of m u \<le> j * size_of m u \<or> Suc j * size_of m u \<le> i * size_of m u"
    using mult_le_mono1[of "Suc i" j "size_of m u"] mult_le_mono1[of "Suc j" i "size_of m u"]
    by (auto simp: Suc_le_eq)
  then show ?thesis using assms(1,2) Array_t ij by (auto split: if_splits)
next
  case (Struct_t p a fs)
  then obtain x y where "s = Member x" "s' = Member y" using assms(1,2) by (cases s; cases s') auto
  then show ?thesis using assms Struct_t field_at_apart[of m "packs m p" 0 fs x o1 t1 y o2 t2] by auto
qed (use assms in auto)

lemma locate_apart:
  "locate m p t = Some (o1, t1) \<Longrightarrow> locate m q t = Some (o2, t2) \<Longrightarrow> parting m t p q \<Longrightarrow>
     o1 + size_of m t1 \<le> o2 \<or> o2 + size_of m t2 \<le> o1"
proof (induction p arbitrary: q t o1 o2)
  case (Cons s p)
  then obtain s' q' where q: "q = s' # q'" by (cases q) auto
  obtain a1 u1 b1 where 1: "child m t s = Some (a1, u1)" "locate m p u1 = Some (b1, t1)" "o1 = a1 + b1"
    using Cons.prems(1) by (auto split: option.splits)
  obtain a2 u2 b2 where 2: "child m t s' = Some (a2, u2)" "locate m q' u2 = Some (b2, t2)" "o2 = a2 + b2"
    using Cons.prems(2) q by (auto split: option.splits)
  show ?case
  proof (cases "s = s'")
    case True
    then show ?thesis using Cons.IH[of u1 b1 q' b2] Cons.prems(3) 1 2 q by auto
  next
    case False
    then have "\<nexists>p fs. t = Union_t p fs" using Cons.prems(3) q by auto
    then have "a1 + size_of m u1 \<le> a2 \<or> a2 + size_of m u2 \<le> a1"
      using child_apart[OF 1(1) 2(1) False] by blast
    then show ?thesis using locate_inside[OF 1(2)] locate_inside[OF 2(2)] 1(3) 2(3) by linarith
  qed
qed simp


section \<open>Reading what was written\<close>

lemma native_read_write:
  "n \<le> 8 \<Longrightarrow> (native_read pf n (native_write pf n h p v) p :: guint64) = take_bit (8 * n) v"
  by (cases "G_BYTE_ORDER pf") (simp_all add: native_read_def native_write_def bytes_word_word_bytes_take)

lemma native_read_other:
  assumes "p + n \<le> q \<or> q + k \<le> p"
  shows "native_read pf n (native_write pf k h q v) p = native_read pf n h p"
proof -
  have "mem_bytes (native_write pf k h q v) p n = mem_bytes h p n"
    using assms by (intro mem_bytes_cong) (auto simp: native_write_def mem_store_other split: byte_order.split)
  then show ?thesis unfolding native_read_def by (simp only:)
qed

lemma signed_field:
  assumes "fits_int n s v" "0 < n" "n \<le> 8"
  shows "(if s then signed_take_bit (8 * n - 1) (uint (take_bit (8 * n) (word_of_int v :: guint64)))
          else uint (take_bit (8 * n) (word_of_int v :: guint64))) = v"
proof -
  have u: "uint (take_bit (8 * n) (word_of_int v :: guint64)) = take_bit (8 * n) v"
    using assms(3) by (simp add: unsigned_take_bit_eq uint_word_of_int_eq take_bit_take_bit min_def)
  show ?thesis
  proof (cases s)
    case True
    then have "- (2 ^ (8 * n - 1)) \<le> v" "v < 2 ^ (8 * n - 1)" using assms(1) by (simp_all add: fits_int_def)
    then have "signed_take_bit (8 * n - 1) v = v" by (simp add: signed_take_bit_int_eq_self)
    moreover have "signed_take_bit (8 * n - 1) (take_bit (8 * n) v) = signed_take_bit (8 * n - 1) v"
      using assms(2) by (auto simp: signed_take_bit_take_bit)
    ultimately show ?thesis using True u by simp
  next
    case False
    then have "take_bit (8 * n) v = v" using assms(1) by (simp add: fits_int_def take_bit_int_eq_self)
    then show ?thesis using False u by simp
  qed
qed

lemma get_set_field:
  assumes "set_field pf m base t p v h = Some h'" "locate m p t = Some (off, Int_t n s)"
    and "fits_int n s v" "0 < n" "n \<le> 8"
  shows "get_field pf m h' base t p = Some v"
proof -
  have "h' = native_write pf n h (base + off) (word_of_int v :: guint64)"
    using assms(1,2) by (simp add: set_field_def)
  then show ?thesis
    using assms(2) native_read_write[OF assms(5), of pf h "base + off" "word_of_int v"] signed_field[OF assms(3-5)]
    by (cases s) (simp_all add: get_field_def Let_def)
qed

lemma get_other_field:
  assumes "set_field pf m base t p v h = Some h'" "parting m t p q"
  shows "get_field pf m h' base t q = get_field pf m h base t q"
proof -
  obtain o1 n s where 1: "locate m p t = Some (o1, Int_t n s)"
    and h': "h' = native_write pf n h (base + o1) (word_of_int v :: guint64)"
    using assms(1) by (auto simp: set_field_def split: option.splits ctype.splits)
  have "native_read pf k h' (base + o2) = (native_read pf k h (base + o2) :: guint64)"
    if "locate m q t = Some (o2, Int_t k s2)" for o2 k s2
    using native_read_other[of "base + o2" k "base + o1" n] locate_apart[OF 1 that assms(2)] h' by auto
  then show ?thesis by (simp add: get_field_def split: option.split ctype.split)
qed

section \<open>Layouts that no compiler changes\<close>

text \<open>
  Members that need no padding where they stand, so that the plain layout is the packed one.
\<close>

fun no_holes :: "nat \<Rightarrow> fields \<Rightarrow> bool" where
  "no_holes off No_fields = True"
| "no_holes off (Field x t fs) =
     (round_up off (align_of Attribute_packing t) = off \<and> no_holes (off + size_of Attribute_packing t) fs)"

fun rigid :: "ctype \<Rightarrow> bool" and rigid_fields :: "fields \<Rightarrow> bool" where
  "rigid (Int_t n s) = (0 < n \<and> n \<le> 8)"
| "rigid (Array_t t n) = rigid t"
| "rigid (Struct_t p a fs) =
     (rigid_fields fs \<and> (p \<or> no_holes 0 fs) \<and>
      size_of Attribute_packing (Struct_t p a fs) = fields_end Attribute_packing True 0 fs \<and>
      size_of Pragma_packing (Struct_t p a fs) = fields_end Pragma_packing True 0 fs)"
| "rigid (Union_t p fs) =
     (rigid_fields fs \<and> size_of Attribute_packing (Union_t p fs) = fields_max Attribute_packing fs)"
| "rigid_fields No_fields = True"
| "rigid_fields (Field x t fs) = (rigid t \<and> rigid_fields fs)"

lemma no_holes_end:
  "no_holes off fs \<Longrightarrow> fields_end Attribute_packing False off fs = fields_end Attribute_packing True off fs"
  by (induction fs arbitrary: off rule: fields_only_induct) auto

lemma no_holes_field:
  "no_holes off fs \<Longrightarrow> field_at Attribute_packing False off fs x = field_at Attribute_packing True off fs x"
  by (induction fs arbitrary: off rule: fields_only_induct) (auto simp: Let_def)

lemma union_pragma: "size_of Pragma_packing (Union_t p fs) = fields_max Pragma_packing fs"
  by (simp add: packs_def)

lemma rigid_size:
  "rigid t \<Longrightarrow> size_of Attribute_packing t = size_of Pragma_packing t"
  "rigid_fields fs \<Longrightarrow> (\<forall>off. fields_end Attribute_packing True off fs = fields_end Pragma_packing True off fs) \<and>
     fields_max Attribute_packing fs = fields_max Pragma_packing fs \<and>
     (\<forall>off x. field_at Attribute_packing True off fs x = field_at Pragma_packing True off fs x)"
proof (induction t and fs)
  case (Struct_t p a fs)
  then show ?case by (simp only: rigid.simps)
next
  case (Union_t p fs)
  then show ?case by (simp only: rigid.simps union_pragma)
qed (auto simp: Let_def)

lemma rigid_field: "rigid_fields fs \<Longrightarrow> field_at m tight off fs x = Some (o', t) \<Longrightarrow> rigid t"
  by (induction fs arbitrary: off rule: fields_only_induct) (auto simp: Let_def split: if_splits)

lemma rigid_member: "rigid_fields fs \<Longrightarrow> member_type fs x = Some t \<Longrightarrow> rigid t"
  by (induction fs rule: fields_only_induct) (auto split: if_splits)

lemma rigid_child:
  assumes "rigid t"
  shows "child Attribute_packing t s = child Pragma_packing t s"
    and "child m t s = Some (off, t') \<Longrightarrow> rigid t'"
proof -
  show "child Attribute_packing t s = child Pragma_packing t s"
  proof (cases t)
    case (Array_t u n)
    then show ?thesis using assms rigid_size(1)[of u] by (cases s) auto
  next
    case (Struct_t p a fs)
    then have "rigid_fields fs" "p \<or> no_holes 0 fs" using assms by auto
    then show ?thesis using Struct_t rigid_size(2)[of fs] no_holes_field[of 0 fs]
      by (cases s; cases p) (auto simp: packs_def)
  next
    case (Int_t n b)
    then show ?thesis by (cases s) simp_all
  next
    case (Union_t p fs)
    then show ?thesis by (cases s) simp_all
  qed
  show "rigid t'" if "child m t s = Some (off, t')"
  proof (cases t)
    case (Struct_t p a fs)
    then show ?thesis using assms that rigid_field by (cases s) auto
  next
    case (Union_t p fs)
    then show ?thesis using assms that rigid_member by (cases s) auto
  next
    case (Int_t n b)
    then show ?thesis using that by (cases s) simp_all
  next
    case (Array_t u n)
    then show ?thesis using assms that by (cases s) (auto split: if_splits)
  qed
qed

lemma rigid_locate:
  "rigid t \<Longrightarrow> locate Attribute_packing p t = locate Pragma_packing p t"
  "rigid t \<Longrightarrow> locate m p t = Some (off, t') \<Longrightarrow> rigid t'"
proof (induction p arbitrary: t off)
  case (Cons s p)
  case 1
  then show ?case using Cons(1) rigid_child[of t] by (auto split: option.split)
next
  case (Cons s p)
  case 2
  then obtain o1 u o2 where "child m t s = Some (o1, u)" "locate m p u = Some (o2, t')"
    by (auto split: option.splits)
  then show ?case using 2 Cons(2)[of u o2] rigid_child(2)[of t m s o1 u] by simp
qed simp_all

lemma rigid_modes: "rigid t \<Longrightarrow> locate m p t = locate m' p t"
  using rigid_locate(1)[of t p] by (cases m; cases m') auto

lemma rigid_sizes: "rigid t \<Longrightarrow> size_of m t = size_of m' t"
  using rigid_size(1)[of t] by (cases m; cases m') auto


section \<open>The integers of a layout\<close>

text \<open>Offset and size of every integer a type holds.\<close>

fun leaves :: "packing \<Rightarrow> ctype \<Rightarrow> (nat \<times> nat) list"
  and struct_leaves :: "packing \<Rightarrow> bool \<Rightarrow> nat \<Rightarrow> fields \<Rightarrow> (nat \<times> nat) list"
  and union_leaves :: "packing \<Rightarrow> fields \<Rightarrow> (nat \<times> nat) list" where
  "leaves m (Int_t n s) = [(0, n)]"
| "leaves m (Array_t t n) = [(i * size_of m t + o', k). i \<leftarrow> [0..<n], (o', k) \<leftarrow> leaves m t]"
| "leaves m (Struct_t p a fs) = struct_leaves m (packs m p) 0 fs"
| "leaves m (Union_t p fs) = union_leaves m fs"
| "struct_leaves m tight off No_fields = []"
| "struct_leaves m tight off (Field x t fs) =
     (let off = round_up off (if tight then 1 else align_of m t)
      in [(off + o', k). (o', k) \<leftarrow> leaves m t] @ struct_leaves m tight (off + size_of m t) fs)"
| "union_leaves m No_fields = []"
| "union_leaves m (Field x t fs) = leaves m t @ union_leaves m fs"

lemma field_leaf:
  "field_at m tight off fs x = Some (o1, t) \<Longrightarrow> (o2, k) \<in> set (leaves m t) \<Longrightarrow>
     (o1 + o2, k) \<in> set (struct_leaves m tight off fs)"
  by (induction fs arbitrary: off rule: fields_only_induct) (force simp: Let_def split: if_splits)+

lemma member_leaf:
  "member_type fs x = Some t \<Longrightarrow> set (leaves m t) \<subseteq> set (union_leaves m fs)"
  by (induction fs rule: fields_only_induct) (auto split: if_splits)

lemma child_leaf:
  assumes "child m t s = Some (o1, t')" "(o2, k) \<in> set (leaves m t')"
  shows "(o1 + o2, k) \<in> set (leaves m t)"
proof (cases t)
  case (Int_t n b)
  then show ?thesis using assms(1) by (cases s) simp_all
next
  case (Array_t u n)
  then obtain i where "s = Index i" using assms(1) by (cases s) auto
  then show ?thesis using assms Array_t by (force split: if_splits)
next
  case (Struct_t p a fs)
  then obtain x where "s = Member x" using assms(1) by (cases s) auto
  then show ?thesis using assms Struct_t field_leaf by auto
next
  case (Union_t p fs)
  then obtain x where "s = Member x" using assms(1) by (cases s) auto
  then show ?thesis using assms Union_t member_leaf[of fs x t' m] by auto
qed

lemma locate_leaf: "locate m p t = Some (off, Int_t n s) \<Longrightarrow> (off, n) \<in> set (leaves m t)"
proof (induction p arbitrary: t off)
  case (Cons s' p)
  then obtain o1 u o2 where "child m t s' = Some (o1, u)" "locate m p u = Some (o2, Int_t n s)" "off = o1 + o2"
    by (auto split: option.splits)
  then show ?case using Cons.IH child_leaf by blast
qed simp

end
