(* ===== verification/C_Enum.thy ===== *)
theory C_Enum
  imports Prelude
begin

text \<open>
  C enumerations as the headers declare them: the rule that numbers the enumerators, the decoding of a
  number that came over the wire, and enumerations of flags with their masks.
\<close>

section \<open>Numbering\<close>

text \<open>An enumerator is the one before plus one, or has the value it is given.\<close>

datatype enumerator = Next string | Given string nat

fun enum_from :: "nat \<Rightarrow> enumerator list \<Rightarrow> (string \<times> nat) list" where
  "enum_from n [] = []"
| "enum_from n (Next x # es) = (x, n) # enum_from (n + 1) es"
| "enum_from n (Given x v # es) = (x, v) # enum_from (v + 1) es"

definition enum_values :: "enumerator list \<Rightarrow> (string \<times> nat) list" where
  "enum_values es = enum_from 0 es"

definition enum_number :: "enumerator list \<Rightarrow> string \<Rightarrow> nat option" where
  "enum_number es = map_of (enum_values es)"

definition enum_name :: "enumerator list \<Rightarrow> nat \<Rightarrow> string option" where
  "enum_name es v = map_of (map prod.swap (enum_values es)) v"

primrec enumerator_name :: "enumerator \<Rightarrow> string" where
  "enumerator_name (Next x) = x"
| "enumerator_name (Given x v) = x"

lemma names_of_values: "map fst (enum_from n es) = map enumerator_name es"
  by (induction n es rule: enum_from.induct) auto

text \<open>Values given in increasing order keep the whole enumeration increasing.\<close>

fun increasing_from :: "nat \<Rightarrow> enumerator list \<Rightarrow> bool" where
  "increasing_from n [] = True"
| "increasing_from n (Next x # es) = increasing_from (n + 1) es"
| "increasing_from n (Given x v # es) = (n \<le> v \<and> increasing_from (v + 1) es)"

lemma increasing_values:
  "increasing_from n es \<Longrightarrow>
     (\<forall>v \<in> snd ` set (enum_from n es). n \<le> v) \<and> distinct (map snd (enum_from n es))"
proof (induction n es rule: enum_from.induct)
  case (2 n x es)
  then have "\<forall>v \<in> snd ` set (enum_from (n + 1) es). n + 1 \<le> v" by simp
  then show ?case using 2 by fastforce
next
  case (3 n x v es)
  then have "\<forall>w \<in> snd ` set (enum_from (v + 1) es). v + 1 \<le> w" by simp
  then show ?case using 3 by fastforce
qed simp

section \<open>An enumeration on the wire\<close>

text \<open>
  An enumeration whose codes are carried by a field of some bits: no two enumerators share a code and
  every code fits, so that a peer's number is decoded to the enumerator it was made from.
\<close>

locale wire_enum =
  fixes es :: "enumerator list" and bits :: nat
  assumes names_distinct: "distinct (map enumerator_name es)"
    and codes_distinct: "distinct (map snd (enum_values es))"
    and codes_fit: "\<forall>v \<in> snd ` set (enum_values es). v < 2 ^ bits"
begin

lemma code_of: "(x, v) \<in> set (enum_values es) \<Longrightarrow> enum_number es x = Some v"
  using names_distinct by (simp add: enum_number_def enum_values_def names_of_values)

lemma name_of: "(x, v) \<in> set (enum_values es) \<Longrightarrow> enum_name es v = Some x"
  using codes_distinct unfolding enum_name_def
  by (intro map_of_is_SomeI) (simp add: comp_def, metis image_eqI list.set_map swap_simp)

lemma decode_number: "enum_number es x = Some v \<Longrightarrow> enum_name es v = Some x \<and> v < 2 ^ bits"
  using name_of codes_fit unfolding enum_number_def by (force dest: map_of_SomeD)

lemma encode_name: "enum_name es v = Some x \<Longrightarrow> enum_number es x = Some v"
  using code_of unfolding enum_name_def by (auto dest: map_of_SomeD)

end

section \<open>Flags and their mask\<close>

definition flags_word :: "nat list \<Rightarrow> nat" where
  "flags_word vs = foldr (OR) vs 0"

definition flags_set :: "enumerator list \<Rightarrow> nat \<Rightarrow> string set" where
  "flags_set es w = fst ` {e \<in> set (enum_values es). snd e AND w \<noteq> 0}"

text \<open>Every flag is one bit, no two share it, and the last enumerator, the mask, is all of them.\<close>

definition flag_enum :: "enumerator list \<Rightarrow> bool" where
  "flag_enum es \<longleftrightarrow>
     (let vs = map snd (enum_values es)
      in vs \<noteq> [] \<and> distinct (butlast vs) \<and> list_all (\<lambda>v. list_ex (\<lambda>k. v = 2 ^ k) [0..<32]) (butlast vs) \<and>
         last vs = flags_word (butlast vs))"

lemma flag_bits: "[0..<32] = [0, 1, 2, 3, 4, 5, 6, 7, 8, 9, 10, 11, 12, 13, 14, 15, 16, 17, 18, 19, 20, 21, 22, 23, 24, 25, 26, 27, 28, 29, 30, 31]"
  by (simp add: upt_rec)

lemma bit_flags_word: "bit (flags_word vs) i \<longleftrightarrow> (\<exists>v \<in> set vs. bit v i)"
  by (induction vs) (auto simp: flags_word_def bit_or_iff)

lemma one_bit: "bit (2 ^ k :: nat) i \<longleftrightarrow> i = k"
  by (auto simp: bit_exp_iff)

lemma and_one_bit: "(2 ^ k AND w :: nat) \<noteq> 0 \<longleftrightarrow> bit w k"
  by (metis and.commute and_exp_eq_0_iff_not_bit)

text \<open>Or-ing any of the flags together and asking which are set gives these flags back.\<close>

lemma flags_round_trip:
  assumes "flag_enum es" "set fs \<subseteq> set (butlast (map snd (enum_values es)))"
    and "v \<in> set (butlast (map snd (enum_values es)))"
  shows "(v AND flags_word fs \<noteq> 0 \<longleftrightarrow> v \<in> set fs) \<and>
    flags_word fs AND last (map snd (enum_values es)) = flags_word fs"
proof
  have pow: "\<exists>k. w = 2 ^ k" if "w \<in> set (butlast (map snd (enum_values es)))" for w
    using assms(1) that by (auto simp: flag_enum_def Let_def list_all_iff list_ex_iff)
  obtain k where k: "v = 2 ^ k" using pow[OF assms(3)] by blast
  have "v AND flags_word fs \<noteq> 0 \<longleftrightarrow> (\<exists>w \<in> set fs. bit w k)"
    unfolding k and_one_bit by (rule bit_flags_word)
  also have "\<dots> \<longleftrightarrow> v \<in> set fs"
  proof
    assume "\<exists>w \<in> set fs. bit w k"
    then obtain w where "w \<in> set fs" "bit w k" by blast
    moreover from this obtain j where "w = 2 ^ j" using pow assms(2) by blast
    ultimately show "v \<in> set fs" using k by (simp add: one_bit)
  next
    assume "v \<in> set fs"
    then show "\<exists>w \<in> set fs. bit w k" using k one_bit[of k k] by blast
  qed
  finally show "v AND flags_word fs \<noteq> 0 \<longleftrightarrow> v \<in> set fs" .
  have "last (map snd (enum_values es)) = flags_word (butlast (map snd (enum_values es)))"
    using assms(1) by (simp add: flag_enum_def Let_def)
  then show "flags_word fs AND last (map snd (enum_values es)) = flags_word fs"
    using assms(2) by (intro bit_eqI) (simp add: bit_and_iff bit_flags_word, blast)
qed

end
