(* ===== verification/Qxl_Device.thy ===== *)
theory Qxl_Device
  imports C_Layout C_Enum Spice_Ring Byte_Reader
begin

text \<open>
  \<open>spice/qxl_dev.h\<close>: the structures the QXL guest driver and the device share in memory, the
  enumerations that go with them, and the rings they declare.
\<close>

section \<open>Constants and rings\<close>

abbreviation QXLPHYSICAL :: ctype where "QXLPHYSICAL \<equiv> UINT64"
abbreviation QXLFIXED :: ctype where "QXLFIXED \<equiv> INT32"

definition QXL_COMMAND_RING_SIZE :: nat where
  "QXL_COMMAND_RING_SIZE = 32"

definition QXL_CURSOR_RING_SIZE :: nat where
  "QXL_CURSOR_RING_SIZE = 32"

definition QXL_RELEASE_RING_SIZE :: nat where
  "QXL_RELEASE_RING_SIZE = 8"

definition QXL_LOG_BUF_SIZE :: nat where
  "QXL_LOG_BUF_SIZE = 4096"

definition QXL_CURSUR_DEVICE_DATA_SIZE :: nat where
  "QXL_CURSUR_DEVICE_DATA_SIZE = 128"

text \<open>
  \<open>SPICE_RING_DECLARE\<close>: an element is padded to a power of two by a union with bytes, and the number of
  items is rounded up to one.
\<close>

definition ring_element :: "ctype \<Rightarrow> ctype" where
  "ring_element el =
     PACKED [('''', UNION [(''el'', el),
       (''data'', Array_t UINT8 (unat (SPICE_POWER2_ALIGN (of_nat (size_of Attribute_packing el)))))])]"

definition SPICE_RING_DECLARE :: "ctype \<Rightarrow> nat \<Rightarrow> ctype" where
  "SPICE_RING_DECLARE el n =
     PACKED [(''num_items'', UINT32), (''prod'', UINT32), (''notify_on_prod'', UINT32), (''cons'', UINT32),
       (''notify_on_cons'', UINT32), (''items'', Array_t (ring_element el) (unat (SPICE_POWER2_ALIGN (of_nat n))))]"

section \<open>The device's structures and enumerations, in the order of the header\<close>

definition QXL_REVISION_enum :: "enumerator list" where
  "QXL_REVISION_enum =
     [Given ''QXL_REVISION_STABLE_V04'' 0x01, Given ''QXL_REVISION_STABLE_V06'' 0x02,
      Given ''QXL_REVISION_STABLE_V10'' 0x03, Given ''QXL_REVISION_STABLE_V12'' 0x04]"

definition QXL_RANGE_enum :: "enumerator list" where
  "QXL_RANGE_enum =
     [Next ''QXL_RAM_RANGE_INDEX'', Next ''QXL_VRAM_RANGE_INDEX'', Next ''QXL_ROM_RANGE_INDEX'',
      Next ''QXL_IO_RANGE_INDEX'', Next ''QXL_PCI_RANGES'']"

definition QXL_IO_enum :: "enumerator list" where
  "QXL_IO_enum =
     [Next ''QXL_IO_NOTIFY_CMD'', Next ''QXL_IO_NOTIFY_CURSOR'', Next ''QXL_IO_UPDATE_AREA'',
      Next ''QXL_IO_UPDATE_IRQ'', Next ''QXL_IO_NOTIFY_OOM'', Next ''QXL_IO_RESET'',
      Next ''QXL_IO_SET_MODE'', Next ''QXL_IO_LOG'', Next ''QXL_IO_MEMSLOT_ADD'',
      Next ''QXL_IO_MEMSLOT_DEL'', Next ''QXL_IO_DETACH_PRIMARY'',
      Next ''QXL_IO_ATTACH_PRIMARY'', Next ''QXL_IO_CREATE_PRIMARY'',
      Next ''QXL_IO_DESTROY_PRIMARY'', Next ''QXL_IO_DESTROY_SURFACE_WAIT'',
      Next ''QXL_IO_DESTROY_ALL_SURFACES'', Next ''QXL_IO_UPDATE_AREA_ASYNC'',
      Next ''QXL_IO_MEMSLOT_ADD_ASYNC'', Next ''QXL_IO_CREATE_PRIMARY_ASYNC'',
      Next ''QXL_IO_DESTROY_PRIMARY_ASYNC'', Next ''QXL_IO_DESTROY_SURFACE_ASYNC'',
      Next ''QXL_IO_DESTROY_ALL_SURFACES_ASYNC'', Next ''QXL_IO_FLUSH_SURFACES_ASYNC'',
      Next ''QXL_IO_FLUSH_RELEASE'', Next ''QXL_IO_MONITORS_CONFIG_ASYNC'',
      Next ''QXL_IO_RANGE_SIZE'']"

definition QXLPointFix :: ctype where
  "QXLPointFix =
     PACKED [(''x'', QXLFIXED), (''y'', QXLFIXED)]"

definition QXLPoint :: ctype where
  "QXLPoint =
     PACKED [(''x'', INT32), (''y'', INT32)]"

definition QXLPoint16 :: ctype where
  "QXLPoint16 =
     PACKED [(''x'', INT16), (''y'', INT16)]"

definition QXLRect :: ctype where
  "QXLRect =
     PACKED [(''top'', INT32), (''left'', INT32), (''bottom'', INT32), (''right'', INT32)]"

definition QXLURect :: ctype where
  "QXLURect =
     PACKED [(''top'', UINT32), (''left'', UINT32), (''bottom'', UINT32), (''right'', UINT32)]"

definition QXLRom :: ctype where
  "QXLRom =
     PACKED [(''magic'', UINT32), (''id'', UINT32), (''update_id'', UINT32),
         (''compression_level'', UINT32), (''log_level'', UINT32), (''mode'', UINT32),
         (''modes_offset'', UINT32), (''num_pages'', UINT32), (''pages_offset'', UINT32),
         (''draw_area_offset'', UINT32), (''surface0_area_size'', UINT32),
         (''ram_header_offset'', UINT32), (''mm_clock'', UINT32), (''n_surfaces'', UINT32),
         (''flags'', UINT64), (''slots_start'', UINT8), (''slots_end'', UINT8),
         (''slot_gen_bits'', UINT8), (''slot_id_bits'', UINT8), (''slot_generation'', UINT8),
         (''client_present'', UINT8), (''client_capabilities'', (Array_t UINT8 58)),
         (''client_monitors_config_crc'', UINT32),
         (''client_monitors_config'', PLAIN [(''count'', UINT16), (''padding'', UINT16), (''heads'', (Array_t QXLURect 64))])]"

definition QXLMode :: ctype where
  "QXLMode =
     PACKED [(''id'', UINT32), (''x_res'', UINT32), (''y_res'', UINT32), (''bits'', UINT32),
         (''stride'', UINT32), (''x_mili'', UINT32), (''y_mili'', UINT32), (''orientation'', UINT32)]"

definition QXLModes :: ctype where
  "QXLModes =
     PACKED [(''n_modes'', UINT32), (''modes'', (Array_t QXLMode 0))]"

definition QXLCmdType_enum :: "enumerator list" where
  "QXLCmdType_enum =
     [Next ''QXL_CMD_NOP'', Next ''QXL_CMD_DRAW'', Next ''QXL_CMD_UPDATE'',
      Next ''QXL_CMD_CURSOR'', Next ''QXL_CMD_MESSAGE'', Next ''QXL_CMD_SURFACE'']"

definition QXLCommand :: ctype where
  "QXLCommand =
     PACKED [(''data'', QXLPHYSICAL), (''type'', UINT32), (''padding'', UINT32)]"

definition QXLCommandExt :: ctype where
  "QXLCommandExt =
     PACKED [(''cmd'', QXLCommand), (''group_id'', UINT32), (''flags'', UINT32)]"

definition QXLMemSlot :: ctype where
  "QXLMemSlot =
     PACKED [(''mem_start'', UINT64), (''mem_end'', UINT64)]"

definition QXLSurfaceCreate :: ctype where
  "QXLSurfaceCreate =
     PACKED [(''width'', UINT32), (''height'', UINT32), (''stride'', INT32), (''format'', UINT32),
         (''position'', UINT32), (''mouse_mode'', UINT32), (''flags'', UINT32), (''type'', UINT32),
         (''mem'', QXLPHYSICAL)]"

definition QXLCommandRing :: ctype where
  "QXLCommandRing = SPICE_RING_DECLARE QXLCommand QXL_COMMAND_RING_SIZE"

definition QXLCursorRing :: ctype where
  "QXLCursorRing = SPICE_RING_DECLARE QXLCommand QXL_CURSOR_RING_SIZE"

definition QXLReleaseRing :: ctype where
  "QXLReleaseRing = SPICE_RING_DECLARE UINT64 QXL_RELEASE_RING_SIZE"

definition QXLRam :: ctype where
  "QXLRam =
     Struct_t True 4 (fields_of [(''magic'', UINT32), (''int_pending'', UINT32), (''int_mask'', UINT32),
         (''log_buf'', (Array_t UINT8 QXL_LOG_BUF_SIZE)), (''cmd_ring'', QXLCommandRing),
         (''cursor_ring'', QXLCursorRing), (''release_ring'', QXLReleaseRing),
         (''update_area'', QXLRect), (''update_surface'', UINT32), (''mem_slot'', QXLMemSlot),
         (''create_surface'', QXLSurfaceCreate), (''flags'', UINT64),
         (''monitors_config'', QXLPHYSICAL)])"

definition QXLReleaseInfo :: ctype where
  "QXLReleaseInfo =
     Union_t True (fields_of [(''id'', UINT64), (''next'', UINT64)])"

definition QXLDataChunk :: ctype where
  "QXLDataChunk =
     PACKED [(''data_size'', UINT32), (''prev_chunk'', QXLPHYSICAL), (''next_chunk'', QXLPHYSICAL),
         (''data'', (Array_t UINT8 0))]"

definition QXLMessage :: ctype where
  "QXLMessage =
     PACKED [(''release_info'', QXLReleaseInfo), (''data'', (Array_t UINT8 0))]"

definition QXLCompatUpdateCmd :: ctype where
  "QXLCompatUpdateCmd =
     PACKED [(''release_info'', QXLReleaseInfo), (''area'', QXLRect), (''update_id'', UINT32)]"

definition QXLUpdateCmd :: ctype where
  "QXLUpdateCmd =
     PACKED [(''release_info'', QXLReleaseInfo), (''area'', QXLRect), (''update_id'', UINT32),
         (''surface_id'', UINT32)]"

definition QXLCursorHeader :: ctype where
  "QXLCursorHeader =
     PACKED [(''unique'', UINT64), (''type'', UINT16), (''width'', UINT16), (''height'', UINT16),
         (''hot_spot_x'', UINT16), (''hot_spot_y'', UINT16)]"

definition QXLCursor :: ctype where
  "QXLCursor =
     PACKED [(''header'', QXLCursorHeader), (''data_size'', UINT32), (''chunk'', QXLDataChunk)]"

definition QXL_CURSOR_enum :: "enumerator list" where
  "QXL_CURSOR_enum =
     [Next ''QXL_CURSOR_SET'', Next ''QXL_CURSOR_MOVE'', Next ''QXL_CURSOR_HIDE'',
      Next ''QXL_CURSOR_TRAIL'']"

definition QXLCursorCmd :: ctype where
  "QXLCursorCmd =
     PACKED [(''release_info'', QXLReleaseInfo), (''type'', UINT8),
         (''u'', UNION [(''set'', PACKED [(''position'', QXLPoint16), (''visible'', UINT8), (''shape'', QXLPHYSICAL)]),
         (''trail'', PACKED [(''length'', UINT16), (''frequency'', UINT16)]),
         (''position'', QXLPoint16)]),
         (''device_data'', (Array_t UINT8 QXL_CURSUR_DEVICE_DATA_SIZE))]"

definition QXL_DRAW_enum :: "enumerator list" where
  "QXL_DRAW_enum =
     [Next ''QXL_DRAW_NOP'', Next ''QXL_DRAW_FILL'', Next ''QXL_DRAW_OPAQUE'',
      Next ''QXL_DRAW_COPY'', Next ''QXL_COPY_BITS'', Next ''QXL_DRAW_BLEND'',
      Next ''QXL_DRAW_BLACKNESS'', Next ''QXL_DRAW_WHITENESS'', Next ''QXL_DRAW_INVERS'',
      Next ''QXL_DRAW_ROP3'', Next ''QXL_DRAW_STROKE'', Next ''QXL_DRAW_TEXT'',
      Next ''QXL_DRAW_TRANSPARENT'', Next ''QXL_DRAW_ALPHA_BLEND'', Next ''QXL_DRAW_COMPOSITE'']"

definition QXLRasterGlyph :: ctype where
  "QXLRasterGlyph =
     PACKED [(''render_pos'', QXLPoint), (''glyph_origin'', QXLPoint), (''width'', UINT16),
         (''height'', UINT16), (''data'', (Array_t UINT8 0))]"

definition QXLString :: ctype where
  "QXLString =
     PACKED [(''data_size'', UINT32), (''length'', UINT16), (''flags'', UINT16),
         (''chunk'', QXLDataChunk)]"

definition QXLCopyBits :: ctype where
  "QXLCopyBits =
     PACKED [(''src_pos'', QXLPoint)]"

definition QXLEffectType_enum :: "enumerator list" where
  "QXLEffectType_enum =
     [Given ''QXL_EFFECT_BLEND'' 0, Given ''QXL_EFFECT_OPAQUE'' 1,
      Given ''QXL_EFFECT_REVERT_ON_DUP'' 2, Given ''QXL_EFFECT_BLACKNESS_ON_DUP'' 3,
      Given ''QXL_EFFECT_WHITENESS_ON_DUP'' 4, Given ''QXL_EFFECT_NOP_ON_DUP'' 5,
      Given ''QXL_EFFECT_NOP'' 6, Given ''QXL_EFFECT_OPAQUE_BRUSH'' 7]"

definition QXLPattern :: ctype where
  "QXLPattern =
     PACKED [(''pat'', QXLPHYSICAL), (''pos'', QXLPoint)]"

definition QXLBrush :: ctype where
  "QXLBrush =
     PACKED [(''type'', UINT32), (''u'', UNION [(''color'', UINT32), (''pattern'', QXLPattern)])]"

definition QXLQMask :: ctype where
  "QXLQMask =
     PACKED [(''flags'', UINT8), (''pos'', QXLPoint), (''bitmap'', QXLPHYSICAL)]"

definition QXLFill :: ctype where
  "QXLFill =
     PACKED [(''brush'', QXLBrush), (''rop_descriptor'', UINT16), (''mask'', QXLQMask)]"

definition QXLOpaque :: ctype where
  "QXLOpaque =
     PACKED [(''src_bitmap'', QXLPHYSICAL), (''src_area'', QXLRect), (''brush'', QXLBrush),
         (''rop_descriptor'', UINT16), (''scale_mode'', UINT8), (''mask'', QXLQMask)]"

definition QXLCopy :: ctype where
  "QXLCopy =
     PACKED [(''src_bitmap'', QXLPHYSICAL), (''src_area'', QXLRect), (''rop_descriptor'', UINT16),
         (''scale_mode'', UINT8), (''mask'', QXLQMask)]"

definition QXLBlend :: ctype where
  "QXLBlend = QXLCopy"

definition QXLTransparent :: ctype where
  "QXLTransparent =
     PACKED [(''src_bitmap'', QXLPHYSICAL), (''src_area'', QXLRect), (''src_color'', UINT32),
         (''true_color'', UINT32)]"

definition QXLAlphaBlend :: ctype where
  "QXLAlphaBlend =
     PACKED [(''alpha_flags'', UINT16), (''alpha'', UINT8), (''src_bitmap'', QXLPHYSICAL),
         (''src_area'', QXLRect)]"

definition QXLCompatAlphaBlend :: ctype where
  "QXLCompatAlphaBlend =
     PACKED [(''alpha'', UINT8), (''src_bitmap'', QXLPHYSICAL), (''src_area'', QXLRect)]"

definition QXLRop3 :: ctype where
  "QXLRop3 =
     PACKED [(''src_bitmap'', QXLPHYSICAL), (''src_area'', QXLRect), (''brush'', QXLBrush),
         (''rop3'', UINT8), (''scale_mode'', UINT8), (''mask'', QXLQMask)]"

definition QXLLineAttr :: ctype where
  "QXLLineAttr =
     PACKED [(''flags'', UINT8), (''join_style'', UINT8), (''end_style'', UINT8),
         (''style_nseg'', UINT8), (''width'', QXLFIXED), (''miter_limit'', QXLFIXED),
         (''style'', QXLPHYSICAL)]"

definition QXLStroke :: ctype where
  "QXLStroke =
     PACKED [(''path'', QXLPHYSICAL), (''attr'', QXLLineAttr), (''brush'', QXLBrush),
         (''fore_mode'', UINT16), (''back_mode'', UINT16)]"

definition QXLText :: ctype where
  "QXLText =
     PACKED [(''str'', QXLPHYSICAL), (''back_area'', QXLRect), (''fore_brush'', QXLBrush),
         (''back_brush'', QXLBrush), (''fore_mode'', UINT16), (''back_mode'', UINT16)]"

definition QXLBlackness :: ctype where
  "QXLBlackness =
     PACKED [(''mask'', QXLQMask)]"

definition QXLInvers :: ctype where
  "QXLInvers = QXLBlackness"

definition QXLWhiteness :: ctype where
  "QXLWhiteness = QXLBlackness"

definition QXLClip :: ctype where
  "QXLClip =
     PACKED [(''type'', UINT32), (''data'', QXLPHYSICAL)]"

definition QXLOperator_enum :: "enumerator list" where
  "QXLOperator_enum =
     [Given ''QXL_OP_CLEAR'' 0x00, Given ''QXL_OP_SOURCE'' 0x01, Given ''QXL_OP_DST'' 0x02,
      Given ''QXL_OP_OVER'' 0x03, Given ''QXL_OP_OVER_REVERSE'' 0x04, Given ''QXL_OP_IN'' 0x05,
      Given ''QXL_OP_IN_REVERSE'' 0x06, Given ''QXL_OP_OUT'' 0x07,
      Given ''QXL_OP_OUT_REVERSE'' 0x08, Given ''QXL_OP_ATOP'' 0x09,
      Given ''QXL_OP_ATOP_REVERSE'' 0x0a, Given ''QXL_OP_XOR'' 0x0b, Given ''QXL_OP_ADD'' 0x0c,
      Given ''QXL_OP_SATURATE'' 0x0d, Given ''QXL_OP_MULTIPLY'' 0x30,
      Given ''QXL_OP_SCREEN'' 0x31, Given ''QXL_OP_OVERLAY'' 0x32, Given ''QXL_OP_DARKEN'' 0x33,
      Given ''QXL_OP_LIGHTEN'' 0x34, Given ''QXL_OP_COLOR_DODGE'' 0x35,
      Given ''QXL_OP_COLOR_BURN'' 0x36, Given ''QXL_OP_HARD_LIGHT'' 0x37,
      Given ''QXL_OP_SOFT_LIGHT'' 0x38, Given ''QXL_OP_DIFFERENCE'' 0x39,
      Given ''QXL_OP_EXCLUSION'' 0x3a, Given ''QXL_OP_HSL_HUE'' 0x3b,
      Given ''QXL_OP_HSL_SATURATION'' 0x3c, Given ''QXL_OP_HSL_COLOR'' 0x3d,
      Given ''QXL_OP_HSL_LUMINOSITY'' 0x3e]"

definition QXLTransform :: ctype where
  "QXLTransform =
     PLAIN [(''t00'', UINT32), (''t01'', UINT32), (''t02'', UINT32), (''t10'', UINT32),
         (''t11'', UINT32), (''t12'', UINT32)]"

definition QXLComposite :: ctype where
  "QXLComposite =
     PACKED [(''flags'', UINT32), (''src'', QXLPHYSICAL), (''src_transform'', QXLPHYSICAL),
         (''mask'', QXLPHYSICAL), (''mask_transform'', QXLPHYSICAL), (''src_origin'', QXLPoint16),
         (''mask_origin'', QXLPoint16)]"

definition QXLCompatDrawable :: ctype where
  "QXLCompatDrawable =
     PACKED [(''release_info'', QXLReleaseInfo), (''effect'', UINT8), (''type'', UINT8),
         (''bitmap_offset'', UINT16), (''bitmap_area'', QXLRect), (''bbox'', QXLRect),
         (''clip'', QXLClip), (''mm_time'', UINT32),
         (''u'', UNION [(''fill'', QXLFill), (''opaque'', QXLOpaque), (''copy'', QXLCopy),
         (''transparent'', QXLTransparent), (''alpha_blend'', QXLCompatAlphaBlend),
         (''copy_bits'', QXLCopyBits), (''blend'', QXLBlend), (''rop3'', QXLRop3),
         (''stroke'', QXLStroke), (''text'', QXLText), (''blackness'', QXLBlackness),
         (''invers'', QXLInvers), (''whiteness'', QXLWhiteness)])]"

definition QXLDrawable :: ctype where
  "QXLDrawable =
     PACKED [(''release_info'', QXLReleaseInfo), (''surface_id'', UINT32), (''effect'', UINT8),
         (''type'', UINT8), (''self_bitmap'', UINT8), (''self_bitmap_area'', QXLRect),
         (''bbox'', QXLRect), (''clip'', QXLClip), (''mm_time'', UINT32),
         (''surfaces_dest'', (Array_t INT32 3)), (''surfaces_rects'', (Array_t QXLRect 3)),
         (''u'', UNION [(''fill'', QXLFill), (''opaque'', QXLOpaque), (''copy'', QXLCopy),
         (''transparent'', QXLTransparent), (''alpha_blend'', QXLAlphaBlend),
         (''copy_bits'', QXLCopyBits), (''blend'', QXLBlend), (''rop3'', QXLRop3),
         (''stroke'', QXLStroke), (''text'', QXLText), (''blackness'', QXLBlackness),
         (''invers'', QXLInvers), (''whiteness'', QXLWhiteness), (''composite'', QXLComposite)])]"

definition QXLSurfaceCmdType_enum :: "enumerator list" where
  "QXLSurfaceCmdType_enum =
     [Next ''QXL_SURFACE_CMD_CREATE'', Next ''QXL_SURFACE_CMD_DESTROY'']"

definition QXLSurface :: ctype where
  "QXLSurface =
     PACKED [(''format'', UINT32), (''width'', UINT32), (''height'', UINT32), (''stride'', INT32),
         (''data'', QXLPHYSICAL)]"

definition QXLSurfaceCmd :: ctype where
  "QXLSurfaceCmd =
     PACKED [(''release_info'', QXLReleaseInfo), (''surface_id'', UINT32), (''type'', UINT8),
         (''flags'', UINT32), (''u'', UNION [(''surface_create'', QXLSurface)])]"

definition QXLClipRects :: ctype where
  "QXLClipRects =
     PACKED [(''num_rects'', UINT32), (''chunk'', QXLDataChunk)]"

definition QXL_PATH_enum :: "enumerator list" where
  "QXL_PATH_enum =
     [Given ''QXL_PATH_BEGIN'' (2 ^ 0), Given ''QXL_PATH_END'' (2 ^ 1),
      Given ''QXL_PATH_CLOSE'' (2 ^ 3), Given ''QXL_PATH_BEZIER'' (2 ^ 4)]"

definition QXLPathSeg :: ctype where
  "QXLPathSeg =
     PACKED [(''flags'', UINT32), (''count'', UINT32), (''points'', (Array_t QXLPointFix 0))]"

definition QXLPath :: ctype where
  "QXLPath =
     PACKED [(''data_size'', UINT32), (''chunk'', QXLDataChunk)]"

definition QXL_IMAGE_GROUP_enum :: "enumerator list" where
  "QXL_IMAGE_GROUP_enum =
     [Next ''QXL_IMAGE_GROUP_DRIVER'', Next ''QXL_IMAGE_GROUP_DEVICE'',
      Next ''QXL_IMAGE_GROUP_RED'', Next ''QXL_IMAGE_GROUP_DRIVER_DONT_CACHE'']"

definition QXLImageID :: ctype where
  "QXLImageID =
     PACKED [(''group'', UINT32), (''unique'', UINT32)]"

definition QXLImageIDUnion :: ctype where
  "QXLImageIDUnion =
     UNION [(''id'', QXLImageID), (''value'', UINT64)]"

definition QXLImageFlags_enum :: "enumerator list" where
  "QXLImageFlags_enum =
     [Given ''QXL_IMAGE_CACHE'' (2 ^ 0), Given ''QXL_IMAGE_HIGH_BITS_SET'' (2 ^ 1)]"

definition QXLBitmapFlags_enum :: "enumerator list" where
  "QXLBitmapFlags_enum =
     [Given ''QXL_BITMAP_DIRECT'' (2 ^ 0), Given ''QXL_BITMAP_UNSTABLE'' (2 ^ 1),
      Given ''QXL_BITMAP_TOP_DOWN'' (2 ^ 2)]"

definition QXLImageDescriptor :: ctype where
  "QXLImageDescriptor =
     PACKED [(''id'', UINT64), (''type'', UINT8), (''flags'', UINT8), (''width'', UINT32),
         (''height'', UINT32)]"

definition QXLPalette :: ctype where
  "QXLPalette =
     PACKED [(''unique'', UINT64), (''num_ents'', UINT16), (''ents'', (Array_t UINT32 0))]"

definition QXLBitmap :: ctype where
  "QXLBitmap =
     PACKED [(''format'', UINT8), (''flags'', UINT8), (''x'', UINT32), (''y'', UINT32),
         (''stride'', UINT32), (''palette'', QXLPHYSICAL), (''data'', QXLPHYSICAL)]"

definition QXLSurfaceId :: ctype where
  "QXLSurfaceId =
     PACKED [(''surface_id'', UINT32)]"

definition QXLQUICData :: ctype where
  "QXLQUICData =
     PACKED [(''data_size'', UINT32), (''data'', (Array_t UINT8 0))]"

definition QXLLZRGBData :: ctype where
  "QXLLZRGBData = QXLQUICData"

definition QXLJPEGData :: ctype where
  "QXLJPEGData = QXLQUICData"

definition QXLImage :: ctype where
  "QXLImage =
     PACKED [(''descriptor'', QXLImageDescriptor),
         ('''', UNION [(''bitmap'', QXLBitmap), (''quic'', QXLQUICData), (''surface_image'', QXLSurfaceId)])]"

definition QXLHead :: ctype where
  "QXLHead =
     PACKED [(''id'', UINT32), (''surface_id'', UINT32), (''width'', UINT32), (''height'', UINT32),
         (''x'', UINT32), (''y'', UINT32), (''flags'', UINT32)]"

definition QXLMonitorsConfig :: ctype where
  "QXLMonitorsConfig =
     PACKED [(''count'', UINT16), (''max_allowed'', UINT16), (''heads'', (Array_t QXLHead 0))]"

definition QXLReleaseInfoExt :: ctype where
  "QXLReleaseInfoExt =
     PLAIN [(''info'', UINT64), (''group_id'', UINT32)]"

text \<open>Every structure of the header that stands between the packing headers.\<close>

definition qxl_layouts :: "ctype list" where
  "qxl_layouts =
     [QXLPointFix, QXLPoint, QXLPoint16, QXLRect, QXLURect, QXLRom, QXLMode, QXLModes,
      QXLCommand, QXLCommandExt, QXLMemSlot, QXLSurfaceCreate, QXLRam, QXLReleaseInfo,
      QXLDataChunk, QXLMessage, QXLCompatUpdateCmd, QXLUpdateCmd, QXLCursorHeader, QXLCursor,
      QXLCursorCmd, QXLRasterGlyph, QXLString, QXLCopyBits, QXLPattern, QXLBrush, QXLQMask,
      QXLFill, QXLOpaque, QXLCopy, QXLBlend, QXLTransparent, QXLAlphaBlend, QXLCompatAlphaBlend,
      QXLRop3, QXLLineAttr, QXLStroke, QXLText, QXLBlackness, QXLInvers, QXLWhiteness, QXLClip,
      QXLTransform, QXLComposite, QXLCompatDrawable, QXLDrawable, QXLSurface, QXLSurfaceCmd,
      QXLClipRects, QXLPathSeg, QXLPath, QXLImageID, QXLImageIDUnion, QXLImageDescriptor,
      QXLPalette, QXLBitmap, QXLSurfaceId, QXLQUICData, QXLLZRGBData, QXLJPEGData, QXLImage,
      QXLHead, QXLMonitorsConfig, QXLCommandRing, QXLCursorRing, QXLReleaseRing]"

section \<open>Sizes, and layouts no compiler changes\<close>

text \<open>Evaluation over a list of members, without looking into the list.\<close>

lemma layout_eval:
  "fields_end m tight off (fields_of []) = off"
  "fields_end m tight off (fields_of ((x, t) # fs)) =
     fields_end m tight (round_up off (if tight then 1 else align_of m t) + size_of m t) (fields_of fs)"
  "fields_max m (fields_of []) = 0"
  "fields_max m (fields_of ((x, t) # fs)) = max (size_of m t) (fields_max m (fields_of fs))"
  "fields_align m (fields_of []) = 1"
  "fields_align m (fields_of ((x, t) # fs)) = max (align_of m t) (fields_align m (fields_of fs))"
  "rigid_fields (fields_of [])"
  "rigid_fields (fields_of ((x, t) # fs)) \<longleftrightarrow> rigid t \<and> rigid_fields (fields_of fs)"
  "no_holes off (fields_of [])"
  "no_holes off (fields_of ((x, t) # fs)) \<longleftrightarrow>
     round_up off (align_of Attribute_packing t) = off \<and>
     no_holes (off + size_of Attribute_packing t) (fields_of fs)"
  by simp_all

lemma round_up_one: "round_up off 1 = off"
  by simp

lemma fields_of_cong: "fields_of fs = fields_of fs"
  by (rule refl)

lemma field_at_eval:
  "field_at m tight off (fields_of ((x, t) # fs)) x =
     Some (round_up off (if tight then 1 else align_of m t), t)"
  "y \<noteq> x \<Longrightarrow> field_at m tight off (fields_of ((x, t) # fs)) y =
     field_at m tight (round_up off (if tight then 1 else align_of m t) + size_of m t) (fields_of fs) y"
  "member_type (fields_of ((x, t) # fs)) x = Some t"
  "y \<noteq> x \<Longrightarrow> member_type (fields_of ((x, t) # fs)) y = member_type (fields_of fs) y"
  by (simp_all add: Let_def)

lemma align_values: "SPICE_POWER2_ALIGN 8 = 8" "SPICE_POWER2_ALIGN 16 = 16" "SPICE_POWER2_ALIGN 32 = 32"
  by (simp_all add: SPICE_POWER2_ALIGN_def SPICE_MSB_MASK_def SPICE_MSB_MASK16_def SPICE_MSB_MASK8_def
      SPICE_MSB_MASK4_def)

lemmas layout_simps = packs_def round_up_one round_up_def SPICE_RING_DECLARE_def ring_element_def align_values
  QXL_COMMAND_RING_SIZE_def QXL_CURSOR_RING_SIZE_def QXL_RELEASE_RING_SIZE_def QXL_LOG_BUF_SIZE_def
  QXL_CURSUR_DEVICE_DATA_SIZE_def

text \<open>One structure after the other: its size, its alignment and that its layout is rigid.\<close>

lemma QXLPointFix_layout [simp]: "size_of m QXLPointFix = 8 \<and> align_of m QXLPointFix = 1 \<and> rigid QXLPointFix"
  by (cases m) (simp_all add: QXLPointFix_def layout_simps layout_eval cong: fields_of_cong del: fields_of.simps One_nat_def)

lemma QXLPoint_layout [simp]: "size_of m QXLPoint = 8 \<and> align_of m QXLPoint = 1 \<and> rigid QXLPoint"
  by (cases m) (simp_all add: QXLPoint_def layout_simps layout_eval cong: fields_of_cong del: fields_of.simps One_nat_def)

lemma QXLPoint16_layout [simp]: "size_of m QXLPoint16 = 4 \<and> align_of m QXLPoint16 = 1 \<and> rigid QXLPoint16"
  by (cases m) (simp_all add: QXLPoint16_def layout_simps layout_eval cong: fields_of_cong del: fields_of.simps One_nat_def)

lemma QXLRect_layout [simp]: "size_of m QXLRect = 16 \<and> align_of m QXLRect = 1 \<and> rigid QXLRect"
  by (cases m) (simp_all add: QXLRect_def layout_simps layout_eval cong: fields_of_cong del: fields_of.simps One_nat_def)

lemma QXLURect_layout [simp]: "size_of m QXLURect = 16 \<and> align_of m QXLURect = 1 \<and> rigid QXLURect"
  by (cases m) (simp_all add: QXLURect_def layout_simps layout_eval cong: fields_of_cong del: fields_of.simps One_nat_def)

lemma QXLRom_layout [simp]: "size_of m QXLRom = 1160 \<and> align_of m QXLRom = 1 \<and> rigid QXLRom"
  by (cases m) (simp_all add: QXLRom_def layout_simps layout_eval cong: fields_of_cong del: fields_of.simps One_nat_def)

lemma QXLMode_layout [simp]: "size_of m QXLMode = 32 \<and> align_of m QXLMode = 1 \<and> rigid QXLMode"
  by (cases m) (simp_all add: QXLMode_def layout_simps layout_eval cong: fields_of_cong del: fields_of.simps One_nat_def)

lemma QXLModes_layout [simp]: "size_of m QXLModes = 4 \<and> align_of m QXLModes = 1 \<and> rigid QXLModes"
  by (cases m) (simp_all add: QXLModes_def layout_simps layout_eval cong: fields_of_cong del: fields_of.simps One_nat_def)

lemma QXLCommand_layout [simp]: "size_of m QXLCommand = 16 \<and> align_of m QXLCommand = 1 \<and> rigid QXLCommand"
  by (cases m) (simp_all add: QXLCommand_def layout_simps layout_eval cong: fields_of_cong del: fields_of.simps One_nat_def)

lemma QXLCommandExt_layout [simp]: "size_of m QXLCommandExt = 24 \<and> align_of m QXLCommandExt = 1 \<and> rigid QXLCommandExt"
  by (cases m) (simp_all add: QXLCommandExt_def layout_simps layout_eval cong: fields_of_cong del: fields_of.simps One_nat_def)

lemma QXLMemSlot_layout [simp]: "size_of m QXLMemSlot = 16 \<and> align_of m QXLMemSlot = 1 \<and> rigid QXLMemSlot"
  by (cases m) (simp_all add: QXLMemSlot_def layout_simps layout_eval cong: fields_of_cong del: fields_of.simps One_nat_def)

lemma QXLSurfaceCreate_layout [simp]: "size_of m QXLSurfaceCreate = 40 \<and> align_of m QXLSurfaceCreate = 1 \<and> rigid QXLSurfaceCreate"
  by (cases m) (simp_all add: QXLSurfaceCreate_def layout_simps layout_eval cong: fields_of_cong del: fields_of.simps One_nat_def)

lemma QXLCommandRing_layout [simp]: "size_of m QXLCommandRing = 532 \<and> align_of m QXLCommandRing = 1 \<and> rigid QXLCommandRing"
  by (cases m) (simp_all add: QXLCommandRing_def layout_simps layout_eval cong: fields_of_cong del: fields_of.simps One_nat_def)

lemma QXLCursorRing_layout [simp]: "size_of m QXLCursorRing = 532 \<and> align_of m QXLCursorRing = 1 \<and> rigid QXLCursorRing"
  by (cases m) (simp_all add: QXLCursorRing_def layout_simps layout_eval cong: fields_of_cong del: fields_of.simps One_nat_def)

lemma QXLReleaseRing_layout [simp]: "size_of m QXLReleaseRing = 84 \<and> align_of m QXLReleaseRing = 1 \<and> rigid QXLReleaseRing"
  by (cases m) (simp_all add: QXLReleaseRing_def layout_simps layout_eval cong: fields_of_cong del: fields_of.simps One_nat_def)

lemma QXLRam_layout [simp]: "size_of m QXLRam = 5348 \<and> align_of m QXLRam = 4 \<and> rigid QXLRam"
  by (cases m) (simp_all add: QXLRam_def layout_simps layout_eval cong: fields_of_cong del: fields_of.simps One_nat_def)

lemma QXLReleaseInfo_layout [simp]: "size_of m QXLReleaseInfo = 8 \<and> align_of m QXLReleaseInfo = 1 \<and> rigid QXLReleaseInfo"
  by (cases m) (simp_all add: QXLReleaseInfo_def layout_simps layout_eval cong: fields_of_cong del: fields_of.simps One_nat_def)

lemma QXLDataChunk_layout [simp]: "size_of m QXLDataChunk = 20 \<and> align_of m QXLDataChunk = 1 \<and> rigid QXLDataChunk"
  by (cases m) (simp_all add: QXLDataChunk_def layout_simps layout_eval cong: fields_of_cong del: fields_of.simps One_nat_def)

lemma QXLMessage_layout [simp]: "size_of m QXLMessage = 8 \<and> align_of m QXLMessage = 1 \<and> rigid QXLMessage"
  by (cases m) (simp_all add: QXLMessage_def layout_simps layout_eval cong: fields_of_cong del: fields_of.simps One_nat_def)

lemma QXLCompatUpdateCmd_layout [simp]: "size_of m QXLCompatUpdateCmd = 28 \<and> align_of m QXLCompatUpdateCmd = 1 \<and> rigid QXLCompatUpdateCmd"
  by (cases m) (simp_all add: QXLCompatUpdateCmd_def layout_simps layout_eval cong: fields_of_cong del: fields_of.simps One_nat_def)

lemma QXLUpdateCmd_layout [simp]: "size_of m QXLUpdateCmd = 32 \<and> align_of m QXLUpdateCmd = 1 \<and> rigid QXLUpdateCmd"
  by (cases m) (simp_all add: QXLUpdateCmd_def layout_simps layout_eval cong: fields_of_cong del: fields_of.simps One_nat_def)

lemma QXLCursorHeader_layout [simp]: "size_of m QXLCursorHeader = 18 \<and> align_of m QXLCursorHeader = 1 \<and> rigid QXLCursorHeader"
  by (cases m) (simp_all add: QXLCursorHeader_def layout_simps layout_eval cong: fields_of_cong del: fields_of.simps One_nat_def)

lemma QXLCursor_layout [simp]: "size_of m QXLCursor = 42 \<and> align_of m QXLCursor = 1 \<and> rigid QXLCursor"
  by (cases m) (simp_all add: QXLCursor_def layout_simps layout_eval cong: fields_of_cong del: fields_of.simps One_nat_def)

lemma QXLCursorCmd_layout [simp]: "size_of m QXLCursorCmd = 150 \<and> align_of m QXLCursorCmd = 1 \<and> rigid QXLCursorCmd"
  by (cases m) (simp_all add: QXLCursorCmd_def layout_simps layout_eval cong: fields_of_cong del: fields_of.simps One_nat_def)

lemma QXLRasterGlyph_layout [simp]: "size_of m QXLRasterGlyph = 20 \<and> align_of m QXLRasterGlyph = 1 \<and> rigid QXLRasterGlyph"
  by (cases m) (simp_all add: QXLRasterGlyph_def layout_simps layout_eval cong: fields_of_cong del: fields_of.simps One_nat_def)

lemma QXLString_layout [simp]: "size_of m QXLString = 28 \<and> align_of m QXLString = 1 \<and> rigid QXLString"
  by (cases m) (simp_all add: QXLString_def layout_simps layout_eval cong: fields_of_cong del: fields_of.simps One_nat_def)

lemma QXLCopyBits_layout [simp]: "size_of m QXLCopyBits = 8 \<and> align_of m QXLCopyBits = 1 \<and> rigid QXLCopyBits"
  by (cases m) (simp_all add: QXLCopyBits_def layout_simps layout_eval cong: fields_of_cong del: fields_of.simps One_nat_def)

lemma QXLPattern_layout [simp]: "size_of m QXLPattern = 16 \<and> align_of m QXLPattern = 1 \<and> rigid QXLPattern"
  by (cases m) (simp_all add: QXLPattern_def layout_simps layout_eval cong: fields_of_cong del: fields_of.simps One_nat_def)

lemma QXLBrush_layout [simp]: "size_of m QXLBrush = 20 \<and> align_of m QXLBrush = 1 \<and> rigid QXLBrush"
  by (cases m) (simp_all add: QXLBrush_def layout_simps layout_eval cong: fields_of_cong del: fields_of.simps One_nat_def)

lemma QXLQMask_layout [simp]: "size_of m QXLQMask = 17 \<and> align_of m QXLQMask = 1 \<and> rigid QXLQMask"
  by (cases m) (simp_all add: QXLQMask_def layout_simps layout_eval cong: fields_of_cong del: fields_of.simps One_nat_def)

lemma QXLFill_layout [simp]: "size_of m QXLFill = 39 \<and> align_of m QXLFill = 1 \<and> rigid QXLFill"
  by (cases m) (simp_all add: QXLFill_def layout_simps layout_eval cong: fields_of_cong del: fields_of.simps One_nat_def)

lemma QXLOpaque_layout [simp]: "size_of m QXLOpaque = 64 \<and> align_of m QXLOpaque = 1 \<and> rigid QXLOpaque"
  by (cases m) (simp_all add: QXLOpaque_def layout_simps layout_eval cong: fields_of_cong del: fields_of.simps One_nat_def)

lemma QXLCopy_layout [simp]: "size_of m QXLCopy = 44 \<and> align_of m QXLCopy = 1 \<and> rigid QXLCopy"
  by (cases m) (simp_all add: QXLCopy_def layout_simps layout_eval cong: fields_of_cong del: fields_of.simps One_nat_def)

lemma QXLBlend_layout [simp]: "size_of m QXLBlend = 44 \<and> align_of m QXLBlend = 1 \<and> rigid QXLBlend"
  by (cases m) (simp_all add: QXLBlend_def layout_simps layout_eval cong: fields_of_cong del: fields_of.simps One_nat_def)

lemma QXLTransparent_layout [simp]: "size_of m QXLTransparent = 32 \<and> align_of m QXLTransparent = 1 \<and> rigid QXLTransparent"
  by (cases m) (simp_all add: QXLTransparent_def layout_simps layout_eval cong: fields_of_cong del: fields_of.simps One_nat_def)

lemma QXLAlphaBlend_layout [simp]: "size_of m QXLAlphaBlend = 27 \<and> align_of m QXLAlphaBlend = 1 \<and> rigid QXLAlphaBlend"
  by (cases m) (simp_all add: QXLAlphaBlend_def layout_simps layout_eval cong: fields_of_cong del: fields_of.simps One_nat_def)

lemma QXLCompatAlphaBlend_layout [simp]: "size_of m QXLCompatAlphaBlend = 25 \<and> align_of m QXLCompatAlphaBlend = 1 \<and> rigid QXLCompatAlphaBlend"
  by (cases m) (simp_all add: QXLCompatAlphaBlend_def layout_simps layout_eval cong: fields_of_cong del: fields_of.simps One_nat_def)

lemma QXLRop3_layout [simp]: "size_of m QXLRop3 = 63 \<and> align_of m QXLRop3 = 1 \<and> rigid QXLRop3"
  by (cases m) (simp_all add: QXLRop3_def layout_simps layout_eval cong: fields_of_cong del: fields_of.simps One_nat_def)

lemma QXLLineAttr_layout [simp]: "size_of m QXLLineAttr = 20 \<and> align_of m QXLLineAttr = 1 \<and> rigid QXLLineAttr"
  by (cases m) (simp_all add: QXLLineAttr_def layout_simps layout_eval cong: fields_of_cong del: fields_of.simps One_nat_def)

lemma QXLStroke_layout [simp]: "size_of m QXLStroke = 52 \<and> align_of m QXLStroke = 1 \<and> rigid QXLStroke"
  by (cases m) (simp_all add: QXLStroke_def layout_simps layout_eval cong: fields_of_cong del: fields_of.simps One_nat_def)

lemma QXLText_layout [simp]: "size_of m QXLText = 68 \<and> align_of m QXLText = 1 \<and> rigid QXLText"
  by (cases m) (simp_all add: QXLText_def layout_simps layout_eval cong: fields_of_cong del: fields_of.simps One_nat_def)

lemma QXLBlackness_layout [simp]: "size_of m QXLBlackness = 17 \<and> align_of m QXLBlackness = 1 \<and> rigid QXLBlackness"
  by (cases m) (simp_all add: QXLBlackness_def layout_simps layout_eval cong: fields_of_cong del: fields_of.simps One_nat_def)

lemma QXLInvers_layout [simp]: "size_of m QXLInvers = 17 \<and> align_of m QXLInvers = 1 \<and> rigid QXLInvers"
  by (cases m) (simp_all add: QXLInvers_def layout_simps layout_eval cong: fields_of_cong del: fields_of.simps One_nat_def)

lemma QXLWhiteness_layout [simp]: "size_of m QXLWhiteness = 17 \<and> align_of m QXLWhiteness = 1 \<and> rigid QXLWhiteness"
  by (cases m) (simp_all add: QXLWhiteness_def layout_simps layout_eval cong: fields_of_cong del: fields_of.simps One_nat_def)

lemma QXLClip_layout [simp]: "size_of m QXLClip = 12 \<and> align_of m QXLClip = 1 \<and> rigid QXLClip"
  by (cases m) (simp_all add: QXLClip_def layout_simps layout_eval cong: fields_of_cong del: fields_of.simps One_nat_def)

lemma QXLTransform_layout [simp]: "size_of m QXLTransform = 24 \<and> align_of Attribute_packing QXLTransform = 4 \<and> align_of Pragma_packing QXLTransform = 1 \<and> rigid QXLTransform"
  by (cases m) (simp_all add: QXLTransform_def layout_simps layout_eval cong: fields_of_cong del: fields_of.simps One_nat_def)

lemma QXLComposite_layout [simp]: "size_of m QXLComposite = 44 \<and> align_of m QXLComposite = 1 \<and> rigid QXLComposite"
  by (cases m) (simp_all add: QXLComposite_def layout_simps layout_eval cong: fields_of_cong del: fields_of.simps One_nat_def)

lemma QXLCompatDrawable_layout [simp]: "size_of m QXLCompatDrawable = 128 \<and> align_of m QXLCompatDrawable = 1 \<and> rigid QXLCompatDrawable"
  by (cases m) (simp_all add: QXLCompatDrawable_def layout_simps layout_eval cong: fields_of_cong del: fields_of.simps One_nat_def)

lemma QXLDrawable_layout [simp]: "size_of m QXLDrawable = 191 \<and> align_of m QXLDrawable = 1 \<and> rigid QXLDrawable"
  by (cases m) (simp_all add: QXLDrawable_def layout_simps layout_eval cong: fields_of_cong del: fields_of.simps One_nat_def)

lemma QXLSurface_layout [simp]: "size_of m QXLSurface = 24 \<and> align_of m QXLSurface = 1 \<and> rigid QXLSurface"
  by (cases m) (simp_all add: QXLSurface_def layout_simps layout_eval cong: fields_of_cong del: fields_of.simps One_nat_def)

lemma QXLSurfaceCmd_layout [simp]: "size_of m QXLSurfaceCmd = 41 \<and> align_of m QXLSurfaceCmd = 1 \<and> rigid QXLSurfaceCmd"
  by (cases m) (simp_all add: QXLSurfaceCmd_def layout_simps layout_eval cong: fields_of_cong del: fields_of.simps One_nat_def)

lemma QXLClipRects_layout [simp]: "size_of m QXLClipRects = 24 \<and> align_of m QXLClipRects = 1 \<and> rigid QXLClipRects"
  by (cases m) (simp_all add: QXLClipRects_def layout_simps layout_eval cong: fields_of_cong del: fields_of.simps One_nat_def)

lemma QXLPathSeg_layout [simp]: "size_of m QXLPathSeg = 8 \<and> align_of m QXLPathSeg = 1 \<and> rigid QXLPathSeg"
  by (cases m) (simp_all add: QXLPathSeg_def layout_simps layout_eval cong: fields_of_cong del: fields_of.simps One_nat_def)

lemma QXLPath_layout [simp]: "size_of m QXLPath = 24 \<and> align_of m QXLPath = 1 \<and> rigid QXLPath"
  by (cases m) (simp_all add: QXLPath_def layout_simps layout_eval cong: fields_of_cong del: fields_of.simps One_nat_def)

lemma QXLImageID_layout [simp]: "size_of m QXLImageID = 8 \<and> align_of m QXLImageID = 1 \<and> rigid QXLImageID"
  by (cases m) (simp_all add: QXLImageID_def layout_simps layout_eval cong: fields_of_cong del: fields_of.simps One_nat_def)

lemma QXLImageIDUnion_layout [simp]: "size_of m QXLImageIDUnion = 8 \<and> align_of Attribute_packing QXLImageIDUnion = 8 \<and> align_of Pragma_packing QXLImageIDUnion = 1 \<and> rigid QXLImageIDUnion"
  by (cases m) (simp_all add: QXLImageIDUnion_def layout_simps layout_eval cong: fields_of_cong del: fields_of.simps One_nat_def)

lemma QXLImageDescriptor_layout [simp]: "size_of m QXLImageDescriptor = 18 \<and> align_of m QXLImageDescriptor = 1 \<and> rigid QXLImageDescriptor"
  by (cases m) (simp_all add: QXLImageDescriptor_def layout_simps layout_eval cong: fields_of_cong del: fields_of.simps One_nat_def)

lemma QXLPalette_layout [simp]: "size_of m QXLPalette = 10 \<and> align_of m QXLPalette = 1 \<and> rigid QXLPalette"
  by (cases m) (simp_all add: QXLPalette_def layout_simps layout_eval cong: fields_of_cong del: fields_of.simps One_nat_def)

lemma QXLBitmap_layout [simp]: "size_of m QXLBitmap = 30 \<and> align_of m QXLBitmap = 1 \<and> rigid QXLBitmap"
  by (cases m) (simp_all add: QXLBitmap_def layout_simps layout_eval cong: fields_of_cong del: fields_of.simps One_nat_def)

lemma QXLSurfaceId_layout [simp]: "size_of m QXLSurfaceId = 4 \<and> align_of m QXLSurfaceId = 1 \<and> rigid QXLSurfaceId"
  by (cases m) (simp_all add: QXLSurfaceId_def layout_simps layout_eval cong: fields_of_cong del: fields_of.simps One_nat_def)

lemma QXLQUICData_layout [simp]: "size_of m QXLQUICData = 4 \<and> align_of m QXLQUICData = 1 \<and> rigid QXLQUICData"
  by (cases m) (simp_all add: QXLQUICData_def layout_simps layout_eval cong: fields_of_cong del: fields_of.simps One_nat_def)

lemma QXLLZRGBData_layout [simp]: "size_of m QXLLZRGBData = 4 \<and> align_of m QXLLZRGBData = 1 \<and> rigid QXLLZRGBData"
  by (cases m) (simp_all add: QXLLZRGBData_def layout_simps layout_eval cong: fields_of_cong del: fields_of.simps One_nat_def)

lemma QXLJPEGData_layout [simp]: "size_of m QXLJPEGData = 4 \<and> align_of m QXLJPEGData = 1 \<and> rigid QXLJPEGData"
  by (cases m) (simp_all add: QXLJPEGData_def layout_simps layout_eval cong: fields_of_cong del: fields_of.simps One_nat_def)

lemma QXLImage_layout [simp]: "size_of m QXLImage = 48 \<and> align_of m QXLImage = 1 \<and> rigid QXLImage"
  by (cases m) (simp_all add: QXLImage_def layout_simps layout_eval cong: fields_of_cong del: fields_of.simps One_nat_def)

lemma QXLHead_layout [simp]: "size_of m QXLHead = 28 \<and> align_of m QXLHead = 1 \<and> rigid QXLHead"
  by (cases m) (simp_all add: QXLHead_def layout_simps layout_eval cong: fields_of_cong del: fields_of.simps One_nat_def)

lemma QXLMonitorsConfig_layout [simp]: "size_of m QXLMonitorsConfig = 4 \<and> align_of m QXLMonitorsConfig = 1 \<and> rigid QXLMonitorsConfig"
  by (cases m) (simp_all add: QXLMonitorsConfig_def layout_simps layout_eval cong: fields_of_cong del: fields_of.simps One_nat_def)

lemma qxl_rigid: "list_all rigid qxl_layouts"
  by (simp add: qxl_layouts_def)

section \<open>The rings the device declares\<close>

definition qxl_rings :: "(ctype \<times> ctype \<times> nat) list" where
  "qxl_rings =
     [(QXLCommandRing, QXLCommand, QXL_COMMAND_RING_SIZE), (QXLCursorRing, QXLCommand, QXL_CURSOR_RING_SIZE),
      (QXLReleaseRing, UINT64, QXL_RELEASE_RING_SIZE)]"

definition ring_placed :: "packing \<Rightarrow> ctype \<Rightarrow> ctype \<Rightarrow> nat \<Rightarrow> bool" where
  "ring_placed m r el n \<longleftrightarrow>
     size_of m r = 20 + n * size_of m el \<and>
     (\<forall>i \<in> set [0..<n]. locate m [Member ''items'', Index i, Member '''', Member ''el''] r =
        Some (20 + i * size_of m el, el))"

lemma rings_placed:
  "list_all (\<lambda>(r, el, n). ring_placed Attribute_packing r el n \<and> ring_placed Pragma_packing r el n) qxl_rings"
  by code_simp

text \<open>
  The rings of the device: in the declared layout the items of a ring lie one element's size apart
  behind the five counters and fill the structure, on every compiler, and initialising the ring
  recovers from the sizes the number of items it was declared with.
\<close>

theorem declared_rings:
  assumes "(r, el, n) \<in> set qxl_rings" and "length (items rg) = n"
  shows "size_of m r = 20 + n * size_of m el \<and>
    (\<forall>i < n. locate m [Member ''items'', Index i, Member '''', Member ''el''] r =
       Some (20 + i * size_of m el, el)) \<and>
    unat (num_items (SPICE_RING_INIT (of_nat (size_of m el)) rg)) = n"
proof -
  have p: "ring_placed m r el n"
    using rings_placed assms(1) by (cases m) (auto simp: list_all_iff)
  obtain k e where "n = 2 ^ k" "size_of m el = 2 ^ e" "k < 32" "e < 32"
  proof -
    have "n = 2 ^ 5 \<and> size_of m el = 2 ^ 4 \<or> n = 2 ^ 3 \<and> size_of m el = 2 ^ 3"
      using assms(1)
      by (cases m) (auto simp: qxl_rings_def QXL_COMMAND_RING_SIZE_def QXL_CURSOR_RING_SIZE_def
          QXL_RELEASE_RING_SIZE_def QXLCommand_def packs_def round_up_def)
    then show thesis using that[of 5 4] that[of 3 3] by auto
  qed
  then have "unat (num_items (SPICE_RING_INIT (of_nat (size_of m el)) rg)) = n"
    using init_num_items[of rg k e] pow2_word[of k] assms(2) by simp
  then show ?thesis using p by (simp add: ring_placed_def)
qed

theorem declared_rings_witness:
  "unat (num_items (SPICE_RING_INIT (of_nat (size_of Pragma_packing UINT64))
     \<lparr>num_items = 0, prod = 0, notify_on_prod = 0, cons = 0, notify_on_cons = 0,
      items = replicate 8 (0 :: nat)\<rparr>)) = 8"
proof -
  have "(QXLReleaseRing, UINT64, 8) \<in> set qxl_rings" by (simp add: qxl_rings_def QXL_RELEASE_RING_SIZE_def)
  from declared_rings[OF this, of "\<lparr>num_items = 0, prod = 0, notify_on_prod = 0, cons = 0, notify_on_cons = 0,
      items = replicate 8 (0 :: nat)\<rparr>" Pragma_packing]
  show ?thesis by simp
qed

section \<open>Structures that only grow\<close>

lemma fields_of_append_at:
  "field_at m tight off (fields_of fs) x = Some r \<Longrightarrow> field_at m tight off (fields_of (fs @ gs)) x = Some r"
  by (induction fs arbitrary: off) (auto simp: Let_def split: if_splits)

lemma locate_append:
  "locate m (Member x # p) (PACKED fs) = Some r \<Longrightarrow> locate m (Member x # p) (PACKED (fs @ gs)) = Some r"
  using fields_of_append_at[of m True 0 fs x _ gs] by (force simp: packs_def split: option.splits packing.splits)

section \<open>Image identifiers\<close>

definition QXL_SET_IMAGE_ID ::
  "platform \<Rightarrow> packing \<Rightarrow> nat \<Rightarrow> guint32 \<Rightarrow> guint32 \<Rightarrow> mem \<Rightarrow> mem option" where
  "QXL_SET_IMAGE_ID pf m img grp uniq =
     set_field pf m img QXLImage [Member ''descriptor'', Member ''id'']
       (uint (push_bit 32 (ucast uniq) OR ucast grp :: guint64))"

lemma word_bytes_append: "word_bytes (a + b) v = word_bytes a v @ word_bytes b (drop_bit (8 * a) v)"
  by (rule nth_equalityI) (auto simp: nth_append add.commute right_diff_distrib')

lemma upper_bits: "take_bit 32 (drop_bit 32 v) = drop_bit 32 (v :: guint64)"
proof (rule bit_word_eqI)
  fix i
  have "bit v (32 + i) \<Longrightarrow> i < 32" using bit_imp_le_length[of v "32 + i"] by simp
  then show "bit (take_bit 32 (drop_bit 32 v)) i = bit (drop_bit 32 v) i" by (auto simp: bit_simps)
qed

text \<open>The two halves of a stored 64-bit integer, read as 32-bit integers.\<close>

lemma read_halves:
  fixes v :: guint64
  assumes "h' = native_write pf 8 h p v"
  shows "(native_read pf 4 h' p :: guint64) =
      (case G_BYTE_ORDER pf of G_LITTLE_ENDIAN \<Rightarrow> take_bit 32 v | G_BIG_ENDIAN \<Rightarrow> drop_bit 32 v)"
    and "(native_read pf 4 h' (p + 4) :: guint64) =
      (case G_BYTE_ORDER pf of G_LITTLE_ENDIAN \<Rightarrow> drop_bit 32 v | G_BIG_ENDIAN \<Rightarrow> take_bit 32 v)"
proof -
  have lo: "bytes_word (word_bytes 4 v) = take_bit 32 v" by (simp add: bytes_word_word_bytes_take)
  have hi: "bytes_word (word_bytes 4 (drop_bit 32 v)) = drop_bit 32 v"
    by (simp add: bytes_word_word_bytes_take) (rule upper_bits)
  have b: "mem_bytes h' p 8 = (case G_BYTE_ORDER pf of G_LITTLE_ENDIAN \<Rightarrow> word_bytes 8 v
      | G_BIG_ENDIAN \<Rightarrow> rev (word_bytes 8 v))"
    using assms by (cases "G_BYTE_ORDER pf") (simp_all add: native_write_def)
  have "word_bytes 8 v = word_bytes 4 v @ word_bytes 4 (drop_bit 32 v)"
    using word_bytes_append[of 4 4 v] by simp
  moreover have "mem_bytes h' p 8 = mem_bytes h' p 4 @ mem_bytes h' (p + 4) 4"
    using mem_bytes_append[of h' p 4 4] by simp
  ultimately have "mem_bytes h' p 4 = (case G_BYTE_ORDER pf of G_LITTLE_ENDIAN \<Rightarrow> word_bytes 4 v
      | G_BIG_ENDIAN \<Rightarrow> rev (word_bytes 4 (drop_bit 32 v)))"
    and "mem_bytes h' (p + 4) 4 = (case G_BYTE_ORDER pf of G_LITTLE_ENDIAN \<Rightarrow> word_bytes 4 (drop_bit 32 v)
      | G_BIG_ENDIAN \<Rightarrow> rev (word_bytes 4 v))"
    using b by (cases "G_BYTE_ORDER pf"; simp)+
  then show "(native_read pf 4 h' p :: guint64) =
      (case G_BYTE_ORDER pf of G_LITTLE_ENDIAN \<Rightarrow> take_bit 32 v | G_BIG_ENDIAN \<Rightarrow> drop_bit 32 v)"
    "(native_read pf 4 h' (p + 4) :: guint64) =
      (case G_BYTE_ORDER pf of G_LITTLE_ENDIAN \<Rightarrow> drop_bit 32 v | G_BIG_ENDIAN \<Rightarrow> take_bit 32 v)"
    using lo hi by (cases "G_BYTE_ORDER pf"; simp add: native_read_def)+
qed

lemma image_id_located:
  "locate m [Member ''descriptor'', Member ''id''] QXLImage = Some (0, UINT64)"
  "locate m [Member ''id'', Member ''group''] QXLImageIDUnion = Some (0, UINT32)"
  "locate m [Member ''id'', Member ''unique''] QXLImageIDUnion = Some (4, UINT32)"
  "locate m [Member ''value''] QXLImageIDUnion = Some (0, UINT64)"
  by (cases m; simp add: QXLImage_def QXLImageDescriptor_def QXLImageIDUnion_def QXLImageID_def packs_def round_up_def)+

text \<open>
  \<open>QXL_SET_IMAGE_ID\<close> and the union over the identifier: on a little-endian target the group and the
  unique number the macro stores are what the members \<open>group\<close> and \<open>unique\<close> of the union read, on a
  big-endian one the two are exchanged; the whole value reads the same on both.
\<close>

theorem image_id:
  assumes "QXL_SET_IMAGE_ID pf m img grp uniq h = Some h'"
  shows "get_field pf m' h' img QXLImageIDUnion [Member ''value''] = Some (uint uniq * 2 ^ 32 + uint grp) \<and>
    (let (g, u) = (case G_BYTE_ORDER pf of G_LITTLE_ENDIAN \<Rightarrow> (grp, uniq) | G_BIG_ENDIAN \<Rightarrow> (uniq, grp))
     in get_field pf m' h' img QXLImageIDUnion [Member ''id'', Member ''group''] = Some (uint g) \<and>
        get_field pf m' h' img QXLImageIDUnion [Member ''id'', Member ''unique''] = Some (uint u))"
proof -
  define v where "v = (push_bit 32 (ucast uniq) OR ucast grp :: guint64)"
  have h': "h' = native_write pf 8 h img v"
    using assms by (simp add: QXL_SET_IMAGE_ID_def set_field_def image_id_located v_def del: locate.simps)
  have lo: "take_bit 32 v = ucast grp" unfolding v_def
    by (rule bit_word_eqI) (auto simp: bit_simps dest: bit_imp_le_length)
  have hi: "drop_bit 32 v = ucast uniq" unfolding v_def
    by (rule bit_word_eqI) (auto simp: bit_simps dest: bit_imp_le_length)
  have "uint v = uint (drop_bit 32 v) * 2 ^ 32 + uint (take_bit 32 v)"
    by (simp add: drop_bit_eq_div take_bit_eq_mod uint_div_distrib uint_mod_distrib)
  then have whole: "uint v = uint uniq * 2 ^ 32 + uint grp" unfolding lo hi
    by (simp add: unsigned_ucast_eq take_bit_int_eq_self less_trans[OF unsigned_less])
  have u: "uint (ucast (w :: guint32) :: guint64) = uint w" for w
    by (simp add: unsigned_ucast_eq take_bit_int_eq_self less_trans[OF unsigned_less])
  have "native_read pf 8 h' img = v" unfolding h' using native_read_write[of 8 pf h img v]
    by (simp add: take_bit_word_eq_self)
  then show ?thesis
    using read_halves[OF h'] lo hi whole u
    by (cases "G_BYTE_ORDER pf") (simp_all add: get_field_def image_id_located del: locate.simps)
qed

theorem image_id_witness:
  "get_field sample_platform Pragma_packing
     (the (QXL_SET_IMAGE_ID sample_platform Attribute_packing 16 2 7 (\<lambda>_. 0))) 16 QXLImageIDUnion [Member ''value''] =
     Some (7 * 2 ^ 32 + 2)"
proof -
  have "QXL_SET_IMAGE_ID sample_platform Attribute_packing 16 2 7 (\<lambda>_. 0) =
      Some (the (QXL_SET_IMAGE_ID sample_platform Attribute_packing 16 2 7 (\<lambda>_. 0)))"
    by (simp add: QXL_SET_IMAGE_ID_def set_field_def image_id_located del: locate.simps)
  from image_id[OF this, of Pragma_packing] show ?thesis by simp
qed


text \<open>
  The update command grew at its end only: every member a guest of the first device wrote as
  \<open>QXLCompatUpdateCmd\<close> is where \<open>QXLUpdateCmd\<close> has it.
\<close>

theorem compat_update_prefix:
  assumes "locate m (Member x # p) QXLCompatUpdateCmd = Some r"
  shows "locate m (Member x # p) QXLUpdateCmd = Some r \<and>
    size_of m QXLCompatUpdateCmd + 4 = size_of m QXLUpdateCmd"
  using locate_append[OF assms[unfolded QXLCompatUpdateCmd_def], of "[(''surface_id'', UINT32)]"]
  by (intro conjI) (simp add: QXLUpdateCmd_def del: locate.simps, simp)

theorem compat_update_prefix_witness:
  "locate Pragma_packing [Member ''update_id''] QXLUpdateCmd = Some (24, UINT32)"
proof -
  have "locate Pragma_packing [Member ''update_id''] QXLCompatUpdateCmd = Some (24, UINT32)"
    by (simp add: QXLCompatUpdateCmd_def packs_def round_up_def)
  then show ?thesis using compat_update_prefix by blast
qed

end
