(* ===== verification/Spice_Enums.thy ===== *)
theory Spice_Enums
  imports C_Enum
begin

text \<open>
  \<open>spice/enums.h\<close>: the enumerations of the SPICE protocol, with the C rule for their numbers.
\<close>

section \<open>The enumerations, in the order of the header\<close>

definition SpiceLinkErr_enum :: "enumerator list" where
  "SpiceLinkErr_enum =
     [Next ''SPICE_LINK_ERR_OK'', Next ''SPICE_LINK_ERR_ERROR'',
      Next ''SPICE_LINK_ERR_INVALID_MAGIC'', Next ''SPICE_LINK_ERR_INVALID_DATA'',
      Next ''SPICE_LINK_ERR_VERSION_MISMATCH'', Next ''SPICE_LINK_ERR_NEED_SECURED'',
      Next ''SPICE_LINK_ERR_NEED_UNSECURED'', Next ''SPICE_LINK_ERR_PERMISSION_DENIED'',
      Next ''SPICE_LINK_ERR_BAD_CONNECTION_ID'', Next ''SPICE_LINK_ERR_CHANNEL_NOT_AVAILABLE'',
      Next ''SPICE_LINK_ERR_ENUM_END'']"

definition SpiceWarnCode_enum :: "enumerator list" where
  "SpiceWarnCode_enum =
     [Next ''SPICE_WARN_GENERAL'', Next ''SPICE_WARN_CODE_ENUM_END'']"

definition SpiceInfoCode_enum :: "enumerator list" where
  "SpiceInfoCode_enum =
     [Next ''SPICE_INFO_GENERAL'', Next ''SPICE_INFO_CODE_ENUM_END'']"

definition SpiceMigrateFlags_enum :: "enumerator list" where
  "SpiceMigrateFlags_enum =
     [Given ''SPICE_MIGRATE_NEED_FLUSH'' (2 ^ 0),
      Given ''SPICE_MIGRATE_NEED_DATA_TRANSFER'' (2 ^ 1), Given ''SPICE_MIGRATE_FLAGS_MASK'' 0x3]"

definition SpiceCompositeFlags_enum :: "enumerator list" where
  "SpiceCompositeFlags_enum =
     [Given ''SPICE_COMPOSITE_OP0'' (2 ^ 0), Given ''SPICE_COMPOSITE_OP1'' (2 ^ 1),
      Given ''SPICE_COMPOSITE_OP2'' (2 ^ 2), Given ''SPICE_COMPOSITE_OP3'' (2 ^ 3),
      Given ''SPICE_COMPOSITE_OP4'' (2 ^ 4), Given ''SPICE_COMPOSITE_OP5'' (2 ^ 5),
      Given ''SPICE_COMPOSITE_OP6'' (2 ^ 6), Given ''SPICE_COMPOSITE_OP7'' (2 ^ 7),
      Given ''SPICE_COMPOSITE_SRC_FILTER0'' (2 ^ 8),
      Given ''SPICE_COMPOSITE_SRC_FILTER1'' (2 ^ 9),
      Given ''SPICE_COMPOSITE_SRC_FILTER2'' (2 ^ 10),
      Given ''SPICE_COMPOSITE_MASK_FILTER0'' (2 ^ 11),
      Given ''SPICE_COMPOSITE_MASK_FITLER1'' (2 ^ 12),
      Given ''SPICE_COMPOSITE_MASK_FILTER2'' (2 ^ 13),
      Given ''SPICE_COMPOSITE_SRC_REPEAT0'' (2 ^ 14),
      Given ''SPICE_COMPOSITE_SRC_REPEAT1'' (2 ^ 15),
      Given ''SPICE_COMPOSITE_MASK_REPEAT0'' (2 ^ 16),
      Given ''SPICE_COMPOSITE_MASK_REPEAT1'' (2 ^ 17),
      Given ''SPICE_COMPOSITE_COMPONENT_ALPHA'' (2 ^ 18),
      Given ''SPICE_COMPOSITE_HAS_MASK'' (2 ^ 19),
      Given ''SPICE_COMPOSITE_HAS_SRC_TRANSFORM'' (2 ^ 20),
      Given ''SPICE_COMPOSITE_HAS_MASK_TRANSFORM'' (2 ^ 21),
      Given ''SPICE_COMPOSITE_SOURCE_OPAQUE'' (2 ^ 22),
      Given ''SPICE_COMPOSITE_MASK_OPAQUE'' (2 ^ 23),
      Given ''SPICE_COMPOSITE_DEST_OPAQUE'' (2 ^ 24),
      Given ''SPICE_COMPOSITE_FLAGS_MASK'' 0x1ffffff]"

definition SpiceNotifySeverity_enum :: "enumerator list" where
  "SpiceNotifySeverity_enum =
     [Next ''SPICE_NOTIFY_SEVERITY_INFO'', Next ''SPICE_NOTIFY_SEVERITY_WARN'',
      Next ''SPICE_NOTIFY_SEVERITY_ERROR'', Next ''SPICE_NOTIFY_SEVERITY_ENUM_END'']"

definition SpiceNotifyVisibility_enum :: "enumerator list" where
  "SpiceNotifyVisibility_enum =
     [Next ''SPICE_NOTIFY_VISIBILITY_LOW'', Next ''SPICE_NOTIFY_VISIBILITY_MEDIUM'',
      Next ''SPICE_NOTIFY_VISIBILITY_HIGH'', Next ''SPICE_NOTIFY_VISIBILITY_ENUM_END'']"

definition SpiceMouseMode_enum :: "enumerator list" where
  "SpiceMouseMode_enum =
     [Given ''SPICE_MOUSE_MODE_SERVER'' (2 ^ 0), Given ''SPICE_MOUSE_MODE_CLIENT'' (2 ^ 1),
      Given ''SPICE_MOUSE_MODE_MASK'' 0x3]"

definition SpiceDataCompressionType_enum :: "enumerator list" where
  "SpiceDataCompressionType_enum =
     [Next ''SPICE_DATA_COMPRESSION_TYPE_NONE'', Next ''SPICE_DATA_COMPRESSION_TYPE_LZ4'',
      Next ''SPICE_DATA_COMPRESSION_TYPE_ENUM_END'']"

definition SpiceClipType_enum :: "enumerator list" where
  "SpiceClipType_enum =
     [Next ''SPICE_CLIP_TYPE_NONE'', Next ''SPICE_CLIP_TYPE_RECTS'',
      Next ''SPICE_CLIP_TYPE_ENUM_END'']"

definition SpicePathFlags_enum :: "enumerator list" where
  "SpicePathFlags_enum =
     [Given ''SPICE_PATH_BEGIN'' (2 ^ 0), Given ''SPICE_PATH_END'' (2 ^ 1),
      Given ''SPICE_PATH_CLOSE'' (2 ^ 3), Given ''SPICE_PATH_BEZIER'' (2 ^ 4),
      Given ''SPICE_PATH_FLAGS_MASK'' 0x1b]"

definition SpiceVideoCodecType_enum :: "enumerator list" where
  "SpiceVideoCodecType_enum =
     [Given ''SPICE_VIDEO_CODEC_TYPE_MJPEG'' 1, Next ''SPICE_VIDEO_CODEC_TYPE_VP8'',
      Next ''SPICE_VIDEO_CODEC_TYPE_H264'', Next ''SPICE_VIDEO_CODEC_TYPE_VP9'',
      Next ''SPICE_VIDEO_CODEC_TYPE_H265'', Next ''SPICE_VIDEO_CODEC_TYPE_ENUM_END'']"

definition SpiceStreamFlags_enum :: "enumerator list" where
  "SpiceStreamFlags_enum =
     [Given ''SPICE_STREAM_FLAGS_TOP_DOWN'' (2 ^ 0), Given ''SPICE_STREAM_FLAGS_MASK'' 0x1]"

definition SpiceBrushType_enum :: "enumerator list" where
  "SpiceBrushType_enum =
     [Next ''SPICE_BRUSH_TYPE_NONE'', Next ''SPICE_BRUSH_TYPE_SOLID'',
      Next ''SPICE_BRUSH_TYPE_PATTERN'', Next ''SPICE_BRUSH_TYPE_ENUM_END'']"

definition SpiceMaskFlags_enum :: "enumerator list" where
  "SpiceMaskFlags_enum =
     [Given ''SPICE_MASK_FLAGS_INVERS'' (2 ^ 0), Given ''SPICE_MASK_FLAGS_MASK'' 0x1]"

definition SpiceImageType_enum :: "enumerator list" where
  "SpiceImageType_enum =
     [Next ''SPICE_IMAGE_TYPE_BITMAP'', Next ''SPICE_IMAGE_TYPE_QUIC'',
      Next ''SPICE_IMAGE_TYPE_RESERVED'', Given ''SPICE_IMAGE_TYPE_LZ_PLT'' 100,
      Next ''SPICE_IMAGE_TYPE_LZ_RGB'', Next ''SPICE_IMAGE_TYPE_GLZ_RGB'',
      Next ''SPICE_IMAGE_TYPE_FROM_CACHE'', Next ''SPICE_IMAGE_TYPE_SURFACE'',
      Next ''SPICE_IMAGE_TYPE_JPEG'', Next ''SPICE_IMAGE_TYPE_FROM_CACHE_LOSSLESS'',
      Next ''SPICE_IMAGE_TYPE_ZLIB_GLZ_RGB'', Next ''SPICE_IMAGE_TYPE_JPEG_ALPHA'',
      Next ''SPICE_IMAGE_TYPE_LZ4'', Next ''SPICE_IMAGE_TYPE_ENUM_END'']"

definition SpiceImageCompression_enum :: "enumerator list" where
  "SpiceImageCompression_enum =
     [Next ''SPICE_IMAGE_COMPRESSION_INVALID'', Next ''SPICE_IMAGE_COMPRESSION_OFF'',
      Next ''SPICE_IMAGE_COMPRESSION_AUTO_GLZ'', Next ''SPICE_IMAGE_COMPRESSION_AUTO_LZ'',
      Next ''SPICE_IMAGE_COMPRESSION_QUIC'', Next ''SPICE_IMAGE_COMPRESSION_GLZ'',
      Next ''SPICE_IMAGE_COMPRESSION_LZ'', Next ''SPICE_IMAGE_COMPRESSION_LZ4'',
      Next ''SPICE_IMAGE_COMPRESSION_ENUM_END'']"

definition SpiceImageFlags_enum :: "enumerator list" where
  "SpiceImageFlags_enum =
     [Given ''SPICE_IMAGE_FLAGS_CACHE_ME'' (2 ^ 0),
      Given ''SPICE_IMAGE_FLAGS_HIGH_BITS_SET'' (2 ^ 1),
      Given ''SPICE_IMAGE_FLAGS_CACHE_REPLACE_ME'' (2 ^ 2), Given ''SPICE_IMAGE_FLAGS_MASK'' 0x7]"

definition SpiceBitmapFmt_enum :: "enumerator list" where
  "SpiceBitmapFmt_enum =
     [Next ''SPICE_BITMAP_FMT_INVALID'', Next ''SPICE_BITMAP_FMT_1BIT_LE'',
      Next ''SPICE_BITMAP_FMT_1BIT_BE'', Next ''SPICE_BITMAP_FMT_4BIT_LE'',
      Next ''SPICE_BITMAP_FMT_4BIT_BE'', Next ''SPICE_BITMAP_FMT_8BIT'',
      Next ''SPICE_BITMAP_FMT_16BIT'', Next ''SPICE_BITMAP_FMT_24BIT'',
      Next ''SPICE_BITMAP_FMT_32BIT'', Next ''SPICE_BITMAP_FMT_RGBA'',
      Next ''SPICE_BITMAP_FMT_8BIT_A'', Next ''SPICE_BITMAP_FMT_ENUM_END'']"

definition SpiceBitmapFlags_enum :: "enumerator list" where
  "SpiceBitmapFlags_enum =
     [Given ''SPICE_BITMAP_FLAGS_PAL_CACHE_ME'' (2 ^ 0),
      Given ''SPICE_BITMAP_FLAGS_PAL_FROM_CACHE'' (2 ^ 1),
      Given ''SPICE_BITMAP_FLAGS_TOP_DOWN'' (2 ^ 2), Given ''SPICE_BITMAP_FLAGS_MASK'' 0x7]"

definition SpiceJpegAlphaFlags_enum :: "enumerator list" where
  "SpiceJpegAlphaFlags_enum =
     [Given ''SPICE_JPEG_ALPHA_FLAGS_TOP_DOWN'' (2 ^ 0), Given ''SPICE_JPEG_ALPHA_FLAGS_MASK'' 0x1]"

definition SpiceImageScaleMode_enum :: "enumerator list" where
  "SpiceImageScaleMode_enum =
     [Next ''SPICE_IMAGE_SCALE_MODE_INTERPOLATE'', Next ''SPICE_IMAGE_SCALE_MODE_NEAREST'',
      Next ''SPICE_IMAGE_SCALE_MODE_ENUM_END'']"

definition SpiceRopd_enum :: "enumerator list" where
  "SpiceRopd_enum =
     [Given ''SPICE_ROPD_INVERS_SRC'' (2 ^ 0), Given ''SPICE_ROPD_INVERS_BRUSH'' (2 ^ 1),
      Given ''SPICE_ROPD_INVERS_DEST'' (2 ^ 2), Given ''SPICE_ROPD_OP_PUT'' (2 ^ 3),
      Given ''SPICE_ROPD_OP_OR'' (2 ^ 4), Given ''SPICE_ROPD_OP_AND'' (2 ^ 5),
      Given ''SPICE_ROPD_OP_XOR'' (2 ^ 6), Given ''SPICE_ROPD_OP_BLACKNESS'' (2 ^ 7),
      Given ''SPICE_ROPD_OP_WHITENESS'' (2 ^ 8), Given ''SPICE_ROPD_OP_INVERS'' (2 ^ 9),
      Given ''SPICE_ROPD_INVERS_RES'' (2 ^ 10), Given ''SPICE_ROPD_MASK'' 0x7ff]"

definition SpiceLineFlags_enum :: "enumerator list" where
  "SpiceLineFlags_enum =
     [Given ''SPICE_LINE_FLAGS_START_WITH_GAP'' (2 ^ 2),
      Given ''SPICE_LINE_FLAGS_STYLED'' (2 ^ 3), Given ''SPICE_LINE_FLAGS_MASK'' 0xc]"

definition SpiceStringFlags_enum :: "enumerator list" where
  "SpiceStringFlags_enum =
     [Given ''SPICE_STRING_FLAGS_RASTER_A1'' (2 ^ 0),
      Given ''SPICE_STRING_FLAGS_RASTER_A4'' (2 ^ 1),
      Given ''SPICE_STRING_FLAGS_RASTER_A8'' (2 ^ 2),
      Given ''SPICE_STRING_FLAGS_RASTER_TOP_DOWN'' (2 ^ 3), Given ''SPICE_STRING_FLAGS_MASK'' 0xf]"

definition SpiceSurfaceFlags_enum :: "enumerator list" where
  "SpiceSurfaceFlags_enum =
     [Given ''SPICE_SURFACE_FLAGS_PRIMARY'' (2 ^ 0),
      Given ''SPICE_SURFACE_FLAGS_STREAMING_MODE'' (2 ^ 1), Given ''SPICE_SURFACE_FLAGS_MASK'' 0x3]"

definition SpiceSurfaceFmt_enum :: "enumerator list" where
  "SpiceSurfaceFmt_enum =
     [Next ''SPICE_SURFACE_FMT_INVALID'', Next ''SPICE_SURFACE_FMT_1_A'',
      Given ''SPICE_SURFACE_FMT_8_A'' 8, Given ''SPICE_SURFACE_FMT_16_555'' 16,
      Given ''SPICE_SURFACE_FMT_32_xRGB'' 32, Given ''SPICE_SURFACE_FMT_16_565'' 80,
      Given ''SPICE_SURFACE_FMT_32_ARGB'' 96, Next ''SPICE_SURFACE_FMT_ENUM_END'']"

definition SpiceAlphaFlags_enum :: "enumerator list" where
  "SpiceAlphaFlags_enum =
     [Given ''SPICE_ALPHA_FLAGS_DEST_HAS_ALPHA'' (2 ^ 0),
      Given ''SPICE_ALPHA_FLAGS_SRC_SURFACE_HAS_ALPHA'' (2 ^ 1),
      Given ''SPICE_ALPHA_FLAGS_MASK'' 0x3]"

definition SpiceResourceType_enum :: "enumerator list" where
  "SpiceResourceType_enum =
     [Next ''SPICE_RES_TYPE_INVALID'', Next ''SPICE_RES_TYPE_PIXMAP'',
      Next ''SPICE_RESOURCE_TYPE_ENUM_END'']"

definition SpiceGlScanoutFlags_enum :: "enumerator list" where
  "SpiceGlScanoutFlags_enum =
     [Given ''SPICE_GL_SCANOUT_FLAGS_Y0TOP'' (2 ^ 0), Given ''SPICE_GL_SCANOUT_FLAGS_MASK'' 0x1]"

definition SpiceKeyboardModifierFlags_enum :: "enumerator list" where
  "SpiceKeyboardModifierFlags_enum =
     [Given ''SPICE_KEYBOARD_MODIFIER_FLAGS_SCROLL_LOCK'' (2 ^ 0),
      Given ''SPICE_KEYBOARD_MODIFIER_FLAGS_NUM_LOCK'' (2 ^ 1),
      Given ''SPICE_KEYBOARD_MODIFIER_FLAGS_CAPS_LOCK'' (2 ^ 2),
      Given ''SPICE_KEYBOARD_MODIFIER_FLAGS_MASK'' 0x7]"

definition SpiceMouseButton_enum :: "enumerator list" where
  "SpiceMouseButton_enum =
     [Next ''SPICE_MOUSE_BUTTON_INVALID'', Next ''SPICE_MOUSE_BUTTON_LEFT'',
      Next ''SPICE_MOUSE_BUTTON_MIDDLE'', Next ''SPICE_MOUSE_BUTTON_RIGHT'',
      Next ''SPICE_MOUSE_BUTTON_UP'', Next ''SPICE_MOUSE_BUTTON_DOWN'',
      Next ''SPICE_MOUSE_BUTTON_SIDE'', Next ''SPICE_MOUSE_BUTTON_EXTRA'',
      Next ''SPICE_MOUSE_BUTTON_ENUM_END'']"

definition SpiceMouseButtonMask_enum :: "enumerator list" where
  "SpiceMouseButtonMask_enum =
     [Given ''SPICE_MOUSE_BUTTON_MASK_LEFT'' (2 ^ 0),
      Given ''SPICE_MOUSE_BUTTON_MASK_MIDDLE'' (2 ^ 1),
      Given ''SPICE_MOUSE_BUTTON_MASK_RIGHT'' (2 ^ 2),
      Given ''SPICE_MOUSE_BUTTON_MASK_UP'' (2 ^ 3),
      Given ''SPICE_MOUSE_BUTTON_MASK_DOWN'' (2 ^ 4),
      Given ''SPICE_MOUSE_BUTTON_MASK_SIDE'' (2 ^ 5),
      Given ''SPICE_MOUSE_BUTTON_MASK_EXTRA'' (2 ^ 6), Given ''SPICE_MOUSE_BUTTON_MASK_MASK'' 0x7f]"

definition SpiceCursorType_enum :: "enumerator list" where
  "SpiceCursorType_enum =
     [Next ''SPICE_CURSOR_TYPE_ALPHA'', Next ''SPICE_CURSOR_TYPE_MONO'',
      Next ''SPICE_CURSOR_TYPE_COLOR4'', Next ''SPICE_CURSOR_TYPE_COLOR8'',
      Next ''SPICE_CURSOR_TYPE_COLOR16'', Next ''SPICE_CURSOR_TYPE_COLOR24'',
      Next ''SPICE_CURSOR_TYPE_COLOR32'', Next ''SPICE_CURSOR_TYPE_ENUM_END'']"

definition SpiceCursorFlags_enum :: "enumerator list" where
  "SpiceCursorFlags_enum =
     [Given ''SPICE_CURSOR_FLAGS_NONE'' (2 ^ 0), Given ''SPICE_CURSOR_FLAGS_CACHE_ME'' (2 ^ 1),
      Given ''SPICE_CURSOR_FLAGS_FROM_CACHE'' (2 ^ 2), Given ''SPICE_CURSOR_FLAGS_MASK'' 0x7]"

definition SpiceAudioDataMode_enum :: "enumerator list" where
  "SpiceAudioDataMode_enum =
     [Next ''SPICE_AUDIO_DATA_MODE_INVALID'', Next ''SPICE_AUDIO_DATA_MODE_RAW'',
      Next ''SPICE_AUDIO_DATA_MODE_CELT_0_5_1'', Next ''SPICE_AUDIO_DATA_MODE_OPUS'',
      Next ''SPICE_AUDIO_DATA_MODE_ENUM_END'']"

definition SpiceAudioFmt_enum :: "enumerator list" where
  "SpiceAudioFmt_enum =
     [Next ''SPICE_AUDIO_FMT_INVALID'', Next ''SPICE_AUDIO_FMT_S16'',
      Next ''SPICE_AUDIO_FMT_ENUM_END'']"

definition SpiceVscMessageType_enum :: "enumerator list" where
  "SpiceVscMessageType_enum =
     [Given ''SPICE_VSC_MESSAGE_TYPE_Init'' 1, Next ''SPICE_VSC_MESSAGE_TYPE_Error'',
      Next ''SPICE_VSC_MESSAGE_TYPE_ReaderAdd'', Next ''SPICE_VSC_MESSAGE_TYPE_ReaderRemove'',
      Next ''SPICE_VSC_MESSAGE_TYPE_ATR'', Next ''SPICE_VSC_MESSAGE_TYPE_CardRemove'',
      Next ''SPICE_VSC_MESSAGE_TYPE_APDU'', Next ''SPICE_VSC_MESSAGE_TYPE_Flush'',
      Next ''SPICE_VSC_MESSAGE_TYPE_FlushComplete'', Next ''SPICE_VSC_MESSAGE_TYPE_ENUM_END'']"

definition SPICE_CHANNEL_enum :: "enumerator list" where
  "SPICE_CHANNEL_enum =
     [Given ''SPICE_CHANNEL_MAIN'' 1, Next ''SPICE_CHANNEL_DISPLAY'',
      Next ''SPICE_CHANNEL_INPUTS'', Next ''SPICE_CHANNEL_CURSOR'',
      Next ''SPICE_CHANNEL_PLAYBACK'', Next ''SPICE_CHANNEL_RECORD'',
      Next ''SPICE_CHANNEL_TUNNEL'', Next ''SPICE_CHANNEL_SMARTCARD'',
      Next ''SPICE_CHANNEL_USBREDIR'', Next ''SPICE_CHANNEL_PORT'',
      Next ''SPICE_CHANNEL_WEBDAV'', Next ''SPICE_END_CHANNEL'']"

definition SPICE_MSG_BASE_enum :: "enumerator list" where
  "SPICE_MSG_BASE_enum =
     [Given ''SPICE_MSG_MIGRATE'' 1, Next ''SPICE_MSG_MIGRATE_DATA'', Next ''SPICE_MSG_SET_ACK'',
      Next ''SPICE_MSG_PING'', Next ''SPICE_MSG_WAIT_FOR_CHANNELS'',
      Next ''SPICE_MSG_DISCONNECTING'', Next ''SPICE_MSG_NOTIFY'', Next ''SPICE_MSG_LIST'',
      Given ''SPICE_MSG_BASE_LAST'' 100]"

definition SPICE_MSGC_BASE_enum :: "enumerator list" where
  "SPICE_MSGC_BASE_enum =
     [Given ''SPICE_MSGC_ACK_SYNC'' 1, Next ''SPICE_MSGC_ACK'', Next ''SPICE_MSGC_PONG'',
      Next ''SPICE_MSGC_MIGRATE_FLUSH_MARK'', Next ''SPICE_MSGC_MIGRATE_DATA'',
      Next ''SPICE_MSGC_DISCONNECTING'']"

definition SPICE_MSG_MAIN_enum :: "enumerator list" where
  "SPICE_MSG_MAIN_enum =
     [Given ''SPICE_MSG_MAIN_MIGRATE_BEGIN'' 101, Next ''SPICE_MSG_MAIN_MIGRATE_CANCEL'',
      Next ''SPICE_MSG_MAIN_INIT'', Next ''SPICE_MSG_MAIN_CHANNELS_LIST'',
      Next ''SPICE_MSG_MAIN_MOUSE_MODE'', Next ''SPICE_MSG_MAIN_MULTI_MEDIA_TIME'',
      Next ''SPICE_MSG_MAIN_AGENT_CONNECTED'', Next ''SPICE_MSG_MAIN_AGENT_DISCONNECTED'',
      Next ''SPICE_MSG_MAIN_AGENT_DATA'', Next ''SPICE_MSG_MAIN_AGENT_TOKEN'',
      Next ''SPICE_MSG_MAIN_MIGRATE_SWITCH_HOST'', Next ''SPICE_MSG_MAIN_MIGRATE_END'',
      Next ''SPICE_MSG_MAIN_NAME'', Next ''SPICE_MSG_MAIN_UUID'',
      Next ''SPICE_MSG_MAIN_AGENT_CONNECTED_TOKENS'',
      Next ''SPICE_MSG_MAIN_MIGRATE_BEGIN_SEAMLESS'',
      Next ''SPICE_MSG_MAIN_MIGRATE_DST_SEAMLESS_ACK'',
      Next ''SPICE_MSG_MAIN_MIGRATE_DST_SEAMLESS_NACK'', Next ''SPICE_MSG_END_MAIN'']"

definition SPICE_MSGC_MAIN_enum :: "enumerator list" where
  "SPICE_MSGC_MAIN_enum =
     [Given ''SPICE_MSGC_MAIN_CLIENT_INFO'' 101, Next ''SPICE_MSGC_MAIN_MIGRATE_CONNECTED'',
      Next ''SPICE_MSGC_MAIN_MIGRATE_CONNECT_ERROR'', Next ''SPICE_MSGC_MAIN_ATTACH_CHANNELS'',
      Next ''SPICE_MSGC_MAIN_MOUSE_MODE_REQUEST'', Next ''SPICE_MSGC_MAIN_AGENT_START'',
      Next ''SPICE_MSGC_MAIN_AGENT_DATA'', Next ''SPICE_MSGC_MAIN_AGENT_TOKEN'',
      Next ''SPICE_MSGC_MAIN_MIGRATE_END'', Next ''SPICE_MSGC_MAIN_MIGRATE_DST_DO_SEAMLESS'',
      Next ''SPICE_MSGC_MAIN_MIGRATE_CONNECTED_SEAMLESS'',
      Next ''SPICE_MSGC_MAIN_QUALITY_INDICATOR'', Next ''SPICE_MSGC_END_MAIN'']"

definition SPICE_MSG_DISPLAY_enum :: "enumerator list" where
  "SPICE_MSG_DISPLAY_enum =
     [Given ''SPICE_MSG_DISPLAY_MODE'' 101, Next ''SPICE_MSG_DISPLAY_MARK'',
      Next ''SPICE_MSG_DISPLAY_RESET'', Next ''SPICE_MSG_DISPLAY_COPY_BITS'',
      Next ''SPICE_MSG_DISPLAY_INVAL_LIST'', Next ''SPICE_MSG_DISPLAY_INVAL_ALL_PIXMAPS'',
      Next ''SPICE_MSG_DISPLAY_INVAL_PALETTE'', Next ''SPICE_MSG_DISPLAY_INVAL_ALL_PALETTES'',
      Given ''SPICE_MSG_DISPLAY_STREAM_CREATE'' 122, Next ''SPICE_MSG_DISPLAY_STREAM_DATA'',
      Next ''SPICE_MSG_DISPLAY_STREAM_CLIP'', Next ''SPICE_MSG_DISPLAY_STREAM_DESTROY'',
      Next ''SPICE_MSG_DISPLAY_STREAM_DESTROY_ALL'', Given ''SPICE_MSG_DISPLAY_DRAW_FILL'' 302,
      Next ''SPICE_MSG_DISPLAY_DRAW_OPAQUE'', Next ''SPICE_MSG_DISPLAY_DRAW_COPY'',
      Next ''SPICE_MSG_DISPLAY_DRAW_BLEND'', Next ''SPICE_MSG_DISPLAY_DRAW_BLACKNESS'',
      Next ''SPICE_MSG_DISPLAY_DRAW_WHITENESS'', Next ''SPICE_MSG_DISPLAY_DRAW_INVERS'',
      Next ''SPICE_MSG_DISPLAY_DRAW_ROP3'', Next ''SPICE_MSG_DISPLAY_DRAW_STROKE'',
      Next ''SPICE_MSG_DISPLAY_DRAW_TEXT'', Next ''SPICE_MSG_DISPLAY_DRAW_TRANSPARENT'',
      Next ''SPICE_MSG_DISPLAY_DRAW_ALPHA_BLEND'', Next ''SPICE_MSG_DISPLAY_SURFACE_CREATE'',
      Next ''SPICE_MSG_DISPLAY_SURFACE_DESTROY'', Next ''SPICE_MSG_DISPLAY_STREAM_DATA_SIZED'',
      Next ''SPICE_MSG_DISPLAY_MONITORS_CONFIG'', Next ''SPICE_MSG_DISPLAY_DRAW_COMPOSITE'',
      Next ''SPICE_MSG_DISPLAY_STREAM_ACTIVATE_REPORT'',
      Next ''SPICE_MSG_DISPLAY_GL_SCANOUT_UNIX'', Next ''SPICE_MSG_DISPLAY_GL_DRAW'',
      Next ''SPICE_MSG_DISPLAY_QUALITY_INDICATOR'', Next ''SPICE_MSG_END_DISPLAY'']"

definition SPICE_MSGC_DISPLAY_enum :: "enumerator list" where
  "SPICE_MSGC_DISPLAY_enum =
     [Given ''SPICE_MSGC_DISPLAY_INIT'' 101, Next ''SPICE_MSGC_DISPLAY_STREAM_REPORT'',
      Next ''SPICE_MSGC_DISPLAY_PREFERRED_COMPRESSION'',
      Next ''SPICE_MSGC_DISPLAY_GL_DRAW_DONE'',
      Next ''SPICE_MSGC_DISPLAY_PREFERRED_VIDEO_CODEC_TYPE'', Next ''SPICE_MSGC_END_DISPLAY'']"

definition SPICE_MSG_INPUTS_enum :: "enumerator list" where
  "SPICE_MSG_INPUTS_enum =
     [Given ''SPICE_MSG_INPUTS_INIT'' 101, Next ''SPICE_MSG_INPUTS_KEY_MODIFIERS'',
      Given ''SPICE_MSG_INPUTS_MOUSE_MOTION_ACK'' 111, Next ''SPICE_MSG_END_INPUTS'']"

definition SPICE_MSGC_INPUTS_enum :: "enumerator list" where
  "SPICE_MSGC_INPUTS_enum =
     [Given ''SPICE_MSGC_INPUTS_KEY_DOWN'' 101, Next ''SPICE_MSGC_INPUTS_KEY_UP'',
      Next ''SPICE_MSGC_INPUTS_KEY_MODIFIERS'', Next ''SPICE_MSGC_INPUTS_KEY_SCANCODE'',
      Given ''SPICE_MSGC_INPUTS_MOUSE_MOTION'' 111, Next ''SPICE_MSGC_INPUTS_MOUSE_POSITION'',
      Next ''SPICE_MSGC_INPUTS_MOUSE_PRESS'', Next ''SPICE_MSGC_INPUTS_MOUSE_RELEASE'',
      Next ''SPICE_MSGC_END_INPUTS'']"

definition SPICE_MSG_CURSOR_enum :: "enumerator list" where
  "SPICE_MSG_CURSOR_enum =
     [Given ''SPICE_MSG_CURSOR_INIT'' 101, Next ''SPICE_MSG_CURSOR_RESET'',
      Next ''SPICE_MSG_CURSOR_SET'', Next ''SPICE_MSG_CURSOR_MOVE'',
      Next ''SPICE_MSG_CURSOR_HIDE'', Next ''SPICE_MSG_CURSOR_TRAIL'',
      Next ''SPICE_MSG_CURSOR_INVAL_ONE'', Next ''SPICE_MSG_CURSOR_INVAL_ALL'',
      Next ''SPICE_MSG_END_CURSOR'']"

definition SPICE_MSG_PLAYBACK_enum :: "enumerator list" where
  "SPICE_MSG_PLAYBACK_enum =
     [Given ''SPICE_MSG_PLAYBACK_DATA'' 101, Next ''SPICE_MSG_PLAYBACK_MODE'',
      Next ''SPICE_MSG_PLAYBACK_START'', Next ''SPICE_MSG_PLAYBACK_STOP'',
      Next ''SPICE_MSG_PLAYBACK_VOLUME'', Next ''SPICE_MSG_PLAYBACK_MUTE'',
      Next ''SPICE_MSG_PLAYBACK_LATENCY'', Next ''SPICE_MSG_END_PLAYBACK'']"

definition SPICE_MSG_RECORD_enum :: "enumerator list" where
  "SPICE_MSG_RECORD_enum =
     [Given ''SPICE_MSG_RECORD_START'' 101, Next ''SPICE_MSG_RECORD_STOP'',
      Next ''SPICE_MSG_RECORD_VOLUME'', Next ''SPICE_MSG_RECORD_MUTE'',
      Next ''SPICE_MSG_END_RECORD'']"

definition SPICE_MSGC_RECORD_enum :: "enumerator list" where
  "SPICE_MSGC_RECORD_enum =
     [Given ''SPICE_MSGC_RECORD_DATA'' 101, Next ''SPICE_MSGC_RECORD_MODE'',
      Next ''SPICE_MSGC_RECORD_START_MARK'', Next ''SPICE_MSGC_END_RECORD'']"

definition SPICE_MSG_SMARTCARD_enum :: "enumerator list" where
  "SPICE_MSG_SMARTCARD_enum =
     [Given ''SPICE_MSG_SMARTCARD_DATA'' 101, Next ''SPICE_MSG_END_SMARTCARD'']"

definition SPICE_MSGC_SMARTCARD_enum :: "enumerator list" where
  "SPICE_MSGC_SMARTCARD_enum =
     [Given ''SPICE_MSGC_SMARTCARD_DATA'' 101, Given ''SPICE_MSGC_SMARTCARD_HEADER'' 101,
      Given ''SPICE_MSGC_SMARTCARD_ERROR'' 101, Given ''SPICE_MSGC_SMARTCARD_ATR'' 101,
      Given ''SPICE_MSGC_SMARTCARD_READER_ADD'' 101, Next ''SPICE_MSGC_END_SMARTCARD'']"

definition SPICE_MSG_SPICEVMC_enum :: "enumerator list" where
  "SPICE_MSG_SPICEVMC_enum =
     [Given ''SPICE_MSG_SPICEVMC_DATA'' 101, Next ''SPICE_MSG_SPICEVMC_COMPRESSED_DATA'',
      Next ''SPICE_MSG_END_SPICEVMC'']"

definition SPICE_MSGC_SPICEVMC_enum :: "enumerator list" where
  "SPICE_MSGC_SPICEVMC_enum =
     [Given ''SPICE_MSGC_SPICEVMC_DATA'' 101, Next ''SPICE_MSGC_SPICEVMC_COMPRESSED_DATA'',
      Next ''SPICE_MSGC_END_SPICEVMC'']"

definition SPICE_MSG_PORT_enum :: "enumerator list" where
  "SPICE_MSG_PORT_enum =
     [Given ''SPICE_MSG_PORT_INIT'' 201, Next ''SPICE_MSG_PORT_EVENT'',
      Next ''SPICE_MSG_END_PORT'']"

definition SPICE_MSGC_PORT_enum :: "enumerator list" where
  "SPICE_MSGC_PORT_enum =
     [Given ''SPICE_MSGC_PORT_EVENT'' 201, Next ''SPICE_MSGC_END_PORT'']"

definition spice_flag_enums :: "enumerator list list" where
  "spice_flag_enums =
     [SpiceMigrateFlags_enum, SpiceCompositeFlags_enum, SpiceMouseMode_enum, SpicePathFlags_enum,
      SpiceStreamFlags_enum, SpiceMaskFlags_enum, SpiceImageFlags_enum, SpiceBitmapFlags_enum,
      SpiceJpegAlphaFlags_enum, SpiceRopd_enum, SpiceLineFlags_enum, SpiceStringFlags_enum,
      SpiceSurfaceFlags_enum, SpiceAlphaFlags_enum, SpiceGlScanoutFlags_enum,
      SpiceKeyboardModifierFlags_enum, SpiceMouseButtonMask_enum, SpiceCursorFlags_enum]"

section \<open>Masks\<close>

definition flags_of :: "enumerator list \<Rightarrow> nat list" where
  "flags_of es = butlast (map snd (enum_values es))"

definition mask_of :: "enumerator list \<Rightarrow> nat" where
  "mask_of es = last (map snd (enum_values es))"

lemma flag_enums: "list_all flag_enum spice_flag_enums"
  by (simp add: spice_flag_enums_def flag_enum_def flag_bits enum_values_def flags_word_def Let_def
      SpiceMigrateFlags_enum_def SpiceCompositeFlags_enum_def SpiceMouseMode_enum_def SpicePathFlags_enum_def
      SpiceStreamFlags_enum_def SpiceMaskFlags_enum_def SpiceImageFlags_enum_def SpiceBitmapFlags_enum_def
      SpiceJpegAlphaFlags_enum_def SpiceRopd_enum_def SpiceLineFlags_enum_def SpiceStringFlags_enum_def
      SpiceSurfaceFlags_enum_def SpiceAlphaFlags_enum_def SpiceGlScanoutFlags_enum_def
      SpiceKeyboardModifierFlags_enum_def SpiceMouseButtonMask_enum_def SpiceCursorFlags_enum_def)

text \<open>
  The flags of the protocol: in every enumeration of flags the mask is all the flags or-ed together,
  and a word made by or-ing any of them lies under the mask and tests positive for exactly those.
\<close>

theorem flag_masks:
  assumes "es \<in> set spice_flag_enums" "set fs \<subseteq> set (flags_of es)" "v \<in> set (flags_of es)"
  shows "mask_of es = flags_word (flags_of es) \<and> flags_word fs AND mask_of es = flags_word fs \<and>
    (v AND flags_word fs \<noteq> 0 \<longleftrightarrow> v \<in> set fs)"
proof -
  have "flag_enum es" using flag_enums assms(1) by (simp add: list_all_iff)
  then show ?thesis using flags_round_trip[of es fs v] assms(2,3)
    by (simp add: flags_of_def mask_of_def flag_enum_def Let_def)
qed

theorem flag_masks_witness:
  "flags_word [1, 8] AND mask_of SpicePathFlags_enum = flags_word [1, 8] \<and> 16 AND flags_word [1, 8] = 0"
proof -
  have f: "flags_of SpicePathFlags_enum = [1, 2, 8, 16]"
    by (simp add: flags_of_def enum_values_def SpicePathFlags_enum_def)
  have m: "SpicePathFlags_enum \<in> set spice_flag_enums" by (simp add: spice_flag_enums_def)
  have "set [1, 8] \<subseteq> set (flags_of SpicePathFlags_enum)" "16 \<in> set (flags_of SpicePathFlags_enum)"
    "(16 :: nat) \<notin> set [1, 8]"
    unfolding f by simp_all
  then show ?thesis using flag_masks[OF m] by blast
qed

section \<open>Message numbers\<close>

text \<open>The messages of each channel, towards the client and towards the server.\<close>

definition channel_messages :: "enumerator list list" where
  "channel_messages =
     [SPICE_MSG_MAIN_enum, SPICE_MSGC_MAIN_enum, SPICE_MSG_DISPLAY_enum, SPICE_MSGC_DISPLAY_enum,
      SPICE_MSG_INPUTS_enum, SPICE_MSGC_INPUTS_enum, SPICE_MSG_CURSOR_enum, SPICE_MSG_PLAYBACK_enum,
      SPICE_MSG_RECORD_enum, SPICE_MSGC_RECORD_enum, SPICE_MSG_SMARTCARD_enum, SPICE_MSG_SPICEVMC_enum,
      SPICE_MSGC_SPICEVMC_enum, SPICE_MSG_PORT_enum, SPICE_MSGC_PORT_enum]"

definition base_messages :: "enumerator list list" where
  "base_messages = [SPICE_MSG_BASE_enum, SPICE_MSGC_BASE_enum]"

lemmas channel_message_defs =
  SPICE_MSG_MAIN_enum_def SPICE_MSGC_MAIN_enum_def SPICE_MSG_DISPLAY_enum_def
  SPICE_MSGC_DISPLAY_enum_def SPICE_MSG_INPUTS_enum_def SPICE_MSGC_INPUTS_enum_def
  SPICE_MSG_CURSOR_enum_def SPICE_MSG_PLAYBACK_enum_def SPICE_MSG_RECORD_enum_def
  SPICE_MSGC_RECORD_enum_def SPICE_MSG_SMARTCARD_enum_def SPICE_MSG_SPICEVMC_enum_def
  SPICE_MSGC_SPICEVMC_enum_def SPICE_MSG_PORT_enum_def SPICE_MSGC_PORT_enum_def SPICE_MSG_BASE_enum_def
  SPICE_MSGC_BASE_enum_def

definition wire_codes :: "nat \<Rightarrow> enumerator list \<Rightarrow> bool" where
  "wire_codes b es \<longleftrightarrow> distinct (map enumerator_name es) \<and> increasing_from 0 es \<and>
     list_all (\<lambda>v. v < 2 ^ b) (map snd (enum_values es))"

lemma wire_codes_enum: "wire_codes b es \<Longrightarrow> wire_enum es b"
  using increasing_values[of 0 es]
  by unfold_locales (auto simp: wire_codes_def enum_values_def list_all_iff)

interpretation main_messages: wire_enum SPICE_MSG_MAIN_enum 16
  by (rule wire_codes_enum)
    (simp add: wire_codes_def enum_values_def SPICE_MSG_MAIN_enum_def)

interpretation display_messages: wire_enum SPICE_MSG_DISPLAY_enum 16
  by (rule wire_codes_enum) (simp add: wire_codes_def enum_values_def SPICE_MSG_DISPLAY_enum_def)

interpretation channel_types: wire_enum SPICE_CHANNEL_enum 8
  by (rule wire_codes_enum) (simp add: wire_codes_def enum_values_def SPICE_CHANNEL_enum_def)

lemma message_codes: "list_all (wire_codes 16) (channel_messages @ base_messages)"
  by (simp add: channel_messages_def base_messages_def wire_codes_def enum_values_def channel_message_defs)

lemma message_ranges:
  "list_all (\<lambda>es. list_all ((<) 100) (map snd (enum_values es))) channel_messages"
  "list_all (\<lambda>es. list_all (\<lambda>v. v \<le> 100) (map snd (enum_values es))) base_messages"
  by (simp_all add: channel_messages_def base_messages_def enum_values_def channel_message_defs)

text \<open>
  The number of a message says which it is: within a channel and a direction no two messages share a
  number, the number fits the 16 bits of the headers, decodes to the message it was made from, and is
  not the number of a message common to all channels.
\<close>

theorem message_numbers:
  assumes "es \<in> set channel_messages" "enum_number es x = Some v"
  shows "enum_name es v = Some x \<and> v < 2 ^ 16 \<and> 100 < v \<and>
    (\<forall>bs \<in> set base_messages. enum_name bs v = None)"
proof -
  have w: "wire_enum es 16"
    using message_codes assms(1) wire_codes_enum by (simp add: list_all_iff)
  have "(x, v) \<in> set (enum_values es)" using assms(2) by (simp add: enum_number_def map_of_SomeD)
  then have "100 < v" using message_ranges(1) assms(1) by (force simp: list_all_iff)
  moreover have "enum_name bs v = None" if "bs \<in> set base_messages" for bs
  proof (rule ccontr)
    assume "enum_name bs v \<noteq> None"
    then obtain y where "(y, v) \<in> set (enum_values bs)"
      unfolding enum_name_def by (auto dest!: map_of_SomeD)
    then have "v \<le> 100" using message_ranges(2) that by (force simp: list_all_iff)
    then show False using \<open>100 < v\<close> by simp
  qed
  ultimately show ?thesis using wire_enum.decode_number[OF w assms(2)] by blast
qed

theorem message_numbers_witness:
  "enum_name SPICE_MSG_INPUTS_enum 111 = Some ''SPICE_MSG_INPUTS_MOUSE_MOTION_ACK'' \<and> 100 < (111 :: nat)"
proof -
  have "SPICE_MSG_INPUTS_enum \<in> set channel_messages" by (simp add: channel_messages_def)
  moreover have "enum_number SPICE_MSG_INPUTS_enum ''SPICE_MSG_INPUTS_MOUSE_MOTION_ACK'' = Some 111"
    by (simp add: enum_number_def enum_values_def SPICE_MSG_INPUTS_enum_def)
  ultimately show ?thesis using message_numbers by blast
qed

text \<open>The messages of the smartcard channel to the server all have one number.\<close>

lemma smartcard_numbers:
  "enum_values SPICE_MSGC_SMARTCARD_enum =
     [(''SPICE_MSGC_SMARTCARD_DATA'', 101), (''SPICE_MSGC_SMARTCARD_HEADER'', 101),
      (''SPICE_MSGC_SMARTCARD_ERROR'', 101), (''SPICE_MSGC_SMARTCARD_ATR'', 101),
      (''SPICE_MSGC_SMARTCARD_READER_ADD'', 101), (''SPICE_MSGC_END_SMARTCARD'', 102)]"
  by (simp add: enum_values_def SPICE_MSGC_SMARTCARD_enum_def)

end
