(* ===== verification/Spice_Protocol.thy ===== *)
theory Spice_Protocol
  imports C_Layout C_Enum
begin

text \<open>
  \<open>spice/protocol.h\<close> and \<open>spice/stats.h\<close>: the link and data messages, the capabilities, and the
  statistics shared in memory.
\<close>

definition SPICE_MAX_PASSWORD_LENGTH :: nat where
  "SPICE_MAX_PASSWORD_LENGTH = 60"

definition SPICE_TICKET_KEY_PAIR_LENGTH :: nat where
  "SPICE_TICKET_KEY_PAIR_LENGTH = 1024"

definition SPICE_TICKET_PUBKEY_BYTES :: nat where
  "SPICE_TICKET_PUBKEY_BYTES = SPICE_TICKET_KEY_PAIR_LENGTH div 8 + 34"

definition SPICE_MAX_NUM_STREAMS :: nat where
  "SPICE_MAX_NUM_STREAMS = 64"

definition SpiceLinkHeader :: ctype where
  "SpiceLinkHeader =
     PACKED [(''magic'', UINT32), (''major_version'', UINT32), (''minor_version'', UINT32),
         (''size'', UINT32)]"

definition SPICE_COMMON_CAP_enum :: "enumerator list" where
  "SPICE_COMMON_CAP_enum =
     [Next ''SPICE_COMMON_CAP_PROTOCOL_AUTH_SELECTION'', Next ''SPICE_COMMON_CAP_AUTH_SPICE'',
      Next ''SPICE_COMMON_CAP_AUTH_SASL'', Next ''SPICE_COMMON_CAP_MINI_HEADER'']"

definition SpiceLinkMess :: ctype where
  "SpiceLinkMess =
     PACKED [(''connection_id'', UINT32), (''channel_type'', UINT8), (''channel_id'', UINT8),
         (''num_common_caps'', UINT32), (''num_channel_caps'', UINT32), (''caps_offset'', UINT32)]"

definition SpiceLinkReply :: ctype where
  "SpiceLinkReply =
     PACKED [(''error'', UINT32), (''pub_key'', (Array_t UINT8 SPICE_TICKET_PUBKEY_BYTES)),
         (''num_common_caps'', UINT32), (''num_channel_caps'', UINT32), (''caps_offset'', UINT32)]"

definition SpiceLinkEncryptedTicket :: ctype where
  "SpiceLinkEncryptedTicket =
     PACKED [(''encrypted_data'', (Array_t UINT8 (SPICE_TICKET_KEY_PAIR_LENGTH div 8)))]"

definition SpiceLinkAuthMechanism :: ctype where
  "SpiceLinkAuthMechanism =
     PACKED [(''auth_mechanism'', UINT32)]"

definition SpiceDataHeader :: ctype where
  "SpiceDataHeader =
     PACKED [(''serial'', UINT64), (''type'', UINT16), (''size'', UINT32), (''sub_list'', UINT32)]"

definition SpiceMiniDataHeader :: ctype where
  "SpiceMiniDataHeader =
     PACKED [(''type'', UINT16), (''size'', UINT32)]"

definition SpiceSubMessage :: ctype where
  "SpiceSubMessage =
     PACKED [(''type'', UINT16), (''size'', UINT32)]"

definition SpiceSubMessageList :: ctype where
  "SpiceSubMessageList =
     PACKED [(''size'', UINT16), (''sub_messages'', (Array_t UINT32 0))]"

definition SPICE_PLAYBACK_CAP_enum :: "enumerator list" where
  "SPICE_PLAYBACK_CAP_enum =
     [Next ''SPICE_PLAYBACK_CAP_CELT_0_5_1'', Next ''SPICE_PLAYBACK_CAP_VOLUME'',
      Next ''SPICE_PLAYBACK_CAP_LATENCY'', Next ''SPICE_PLAYBACK_CAP_OPUS'']"

definition SPICE_RECORD_CAP_enum :: "enumerator list" where
  "SPICE_RECORD_CAP_enum =
     [Next ''SPICE_RECORD_CAP_CELT_0_5_1'', Next ''SPICE_RECORD_CAP_VOLUME'',
      Next ''SPICE_RECORD_CAP_OPUS'']"

definition SPICE_MAIN_CAP_enum :: "enumerator list" where
  "SPICE_MAIN_CAP_enum =
     [Next ''SPICE_MAIN_CAP_SEMI_SEAMLESS_MIGRATE'', Next ''SPICE_MAIN_CAP_NAME_AND_UUID'',
      Next ''SPICE_MAIN_CAP_AGENT_CONNECTED_TOKENS'', Next ''SPICE_MAIN_CAP_SEAMLESS_MIGRATE'']"

definition SPICE_DISPLAY_CAP_enum :: "enumerator list" where
  "SPICE_DISPLAY_CAP_enum =
     [Next ''SPICE_DISPLAY_CAP_SIZED_STREAM'', Next ''SPICE_DISPLAY_CAP_MONITORS_CONFIG'',
      Next ''SPICE_DISPLAY_CAP_COMPOSITE'', Next ''SPICE_DISPLAY_CAP_A8_SURFACE'',
      Next ''SPICE_DISPLAY_CAP_STREAM_REPORT'', Next ''SPICE_DISPLAY_CAP_LZ4_COMPRESSION'',
      Next ''SPICE_DISPLAY_CAP_PREF_COMPRESSION'', Next ''SPICE_DISPLAY_CAP_GL_SCANOUT'',
      Next ''SPICE_DISPLAY_CAP_MULTI_CODEC'', Next ''SPICE_DISPLAY_CAP_CODEC_MJPEG'',
      Next ''SPICE_DISPLAY_CAP_CODEC_VP8'', Next ''SPICE_DISPLAY_CAP_CODEC_H264'',
      Next ''SPICE_DISPLAY_CAP_PREF_VIDEO_CODEC_TYPE'', Next ''SPICE_DISPLAY_CAP_CODEC_VP9'',
      Next ''SPICE_DISPLAY_CAP_CODEC_H265'']"

definition SPICE_INPUTS_CAP_enum :: "enumerator list" where
  "SPICE_INPUTS_CAP_enum =
     [Next ''SPICE_INPUTS_CAP_KEY_SCANCODE'']"

definition SPICE_SPICEVMC_CAP_enum :: "enumerator list" where
  "SPICE_SPICEVMC_CAP_enum =
     [Next ''SPICE_SPICEVMC_CAP_DATA_COMPRESS_LZ4'']"

definition SPICE_PORT_EVENT_enum :: "enumerator list" where
  "SPICE_PORT_EVENT_enum =
     [Next ''SPICE_PORT_EVENT_OPENED'', Next ''SPICE_PORT_EVENT_CLOSED'',
      Next ''SPICE_PORT_EVENT_BREAK'']"

definition protocol_layouts :: "ctype list" where
  "protocol_layouts =
     [SpiceLinkHeader, SpiceLinkMess, SpiceLinkReply, SpiceLinkEncryptedTicket,
      SpiceLinkAuthMechanism, SpiceDataHeader, SpiceMiniDataHeader, SpiceSubMessage,
      SpiceSubMessageList]"

section \<open>Statistics\<close>

definition SPICE_STAT_NODE_NAME_MAX :: nat where
  "SPICE_STAT_NODE_NAME_MAX = 20"

definition SPICE_STAT_NODE_FLAG_enum :: "enumerator list" where
  "SPICE_STAT_NODE_FLAG_enum =
     [Given ''SPICE_STAT_NODE_FLAG_ENABLED'' (2 ^ 0),
      Given ''SPICE_STAT_NODE_FLAG_VISIBLE'' (2 ^ 1), Given ''SPICE_STAT_NODE_FLAG_VALUE'' (2 ^ 2)]"

definition SpiceStatNode :: ctype where
  "SpiceStatNode =
     PLAIN [(''value'', UINT64), (''flags'', UINT32), (''next_sibling_index'', UINT32),
         (''first_child_index'', UINT32), (''name'', (Array_t INT8 SPICE_STAT_NODE_NAME_MAX))]"

definition SpiceStat :: ctype where
  "SpiceStat =
     PLAIN [(''magic'', UINT32), (''version'', UINT32), (''generation'', UINT32),
         (''num_of_nodes'', UINT32), (''root_index'', UINT32), (''padding'', UINT32),
         (''nodes'', (Array_t SpiceStatNode 0))]"

definition stat_layouts :: "ctype list" where
  "stat_layouts =
     [SpiceStatNode, SpiceStat]"

lemma protocol_rigid: "list_all rigid (protocol_layouts @ stat_layouts)"
  by code_simp

end
