(* ===== verification/Agent_Protocol.thy ===== *)
theory Agent_Protocol
  imports C_Layout C_Enum Wire
begin

text \<open>
  \<open>spice/vd_agent.h\<close>: the messages the client and the guest's agent exchange and their enumerations.
\<close>

definition VDP_PORT_enum :: "enumerator list" where
  "VDP_PORT_enum =
     [Given ''VDP_CLIENT_PORT'' 1, Next ''VDP_SERVER_PORT'', Next ''VDP_END_PORT'']"

definition VDIChunkHeader :: ctype where
  "VDIChunkHeader =
     PACKED [(''port'', UINT32), (''size'', UINT32)]"

definition VDAgentMessage :: ctype where
  "VDAgentMessage =
     PACKED [(''protocol'', UINT32), (''type'', UINT32), (''opaque'', UINT64), (''size'', UINT32),
         (''data'', (Array_t UINT8 0))]"

definition VD_AGENT_enum :: "enumerator list" where
  "VD_AGENT_enum =
     [Given ''VD_AGENT_MOUSE_STATE'' 1, Next ''VD_AGENT_MONITORS_CONFIG'',
      Next ''VD_AGENT_REPLY'', Next ''VD_AGENT_CLIPBOARD'', Next ''VD_AGENT_DISPLAY_CONFIG'',
      Next ''VD_AGENT_ANNOUNCE_CAPABILITIES'', Next ''VD_AGENT_CLIPBOARD_GRAB'',
      Next ''VD_AGENT_CLIPBOARD_REQUEST'', Next ''VD_AGENT_CLIPBOARD_RELEASE'',
      Next ''VD_AGENT_FILE_XFER_START'', Next ''VD_AGENT_FILE_XFER_STATUS'',
      Next ''VD_AGENT_FILE_XFER_DATA'', Next ''VD_AGENT_CLIENT_DISCONNECTED'',
      Next ''VD_AGENT_MAX_CLIPBOARD'', Next ''VD_AGENT_AUDIO_VOLUME_SYNC'',
      Next ''VD_AGENT_GRAPHICS_DEVICE_INFO'', Next ''VD_AGENT_END_MESSAGE'']"

definition VD_AGENT_FILE_XFER_STATUS_enum :: "enumerator list" where
  "VD_AGENT_FILE_XFER_STATUS_enum =
     [Next ''VD_AGENT_FILE_XFER_STATUS_CAN_SEND_DATA'',
      Next ''VD_AGENT_FILE_XFER_STATUS_CANCELLED'', Next ''VD_AGENT_FILE_XFER_STATUS_ERROR'',
      Next ''VD_AGENT_FILE_XFER_STATUS_SUCCESS'',
      Next ''VD_AGENT_FILE_XFER_STATUS_NOT_ENOUGH_SPACE'',
      Next ''VD_AGENT_FILE_XFER_STATUS_SESSION_LOCKED'',
      Next ''VD_AGENT_FILE_XFER_STATUS_VDAGENT_NOT_CONNECTED'',
      Next ''VD_AGENT_FILE_XFER_STATUS_DISABLED'']"

definition VDAgentFileXferStatusMessage :: ctype where
  "VDAgentFileXferStatusMessage =
     PACKED [(''id'', UINT32), (''result'', UINT32), (''data'', (Array_t UINT8 0))]"

definition VDAgentFileXferStatusNotEnoughSpace :: ctype where
  "VDAgentFileXferStatusNotEnoughSpace =
     PACKED [(''disk_free_space'', UINT64)]"

definition VD_AGENT_FILE_XFER_STATUS_ERROR_enum :: "enumerator list" where
  "VD_AGENT_FILE_XFER_STATUS_ERROR_enum =
     [Next ''VD_AGENT_FILE_XFER_STATUS_ERROR_GLIB_IO'']"

definition VDAgentFileXferStatusError :: ctype where
  "VDAgentFileXferStatusError =
     PACKED [(''error_type'', UINT8), (''error_code'', UINT32)]"

definition VDAgentFileXferStartMessage :: ctype where
  "VDAgentFileXferStartMessage =
     PACKED [(''id'', UINT32), (''data'', (Array_t UINT8 0))]"

definition VDAgentFileXferDataMessage :: ctype where
  "VDAgentFileXferDataMessage =
     PACKED [(''id'', UINT32), (''size'', UINT64), (''data'', (Array_t UINT8 0))]"

definition VDAgentMonConfig :: ctype where
  "VDAgentMonConfig =
     PACKED [(''height'', UINT32), (''width'', UINT32), (''depth'', UINT32), (''x'', INT32),
         (''y'', INT32)]"

definition VD_AGENT_CONFIG_MONITORS_FLAG_enum :: "enumerator list" where
  "VD_AGENT_CONFIG_MONITORS_FLAG_enum =
     [Given ''VD_AGENT_CONFIG_MONITORS_FLAG_USE_POS'' (2 ^ 0),
      Given ''VD_AGENT_CONFIG_MONITORS_FLAG_PHYSICAL_SIZE'' (2 ^ 1)]"

definition VDAgentMonitorsConfig :: ctype where
  "VDAgentMonitorsConfig =
     PACKED [(''num_of_monitors'', UINT32), (''flags'', UINT32),
         (''monitors'', (Array_t VDAgentMonConfig 0))]"

definition VDAgentMonitorMM :: ctype where
  "VDAgentMonitorMM =
     PACKED [(''height'', UINT16), (''width'', UINT16)]"

definition VD_AGENT_DISPLAY_CONFIG_FLAG_enum :: "enumerator list" where
  "VD_AGENT_DISPLAY_CONFIG_FLAG_enum =
     [Given ''VD_AGENT_DISPLAY_CONFIG_FLAG_DISABLE_WALLPAPER'' (2 ^ 0),
      Given ''VD_AGENT_DISPLAY_CONFIG_FLAG_DISABLE_FONT_SMOOTH'' (2 ^ 1),
      Given ''VD_AGENT_DISPLAY_CONFIG_FLAG_DISABLE_ANIMATION'' (2 ^ 2),
      Given ''VD_AGENT_DISPLAY_CONFIG_FLAG_SET_COLOR_DEPTH'' (2 ^ 3)]"

definition VDAgentDisplayConfig :: ctype where
  "VDAgentDisplayConfig =
     PACKED [(''flags'', UINT32), (''depth'', UINT32)]"

definition VDAgentMouseState :: ctype where
  "VDAgentMouseState =
     PACKED [(''x'', UINT32), (''y'', UINT32), (''buttons'', UINT32), (''display_id'', UINT8)]"

definition VDAgentReply :: ctype where
  "VDAgentReply =
     PACKED [(''type'', UINT32), (''error'', UINT32)]"

definition VD_AGENT_RESULT_enum :: "enumerator list" where
  "VD_AGENT_RESULT_enum =
     [Given ''VD_AGENT_SUCCESS'' 1, Next ''VD_AGENT_ERROR'']"

definition VDAgentClipboard :: ctype where
  "VDAgentClipboard =
     PACKED [(''type'', UINT32), (''data'', (Array_t UINT8 0))]"

definition VD_AGENT_CLIPBOARD_enum :: "enumerator list" where
  "VD_AGENT_CLIPBOARD_enum =
     [Given ''VD_AGENT_CLIPBOARD_NONE'' 0, Next ''VD_AGENT_CLIPBOARD_UTF8_TEXT'',
      Next ''VD_AGENT_CLIPBOARD_IMAGE_PNG'', Next ''VD_AGENT_CLIPBOARD_IMAGE_BMP'',
      Next ''VD_AGENT_CLIPBOARD_IMAGE_TIFF'', Next ''VD_AGENT_CLIPBOARD_IMAGE_JPG'',
      Next ''VD_AGENT_CLIPBOARD_FILE_LIST'']"

definition VD_AGENT_CLIPBOARD_SELECTION_enum :: "enumerator list" where
  "VD_AGENT_CLIPBOARD_SELECTION_enum =
     [Given ''VD_AGENT_CLIPBOARD_SELECTION_CLIPBOARD'' 0,
      Next ''VD_AGENT_CLIPBOARD_SELECTION_PRIMARY'',
      Next ''VD_AGENT_CLIPBOARD_SELECTION_SECONDARY'']"

definition VDAgentClipboardGrab :: ctype where
  "VDAgentClipboardGrab =
     PACKED [(''types'', (Array_t UINT32 0))]"

definition VDAgentClipboardRequest :: ctype where
  "VDAgentClipboardRequest =
     PACKED [(''type'', UINT32)]"

definition VDAgentClipboardRelease :: ctype where
  "VDAgentClipboardRelease =
     PACKED [(''dummy_empty_field'', (Array_t UINT8 0))]"

definition VDAgentMaxClipboard :: ctype where
  "VDAgentMaxClipboard =
     PACKED [(''max'', INT32)]"

definition VDAgentAudioVolumeSync :: ctype where
  "VDAgentAudioVolumeSync =
     PACKED [(''is_playback'', UINT8), (''mute'', UINT8), (''nchannels'', UINT8),
         (''volume'', (Array_t UINT16 0))]"

definition VDAgentDeviceDisplayInfo :: ctype where
  "VDAgentDeviceDisplayInfo =
     PACKED [(''channel_id'', UINT32), (''monitor_id'', UINT32), (''device_display_id'', UINT32),
         (''device_address_len'', UINT32), (''device_address'', (Array_t UINT8 0))]"

definition VDAgentGraphicsDeviceInfo :: ctype where
  "VDAgentGraphicsDeviceInfo =
     PACKED [(''count'', UINT32), (''display_info'', (Array_t VDAgentDeviceDisplayInfo 0))]"

definition VD_AGENT_CAP_enum :: "enumerator list" where
  "VD_AGENT_CAP_enum =
     [Given ''VD_AGENT_CAP_MOUSE_STATE'' 0, Next ''VD_AGENT_CAP_MONITORS_CONFIG'',
      Next ''VD_AGENT_CAP_REPLY'', Next ''VD_AGENT_CAP_CLIPBOARD'',
      Next ''VD_AGENT_CAP_DISPLAY_CONFIG'', Next ''VD_AGENT_CAP_CLIPBOARD_BY_DEMAND'',
      Next ''VD_AGENT_CAP_CLIPBOARD_SELECTION'', Next ''VD_AGENT_CAP_SPARSE_MONITORS_CONFIG'',
      Next ''VD_AGENT_CAP_GUEST_LINEEND_LF'', Next ''VD_AGENT_CAP_GUEST_LINEEND_CRLF'',
      Next ''VD_AGENT_CAP_MAX_CLIPBOARD'', Next ''VD_AGENT_CAP_AUDIO_VOLUME_SYNC'',
      Next ''VD_AGENT_CAP_MONITORS_CONFIG_POSITION'', Next ''VD_AGENT_CAP_FILE_XFER_DISABLED'',
      Next ''VD_AGENT_CAP_FILE_XFER_DETAILED_ERRORS'',
      Next ''VD_AGENT_CAP_GRAPHICS_DEVICE_INFO'',
      Next ''VD_AGENT_CAP_CLIPBOARD_NO_RELEASE_ON_REGRAB'',
      Next ''VD_AGENT_CAP_CLIPBOARD_GRAB_SERIAL'', Next ''VD_AGENT_END_CAP'']"

definition VDAgentAnnounceCapabilities :: ctype where
  "VDAgentAnnounceCapabilities =
     PACKED [(''request'', UINT32), (''caps'', (Array_t UINT32 0))]"

definition agent_layouts :: "ctype list" where
  "agent_layouts =
     [VDIChunkHeader, VDAgentMessage, VDAgentFileXferStatusMessage,
      VDAgentFileXferStatusNotEnoughSpace, VDAgentFileXferStatusError,
      VDAgentFileXferStartMessage, VDAgentFileXferDataMessage, VDAgentMonConfig,
      VDAgentMonitorsConfig, VDAgentMonitorMM, VDAgentDisplayConfig, VDAgentMouseState,
      VDAgentReply, VDAgentClipboard, VDAgentClipboardGrab, VDAgentClipboardRequest,
      VDAgentClipboardRelease, VDAgentMaxClipboard, VDAgentAudioVolumeSync,
      VDAgentDeviceDisplayInfo, VDAgentGraphicsDeviceInfo, VDAgentAnnounceCapabilities]"

section \<open>The size of an announcement\<close>

definition VD_AGENT_CAPS_SIZE_FROM_MSG_SIZE :: "guint64 \<Rightarrow> guint64" where
  "VD_AGENT_CAPS_SIZE_FROM_MSG_SIZE msg_size =
     (msg_size - of_nat (size_of Attribute_packing VDAgentAnnounceCapabilities)) div 4"

definition VD_AGENT_CAPS_BYTES :: guint32 where
  "VD_AGENT_CAPS_BYTES = (of_nat VD_AGENT_END_CAP + 31) div 8 AND NOT 3"

lemma announcement_size: "size_of m VDAgentAnnounceCapabilities = 4"
  by (cases m) (simp_all add: VDAgentAnnounceCapabilities_def packs_def round_up_def)

text \<open>
  The number of capability words is computed from the size of the announcement: a message with \<open>k\<close>
  words gives \<open>k\<close>.  A message shorter than its fixed part underflows: the size is then \<open>2 ^ 62 - 1\<close> words,
  and the test of any capability is allowed to look behind the message.
\<close>

theorem caps_size_from_message:
  "(k < 2 ^ 61 \<longrightarrow> unat (VD_AGENT_CAPS_SIZE_FROM_MSG_SIZE (4 + 4 * of_nat k)) = k) \<and>
   (unat n < 4 \<longrightarrow> unat (VD_AGENT_CAPS_SIZE_FROM_MSG_SIZE n) = 2 ^ 62 - 1 \<and>
      (\<forall>i < 2 ^ 32. i < unat (VD_AGENT_CAPS_SIZE_FROM_MSG_SIZE n) * 32)) \<and>
   unat VD_AGENT_CAPS_BYTES = 4 * VD_AGENT_CAPS_SIZE"
proof -
  have "unat (VD_AGENT_CAPS_SIZE_FROM_MSG_SIZE (4 + 4 * of_nat k)) = k" if "k < 2 ^ 61"
  proof -
    have "unat (4 * of_nat k :: guint64) = 4 * k" using that by (simp add: unat_word_ariths unat_of_nat)
    then show ?thesis by (simp add: VD_AGENT_CAPS_SIZE_FROM_MSG_SIZE_def announcement_size unat_div)
  qed
  moreover have "unat (VD_AGENT_CAPS_SIZE_FROM_MSG_SIZE n) = 2 ^ 62 - 1" if "unat n < 4"
  proof -
    have "unat n = unat (0 :: guint64) \<or> unat n = unat (1 :: guint64) \<or> unat n = unat (2 :: guint64) \<or>
        unat n = unat (3 :: guint64)" using that by auto
    then have "n = 0 \<or> n = 1 \<or> n = 2 \<or> n = 3" by (simp only: word_unat_eq_iff)
    then show ?thesis by (auto simp: VD_AGENT_CAPS_SIZE_FROM_MSG_SIZE_def announcement_size unat_div unsigned_minus_1_eq_mask mask_eq_exp_minus_1)
  qed
  moreover have "unat VD_AGENT_CAPS_BYTES = 4 * VD_AGENT_CAPS_SIZE"
    by (simp add: VD_AGENT_CAPS_BYTES_def VD_AGENT_END_CAP_def VD_AGENT_CAPS_SIZE_def)
  ultimately show ?thesis by simp
qed

theorem caps_size_from_message_witness:
  "unat (VD_AGENT_CAPS_SIZE_FROM_MSG_SIZE 8) = 1 \<and> unat (VD_AGENT_CAPS_SIZE_FROM_MSG_SIZE 3) = 2 ^ 62 - 1"
  using caps_size_from_message[of 1 3] by simp

end
