(* ===== verification/Stream_Device.thy ===== *)
theory Stream_Device
  imports C_Layout C_Enum
begin

text \<open>
  \<open>spice/stream-device.h\<close>: the messages of the streaming device, which the header wants without padding
  and naturally aligned on every compiler.
\<close>

definition StreamDevHeader :: ctype where
  "StreamDevHeader =
     PLAIN [(''protocol_version'', UINT8), (''padding'', UINT8), (''type'', UINT16), (''size'', UINT32)]"

definition StreamMsgType_enum :: "enumerator list" where
  "StreamMsgType_enum =
     [Given ''STREAM_TYPE_INVALID'' 0, Next ''STREAM_TYPE_CAPABILITIES'',
      Next ''STREAM_TYPE_FORMAT'', Next ''STREAM_TYPE_DATA'', Next ''STREAM_TYPE_START_STOP'',
      Next ''STREAM_TYPE_NOTIFY_ERROR'', Next ''STREAM_TYPE_CURSOR_SET'',
      Next ''STREAM_TYPE_CURSOR_MOVE'', Next ''STREAM_TYPE_DEVICE_DISPLAY_INFO'',
      Next ''STREAM_TYPE_QUALITY_INDICATOR'']"

definition StreamCapabilities_enum :: "enumerator list" where
  "StreamCapabilities_enum =
     [Next ''STREAM_CAP_QUALITY_INDICATOR'', Next ''STREAM_CAP_END'']"

definition StreamMsgCapabilities :: ctype where
  "StreamMsgCapabilities =
     PLAIN [(''capabilities'', (Array_t UINT8 0))]"

definition StreamMsgFormat :: ctype where
  "StreamMsgFormat =
     PLAIN [(''width'', UINT32), (''height'', UINT32), (''codec'', UINT8),
         (''padding1'', (Array_t UINT8 3))]"

definition StreamMsgData :: ctype where
  "StreamMsgData =
     PLAIN [(''data'', (Array_t UINT8 0))]"

definition StreamMsgDeviceDisplayInfo :: ctype where
  "StreamMsgDeviceDisplayInfo =
     PLAIN [(''stream_id'', UINT32), (''device_display_id'', UINT32), (''device_address_len'', UINT32),
         (''device_address'', (Array_t UINT8 0))]"

definition StreamMsgQualityIndicator :: ctype where
  "StreamMsgQualityIndicator =
     PLAIN [(''quality'', (Array_t UINT8 0))]"

definition StreamMsgStartStop :: ctype where
  "StreamMsgStartStop =
     PLAIN [(''num_codecs'', UINT8), (''codecs'', (Array_t UINT8 0))]"

definition StreamMsgNotifyError :: ctype where
  "StreamMsgNotifyError =
     PLAIN [(''error_code'', UINT32), (''msg'', (Array_t UINT8 0))]"

definition StreamMsgCursorSet :: ctype where
  "StreamMsgCursorSet =
     PLAIN [(''width'', UINT16), (''height'', UINT16), (''hot_spot_x'', UINT16),
         (''hot_spot_y'', UINT16), (''type'', UINT8), (''padding1'', (Array_t UINT8 3)),
         (''data'', (Array_t UINT8 0))]"

definition StreamMsgCursorMove :: ctype where
  "StreamMsgCursorMove =
     PLAIN [(''x'', INT32), (''y'', INT32)]"

definition stream_layouts :: "ctype list" where
  "stream_layouts =
     [StreamDevHeader, StreamMsgCapabilities, StreamMsgFormat, StreamMsgData,
      StreamMsgDeviceDisplayInfo, StreamMsgQualityIndicator, StreamMsgStartStop,
      StreamMsgNotifyError, StreamMsgCursorSet, StreamMsgCursorMove]"

section \<open>No padding, natural alignment\<close>

definition dense :: "ctype \<Rightarrow> bool" where
  "dense t \<longleftrightarrow>
     (\<forall>b \<in> set [0..<size_of Attribute_packing t].
        \<exists>(off, n) \<in> set (leaves Attribute_packing t). off \<le> b \<and> b < off + n) \<and>
     (\<forall>(off, n) \<in> set (leaves Attribute_packing t). n dvd off)"

lemma stream_dense: "list_all dense stream_layouts"
  by code_simp

lemma stream_rigid: "list_all rigid stream_layouts"
  by code_simp

text \<open>
  The streaming device's messages have no implicit padding: every byte of a message belongs to one of
  its integers, every integer stands at a multiple of its size, and a compiler that packs the
  structures places every member where one that does not pack them does.
\<close>

theorem stream_messages_dense:
  assumes "t \<in> set stream_layouts"
  shows "(\<forall>b < size_of Attribute_packing t.
      \<exists>(off, n) \<in> set (leaves Attribute_packing t). off \<le> b \<and> b < off + n) \<and>
    (\<forall>p off n s. locate Attribute_packing p t = Some (off, Int_t n s) \<longrightarrow> n dvd off) \<and>
    (\<forall>p. locate Attribute_packing p t = locate Pragma_packing p t)"
proof -
  have d: "dense t" and "rigid t" using stream_dense stream_rigid assms by (simp_all add: list_all_iff)
  moreover have "n dvd off" if "locate Attribute_packing p t = Some (off, Int_t n s)" for p off n s
    using d locate_leaf[OF that] by (auto simp: dense_def)
  ultimately show ?thesis using rigid_locate(1) by (auto simp: dense_def)
qed

theorem stream_messages_dense_witness:
  "(4 :: nat) dvd 4 \<and> locate Attribute_packing [Member ''size''] StreamDevHeader =
     locate Pragma_packing [Member ''size''] StreamDevHeader"
proof -
  have m: "StreamDevHeader \<in> set stream_layouts" by (simp add: stream_layouts_def)
  have "locate Attribute_packing [Member ''size''] StreamDevHeader = Some (4, UINT32)" by code_simp
  then show ?thesis using stream_messages_dense[OF m] by blast
qed

end
