(* ===== verification/Spice_Wire.thy ===== *)
theory Spice_Wire
  imports Qxl_Device Spice_Enums Spice_Protocol Agent_Protocol Stream_Device
begin

text \<open>
  What the SPICE headers together promise to two programs that exchange a structure in memory or over the
  wire: they agree where every member is, one reads what the other wrote, and a number from an
  enumeration arrives as the enumerator it was made from.
\<close>

section \<open>One layout for every compiler\<close>

definition wire_layouts :: "ctype list" where
  "wire_layouts = qxl_layouts @ protocol_layouts @ agent_layouts"

lemma agent_rigid: "list_all rigid agent_layouts"
  by code_simp

lemma wire_rigid: "t \<in> set (wire_layouts @ stat_layouts @ stream_layouts) \<Longrightarrow> rigid t"
  using qxl_rigid protocol_rigid agent_rigid stream_rigid by (auto simp: wire_layouts_def list_all_iff)

text \<open>
  C20. Packing by attribute and packing by pragma give one layout: for every structure of the device, link,
  agent and statistics headers the size is the same, and so is the place of every member, however
  deep; the members lie inside the structure and, unless they are in one union, apart.
\<close>

theorem layouts_agree:
  assumes "t \<in> set (wire_layouts @ stat_layouts)"
  shows "size_of Attribute_packing t = size_of Pragma_packing t \<and>
    (\<forall>p. locate Attribute_packing p t = locate Pragma_packing p t) \<and>
    (\<forall>m p off u. locate m p t = Some (off, u) \<longrightarrow> off + size_of m u \<le> size_of m t) \<and>
    (\<forall>m p q o1 t1 o2 t2. locate m p t = Some (o1, t1) \<and> locate m q t = Some (o2, t2) \<and> parting m t p q \<longrightarrow>
       o1 + size_of m t1 \<le> o2 \<or> o2 + size_of m t2 \<le> o1)"
proof -
  have "rigid t" using assms by (intro wire_rigid) auto
  then show ?thesis using rigid_size(1) rigid_locate(1) locate_inside locate_apart by blast
qed

theorem layouts_agree_witness:
  "size_of Attribute_packing QXLDrawable = size_of Pragma_packing QXLDrawable \<and>
   locate Attribute_packing [Member ''u'', Member ''composite''] QXLDrawable =
     locate Pragma_packing [Member ''u'', Member ''composite''] QXLDrawable"
proof -
  have "QXLDrawable \<in> set (wire_layouts @ stat_layouts)" by (simp add: wire_layouts_def qxl_layouts_def)
  from layouts_agree[OF this] show ?thesis by blast
qed

section \<open>One reads what the other writes\<close>

text \<open>
  An integer member written by a program compiled one way is read by a program compiled another way on
  a machine of the same byte order, as any value its type holds; members that part from it read what
  they read before, and no byte outside it changes.
\<close>

theorem members_exchanged:
  assumes "t \<in> set (wire_layouts @ stat_layouts)"
    and "set_field pf m base t p v h = Some h'" and "locate m p t = Some (off, Int_t n s)" and "fits_int n s v"
  shows "get_field pf m' h' base t p = Some v \<and>
    (\<forall>q. parting m t p q \<longrightarrow> get_field pf m' h' base t q = get_field pf m' h base t q) \<and>
    (\<forall>a. a < base + off \<or> base + off + n \<le> a \<longrightarrow> h' a = h a)"
proof -
  have r: "rigid t" using assms(1) by (intro wire_rigid) auto
  have n: "0 < n" "n \<le> 8" using rigid_locate(2)[OF r assms(3)] by simp_all
  have same: "get_field pf m' x base t q = get_field pf m x base t q" for x q
    using rigid_modes[OF r, of m' q m] by (simp add: get_field_def)
  have "h' = native_write pf n h (base + off) (word_of_int v :: guint64)"
    using assms(2,3) by (simp add: set_field_def)
  then have "h' a = h a" if "a < base + off \<or> base + off + n \<le> a" for a
    using that by (auto simp: native_write_def mem_store_other split: byte_order.split)
  then show ?thesis
    using get_set_field[OF assms(2,3,4) n] get_other_field[OF assms(2)] by (simp add: same)
qed

theorem members_exchanged_witness:
  "get_field sample_platform Pragma_packing
     (the (set_field sample_platform Attribute_packing 40 QXLPoint16 [Member ''y''] (- 5) (\<lambda>_. 1)))
     40 QXLPoint16 [Member ''y''] = Some (- 5)"
proof -
  have m: "QXLPoint16 \<in> set (wire_layouts @ stat_layouts)" by (simp add: wire_layouts_def qxl_layouts_def)
  have l: "locate Attribute_packing [Member ''y''] QXLPoint16 = Some (2, INT16)"
    by (simp add: QXLPoint16_def packs_def round_up_def)
  have w: "set_field sample_platform Attribute_packing 40 QXLPoint16 [Member ''y''] (- 5) (\<lambda>_. 1) =
      Some (the (set_field sample_platform Attribute_packing 40 QXLPoint16 [Member ''y''] (- 5) (\<lambda>_. 1)))"
    by (simp add: set_field_def l del: locate.simps)
  have "fits_int 2 True (- 5)" by (simp add: fits_int_def)
  from members_exchanged[OF m w l this, of Pragma_packing] show ?thesis by blast
qed

section \<open>Numbers that stand for enumerators\<close>

definition coded_fields :: "(enumerator list \<times> ctype \<times> selector list) list" where
  "coded_fields =
     [(QXLCmdType_enum, QXLCommand, [Member ''type'']),
      (QXL_CURSOR_enum, QXLCursorCmd, [Member ''type'']),
      (QXL_DRAW_enum, QXLDrawable, [Member ''type'']),
      (QXL_DRAW_enum, QXLCompatDrawable, [Member ''type'']),
      (QXLEffectType_enum, QXLDrawable, [Member ''effect'']),
      (QXLSurfaceCmdType_enum, QXLSurfaceCmd, [Member ''type'']),
      (SpiceBrushType_enum, QXLBrush, [Member ''type'']),
      (SpiceClipType_enum, QXLClip, [Member ''type'']),
      (SpiceImageType_enum, QXLImageDescriptor, [Member ''type'']),
      (SpiceBitmapFmt_enum, QXLBitmap, [Member ''format'']),
      (SpiceImageScaleMode_enum, QXLOpaque, [Member ''scale_mode'']),
      (SpiceSurfaceFmt_enum, QXLSurface, [Member ''format'']),
      (SpiceCursorType_enum, QXLCursorHeader, [Member ''type'']),
      (SpiceLinkErr_enum, SpiceLinkReply, [Member ''error'']),
      (SPICE_CHANNEL_enum, SpiceLinkMess, [Member ''channel_type'']),
      (SPICE_MSG_MAIN_enum, SpiceDataHeader, [Member ''type'']),
      (SPICE_MSG_DISPLAY_enum, SpiceMiniDataHeader, [Member ''type'']),
      (VDP_PORT_enum, VDIChunkHeader, [Member ''port'']),
      (VD_AGENT_enum, VDAgentMessage, [Member ''type'']),
      (VD_AGENT_FILE_XFER_STATUS_enum, VDAgentFileXferStatusMessage, [Member ''result'']),
      (VD_AGENT_CLIPBOARD_enum, VDAgentClipboard, [Member ''type'']),
      (StreamMsgType_enum, StreamDevHeader, [Member ''type'']),
      (SpiceVideoCodecType_enum, StreamMsgFormat, [Member ''codec'']),
      (SpiceCursorType_enum, StreamMsgCursorSet, [Member ''type''])]"

definition carried :: "enumerator list \<Rightarrow> ctype \<Rightarrow> selector list \<Rightarrow> bool" where
  "carried es t p \<longleftrightarrow>
     (case locate Attribute_packing p t of
        Some (off, Int_t n s) \<Rightarrow> \<not> s \<and> n \<le> 8 \<and> wire_codes (8 * n) es
      | _ \<Rightarrow> False)"

lemmas coded_enum_defs =
  QXLCmdType_enum_def QXLEffectType_enum_def QXLSurfaceCmdType_enum_def QXL_CURSOR_enum_def
  QXL_DRAW_enum_def SPICE_CHANNEL_enum_def SPICE_MSG_DISPLAY_enum_def SPICE_MSG_MAIN_enum_def
  SpiceBitmapFmt_enum_def SpiceBrushType_enum_def SpiceClipType_enum_def SpiceCursorType_enum_def
  SpiceImageScaleMode_enum_def SpiceImageType_enum_def SpiceLinkErr_enum_def
  SpiceSurfaceFmt_enum_def SpiceVideoCodecType_enum_def StreamMsgType_enum_def VDP_PORT_enum_def
  VD_AGENT_CLIPBOARD_enum_def VD_AGENT_FILE_XFER_STATUS_enum_def VD_AGENT_enum_def

lemmas coded_layout_defs =
  QXLBitmap_def QXLBrush_def QXLClip_def QXLCommand_def QXLCompatDrawable_def QXLCursorCmd_def
  QXLCursorHeader_def QXLDrawable_def QXLImageDescriptor_def QXLOpaque_def QXLSurface_def
  QXLSurfaceCmd_def SpiceDataHeader_def SpiceLinkMess_def SpiceLinkReply_def SpiceMiniDataHeader_def
  StreamDevHeader_def StreamMsgCursorSet_def StreamMsgFormat_def VDAgentClipboard_def
  VDAgentFileXferStatusMessage_def VDAgentMessage_def VDIChunkHeader_def

lemma fields_carried: "list_all (\<lambda>(es, t, p). carried es t p) coded_fields"
  by (simp add: coded_fields_def carried_def wire_codes_def enum_values_def coded_enum_defs coded_layout_defs
      layout_simps layout_eval field_at_eval packs_def
      cong: fields_of_cong del: fields_of.simps One_nat_def)

lemma coded_layouts: "list_all (\<lambda>(es, t, p). t \<in> set (wire_layouts @ stream_layouts)) coded_fields"
  by (simp add: coded_fields_def wire_layouts_def qxl_layouts_def protocol_layouts_def agent_layouts_def
      stream_layouts_def)

text \<open>
  C15. A command, message, format or error number keeps its meaning on the way: an enumerator's code fits the
  member that carries it, and the peer that reads the member and looks the number up gets that
  enumerator, whichever way the two programs were compiled.
\<close>

theorem codes_exchanged:
  assumes "(es, t, p) \<in> set coded_fields" and "enum_number es x = Some v"
    and "set_field pf m base t p (int v) h = Some h'"
  shows "\<exists>w. get_field pf m' h' base t p = Some (int w) \<and> enum_name es w = Some x"
proof -
  have r: "rigid t" using coded_layouts assms(1) by (intro wire_rigid) (auto simp: list_all_iff)
  have "carried es t p" using fields_carried assms(1) by (auto simp: list_all_iff)
  moreover from this obtain off u where "locate Attribute_packing p t = Some (off, u)"
    by (auto simp: carried_def split: option.split_asm)
  ultimately obtain off n where l: "locate Attribute_packing p t = Some (off, Int_t n False)"
    and c: "wire_codes (8 * n) es" and n: "n \<le> 8"
    by (cases u) (auto simp: carried_def)
  have d: "enum_name es v = Some x" "v < 2 ^ (8 * n)"
    using wire_enum.decode_number[OF wire_codes_enum[OF c] assms(2)] by blast+
  have lm: "locate k p t = Some (off, Int_t n False)" for k using l rigid_modes[OF r, of k p Attribute_packing] by simp
  have "0 < n" using rigid_locate(2)[OF r l] by simp
  moreover have "int v < int (2 ^ (8 * n))" using d(2) by (simp only: of_nat_less_iff)
  then have "fits_int n False (int v)" by (simp add: fits_int_def)
  ultimately have "get_field pf m h' base t p = Some (int v)"
    using get_set_field[OF assms(3) lm] n by blast
  then have "get_field pf m' h' base t p = Some (int v)"
    using rigid_modes[OF r, of m' p m] by (simp add: get_field_def)
  then show ?thesis using d(1) by blast
qed

theorem codes_exchanged_witness:
  "\<exists>w. get_field sample_platform Pragma_packing
       (the (set_field sample_platform Attribute_packing 0 StreamDevHeader [Member ''type''] (int 3) (\<lambda>_. 0)))
       0 StreamDevHeader [Member ''type''] = Some (int w) \<and>
     enum_name StreamMsgType_enum w = Some ''STREAM_TYPE_DATA''"
proof -
  have m: "(StreamMsgType_enum, StreamDevHeader, [Member ''type'']) \<in> set coded_fields"
    by (simp add: coded_fields_def)
  have l: "locate Attribute_packing [Member ''type''] StreamDevHeader = Some (2, UINT16)" by code_simp
  have c: "enum_number StreamMsgType_enum ''STREAM_TYPE_DATA'' = Some 3" by code_simp
  have "set_field sample_platform Attribute_packing 0 StreamDevHeader [Member ''type''] (int 3) (\<lambda>_. 0) =
      Some (the (set_field sample_platform Attribute_packing 0 StreamDevHeader [Member ''type''] (int 3) (\<lambda>_. 0)))"
    by (simp add: set_field_def l del: locate.simps)
  from codes_exchanged[OF m c this] show ?thesis .
qed

end
