(* ===== verification/Spice_Macros.thy ===== *)
theory Spice_Macros
  imports C_Layout
begin

text \<open>
  \<open>spice/macros.h\<close>: the byte swaps, the detection of the byte order, magic numbers, and the helpers over
  arrays, alignments and members of structures.
\<close>

section \<open>Small helpers\<close>

text \<open>Over \<open>int\<close> operands of 32 bits; the negation of the smallest one wraps.\<close>

definition MAX_macro :: "int \<Rightarrow> int \<Rightarrow> int" where
  "MAX_macro a b = (if a > b then a else b)"

definition MIN_macro :: "int \<Rightarrow> int \<Rightarrow> int" where
  "MIN_macro a b = (if a < b then a else b)"

definition ABS_macro :: "32 word \<Rightarrow> 32 word" where
  "ABS_macro a = (if a <s 0 then - a else a)"

definition SPICE_N_ELEMENTS :: "packing \<Rightarrow> ctype \<Rightarrow> nat" where
  "SPICE_N_ELEMENTS m arr =
     (case arr of Array_t t n \<Rightarrow> size_of m arr div size_of m t | _ \<Rightarrow> 0)"

definition SPICE_ALIGN :: "guint64 \<Rightarrow> guint64 \<Rightarrow> guint64" where
  "SPICE_ALIGN a n = (a + (n - 1)) AND NOT (n - 1)"

text \<open>The offset of a member, and from the address of a member the address of its structure.\<close>

definition SPICE_OFFSETOF :: "packing \<Rightarrow> ctype \<Rightarrow> selector list \<Rightarrow> nat option" where
  "SPICE_OFFSETOF m struct_type member = map_option fst (locate m member struct_type)"

definition SPICE_CONTAINEROF :: "packing \<Rightarrow> guint64 \<Rightarrow> ctype \<Rightarrow> selector list \<Rightarrow> guint64 option" where
  "SPICE_CONTAINEROF m ptr struct_type member =
     map_option (\<lambda>off. ptr - of_nat off) (SPICE_OFFSETOF m struct_type member)"

definition SPICE_MEMBER_P :: "guint64 \<Rightarrow> guint64 \<Rightarrow> guint64" where
  "SPICE_MEMBER_P struct_p struct_offset = struct_p + struct_offset"

section \<open>Byte swaps\<close>

definition SPICE_BYTESWAP16_CONSTANT :: "guint16 \<Rightarrow> guint16" where
  "SPICE_BYTESWAP16_CONSTANT val = drop_bit 8 val OR push_bit 8 val"

definition SPICE_BYTESWAP32_CONSTANT :: "guint32 \<Rightarrow> guint32" where
  "SPICE_BYTESWAP32_CONSTANT val =
     push_bit 24 (val AND 0x000000ff) OR push_bit 8 (val AND 0x0000ff00) OR
     drop_bit 8 (val AND 0x00ff0000) OR drop_bit 24 (val AND 0xff000000)"

definition SPICE_BYTESWAP64_CONSTANT :: "guint64 \<Rightarrow> guint64" where
  "SPICE_BYTESWAP64_CONSTANT val =
     push_bit 56 (val AND 0x00000000000000ff) OR push_bit 40 (val AND 0x000000000000ff00) OR
     push_bit 24 (val AND 0x0000000000ff0000) OR push_bit 8 (val AND 0x00000000ff000000) OR
     drop_bit 8 (val AND 0x000000ff00000000) OR drop_bit 24 (val AND 0x0000ff0000000000) OR
     drop_bit 40 (val AND 0x00ff000000000000) OR drop_bit 56 (val AND 0xff00000000000000)"

text \<open>The compilers' own swaps reverse the bytes; the generic macros are the constant ones.\<close>

datatype swap_compiler = GCC_swap | MSVC_swap | Generic_swap

definition SPICE_BYTESWAP16 :: "swap_compiler \<Rightarrow> guint16 \<Rightarrow> guint16" where
  "SPICE_BYTESWAP16 c val = (case c of Generic_swap \<Rightarrow> SPICE_BYTESWAP16_CONSTANT val | _ \<Rightarrow> bswap 2 val)"

definition SPICE_BYTESWAP32 :: "swap_compiler \<Rightarrow> guint32 \<Rightarrow> guint32" where
  "SPICE_BYTESWAP32 c val = (case c of Generic_swap \<Rightarrow> SPICE_BYTESWAP32_CONSTANT val | _ \<Rightarrow> bswap 4 val)"

definition SPICE_BYTESWAP64 :: "swap_compiler \<Rightarrow> guint64 \<Rightarrow> guint64" where
  "SPICE_BYTESWAP64 c val = (case c of Generic_swap \<Rightarrow> SPICE_BYTESWAP64_CONSTANT val | _ \<Rightarrow> bswap 8 val)"

section \<open>The byte order of the target\<close>

text \<open>
  What the compiler predefines: the value of \<open>__BYTE_ORDER__\<close> and the three values it is compared with,
  when all four are defined, and the names of the other macros that are.
\<close>

datatype order_macro = Order_little | Order_big | Order_pdp | Order_other

record predefined =
  byte_order_macro :: "order_macro option"
  defined_names :: "string list"

datatype spice_endian = SPICE_ENDIAN_LITTLE | SPICE_ENDIAN_BIG | SPICE_ENDIAN_PDP

definition little_names :: "string list" where
  "little_names =
     [''__LITTLE_ENDIAN__'', ''__ARMEL__'', ''__THUMBEL__'', ''__AARCH64EL__'', ''_MIPSEL'', ''__MIPSEL'',
      ''__MIPSEL__'', ''__amd64__'', ''__x86_64__'', ''__i386__'', ''__e2k__'']"

definition big_names :: "string list" where
  "big_names =
     [''__BIG_ENDIAN__'', ''__ARMEB__'', ''__THUMBEB__'', ''__AARCH64EB__'', ''_MIPSEB'', ''__MIPSEB'',
      ''__MIPSEB__'']"

definition msvc_names :: "string list" where
  "msvc_names = [''_M_IX86'', ''_M_AMD64'', ''_M_X64'', ''_M_ARM'']"

definition any_defined :: "string list \<Rightarrow> predefined \<Rightarrow> bool" where
  "any_defined names d \<longleftrightarrow> list_ex (\<lambda>x. x \<in> set (defined_names d)) names"

datatype endian_error =
  Order_not_correct | Both_detected | Unable_to_detect | Pdp_not_supported

text \<open>The chain of conditions, in its order; a result of \<open>None\<close> leaves \<open>SPICE_ENDIAN\<close> undefined.\<close>

definition endian_by_order :: "predefined \<Rightarrow> endian_error + spice_endian option" where
  "endian_by_order d =
     (case byte_order_macro d of
        None \<Rightarrow> Inr None
      | Some Order_little \<Rightarrow> Inr (Some SPICE_ENDIAN_LITTLE)
      | Some Order_big \<Rightarrow> Inr (Some SPICE_ENDIAN_BIG)
      | Some Order_pdp \<Rightarrow> Inr (Some SPICE_ENDIAN_PDP)
      | Some Order_other \<Rightarrow> Inl Order_not_correct)"

definition endian_by_names :: "predefined \<Rightarrow> spice_endian option \<Rightarrow> endian_error + spice_endian option" where
  "endian_by_names d e =
     (if e \<noteq> None then Inr e
      else
        let e = (if any_defined little_names d then Some SPICE_ENDIAN_LITTLE else None)
        in if any_defined big_names d
           then (if e \<noteq> None then Inl Both_detected else Inr (Some SPICE_ENDIAN_BIG))
           else Inr e)"

definition endian_by_msvc :: "predefined \<Rightarrow> spice_endian option \<Rightarrow> spice_endian option" where
  "endian_by_msvc d e =
     (if e = None \<and> any_defined [''_MSC_VER''] d \<and> any_defined msvc_names d then Some SPICE_ENDIAN_LITTLE else e)"

definition SPICE_ENDIAN :: "predefined \<Rightarrow> endian_error + spice_endian" where
  "SPICE_ENDIAN d =
     (case endian_by_order d of
        Inl err \<Rightarrow> Inl err
      | Inr e \<Rightarrow>
          (case endian_by_names d e of
             Inl err \<Rightarrow> Inl err
           | Inr e \<Rightarrow>
               (case endian_by_msvc d e of
                  None \<Rightarrow> Inl Unable_to_detect
                | Some SPICE_ENDIAN_PDP \<Rightarrow> Inl Pdp_not_supported
                | Some e \<Rightarrow> Inr e)))"

section \<open>Magic numbers\<close>

definition SPICE_MAGIC_CONST :: "spice_endian \<Rightarrow> guint8 list \<Rightarrow> guint32" where
  "SPICE_MAGIC_CONST e s =
     (let c = (\<lambda>i. ucast (s ! i) :: guint32)
      in if e = SPICE_ENDIAN_LITTLE
         then c 0 OR push_bit 8 (c 1) OR push_bit 16 (c 2) OR push_bit 24 (c 3)
         else c 3 OR push_bit 8 (c 2) OR push_bit 16 (c 1) OR push_bit 24 (c 0))"

text \<open>The byte order the detected value stands for.\<close>

definition detected_order :: "spice_endian \<Rightarrow> byte_order" where
  "detected_order e = (if e = SPICE_ENDIAN_LITTLE then G_LITTLE_ENDIAN else G_BIG_ENDIAN)"

text \<open>
  A magic number is its text: the four bytes an integer member holds after the constant was stored
  natively are the four characters in order, whichever byte order was detected, so a reader of
  another byte order finds the same text.
\<close>

theorem magic_is_text:
  assumes "SPICE_ENDIAN d = Inr e" "G_BYTE_ORDER pf = detected_order e" "length s = 4"
  shows "mem_bytes (native_write pf 4 h p (SPICE_MAGIC_CONST e s)) p 4 = s"
proof -
  obtain a b c x where s: "s = [a, b, c, x]" using assms(3)
    by (auto simp: numeral_eq_Suc length_Suc_conv)
  have w: "word_bytes 4 (ucast a OR push_bit 8 (ucast b) OR push_bit 16 (ucast c) OR push_bit 24 (ucast x) :: guint32)
      = [a, b, c, x]" for a b c x :: guint8
    by (simp add: word_bytes_explicit4) (intro conjI; rule bit_word_eqI; auto simp: bit_simps dest: bit_imp_le_length)
  show ?thesis
    using w[of a b c x] w[of x c b a] assms(2) s
    by (cases "e = SPICE_ENDIAN_LITTLE")
      (simp_all add: native_write_def detected_order_def SPICE_MAGIC_CONST_def Let_def)
qed

theorem magic_is_text_witness:
  "mem_bytes (native_write \<lparr>compiler = \<lparr>cpu = Generic, gcc_4_3 = False\<rparr>, G_BYTE_ORDER = G_BIG_ENDIAN,
       GST_HAVE_UNALIGNED_ACCESS = True\<rparr> 4 (\<lambda>_. 0) 9
     (SPICE_MAGIC_CONST SPICE_ENDIAN_BIG [0x52, 0x45, 0x44, 0x51])) 9 4 = [0x52, 0x45, 0x44, 0x51]"
proof -
  have "SPICE_ENDIAN \<lparr>byte_order_macro = Some Order_big, defined_names = []\<rparr> = Inr SPICE_ENDIAN_BIG"
    by (simp add: SPICE_ENDIAN_def endian_by_order_def endian_by_names_def endian_by_msvc_def)
  from magic_is_text[OF this, of "\<lparr>compiler = \<lparr>cpu = Generic, gcc_4_3 = False\<rparr>, G_BYTE_ORDER = G_BIG_ENDIAN,
       GST_HAVE_UNALIGNED_ACCESS = True\<rparr>" "[0x52, 0x45, 0x44, 0x51]"]
  show ?thesis by (simp add: detected_order_def)
qed

text \<open>
  The detection never guesses: it defines a byte order only when a macro of the compiler names it, an
  explicit \<open>__BYTE_ORDER__\<close> decides alone, macros for both orders are an error, and PDP order or no
  evidence at all stops the compilation.
\<close>

theorem endianness_detected:
  "(SPICE_ENDIAN d = Inr SPICE_ENDIAN_LITTLE \<longleftrightarrow>
      byte_order_macro d = Some Order_little \<or>
      byte_order_macro d = None \<and> \<not> any_defined big_names d \<and>
        (any_defined little_names d \<or> any_defined [''_MSC_VER''] d \<and> any_defined msvc_names d)) \<and>
   (SPICE_ENDIAN d = Inr SPICE_ENDIAN_BIG \<longleftrightarrow>
      byte_order_macro d = Some Order_big \<or>
      byte_order_macro d = None \<and> any_defined big_names d \<and> \<not> any_defined little_names d) \<and>
   SPICE_ENDIAN d \<noteq> Inr SPICE_ENDIAN_PDP \<and>
   (SPICE_ENDIAN d = Inl Both_detected \<longleftrightarrow>
      byte_order_macro d = None \<and> any_defined big_names d \<and> any_defined little_names d)"
proof -
  show ?thesis
  proof (cases "byte_order_macro d")
    case None
    then show ?thesis
      by (cases "any_defined little_names d"; cases "any_defined big_names d";
          cases "any_defined [''_MSC_VER''] d \<and> any_defined msvc_names d")
        (simp_all add: SPICE_ENDIAN_def endian_by_order_def endian_by_names_def endian_by_msvc_def Let_def)
  next
    case (Some o1)
    then show ?thesis
      by (cases o1) (simp_all add: SPICE_ENDIAN_def endian_by_order_def endian_by_names_def endian_by_msvc_def)
  qed
qed

text \<open>
  From a member back to its structure: for a member of any structure, at any address, subtracting the
  offset of the member from the member's address gives the address of the structure again.
\<close>

theorem container_of_member:
  assumes "SPICE_OFFSETOF m t p = Some off"
  shows "SPICE_CONTAINEROF m (SPICE_MEMBER_P base (of_nat off)) t p = Some base \<and> off \<le> size_of m t"
proof -
  obtain u where "locate m p t = Some (off, u)" using assms by (auto simp: SPICE_OFFSETOF_def)
  then show ?thesis using assms locate_inside[of m p t off u]
    by (simp add: SPICE_CONTAINEROF_def SPICE_MEMBER_P_def)
qed

theorem container_of_member_witness:
  "SPICE_CONTAINEROF Attribute_packing (SPICE_MEMBER_P 0xfffffffffffffffe 4)
     (PLAIN [(''a'', UINT8), (''b'', UINT32)]) [Member ''b''] = Some 0xfffffffffffffffe"
proof -
  have "SPICE_OFFSETOF Attribute_packing (PLAIN [(''a'', UINT8), (''b'', UINT32)]) [Member ''b''] = Some 4"
    by (simp add: SPICE_OFFSETOF_def packs_def round_up_def)
  from container_of_member[OF this, of "0xfffffffffffffffe"] show ?thesis by simp
qed

lemma spice_swaps:
  "SPICE_BYTESWAP16 c = bswap 2" "SPICE_BYTESWAP32 c = bswap 4" "SPICE_BYTESWAP64 c = bswap 8"
  using swap16_constant swap32_constant swap64_constant
  by (cases c; simp add: fun_eq_iff SPICE_BYTESWAP16_def SPICE_BYTESWAP32_def SPICE_BYTESWAP64_def
      SPICE_BYTESWAP16_CONSTANT_def SPICE_BYTESWAP32_CONSTANT_def SPICE_BYTESWAP64_CONSTANT_def
      GUINT16_SWAP_LE_BE_CONSTANT_def GUINT32_SWAP_LE_BE_CONSTANT_def GUINT64_SWAP_LE_BE_CONSTANT_def)+

text \<open>
  Every compiler's swap is the same reversal of the bytes, the one of GLib's macros, and aligning is
  GStreamer's rounding up.
\<close>

theorem spice_swaps_agree:
  "SPICE_BYTESWAP16 c = GUINT16_SWAP_LE_BE t \<and> SPICE_BYTESWAP32 c = GUINT32_SWAP_LE_BE t \<and>
   SPICE_BYTESWAP64 c = GUINT64_SWAP_LE_BE t \<and> SPICE_ALIGN = GST_ROUND_UP_N"
  by (simp add: spice_swaps fun_eq_iff swap16 swap32 swap64 SPICE_ALIGN_def GST_ROUND_UP_N_def)

lemma n_elements: "0 < size_of m t \<Longrightarrow> SPICE_N_ELEMENTS m (Array_t t n) = n"
  by (simp add: SPICE_N_ELEMENTS_def)

end
