(* ===== verification/Audio.thy ===== *)
theory Audio
  imports Main_Context Wire
begin

text \<open>
  \<^verbatim>\<open>CSAudioPlayback.m\<close>: the playback channel of a connection and the host's audio engine. The
  signals of the channel run on the SPICE context; the engine's configuration notice and the
  timers of the recovery post blocks to it. Shown: audio is only scheduled in whole frames and
  while playback is on, the volume the player has, that at most one recovery is under way, and
  that an engine the host stopped is started again. What the host decides is a parameter: which
  formats it accepts, whether a buffer is allocated, whether the output can be started, and the
  rounding of a single-precision number.
\<close>

section \<open>State\<close>

record audio_format =
  sampleRate :: int
  channelCount :: nat

text \<open>
  The fields of the object, then the engine and the player it owns: whether they run, the format
  of their connection and the player's volume. \<open>timers\<close> counts the \<open>dispatch_after\<close> blocks that
  have not fired, \<open>host_output\<close> says whether the engine can be started, \<open>channel_refs\<close> and
  \<open>connected_signals\<close> are what the object holds on the channel.
\<close>

record cs_audio =
  audio_format :: "audio_format option"
  isPlaying :: bool
  wantsPlayback :: bool
  playbackVolume :: cgfloat
  isMuted :: bool
  engineRecoveryScheduled :: bool
  engine_running :: bool
  player_playing :: bool
  connection_format :: "audio_format option"
  player_volume :: cgfloat
  observing :: bool
  timers :: nat
  host_output :: bool
  channel_refs :: nat
  connected_signals :: nat

datatype audio_call =
    Set_delay nat
  | Schedule_buffer "guint8 list"
  | Dispatch_after nat
  | Warn_format int
  | Warn_host_format
  | Warn_engine

text \<open>The blocks posted to the context: the configuration notice and a recovery.\<close>

datatype audio_block = Configuration_block | Recovery_block

type_synonym audio_world = "(cs_audio, audio_block, audio_call) world"

section \<open>The engine\<close>

definition scheduleEngineRecoveryAfter :: "nat \<Rightarrow> cs_audio \<Rightarrow> cs_audio \<times> audio_call list" where
  "scheduleEngineRecoveryAfter delay self =
     (if engineRecoveryScheduled self \<or> \<not> wantsPlayback self then (self, [])
      else (self\<lparr>engineRecoveryScheduled := True, timers := timers self + 1\<rparr>, [Dispatch_after delay]))"

definition startEngine :: "cs_audio \<Rightarrow> cs_audio \<times> audio_call list" where
  "startEngine self =
     (let self = self\<lparr>isPlaying := False, player_playing := False, engine_running := False,
                      connection_format := audio_format self\<rparr>
      in if \<not> host_output self
         then (let (self, cs) = scheduleEngineRecoveryAfter 1000 self in (self, Warn_engine # cs))
         else (self\<lparr>engine_running := True, player_playing := True, isPlaying := True\<rparr>, [Set_delay 0]))"

definition startWithFormat ::
  "(int \<Rightarrow> nat \<Rightarrow> bool) \<Rightarrow> int \<Rightarrow> int \<Rightarrow> int \<Rightarrow> cs_audio \<Rightarrow> cs_audio \<times> audio_call list" where
  "startWithFormat accepts fmt channels frequency self =
     (let self = self\<lparr>isPlaying := False\<rparr>
      in if fmt \<noteq> int (audio_fmt_code SPICE_AUDIO_FMT_S16) \<or> channels \<le> 0 \<or> frequency \<le> 0
         then (self, [Warn_format fmt])
         else
           let made = (if accepts frequency (nat channels)
                       then Some \<lparr>sampleRate = frequency, channelCount = nat channels\<rparr> else None);
               self = self\<lparr>audio_format := made\<rparr>
           in if made = None then (self, [Warn_host_format])
              else startEngine (self\<lparr>wantsPlayback := True\<rparr>))"

definition audio_stop :: "cs_audio \<Rightarrow> cs_audio" where
  "audio_stop self =
     self\<lparr>wantsPlayback := False, isPlaying := False, player_playing := False, engine_running := False\<rparr>"

text \<open>\<open>memcpy\<close> copies the bytes of the whole frames; a buffer holds the frames it was made for.\<close>

definition appendAudio :: "bool \<Rightarrow> guint8 list option \<Rightarrow> int \<Rightarrow> cs_audio \<Rightarrow> audio_call list" where
  "appendAudio allocated audio len self =
     (case (audio_format self, audio) of
        (Some f, Some bytes) \<Rightarrow>
          (if \<not> isPlaying self \<or> \<not> engine_running self \<or> \<not> player_playing self \<or> len \<le> 0 then []
           else
             let bytesPerFrame = channelCount f * 2;
                 frameCount = nat len div bytesPerFrame
             in if frameCount = 0 \<or> \<not> allocated then []
                else [Schedule_buffer (take (frameCount * bytesPerFrame) bytes)])
      | _ \<Rightarrow> [])"

section \<open>Volume\<close>

text \<open>\<open>volumes\<close> is the property's array, \<open>NULL\<close> when there is none, and \<open>channels\<close> its length.\<close>

definition cs_playback_volume_changed ::
  "(cgfloat \<Rightarrow> cgfloat) \<Rightarrow> guint16 list option \<Rightarrow> guint32 \<Rightarrow> cs_audio \<Rightarrow> cs_audio" where
  "cs_playback_volume_changed single volumes channels self =
     (case volumes of
        Some vs \<Rightarrow>
          (if 0 < channels then
             (let self = self\<lparr>playbackVolume := single (of_nat (unat (vs ! 0)) / 65535)\<rparr>
              in self\<lparr>player_volume := (if isMuted self then 0 else playbackVolume self)\<rparr>)
           else self)
      | None \<Rightarrow> self)"

definition cs_playback_mute_changed :: "bool \<Rightarrow> cs_audio \<Rightarrow> cs_audio" where
  "cs_playback_mute_changed muted self =
     self\<lparr>isMuted := muted, player_volume := (if muted then 0 else playbackVolume self)\<rparr>"

section \<open>Construction, notices and timers\<close>

definition audio_initWithChannel :: "bool \<Rightarrow> cs_audio" where
  "audio_initWithChannel ready =
     \<lparr>audio_format = None, isPlaying = False, wantsPlayback = False, playbackVolume = 1, isMuted = False,
      engineRecoveryScheduled = False, engine_running = False, player_playing = False,
      connection_format = None, player_volume = 1, observing = True, timers = 0, host_output = ready,
      channel_refs = 1, connected_signals = 5\<rparr>"

definition audio_dealloc :: "cs_audio \<Rightarrow> cs_audio" where
  "audio_dealloc self =
     self\<lparr>observing := False, player_playing := False, engine_running := False, connected_signals := 0,
          channel_refs := channel_refs self - 1\<rparr>"

primrec run_audio :: "audio_block \<Rightarrow> cs_audio \<Rightarrow> cs_audio \<times> audio_call list" where
  "run_audio Configuration_block self =
     (if wantsPlayback self \<and> audio_format self \<noteq> None \<and> \<not> engine_running self
      then scheduleEngineRecoveryAfter 100 self else (self, []))"
| "run_audio Recovery_block self =
     (let self = self\<lparr>engineRecoveryScheduled := False\<rparr>
      in if wantsPlayback self \<and> audio_format self \<noteq> None \<and> \<not> engine_running self
         then startEngine self else (self, []))"

text \<open>A signal of the channel runs on the context, and the engine may be stopped by the host.\<close>

definition on_signal :: "(cs_audio \<Rightarrow> cs_audio \<times> audio_call list) \<Rightarrow> audio_world \<Rightarrow> audio_world" where
  "on_signal f w = (let (s, cs) = f (obj w) in w\<lparr>obj := s, calls := calls w @ cs\<rparr>)"

definition configuration_changed :: "bool \<Rightarrow> audio_world \<Rightarrow> audio_world" where
  "configuration_changed playing w =
     asyncWith run_audio False Configuration_block
       (w\<lparr>obj := (obj w)\<lparr>engine_running := False, player_playing := playing\<rparr>\<rparr>)"

definition timer_fires :: "audio_world \<Rightarrow> audio_world" where
  "timer_fires w =
     (if timers (obj w) = 0 then w
      else asyncWith run_audio False Recovery_block (w\<lparr>obj := (obj w)\<lparr>timers := timers (obj w) - 1\<rparr>\<rparr>))"

text \<open>Everything that can happen to a living object, in any order.\<close>

inductive audio_reach :: "(int \<Rightarrow> nat \<Rightarrow> bool) \<Rightarrow> (cgfloat \<Rightarrow> cgfloat) \<Rightarrow> audio_world \<Rightarrow> bool"
  for accepts single where
  init: "audio_reach accepts single (new_world (audio_initWithChannel ready))"
| start: "audio_reach accepts single w \<Longrightarrow>
    audio_reach accepts single (on_signal (startWithFormat accepts fmt channels frequency) w)"
| data: "audio_reach accepts single w \<Longrightarrow>
    audio_reach accepts single (on_signal (\<lambda>s. (s, appendAudio allocated audio n s)) w)"
| stop: "audio_reach accepts single w \<Longrightarrow> audio_reach accepts single (on_signal (\<lambda>s. (audio_stop s, [])) w)"
| volume: "audio_reach accepts single w \<Longrightarrow>
    audio_reach accepts single (on_signal (\<lambda>s. (cs_playback_volume_changed single vs n s, [])) w)"
| mute: "audio_reach accepts single w \<Longrightarrow>
    audio_reach accepts single (on_signal (\<lambda>s. (cs_playback_mute_changed muted s, [])) w)"
| host: "audio_reach accepts single w \<Longrightarrow>
    audio_reach accepts single (w\<lparr>obj := (obj w)\<lparr>host_output := ready\<rparr>\<rparr>)"
| configuration: "audio_reach accepts single w \<Longrightarrow> audio_reach accepts single (configuration_changed playing w)"
| timer: "audio_reach accepts single w \<Longrightarrow> audio_reach accepts single (timer_fires w)"
| block: "audio_reach accepts single w \<Longrightarrow> audio_reach accepts single (dispatch run_audio w)"



section \<open>Invariant\<close>

definition playing_ok :: "cs_audio \<Rightarrow> bool" where
  "playing_ok s \<longleftrightarrow>
     (isPlaying s \<longrightarrow> wantsPlayback s \<and> audio_format s \<noteq> None \<and> connection_format s = audio_format s) \<and>
     (case audio_format s of None \<Rightarrow> True | Some f \<Rightarrow> 0 < channelCount f) \<and>
     player_volume s = (if isMuted s then 0 else playbackVolume s)"

text \<open>The engine is wanted and does not run.\<close>

definition needs_recovery :: "cs_audio \<Rightarrow> bool" where
  "needs_recovery s \<longleftrightarrow> wantsPlayback s \<and> audio_format s \<noteq> None \<and> \<not> engine_running s"

definition recoveries :: "audio_world \<Rightarrow> nat" where
  "recoveries w = timers (obj w) + count_list (posted w) Recovery_block"

definition audio_inv :: "audio_world \<Rightarrow> bool" where
  "audio_inv w \<longleftrightarrow> playing_ok (obj w) \<and>
     recoveries w = (if engineRecoveryScheduled (obj w) then 1 else 0) \<and>
     (needs_recovery (obj w) \<longrightarrow>
        engineRecoveryScheduled (obj w) \<or> Configuration_block \<in> set (posted w))"

text \<open>
  What a handler does to the recovery: nothing, or it plans one.
\<close>

definition plans :: "cs_audio \<Rightarrow> cs_audio \<Rightarrow> bool" where
  "plans s s' \<longleftrightarrow>
     timers s' = timers s \<and> engineRecoveryScheduled s' = engineRecoveryScheduled s \<or>
     timers s' = timers s + 1 \<and> \<not> engineRecoveryScheduled s \<and> engineRecoveryScheduled s'"

lemma schedule_plans:
  "plans s (fst (scheduleEngineRecoveryAfter d s))"
  "wantsPlayback s \<Longrightarrow> engineRecoveryScheduled (fst (scheduleEngineRecoveryAfter d s))"
  "playing_ok (fst (scheduleEngineRecoveryAfter d s)) = playing_ok s"
  by (auto simp: plans_def scheduleEngineRecoveryAfter_def playing_ok_def)

lemma startEngine_plans:
  assumes "playing_ok (s\<lparr>isPlaying := False\<rparr>)" "wantsPlayback s" "audio_format s \<noteq> None"
  shows "plans s (fst (startEngine s))" "playing_ok (fst (startEngine s))"
    and "needs_recovery (fst (startEngine s)) \<Longrightarrow> engineRecoveryScheduled (fst (startEngine s))"
  using assms by (auto simp: plans_def startEngine_def scheduleEngineRecoveryAfter_def playing_ok_def
      needs_recovery_def Let_def)

lemma startWithFormat_plans:
  fixes s :: cs_audio and fmt channels frequency :: int and accepts :: "int \<Rightarrow> nat \<Rightarrow> bool"
  assumes "playing_ok s"
  defines "s' \<equiv> fst (startWithFormat accepts fmt channels frequency s)"
  shows "plans s s' \<and> playing_ok s' \<and>
    (needs_recovery s' \<longrightarrow> engineRecoveryScheduled s' \<or> needs_recovery s)"
proof -
  let ?bad = "fmt \<noteq> int (audio_fmt_code SPICE_AUDIO_FMT_S16) \<or> channels \<le> 0 \<or> frequency \<le> 0"
  let ?f = "\<lparr>sampleRate = frequency, channelCount = nat channels\<rparr>"
  let ?t = "s\<lparr>isPlaying := False, audio_format := Some ?f, wantsPlayback := True\<rparr>"
  consider "?bad" | "\<not> ?bad" "\<not> accepts frequency (nat channels)" | "\<not> ?bad" "accepts frequency (nat channels)"
    by blast
  then show ?thesis
  proof cases
    case 1
    then have "s' = s\<lparr>isPlaying := False\<rparr>" by (simp add: s'_def startWithFormat_def)
    then show ?thesis using assms(1) by (simp add: plans_def playing_ok_def needs_recovery_def)
  next
    case 2
    then have "s' = s\<lparr>isPlaying := False, audio_format := None\<rparr>"
      by (simp add: s'_def startWithFormat_def Let_def)
    then show ?thesis using assms(1) by (simp add: plans_def playing_ok_def needs_recovery_def)
  next
    case 3
    then have "s' = fst (startEngine ?t)" by (simp add: s'_def startWithFormat_def Let_def)
    moreover have "playing_ok (?t\<lparr>isPlaying := False\<rparr>)" using assms(1) 3 by (simp add: playing_ok_def)
    moreover have "plans ?t s'' \<Longrightarrow> plans s s''" for s'' by (simp add: plans_def)
    ultimately show ?thesis using startEngine_plans[of ?t] by auto
  qed
qed

lemma audio_inv_signal:
  assumes "audio_inv w" "playing_ok (fst (f (obj w)))" "plans (obj w) (fst (f (obj w)))"
    and "needs_recovery (fst (f (obj w))) \<Longrightarrow> engineRecoveryScheduled (fst (f (obj w))) \<or> needs_recovery (obj w)"
  shows "audio_inv (on_signal f w)"
  using assms by (auto simp: audio_inv_def on_signal_def recoveries_def split_beta plans_def)

lemma run_now_as: "run_now run_audio b w = on_signal (run_audio b) w"
  by (simp add: run_now_def on_signal_def)

lemma run_recovery:
  assumes "audio_inv (w\<lparr>posted := Recovery_block # bs\<rparr>)"
  shows "audio_inv (run_now run_audio Recovery_block (w\<lparr>posted := bs\<rparr>))"
proof -
  let ?s = "(obj w)\<lparr>engineRecoveryScheduled := False\<rparr>"
  have inv: "playing_ok ?s" "timers ?s = 0" "count_list bs Recovery_block = 0"
    using assms by (auto simp: audio_inv_def recoveries_def playing_ok_def split: if_splits)
  show ?thesis
  proof (cases "needs_recovery ?s")
    case True
    then have "playing_ok (?s\<lparr>isPlaying := False\<rparr>)" using inv(1) by (simp add: playing_ok_def)
    moreover have "run_audio Recovery_block (obj w) = startEngine ?s"
      using True by (simp add: needs_recovery_def)
    ultimately show ?thesis using startEngine_plans[of ?s] True inv
      by (auto simp: audio_inv_def recoveries_def plans_def needs_recovery_def)
  next
    case False
    then have "run_audio Recovery_block (obj w) = (?s, [])" by (auto simp: needs_recovery_def)
    then show ?thesis using False inv by (auto simp: audio_inv_def recoveries_def needs_recovery_def)
  qed
qed

lemma run_configuration:
  assumes "audio_inv (w\<lparr>posted := Configuration_block # bs\<rparr>)"
  shows "audio_inv (run_now run_audio Configuration_block (w\<lparr>posted := bs\<rparr>))"
proof (cases "needs_recovery (obj w)")
  case True
  then have r: "run_audio Configuration_block (obj w) = scheduleEngineRecoveryAfter 100 (obj w)"
    by (simp add: needs_recovery_def)
  show ?thesis using assms True schedule_plans(1,2)[of "obj w" 100]
    by (auto simp: audio_inv_def recoveries_def r plans_def needs_recovery_def schedule_plans(3))
next
  case False
  then have "run_audio Configuration_block (obj w) = (obj w, [])" by (auto simp: needs_recovery_def)
  then show ?thesis using assms False by (auto simp: audio_inv_def recoveries_def needs_recovery_def)
qed

lemma audio_inv_dispatch: "audio_inv w \<Longrightarrow> audio_inv (dispatch run_audio w)"
proof (cases "posted w")
  case (Cons b bs)
  moreover assume "audio_inv w"
  ultimately have "audio_inv (w\<lparr>posted := b # bs\<rparr>)" by (cases w) simp
  then show ?thesis using Cons run_recovery run_configuration by (cases b) (simp_all add: dispatch_def)
qed (simp add: dispatch_def)

lemma audio_inv_timer: "audio_inv w \<Longrightarrow> audio_inv (timer_fires w)"
  by (auto simp: timer_fires_def audio_inv_def recoveries_def playing_ok_def needs_recovery_def)

lemma audio_inv_configuration: "audio_inv w \<Longrightarrow> audio_inv (configuration_changed playing w)"
  by (auto simp: configuration_changed_def audio_inv_def recoveries_def playing_ok_def)

lemma playing_ok_parts:
  "playing_ok s \<Longrightarrow> playing_ok (audio_stop s)"
  "playing_ok s \<Longrightarrow> playing_ok (cs_playback_volume_changed single vs n s)"
  "playing_ok s \<Longrightarrow> playing_ok (cs_playback_mute_changed muted s)"
  by (auto simp: playing_ok_def audio_stop_def cs_playback_volume_changed_def cs_playback_mute_changed_def
      Let_def split: option.split)

lemma plans_parts:
  "plans s (audio_stop s)" "plans s (cs_playback_volume_changed single vs n s)"
  "plans s (cs_playback_mute_changed muted s)" "plans s s"
  by (auto simp: plans_def audio_stop_def cs_playback_volume_changed_def cs_playback_mute_changed_def
      Let_def split: option.split)

lemma needs_parts:
  "\<not> needs_recovery (audio_stop s)"
  "needs_recovery (cs_playback_volume_changed single vs n s) = needs_recovery s"
  "needs_recovery (cs_playback_mute_changed muted s) = needs_recovery s"
  by (auto simp: needs_recovery_def audio_stop_def cs_playback_volume_changed_def
      cs_playback_mute_changed_def Let_def split: option.split)

lemma audio_reach_inv: "audio_reach accepts single w \<Longrightarrow> audio_inv w"
proof (induction rule: audio_reach.induct)
  case (init ready)
  show ?case
    by (simp add: audio_inv_def recoveries_def playing_ok_def needs_recovery_def audio_initWithChannel_def)
next
  case (start w fmt channels frequency)
  then show ?case
    using startWithFormat_plans[of "obj w" accepts fmt channels frequency]
    by (intro audio_inv_signal) (auto simp: audio_inv_def)
next
  case (host w ready)
  then show ?case by (simp add: audio_inv_def recoveries_def playing_ok_def needs_recovery_def)
next
  case (configuration w playing)
  then show ?case by (intro audio_inv_configuration)
next
  case (timer w)
  then show ?case by (intro audio_inv_timer)
next
  case (block w)
  then show ?case by (intro audio_inv_dispatch)
qed (rule audio_inv_signal; simp add: audio_inv_def playing_ok_parts plans_parts needs_parts)+

section \<open>Playback\<close>


definition sample_audio :: audio_world where
  "sample_audio = on_signal (startWithFormat (\<lambda>f c. c \<le> 2) 1 2 48000) (new_world (audio_initWithChannel True))"

lemma sample_audio_reach: "audio_reach (\<lambda>f c. c \<le> 2) id sample_audio"
  unfolding sample_audio_def by (intro audio_reach.start audio_reach.init)

lemma sample_audio_playing:
  "isPlaying (obj sample_audio)" "engine_running (obj sample_audio)" "player_playing (obj sample_audio)"
  "host_output (obj sample_audio)"
  "audio_format (obj sample_audio) = Some \<lparr>sampleRate = 48000, channelCount = 2\<rparr>"
  by (simp_all add: sample_audio_def on_signal_def startWithFormat_def startEngine_def
      audio_initWithChannel_def Let_def)

lemma sample_audio_wanted: "wantsPlayback (obj sample_audio)"
  by (simp add: sample_audio_def on_signal_def startWithFormat_def startEngine_def
      audio_initWithChannel_def Let_def)


text \<open>
  C29. Audio that arrives is scheduled as its whole frames, in order and never behind the packet's end; the
  rest of the last frame is dropped. It is scheduled exactly when the guest's playback is on, the
  engine and the player run, and the packet holds a frame.
\<close>

theorem audio_whole_frames:
  assumes "audio_reach accepts single w" "audio_format (obj w) = Some f" "n \<le> int (length bytes)"
  shows "(appendAudio allocated (Some bytes) n (obj w) \<noteq> [] \<longleftrightarrow>
      isPlaying (obj w) \<and> engine_running (obj w) \<and> player_playing (obj w) \<and> allocated \<and>
      int (2 * channelCount f) \<le> n) \<and>
    (\<forall>c \<in> set (appendAudio allocated (Some bytes) n (obj w)). \<exists>k rest.
       c = Schedule_buffer (take k bytes) \<and> nat n = k + rest \<and> 2 * channelCount f dvd k \<and>
       rest < 2 * channelCount f \<and> length (take k bytes) = k)"
proof -
  have pos: "0 < channelCount f"
    using audio_reach_inv[OF assms(1)] assms(2) by (simp add: audio_inv_def playing_ok_def)
  let ?b = "channelCount f * 2"
  have frames: "nat n div ?b = 0 \<longleftrightarrow> \<not> int ?b \<le> n" using pos by (auto simp: div_eq_0_iff)
  have k: "nat n div ?b * ?b + nat n mod ?b = nat n" by (rule div_mult_mod_eq)
  then have inside: "nat n div ?b * ?b \<le> length bytes" using assms(3) by linarith
  have on: "appendAudio allocated (Some bytes) n (obj w) =
      (if isPlaying (obj w) \<and> engine_running (obj w) \<and> player_playing (obj w) \<and> allocated \<and> int ?b \<le> n
       then [Schedule_buffer (take (nat n div ?b * ?b) bytes)] else [])"
    using frames pos by (auto simp: appendAudio_def assms(2) Let_def)
  have "\<exists>k rest. Schedule_buffer (take (nat n div ?b * ?b) bytes) = Schedule_buffer (take k bytes) \<and>
      nat n = k + rest \<and> 2 * channelCount f dvd k \<and> rest < 2 * channelCount f \<and> length (take k bytes) = k"
    by (rule exI[of _ "nat n div ?b * ?b"], rule exI[of _ "nat n mod ?b"])
      (use k inside pos in \<open>simp add: mult.commute[of 2]\<close>)
  then show ?thesis by (simp add: on mult.commute)
qed

theorem audio_whole_frames_witness:
  "appendAudio True (Some [1, 2, 3, 4, 5, 6]) 6 (obj sample_audio) \<noteq> []"
  using audio_whole_frames[OF sample_audio_reach sample_audio_playing(5), of 6 "[1, 2, 3, 4, 5, 6]" True]
    sample_audio_playing by simp

section \<open>Recovery\<close>

text \<open>The blocks on the context run, the planned recovery's timer fires, and its block runs.\<close>

definition audio_settle :: "audio_world \<Rightarrow> audio_world" where
  "audio_settle w = drain run_audio (timer_fires (drain run_audio w))"

text \<open>Playback is wanted and possible, and an engine that runs plays.\<close>

definition playable :: "audio_format option \<Rightarrow> cs_audio \<Rightarrow> bool" where
  "playable f s \<longleftrightarrow> wantsPlayback s \<and> audio_format s = f \<and> f \<noteq> None \<and> host_output s \<and>
     (engine_running s \<longrightarrow> isPlaying s \<and> player_playing s \<and> connection_format s = f)"

lemma playable_run: "playable f s \<Longrightarrow> playable f (fst (run_audio b s))"
  by (cases b) (auto simp: playable_def scheduleEngineRecoveryAfter_def startEngine_def Let_def)

interpretation audio: context_client run_audio "\<lambda>_. True" "playable f" for f
  by unfold_locales (rule playable_run)

lemma audio_inv_drain: "audio_inv w \<Longrightarrow> audio_inv (drain run_audio w)"
proof -
  assume "audio_inv w"
  then have "audio_inv ((dispatch run_audio ^^ n) w)" for n
    by (induction n) (simp_all add: audio_inv_dispatch)
  then show ?thesis using dispatch_iterate_drain[of w run_audio] by metis
qed

lemma playable_drain: "playable f (obj w) \<Longrightarrow> playable f (obj (drain run_audio w))"
  using audio.drain_ok[of f w] by (simp add: audio.world_ok_def list_all_iff)

lemma settled_plays:
  assumes "audio_inv w" "playable f (obj w)"
  shows "let s = obj (audio_settle w)
    in isPlaying s \<and> engine_running s \<and> player_playing s \<and> connection_format s = f"
proof -
  let ?w = "drain run_audio w"
  have inv: "audio_inv ?w" "playable f (obj ?w)" "posted ?w = []"
    using assms audio_inv_drain playable_drain audio.drain_posted by blast+
  let ?s = "obj (audio_settle w)"
  have p: "playable f (obj (timer_fires ?w))" using inv(2) by (simp add: timer_fires_def playable_def)
  then have "playable f ?s" by (simp add: audio_settle_def playable_drain)
  moreover have "engine_running ?s"
  proof (cases "engine_running (obj ?w)")
    case True
    have keeps: "playable f s \<Longrightarrow> engine_running s \<Longrightarrow> engine_running (fst (run_audio b s))" for b s
      by (cases b) auto
    have "playable f (obj v) \<Longrightarrow> engine_running (obj v) \<Longrightarrow>
        engine_running (obj (fold (run_now run_audio) bs v))" for bs v
      by (induction bs arbitrary: v) (simp_all add: keeps playable_run)
    moreover have "engine_running (obj (timer_fires ?w))" using True by (simp add: timer_fires_def)
    ultimately show ?thesis using p by (simp add: audio_settle_def drain_def)
  next
    case False
    then have "needs_recovery (obj ?w)" using inv(2) by (auto simp: needs_recovery_def playable_def)
    then have "timers (obj ?w) = 1" using inv by (auto simp: audio_inv_def recoveries_def)
    then have "audio_settle w = run_now run_audio Recovery_block
        (?w\<lparr>obj := (obj ?w)\<lparr>timers := 0\<rparr>, posted := []\<rparr>)"
      using inv(3) by (simp add: audio_settle_def timer_fires_def drain_def)
    then show ?thesis using inv(2) False by (auto simp: playable_def startEngine_def Let_def)
  qed
  ultimately show ?thesis by (simp add: playable_def Let_def)
qed

text \<open>
  C11. An engine the host stopped is started again: in every state in which playback is wanted, the engine does
  not run and the host's output is there, running what is posted and the planned timer leaves the
  engine and the player running in the current format.
\<close>

theorem audio_recovers:
  assumes "audio_reach accepts single w" "wantsPlayback (obj w)" "audio_format (obj w) = Some f"
    and "\<not> engine_running (obj w)" "host_output (obj w)"
  shows "isPlaying (obj (audio_settle w)) \<and> engine_running (obj (audio_settle w)) \<and>
    player_playing (obj (audio_settle w)) \<and> connection_format (obj (audio_settle w)) = Some f"
  using settled_plays[OF audio_reach_inv[OF assms(1)], of "Some f"] assms
  by (simp add: playable_def Let_def)

theorem audio_recovers_witness:
  "isPlaying (obj (audio_settle (configuration_changed False sample_audio)))"
  using audio_recovers[OF audio_reach.configuration[OF sample_audio_reach, of False],
      of "\<lparr>sampleRate = 48000, channelCount = 2\<rparr>"]
    sample_audio_playing sample_audio_wanted by (simp add: configuration_changed_def)

text \<open>
  A start in a format the host does not support stops the playback but forgets to withdraw the wish for
  it: the next change of the host's configuration starts the engine again in the format before, and
  the guest's data, which is in another format, is played as if it were in that one.
\<close>

theorem unsupported_start_revived:
  assumes "audio_reach accepts single w" "isPlaying (obj w)" "host_output (obj w)" "fmt \<noteq> 1"
    and w'_def: "w' = on_signal (startWithFormat accepts fmt channels frequency) w"
  shows "\<not> isPlaying (obj w') \<and>
    isPlaying (obj (audio_settle (configuration_changed p w'))) \<and>
    connection_format (obj (audio_settle (configuration_changed p w'))) = audio_format (obj w)"
proof -
  have s: "obj w' = (obj w)\<lparr>isPlaying := False\<rparr>"
    using assms(4) by (simp add: w'_def on_signal_def startWithFormat_def)
  have "wantsPlayback (obj w)" "audio_format (obj w) \<noteq> None"
    using audio_reach_inv[OF assms(1)] assms(2) by (simp_all add: audio_inv_def playing_ok_def)
  then have "playable (audio_format (obj w)) (obj (configuration_changed p w'))"
    using s assms(3) by (simp add: playable_def configuration_changed_def)
  moreover have "audio_reach accepts single (configuration_changed p w')"
    unfolding w'_def by (intro audio_reach.configuration audio_reach.start assms(1))
  ultimately show ?thesis
    using settled_plays[OF audio_reach_inv] s by (simp add: Let_def)
qed

theorem unsupported_start_revived_witness:
  "isPlaying (obj (audio_settle (configuration_changed False
     (on_signal (startWithFormat (\<lambda>f c. c \<le> 2) 2 2 48000) sample_audio))))"
  using unsupported_start_revived[OF sample_audio_reach sample_audio_playing(1,4) _ refl, of 2] by simp

end
