(* ===== verification/Usb.thy ===== *)
theory Usb
  imports Main_Context "HOL-Library.Multiset"
begin

text \<open>
  \<^verbatim>\<open>CSUSBDevice.m\<close> and \<^verbatim>\<open>CSUSBManager.m\<close>: the wrapper of a USB device with the names it reads once, its
  equality, and the manager that posts connect and disconnect requests to the SPICE context and
  answers their completions. What libusb and the device manager of the SPICE library answer is a parameter.
\<close>

section \<open>Devices\<close>

text \<open>
  A device as libusb shows it: its descriptor (\<open>None\<close> when it cannot be read) with the indices of its
  three strings, whether it can be opened, the bytes a string descriptor writes into the caller's
  buffer, and where it is plugged in.
\<close>

record usb_descriptor =
  idVendor :: guint16
  idProduct :: guint16
  iManufacturer :: guint8
  iProduct :: guint8
  iSerialNumber :: guint8

record libusb_device =
  get_device_descriptor :: "usb_descriptor option"
  opens :: bool
  string_descriptor_ascii :: "guint8 \<Rightarrow> guint8 list"
  bus_number :: guint8
  port_number :: guint8

record cs_usb_device =
  usb_device :: objref
  hasReadDescriptors :: bool
  manufacturerName :: "guint8 list option"
  productName :: "guint8 list option"
  serialName :: "guint8 list option"
  vendorId :: int
  productId :: int

definition usbDeviceWithDevice :: "objref \<Rightarrow> cs_usb_device" where
  "usbDeviceWithDevice device =
     \<lparr>usb_device = device, hasReadDescriptors = False, manufacturerName = None, productName = None,
      serialName = None, vendorId = 0, productId = 0\<rparr>"

text \<open>
  One string: the buffer's first byte is cleared, the library writes from its start, and a string that
  is not empty replaces the name. The 64-byte buffer is used again for the next one.
\<close>

definition name_size :: nat where "name_size = 64"

definition write_name :: "guint8 list \<Rightarrow> guint8 list \<Rightarrow> guint8 list" where
  "write_name written buf = take name_size (written @ drop (length written) (list_update buf 0 0))"

definition read_name :: "guint8 list \<Rightarrow> guint8 list option \<Rightarrow> guint8 list option" where
  "read_name buf old = (if buf ! 0 \<noteq> 0 then Some (takeWhile (\<lambda>c. c \<noteq> 0) buf) else old)"

definition readDescriptors :: "libusb_device \<Rightarrow> cs_usb_device \<Rightarrow> cs_usb_device" where
  "readDescriptors dev self =
     (case get_device_descriptor dev of
        None \<Rightarrow> self
      | Some ddesc \<Rightarrow>
          let self = self\<lparr>vendorId := uint (idVendor ddesc), productId := uint (idProduct ddesc),
                          hasReadDescriptors := True\<rparr>
          in if \<not> opens dev then self
             else
               let name1 = write_name (string_descriptor_ascii dev (iProduct ddesc)) (replicate name_size 0);
                   name2 = write_name (string_descriptor_ascii dev (iManufacturer ddesc)) name1;
                   name3 = write_name (string_descriptor_ascii dev (iSerialNumber ddesc)) name2
               in self\<lparr>productName := read_name name1 (productName self),
                       manufacturerName := read_name name2 (manufacturerName self),
                       serialName := read_name name3 (serialName self)\<rparr>)"

text \<open>Every getter reads the descriptors first, unless they have been read.\<close>

definition usb_getter :: "(cs_usb_device \<Rightarrow> 'a) \<Rightarrow> libusb_device \<Rightarrow> cs_usb_device \<Rightarrow> 'a \<times> cs_usb_device" where
  "usb_getter field dev self =
     (let self = (if \<not> hasReadDescriptors self then readDescriptors dev self else self) in (field self, self))"

definition usbManufacturerName :: "libusb_device \<Rightarrow> cs_usb_device \<Rightarrow> guint8 list option \<times> cs_usb_device" where
  "usbManufacturerName = usb_getter manufacturerName"

definition usbProductName :: "libusb_device \<Rightarrow> cs_usb_device \<Rightarrow> guint8 list option \<times> cs_usb_device" where
  "usbProductName = usb_getter productName"

definition usbSerial :: "libusb_device \<Rightarrow> cs_usb_device \<Rightarrow> guint8 list option \<times> cs_usb_device" where
  "usbSerial = usb_getter serialName"

definition usbVendorId :: "libusb_device \<Rightarrow> cs_usb_device \<Rightarrow> int \<times> cs_usb_device" where
  "usbVendorId = usb_getter vendorId"

definition usbProductId :: "libusb_device \<Rightarrow> cs_usb_device \<Rightarrow> int \<times> cs_usb_device" where
  "usbProductId = usb_getter productId"

definition usbBusNumber :: "libusb_device \<Rightarrow> int" where "usbBusNumber dev = uint (bus_number dev)"

definition usbPortNumber :: "libusb_device \<Rightarrow> int" where "usbPortNumber dev = uint (port_number dev)"

text \<open>\<open>isEqualToString:\<close> sent to \<open>nil\<close> is \<open>NO\<close>, whatever its argument.\<close>

definition isEqualToString :: "guint8 list option \<Rightarrow> guint8 list option \<Rightarrow> bool" where
  "isEqualToString a b \<longleftrightarrow> a \<noteq> None \<and> a = b"

text \<open>The comparison stops at the first difference; the getters it has called leave their effect.\<close>

definition both_equal ::
  "('a \<Rightarrow> 'a \<Rightarrow> bool) \<Rightarrow> (libusb_device \<Rightarrow> cs_usb_device \<Rightarrow> 'a \<times> cs_usb_device) \<Rightarrow> libusb_device \<Rightarrow>
     libusb_device \<Rightarrow> (cs_usb_device \<times> cs_usb_device \<Rightarrow> bool \<times> cs_usb_device \<times> cs_usb_device) \<Rightarrow>
     cs_usb_device \<times> cs_usb_device \<Rightarrow> bool \<times> cs_usb_device \<times> cs_usb_device" where
  "both_equal eq getter d1 d2 rest ss =
     (let (a, s1) = getter d1 (fst ss); (b, s2) = getter d2 (snd ss)
      in if eq a b then rest (s1, s2) else (False, s1, s2))"

definition isEqualToUSBDevice ::
  "libusb_device \<Rightarrow> libusb_device \<Rightarrow> cs_usb_device \<times> cs_usb_device \<Rightarrow> bool \<times> cs_usb_device \<times> cs_usb_device" where
  "isEqualToUSBDevice d1 d2 ss =
     (if usbBusNumber d1 = usbBusNumber d2 \<and> usbPortNumber d1 = usbPortNumber d2
      then both_equal (=) usbVendorId d1 d2
             (both_equal (=) usbProductId d1 d2
               (both_equal isEqualToString usbManufacturerName d1 d2
                 (both_equal isEqualToString usbProductName d1 d2
                   (both_equal isEqualToString usbSerial d1 d2 (\<lambda>ss. (True, ss)))))) ss
      else (False, ss))"

section \<open>Requests to the manager\<close>

datatype usbManagerCall = kUsbManagerCallConnect | kUsbManagerCallDisconnect

text \<open>
  What is posted to the context: a request, which carries the bare pointer to the device and the
  completion it owns, and the block a wrapper's \<open>dealloc\<close> waits for.
\<close>

datatype usb_source = Call_manager usbManagerCall objref nat | Free_device objref

text \<open>
  \<open>wrappers\<close> are the devices whose wrapper lives, \<open>natives\<close> those whose reference the wrapper still
  holds, \<open>usb_pending\<close> the operations the library is busy with, \<open>answers\<close> the completions called, with their
  error, \<open>requested\<close> the completions handed in. \<open>dangling\<close> becomes true when a request is carried out
  on a device whose reference is gone.
\<close>

record usb_sys =
  usb_main :: "usb_source cs_main"
  wrappers :: "objref list"
  natives :: "objref list"
  usb_pending :: "(usbManagerCall \<times> objref \<times> nat) list"
  answers :: "(nat \<times> string option) list"
  requested :: "nat list"
  dangling :: bool

text \<open>\<open>cs_call_manager\<close>, and the block of \<open>dealloc\<close>.\<close>

primrec perform_usb :: "usb_source \<Rightarrow> usb_sys \<Rightarrow> usb_sys" where
  "perform_usb (Call_manager call device callback) s =
     s\<lparr>usb_pending := usb_pending s @ [(call, device, callback)],
       dangling := (dangling s \<or> device \<notin> set (natives s))\<rparr>"
| "perform_usb (Free_device device) s = s\<lparr>natives := removeAll device (natives s)\<rparr>"

lemma perform_usb_main [simp]: "usb_main (perform_usb b s) = usb_main s"
  by (cases b) simp_all

definition post_usb :: "bool \<Rightarrow> usb_source source \<Rightarrow> usb_sys \<Rightarrow> usb_sys" where
  "post_usb on_context src s =
     (let s = s\<lparr>usb_main := invoke_full on_context src (usb_main s)\<rparr>
      in if on_context then perform_usb (src_block src) s else s)"

definition spiceUsbManagerCall :: "bool \<Rightarrow> usbManagerCall \<Rightarrow> objref \<Rightarrow> nat \<Rightarrow> usb_sys \<Rightarrow> usb_sys" where
  "spiceUsbManagerCall on_context call device completion s =
     post_usb on_context (Source G_PRIORITY_HIGH (Call_manager call device completion) None)
       (s\<lparr>requested := requested s @ [completion]\<rparr>)"

definition connectUsbDevice :: "bool \<Rightarrow> objref \<Rightarrow> nat \<Rightarrow> usb_sys \<Rightarrow> usb_sys" where
  "connectUsbDevice on_context = spiceUsbManagerCall on_context kUsbManagerCallConnect"

definition disconnectUsbDevice :: "bool \<Rightarrow> objref \<Rightarrow> nat \<Rightarrow> usb_sys \<Rightarrow> usb_sys" where
  "disconnectUsbDevice on_context = spiceUsbManagerCall on_context kUsbManagerCallDisconnect"

text \<open>\<open>initWithDevice:\<close> copies the reference; \<open>dealloc\<close> gives it back on the context with \<open>syncWith:\<close>.\<close>

definition wrap_device :: "objref \<Rightarrow> usb_sys \<Rightarrow> usb_sys" where
  "wrap_device device s = s\<lparr>wrappers := device # wrappers s, natives := device # natives s\<rparr>"

definition device_dealloc :: "bool \<Rightarrow> nat \<Rightarrow> objref \<Rightarrow> usb_sys \<Rightarrow> usb_sys" where
  "device_dealloc on_context g device s =
     post_usb on_context (Source G_PRIORITY_DEFAULT (Free_device device) (Some g))
       (s\<lparr>wrappers := removeAll device (wrappers s)\<rparr>)"

definition usb_dispatch :: "usb_sys \<Rightarrow> usb_sys" where
  "usb_dispatch s =
     (if running (usb_main s) \<and> \<not> loop_quit (usb_main s)
      then (case sources (usb_main s) of
              [] \<Rightarrow> s
            | src # _ \<Rightarrow> perform_usb (src_block src) (s\<lparr>usb_main := loop_dispatch (usb_main s)\<rparr>))
      else s)"

text \<open>\<open>cs_connect_cb\<close> and \<open>cs_disconnect_cb\<close>: the finish function's error goes to the completion.\<close>

definition cs_usb_finished :: "nat \<Rightarrow> string option \<Rightarrow> usb_sys \<Rightarrow> usb_sys" where
  "cs_usb_finished i err s =
     (if i < length (usb_pending s)
      then s\<lparr>answers := answers s @ [(snd (snd (usb_pending s ! i)), err)],
             usb_pending := take i (usb_pending s) @ drop (Suc i) (usb_pending s)\<rparr>
      else s)"

section \<open>Signals and properties\<close>

datatype usb_event =
    Device_error objref string
  | Device_attached objref
  | Device_removed objref

text \<open>An operation that was cancelled is not reported.\<close>

definition cs_device_error :: "bool \<Rightarrow> bool \<Rightarrow> string \<Rightarrow> objref \<Rightarrow> usb_event list" where
  "cs_device_error has_delegate cancelled message device =
     (if cancelled then [] else if has_delegate then [Device_error device message] else [])"

definition cs_device_added :: "bool \<Rightarrow> objref \<Rightarrow> usb_event list" where
  "cs_device_added has_delegate device = (if has_delegate then [Device_attached device] else [])"

definition cs_device_removed :: "bool \<Rightarrow> objref \<Rightarrow> usb_event list" where
  "cs_device_removed has_delegate device = (if has_delegate then [Device_removed device] else [])"

definition usbDevices :: "objref list option \<Rightarrow> cs_usb_device list" where
  "usbDevices arr = (case arr of None \<Rightarrow> [] | Some ds \<Rightarrow> map usbDeviceWithDevice ds)"

text \<open>The answer and, when the caller asked for it and there is one, the error message.\<close>

definition canRedirectUsbDevice ::
  "bool \<Rightarrow> bool \<times> string option \<Rightarrow> string option \<Rightarrow> bool \<times> string option" where
  "canRedirectUsbDevice wants_message answer message =
     (fst answer, if wants_message \<and> snd answer \<noteq> None then snd answer else message)"

section \<open>Names\<close>

text \<open>What libusb documents of a string descriptor: nothing is written, or a string that ends inside the buffer.\<close>

definition terminated :: "guint8 list \<Rightarrow> bool" where
  "terminated written \<longleftrightarrow> written = [] \<or> 0 \<in> set written \<and> length written \<le> name_size"

definition name_in :: "guint8 list \<Rightarrow> guint8 list option" where
  "name_in written =
     (if takeWhile (\<lambda>c. c \<noteq> 0) written = [] then None else Some (takeWhile (\<lambda>c. c \<noteq> 0) written))"

lemma length_write_name: "length buf = name_size \<Longrightarrow> length (write_name written buf) = name_size"
  by (simp add: write_name_def)

lemma read_name_written:
  assumes "terminated written" "length buf = name_size"
  shows "read_name (write_name written buf) None = name_in written"
proof (cases written)
  case Nil
  then show ?thesis using assms(2)
    by (cases buf) (simp_all add: write_name_def read_name_def name_in_def name_size_def)
next
  case (Cons c cs)
  then have z: "0 \<in> set written" and l: "length written \<le> name_size"
    using assms(1) by (simp_all add: terminated_def)
  have "write_name written buf = written @ take (name_size - length written) (drop (length written) (buf[0 := 0]))"
    using l by (simp add: write_name_def)
  then show ?thesis using z Cons by (auto simp: read_name_def name_in_def takeWhile_append)
qed

definition usb_known :: "libusb_device \<Rightarrow> cs_usb_device \<Rightarrow> cs_usb_device" where
  "usb_known dev self = (if hasReadDescriptors self then self else readDescriptors dev self)"

lemma usb_getter_known: "usb_getter field dev self = (field (usb_known dev self), usb_known dev self)"
  by (simp add: usb_getter_def usb_known_def Let_def)

lemma usb_known_read [simp]: "hasReadDescriptors self \<Longrightarrow> usb_known dev self = self"
  by (simp add: usb_known_def)

lemma usb_known_again: "usb_known dev (usb_known dev self) = usb_known dev self"
  by (auto simp: usb_known_def readDescriptors_def Let_def split: option.split)

lemmas usb_getters = usbManufacturerName_def usbProductName_def usbSerial_def usbVendorId_def
  usbProductId_def usb_getter_known

text \<open>
  The names of a device are read once and from its own strings: when libusb ends the strings it writes, a
  getter of a new wrapper gives each name exactly as its string descriptor has it, \<open>nil\<close> for an empty
  one, although the three share a buffer; and after the first successful read no getter asks the
  device again, whatever it would answer by then.
\<close>

theorem usb_names_read_once:
  assumes "get_device_descriptor dev = Some dd" "opens dev"
    and "\<forall>i. terminated (string_descriptor_ascii dev i)"
  shows "fst (usbProductName dev (usbDeviceWithDevice d)) = name_in (string_descriptor_ascii dev (iProduct dd)) \<and>
    fst (usbManufacturerName dev (usbDeviceWithDevice d)) =
      name_in (string_descriptor_ascii dev (iManufacturer dd)) \<and>
    fst (usbSerial dev (usbDeviceWithDevice d)) = name_in (string_descriptor_ascii dev (iSerialNumber dd)) \<and>
    fst (usbVendorId dev (usbDeviceWithDevice d)) = uint (idVendor dd) \<and>
    (\<forall>later. let s = snd (usbSerial dev (usbDeviceWithDevice d))
       in usbProductName later s = (productName s, s) \<and> usbManufacturerName later s = (manufacturerName s, s) \<and>
          usbSerial later s = (serialName s, s) \<and> usbVendorId later s = (vendorId s, s) \<and>
          usbProductId later s = (productId s, s))"
  using assms by (simp add: usb_getters usb_known_def usbDeviceWithDevice_def readDescriptors_def Let_def
      read_name_written length_write_name)

definition sample_usb :: libusb_device where
  "sample_usb = \<lparr>get_device_descriptor = Some \<lparr>idVendor = 0x46d, idProduct = 0xc52b, iManufacturer = 1,
       iProduct = 2, iSerialNumber = 0\<rparr>, opens = True,
     string_descriptor_ascii = (\<lambda>i. if i = 2 then [0x4d, 0x6f, 0x75, 0x73, 0x65, 0] else if i = 1 then [0x4c, 0] else []),
     bus_number = 1, port_number = 4\<rparr>"

theorem usb_names_read_once_witness:
  "fst (usbSerial sample_usb (usbDeviceWithDevice d0)) = None \<and>
   fst (usbManufacturerName sample_usb (usbDeviceWithDevice d0)) = Some [0x4c]"
proof -
  have "get_device_descriptor sample_usb = Some \<lparr>idVendor = 0x46d, idProduct = 0xc52b, iManufacturer = 1,
       iProduct = 2, iSerialNumber = 0\<rparr>" "opens sample_usb"
    "\<forall>i. terminated (string_descriptor_ascii sample_usb i)"
    by (simp_all add: sample_usb_def terminated_def name_size_def)
  from usb_names_read_once[OF this, of d0] show ?thesis by (simp add: name_in_def sample_usb_def)
qed

section \<open>Equality\<close>

lemma same_place:
  "usbBusNumber d1 = usbBusNumber d2 \<longleftrightarrow> bus_number d1 = bus_number d2"
  "usbPortNumber d1 = usbPortNumber d2 \<longleftrightarrow> port_number d1 = port_number d2"
  by (simp_all add: usbBusNumber_def usbPortNumber_def word_uint_eq_iff)



section \<open>Requests and references\<close>

text \<open>
  What threads, the context and the library do in any order. \<open>on_context_free\<close> says whether a wrapper may be
  released on the context thread, where \<open>syncWith:\<close> runs its block at once.
\<close>

inductive usb_reach :: "bool \<Rightarrow> usb_sys \<Rightarrow> bool" for on_context_free where
  init: "cs_main_ok m \<Longrightarrow> sources m = [] \<Longrightarrow>
    usb_reach on_context_free \<lparr>usb_main = m, wrappers = [], natives = [], usb_pending = [], answers = [],
      requested = [], dangling = False\<rparr>"
| wrap: "usb_reach on_context_free s \<Longrightarrow> d \<notin> set (natives s) \<Longrightarrow>
    Free_device d \<notin> src_block ` set (sources (usb_main s)) \<Longrightarrow> usb_reach on_context_free (wrap_device d s)"
| request: "usb_reach on_context_free s \<Longrightarrow> d \<in> set (wrappers s) \<Longrightarrow>
    usb_reach on_context_free (spiceUsbManagerCall on_context call d completion s)"
| dealloc: "usb_reach on_context_free s \<Longrightarrow> d \<in> set (wrappers s) \<Longrightarrow> on_context \<longrightarrow> on_context_free \<Longrightarrow>
    usb_reach on_context_free (device_dealloc on_context g d s)"
| dispatch: "usb_reach on_context_free s \<Longrightarrow> usb_reach on_context_free (usb_dispatch s)"
| finished: "usb_reach on_context_free s \<Longrightarrow> usb_reach on_context_free (cs_usb_finished i err s)"

primrec completion_of :: "usb_source \<Rightarrow> nat list" where
  "completion_of (Call_manager call d completion) = [completion]"
| "completion_of (Free_device d) = []"

definition posted_completions :: "usb_sys \<Rightarrow> nat multiset" where
  "posted_completions s = (\<Sum>src \<in># mset (sources (usb_main s)). mset (completion_of (src_block src)))"

definition busy_completions :: "usb_sys \<Rightarrow> nat multiset" where
  "busy_completions s = mset (map (snd \<circ> snd) (usb_pending s))"

definition completions_kept :: "usb_sys \<Rightarrow> bool" where
  "completions_kept s \<longleftrightarrow>
     mset (requested s) = posted_completions s + busy_completions s + mset (map fst (answers s))"

lemma mset_attach: "mset (attach src ss) = add_mset src (mset ss)"
  by (induction ss) auto

lemma kept_post:
  assumes "mset (requested s) + mset (completion_of (src_block src)) = mset (requested s')"
    and "completions_kept s" "usb_main s' = usb_main s" "usb_pending s' = usb_pending s" "answers s' = answers s"
  shows "completions_kept (post_usb on_context src s')"
  using assms by (cases "src_block src"; cases on_context)
    (auto simp: completions_kept_def posted_completions_def busy_completions_def post_usb_def invoke_full_def
      run_source_def mset_attach Let_def)

lemma kept_dispatch: "completions_kept s \<Longrightarrow> completions_kept (usb_dispatch s)"
proof (cases "sources (usb_main s)")
  case (Cons src ss)
  assume "completions_kept s"
  then show ?thesis using Cons by (cases "src_block src")
    (auto simp: completions_kept_def posted_completions_def busy_completions_def usb_dispatch_def)
qed (simp add: usb_dispatch_def)

lemma kept_finished: "completions_kept s \<Longrightarrow> completions_kept (cs_usb_finished i err s)"
proof (cases "i < length (usb_pending s)")
  case True
  then have "usb_pending s = take i (usb_pending s) @ usb_pending s ! i # drop (Suc i) (usb_pending s)"
    by (rule id_take_nth_drop)
  then have "mset (map (snd \<circ> snd) (usb_pending s)) = mset (map (snd \<circ> snd)
      (take i (usb_pending s) @ usb_pending s ! i # drop (Suc i) (usb_pending s)))" by simp
  moreover assume "completions_kept s"
  ultimately show ?thesis using True
    by (simp add: completions_kept_def posted_completions_def busy_completions_def cs_usb_finished_def)
qed (simp add: cs_usb_finished_def)

lemma usb_reach_kept: "usb_reach ctx s \<Longrightarrow> completions_kept s"
proof (induction rule: usb_reach.induct)
  case (wrap s d)
  then show ?case
    by (simp add: wrap_device_def completions_kept_def posted_completions_def busy_completions_def)
next
  case (request s d on_context call completion)
  then show ?case unfolding spiceUsbManagerCall_def by (intro kept_post) simp_all
next
  case (dealloc s d on_context g)
  then show ?case unfolding device_dealloc_def by (intro kept_post) simp_all
qed (simp_all add: kept_dispatch kept_finished,
     simp add: completions_kept_def posted_completions_def busy_completions_def)

text \<open>Requests stand before the blocks that give references back, and use references that are held.\<close>

definition usb_source_ok :: "objref list \<Rightarrow> objref list \<Rightarrow> usb_source source \<Rightarrow> bool" where
  "usb_source_ok held_refs living src \<longleftrightarrow>
     (case src_block src of
        Call_manager call d completion \<Rightarrow> src_priority src = G_PRIORITY_HIGH \<and> d \<in> set held_refs
      | Free_device d \<Rightarrow> src_priority src = G_PRIORITY_DEFAULT \<and> d \<notin> set living)"

lemma usb_source_ok_cases:
  "src_block src = Call_manager call d c \<Longrightarrow>
     usb_source_ok ns ws src \<longleftrightarrow> src_priority src = G_PRIORITY_HIGH \<and> d \<in> set ns"
  "src_block src = Free_device d \<Longrightarrow>
     usb_source_ok ns ws src \<longleftrightarrow> src_priority src = G_PRIORITY_DEFAULT \<and> d \<notin> set ws"
  by (simp_all add: usb_source_ok_def)

definition usb_refs_ok :: "usb_sys \<Rightarrow> bool" where
  "usb_refs_ok s \<longleftrightarrow> cs_main_ok (usb_main s) \<and> \<not> dangling s \<and> set (wrappers s) \<subseteq> set (natives s) \<and>
     (\<forall>src \<in> set (sources (usb_main s)). usb_source_ok (natives s) (wrappers s) src)"

lemma refs_post:
  assumes "usb_refs_ok s" "\<not> on_context \<or> (\<exists>call d c. src_block src = Call_manager call d c \<and> d \<in> set (natives s))"
    and "usb_source_ok (natives s) (wrappers s) src"
  shows "usb_refs_ok (post_usb on_context src s)"
proof (cases on_context)
  case True
  then obtain call d c where "src_block src = Call_manager call d c" "d \<in> set (natives s)"
    using assms(2) by blast
  moreover have "cs_main_ok (run_source src (usb_main s))" "sources (run_source src (usb_main s)) = sources (usb_main s)"
    using cs_main_ok_invoke[of "usb_main s" True src] assms(1)
    by (simp_all add: usb_refs_ok_def invoke_full_def, simp add: run_source_def)
  ultimately show ?thesis using assms(1) True
    by (simp add: usb_refs_ok_def post_usb_def invoke_full_def Let_def)
next
  case False
  moreover have "cs_main_ok (invoke_full False src (usb_main s))"
    using assms(1) by (intro cs_main_ok_invoke) (simp add: usb_refs_ok_def)
  ultimately show ?thesis using assms(1,3)
    by (simp add: usb_refs_ok_def post_usb_def invoke_full_def Let_def)
qed

lemma refs_dispatch:
  assumes "usb_refs_ok s"
  shows "usb_refs_ok (usb_dispatch s)"
proof (cases "running (usb_main s) \<and> \<not> loop_quit (usb_main s) \<and> sources (usb_main s) \<noteq> []")
  case True
  then obtain src ss where ss: "sources (usb_main s) = src # ss" by (cases "sources (usb_main s)") auto
  let ?m = "loop_dispatch (usb_main s)"
  have ok: "cs_main_ok ?m" "sources ?m = ss" "\<not> dangling s" "set (wrappers s) \<subseteq> set (natives s)"
    "usb_source_ok (natives s) (wrappers s) src" "\<forall>src \<in> set ss. usb_source_ok (natives s) (wrappers s) src"
    using assms ss True by (simp_all add: usb_refs_ok_def cs_main_ok_dispatch)
  have d: "usb_dispatch s = perform_usb (src_block src) (s\<lparr>usb_main := ?m\<rparr>)"
    using True ss by (simp add: usb_dispatch_def)
  show ?thesis
  proof (cases "src_block src")
    case (Call_manager call dev c)
    then have "dev \<in> set (natives s)" using ok(5) by (simp add: usb_source_ok_cases)
    then show ?thesis using ok Call_manager by (simp add: d usb_refs_ok_def)
  next
    case (Free_device dev)
    have "\<forall>t \<in> set ss. src_priority src \<le> src_priority t"
      using assms ss by (simp add: usb_refs_ok_def cs_main_ok_def)
    moreover have "src_priority src = G_PRIORITY_DEFAULT" "dev \<notin> set (wrappers s)"
      using ok(5) Free_device by (simp_all add: usb_source_ok_cases)
    ultimately have "usb_source_ok (removeAll dev (natives s)) (wrappers s) t" if "t \<in> set ss" for t
      using ok(6) that
      by (cases "src_block t")
        (fastforce simp: usb_source_ok_cases G_PRIORITY_HIGH_def G_PRIORITY_DEFAULT_def)+
    then show ?thesis using ok Free_device \<open>dev \<notin> set (wrappers s)\<close> by (auto simp: d usb_refs_ok_def)
  qed
next
  case False
  then show ?thesis using assms by (auto simp: usb_dispatch_def split: list.split)
qed

lemma usb_reach_refs: "usb_reach False s \<Longrightarrow> usb_refs_ok s"
proof (induction rule: usb_reach.induct)
  case (wrap s d)
  have "usb_source_ok (d # natives s) (d # wrappers s) t" if "t \<in> set (sources (usb_main s))" for t
    using wrap that by (cases "src_block t") (force simp: usb_refs_ok_def usb_source_ok_cases)+
  then show ?case using wrap.IH by (auto simp: usb_refs_ok_def wrap_device_def)
next
  case (request s d on_context call completion)
  have "usb_refs_ok (s\<lparr>requested := requested s @ [completion]\<rparr>)"
    using request.IH by (simp add: usb_refs_ok_def)
  moreover have "d \<in> set (natives s)" using request by (auto simp: usb_refs_ok_def)
  ultimately show ?case unfolding spiceUsbManagerCall_def
    by (intro refs_post) (simp_all add: usb_source_ok_def)
next
  case (dealloc s d on_context g)
  have "usb_source_ok (natives s) (removeAll d (wrappers s)) t" if "t \<in> set (sources (usb_main s))" for t
    using dealloc.IH that by (cases "src_block t") (auto simp: usb_refs_ok_def usb_source_ok_cases)
  then have "usb_refs_ok (s\<lparr>wrappers := removeAll d (wrappers s)\<rparr>)"
    using dealloc.IH by (auto simp: usb_refs_ok_def)
  then show ?case unfolding device_dealloc_def using dealloc.hyps
    by (intro refs_post) (simp_all add: usb_source_ok_def)
next
  case (dispatch s)
  then show ?case by (intro refs_dispatch)
next
  case (finished s i err)
  then show ?case by (simp add: usb_refs_ok_def cs_usb_finished_def)
qed (simp add: usb_refs_ok_def)


definition usb_start :: usb_sys where
  "usb_start = \<lparr>usb_main = fst (spiceStart (Some 1) (the (cs_main_init True))), wrappers = [], natives = [],
     usb_pending = [], answers = [], requested = [], dangling = False\<rparr>"

lemma usb_start_reach: "usb_reach p usb_start"
proof -
  have "cs_main_ok (fst (spiceStart (Some 1) (the (cs_main_init True))) :: usb_source cs_main)"
    by (rule cs_main_ok_start, rule cs_main_ok_init) (simp add: cs_main_init_def)
  then show ?thesis unfolding usb_start_def
    by (rule usb_reach.init) (simp add: spiceStart_def cs_main_init_def Let_def)
qed

definition usb_asked :: usb_sys where
  "usb_asked = connectUsbDevice False 5 90 (wrap_device 5 usb_start)"

lemma usb_asked_reach: "usb_reach p usb_asked"
proof -
  have "usb_reach p (wrap_device 5 usb_start)"
    by (intro usb_reach.wrap usb_start_reach) (simp_all add: usb_start_def spiceStart_def cs_main_init_def Let_def)
  then show ?thesis unfolding usb_asked_def connectUsbDevice_def
    by (rule usb_reach.request) (simp add: wrap_device_def)
qed


text \<open>
  Without that condition a request does meet one: a wrapper that is released on the context thread while a
  request for its device is posted gives the reference back first, and the request is then carried
  out with a pointer nobody keeps alive.
\<close>

theorem usb_request_dangles:
  "\<exists>s. usb_reach True s \<and> dangling s"
proof -
  have "5 \<in> set (wrappers usb_asked)"
    by (simp add: usb_asked_def connectUsbDevice_def spiceUsbManagerCall_def post_usb_def wrap_device_def Let_def)
  then have "usb_reach True (usb_dispatch (device_dealloc True 1 5 usb_asked))"
    by (intro usb_reach.dispatch usb_reach.dealloc usb_asked_reach) simp_all
  moreover have "dangling (usb_dispatch (device_dealloc True 1 5 usb_asked))"
    by (simp add: usb_asked_def connectUsbDevice_def spiceUsbManagerCall_def post_usb_def wrap_device_def
        device_dealloc_def usb_dispatch_def invoke_full_def run_source_def usb_start_def spiceStart_def
        cs_main_init_def Let_def)
  ultimately show ?thesis by blast
qed

section \<open>Answers\<close>

lemma usb_dispatch_all:
  "running (usb_main s) \<Longrightarrow> \<not> loop_quit (usb_main s) \<Longrightarrow>
     sources (usb_main ((usb_dispatch ^^ length (sources (usb_main s))) s)) = []"
proof (induction "sources (usb_main s)" arbitrary: s)
  case (Cons src ss)
  have src: "sources (usb_main s) = src # ss" using Cons.hyps(2) by simp
  let ?t = "perform_usb (src_block src) (s\<lparr>usb_main := loop_dispatch (usb_main s)\<rparr>)"
  have t: "usb_dispatch s = ?t" using Cons.prems src by (simp add: usb_dispatch_def)
  have "usb_main ?t = loop_dispatch (usb_main s)" by (cases "src_block src") simp_all
  then have ts: "sources (usb_main ?t) = ss" and "running (usb_main ?t)" "\<not> loop_quit (usb_main ?t)"
    using Cons.prems src by simp_all
  then have "sources (usb_main ((usb_dispatch ^^ length ss) ?t)) = []" using Cons.hyps(1)[of ?t] unfolding ts by simp
  moreover have "(usb_dispatch ^^ length (sources (usb_main s))) s = (usb_dispatch ^^ length ss) ?t"
    using t src by (simp add: funpow_swap1)
  ultimately show ?case by (simp only:)
qed simp

lemma finish_all:
  "length errs = length (usb_pending s) \<Longrightarrow> usb_pending (fold (cs_usb_finished 0) errs s) = [] \<and>
     usb_main (fold (cs_usb_finished 0) errs s) = usb_main s"
  by (induction errs arbitrary: s) (auto simp: cs_usb_finished_def)

lemma kept_iterate: "completions_kept s \<Longrightarrow> completions_kept ((usb_dispatch ^^ n) s)"
  by (induction n) (simp_all add: kept_dispatch)

lemma kept_finish_all: "completions_kept s \<Longrightarrow> completions_kept (fold (cs_usb_finished 0) errs s)"
  by (induction errs arbitrary: s) (simp_all add: kept_finished)

lemma usb_reach_main: "usb_reach p s \<Longrightarrow> cs_main_ok (usb_main s)"
  by (induction rule: usb_reach.induct)
    (auto simp: wrap_device_def spiceUsbManagerCall_def device_dealloc_def post_usb_def cs_usb_finished_def
      usb_dispatch_def Let_def cs_main_ok_invoke cs_main_ok_dispatch split: list.split)

text \<open>
  C22. Every request is answered: when the context has run what is posted and the library has finished each
  operation, with whatever errors, the completions called are exactly the completions handed in.
\<close>

theorem usb_requests_answered:
  assumes "usb_reach p s" "running (usb_main s)"
    and "length errs = length (usb_pending ((usb_dispatch ^^ length (sources (usb_main s))) s))"
  shows "mset (map fst (answers (fold (cs_usb_finished 0) errs
      ((usb_dispatch ^^ length (sources (usb_main s))) s)))) = mset (requested (fold (cs_usb_finished 0) errs
      ((usb_dispatch ^^ length (sources (usb_main s))) s)))"
proof -
  let ?s = "(usb_dispatch ^^ length (sources (usb_main s))) s"
  let ?t = "fold (cs_usb_finished 0) errs ?s"
  have "cs_main_ok (usb_main s)" using assms(1) by (rule usb_reach_main)
  then have "\<not> loop_quit (usb_main s)" using assms(2) by (simp add: cs_main_ok_def)
  then have "sources (usb_main ?s) = []" using usb_dispatch_all assms(2) by blast
  then have "posted_completions ?t = {#}" "busy_completions ?t = {#}"
    using finish_all[OF assms(3)] by (simp_all add: posted_completions_def busy_completions_def)
  moreover have "completions_kept ?t"
    using usb_reach_kept[OF assms(1)] by (intro kept_finish_all kept_iterate)
  ultimately show ?thesis by (simp add: completions_kept_def)
qed

theorem usb_requests_answered_witness:
  "mset (map fst (answers (cs_usb_finished 0 None (usb_dispatch usb_asked)))) = {#90#}"
proof -
  have a: "sources (usb_main usb_asked) = [Source G_PRIORITY_HIGH (Call_manager kUsbManagerCallConnect 5 90) None]"
    "running (usb_main usb_asked)"
    by (simp_all add: usb_asked_def connectUsbDevice_def spiceUsbManagerCall_def post_usb_def wrap_device_def
        invoke_full_def usb_start_def spiceStart_def cs_main_init_def Let_def)
  have "length (usb_pending (usb_dispatch usb_asked)) = 1" "requested (cs_usb_finished 0 None (usb_dispatch usb_asked)) = [90]"
    by (simp_all add: usb_asked_def connectUsbDevice_def spiceUsbManagerCall_def post_usb_def wrap_device_def
        invoke_full_def usb_start_def spiceStart_def cs_main_init_def usb_dispatch_def cs_usb_finished_def Let_def)
  then show ?thesis using usb_requests_answered[OF usb_asked_reach a(2), of "[None]"] by (simp add: a(1))
qed

end
