(* ===== verification/Notify_Queue.thy ===== *)
theory Notify_Queue
  imports Byte_Order
begin

text \<open>
  \<open>gobjectnotifyqueue.c\<close>: the queue of property notifications of a GObject: freezing and thawing it,
  adding and clearing notifications, under the lock all objects share. Shown: the queue implements a
  freeze depth with the set of properties changed since, each is announced once at the last thaw, the
  array it is copied to is large enough, and the one path that leaves the lock taken.
\<close>

section \<open>The queue and the lock\<close>

text \<open>
  A property with its readable flag and the property it redirects to, if it does. An object's queue is
  \<open>None\<close> while it has none in its data list; \<open>notify_lock\<close> is the static lock.
\<close>

datatype pspec = Pspec (pspec_id: nat) (readable: bool) (redirect_target: "pspec option")

record notify_queue =
  nq_pspecs :: "pspec list"
  n_pspecs :: guint16
  freeze_count :: guint16

record notify_object =
  qdata :: "notify_queue option"
  ref_count :: int
  notify_lock :: bool

datatype notify_event =
    Dispatcher "pspec list"
  | Freeze_critical
  | Not_frozen_warning
  | Return_if_fail

text \<open>An operation returns, waits for the lock for ever, or follows a null queue pointer.\<close>

datatype notify_outcome = Done notify_object "notify_event list" | Blocks | Null_queue

definition locked :: "notify_object \<Rightarrow> (notify_object \<Rightarrow> notify_outcome) \<Rightarrow> notify_outcome" where
  "locked ob body = (if notify_lock ob then Blocks else body (ob\<lparr>notify_lock := True\<rparr>))"

definition unlock :: "notify_object \<Rightarrow> notify_object" where
  "unlock ob = ob\<lparr>notify_lock := False\<rparr>"

definition new_notify_queue :: notify_queue where
  "new_notify_queue = \<lparr>nq_pspecs = [], n_pspecs = 0, freeze_count = 0\<rparr>"

section \<open>Operations\<close>

definition g_object_notify_queue_freeze :: "notify_object \<Rightarrow> notify_outcome" where
  "g_object_notify_queue_freeze ob = locked ob (\<lambda>ob.
     let nqueue = (case qdata ob of Some q \<Rightarrow> q | None \<Rightarrow> new_notify_queue)
     in if 65535 \<le> freeze_count nqueue
        then Done (unlock (ob\<lparr>qdata := Some nqueue\<rparr>)) [Freeze_critical]
        else Done (unlock (ob\<lparr>qdata := Some (nqueue\<lparr>freeze_count := freeze_count nqueue + 1\<rparr>)\<rparr>)) [])"

text \<open>\<open>pspecs_capacity\<close> is the number of elements of the array the properties are copied to.\<close>

definition pspecs_capacity :: "notify_queue \<Rightarrow> nat" where
  "pspecs_capacity nqueue = (if 16 < n_pspecs nqueue then unat (n_pspecs nqueue) else 16)"

definition g_object_notify_queue_thaw :: "notify_object \<Rightarrow> notify_outcome" where
  "g_object_notify_queue_thaw ob =
     (case qdata ob of
        None \<Rightarrow> Null_queue
      | Some nqueue \<Rightarrow>
          if \<not> 0 < freeze_count nqueue \<or> \<not> 0 < ref_count ob then Done ob [Return_if_fail]
          else locked ob (\<lambda>ob.
            if freeze_count nqueue = 0 then Done (unlock ob) [Not_frozen_warning]
            else
              let nqueue = nqueue\<lparr>freeze_count := freeze_count nqueue - 1\<rparr>
              in if freeze_count nqueue \<noteq> 0 then Done (unlock (ob\<lparr>qdata := Some nqueue\<rparr>)) []
                 else Done (unlock (ob\<lparr>qdata := None\<rparr>))
                        (if nq_pspecs nqueue \<noteq> [] then [Dispatcher (nq_pspecs nqueue)] else [])))"

definition g_object_notify_queue_clear :: "notify_object \<Rightarrow> notify_outcome" where
  "g_object_notify_queue_clear ob =
     (case qdata ob of
        None \<Rightarrow> Null_queue
      | Some nqueue \<Rightarrow>
          if \<not> 0 < freeze_count nqueue then Done ob [Return_if_fail]
          else locked ob (\<lambda>ob. Done (unlock (ob\<lparr>qdata := Some (nqueue\<lparr>nq_pspecs := [], n_pspecs := 0\<rparr>)\<rparr>)) []))"

definition redirected :: "pspec \<Rightarrow> pspec" where
  "redirected p = (case redirect_target p of Some q \<Rightarrow> q | None \<Rightarrow> p)"

text \<open>The early return of a full queue stands between taking the lock and releasing it.\<close>

definition g_object_notify_queue_add :: "pspec \<Rightarrow> notify_object \<Rightarrow> notify_outcome" where
  "g_object_notify_queue_add p ob =
     (if readable p
      then (case qdata ob of
          None \<Rightarrow> Null_queue
        | Some nqueue \<Rightarrow> locked ob (\<lambda>ob.
            if \<not> n_pspecs nqueue < 65535 then Done ob [Return_if_fail]
            else
              let q = redirected p
              in if q \<notin> set (nq_pspecs nqueue)
                 then Done (unlock (ob\<lparr>qdata := Some (nqueue\<lparr>nq_pspecs := q # nq_pspecs nqueue,
                        n_pspecs := n_pspecs nqueue + 1\<rparr>)\<rparr>)) []
                 else Done (unlock ob) []))
      else Done ob [])"

definition g_object_notify_queue_from_object :: "notify_object \<Rightarrow> notify_queue option" where
  "g_object_notify_queue_from_object ob = qdata ob"

datatype notify_op = Freeze | Thaw | Clear | Add pspec

primrec notify_step :: "notify_op \<Rightarrow> notify_object \<Rightarrow> notify_outcome" where
  "notify_step Freeze = g_object_notify_queue_freeze"
| "notify_step Thaw = g_object_notify_queue_thaw"
| "notify_step Clear = g_object_notify_queue_clear"
| "notify_step (Add p) = g_object_notify_queue_add p"

fun notify_run :: "notify_op list \<Rightarrow> notify_object \<Rightarrow> notify_outcome" where
  "notify_run [] ob = Done ob []"
| "notify_run (op # ops) ob =
     (case notify_step op ob of
        Done ob es \<Rightarrow> (case notify_run ops ob of Done ob es' \<Rightarrow> Done ob (es @ es') | r \<Rightarrow> r)
      | r \<Rightarrow> r)"

section \<open>What it promises\<close>

text \<open>
  The promise: a freeze depth and the properties changed since the first freeze, the latest first; they are
  announced by the last thaw. \<open>None\<close> is a use without a queue.
\<close>

type_synonym notify_spec = "nat \<times> pspec list"

fun spec_step :: "notify_op \<Rightarrow> notify_spec \<Rightarrow> (notify_spec \<times> notify_event list) option" where
  "spec_step Freeze (d, ps) = Some ((d + 1, ps), [])"
| "spec_step Thaw (d, ps) =
     (if d = 0 then None
      else if d = 1 then Some ((0, []), if ps = [] then [] else [Dispatcher ps])
      else Some ((d - 1, ps), []))"
| "spec_step Clear (d, ps) = (if d = 0 then None else Some ((d, []), []))"
| "spec_step (Add p) (d, ps) =
     (if \<not> readable p then Some ((d, ps), [])
      else if d = 0 then None
      else Some ((d, if redirected p \<in> set ps then ps else redirected p # ps), []))"

definition notify_abs :: "notify_object \<Rightarrow> notify_spec" where
  "notify_abs ob = (case qdata ob of None \<Rightarrow> (0, []) | Some q \<Rightarrow> (unat (freeze_count q), nq_pspecs q))"

definition notify_inv :: "notify_object \<Rightarrow> bool" where
  "notify_inv ob \<longleftrightarrow> \<not> notify_lock ob \<and> 0 < ref_count ob \<and>
     (case qdata ob of None \<Rightarrow> True
      | Some q \<Rightarrow> 0 < freeze_count q \<and> distinct (nq_pspecs q) \<and> unat (n_pspecs q) = length (nq_pspecs q))"

text \<open>The limits of the two 16-bit counters.\<close>

definition notify_room :: "notify_op \<Rightarrow> notify_spec \<Rightarrow> bool" where
  "notify_room op s \<longleftrightarrow> (op = Freeze \<longrightarrow> fst s < 65535) \<and> ((\<exists>p. op = Add p) \<longrightarrow> length (snd s) < 65535)"

lemma unat_less16: "unat (w :: guint16) < n \<longleftrightarrow> w < of_nat n" if "n < 65536" for n
  using that by (simp add: word_less_nat_alt unat_of_nat)

lemma step_freeze:
  assumes "notify_inv ob" "notify_room Freeze (notify_abs ob)"
  shows "\<exists>ob' es. notify_step Freeze ob = Done ob' es \<and> notify_inv ob' \<and>
    spec_step Freeze (notify_abs ob) = Some (notify_abs ob', es)"
proof -
  let ?q = "case qdata ob of Some q \<Rightarrow> q | None \<Rightarrow> new_notify_queue"
  have abs: "notify_abs ob = (unat (freeze_count ?q), nq_pspecs ?q)"
    by (simp add: notify_abs_def new_notify_queue_def split: option.split)
  then have "unat (freeze_count ?q) < 65535" using assms(2) by (simp add: notify_room_def)
  then have c: "\<not> 65535 \<le> freeze_count ?q" "unat (freeze_count ?q + 1) = unat (freeze_count ?q) + 1"
    by (simp_all add: word_le_nat_alt unat_word_ariths)
  then have "0 < freeze_count ?q + 1" by (simp add: word_less_nat_alt)
  moreover have "distinct (nq_pspecs ?q) \<and> unat (n_pspecs ?q) = length (nq_pspecs ?q)"
    using assms(1) by (simp add: notify_inv_def new_notify_queue_def split: option.split_asm)
  ultimately show ?thesis using assms(1) c
    by (simp add: abs g_object_notify_queue_freeze_def locked_def unlock_def Let_def notify_inv_def)
      (simp add: notify_abs_def)
qed

lemma step_thaw:
  assumes "notify_inv ob" "spec_step Thaw (notify_abs ob) \<noteq> None"
  shows "\<exists>ob' es. notify_step Thaw ob = Done ob' es \<and> notify_inv ob' \<and>
    spec_step Thaw (notify_abs ob) = Some (notify_abs ob', es)"
proof -
  obtain q where q: "qdata ob = Some q"
    using assms(2) by (cases "qdata ob") (simp_all add: notify_abs_def)
  then have pos: "0 < freeze_count q" using assms(1) by (simp add: notify_inv_def)
  then have m: "unat (freeze_count q - 1) = unat (freeze_count q) - 1"
    by (simp add: unat_minus_one word_gt_0)
  have "freeze_count q - 1 = 0 \<longleftrightarrow> unat (freeze_count q) = 1" by (simp add: word_unat_eq_iff[of _ 1])
  moreover have "freeze_count q - 1 \<noteq> 0 \<Longrightarrow> 0 < freeze_count q - 1" by (simp add: word_gt_0)
  ultimately show ?thesis using assms(1) q pos m
    by (auto simp: g_object_notify_queue_thaw_def locked_def unlock_def Let_def notify_inv_def notify_abs_def
        word_gt_0 unat_gt_0)
qed

lemma step_clear:
  assumes "notify_inv ob" "spec_step Clear (notify_abs ob) \<noteq> None"
  shows "\<exists>ob' es. notify_step Clear ob = Done ob' es \<and> notify_inv ob' \<and>
    spec_step Clear (notify_abs ob) = Some (notify_abs ob', es)"
proof -
  obtain q where "qdata ob = Some q"
    using assms(2) by (cases "qdata ob") (simp_all add: notify_abs_def)
  then show ?thesis using assms(1)
    by (auto simp: g_object_notify_queue_clear_def locked_def unlock_def notify_inv_def notify_abs_def
        word_gt_0 unat_gt_0)
qed

lemma step_add:
  assumes "notify_inv ob" "notify_room (Add p) (notify_abs ob)" "spec_step (Add p) (notify_abs ob) \<noteq> None"
  shows "\<exists>ob' es. notify_step (Add p) ob = Done ob' es \<and> notify_inv ob' \<and>
    spec_step (Add p) (notify_abs ob) = Some (notify_abs ob', es)"
proof (cases "readable p")
  case True
  then obtain q where q: "qdata ob = Some q"
    using assms(3) by (cases "qdata ob") (simp_all add: notify_abs_def)
  then have "unat (n_pspecs q) < 65535"
    using assms(1,2) by (simp add: notify_room_def notify_abs_def notify_inv_def)
  then have "n_pspecs q < 65535" "unat (n_pspecs q + 1) = unat (n_pspecs q) + 1"
    by (simp_all add: word_less_nat_alt unat_word_ariths)
  then show ?thesis using assms(1) q True
    by (auto simp: g_object_notify_queue_add_def locked_def unlock_def notify_inv_def notify_abs_def Let_def
        word_gt_0 unat_gt_0)
qed (use assms(1) in \<open>auto simp: g_object_notify_queue_add_def notify_abs_def split: option.split\<close>)

lemma step_refines:
  assumes "notify_inv ob" "notify_room op (notify_abs ob)" "spec_step op (notify_abs ob) = Some (s', es)"
  shows "\<exists>ob'. notify_step op ob = Done ob' es \<and> notify_inv ob' \<and> notify_abs ob' = s'"
proof -
  have some: "spec_step op (notify_abs ob) \<noteq> None" using assms(3) by simp
  have "\<exists>ob' es. notify_step op ob = Done ob' es \<and> notify_inv ob' \<and>
      spec_step op (notify_abs ob) = Some (notify_abs ob', es)"
  proof (cases op)
    case Freeze
    then show ?thesis using step_freeze[OF assms(1)] assms(2) by simp
  next
    case Thaw
    then show ?thesis using step_thaw[OF assms(1)] some by simp
  next
    case Clear
    then show ?thesis using step_clear[OF assms(1)] some by simp
  next
    case (Add p)
    then show ?thesis using step_add[OF assms(1), of p] some assms(2) by simp
  qed
  then obtain ob' es' where "notify_step op ob = Done ob' es'" "notify_inv ob'"
    "spec_step op (notify_abs ob) = Some (notify_abs ob', es')" by blast
  then show ?thesis using assms(3) by simp
qed


definition fresh_notify_object :: notify_object where
  "fresh_notify_object = \<lparr>qdata = None, ref_count = 1, notify_lock = False\<rparr>"

lemma fresh_notify_ok: "notify_inv fresh_notify_object" "notify_abs fresh_notify_object = (0, [])"
  by (simp_all add: notify_inv_def notify_abs_def fresh_notify_object_def)


section \<open>Announced once\<close>

fun spec_run :: "notify_op list \<Rightarrow> notify_spec \<Rightarrow> (notify_spec \<times> notify_event list) option" where
  "spec_run [] s = Some (s, [])"
| "spec_run (op # ops) s =
     (if \<not> notify_room op s then None
      else case spec_step op s of None \<Rightarrow> None
      | Some (s, es) \<Rightarrow> (case spec_run ops s of None \<Rightarrow> None | Some (s, es') \<Rightarrow> Some (s, es @ es')))"

lemma notify_run_refines:
  "notify_inv ob \<Longrightarrow> spec_run ops (notify_abs ob) = Some (s', es) \<Longrightarrow>
     \<exists>ob'. notify_run ops ob = Done ob' es \<and> notify_inv ob' \<and> notify_abs ob' = s'"
proof (induction ops arbitrary: ob es)
  case (Cons op ops)
  obtain s1 e1 e2 where r: "notify_room op (notify_abs ob)" and 1: "spec_step op (notify_abs ob) = Some (s1, e1)"
    and 2: "spec_run ops s1 = Some (s', e2)" and es: "es = e1 @ e2"
    using Cons.prems(2) by (auto split: if_splits option.splits prod.splits)
  obtain ob1 where o1: "notify_step op ob = Done ob1 e1" "notify_inv ob1" "notify_abs ob1 = s1"
    using step_refines[OF Cons.prems(1) r 1] by blast
  then show ?case using Cons.IH[of ob1 e2] 2 es by auto
qed simp

definition announced :: "pspec list \<Rightarrow> pspec list" where
  "announced ps = remdups (rev (map redirected (filter readable ps)))"

lemma announced_snoc:
  "announced (ps @ [p]) =
     (if \<not> readable p then announced ps
      else if redirected p \<in> set (announced ps) then announced ps else redirected p # announced ps)"
  by (simp add: announced_def)

lemma length_announced: "length (announced ps) \<le> length ps"
  unfolding announced_def
  by (rule order.trans[OF length_remdups_leq]) (simp add: length_filter_le)

lemma spec_adds:
  "length ys + length xs < 65535 \<Longrightarrow> 0 < d \<Longrightarrow>
     spec_run (map Add xs @ ops) (d, announced ys) = spec_run ops (d, announced (ys @ xs))"
proof (induction xs arbitrary: ys)
  case (Cons x xs)
  have room: "notify_room (Add x) (d, announced ys)"
    using Cons.prems(1) length_announced[of ys] by (simp add: notify_room_def)
  have "spec_step (Add x) (d, announced ys) = Some ((d, announced (ys @ [x])), [])"
    using Cons.prems(2) by (simp add: announced_snoc)
  then have "spec_run (map Add (x # xs) @ ops) (d, announced ys) =
      spec_run (map Add xs @ ops) (d, announced (ys @ [x]))"
    using room by (simp split: option.split)
  then show ?case using Cons.IH[of "ys @ [x]"] Cons.prems by simp
qed simp

text \<open>
  C24. Between a freeze and its thaw however many changes of properties are announced in one call of the
  dispatcher: every readable property that was added, through its redirection, exactly once, the
  latest new one first; and the object is left without a queue and with the lock free.
\<close>

theorem notify_each_once:
  assumes "length ps < 65535"
  shows "\<exists>ob. notify_run (Freeze # map Add ps @ [Thaw]) fresh_notify_object =
      Done ob (if announced ps = [] then [] else [Dispatcher (announced ps)]) \<and>
    qdata ob = None \<and> \<not> notify_lock ob \<and> distinct (announced ps) \<and>
    set (announced ps) = redirected ` {p \<in> set ps. readable p}"
proof -
  let ?es = "if announced ps = [] then [] else [Dispatcher (announced ps)]"
  have "spec_run (map Add ps @ [Thaw]) (1, announced []) = Some ((0, []), ?es)"
    using spec_adds[of "[]" ps 1 "[Thaw]"] assms by (simp add: notify_room_def)
  then have "spec_run (Freeze # map Add ps @ [Thaw]) (notify_abs fresh_notify_object) = Some ((0, []), ?es)"
    by (simp add: fresh_notify_ok notify_room_def announced_def)
  then obtain ob where ob: "notify_run (Freeze # map Add ps @ [Thaw]) fresh_notify_object = Done ob ?es"
    "notify_inv ob" "notify_abs ob = (0, [])"
    using notify_run_refines[OF fresh_notify_ok(1)] by blast
  then have "qdata ob = None"
    by (auto simp: notify_inv_def notify_abs_def word_gt_0 unat_eq_zero split: option.splits)
  then show ?thesis using ob by (auto simp: notify_inv_def announced_def)
qed

theorem notify_each_once_witness:
  "\<exists>ob. notify_run (Freeze # map Add [Pspec 1 True None, Pspec 2 False None, Pspec 3 True (Some (Pspec 1 True None))] @ [Thaw])
     fresh_notify_object = Done ob [Dispatcher [Pspec 1 True None]]"
  using notify_each_once[of "[Pspec 1 True None, Pspec 2 False None, Pspec 3 True (Some (Pspec 1 True None))]"]
  by (simp add: announced_def redirected_def del: notify_run.simps) blast

text \<open>
  A queue that holds 65535 properties stops the program: adding one more returns with the lock taken, and
  then every operation on any object that takes it waits for ever.
\<close>

theorem full_queue_keeps_lock:
  assumes "qdata ob = Some q" "n_pspecs q = 65535" "\<not> notify_lock ob" "readable p" "0 < freeze_count q" "0 < ref_count ob"
  shows "\<exists>ob'. g_object_notify_queue_add p ob = Done ob' [Return_if_fail] \<and>
    g_object_notify_queue_freeze ob' = Blocks \<and> g_object_notify_queue_thaw ob' = Blocks \<and>
    g_object_notify_queue_clear ob' = Blocks \<and> g_object_notify_queue_add p ob' = Blocks"
  using assms by (simp add: g_object_notify_queue_add_def g_object_notify_queue_freeze_def
      g_object_notify_queue_thaw_def g_object_notify_queue_clear_def locked_def)

theorem full_queue_keeps_lock_witness:
  "\<exists>ob'. g_object_notify_queue_add (Pspec 1 True None)
       \<lparr>qdata = Some \<lparr>nq_pspecs = map (\<lambda>i. Pspec i True None) [2..<65537], n_pspecs = 65535, freeze_count = 1\<rparr>,
        ref_count = 1, notify_lock = False\<rparr> = Done ob' [Return_if_fail] \<and>
     g_object_notify_queue_thaw ob' = Blocks"
  using full_queue_keeps_lock[of "\<lparr>qdata = Some \<lparr>nq_pspecs = map (\<lambda>i. Pspec i True None) [2..<65537],
      n_pspecs = 65535, freeze_count = 1\<rparr>, ref_count = 1, notify_lock = False\<rparr>" _ "Pspec 1 True None"]
  by (simp del: upt_rec_numeral) blast

end
