(* ===== verification/Libusb.thy ===== *)
theory Libusb
  imports C_Layout C_Enum
begin

text \<open>
  \<open>libusb.h\<close>: the numbers of the USB standard the header declares, and the inline functions that fill the
  setup packet of a control transfer and the transfers of every type, and find the packets of an
  isochronous one.  Shown: the setup packet has the bytes of the standard on any machine, and the two ways
  of finding a packet agree where the shorter one does not overflow.
\<close>

section \<open>The enumerations of the header\<close>

definition libusb_class_code_enum :: "enumerator list" where
  "libusb_class_code_enum =
     [Given ''LIBUSB_CLASS_PER_INTERFACE'' 0x00, Given ''LIBUSB_CLASS_AUDIO'' 0x01,
      Given ''LIBUSB_CLASS_COMM'' 0x02, Given ''LIBUSB_CLASS_HID'' 0x03,
      Given ''LIBUSB_CLASS_PHYSICAL'' 0x05, Given ''LIBUSB_CLASS_IMAGE'' 0x06,
      Given ''LIBUSB_CLASS_PTP'' 0x06, Given ''LIBUSB_CLASS_PRINTER'' 0x07,
      Given ''LIBUSB_CLASS_MASS_STORAGE'' 0x08, Given ''LIBUSB_CLASS_HUB'' 0x09,
      Given ''LIBUSB_CLASS_DATA'' 0x0a, Given ''LIBUSB_CLASS_SMART_CARD'' 0x0b,
      Given ''LIBUSB_CLASS_CONTENT_SECURITY'' 0x0d, Given ''LIBUSB_CLASS_VIDEO'' 0x0e,
      Given ''LIBUSB_CLASS_PERSONAL_HEALTHCARE'' 0x0f, Given ''LIBUSB_CLASS_DIAGNOSTIC_DEVICE'' 0xdc,
      Given ''LIBUSB_CLASS_WIRELESS'' 0xe0, Given ''LIBUSB_CLASS_MISCELLANEOUS'' 0xef,
      Given ''LIBUSB_CLASS_APPLICATION'' 0xfe, Given ''LIBUSB_CLASS_VENDOR_SPEC'' 0xff]"

definition libusb_descriptor_type_enum :: "enumerator list" where
  "libusb_descriptor_type_enum =
     [Given ''LIBUSB_DT_DEVICE'' 0x01, Given ''LIBUSB_DT_CONFIG'' 0x02,
      Given ''LIBUSB_DT_STRING'' 0x03, Given ''LIBUSB_DT_INTERFACE'' 0x04,
      Given ''LIBUSB_DT_ENDPOINT'' 0x05, Given ''LIBUSB_DT_BOS'' 0x0f,
      Given ''LIBUSB_DT_DEVICE_CAPABILITY'' 0x10, Given ''LIBUSB_DT_HID'' 0x21,
      Given ''LIBUSB_DT_REPORT'' 0x22, Given ''LIBUSB_DT_PHYSICAL'' 0x23, Given ''LIBUSB_DT_HUB'' 0x29,
      Given ''LIBUSB_DT_SUPERSPEED_HUB'' 0x2a, Given ''LIBUSB_DT_SS_ENDPOINT_COMPANION'' 0x30]"

definition libusb_endpoint_direction_enum :: "enumerator list" where
  "libusb_endpoint_direction_enum =
     [Given ''LIBUSB_ENDPOINT_OUT'' 0x00, Given ''LIBUSB_ENDPOINT_IN'' 0x80]"

definition libusb_endpoint_transfer_type_enum :: "enumerator list" where
  "libusb_endpoint_transfer_type_enum =
     [Given ''LIBUSB_ENDPOINT_TRANSFER_TYPE_CONTROL'' 0x0,
      Given ''LIBUSB_ENDPOINT_TRANSFER_TYPE_ISOCHRONOUS'' 0x1,
      Given ''LIBUSB_ENDPOINT_TRANSFER_TYPE_BULK'' 0x2,
      Given ''LIBUSB_ENDPOINT_TRANSFER_TYPE_INTERRUPT'' 0x3]"

definition libusb_standard_request_enum :: "enumerator list" where
  "libusb_standard_request_enum =
     [Given ''LIBUSB_REQUEST_GET_STATUS'' 0x00, Given ''LIBUSB_REQUEST_CLEAR_FEATURE'' 0x01,
      Given ''LIBUSB_REQUEST_SET_FEATURE'' 0x03, Given ''LIBUSB_REQUEST_SET_ADDRESS'' 0x05,
      Given ''LIBUSB_REQUEST_GET_DESCRIPTOR'' 0x06, Given ''LIBUSB_REQUEST_SET_DESCRIPTOR'' 0x07,
      Given ''LIBUSB_REQUEST_GET_CONFIGURATION'' 0x08, Given ''LIBUSB_REQUEST_SET_CONFIGURATION'' 0x09,
      Given ''LIBUSB_REQUEST_GET_INTERFACE'' 0x0a, Given ''LIBUSB_REQUEST_SET_INTERFACE'' 0x0b,
      Given ''LIBUSB_REQUEST_SYNCH_FRAME'' 0x0c, Given ''LIBUSB_REQUEST_SET_SEL'' 0x30,
      Given ''LIBUSB_SET_ISOCH_DELAY'' 0x31]"

definition libusb_request_type_enum :: "enumerator list" where
  "libusb_request_type_enum =
     [Given ''LIBUSB_REQUEST_TYPE_STANDARD'' (0x00 * 2 ^ 5),
      Given ''LIBUSB_REQUEST_TYPE_CLASS'' (0x01 * 2 ^ 5),
      Given ''LIBUSB_REQUEST_TYPE_VENDOR'' (0x02 * 2 ^ 5),
      Given ''LIBUSB_REQUEST_TYPE_RESERVED'' (0x03 * 2 ^ 5)]"

definition libusb_request_recipient_enum :: "enumerator list" where
  "libusb_request_recipient_enum =
     [Given ''LIBUSB_RECIPIENT_DEVICE'' 0x00, Given ''LIBUSB_RECIPIENT_INTERFACE'' 0x01,
      Given ''LIBUSB_RECIPIENT_ENDPOINT'' 0x02, Given ''LIBUSB_RECIPIENT_OTHER'' 0x03]"

definition libusb_iso_sync_type_enum :: "enumerator list" where
  "libusb_iso_sync_type_enum =
     [Given ''LIBUSB_ISO_SYNC_TYPE_NONE'' 0x0, Given ''LIBUSB_ISO_SYNC_TYPE_ASYNC'' 0x1,
      Given ''LIBUSB_ISO_SYNC_TYPE_ADAPTIVE'' 0x2, Given ''LIBUSB_ISO_SYNC_TYPE_SYNC'' 0x3]"

definition libusb_iso_usage_type_enum :: "enumerator list" where
  "libusb_iso_usage_type_enum =
     [Given ''LIBUSB_ISO_USAGE_TYPE_DATA'' 0x0, Given ''LIBUSB_ISO_USAGE_TYPE_FEEDBACK'' 0x1,
      Given ''LIBUSB_ISO_USAGE_TYPE_IMPLICIT'' 0x2]"

definition libusb_supported_speed_enum :: "enumerator list" where
  "libusb_supported_speed_enum =
     [Given ''LIBUSB_LOW_SPEED_OPERATION'' (2 ^ 0), Given ''LIBUSB_FULL_SPEED_OPERATION'' (2 ^ 1),
      Given ''LIBUSB_HIGH_SPEED_OPERATION'' (2 ^ 2), Given ''LIBUSB_SUPER_SPEED_OPERATION'' (2 ^ 3)]"

definition libusb_usb_2_0_extension_attributes_enum :: "enumerator list" where
  "libusb_usb_2_0_extension_attributes_enum =
     [Given ''LIBUSB_BM_LPM_SUPPORT'' (2 ^ 1)]"

definition libusb_ss_usb_device_capability_attributes_enum :: "enumerator list" where
  "libusb_ss_usb_device_capability_attributes_enum =
     [Given ''LIBUSB_BM_LTM_SUPPORT'' (2 ^ 1)]"

definition libusb_bos_type_enum :: "enumerator list" where
  "libusb_bos_type_enum =
     [Given ''LIBUSB_BT_WIRELESS_USB_DEVICE_CAPABILITY'' 0x01,
      Given ''LIBUSB_BT_USB_2_0_EXTENSION'' 0x02, Given ''LIBUSB_BT_SS_USB_DEVICE_CAPABILITY'' 0x03,
      Given ''LIBUSB_BT_CONTAINER_ID'' 0x04]"

definition libusb_speed_enum :: "enumerator list" where
  "libusb_speed_enum =
     [Given ''LIBUSB_SPEED_UNKNOWN'' 0, Given ''LIBUSB_SPEED_LOW'' 1, Given ''LIBUSB_SPEED_FULL'' 2,
      Given ''LIBUSB_SPEED_HIGH'' 3, Given ''LIBUSB_SPEED_SUPER'' 4,
      Given ''LIBUSB_SPEED_SUPER_PLUS'' 5]"

definition libusb_transfer_type_enum :: "enumerator list" where
  "libusb_transfer_type_enum =
     [Given ''LIBUSB_TRANSFER_TYPE_CONTROL'' 0, Given ''LIBUSB_TRANSFER_TYPE_ISOCHRONOUS'' 1,
      Given ''LIBUSB_TRANSFER_TYPE_BULK'' 2, Given ''LIBUSB_TRANSFER_TYPE_INTERRUPT'' 3,
      Given ''LIBUSB_TRANSFER_TYPE_BULK_STREAM'' 4]"

definition libusb_transfer_status_enum :: "enumerator list" where
  "libusb_transfer_status_enum =
     [Next ''LIBUSB_TRANSFER_COMPLETED'', Next ''LIBUSB_TRANSFER_ERROR'',
      Next ''LIBUSB_TRANSFER_TIMED_OUT'', Next ''LIBUSB_TRANSFER_CANCELLED'',
      Next ''LIBUSB_TRANSFER_STALL'', Next ''LIBUSB_TRANSFER_NO_DEVICE'',
      Next ''LIBUSB_TRANSFER_OVERFLOW'']"

definition libusb_transfer_flags_enum :: "enumerator list" where
  "libusb_transfer_flags_enum =
     [Given ''LIBUSB_TRANSFER_SHORT_NOT_OK'' (2 ^ 0), Given ''LIBUSB_TRANSFER_FREE_BUFFER'' (2 ^ 1),
      Given ''LIBUSB_TRANSFER_FREE_TRANSFER'' (2 ^ 2),
      Given ''LIBUSB_TRANSFER_ADD_ZERO_PACKET'' (2 ^ 3)]"

definition libusb_capability_enum :: "enumerator list" where
  "libusb_capability_enum =
     [Given ''LIBUSB_CAP_HAS_CAPABILITY'' 0x0000, Given ''LIBUSB_CAP_HAS_HOTPLUG'' 0x0001,
      Given ''LIBUSB_CAP_HAS_HID_ACCESS'' 0x0100,
      Given ''LIBUSB_CAP_SUPPORTS_DETACH_KERNEL_DRIVER'' 0x0101]"

definition libusb_log_level_enum :: "enumerator list" where
  "libusb_log_level_enum =
     [Given ''LIBUSB_LOG_LEVEL_NONE'' 0, Given ''LIBUSB_LOG_LEVEL_ERROR'' 1,
      Given ''LIBUSB_LOG_LEVEL_WARNING'' 2, Given ''LIBUSB_LOG_LEVEL_INFO'' 3,
      Given ''LIBUSB_LOG_LEVEL_DEBUG'' 4]"

definition libusb_log_cb_mode_enum :: "enumerator list" where
  "libusb_log_cb_mode_enum =
     [Given ''LIBUSB_LOG_CB_GLOBAL'' (2 ^ 0), Given ''LIBUSB_LOG_CB_CONTEXT'' (2 ^ 1)]"

definition libusb_hotplug_event_enum :: "enumerator list" where
  "libusb_hotplug_event_enum =
     [Given ''LIBUSB_HOTPLUG_EVENT_DEVICE_ARRIVED'' (2 ^ 0),
      Given ''LIBUSB_HOTPLUG_EVENT_DEVICE_LEFT'' (2 ^ 1)]"

definition libusb_hotplug_flag_enum :: "enumerator list" where
  "libusb_hotplug_flag_enum =
     [Given ''LIBUSB_HOTPLUG_ENUMERATE'' (2 ^ 0)]"

definition libusb_option_enum :: "enumerator list" where
  "libusb_option_enum =
     [Given ''LIBUSB_OPTION_LOG_LEVEL'' 0, Given ''LIBUSB_OPTION_USE_USBDK'' 1,
      Given ''LIBUSB_OPTION_WEAK_AUTHORITY'' 2]"

section \<open>Structures\<close>

definition libusb_device_descriptor_t :: ctype where
  "libusb_device_descriptor_t =
     PLAIN [(''bLength'', UINT8), (''bDescriptorType'', UINT8), (''bcdUSB'', UINT16), (''bDeviceClass'', UINT8),
       (''bDeviceSubClass'', UINT8), (''bDeviceProtocol'', UINT8), (''bMaxPacketSize0'', UINT8),
       (''idVendor'', UINT16), (''idProduct'', UINT16), (''bcdDevice'', UINT16), (''iManufacturer'', UINT8),
       (''iProduct'', UINT8), (''iSerialNumber'', UINT8), (''bNumConfigurations'', UINT8)]"

definition LIBUSB_DT_DEVICE_SIZE :: nat where "LIBUSB_DT_DEVICE_SIZE = 18"

definition libusb_control_setup :: ctype where
  "libusb_control_setup =
     PACKED [(''bmRequestType'', UINT8), (''bRequest'', UINT8), (''wValue'', UINT16), (''wIndex'', UINT16),
       (''wLength'', UINT16)]"

definition LIBUSB_CONTROL_SETUP_SIZE :: nat where
  "LIBUSB_CONTROL_SETUP_SIZE = size_of Attribute_packing libusb_control_setup"

text \<open>
  A transfer; a null pointer is \<open>None\<close>.  The packets of an isochronous transfer are the flexible array at its
  end.
\<close>

record libusb_iso_packet_descriptor =
  pk_length :: guint32
  pk_actual_length :: guint32
  pk_status :: nat

record libusb_transfer =
  tr_dev_handle :: "objref option"
  tr_flags :: guint8
  tr_endpoint :: guint8
  tr_type :: guint8
  tr_timeout :: guint32
  tr_status :: nat
  tr_length :: int
  tr_actual_length :: int
  tr_callback :: objref
  tr_user_data :: "objref option"
  tr_buffer :: "nat option"
  num_iso_packets :: int
  iso_packet_desc :: "libusb_iso_packet_descriptor list"

text \<open>
  A pointer into a transfer's buffer: an address, a null pointer, an offset from a null buffer, or the overflow of
  a signed product; C leaves the last two undefined.
\<close>

datatype transfer_pointer = At_address int | Null_pointer | From_null int | Signed_overflow

definition buffer_at :: "libusb_transfer \<Rightarrow> int \<Rightarrow> transfer_pointer" where
  "buffer_at transfer off =
     (case tr_buffer transfer of Some buffer \<Rightarrow> At_address (int buffer + off) | None \<Rightarrow> From_null off)"

section \<open>Little-endian numbers\<close>

text \<open>The union is written byte by byte and read as a number of the machine.\<close>

definition libusb_cpu_to_le16 :: "platform \<Rightarrow> guint16 \<Rightarrow> guint16" where
  "libusb_cpu_to_le16 pf x = native_read pf 2 (mem_store (\<lambda>_. 0) 0 [ucast (x AND 0xff), ucast (drop_bit 8 x)]) 0"

definition libusb_le16_to_cpu :: "platform \<Rightarrow> guint16 \<Rightarrow> guint16" where
  "libusb_le16_to_cpu = libusb_cpu_to_le16"

section \<open>Control transfers\<close>

definition libusb_control_transfer_get_data :: "libusb_transfer \<Rightarrow> transfer_pointer" where
  "libusb_control_transfer_get_data transfer = buffer_at transfer (int LIBUSB_CONTROL_SETUP_SIZE)"

definition libusb_control_transfer_get_setup :: "libusb_transfer \<Rightarrow> nat option" where
  "libusb_control_transfer_get_setup transfer = tr_buffer transfer"

definition set_setup :: "platform \<Rightarrow> nat \<Rightarrow> string \<Rightarrow> int \<Rightarrow> mem \<Rightarrow> mem option" where
  "set_setup pf setup member v h = set_field pf Attribute_packing setup libusb_control_setup [Member member] v h"

definition libusb_fill_control_setup ::
  "platform \<Rightarrow> nat \<Rightarrow> guint8 \<Rightarrow> guint8 \<Rightarrow> guint16 \<Rightarrow> guint16 \<Rightarrow> guint16 \<Rightarrow> mem \<Rightarrow> mem option" where
  "libusb_fill_control_setup pf buffer bmRequestType bRequest wValue wIndex wLength h =
     Option.bind (set_setup pf buffer ''bmRequestType'' (uint bmRequestType) h) (\<lambda>h.
     Option.bind (set_setup pf buffer ''bRequest'' (uint bRequest) h) (\<lambda>h.
     Option.bind (set_setup pf buffer ''wValue'' (uint (libusb_cpu_to_le16 pf wValue)) h) (\<lambda>h.
     Option.bind (set_setup pf buffer ''wIndex'' (uint (libusb_cpu_to_le16 pf wIndex)) h) (\<lambda>h.
     set_setup pf buffer ''wLength'' (uint (libusb_cpu_to_le16 pf wLength)) h))))"

definition transfer_code :: "string \<Rightarrow> guint8" where
  "transfer_code x = of_nat (the (enum_number libusb_transfer_type_enum x))"

definition libusb_fill_control_transfer ::
  "platform \<Rightarrow> mem \<Rightarrow> objref option \<Rightarrow> nat option \<Rightarrow> objref \<Rightarrow> objref option \<Rightarrow> guint32 \<Rightarrow>
     libusb_transfer \<Rightarrow> libusb_transfer" where
  "libusb_fill_control_transfer pf h dev_handle buffer callback user_data timeout transfer =
     (let transfer = transfer\<lparr>tr_dev_handle := dev_handle, tr_endpoint := 0,
        tr_type := transfer_code ''LIBUSB_TRANSFER_TYPE_CONTROL'', tr_timeout := timeout, tr_buffer := buffer\<rparr>;
        transfer = (case buffer of
            None \<Rightarrow> transfer
          | Some setup \<Rightarrow> transfer\<lparr>tr_length := int LIBUSB_CONTROL_SETUP_SIZE +
              uint (libusb_le16_to_cpu pf (word_of_int (the (get_field pf Attribute_packing h setup
                libusb_control_setup [Member ''wLength'']))))\<rparr>)
      in transfer\<lparr>tr_user_data := user_data, tr_callback := callback\<rparr>)"

section \<open>The other transfers\<close>

definition libusb_fill_bulk_transfer ::
  "objref option \<Rightarrow> guint8 \<Rightarrow> nat option \<Rightarrow> int \<Rightarrow> objref \<Rightarrow> objref option \<Rightarrow> guint32 \<Rightarrow>
     libusb_transfer \<Rightarrow> libusb_transfer" where
  "libusb_fill_bulk_transfer dev_handle endpoint buffer len callback user_data timeout transfer =
     transfer\<lparr>tr_dev_handle := dev_handle, tr_endpoint := endpoint,
       tr_type := transfer_code ''LIBUSB_TRANSFER_TYPE_BULK'', tr_timeout := timeout, tr_buffer := buffer,
       tr_length := len, tr_user_data := user_data, tr_callback := callback\<rparr>"

text \<open>\<open>libusb_transfer_set_stream_id\<close> is the library's: a parameter.\<close>

definition libusb_fill_bulk_stream_transfer ::
  "(libusb_transfer \<Rightarrow> guint32 \<Rightarrow> libusb_transfer) \<Rightarrow> objref option \<Rightarrow> guint8 \<Rightarrow> guint32 \<Rightarrow> nat option \<Rightarrow>
     int \<Rightarrow> objref \<Rightarrow> objref option \<Rightarrow> guint32 \<Rightarrow> libusb_transfer \<Rightarrow> libusb_transfer" where
  "libusb_fill_bulk_stream_transfer libusb_transfer_set_stream_id dev_handle endpoint stream_id buffer len callback
       user_data timeout transfer =
     (let transfer = libusb_fill_bulk_transfer dev_handle endpoint buffer len callback user_data timeout transfer;
          transfer = transfer\<lparr>tr_type := transfer_code ''LIBUSB_TRANSFER_TYPE_BULK_STREAM''\<rparr>
      in libusb_transfer_set_stream_id transfer stream_id)"

definition libusb_fill_interrupt_transfer ::
  "objref option \<Rightarrow> guint8 \<Rightarrow> nat option \<Rightarrow> int \<Rightarrow> objref \<Rightarrow> objref option \<Rightarrow> guint32 \<Rightarrow>
     libusb_transfer \<Rightarrow> libusb_transfer" where
  "libusb_fill_interrupt_transfer dev_handle endpoint buffer len callback user_data timeout transfer =
     transfer\<lparr>tr_dev_handle := dev_handle, tr_endpoint := endpoint,
       tr_type := transfer_code ''LIBUSB_TRANSFER_TYPE_INTERRUPT'', tr_timeout := timeout, tr_buffer := buffer,
       tr_length := len, tr_user_data := user_data, tr_callback := callback\<rparr>"

definition libusb_fill_iso_transfer ::
  "objref option \<Rightarrow> guint8 \<Rightarrow> nat option \<Rightarrow> int \<Rightarrow> int \<Rightarrow> objref \<Rightarrow> objref option \<Rightarrow> guint32 \<Rightarrow>
     libusb_transfer \<Rightarrow> libusb_transfer" where
  "libusb_fill_iso_transfer dev_handle endpoint buffer len packets callback user_data timeout transfer =
     transfer\<lparr>tr_dev_handle := dev_handle, tr_endpoint := endpoint,
       tr_type := transfer_code ''LIBUSB_TRANSFER_TYPE_ISOCHRONOUS'', tr_timeout := timeout, tr_buffer := buffer,
       tr_length := len, num_iso_packets := packets, tr_user_data := user_data, tr_callback := callback\<rparr>"

section \<open>Isochronous packets\<close>

definition INT_MAX :: int where "INT_MAX = 2147483647"

primrec set_lengths ::
  "nat \<Rightarrow> guint32 \<Rightarrow> libusb_iso_packet_descriptor list \<Rightarrow> libusb_iso_packet_descriptor list" where
  "set_lengths 0 len ps = ps"
| "set_lengths (Suc i) len ps = (let ps = set_lengths i len ps in ps[i := (ps ! i)\<lparr>pk_length := len\<rparr>])"

definition libusb_set_iso_packet_lengths :: "guint32 \<Rightarrow> libusb_transfer \<Rightarrow> libusb_transfer" where
  "libusb_set_iso_packet_lengths len transfer =
     transfer\<lparr>iso_packet_desc := set_lengths (nat (num_iso_packets transfer)) len (iso_packet_desc transfer)\<rparr>"

primrec iso_offset :: "nat \<Rightarrow> libusb_iso_packet_descriptor list \<Rightarrow> guint64" where
  "iso_offset 0 ps = 0"
| "iso_offset (Suc i) ps = iso_offset i ps + ucast (pk_length (ps ! i))"

definition libusb_get_iso_packet_buffer :: "libusb_transfer \<Rightarrow> guint32 \<Rightarrow> transfer_pointer" where
  "libusb_get_iso_packet_buffer transfer packet =
     (if uint packet > INT_MAX then Null_pointer
      else if uint packet \<ge> num_iso_packets transfer then Null_pointer
      else buffer_at transfer (uint (iso_offset (unat packet) (iso_packet_desc transfer))))"

definition libusb_get_iso_packet_buffer_simple :: "libusb_transfer \<Rightarrow> guint32 \<Rightarrow> transfer_pointer" where
  "libusb_get_iso_packet_buffer_simple transfer packet =
     (if uint packet > INT_MAX then Null_pointer
      else if uint packet \<ge> num_iso_packets transfer then Null_pointer
      else
        let product = sint (pk_length (iso_packet_desc transfer ! 0)) * uint packet
        in if product < - INT_MAX - 1 \<or> INT_MAX < product then Signed_overflow
           else buffer_at transfer product)"

section \<open>Requests for descriptors\<close>

text \<open>
  \<open>libusb_control_transfer\<close> is the library's: a parameter, applied to the device's handle, the setup packet's
  fields, the data's address and the time-out; it gives the outcome of the call.
\<close>

definition request_in :: guint8 where
  "request_in = of_nat (the (enum_number libusb_endpoint_direction_enum ''LIBUSB_ENDPOINT_IN''))"

definition get_descriptor_request :: guint8 where
  "get_descriptor_request = of_nat (the (enum_number libusb_standard_request_enum ''LIBUSB_REQUEST_GET_DESCRIPTOR''))"

definition libusb_get_descriptor ::
  "(objref \<Rightarrow> guint8 \<Rightarrow> guint8 \<Rightarrow> guint16 \<Rightarrow> guint16 \<Rightarrow> nat \<Rightarrow> guint16 \<Rightarrow> guint32 \<Rightarrow> 'r) \<Rightarrow>
     objref \<Rightarrow> guint8 \<Rightarrow> guint8 \<Rightarrow> nat \<Rightarrow> int \<Rightarrow> 'r" where
  "libusb_get_descriptor libusb_control_transfer dev_handle desc_type desc_index dest len =
     libusb_control_transfer dev_handle request_in get_descriptor_request
       (push_bit 8 (ucast desc_type) OR ucast desc_index) 0 dest (word_of_int len) 1000"

definition libusb_get_string_descriptor ::
  "(objref \<Rightarrow> guint8 \<Rightarrow> guint8 \<Rightarrow> guint16 \<Rightarrow> guint16 \<Rightarrow> nat \<Rightarrow> guint16 \<Rightarrow> guint32 \<Rightarrow> 'r) \<Rightarrow>
     objref \<Rightarrow> guint8 \<Rightarrow> guint16 \<Rightarrow> nat \<Rightarrow> int \<Rightarrow> 'r" where
  "libusb_get_string_descriptor libusb_control_transfer dev_handle desc_index langid dest len =
     libusb_control_transfer dev_handle request_in get_descriptor_request
       (push_bit 8 (of_nat (the (enum_number libusb_descriptor_type_enum ''LIBUSB_DT_STRING''))) OR ucast desc_index)
       langid dest (word_of_int len) 1000"

section \<open>The setup packet on the wire\<close>

lemma le16_bytes: "[ucast (x AND 0xff), ucast (drop_bit 8 x)] = (word_bytes 2 (x :: guint16) :: guint8 list)"
  by (simp add: word_bytes_explicit2 low_byte)

lemma le16_stored:
  "mem_store h p (case G_BYTE_ORDER pf of
       G_LITTLE_ENDIAN \<Rightarrow> word_bytes 2 (libusb_cpu_to_le16 pf x)
     | G_BIG_ENDIAN \<Rightarrow> rev (word_bytes 2 (libusb_cpu_to_le16 pf x))) = mem_store h p (word_bytes 2 x)"
  unfolding libusb_cpu_to_le16_def native_read_def le16_bytes
  using word_bytes_word[of "rev (word_bytes 2 x)", where ?'a = 16]
  by (cases "G_BYTE_ORDER pf") (simp_all add: bytes_word_bytes)

lemma word_bytes_wider: "n \<le> 2 \<Longrightarrow> word_bytes n (ucast (v :: guint16) :: guint64) = word_bytes n v"
  unfolding word_bytes_def
  by (rule map_cong[OF refl], rule bit_word_eqI) (auto simp: bit_simps)

lemma write_byte: "native_write pf 1 h p (word_of_int (uint (b :: guint8)) :: guint64) = mem_store h p [b]"
proof -
  have "word_bytes 1 (word_of_int (uint b) :: guint64) = [b]"
    by (simp add: word_bytes_def, rule bit_word_eqI)
      (auto simp: bit_simps bit_word_of_int_iff bit_uint_iff dest: bit_imp_le_length)
  then show ?thesis by (simp add: native_write_def split: byte_order.split)
qed

lemma write_le16:
  "native_write pf 2 h p (word_of_int (uint (libusb_cpu_to_le16 pf v)) :: guint64) = mem_store h p (word_bytes 2 v)"
proof -
  have "word_bytes 2 (word_of_int (uint (libusb_cpu_to_le16 pf v)) :: guint64) = word_bytes 2 (libusb_cpu_to_le16 pf v)"
    using word_bytes_wider[of 2 "libusb_cpu_to_le16 pf v"] by simp
  then show ?thesis using le16_stored[of h p pf v] by (simp only: native_write_def)
qed

lemma bytes_word_narrow: "length bs = 2 \<Longrightarrow> ucast (bytes_word bs :: guint64) = (bytes_word bs :: guint16)"
  by (rule bit_word_eqI) (simp add: bit_ucast_iff bit_bytes_word)

lemma read_le16:
  assumes "mem_bytes h p 2 = word_bytes 2 v"
  shows "libusb_le16_to_cpu pf (word_of_int (uint (native_read pf 2 h p :: guint64))) = v"
proof (cases "G_BYTE_ORDER pf")
  case G_LITTLE_ENDIAN
  then have "word_of_int (uint (native_read pf 2 h p :: guint64)) = v"
    by (simp add: native_read_def assms bytes_word_narrow bytes_word_bytes)
  then show ?thesis using G_LITTLE_ENDIAN
    by (simp add: libusb_le16_to_cpu_def libusb_cpu_to_le16_def native_read_def le16_bytes bytes_word_bytes)
next
  case G_BIG_ENDIAN
  then have "word_of_int (uint (native_read pf 2 h p :: guint64)) = (bytes_word (rev (word_bytes 2 v)) :: guint16)"
    by (simp add: native_read_def assms bytes_word_narrow)
  then show ?thesis using G_BIG_ENDIAN word_bytes_word[of "rev (word_bytes 2 v)", where ?'a = 16]
    by (simp add: libusb_le16_to_cpu_def libusb_cpu_to_le16_def native_read_def le16_bytes bytes_word_bytes)
qed

lemma adjacent_stores: "mem_store (mem_store h p xs) (p + length xs) ys = mem_store h p (xs @ ys)"
  by (rule ext) (auto simp: mem_store_def nth_append)

lemma setup_members:
  "locate m [Member ''bmRequestType''] libusb_control_setup = Some (0, UINT8)"
  "locate m [Member ''bRequest''] libusb_control_setup = Some (1, UINT8)"
  "locate m [Member ''wValue''] libusb_control_setup = Some (2, UINT16)"
  "locate m [Member ''wIndex''] libusb_control_setup = Some (4, UINT16)"
  "locate m [Member ''wLength''] libusb_control_setup = Some (6, UINT16)"
  "LIBUSB_CONTROL_SETUP_SIZE = 8"
  by (cases m; simp add: libusb_control_setup_def packs_def round_up_def LIBUSB_CONTROL_SETUP_SIZE_def)+

text \<open>
  The setup packet of a control transfer has the eight bytes of the USB standard on every machine: the numbers
  are little-endian whatever the machine's byte order, nothing outside the packet is written, and a control
  transfer filled for that buffer has the packet and the announced data as its length.
\<close>

theorem setup_on_the_wire:
  "\<exists>h'. libusb_fill_control_setup pf buffer bmRequestType bRequest wValue wIndex wLength h = Some h' \<and>
     mem_bytes h' buffer 8 = [bmRequestType, bRequest] @ word_bytes 2 wValue @ word_bytes 2 wIndex @ word_bytes 2 wLength \<and>
     (\<forall>a. a < buffer \<or> buffer + 8 \<le> a \<longrightarrow> h' a = h a) \<and>
     tr_length (libusb_fill_control_transfer pf h' dev (Some buffer) cb ud timeout transfer) = 8 + int (unat wLength) \<and>
     libusb_control_transfer_get_data (libusb_fill_control_transfer pf h' dev (Some buffer) cb ud timeout transfer) =
       At_address (int buffer + 8)"
proof -
  let ?bytes = "[bmRequestType, bRequest] @ word_bytes 2 wValue @ word_bytes 2 wIndex @ word_bytes 2 wLength"
  let ?h = "mem_store h buffer ?bytes"
  have stores: "mem_store (mem_store (mem_store (mem_store (mem_store h buffer [bmRequestType]) (buffer + 1) [bRequest])
      (buffer + 2) (word_bytes 2 wValue)) (buffer + 4) (word_bytes 2 wIndex)) (buffer + 6) (word_bytes 2 wLength) = ?h"
    using adjacent_stores[of h buffer "[bmRequestType]" "[bRequest]"]
      adjacent_stores[of h buffer "[bmRequestType, bRequest]" "word_bytes 2 wValue"]
      adjacent_stores[of h buffer "[bmRequestType, bRequest] @ word_bytes 2 wValue" "word_bytes 2 wIndex"]
      adjacent_stores[of h buffer "[bmRequestType, bRequest] @ word_bytes 2 wValue @ word_bytes 2 wIndex"
        "word_bytes 2 wLength"]
    by simp
  have filled: "libusb_fill_control_setup pf buffer bmRequestType bRequest wValue wIndex wLength h = Some ?h"
    unfolding libusb_fill_control_setup_def set_setup_def set_field_def setup_members
    using stores by (simp only: option.case ctype.case prod.case Option.bind.bind_lunit write_le16 write_byte add_0_right)
  have "mem_bytes ?h buffer (6 + 2) = mem_bytes ?h buffer 6 @ mem_bytes ?h (buffer + 6) 2"
    by (rule mem_bytes_append)
  moreover have all: "mem_bytes ?h buffer 8 = ?bytes" by simp
  ultimately have "mem_bytes ?h buffer 6 @ mem_bytes ?h (buffer + 6) 2 =
      ([bmRequestType, bRequest] @ word_bytes 2 wValue @ word_bytes 2 wIndex) @ word_bytes 2 wLength" by simp
  then have "mem_bytes ?h (buffer + 6) 2 = word_bytes 2 wLength"
    by (subst (asm) append_eq_append_conv) simp_all
  then have "libusb_le16_to_cpu pf (word_of_int (the (get_field pf Attribute_packing ?h buffer
      libusb_control_setup [Member ''wLength'']))) = wLength"
    unfolding get_field_def setup_members using read_le16 by (simp del: word_of_int_uint)
  then show ?thesis using filled all
    by (auto simp: libusb_fill_control_transfer_def libusb_control_transfer_get_data_def buffer_at_def setup_members(6) Let_def
        mem_store_other)
qed

text \<open>A request for the device descriptor, filled on a big-endian machine.\<close>

definition big_endian_platform :: platform where
  "big_endian_platform = \<lparr>compiler = \<lparr>cpu = X86_64, gcc_4_3 = False\<rparr>, G_BYTE_ORDER = G_BIG_ENDIAN,
     GST_HAVE_UNALIGNED_ACCESS = True\<rparr>"

definition idle_transfer :: libusb_transfer where
  "idle_transfer =
     \<lparr>tr_dev_handle = None, tr_flags = 0, tr_endpoint = 1, tr_type = 1, tr_timeout = 0, tr_status = 0, tr_length = 0,
      tr_actual_length = 0, tr_callback = 0, tr_user_data = None, tr_buffer = Some 100, num_iso_packets = 4,
      iso_packet_desc = replicate 4 \<lparr>pk_length = 0, pk_actual_length = 0, pk_status = 0\<rparr>\<rparr>"

theorem setup_on_the_wire_witness:
  "\<exists>h'. libusb_fill_control_setup big_endian_platform 100 0x80 6 0x100 0 18 (\<lambda>_. 7) = Some h' \<and> h' 99 = 7 \<and>
     mem_bytes h' 100 8 = [0x80, 6, 0, 1, 0, 0, 18, 0] \<and>
     tr_length (libusb_fill_control_transfer big_endian_platform h' None (Some 100) 0 None 1000 idle_transfer) = 26"
proof -
  have "word_bytes 2 (0x100 :: guint16) = [0, 1]" "word_bytes 2 (0 :: guint16) = [0, 0]"
    "word_bytes 2 (18 :: guint16) = [18, 0]"
    by (simp_all add: word_bytes_explicit2)
  then show ?thesis
    using setup_on_the_wire[of big_endian_platform 100 "0x80" 6 "0x100" 0 18 "\<lambda>_. 7" None 0 None 1000 idle_transfer]
    by auto
qed

section \<open>Finding a packet\<close>

lemma length_set_lengths [simp]: "length (set_lengths n len ps) = length ps"
  by (induction n) (simp_all add: Let_def)

lemma set_lengths_same: "i < n \<Longrightarrow> n \<le> length ps \<Longrightarrow> pk_length (set_lengths n len ps ! i) = len"
  by (induction n) (auto simp: Let_def nth_list_update less_Suc_eq)

lemma iso_offset_same: "(\<And>j. j < i \<Longrightarrow> pk_length (ps ! j) = len) \<Longrightarrow> iso_offset i ps = of_nat i * ucast len"
  by (induction i) (simp_all add: algebra_simps)

lemma packet_offset:
  assumes "uint (p :: guint32) \<le> INT_MAX" "uint (len :: guint32) \<le> INT_MAX"
  shows "uint (of_nat (unat p) * ucast len :: guint64) = uint p * uint len"
proof -
  have "uint p * uint len \<le> INT_MAX * INT_MAX" using assms by (intro mult_mono) (simp_all add: INT_MAX_def)
  then have "uint p * uint len mod 2 ^ 64 = uint p * uint len" by (simp add: INT_MAX_def)
  then show ?thesis by (simp add: uint_word_ariths(3) uint_up_ucast is_up_def source_size target_size word_size)
qed

lemma signed_small: "uint (len :: guint32) \<le> INT_MAX \<Longrightarrow> sint len = uint len"
proof -
  assume "uint len \<le> INT_MAX"
  then have small: "uint len < 2 ^ 31" by (simp add: INT_MAX_def)
  then have "take_bit 31 (uint len) = uint len" by (simp add: take_bit_int_eq_self)
  moreover have "\<not> bit (uint len) 31"
    using small bit_take_bit_iff[of 31 "uint len" 31] calculation by simp
  ultimately show ?thesis by (simp add: sint_uint signed_take_bit_eq_if_positive)
qed

text \<open>
  Two ways to one packet: after all packets were given one length, the general function finds packet \<open>p\<close>
  \<open>p\<close> lengths behind the buffer, for every packet that exists, and a null pointer for another; the shorter function
  agrees as long as the product fits an \<open>int\<close>, and otherwise computes a signed overflow.
\<close>

theorem iso_packets_agree:
  assumes "num_iso_packets transfer = int (length (iso_packet_desc transfer))"
    and "num_iso_packets transfer \<le> INT_MAX" "uint len \<le> INT_MAX"
  shows "libusb_get_iso_packet_buffer (libusb_set_iso_packet_lengths len transfer) p =
      (if uint p < num_iso_packets transfer then buffer_at transfer (uint p * uint len) else Null_pointer) \<and>
    libusb_get_iso_packet_buffer_simple (libusb_set_iso_packet_lengths len transfer) p =
      (if \<not> uint p < num_iso_packets transfer then Null_pointer
       else if uint p * uint len \<le> INT_MAX then buffer_at transfer (uint p * uint len) else Signed_overflow)"
proof -
  let ?t = "libusb_set_iso_packet_lengths len transfer"
  have same: "pk_length (iso_packet_desc ?t ! i) = len" if "int i < num_iso_packets transfer" for i
    using set_lengths_same[of i "nat (num_iso_packets transfer)" "iso_packet_desc transfer" len] assms(1) that
    by (simp add: libusb_set_iso_packet_lengths_def)
  have kept: "num_iso_packets ?t = num_iso_packets transfer" "buffer_at ?t = buffer_at transfer"
    by (simp_all add: libusb_set_iso_packet_lengths_def buffer_at_def fun_eq_iff)
  show ?thesis
  proof (cases "uint p < num_iso_packets transfer")
    case False
    then have "num_iso_packets transfer \<le> uint p" by (simp only: not_less)
    then show ?thesis using False
      by (simp only: libusb_get_iso_packet_buffer_def libusb_get_iso_packet_buffer_simple_def kept if_False if_True
          not_False_eq_True if_cancel simp_thms split: if_split)
  next
    case True
    then have exists: "\<not> num_iso_packets transfer \<le> uint p" by (simp only: not_le)
    have small: "\<not> INT_MAX < uint p" using True assms(2) by linarith
    have below: "int (unat p) < num_iso_packets transfer" using True by (simp only: uint_nat)
    then have "iso_offset (unat p) (iso_packet_desc ?t) = of_nat (unat p) * ucast len"
      by (intro iso_offset_same same) linarith
    then have off: "uint (iso_offset (unat p) (iso_packet_desc ?t)) = uint p * uint len"
      using packet_offset[of p len] small assms(3) by (simp only: not_less)
    have "int 0 < num_iso_packets transfer" using below by linarith
    then have product: "sint (pk_length (iso_packet_desc ?t ! 0)) * uint p = uint p * uint len"
      by (simp only: same[of 0] signed_small[OF assms(3)] mult.commute)
    have "0 \<le> uint p * uint len" by simp
    then have no_under: "\<not> uint p * uint len < - INT_MAX - 1" unfolding INT_MAX_def by linarith
    have general: "libusb_get_iso_packet_buffer ?t p = buffer_at transfer (uint p * uint len)"
      unfolding libusb_get_iso_packet_buffer_def kept off if_not_P[OF small] if_not_P[OF exists] by (rule refl)
    have "libusb_get_iso_packet_buffer_simple ?t p =
        (if uint p * uint len \<le> INT_MAX then buffer_at transfer (uint p * uint len) else Signed_overflow)"
      unfolding libusb_get_iso_packet_buffer_simple_def kept if_not_P[OF small] if_not_P[OF exists] Let_def product
      using no_under by (meson not_le)
    then show ?thesis using general True by (simp only: if_True if_False simp_thms not_True_eq_False)
  qed
qed

theorem iso_packets_agree_witness:
  "libusb_get_iso_packet_buffer_simple (libusb_set_iso_packet_lengths 0x40000000 idle_transfer) 3 = Signed_overflow"
  using iso_packets_agree[of idle_transfer "0x40000000" 3]
  by (simp add: INT_MAX_def idle_transfer_def)

section \<open>The numbers\<close>

text \<open>
  The request type of a control transfer is read back field by field: or-ing a direction, a type and a
  recipient of the header gives a byte in which the direction's mask, bits 5 and 6 and bits 0 to 4 give
  them again; and the descriptor is the size the header says.
\<close>

theorem request_type_fields:
  assumes "(dn, d) \<in> set (enum_values libusb_endpoint_direction_enum)"
    and "(tn, t) \<in> set (enum_values libusb_request_type_enum)"
    and "(rn, r) \<in> set (enum_values libusb_request_recipient_enum)"
  shows "(d OR t OR r) AND 0x80 = d \<and> (d OR t OR r) AND 0x60 = t \<and> (d OR t OR r) AND 0x1f = r \<and>
    d OR t OR r < 256 \<and> size_of Attribute_packing libusb_device_descriptor_t = LIBUSB_DT_DEVICE_SIZE"
proof -
  have "d = 0 \<or> d = 0x80" "t = 0 \<or> t = 0x20 \<or> t = 0x40 \<or> t = 0x60" "r = 0 \<or> r = 1 \<or> r = 2 \<or> r = 3"
    using assms by (auto simp: enum_values_def libusb_endpoint_direction_enum_def libusb_request_type_enum_def
        libusb_request_recipient_enum_def)
  moreover have "size_of Attribute_packing libusb_device_descriptor_t = LIBUSB_DT_DEVICE_SIZE"
    by code_simp
  ultimately show ?thesis by (elim disjE) simp_all
qed

theorem request_type_fields_witness: "(0x80 OR 0x20 OR 1) AND 0x60 = (0x20 :: nat)"
proof -
  have "(''LIBUSB_ENDPOINT_IN'', 0x80) \<in> set (enum_values libusb_endpoint_direction_enum)"
    "(''LIBUSB_REQUEST_TYPE_CLASS'', 0x20) \<in> set (enum_values libusb_request_type_enum)"
    "(''LIBUSB_RECIPIENT_INTERFACE'', 1) \<in> set (enum_values libusb_request_recipient_enum)"
    by (simp_all add: enum_values_def libusb_endpoint_direction_enum_def libusb_request_type_enum_def
        libusb_request_recipient_enum_def)
  from request_type_fields[OF this] show ?thesis by blast
qed

end
