(* ===== verification/Gst_Init.thy ===== *)
theory Gst_Init
  imports Prelude
begin

text \<open>
  \<^verbatim>\<open>gst_ios_init.m\<close> with the configuration of \<^verbatim>\<open>gst_ios_init.h\<close>, and \<^verbatim>\<open>GStreamerPluginStubs.c\<close>: the environment the
  GStreamer library starts in, the plugins the preprocessor leaves in the two lists of the file, and the
  functions that stand in for the plugins' own.  Shown: what is registered was declared under every
  configuration, the stubs are exactly the functions the header's configuration calls, and the library sees the
  directories of the application's container.
\<close>

section \<open>The preprocessor\<close>

text \<open>
  A statement between \<open>#if\<close> and \<open>#endif\<close>: the macros, one of which must be defined, and the plugin, or
  \<open>None\<close> where the statement is commented out.  A configuration is the list of the macros that are defined.
\<close>

datatype guarded_line = Guarded "string list" "string option"

definition plugin_macro :: "string \<Rightarrow> string" where
  "plugin_macro p = ''GST_IOS_PLUGIN_'' @ p"

definition category_macro :: "string \<Rightarrow> string" where
  "category_macro c = ''GST_IOS_PLUGINS_'' @ c"

definition in_category :: "string \<Rightarrow> (string \<times> string option) list \<Rightarrow> guarded_line list" where
  "in_category c ps = map (\<lambda>(p, statement). Guarded [plugin_macro p, category_macro c] statement) ps"

primrec line_left :: "string list \<Rightarrow> guarded_line \<Rightarrow> string list" where
  "line_left config (Guarded macros statement) =
     (if list_ex (\<lambda>m. m \<in> set config) macros then (case statement of Some name \<Rightarrow> [name] | None \<Rightarrow> []) else [])"

definition preprocess :: "string list \<Rightarrow> guarded_line list \<Rightarrow> string list" where
  "preprocess config ls = concat (map (line_left config) ls)"

definition header_config :: "string list" where
  "header_config = map category_macro [''CORE'', ''CAPTURE'', ''SYS'', ''PLAYBACK''] @ [plugin_macro ''JPEG'']"

definition register_function :: "string \<Rightarrow> string" where
  "register_function name = ''gst_plugin_'' @ name @ ''_register''"

section \<open>The two lists\<close>

definition core_declared :: "guarded_line list" where
  "core_declared = in_category ''CORE''
    [(''COREELEMENTS'', Some ''coreelements''), (''ADDER'', Some ''adder''), (''APP'', Some ''app''),
     (''AUDIOCONVERT'', Some ''audioconvert''), (''AUDIORATE'', Some ''audiorate''),
     (''AUDIORESAMPLE'', Some ''audioresample''), (''AUDIOTESTSRC'', Some ''audiotestsrc''),
     (''GIO'', Some ''gio''), (''PANGO'', None), (''TYPEFINDFUNCTIONS'', Some ''typefindfunctions''),
     (''VIDEOCONVERT'', Some ''videoconvert''), (''VIDEORATE'', Some ''videorate''),
     (''VIDEOSCALE'', Some ''videoscale''), (''VIDEOTESTSRC'', Some ''videotestsrc''),
     (''VOLUME'', Some ''volume''), (''AUTODETECT'', Some ''autodetect''),
     (''VIDEOFILTER'', Some ''videofilter'')]"

definition capture_declared :: "guarded_line list" where
  "capture_declared = in_category ''CAPTURE''
    [(''CAMERABIN'', None)]"

definition codecs_restricted_declared :: "guarded_line list" where
  "codecs_restricted_declared = in_category ''CODECS_RESTRICTED''
    [(''ASFMUX'', Some ''asfmux''), (''DTSDEC'', Some ''dtsdec''), (''FAAD'', Some ''faad''),
     (''MPEGPSDEMUX'', Some ''mpegpsdemux''), (''MPEGPSMUX'', Some ''mpegpsmux''),
     (''MPEGTSDEMUX'', Some ''mpegtsdemux''), (''MPEGTSMUX'', Some ''mpegtsmux''),
     (''VOAACENC'', Some ''voaacenc''), (''A52DEC'', Some ''a52dec''), (''AMRNB'', Some ''amrnb''),
     (''AMRWBDEC'', Some ''amrwbdec''), (''ASF'', Some ''asf''), (''DVDSUB'', Some ''dvdsub''),
     (''DVDLPCMDEC'', Some ''dvdlpcmdec''), (''MAD'', Some ''mad''), (''MPEG2DEC'', Some ''mpeg2dec''),
     (''XINGMUX'', Some ''xingmux''), (''REALMEDIA'', Some ''realmedia''), (''X264'', Some ''x264''),
     (''LIBAV'', Some ''libav'')]"

definition encoding_declared :: "guarded_line list" where
  "encoding_declared = in_category ''ENCODING''
    [(''ENCODING'', Some ''encoding'')]"

definition codecs_gpl_declared :: "guarded_line list" where
  "codecs_gpl_declared = in_category ''CODECS_GPL''
    [(''ASSRENDER'', Some ''assrender'')]"

definition net_restricted_declared :: "guarded_line list" where
  "net_restricted_declared = in_category ''NET_RESTRICTED''
    [(''MMS'', Some ''mms''), (''RTMP'', Some ''rtmp'')]"

definition sys_declared :: "guarded_line list" where
  "sys_declared = in_category ''SYS''
    [(''OSXAUDIO'', Some ''osxaudio''), (''APPLEMEDIA'', None), (''SHM'', None), (''OPENGL'', None)]"

definition vis_declared :: "guarded_line list" where
  "vis_declared = in_category ''VIS''
    [(''LIBVISUAL'', Some ''libvisual''), (''GOOM'', Some ''goom''), (''GOOM2K1'', Some ''goom2k1''),
     (''AUDIOVISUALIZERS'', Some ''audiovisualizers'')]"

definition playback_declared :: "guarded_line list" where
  "playback_declared = in_category ''PLAYBACK''
    [(''PLAYBACK'', Some ''playback'')]"

definition effects_declared :: "guarded_line list" where
  "effects_declared = in_category ''EFFECTS''
    [(''ALPHA'', Some ''alpha''), (''ALPHACOLOR'', Some ''alphacolor''), (''AUDIOFX'', Some ''audiofx''),
     (''CAIRO'', Some ''cairo''), (''CUTTER'', Some ''cutter''), (''DEBUG'', Some ''debug''),
     (''DEINTERLACE'', Some ''deinterlace''), (''DTMF'', Some ''dtmf''), (''EFFECTV'', Some ''effectv''),
     (''EQUALIZER'', Some ''equalizer''), (''GDKPIXBUF'', Some ''gdkpixbuf''),
     (''IMAGEFREEZE'', Some ''imagefreeze''), (''INTERLEAVE'', Some ''interleave''),
     (''LEVEL'', Some ''level''), (''MULTIFILE'', Some ''multifile''),
     (''REPLAYGAIN'', Some ''replaygain''), (''SHAPEWIPE'', Some ''shapewipe''),
     (''SMPTE'', Some ''smpte''), (''SPECTRUM'', Some ''spectrum''), (''VIDEOBOX'', Some ''videobox''),
     (''VIDEOCROP'', Some ''videocrop''), (''VIDEOMIXER'', Some ''videomixer''),
     (''ACCURIP'', Some ''accurip''), (''AIFF'', Some ''aiff''), (''AUDIOFXBAD'', Some ''audiofxbad''),
     (''AUTOCONVERT'', Some ''autoconvert''), (''BAYER'', Some ''bayer''),
     (''COLOREFFECTS'', Some ''coloreffects''), (''DEBUGUTILSBAD'', Some ''debugutilsbad''),
     (''FIELDANALYSIS'', Some ''fieldanalysis''), (''FREEVERB'', Some ''freeverb''),
     (''FREI0R'', Some ''frei0r''), (''GAUDIEFFECTS'', Some ''gaudieffects''),
     (''GEOMETRICTRANSFORM'', Some ''geometrictransform''), (''INTERLACE'', Some ''interlace''),
     (''IVTC'', Some ''ivtc''), (''LIVEADDER'', Some ''liveadder''), (''RAWPARSE'', Some ''rawparse''),
     (''REMOVESILENCE'', Some ''removesilence''), (''SEGMENTCLIP'', Some ''segmentclip''),
     (''SMOOTH'', Some ''smooth''), (''SPEED'', Some ''speed''),
     (''VIDEOFILTERSBAD'', Some ''videofiltersbad'')]"

definition codecs_declared :: "guarded_line list" where
  "codecs_declared = in_category ''CODECS''
    [(''SUBPARSE'', Some ''subparse''), (''OGG'', Some ''ogg''), (''THEORA'', Some ''theora''),
     (''VORBIS'', Some ''vorbis''), (''IVORBISDEC'', Some ''ivorbisdec''), (''ALAW'', Some ''alaw''),
     (''APETAG'', Some ''apetag''), (''AUDIOPARSERS'', Some ''audioparsers''),
     (''AUPARSE'', Some ''auparse''), (''AVI'', Some ''avi''), (''DV'', Some ''dv''),
     (''FLAC'', Some ''flac''), (''FLV'', Some ''flv''), (''FLXDEC'', Some ''flxdec''),
     (''ICYDEMUX'', Some ''icydemux''), (''ID3DEMUX'', Some ''id3demux''), (''ISOMP4'', Some ''isomp4''),
     (''JPEG'', Some ''jpeg''), (''MATROSKA'', Some ''matroska''), (''MULAW'', Some ''mulaw''),
     (''MULTIPART'', Some ''multipart''), (''PNG'', Some ''png''), (''SPEEX'', Some ''speex''),
     (''TAGLIB'', Some ''taglib''), (''VPX'', Some ''vpx''), (''WAVENC'', Some ''wavenc''),
     (''WAVPACK'', Some ''wavpack''), (''WAVPARSE'', Some ''wavparse''), (''Y4MENC'', Some ''y4menc''),
     (''ADPCMDEC'', Some ''adpcmdec''), (''ADPCMENC'', Some ''adpcmenc''),
     (''DASHDEMUX'', Some ''dashdemux''), (''DVBSUBOVERLAY'', Some ''dvbsuboverlay''),
     (''DVDSPU'', Some ''dvdspu''), (''FRAGMENTED'', Some ''fragmented''), (''ID3TAG'', Some ''id3tag''),
     (''KATE'', Some ''kate''), (''MIDI'', Some ''midi''), (''MXF'', Some ''mxf''),
     (''OPUS'', Some ''opus''), (''PCAPPARSE'', Some ''pcapparse''), (''PNM'', Some ''pnm''),
     (''RFBSRC'', Some ''rfbsrc''), (''SCHRO'', Some ''schro''), (''GSTSIREN'', Some ''gstsiren''),
     (''SMOOTHSTREAMING'', Some ''smoothstreaming''), (''SUBENC'', Some ''subenc''),
     (''VIDEOPARSERSBAD'', Some ''videoparsersbad''), (''Y4MDEC'', Some ''y4mdec''),
     (''JPEGFORMAT'', Some ''jpegformat''), (''GDP'', Some ''gdp''), (''RSVG'', Some ''rsvg'')]"

definition net_declared :: "guarded_line list" where
  "net_declared = in_category ''NET''
    [(''TCP'', Some ''tcp''), (''RTSP'', Some ''rtsp''), (''RTP'', Some ''rtp''),
     (''RTPMANAGER'', Some ''rtpmanager''), (''SOUP'', Some ''soup''), (''UDP'', Some ''udp''),
     (''DATAURISRC'', Some ''dataurisrc''), (''SDP'', Some ''sdp'')]"

definition editing_declared :: "guarded_line list" where
  "editing_declared = in_category ''EDITING''
    [(''GNONLIN'', Some ''gnonlin'')]"

definition all_declared :: "guarded_line list" where
  "all_declared = core_declared @ capture_declared @ codecs_restricted_declared @ encoding_declared @
     codecs_gpl_declared @ net_restricted_declared @ sys_declared @ vis_declared @
     playback_declared @ effects_declared @ codecs_declared @ net_declared @
     editing_declared"

lemmas declared_lines = all_declared_def core_declared_def capture_declared_def codecs_restricted_declared_def encoding_declared_def codecs_gpl_declared_def net_restricted_declared_def sys_declared_def vis_declared_def playback_declared_def effects_declared_def codecs_declared_def net_declared_def editing_declared_def

definition core_registered :: "guarded_line list" where
  "core_registered = in_category ''CORE''
    [(''COREELEMENTS'', Some ''coreelements''), (''ADDER'', Some ''adder''), (''APP'', Some ''app''),
     (''AUDIOCONVERT'', Some ''audioconvert''), (''AUDIORATE'', Some ''audiorate''),
     (''AUDIORESAMPLE'', Some ''audioresample''), (''AUDIOTESTSRC'', Some ''audiotestsrc''),
     (''GIO'', Some ''gio''), (''PANGO'', None), (''TYPEFINDFUNCTIONS'', Some ''typefindfunctions''),
     (''VIDEOCONVERT'', Some ''videoconvert''), (''VIDEORATE'', Some ''videorate''),
     (''VIDEOSCALE'', Some ''videoscale''), (''VIDEOTESTSRC'', Some ''videotestsrc''),
     (''VOLUME'', Some ''volume''), (''AUTODETECT'', Some ''autodetect''),
     (''VIDEOFILTER'', Some ''videofilter'')]"

definition capture_registered :: "guarded_line list" where
  "capture_registered = in_category ''CAPTURE''
    [(''CAMERABIN'', None)]"

definition codecs_restricted_registered :: "guarded_line list" where
  "codecs_restricted_registered = in_category ''CODECS_RESTRICTED''
    [(''ASFMUX'', Some ''asfmux''), (''DTSDEC'', Some ''dtsdec''), (''FAAD'', Some ''faad''),
     (''MPEGPSDEMUX'', Some ''mpegpsdemux''), (''MPEGPSMUX'', Some ''mpegpsmux''),
     (''MPEGTSDEMUX'', Some ''mpegtsdemux''), (''MPEGTSMUX'', Some ''mpegtsmux''),
     (''VOAACENC'', Some ''voaacenc''), (''A52DEC'', Some ''a52dec''), (''AMRNB'', Some ''amrnb''),
     (''AMRWBDEC'', Some ''amrwbdec''), (''ASF'', Some ''asf''), (''DVDSUB'', Some ''dvdsub''),
     (''DVDLPCMDEC'', Some ''dvdlpcmdec''), (''MAD'', Some ''mad''), (''MPEG2DEC'', Some ''mpeg2dec''),
     (''XINGMUX'', Some ''xingmux''), (''REALMEDIA'', Some ''realmedia''), (''X264'', Some ''x264''),
     (''LIBAV'', Some ''libav'')]"

definition encoding_registered :: "guarded_line list" where
  "encoding_registered = in_category ''ENCODING''
    [(''ENCODING'', Some ''encoding'')]"

definition codecs_gpl_registered :: "guarded_line list" where
  "codecs_gpl_registered = in_category ''CODECS_GPL''
    [(''ASSRENDER'', Some ''assrender'')]"

definition net_restricted_registered :: "guarded_line list" where
  "net_restricted_registered = in_category ''NET_RESTRICTED''
    [(''MMS'', Some ''mms''), (''RTMP'', Some ''rtmp'')]"

definition sys_registered :: "guarded_line list" where
  "sys_registered = in_category ''SYS''
    [(''OSXAUDIO'', Some ''osxaudio''), (''APPLEMEDIA'', None), (''SHM'', None), (''OPENGL'', None)]"

definition vis_registered :: "guarded_line list" where
  "vis_registered = in_category ''VIS''
    [(''LIBVISUAL'', Some ''libvisual''), (''GOOM'', Some ''goom''), (''GOOM2K1'', Some ''goom2k1''),
     (''AUDIOVISUALIZERS'', Some ''audiovisualizers'')]"

definition playback_registered :: "guarded_line list" where
  "playback_registered = in_category ''PLAYBACK''
    [(''PLAYBACK'', Some ''playback'')]"

definition effects_registered :: "guarded_line list" where
  "effects_registered = in_category ''EFFECTS''
    [(''ALPHA'', Some ''alpha''), (''ALPHACOLOR'', Some ''alphacolor''), (''AUDIOFX'', Some ''audiofx''),
     (''CAIRO'', Some ''cairo''), (''CUTTER'', Some ''cutter''), (''DEBUG'', Some ''debug''),
     (''DEINTERLACE'', Some ''deinterlace''), (''DTMF'', Some ''dtmf''), (''EFFECTV'', Some ''effectv''),
     (''EQUALIZER'', Some ''equalizer''), (''GDKPIXBUF'', Some ''gdkpixbuf''),
     (''IMAGEFREEZE'', Some ''imagefreeze''), (''INTERLEAVE'', Some ''interleave''),
     (''LEVEL'', Some ''level''), (''MULTIFILE'', Some ''multifile''),
     (''REPLAYGAIN'', Some ''replaygain''), (''SHAPEWIPE'', Some ''shapewipe''),
     (''SMPTE'', Some ''smpte''), (''SPECTRUM'', Some ''spectrum''), (''VIDEOBOX'', Some ''videobox''),
     (''VIDEOCROP'', Some ''videocrop''), (''VIDEOMIXER'', Some ''videomixer''),
     (''ACCURIP'', Some ''accurip''), (''AIFF'', Some ''aiff''), (''AUDIOFXBAD'', Some ''audiofxbad''),
     (''AUTOCONVERT'', Some ''autoconvert''), (''BAYER'', Some ''bayer''),
     (''COLOREFFECTS'', Some ''coloreffects''), (''DEBUGUTILSBAD'', Some ''debugutilsbad''),
     (''FIELDANALYSIS'', Some ''fieldanalysis''), (''FREEVERB'', Some ''freeverb''),
     (''FREI0R'', Some ''frei0r''), (''GAUDIEFFECTS'', Some ''gaudieffects''),
     (''GEOMETRICTRANSFORM'', Some ''geometrictransform''), (''INTERLACE'', Some ''interlace''),
     (''IVTC'', Some ''ivtc''), (''LIVEADDER'', Some ''liveadder''), (''RAWPARSE'', Some ''rawparse''),
     (''REMOVESILENCE'', Some ''removesilence''), (''SEGMENTCLIP'', Some ''segmentclip''),
     (''SMOOTH'', Some ''smooth''), (''SPEED'', Some ''speed''),
     (''VIDEOFILTERSBAD'', Some ''videofiltersbad'')]"

definition codecs_registered :: "guarded_line list" where
  "codecs_registered = in_category ''CODECS''
    [(''SUBPARSE'', Some ''subparse''), (''OGG'', Some ''ogg''), (''THEORA'', Some ''theora''),
     (''VORBIS'', Some ''vorbis''), (''IVORBISDEC'', Some ''ivorbisdec''), (''ALAW'', Some ''alaw''),
     (''APETAG'', Some ''apetag''), (''AUDIOPARSERS'', Some ''audioparsers''),
     (''AUPARSE'', Some ''auparse''), (''AVI'', Some ''avi''), (''DV'', Some ''dv''),
     (''FLAC'', Some ''flac''), (''FLV'', Some ''flv''), (''FLXDEC'', Some ''flxdec''),
     (''ICYDEMUX'', Some ''icydemux''), (''ID3DEMUX'', Some ''id3demux''), (''ISOMP4'', Some ''isomp4''),
     (''JPEG'', Some ''jpeg''), (''MATROSKA'', Some ''matroska''), (''MULAW'', Some ''mulaw''),
     (''MULTIPART'', Some ''multipart''), (''PNG'', Some ''png''), (''SPEEX'', Some ''speex''),
     (''TAGLIB'', Some ''taglib''), (''VPX'', Some ''vpx''), (''WAVENC'', Some ''wavenc''),
     (''WAVPACK'', Some ''wavpack''), (''WAVPARSE'', Some ''wavparse''), (''Y4MENC'', Some ''y4menc''),
     (''ADPCMDEC'', Some ''adpcmdec''), (''ADPCMENC'', Some ''adpcmenc''),
     (''DASHDEMUX'', Some ''dashdemux''), (''DVBSUBOVERLAY'', Some ''dvbsuboverlay''),
     (''DVDSPU'', Some ''dvdspu''), (''FRAGMENTED'', Some ''fragmented''), (''ID3TAG'', Some ''id3tag''),
     (''KATE'', Some ''kate''), (''MIDI'', Some ''midi''), (''MXF'', Some ''mxf''),
     (''OPUS'', Some ''opus''), (''PCAPPARSE'', Some ''pcapparse''), (''PNM'', Some ''pnm''),
     (''RFBSRC'', Some ''rfbsrc''), (''SCHRO'', Some ''schro''), (''GSTSIREN'', Some ''gstsiren''),
     (''SMOOTHSTREAMING'', Some ''smoothstreaming''), (''SUBENC'', Some ''subenc''),
     (''VIDEOPARSERSBAD'', Some ''videoparsersbad''), (''Y4MDEC'', Some ''y4mdec''),
     (''JPEGFORMAT'', Some ''jpegformat''), (''GDP'', Some ''gdp''), (''RSVG'', Some ''rsvg'')]"

definition net_registered :: "guarded_line list" where
  "net_registered = in_category ''NET''
    [(''TCP'', Some ''tcp''), (''RTSP'', Some ''rtsp''), (''RTP'', Some ''rtp''),
     (''RTPMANAGER'', Some ''rtpmanager''), (''SOUP'', Some ''soup''), (''UDP'', Some ''udp''),
     (''DATAURISRC'', Some ''dataurisrc''), (''SDP'', Some ''sdp'')]"

definition editing_registered :: "guarded_line list" where
  "editing_registered = in_category ''EDITING''
    [(''GNONLIN'', Some ''gnonlin'')]"

definition all_registered :: "guarded_line list" where
  "all_registered = core_registered @ capture_registered @ codecs_restricted_registered @ encoding_registered @
     codecs_gpl_registered @ net_restricted_registered @ sys_registered @ vis_registered @
     playback_registered @ effects_registered @ codecs_registered @ net_registered @
     editing_registered"

lemmas registered_lines = all_registered_def core_registered_def capture_registered_def codecs_restricted_registered_def encoding_registered_def codecs_gpl_registered_def net_restricted_registered_def sys_registered_def vis_registered_def playback_registered_def effects_registered_def codecs_registered_def net_registered_def editing_registered_def

section \<open>The stubs\<close>

text \<open>The functions of \<^verbatim>\<open>GStreamerPluginStubs.c\<close>, whose bodies are empty.\<close>

definition plugin_stubs :: "string list" where
  "plugin_stubs = map register_function
    [''adder'', ''app'', ''audioconvert'', ''audiorate'', ''audioresample'', ''audiotestsrc'',
     ''autodetect'', ''coreelements'', ''gio'', ''jpeg'', ''osxaudio'', ''playback'',
     ''typefindfunctions'', ''videoconvert'', ''videofilter'', ''videorate'', ''videoscale'',
     ''videotestsrc'', ''volume'']"

text \<open>
  What a call of a plugin's function does when the program is linked: a stub does nothing, another function is
  the library's.
\<close>

definition linked_register :: "(string \<Rightarrow> 'r \<Rightarrow> 'r) \<Rightarrow> string \<Rightarrow> 'r \<Rightarrow> 'r" where
  "linked_register external name r = (if name \<in> set plugin_stubs then r else external name r)"

section \<open>The initialisation\<close>

text \<open>
  The libraries' part: building a file name, starting GStreamer in an environment, the TLS module, looking a
  feature up in the registry and setting its rank.
\<close>

record 'r gst_library =
  build_filename :: "string list \<Rightarrow> string"
  gst_init :: "(string \<rightharpoonup> string) \<Rightarrow> 'r"
  load_gnutls :: "'r \<Rightarrow> 'r"
  lookup_feature :: "'r \<Rightarrow> string \<Rightarrow> bool"
  set_rank :: "string \<Rightarrow> int \<Rightarrow> 'r \<Rightarrow> 'r"

record directories =
  resources_dir :: string
  tmp_dir :: string
  cache_dir :: string
  docs_dir :: string

definition g_setenv :: "string \<Rightarrow> string \<Rightarrow> bool \<Rightarrow> (string \<rightharpoonup> string) \<Rightarrow> (string \<rightharpoonup> string)" where
  "g_setenv variable v overwrite env = (if overwrite \<or> env variable = None then env(variable \<mapsto> v) else env)"

definition init_environment :: "(string list \<Rightarrow> string) \<Rightarrow> directories \<Rightarrow> (string \<times> string) list" where
  "init_environment build_name d =
     [(''TMP'', tmp_dir d), (''TEMP'', tmp_dir d), (''TMPDIR'', tmp_dir d),
      (''XDG_RUNTIME_DIR'', resources_dir d), (''XDG_CACHE_HOME'', cache_dir d),
      (''HOME'', docs_dir d), (''XDG_DATA_DIRS'', resources_dir d), (''XDG_CONFIG_DIRS'', resources_dir d),
      (''XDG_CONFIG_HOME'', cache_dir d), (''XDG_DATA_HOME'', resources_dir d),
      (''FONTCONFIG_PATH'', resources_dir d),
      (''CA_CERTIFICATES'', build_name [resources_dir d, ''ssl'', ''certs'', ''ca-certifcates.crt''])]"

definition GST_RANK_SECONDARY :: int where "GST_RANK_SECONDARY = 128"

definition lower_rank :: "'r gst_library \<Rightarrow> string \<Rightarrow> int \<Rightarrow> 'r \<Rightarrow> 'r" where
  "lower_rank lib feature rank reg = (if lookup_feature lib reg feature then set_rank lib feature rank reg else reg)"

definition gst_ios_init ::
  "'r gst_library \<Rightarrow> (string \<Rightarrow> 'r \<Rightarrow> 'r) \<Rightarrow> string list \<Rightarrow> directories \<Rightarrow> (string \<rightharpoonup> string) \<Rightarrow>
     (string \<rightharpoonup> string) \<times> 'r" where
  "gst_ios_init lib external config d env =
     (let env = fold (\<lambda>(variable, v). g_setenv variable v True) (init_environment (build_filename lib) d) env;
          reg = gst_init lib env;
          reg = fold (\<lambda>name. linked_register external (register_function name)) (preprocess config all_registered) reg;
          reg = (if ''GST_IOS_GIO_MODULE_GNUTLS'' \<in> set config then load_gnutls lib reg else reg);
          reg = lower_rank lib ''filesrc'' GST_RANK_SECONDARY reg
      in (env, lower_rank lib ''giosrc'' (GST_RANK_SECONDARY - 1) reg))"

section \<open>Macros\<close>

lemma macros_differ [simp]:
  "plugin_macro p = plugin_macro q \<longleftrightarrow> p = q" "category_macro c = category_macro e \<longleftrightarrow> c = e"
  "plugin_macro p \<noteq> category_macro c" "category_macro c \<noteq> plugin_macro p"
  "''GST_IOS_GIO_MODULE_GNUTLS'' \<noteq> plugin_macro p" "''GST_IOS_GIO_MODULE_GNUTLS'' \<noteq> category_macro c"
  by (simp_all add: plugin_macro_def category_macro_def)

lemma register_function_eq [simp]: "register_function a = register_function b \<longleftrightarrow> a = b"
  by (simp add: register_function_def)

lemma preprocess_append: "preprocess config (xs @ ys) = preprocess config xs @ preprocess config ys"
  by (simp add: preprocess_def)

text \<open>A category that is on leaves every statement in it; one that is off leaves the plugins asked for by name.\<close>

lemma preprocess_category_on:
  "category_macro c \<in> set config \<Longrightarrow> preprocess config (in_category c ps) = List.map_filter snd ps"
  by (induction ps) (auto simp: preprocess_def in_category_def List.map_filter_simps split: option.split)

lemma preprocess_category_off:
  "category_macro c \<notin> set config \<Longrightarrow>
     preprocess config (in_category c ps) = List.map_filter snd (filter (\<lambda>(p, _). plugin_macro p \<in> set config) ps)"
  by (induction ps) (auto simp: preprocess_def in_category_def List.map_filter_simps split: option.split)

lemma header_macros [simp]:
  "category_macro c \<in> set header_config \<longleftrightarrow> c = ''CORE'' \<or> c = ''CAPTURE'' \<or> c = ''SYS'' \<or> c = ''PLAYBACK''"
  "plugin_macro p \<in> set header_config \<longleftrightarrow> p = ''JPEG''"
  "''GST_IOS_GIO_MODULE_GNUTLS'' \<notin> set header_config"
  by (auto simp: header_config_def)

lemma all_declared_is_registered: "all_declared = all_registered"
  unfolding declared_lines registered_lines by (rule refl)

text \<open>
  The two lists of the file agree: whatever configuration the header has, a plugin is registered exactly when
  its function was declared, in the same order.
\<close>

theorem registered_as_declared:
  "preprocess config all_registered = preprocess config all_declared"
  by (simp only: all_declared_is_registered)

section \<open>The program's configuration\<close>

lemma header_plugins:
  "preprocess header_config all_registered =
     [''coreelements'', ''adder'', ''app'', ''audioconvert'', ''audiorate'', ''audioresample'', ''audiotestsrc'',
      ''gio'', ''typefindfunctions'', ''videoconvert'', ''videorate'', ''videoscale'', ''videotestsrc'',
      ''volume'', ''autodetect'', ''videofilter'', ''osxaudio'', ''playback'', ''jpeg'']"
  by (simp add: registered_lines preprocess_append preprocess_category_on preprocess_category_off
      List.map_filter_simps)

lemma stubs_needed:
  "register_function ` set (preprocess header_config all_registered) = set plugin_stubs"
  unfolding header_plugins plugin_stubs_def set_map
  by (rule arg_cong[where f = "\<lambda>A. register_function ` A"]) auto

text \<open>
  The stubs are what the program needs: each function the header's configuration calls is one of them, called
  once, and none of them is left over.
\<close>

theorem stubs_are_exact:
  "distinct (preprocess header_config all_registered) \<and>
   register_function ` set (preprocess header_config all_registered) = set plugin_stubs"
  using stubs_needed by (simp add: header_plugins)

lemma stub_calls:
  "\<forall>n \<in> set names. register_function n \<in> set plugin_stubs \<Longrightarrow>
     fold (\<lambda>name. linked_register external (register_function name)) names r = r"
  by (induction names arbitrary: r) (simp_all add: linked_register_def)

text \<open>
  C33. So the program needs no function of a plugin: under the header's configuration the registry after the
  initialisation is the one GStreamer starts with, the ranks of the two features lowered if it has them,
  whatever the functions of the other plugins would do.
\<close>

theorem init_registry:
  "snd (gst_ios_init lib external header_config d env) =
     lower_rank lib ''giosrc'' 127 (lower_rank lib ''filesrc'' 128
       (gst_init lib (fst (gst_ios_init lib external header_config d env))))"
proof -
  have "fold (\<lambda>name. linked_register external (register_function name)) (preprocess header_config all_registered) r = r"
    for r :: 'a
  proof -
    have "\<forall>n \<in> set (preprocess header_config all_registered). register_function n \<in> set plugin_stubs"
      using stubs_needed by blast
    then show ?thesis by (rule stub_calls)
  qed
  then show ?thesis by (simp add: gst_ios_init_def Let_def GST_RANK_SECONDARY_def)
qed

text \<open>
  The environment GStreamer starts in: whatever it was before, the temporary directories, the caches, the data
  and the certificates are the application's own, and no other variable is changed.
\<close>

theorem init_environment_set:
  "fst (gst_ios_init lib external config d env) v =
     (if v \<in> {''TMP'', ''TEMP'', ''TMPDIR''} then Some (tmp_dir d)
      else if v \<in> {''XDG_CACHE_HOME'', ''XDG_CONFIG_HOME''} then Some (cache_dir d)
      else if v = ''HOME'' then Some (docs_dir d)
      else if v \<in> {''XDG_RUNTIME_DIR'', ''XDG_DATA_DIRS'', ''XDG_CONFIG_DIRS'', ''XDG_DATA_HOME'', ''FONTCONFIG_PATH''}
      then Some (resources_dir d)
      else if v = ''CA_CERTIFICATES''
      then Some (build_filename lib [resources_dir d, ''ssl'', ''certs'', ''ca-certifcates.crt''])
      else env v)"
  by (simp add: gst_ios_init_def init_environment_def g_setenv_def Let_def)

end
