(* ===== verification/Signals.thy ===== *)
theory Signals
  imports Prelude
begin

text \<open>
  GObject references and signal handlers as the wrappers use them, and the contract between a wrapper and the
  object it wraps: what its initialiser attaches, its \<open>dealloc\<close> detaches.  Each class of the package discharges
  the contract for its own two methods; what follows from it is proved here once.
\<close>

section \<open>Objects and handlers\<close>

text \<open>
  An object of the library: how many references are held, and its handlers in the order they were connected, each
  with the signal, the function and the data pointer, which is the wrapper.
\<close>

record 'f gobject =
  go_refs :: nat
  go_handlers :: "(string \<times> 'f \<times> objref) list"

definition g_object_ref :: "('f, 'z) gobject_scheme \<Rightarrow> ('f, 'z) gobject_scheme" where
  "g_object_ref ob = ob\<lparr>go_refs := go_refs ob + 1\<rparr>"

definition g_object_unref :: "('f, 'z) gobject_scheme \<Rightarrow> ('f, 'z) gobject_scheme" where
  "g_object_unref ob = ob\<lparr>go_refs := go_refs ob - 1\<rparr>"

definition g_signal_connect ::
  "string \<Rightarrow> 'f \<Rightarrow> objref \<Rightarrow> ('f, 'z) gobject_scheme \<Rightarrow> ('f, 'z) gobject_scheme" where
  "g_signal_connect signal f d ob = ob\<lparr>go_handlers := go_handlers ob @ [(signal, f, d)]\<rparr>"

definition g_signal_handlers_disconnect_by_func ::
  "'f \<Rightarrow> objref \<Rightarrow> ('f, 'z) gobject_scheme \<Rightarrow> ('f, 'z) gobject_scheme" where
  "g_signal_handlers_disconnect_by_func f d ob =
     ob\<lparr>go_handlers := filter (\<lambda>(_, g, e). \<not> (g = f \<and> e = d)) (go_handlers ob)\<rparr>"

definition g_signal_handlers_disconnect_by_data ::
  "objref \<Rightarrow> ('f, 'z) gobject_scheme \<Rightarrow> ('f, 'z) gobject_scheme" where
  "g_signal_handlers_disconnect_by_data d ob =
     ob\<lparr>go_handlers := filter (\<lambda>(_, _, e). e \<noteq> d) (go_handlers ob)\<rparr>"

text \<open>Several connections or disconnections in a row.\<close>

definition connect_all ::
  "objref \<Rightarrow> (string \<times> 'f) list \<Rightarrow> ('f, 'z) gobject_scheme \<Rightarrow> ('f, 'z) gobject_scheme" where
  "connect_all self cs ob = fold (\<lambda>(signal, f). g_signal_connect signal f self) cs ob"

definition disconnect_all ::
  "objref \<Rightarrow> 'f list \<Rightarrow> ('f, 'z) gobject_scheme \<Rightarrow> ('f, 'z) gobject_scheme" where
  "disconnect_all self fs ob = fold (\<lambda>f. g_signal_handlers_disconnect_by_func f self) fs ob"

text \<open>The functions an emission calls for one wrapper, in order.\<close>

definition hears :: "objref \<Rightarrow> string \<Rightarrow> ('f, 'z) gobject_scheme \<Rightarrow> 'f list" where
  "hears self signal ob = map (\<lambda>(_, f, _). f) (filter (\<lambda>(s, _, d). s = signal \<and> d = self) (go_handlers ob))"

definition tagged :: "objref \<Rightarrow> (string \<times> 'f) list \<Rightarrow> (string \<times> 'f \<times> objref) list" where
  "tagged self cs = map (\<lambda>(s, f). (s, f, self)) cs"

lemma tagged_own [simp]:
  "filter (\<lambda>(_, _, d). d \<noteq> self) (tagged self cs) = []"
  "filter (\<lambda>(_, _, d). d = self) (tagged self cs) = tagged self cs"
  "(s, f, d) \<in> set (tagged self cs) \<longleftrightarrow> d = self \<and> (s, f) \<in> set cs"
  by (auto simp: tagged_def filter_empty_conv filter_id_conv)

lemma connect_all_fields [simp]:
  "go_handlers (connect_all self cs ob) = go_handlers ob @ tagged self cs"
  "go_refs (connect_all self cs ob) = go_refs ob"
  "gobject.more (connect_all self cs ob) = gobject.more ob"
  by (induction cs arbitrary: ob) (auto simp: connect_all_def g_signal_connect_def tagged_def)

lemma disconnect_all_fields [simp]:
  "go_handlers (disconnect_all self fs ob) = filter (\<lambda>(_, f, d). \<not> (f \<in> set fs \<and> d = self)) (go_handlers ob)"
  "go_refs (disconnect_all self fs ob) = go_refs ob"
  "gobject.more (disconnect_all self fs ob) = gobject.more ob"
proof (induction fs arbitrary: ob)
  case (Cons f fs)
  { case 1 show ?case using Cons.IH
      by (auto simp: disconnect_all_def g_signal_handlers_disconnect_by_func_def intro!: filter_cong) }
  { case 2 show ?case using Cons.IH by (simp add: disconnect_all_def g_signal_handlers_disconnect_by_func_def) }
  { case 3 show ?case using Cons.IH by (simp add: disconnect_all_def g_signal_handlers_disconnect_by_func_def) }
qed (simp_all add: disconnect_all_def case_prod_unfold)

lemma ref_fields [simp]:
  "go_handlers (g_object_ref ob) = go_handlers ob" "go_refs (g_object_ref ob) = go_refs ob + 1"
  "gobject.more (g_object_ref ob) = gobject.more ob"
  "go_handlers (g_object_unref ob) = go_handlers ob" "go_refs (g_object_unref ob) = go_refs ob - 1"
  "gobject.more (g_object_unref ob) = gobject.more ob"
  by (simp_all add: g_object_ref_def g_object_unref_def)

lemma disconnect_by_data_fields [simp]:
  "go_handlers (g_signal_handlers_disconnect_by_data d ob) = filter (\<lambda>(_, _, e). e \<noteq> d) (go_handlers ob)"
  "go_refs (g_signal_handlers_disconnect_by_data d ob) = go_refs ob"
  "gobject.more (g_signal_handlers_disconnect_by_data d ob) = gobject.more ob"
  by (simp_all add: g_signal_handlers_disconnect_by_data_def)

section \<open>The contract\<close>

text \<open>
  \<open>attach\<close> takes a reference and connects \<open>connections\<close>; \<open>detach\<close> gives the reference back and, if the wrapper
  has connected no other function, disconnects everything that is its own.
\<close>

locale signal_wrapper =
  fixes attach detach :: "objref \<Rightarrow> ('f, 'z) gobject_scheme \<Rightarrow> ('f, 'z) gobject_scheme"
    and connections :: "(string \<times> 'f) list"
  assumes attach_fields:
      "go_handlers (attach self ob) = go_handlers ob @ tagged self connections"
      "go_refs (attach self ob) = go_refs ob + 1" "gobject.more (attach self ob) = gobject.more ob"
    and detach_handlers:
      "(\<And>s f. (s, f, self) \<in> set (go_handlers ob) \<Longrightarrow> f \<in> snd ` set connections) \<Longrightarrow>
         go_handlers (detach self ob) = filter (\<lambda>(_, _, d). d \<noteq> self) (go_handlers ob)"
    and detach_fields:
      "go_refs (detach self ob) = go_refs ob - 1" "gobject.more (detach self ob) = gobject.more ob"
begin

lemma attached_hears:
  assumes "\<And>s f. (s, f, self) \<notin> set (go_handlers ob)"
  shows "hears self signal (attach self ob) = map snd (filter (\<lambda>(s, _). s = signal) connections)"
proof -
  have "filter (\<lambda>(s, _, d). s = signal \<and> d = self) (go_handlers ob) = []"
    using assms by (auto simp: filter_empty_conv)
  then show ?thesis
    by (simp add: hears_def attach_fields tagged_def filter_map o_def case_prod_unfold)
qed

lemma detached_hears_nothing:
  assumes "\<And>s f. (s, f, self) \<in> set (go_handlers ob) \<Longrightarrow> f \<in> snd ` set connections"
  shows "hears self signal (detach self ob) = []"
  using detach_handlers[of self ob] assms by (auto simp: hears_def filter_empty_conv)

text \<open>Whatever others do with the object in between, nothing of the wrapper stays, and nothing of theirs goes.\<close>

lemma released:
  assumes "\<And>s f. (s, f, self) \<notin> set (go_handlers ob)" "\<And>s f. (s, f, self) \<notin> set later"
    and "ob2 = attach self ob" "ob3 = ob2\<lparr>go_handlers := go_handlers ob2 @ later, go_refs := go_refs ob2 + n\<rparr>"
  shows "detach self ob3 = ob3\<lparr>go_handlers := go_handlers ob @ later, go_refs := go_refs ob + n\<rparr>"
proof -
  have kept: "filter (\<lambda>(_, _, d). d \<noteq> self) hs = hs" if "\<And>s f. (s, f, self) \<notin> set hs" for hs :: "(string \<times> 'f \<times> objref) list"
    using that by (intro filter_True) auto
  have ob3: "go_handlers ob3 = go_handlers ob @ tagged self connections @ later" "go_refs ob3 = go_refs ob + 1 + n"
    by (simp_all add: assms(3,4) attach_fields)
  have "go_handlers (detach self ob3) = filter (\<lambda>(_, _, d). d \<noteq> self) (go_handlers ob3)"
    using assms(1,2) by (intro detach_handlers) (auto simp: ob3 intro: rev_image_eqI)
  then have "go_handlers (detach self ob3) = go_handlers ob @ later"
    unfolding ob3(1) filter_append kept[OF assms(1)] kept[OF assms(2)] by simp
  then show ?thesis
    by (intro gobject.equality) (simp_all add: detach_fields ob3)
qed

end

text \<open>The methods of most classes: a row of connections after a reference, and the same functions disconnected.\<close>

lemma disconnect_row:
  assumes "\<And>s f. (s, f, self) \<in> set (go_handlers ob) \<Longrightarrow> f \<in> snd ` set cs" "snd ` set cs \<subseteq> set fs"
  shows "go_handlers (disconnect_all self fs ob) = filter (\<lambda>(_, _, d). d \<noteq> self) (go_handlers ob)"
  using assms by (auto intro!: filter_cong)

lemma row_wrapper:
  assumes "snd ` set cs \<subseteq> set fs"
  shows "signal_wrapper (\<lambda>self ob. connect_all self cs (g_object_ref ob))
     (\<lambda>self ob. g_object_unref (disconnect_all self fs ob)) cs"
proof
  show "go_handlers (g_object_unref (disconnect_all self fs ob)) = filter (\<lambda>(_, _, d). d \<noteq> self) (go_handlers ob)"
    if "\<And>s f. (s, f, self) \<in> set (go_handlers ob) \<Longrightarrow> f \<in> snd ` set cs" for self and ob :: "('a, 'b) gobject_scheme"
    using disconnect_row[OF that assms] by simp
qed simp_all

end
