(* ===== verification/Usb_Manager.thy ===== *)
theory Usb_Manager
  imports Usb Signals
begin

text \<open>
  The rest of \<^verbatim>\<open>CSUSBDevice.m\<close> and \<^verbatim>\<open>CSUSBManager.m\<close>: the name a device is listed under, its description and
  comparison, the signals the manager's wrapper listens to from its creation to its release, and the properties
  it forwards to the library's object.  Shown: devices at different places never have one name, and a released
  wrapper hears no signal and leaves the library's object as it was.
\<close>

section \<open>The name of a device\<close>

text \<open>Decimal digits, as \<open>%ld\<close> prints a number that is not negative.\<close>

definition digit :: "nat \<Rightarrow> guint8" where "digit d = of_nat (48 + d)"

fun decimal :: "nat \<Rightarrow> guint8 list" where
  "decimal n = (if n < 10 then [digit n] else decimal (n div 10) @ [digit (n mod 10)])"

declare decimal.simps [simp del]

definition format_long :: "int \<Rightarrow> guint8 list" where
  "format_long i = (if i < 0 then 45 # decimal (nat (- i)) else decimal (nat i))"

text \<open>\<open>"%@ (%ld:%ld)"\<close>, in ASCII.\<close>

definition name_format :: "guint8 list \<Rightarrow> int \<Rightarrow> int \<Rightarrow> guint8 list" where
  "name_format product bus port = product @ [32, 40] @ format_long bus @ [58] @ format_long port @ [41]"

definition device_name :: "libusb_device \<Rightarrow> cs_usb_device \<Rightarrow> guint8 list option \<times> cs_usb_device" where
  "device_name dev self =
     (let (present, self) = usbProductName dev self
      in if present \<noteq> None
         then (let (product, self) = usbProductName dev self
               in (Some (name_format (the product) (usbBusNumber dev) (usbPortNumber dev)), self))
         else (None, self))"

text \<open>The description is the library's text, and empty where it has none; the hash is the text's.\<close>

definition device_description :: "'s option \<Rightarrow> ('s \<Rightarrow> string) \<Rightarrow> string" where
  "device_description library_text stringWithUTF8String =
     (case library_text of None \<Rightarrow> [] | Some text_found \<Rightarrow> stringWithUTF8String text_found)"

definition device_hash :: "(string \<Rightarrow> nat) \<Rightarrow> 's option \<Rightarrow> ('s \<Rightarrow> string) \<Rightarrow> nat" where
  "device_hash string_hash library_text stringWithUTF8String =
     string_hash (device_description library_text stringWithUTF8String)"

text \<open>\<open>isEqual:\<close> of an object that is the receiver itself, something else, or another device's wrapper.\<close>

datatype other_object = Same_object | Not_a_device | Another libusb_device cs_usb_device

definition device_isEqual :: "libusb_device \<Rightarrow> cs_usb_device \<Rightarrow> other_object \<Rightarrow> bool" where
  "device_isEqual dev self other =
     (case other of
        Same_object \<Rightarrow> True
      | Not_a_device \<Rightarrow> False
      | Another dev2 self2 \<Rightarrow> fst (isEqualToUSBDevice dev dev2 (self, self2)))"

section \<open>The signals of the manager\<close>

text \<open>The library's object, with its properties.\<close>

datatype gobject_value = Boolean_value bool | Int_value int | String_value string

record spice_usb_manager = "string gobject" +
  mgr_properties :: "string \<Rightarrow> gobject_value"

definition usb_manager_connections :: "(string \<times> string) list" where
  "usb_manager_connections =
     [(''auto-connect-failed'', ''CSUSBManager.cs_device_error''), (''device-error'', ''CSUSBManager.cs_device_error''),
      (''device-added'', ''CSUSBManager.cs_device_added''), (''device-removed'', ''CSUSBManager.cs_device_removed'')]"

definition initWithUsbDeviceManager ::
  "objref \<Rightarrow> (string, 'z) gobject_scheme \<Rightarrow> (string, 'z) gobject_scheme" where
  "initWithUsbDeviceManager self m = connect_all self usb_manager_connections (g_object_ref m)"

text \<open>The block \<open>dealloc\<close> runs with \<open>syncWith:\<close>.\<close>

definition manager_dealloc ::
  "objref \<Rightarrow> (string, 'z) gobject_scheme \<Rightarrow> (string, 'z) gobject_scheme" where
  "manager_dealloc self m =
     g_object_unref (disconnect_all self
       [''CSUSBManager.cs_device_error'', ''CSUSBManager.cs_device_error'', ''CSUSBManager.cs_device_added'',
        ''CSUSBManager.cs_device_removed''] m)"

interpretation usb_manager: signal_wrapper initWithUsbDeviceManager manager_dealloc usb_manager_connections
  unfolding initWithUsbDeviceManager_def manager_dealloc_def
  by (rule row_wrapper) (simp add: usb_manager_connections_def)

text \<open>
  What the emission of a signal tells the delegates: each connected function is called with its object, in the
  order of connection; only an error comes with a message, which may be the cancellation of an operation.
\<close>

definition run_callback ::
  "string \<Rightarrow> bool \<Rightarrow> bool \<Rightarrow> string \<Rightarrow> objref \<Rightarrow> usb_event list" where
  "run_callback f has_delegate cancelled message device =
     (if f = ''CSUSBManager.cs_device_error'' then cs_device_error has_delegate cancelled message device
      else if f = ''CSUSBManager.cs_device_added'' then cs_device_added has_delegate device
      else if f = ''CSUSBManager.cs_device_removed'' then cs_device_removed has_delegate device
      else [])"

definition emit_usb ::
  "spice_usb_manager \<Rightarrow> (objref \<Rightarrow> bool) \<Rightarrow> string \<Rightarrow> bool \<Rightarrow> string \<Rightarrow> objref \<Rightarrow> (objref \<times> usb_event) list" where
  "emit_usb m has_delegate signal cancelled message device =
     concat (map (\<lambda>(s, f, self). map (Pair self) (run_callback f (has_delegate self) cancelled message device))
       (filter (\<lambda>(s, _). s = signal) (go_handlers m)))"

section \<open>Forwarded properties\<close>

text \<open>
  \<open>g_object_get\<close> writes a value of the property's own type; reading it into a variable of another type has no
  defined result.
\<close>

definition get_boolean :: "string \<Rightarrow> spice_usb_manager \<Rightarrow> bool option" where
  "get_boolean prop m = (case mgr_properties m prop of Boolean_value b \<Rightarrow> Some b | _ \<Rightarrow> None)"

definition set_property :: "string \<Rightarrow> gobject_value \<Rightarrow> spice_usb_manager \<Rightarrow> spice_usb_manager" where
  "set_property prop v m = m\<lparr>mgr_properties := (mgr_properties m)(prop := v)\<rparr>"

definition isAutoConnect :: "spice_usb_manager \<Rightarrow> bool option" where
  "isAutoConnect = get_boolean ''auto-connect''"

definition setIsAutoConnect :: "bool \<Rightarrow> spice_usb_manager \<Rightarrow> spice_usb_manager" where
  "setIsAutoConnect b = set_property ''auto-connect'' (Boolean_value b)"

definition autoConnectFilter :: "spice_usb_manager \<Rightarrow> string option" where
  "autoConnectFilter m =
     (case mgr_properties m ''auto-connect-filter'' of String_value s \<Rightarrow> Some s | _ \<Rightarrow> None)"

definition setAutoConnectFilter :: "string \<Rightarrow> spice_usb_manager \<Rightarrow> spice_usb_manager" where
  "setAutoConnectFilter s = set_property ''auto-connect-filter'' (String_value s)"

definition isRedirectOnConnect :: "spice_usb_manager \<Rightarrow> bool option" where
  "isRedirectOnConnect = get_boolean ''redirect-on-connect''"

definition setIsRedirectOnConnect :: "bool \<Rightarrow> spice_usb_manager \<Rightarrow> spice_usb_manager" where
  "setIsRedirectOnConnect b = set_property ''redirect-on-connect'' (Boolean_value b)"

definition numberFreeChannels :: "spice_usb_manager \<Rightarrow> int option" where
  "numberFreeChannels m = (case mgr_properties m ''free-channels'' of Int_value i \<Rightarrow> Some i | _ \<Rightarrow> None)"

text \<open>The library's answers: whether it is busy redirecting, and whether a device is connected.\<close>

definition isBusy :: "(spice_usb_manager \<Rightarrow> bool) \<Rightarrow> spice_usb_manager \<Rightarrow> bool" where
  "isBusy is_redirecting m = is_redirecting m"

definition isUsbDeviceConnected ::
  "(spice_usb_manager \<Rightarrow> objref \<Rightarrow> bool) \<Rightarrow> spice_usb_manager \<Rightarrow> cs_usb_device \<Rightarrow> bool" where
  "isUsbDeviceConnected is_device_connected m dev = is_device_connected m (usb_device dev)"

section \<open>Names tell devices apart\<close>

lemma unat_digit: "d < 10 \<Longrightarrow> unat (digit d) = 48 + d"
  unfolding digit_def by (subst unat_of_nat) simp

lemma digit_eq: "d < 10 \<Longrightarrow> e < 10 \<Longrightarrow> digit d = digit e \<longleftrightarrow> d = e"
  using unat_digit[of d] unat_digit[of e] by (metis add_left_cancel)

lemma digit_range: "d < 10 \<Longrightarrow> 48 \<le> digit d \<and> digit d \<le> 57"
  by (simp add: word_le_nat_alt unat_digit)

lemma decimal_digits: "c \<in> set (decimal n) \<Longrightarrow> 48 \<le> c \<and> c \<le> 57"
proof (induction n rule: decimal.induct)
  case (1 n)
  then show ?case using digit_range[of n] digit_range[of "n mod 10"]
    by (subst (asm) (2) decimal.simps) (auto split: if_splits)
qed

lemma decimal_nonempty [simp]: "decimal n \<noteq> []" "[] \<noteq> decimal n"
  by (subst decimal.simps, simp)+

lemma decimal_inject: "decimal m = decimal n \<Longrightarrow> m = n"
proof (induction m arbitrary: n rule: decimal.induct)
  case (1 m)
  show ?case
  proof (cases "m < 10"; cases "n < 10")
    assume "m < 10" "n < 10"
    then show ?thesis using 1(2) digit_eq by (simp add: decimal.simps[of m] decimal.simps[of n])
  next
    assume m: "\<not> m < 10" and n: "\<not> n < 10"
    then have "decimal (m div 10) = decimal (n div 10)" "digit (m mod 10) = digit (n mod 10)"
      using 1(2) by (simp_all add: decimal.simps[of m] decimal.simps[of n])
    then have "m div 10 = n div 10" "m mod 10 = n mod 10"
      using 1(1)[OF m] digit_eq[of "m mod 10" "n mod 10"] by simp_all
    then show ?thesis by (metis div_mult_mod_eq)
  qed (use 1(2) in \<open>simp_all add: decimal.simps[of m] decimal.simps[of n]\<close>)
qed

text \<open>A text that ends in digits after a separator has one last separator.\<close>

lemma last_separator:
  assumes "xs @ [c] @ ds = ys @ [c] @ es" "c \<notin> set ds" "c \<notin> set es"
  shows "xs = ys \<and> ds = es"
proof -
  have "rev ds @ c # rev xs = rev es @ c # rev ys"
    using arg_cong[OF assms(1), of rev] by simp
  moreover have "takeWhile (\<lambda>x. x \<noteq> c) (rev ds @ c # rev xs) = rev ds"
    "takeWhile (\<lambda>x. x \<noteq> c) (rev es @ c # rev ys) = rev es"
    using assms(2,3) by (auto intro!: trans[OF takeWhile_append2])
  ultimately have "rev ds = rev es" by (simp only:)
  then show ?thesis using assms(1) by simp
qed

lemma format_place: "0 \<le> i \<Longrightarrow> format_long i = decimal (nat i)"
  by (simp add: format_long_def)

lemma separators_not_digits: "c \<notin> {48..57} \<Longrightarrow> c \<notin> set (decimal n)"
  using decimal_digits by (fastforce simp: atLeastAtMost_iff)

lemma name_format_inject:
  assumes "name_format p1 b1 q1 = name_format p2 b2 q2" "0 \<le> b1" "0 \<le> b2" "0 \<le> q1" "0 \<le> q2"
  shows "p1 = p2 \<and> b1 = b2 \<and> q1 = q2"
proof -
  have "(p1 @ [32, 40] @ decimal (nat b1)) @ [58] @ decimal (nat q1) =
      (p2 @ [32, 40] @ decimal (nat b2)) @ [58] @ decimal (nat q2)"
    using assms by (simp add: name_format_def format_place)
  from last_separator[OF this] have front: "p1 @ [32, 40] @ decimal (nat b1) = p2 @ [32, 40] @ decimal (nat b2)"
    and port: "decimal (nat q1) = decimal (nat q2)"
    by (simp_all add: separators_not_digits)
  have "(p1 @ [32]) @ [40] @ decimal (nat b1) = (p2 @ [32]) @ [40] @ decimal (nat b2)" using front by simp
  from last_separator[OF this] have "p1 = p2" "decimal (nat b1) = decimal (nat b2)"
    by (simp_all add: separators_not_digits)
  then show ?thesis using decimal_inject port assms(2-5) by (metis nat_0_le)
qed

text \<open>
  C34. The name identifies the place: two devices that have a name are listed under the same one exactly if their
  product strings are the same and they are plugged into the same port of the same bus; no product string can
  imitate another device's place.
\<close>

theorem device_name_identifies:
  assumes "fst (device_name d1 s1) = Some n1" "fst (device_name d2 s2) = Some n2"
  shows "n1 = n2 \<longleftrightarrow> fst (usbProductName d1 s1) = fst (usbProductName d2 s2) \<and>
    usbBusNumber d1 = usbBusNumber d2 \<and> usbPortNumber d1 = usbPortNumber d2"
proof -
  have name: "\<exists>p. fst (usbProductName d s) = Some p \<and> n = name_format p (usbBusNumber d) (usbPortNumber d)"
    if "fst (device_name d s) = Some n" for d s n
    using that by (auto simp: device_name_def usb_getters usb_known_again Let_def split: if_splits)
  obtain p1 p2 where "fst (usbProductName d1 s1) = Some p1" "fst (usbProductName d2 s2) = Some p2"
    "n1 = name_format p1 (usbBusNumber d1) (usbPortNumber d1)"
    "n2 = name_format p2 (usbBusNumber d2) (usbPortNumber d2)"
    using name[OF assms(1)] name[OF assms(2)] by blast
  then show ?thesis
    using name_format_inject[of p1 "usbBusNumber d1" "usbPortNumber d1" p2 "usbBusNumber d2" "usbPortNumber d2"]
    by (auto simp: usbBusNumber_def usbPortNumber_def)
qed

text \<open>One device, and another of its kind in the next port.\<close>

definition sample_in_port :: "guint8 \<Rightarrow> libusb_device" where
  "sample_in_port port = sample_usb\<lparr>port_number := port\<rparr>"

lemma sample_product: "fst (usbProductName (sample_in_port port) (usbDeviceWithDevice 7)) = Some [0x4d, 0x6f, 0x75, 0x73, 0x65]"
  by (simp add: usb_getters usb_known_def usbDeviceWithDevice_def readDescriptors_def sample_in_port_def sample_usb_def
      Let_def read_name_def write_name_def name_size_def)

lemma sample_name:
  "fst (device_name (sample_in_port port) (usbDeviceWithDevice 7)) =
     Some (name_format [0x4d, 0x6f, 0x75, 0x73, 0x65] 1 (uint port))"
proof -
  obtain self where self: "usbProductName (sample_in_port port) (usbDeviceWithDevice 7) =
      (Some [0x4d, 0x6f, 0x75, 0x73, 0x65], self)"
    using sample_product[of port] by (cases "usbProductName (sample_in_port port) (usbDeviceWithDevice 7)") simp
  then have "usbProductName (sample_in_port port) self = (Some [0x4d, 0x6f, 0x75, 0x73, 0x65], self)"
    by (auto simp: usb_getters usb_known_again)
  then have "fst (device_name (sample_in_port port) (usbDeviceWithDevice 7)) = Some (name_format
      [0x4d, 0x6f, 0x75, 0x73, 0x65] (usbBusNumber (sample_in_port port)) (usbPortNumber (sample_in_port port)))"
    by (simp add: device_name_def self)
  then show ?thesis by (simp add: usbBusNumber_def usbPortNumber_def sample_in_port_def sample_usb_def)
qed

theorem device_name_identifies_witness:
  "name_format [0x4d, 0x6f, 0x75, 0x73, 0x65] 1 4 \<noteq> name_format [0x4d, 0x6f, 0x75, 0x73, 0x65] 1 5"
  using device_name_identifies[OF sample_name[of 4] sample_name[of 5]]
  by (simp add: usbPortNumber_def sample_in_port_def)

section \<open>The life of the manager's wrapper\<close>

text \<open>What the wrapper hears while it lives: each signal once.\<close>

lemma wrapper_hears:
  "emit_usb (initWithUsbDeviceManager self m) has_delegate signal cancelled message device =
     emit_usb m has_delegate signal cancelled message device @
     map (Pair self)
       (if signal = ''auto-connect-failed'' \<or> signal = ''device-error''
        then cs_device_error (has_delegate self) cancelled message device
        else if signal = ''device-added'' then cs_device_added (has_delegate self) device
        else if signal = ''device-removed'' then cs_device_removed (has_delegate self) device else [])"
  by (simp add: emit_usb_def usb_manager.attach_fields usb_manager_connections_def tagged_def run_callback_def)

text \<open>
  The wrapper of the manager takes nothing and leaves nothing: whatever other wrappers did with the library's
  object in between, after its \<open>dealloc\<close> no signal reaches it, the others hear what they would hear without it,
  and the reference it took is given back.
\<close>

theorem manager_wrapper_released:
  assumes "\<forall>h \<in> set (go_handlers m). snd (snd h) \<noteq> self" "\<forall>h \<in> set later. snd (snd h) \<noteq> self"
    and "s = initWithUsbDeviceManager self m" "t = s\<lparr>go_handlers := go_handlers s @ later, go_refs := go_refs s + n\<rparr>"
  shows "manager_dealloc self t = t\<lparr>go_handlers := go_handlers m @ later, go_refs := go_refs m + n\<rparr> \<and>
    (\<forall>has_delegate signal cancelled message device e.
       (self, e) \<notin> set (emit_usb (manager_dealloc self t) has_delegate signal cancelled message device))"
proof -
  have own: "(x, f, self) \<notin> set (go_handlers m)" "(x, f, self) \<notin> set later" for x f
    using assms(1,2) by fastforce+
  have released: "manager_dealloc self t = t\<lparr>go_handlers := go_handlers m @ later, go_refs := go_refs m + n\<rparr>"
    using own assms(3,4) by (intro usb_manager.released) simp_all
  moreover have "(self, e) \<notin> set (emit_usb (manager_dealloc self t) has_delegate signal cancelled message device)"
    for has_delegate signal cancelled message device e
    using assms(1,2) by (auto simp: emit_usb_def released)
  ultimately show ?thesis by blast
qed

theorem manager_wrapper_released_witness:
  "go_refs (manager_dealloc 5 (initWithUsbDeviceManager 5
     \<lparr>go_refs = 2, go_handlers = [(''device-added'', ''CSUSBManager.cs_device_added'', 8)], mgr_properties = (\<lambda>_. Int_value 0)\<rparr>)) = 2"
  using manager_wrapper_released[of "\<lparr>go_refs = 2, go_handlers = [(''device-added'', ''CSUSBManager.cs_device_added'', 8)],
      mgr_properties = (\<lambda>_. Int_value 0)\<rparr>" 5 "[]" _ _ 0, OF _ _ refl refl]
  by simp

text \<open>
  A property that was set is read back and sets no other, as long as the library keeps it under the type the wrapper
  uses.
\<close>

lemma forwarded_round_trip:
  "isAutoConnect (setIsAutoConnect b m) = Some b" "autoConnectFilter (setAutoConnectFilter s m) = Some s"
  "isRedirectOnConnect (setIsRedirectOnConnect b m) = Some b"
  "isAutoConnect (setAutoConnectFilter s m) = isAutoConnect m"
  "isAutoConnect (setIsRedirectOnConnect b m) = isAutoConnect m"
  "isRedirectOnConnect (setIsAutoConnect b m) = isRedirectOnConnect m"
  "numberFreeChannels (setIsAutoConnect b m) = numberFreeChannels m"
  by (simp_all add: isAutoConnect_def setIsAutoConnect_def autoConnectFilter_def setAutoConnectFilter_def
      isRedirectOnConnect_def setIsRedirectOnConnect_def numberFreeChannels_def get_boolean_def set_property_def)

end
