(* ===== verification/Wrapper_Life.thy ===== *)
theory Wrapper_Life
  imports Usb_Manager
begin

text \<open>
  The life of every wrapper on the objects of the SPICE library: what the initialisers of the package's classes
  attach to a channel, the session or the USB manager, and what their \<open>dealloc\<close> methods detach.  Shown, for any
  number of wrappers of any class created and released in any order: a living wrapper hears each of its signals
  exactly as it connected them, a released one hears nothing, every reference is given back, and a library's
  object whose wrappers are gone is as it was.
\<close>

section \<open>The classes\<close>

text \<open>\<^verbatim>\<open>CSPort.m\<close>\<close>

definition port_connections :: "(string \<times> string) list" where
  "port_connections =
     [(''notify::port-opened'', ''CSPort.cs_port_opened''), (''port-data'', ''CSPort.cs_port_data''),
      (''port-event'', ''CSPort.cs_port_event'')]"

definition port_attach :: "objref \<Rightarrow> string gobject \<Rightarrow> string gobject" where
  "port_attach self channel = connect_all self port_connections (g_object_ref channel)"

definition port_detach :: "objref \<Rightarrow> string gobject \<Rightarrow> string gobject" where
  "port_detach self channel =
     g_object_unref (disconnect_all self
       [''CSPort.cs_port_opened'', ''CSPort.cs_port_data'', ''CSPort.cs_port_event''] channel)"

text \<open>\<^verbatim>\<open>CSDisplay.m\<close>\<close>

definition display_connections :: "(string \<times> string) list" where
  "display_connections =
     [(''display-primary-create'', ''CSDisplay.cs_primary_create''),
      (''display-primary-destroy'', ''CSDisplay.cs_primary_destroy''),
      (''display-invalidate'', ''CSDisplay.cs_invalidate''), (''display-mark'', ''CSDisplay.cs_mark''),
      (''notify::monitors'', ''CSDisplay.cs_update_monitor_area''),
      (''gst-video-overlay'', ''CSDisplay.cs_set_overlay''),
      (''notify::gl-scanout'', ''CSDisplay.cs_gl_scanout''), (''gl-draw'', ''CSDisplay.cs_gl_draw'')]"

definition display_attach :: "objref \<Rightarrow> string gobject \<Rightarrow> string gobject" where
  "display_attach self channel = connect_all self display_connections (g_object_ref channel)"

definition display_detach :: "objref \<Rightarrow> string gobject \<Rightarrow> string gobject" where
  "display_detach self channel =
     g_object_unref (disconnect_all self
       [''CSDisplay.cs_primary_create'', ''CSDisplay.cs_primary_destroy'', ''CSDisplay.cs_invalidate'',
        ''CSDisplay.cs_mark'', ''CSDisplay.cs_update_monitor_area'', ''CSDisplay.cs_set_overlay'',
        ''CSDisplay.cs_gl_scanout'', ''CSDisplay.cs_gl_draw''] channel)"

text \<open>\<^verbatim>\<open>CSCursor.m\<close>: the cursor channel, and the main channel, which \<open>setSpiceMain:\<close> may change.\<close>

definition cursor_connections :: "(string \<times> string) list" where
  "cursor_connections =
     [(''notify::cursor'', ''CSCursor.cs_cursor_set''), (''cursor-move'', ''CSCursor.cs_cursor_move''),
      (''cursor-hide'', ''CSCursor.cs_cursor_hide''), (''cursor-reset'', ''CSCursor.cs_cursor_reset'')]"

definition cursor_attach :: "objref \<Rightarrow> string gobject \<Rightarrow> string gobject" where
  "cursor_attach self channel = connect_all self cursor_connections (g_object_ref channel)"

definition cursor_detach :: "objref \<Rightarrow> string gobject \<Rightarrow> string gobject" where
  "cursor_detach self channel =
     g_object_unref (disconnect_all self
       [''CSCursor.cs_cursor_set'', ''CSCursor.cs_cursor_move'', ''CSCursor.cs_cursor_hide'',
        ''CSCursor.cs_cursor_reset''] channel)"

definition cursor_main_connections :: "(string \<times> string) list" where
  "cursor_main_connections = [(''main-mouse-update'', ''CSCursor.cs_update_mouse_mode'')]"

definition cursor_main_attach :: "objref \<Rightarrow> string gobject \<Rightarrow> string gobject" where
  "cursor_main_attach self main = connect_all self cursor_main_connections (g_object_ref main)"

definition cursor_main_detach :: "objref \<Rightarrow> string gobject \<Rightarrow> string gobject" where
  "cursor_main_detach self main =
     g_object_unref (disconnect_all self [''CSCursor.cs_update_mouse_mode''] main)"

text \<open>\<^verbatim>\<open>CSSession.m\<close>: the session, and the main channel while there is one.\<close>

definition session_connections :: "(string \<times> string) list" where
  "session_connections =
     [(''channel-new'', ''CSSession.cs_channel_new''), (''channel-destroy'', ''CSSession.cs_channel_destroy'')]"

definition session_attach :: "objref \<Rightarrow> string gobject \<Rightarrow> string gobject" where
  "session_attach self session = connect_all self session_connections (g_object_ref session)"

definition session_detach :: "objref \<Rightarrow> string gobject \<Rightarrow> string gobject" where
  "session_detach self session =
     g_object_unref (disconnect_all self [''CSSession.cs_channel_new'', ''CSSession.cs_channel_destroy''] session)"

definition clipboard_connections :: "(string \<times> string) list" where
  "clipboard_connections =
     [(''main-clipboard-selection-grab'', ''CSSession.cs_clipboard_grab''),
      (''main-clipboard-selection-request'', ''CSSession.cs_clipboard_request''),
      (''main-clipboard-selection-release'', ''CSSession.cs_clipboard_release''),
      (''main-clipboard-selection'', ''CSSession.cs_clipboard_got_from_guest'')]"

definition clipboard_attach :: "objref \<Rightarrow> string gobject \<Rightarrow> string gobject" where
  "clipboard_attach self main = connect_all self clipboard_connections (g_object_ref main)"

definition clipboard_detach :: "objref \<Rightarrow> string gobject \<Rightarrow> string gobject" where
  "clipboard_detach self main =
     g_object_unref (disconnect_all self
       [''CSSession.cs_clipboard_grab'', ''CSSession.cs_clipboard_request'', ''CSSession.cs_clipboard_release'',
        ''CSSession.cs_clipboard_got_from_guest''] main)"

text \<open>\<^verbatim>\<open>CSConnection.m\<close>: \<open>spice_session_new\<close> gives the connection the session's first reference.\<close>

definition connection_connections :: "(string \<times> string) list" where
  "connection_connections =
     [(''channel-new'', ''CSConnection.cs_channel_new''), (''channel-destroy'', ''CSConnection.cs_channel_destroy''),
      (''disconnected'', ''CSConnection.cs_connection_destroy'')]"

definition connection_attach :: "objref \<Rightarrow> string gobject \<Rightarrow> string gobject" where
  "connection_attach self session =
     connect_all self connection_connections (session\<lparr>go_refs := go_refs session + 1\<rparr>)"

definition connection_detach :: "objref \<Rightarrow> string gobject \<Rightarrow> string gobject" where
  "connection_detach self session =
     g_object_unref (disconnect_all self
       [''CSConnection.cs_channel_new'', ''CSConnection.cs_channel_destroy'', ''CSConnection.cs_connection_destroy'']
       session)"

text \<open>\<^verbatim>\<open>CSAudioPlayback.m\<close> disconnects by its data pointer.\<close>

definition audio_connections :: "(string \<times> string) list" where
  "audio_connections =
     [(''playback-start'', ''CSAudioPlayback.cs_playback_start''),
      (''playback-data'', ''CSAudioPlayback.cs_playback_data''),
      (''playback-stop'', ''CSAudioPlayback.cs_playback_stop''),
      (''notify::volume'', ''CSAudioPlayback.cs_playback_volume_changed''),
      (''notify::mute'', ''CSAudioPlayback.cs_playback_mute_changed'')]"

definition audio_attach :: "objref \<Rightarrow> string gobject \<Rightarrow> string gobject" where
  "audio_attach self channel = connect_all self audio_connections (g_object_ref channel)"

definition audio_detach :: "objref \<Rightarrow> string gobject \<Rightarrow> string gobject" where
  "audio_detach self channel = g_object_unref (g_signal_handlers_disconnect_by_data self channel)"

text \<open>
  \<^verbatim>\<open>CSInput.m\<close> keeps a reference and connects nothing, and so does every other \<^verbatim>\<open>CSChannel\<close> with the main channel.
\<close>

definition input_attach :: "objref \<Rightarrow> string gobject \<Rightarrow> string gobject" where
  "input_attach self channel = g_object_ref channel"

definition input_detach :: "objref \<Rightarrow> string gobject \<Rightarrow> string gobject" where
  "input_detach self channel = g_object_unref channel"

definition channel_main_attach :: "objref \<Rightarrow> string gobject \<Rightarrow> string gobject" where
  "channel_main_attach self main = g_object_ref main"

definition channel_main_detach :: "objref \<Rightarrow> string gobject \<Rightarrow> string gobject" where
  "channel_main_detach self main = g_object_unref main"

section \<open>The contract, class by class\<close>

interpretation port_wrapper: signal_wrapper port_attach port_detach port_connections
  unfolding port_attach_def port_detach_def by (rule row_wrapper) (simp add: port_connections_def)

interpretation display_wrapper: signal_wrapper display_attach display_detach display_connections
  unfolding display_attach_def display_detach_def by (rule row_wrapper) (simp add: display_connections_def)

interpretation cursor_wrapper: signal_wrapper cursor_attach cursor_detach cursor_connections
  unfolding cursor_attach_def cursor_detach_def by (rule row_wrapper) (simp add: cursor_connections_def)

interpretation cursor_main: signal_wrapper cursor_main_attach cursor_main_detach cursor_main_connections
  unfolding cursor_main_attach_def cursor_main_detach_def by (rule row_wrapper) (simp add: cursor_main_connections_def)

interpretation session_wrapper: signal_wrapper session_attach session_detach session_connections
  unfolding session_attach_def session_detach_def by (rule row_wrapper) (simp add: session_connections_def)

interpretation clipboard: signal_wrapper clipboard_attach clipboard_detach clipboard_connections
  unfolding clipboard_attach_def clipboard_detach_def by (rule row_wrapper) (simp add: clipboard_connections_def)

lemma connection_attach_ref:
  "connection_attach = (\<lambda>self session. connect_all self connection_connections (g_object_ref session))"
  by (simp add: fun_eq_iff connection_attach_def g_object_ref_def)

interpretation connection_wrapper: signal_wrapper connection_attach connection_detach connection_connections
  unfolding connection_attach_ref connection_detach_def
  by (rule row_wrapper) (simp add: connection_connections_def)

interpretation audio_wrapper: signal_wrapper audio_attach audio_detach audio_connections
  by unfold_locales (simp_all add: audio_attach_def audio_detach_def)

interpretation input_wrapper: signal_wrapper input_attach input_detach "[]"
  by unfold_locales (auto simp: input_attach_def input_detach_def tagged_def intro!: filter_True[symmetric])

interpretation channel_main: signal_wrapper channel_main_attach channel_main_detach "[]"
  by unfold_locales (auto simp: channel_main_attach_def channel_main_detach_def tagged_def intro!: filter_True[symmetric])

section \<open>All wrappers together\<close>

text \<open>What a wrapper can be attached as: its own object, or the main channel it follows.\<close>

datatype wrapper_role =
    Port_channel | Display_channel | Cursor_channel | Cursor_main | Input_channel | Channel_main
  | Playback_channel | Session_session | Session_main | Connection_session | Usb_manager

primrec attach_as :: "wrapper_role \<Rightarrow> objref \<Rightarrow> string gobject \<Rightarrow> string gobject" where
  "attach_as Port_channel = port_attach" | "attach_as Display_channel = display_attach"
| "attach_as Cursor_channel = cursor_attach" | "attach_as Cursor_main = cursor_main_attach"
| "attach_as Input_channel = input_attach" | "attach_as Channel_main = channel_main_attach"
| "attach_as Playback_channel = audio_attach" | "attach_as Session_session = session_attach"
| "attach_as Session_main = clipboard_attach" | "attach_as Connection_session = connection_attach"
| "attach_as Usb_manager = initWithUsbDeviceManager"

primrec detach_as :: "wrapper_role \<Rightarrow> objref \<Rightarrow> string gobject \<Rightarrow> string gobject" where
  "detach_as Port_channel = port_detach" | "detach_as Display_channel = display_detach"
| "detach_as Cursor_channel = cursor_detach" | "detach_as Cursor_main = cursor_main_detach"
| "detach_as Input_channel = input_detach" | "detach_as Channel_main = channel_main_detach"
| "detach_as Playback_channel = audio_detach" | "detach_as Session_session = session_detach"
| "detach_as Session_main = clipboard_detach" | "detach_as Connection_session = connection_detach"
| "detach_as Usb_manager = manager_dealloc"

primrec connections_as :: "wrapper_role \<Rightarrow> (string \<times> string) list" where
  "connections_as Port_channel = port_connections" | "connections_as Display_channel = display_connections"
| "connections_as Cursor_channel = cursor_connections" | "connections_as Cursor_main = cursor_main_connections"
| "connections_as Input_channel = []" | "connections_as Channel_main = []"
| "connections_as Playback_channel = audio_connections" | "connections_as Session_session = session_connections"
| "connections_as Session_main = clipboard_connections" | "connections_as Connection_session = connection_connections"
| "connections_as Usb_manager = usb_manager_connections"

lemma role_wrapper: "signal_wrapper (attach_as role) (detach_as role) (connections_as role)"
  by (cases role)
    (simp_all add: port_wrapper.signal_wrapper_axioms display_wrapper.signal_wrapper_axioms
      cursor_wrapper.signal_wrapper_axioms cursor_main.signal_wrapper_axioms input_wrapper.signal_wrapper_axioms
      channel_main.signal_wrapper_axioms audio_wrapper.signal_wrapper_axioms session_wrapper.signal_wrapper_axioms
      clipboard.signal_wrapper_axioms connection_wrapper.signal_wrapper_axioms usb_manager.signal_wrapper_axioms)

interpretation role: signal_wrapper "attach_as role" "detach_as role" "connections_as role" for role
  by (rule role_wrapper)

text \<open>
  The library's objects, and the wrappers that live: role, wrapper, object.  A wrapper is attached to an object at
  most once at a time, and its address is not the data pointer of a handler somebody else connected.
\<close>

type_synonym gobjects = "objref \<Rightarrow> string gobject"
type_synonym living = "(wrapper_role \<times> objref \<times> objref) list"

inductive life :: "gobjects \<Rightarrow> gobjects \<Rightarrow> living \<Rightarrow> bool" for h0 where
  start: "life h0 h0 []"
| attach: "life h0 h ws \<Longrightarrow> (self, ob) \<notin> set (map snd ws) \<Longrightarrow> self \<notin> (\<lambda>(_, _, d). d) ` set (go_handlers (h0 ob)) \<Longrightarrow>
     life h0 (h(ob := attach_as role self (h ob))) ((role, self, ob) # ws)"
| detach: "life h0 h ws \<Longrightarrow> (role, self, ob) \<in> set ws \<Longrightarrow>
     life h0 (h(ob := detach_as role self (h ob))) (remove1 (role, self, ob) ws)"

definition selfs_on :: "objref \<Rightarrow> living \<Rightarrow> objref set" where
  "selfs_on ob ws = {self. (self, ob) \<in> set (map snd ws)}"

definition others_of :: "objref set \<Rightarrow> (string \<times> string \<times> objref) list \<Rightarrow> (string \<times> string \<times> objref) list" where
  "others_of selfs hs = filter (\<lambda>(_, _, d). d \<notin> selfs) hs"

definition own_of :: "objref \<Rightarrow> (string \<times> string \<times> objref) list \<Rightarrow> (string \<times> string \<times> objref) list" where
  "own_of self hs = filter (\<lambda>(_, _, d). d = self) hs"

text \<open>Every living wrapper has its own handlers and one reference; the rest is what was there before.\<close>

definition life_ok :: "gobjects \<Rightarrow> gobjects \<Rightarrow> living \<Rightarrow> bool" where
  "life_ok h0 h ws \<longleftrightarrow> distinct (map snd ws) \<and>
     (\<forall>ob. others_of (selfs_on ob ws) (go_handlers (h ob)) = go_handlers (h0 ob) \<and>
           go_refs (h ob) = go_refs (h0 ob) + length (filter (\<lambda>(_, _, ob'). ob' = ob) ws) \<and>
           (\<forall>self \<in> selfs_on ob ws. self \<notin> (\<lambda>(_, _, d). d) ` set (go_handlers (h0 ob)))) \<and>
     (\<forall>(role, self, ob) \<in> set ws. own_of self (go_handlers (h ob)) = tagged self (connections_as role))"

lemma handler_split:
  assumes "others_of S hs = hs0" "d \<notin> S" "d \<notin> (\<lambda>(_, _, d). d) ` set hs0"
  shows "(s, f, d) \<notin> set hs"
proof
  assume "(s, f, d) \<in> set hs"
  then have "(s, f, d) \<in> set (others_of S hs)" using assms(2) by (simp add: others_of_def)
  then have "d \<in> (\<lambda>(_, _, d). d) ` set hs0" unfolding assms(1) by force
  then show False using assms(3) by contradiction
qed

lemma others_insert:
  "(\<And>s f. (s, f, self) \<notin> set hs) \<Longrightarrow> others_of (insert self S) hs = others_of S hs"
  by (auto simp: others_of_def intro!: filter_cong)

lemma others_tagged [simp]: "self \<in> S \<Longrightarrow> others_of S (hs @ tagged self cs) = others_of S hs"
  by (auto simp: others_of_def tagged_def filter_empty_conv)

lemma own_tagged:
  "(\<And>s f. (s, f, self) \<notin> set hs) \<Longrightarrow> own_of self (hs @ tagged self cs) = tagged self cs"
  "d \<noteq> self \<Longrightarrow> own_of d (hs @ tagged self cs) = own_of d hs"
proof -
  assume "\<And>s f. (s, f, self) \<notin> set hs"
  then have "filter (\<lambda>(_, _, d). d = self) hs = []" by (auto simp: filter_empty_conv)
  then show "own_of self (hs @ tagged self cs) = tagged self cs" by (simp add: own_of_def)
qed (auto simp: own_of_def filter_empty_conv)

lemma others_removed:
  "self \<in> S \<Longrightarrow> others_of (S - {self}) (filter (\<lambda>(_, _, d). d \<noteq> self) hs) = others_of S hs"
  by (auto simp: others_of_def intro!: filter_cong)

lemma own_removed: "d \<noteq> self \<Longrightarrow> own_of d (filter (\<lambda>(_, _, d). d \<noteq> self) hs) = own_of d hs"
  by (auto simp: own_of_def intro!: filter_cong)

lemma selfs_on_Cons:
  "selfs_on ob ((role, self, ob') # ws) = (if ob = ob' then insert self (selfs_on ob ws) else selfs_on ob ws)"
  by (auto simp: selfs_on_def)

lemma remaining:
  assumes "distinct (map snd ws)" "(role, self, ob) \<in> set ws"
  shows "set (remove1 (role, self, ob) ws) = {(r, s, b) \<in> set ws. (s, b) \<noteq> (self, ob)}"
    and "selfs_on ob' (remove1 (role, self, ob) ws) = (if ob' = ob then selfs_on ob' ws - {self} else selfs_on ob' ws)"
proof -
  have "distinct ws" "inj_on snd (set ws)" using assms(1) by (simp_all add: distinct_map)
  then have only: "r = role" if "(r, self, ob) \<in> set ws" for r
    using that assms(2) inj_onD[of snd "set ws" "(r, self, ob)" "(role, self, ob)"] by simp
  show rest: "set (remove1 (role, self, ob) ws) = {(r, s, b) \<in> set ws. (s, b) \<noteq> (self, ob)}"
    using \<open>distinct ws\<close> only by (auto simp: set_remove1_eq)
  show "selfs_on ob' (remove1 (role, self, ob) ws) = (if ob' = ob then selfs_on ob' ws - {self} else selfs_on ob' ws)"
    unfolding selfs_on_def set_map rest by force
qed

lemma life_okI:
  assumes "distinct (map snd ws)"
    and "\<And>ob. others_of (selfs_on ob ws) (go_handlers (h ob)) = go_handlers (h0 ob)"
    and "\<And>ob. go_refs (h ob) = go_refs (h0 ob) + length (filter (\<lambda>(_, _, ob'). ob' = ob) ws)"
    and "\<And>ob self. self \<in> selfs_on ob ws \<Longrightarrow> self \<notin> (\<lambda>(_, _, d). d) ` set (go_handlers (h0 ob))"
    and "\<And>role self ob. (role, self, ob) \<in> set ws \<Longrightarrow> own_of self (go_handlers (h ob)) = tagged self (connections_as role)"
  shows "life_ok h0 h ws"
  using assms unfolding life_ok_def by blast

lemma life_okD:
  assumes "life_ok h0 h ws"
  shows "distinct (map snd ws)"
    and "others_of (selfs_on ob ws) (go_handlers (h ob)) = go_handlers (h0 ob)"
    and "go_refs (h ob) = go_refs (h0 ob) + length (filter (\<lambda>(_, _, ob'). ob' = ob) ws)"
    and "self \<in> selfs_on ob ws \<Longrightarrow> self \<notin> (\<lambda>(_, _, d). d) ` set (go_handlers (h0 ob))"
    and "(role, self, ob) \<in> set ws \<Longrightarrow> own_of self (go_handlers (h ob)) = tagged self (connections_as role)"
  using assms unfolding life_ok_def by blast+

lemma life_ok_attach:
  assumes ok: "life_ok h0 h ws" and new: "(self, ob) \<notin> set (map snd ws)"
    and foreign: "self \<notin> (\<lambda>(_, _, d). d) ` set (go_handlers (h0 ob))"
  shows "life_ok h0 (h(ob := attach_as role self (h ob))) ((role, self, ob) # ws)"
proof (rule life_okI)
  have "self \<notin> selfs_on ob ws" using new by (simp add: selfs_on_def)
  then have none: "(s, f, self) \<notin> set (go_handlers (h ob))" for s f
    by (rule handler_split[OF life_okD(2)[OF ok] _ foreign])
  show "others_of (selfs_on b ((role, self, ob) # ws)) (go_handlers ((h(ob := attach_as role self (h ob))) b)) =
      go_handlers (h0 b)" for b
    using life_okD(2)[OF ok] none by (simp add: selfs_on_Cons role.attach_fields others_insert)
  show "own_of s (go_handlers ((h(ob := attach_as role self (h ob))) b)) = tagged s (connections_as r)"
    if "(r, s, b) \<in> set ((role, self, ob) # ws)" for r s b
  proof (cases "(r, s, b) = (role, self, ob)")
    case True
    then show ?thesis using none by (simp add: role.attach_fields own_tagged(1))
  next
    case False
    then have "(r, s, b) \<in> set ws" using that by auto
    moreover from this have "s \<noteq> self" if "b = ob" using new that by force
    ultimately show ?thesis using life_okD(5)[OF ok, of r s b]
      by (cases "b = ob") (simp_all add: role.attach_fields own_tagged(2))
  qed
  show "s \<notin> (\<lambda>(_, _, d). d) ` set (go_handlers (h0 b))" if "s \<in> selfs_on b ((role, self, ob) # ws)" for s b
  proof (cases "b = ob \<and> s = self")
    case True
    then have "b = ob" "s = self" by simp_all
    then show ?thesis using foreign by simp
  next
    case False
    then have "s \<in> selfs_on b ws" using that by (auto simp: selfs_on_Cons split: if_splits)
    then show ?thesis by (rule life_okD(4)[OF ok])
  qed
qed (use life_okD(1,3)[OF ok] new in \<open>simp_all add: role.attach_fields\<close>)

lemma distinct_remove1_map_snd: "distinct (map snd ws) \<Longrightarrow> distinct (map snd (remove1 w ws))"
  by (metis distinct_map distinct_remove1 inj_on_subset set_remove1_subset)

lemma life_ok_detach:
  assumes ok: "life_ok h0 h ws" and living: "(role, self, ob) \<in> set ws"
  shows "life_ok h0 (h(ob := detach_as role self (h ob))) (remove1 (role, self, ob) ws)"
proof -
  have dist: "distinct (map snd ws)" using ok by (simp add: life_ok_def)
  note rest = remaining[OF dist living]
  have on: "self \<in> selfs_on ob ws" using living by (force simp: selfs_on_def)
  have own: "own_of self (go_handlers (h ob)) = tagged self (connections_as role)"
    using ok living by (force simp: life_ok_def)
  have detached: "go_handlers (detach_as role self (h ob)) = filter (\<lambda>(_, _, d). d \<noteq> self) (go_handlers (h ob))"
  proof (rule role.detach_handlers)
    fix s f assume "(s, f, self) \<in> set (go_handlers (h ob))"
    then have "(s, f, self) \<in> set (own_of self (go_handlers (h ob)))" by (simp add: own_of_def)
    then show "f \<in> snd ` set (connections_as role)" unfolding own by force
  qed
  have own2: "own_of s2 (go_handlers ((h(ob := detach_as role self (h ob))) b2)) = tagged s2 (connections_as r2)"
    if "(r2, s2, b2) \<in> set (remove1 (role, self, ob) ws)" for r2 s2 b2
    using that ok unfolding rest(1) by (auto simp: life_ok_def detached own_removed)
  have count: "length (filter (\<lambda>(_, _, b). b = ob') (remove1 (role, self, ob) ws)) =
      length (filter (\<lambda>(_, _, b). b = ob') ws) - (if ob' = ob then 1 else 0)" for ob'
    using living by (auto simp: filter_remove1 length_remove1 remove1_idem)
  have "(role, self, ob) \<in> set (filter (\<lambda>(_, _, b). b = ob) ws)" using living by simp
  then have pos: "0 < length (filter (\<lambda>(_, _, b). b = ob) ws)" by (rule length_pos_if_in_set)
  show ?thesis
  proof (rule life_okI)
    show "others_of (selfs_on b (remove1 (role, self, ob) ws)) (go_handlers ((h(ob := detach_as role self (h ob))) b)) =
        go_handlers (h0 b)" for b
      using life_okD(2)[OF ok] by (simp add: rest(2) detached others_removed[OF on])
    show "go_refs ((h(ob := detach_as role self (h ob))) b) =
        go_refs (h0 b) + length (filter (\<lambda>(_, _, ob'). ob' = b) (remove1 (role, self, ob) ws))" for b
      using life_okD(3)[OF ok, of b] pos
      by (cases "b = ob") (simp_all add: count role.detach_fields del: length_greater_0_conv)
    show "s \<notin> (\<lambda>(_, _, d). d) ` set (go_handlers (h0 b))" if "s \<in> selfs_on b (remove1 (role, self, ob) ws)" for s b
      using that by (intro life_okD(4)[OF ok]) (simp add: rest(2) split: if_splits)
  qed (simp_all only: own2 distinct_remove1_map_snd[OF dist])
qed

lemma life_keeps: "life h0 h ws \<Longrightarrow> life_ok h0 h ws"
proof (induction rule: life.induct)
  case start
  show ?case by (simp add: life_ok_def selfs_on_def others_of_def)
next
  case (attach h ws self ob role)
  then show ?case by (intro life_ok_attach)
next
  case (detach h ws role self ob)
  then show ?case by (intro life_ok_detach)
qed

lemma hears_own: "hears self signal ob = map (\<lambda>(_, f, _). f) (filter (\<lambda>(s, _, _). s = signal) (own_of self (go_handlers ob)))"
  by (simp add: hears_def own_of_def case_prod_unfold conj_commute)

lemma hears_tagged: "own_of self (go_handlers ob) = tagged self cs \<Longrightarrow>
    hears self signal ob = map snd (filter (\<lambda>(s, _). s = signal) cs)"
  by (simp add: hears_own tagged_def filter_map o_def case_prod_unfold)


text \<open>When the last wrapper is gone, every object is exactly as before the first one came.\<close>

theorem wrappers_leave_nothing:
  assumes "life h0 h []"
  shows "h = h0"
proof
  fix ob
  show "h ob = h0 ob"
    using life_okD(2,3)[OF life_keeps[OF assms], of ob]
    by (intro gobject.equality) (simp_all add: selfs_on_def others_of_def)
qed

section \<open>Following the main channel\<close>

text \<open>
  \<open>setSpiceMain:\<close> of \<^verbatim>\<open>CSCursor.m\<close>, with that of its superclass: the old main channel's handler goes first, the new
  one is kept before the old one is given back.
\<close>

definition super_setSpiceMain :: "objref option \<Rightarrow> objref option \<Rightarrow> gobjects \<Rightarrow> gobjects" where
  "super_setSpiceMain old new h =
     (let h = (case new of Some m \<Rightarrow> h(m := g_object_ref (h m)) | None \<Rightarrow> h)
      in (case old of Some m \<Rightarrow> h(m := g_object_unref (h m)) | None \<Rightarrow> h))"

definition cursor_setSpiceMain :: "objref \<Rightarrow> objref option \<Rightarrow> objref option \<Rightarrow> gobjects \<Rightarrow> gobjects" where
  "cursor_setSpiceMain self old new h =
     (let h = (case old of
            Some m \<Rightarrow> h(m := g_signal_handlers_disconnect_by_func ''CSCursor.cs_update_mouse_mode'' self (h m))
          | None \<Rightarrow> h);
          h = super_setSpiceMain old new h
      in (case new of
            Some m \<Rightarrow> h(m := g_signal_connect ''main-mouse-update'' ''CSCursor.cs_update_mouse_mode'' self (h m))
          | None \<Rightarrow> h))"

lemma cursor_setSpiceMain_splits:
  assumes "\<And>m. old = Some m \<Longrightarrow> 0 < go_refs (h m)"
  shows "cursor_setSpiceMain self old new h =
     (let h = (case old of Some m \<Rightarrow> h(m := cursor_main_detach self (h m)) | None \<Rightarrow> h)
      in (case new of Some m \<Rightarrow> h(m := cursor_main_attach self (h m)) | None \<Rightarrow> h))"
proof -
  have same: "g_object_unref (g_object_ref ob) = g_object_ref (g_object_unref ob)" if "0 < go_refs ob" for ob :: "string gobject"
    using that by (simp add: g_object_ref_def g_object_unref_def)
  have refs: "go_refs (g_signal_handlers_disconnect_by_func f d ob) = go_refs ob" for f d and ob :: "string gobject"
    by (simp add: g_signal_handlers_disconnect_by_func_def)
  show ?thesis
    using assms
    by (cases old; cases new)
      (auto simp: cursor_setSpiceMain_def super_setSpiceMain_def cursor_main_attach_def cursor_main_detach_def
        cursor_main_connections_def connect_all_def disconnect_all_def fun_eq_iff same refs)
qed

definition following :: "objref \<Rightarrow> objref option \<Rightarrow> living \<Rightarrow> living" where
  "following self main ws = (case main of Some m \<Rightarrow> (Cursor_main, self, m) # ws | None \<Rightarrow> ws)"

text \<open>
  A cursor follows the main channel: setting another one, none, or the same one again continues the life of the
  wrappers with the cursor attached to the new channel and to no other, so that all that holds of such a life holds
  after it.
\<close>

theorem cursor_follows_main:
  assumes "life h0 h (following self old ws)" "\<forall>m. new = Some m \<longrightarrow> (self, m) \<notin> set (map snd ws)"
    and "\<forall>m. new = Some m \<longrightarrow> self \<notin> (\<lambda>(_, _, d). d) ` set (go_handlers (h0 m))"
  shows "life h0 (cursor_setSpiceMain self old new h) (following self new ws)"
proof -
  let ?h = "case old of Some m \<Rightarrow> h(m := cursor_main_detach self (h m)) | None \<Rightarrow> h"
  have "life h0 ?h ws"
  proof (cases old)
    case (Some m)
    then show ?thesis
      using life.detach[of h0 h "(Cursor_main, self, m) # ws" Cursor_main self m] assms(1)
      by (simp add: following_def)
  qed (use assms(1) in \<open>simp add: following_def\<close>)
  moreover have "0 < go_refs (h m)" if "old = Some m" for m
    using life_okD(3)[OF life_keeps[OF assms(1)], of m] that by (simp add: following_def)
  ultimately show ?thesis
    using assms(2,3) life.attach[of h0 ?h ws self _ Cursor_main]
    by (cases new) (simp_all add: cursor_setSpiceMain_splits following_def Let_def)
qed

section \<open>A history\<close>

text \<open>A port on object 1 and a cursor on object 2, which follows main channel 3 and then 4.\<close>

definition bare_objects :: gobjects where "bare_objects = (\<lambda>_. \<lparr>go_refs = 1, go_handlers = []\<rparr>)"

definition sample_objects :: gobjects where
  "sample_objects = (let h = bare_objects(1 := port_attach 10 (bare_objects 1)); h = h(2 := cursor_attach 20 (h 2))
     in cursor_setSpiceMain 20 None (Some 3) h)"

lemma sample_life:
  "life bare_objects sample_objects [(Cursor_main, 20, 3), (Cursor_channel, 20, 2), (Port_channel, 10, 1)]"
proof -
  let ?h = "bare_objects(1 := port_attach 10 (bare_objects 1))"
  have "life bare_objects ?h [(Port_channel, 10, 1)]"
    using life.attach[OF life.start, of 10 1 bare_objects Port_channel] by (simp add: bare_objects_def)
  then have "life bare_objects (?h(2 := cursor_attach 20 (?h 2))) (following 20 None [(Cursor_channel, 20, 2), (Port_channel, 10, 1)])"
    using life.attach[of bare_objects ?h "[(Port_channel, 10, 1)]" 20 2 Cursor_channel]
    by (simp add: bare_objects_def following_def)
  from cursor_follows_main[OF this, of "Some 3"] show ?thesis
    by (simp add: sample_objects_def bare_objects_def following_def Let_def)
qed


theorem cursor_follows_main_witness:
  "life bare_objects (cursor_setSpiceMain 20 (Some 3) (Some 4) sample_objects)
     [(Cursor_main, 20, 4), (Cursor_channel, 20, 2), (Port_channel, 10, 1)]"
  using cursor_follows_main[of bare_objects sample_objects 20 "Some 3" "[(Cursor_channel, 20, 2), (Port_channel, 10, 1)]" "Some 4"]
    sample_life by (simp add: following_def bare_objects_def)

theorem wrappers_leave_nothing_witness:
  "(bare_objects(1 := port_attach 10 (bare_objects 1)))(1 := port_detach 10 (port_attach 10 (bare_objects 1))) = bare_objects"
proof -
  have "life bare_objects (bare_objects(1 := port_attach 10 (bare_objects 1))) [(Port_channel, 10, 1)]"
    using life.attach[OF life.start, of 10 1 bare_objects Port_channel] by (simp add: bare_objects_def)
  from life.detach[OF this, of Port_channel 10 1] show ?thesis
    by (intro wrappers_leave_nothing) simp
qed

end
