(* ===== verification/Wrapper_Properties.thy ===== *)
theory Wrapper_Properties
  imports Port
begin

text \<open>
  The small methods the wrappers forward to the library or to Metal: the channel's number, the port's name, state and
  writes (\<^verbatim>\<open>CSChannel.m\<close>, \<^verbatim>\<open>CSPort.m\<close>), the display's pending draw and origin (\<^verbatim>\<open>CSDisplay.m\<close>), opening and
  closing a connection (\<^verbatim>\<open>CSConnection.m\<close>), the samplers of the renderer (\<^verbatim>\<open>CSMetalRenderer.m\<close>) and the
  screenshot's files (\<^verbatim>\<open>CSScreenshot.m\<close>).  Shown: in which order writes reach a port, that the last choice of
  samplers wins, and how the two platforms differ on a file that is not an image.
\<close>

section \<open>Channels and ports\<close>

text \<open>A library's object is the values of its properties.\<close>

datatype property_value = Int_property int | Bool_property bool | Text_property "guint8 list option"

type_synonym properties = "string \<Rightarrow> property_value"

text \<open>\<open>None\<close> is a property of another type, which has no defined value here.\<close>

definition channelID :: "properties \<Rightarrow> int option" where
  "channelID channel = (case channel ''channel-id'' of Int_property chid \<Rightarrow> Some chid | _ \<Rightarrow> None)"

text \<open>\<open>stringWithCString:\<close> in ASCII gives \<open>nil\<close> for bytes outside it.\<close>

definition ascii_string :: "guint8 list \<Rightarrow> guint8 list option" where
  "ascii_string bytes = (if \<forall>b \<in> set bytes. b < 128 then Some bytes else None)"

definition port_name :: "properties \<Rightarrow> guint8 list option option" where
  "port_name channel =
     (case channel ''port-name'' of
        Text_property None \<Rightarrow> Some None
      | Text_property (Some name) \<Rightarrow> Some (ascii_string name)
      | _ \<Rightarrow> None)"

definition port_isOpen :: "properties \<Rightarrow> bool option" where
  "port_isOpen channel = (case channel ''port-opened'' of Bool_property b \<Rightarrow> Some b | _ \<Rightarrow> None)"

definition hasDrawOutstanding :: "properties option \<Rightarrow> bool option" where
  "hasDrawOutstanding channel =
     (case channel of
        Some ch \<Rightarrow> (case ch ''draw-done-pending'' of Bool_property b \<Rightarrow> Some b | _ \<Rightarrow> None)
      | None \<Rightarrow> Some False)"

definition display_offset :: "cgfloat \<times> cgfloat" where "display_offset = (0, 0)"

text \<open>Writes to a port are posted to the SPICE context; the library is handed the bytes when the block runs.\<close>

datatype port_write = Write_block "guint8 list"

primrec run_port_write :: "port_write \<Rightarrow> unit \<Rightarrow> unit \<times> guint8 list list" where
  "run_port_write (Write_block bytes) self = (self, [bytes])"

definition port_writeData ::
  "bool \<Rightarrow> guint8 list \<Rightarrow> (unit, port_write, guint8 list) world \<Rightarrow> (unit, port_write, guint8 list) world" where
  "port_writeData on_context bytes w = asyncWith run_port_write on_context (Write_block bytes) w"

section \<open>A connection\<close>

definition conn_connect :: "('s \<Rightarrow> bool \<times> 's) \<Rightarrow> 's \<Rightarrow> bool \<times> 's" where
  "conn_connect spice_session_connect session = spice_session_connect session"

definition conn_disconnect :: "('s \<Rightarrow> 's) \<Rightarrow> 's \<Rightarrow> 's" where
  "conn_disconnect spice_session_disconnect session = spice_session_disconnect session"

section \<open>Samplers\<close>

datatype MTLSamplerMinMagFilter = MTLSamplerMinMagFilterNearest | MTLSamplerMinMagFilterLinear

record sampler_descriptor =
  minFilter :: MTLSamplerMinMagFilter
  magFilter :: MTLSamplerMinMagFilter

text \<open>\<open>newSamplerStateWithDescriptor:\<close> is Metal's; the changes wait on the main queue.\<close>

definition initializeUpscaler ::
  "(sampler_descriptor \<Rightarrow> 'x) \<Rightarrow> MTLSamplerMinMagFilter \<Rightarrow> MTLSamplerMinMagFilter \<Rightarrow> 'x" where
  "initializeUpscaler newSamplerStateWithDescriptor upscaler downscaler =
     newSamplerStateWithDescriptor \<lparr>minFilter = downscaler, magFilter = upscaler\<rparr>"

record 'x sampler_sys =
  renderSampler :: 'x
  sampler_queue :: "(MTLSamplerMinMagFilter \<times> MTLSamplerMinMagFilter) list"

definition changeUpscaler ::
  "MTLSamplerMinMagFilter \<Rightarrow> MTLSamplerMinMagFilter \<Rightarrow> 'x sampler_sys \<Rightarrow> 'x sampler_sys" where
  "changeUpscaler upscaler downscaler s = s\<lparr>sampler_queue := sampler_queue s @ [(upscaler, downscaler)]\<rparr>"

fun sampler_dispatch :: "(sampler_descriptor \<Rightarrow> 'x) \<Rightarrow> 'x sampler_sys \<Rightarrow> 'x sampler_sys" where
  "sampler_dispatch new_sampler s =
     (case sampler_queue s of
        [] \<Rightarrow> s
      | (up, down) # rest \<Rightarrow> s\<lparr>renderSampler := initializeUpscaler new_sampler up down, sampler_queue := rest\<rparr>)"

section \<open>Screenshots\<close>

text \<open>An object with its image; reading a file and encoding an image are the platform's.\<close>

record 'i cs_screenshot =
  screenshot_image :: "'i option"

definition screenshot_initWithImage :: "'i option \<Rightarrow> 'i cs_screenshot option" where
  "screenshot_initWithImage picture = Some \<lparr>screenshot_image = picture\<rparr>"

definition screenshot_initWithContentsOfURL_ios :: "('u \<Rightarrow> 'i option) \<Rightarrow> 'u \<Rightarrow> 'i cs_screenshot option" where
  "screenshot_initWithContentsOfURL_ios read_image url =
     (let picture = read_image url in if picture \<noteq> None then screenshot_initWithImage picture else None)"

definition screenshot_initWithContentsOfURL_macos :: "('u \<Rightarrow> 'i option) \<Rightarrow> 'u \<Rightarrow> 'i cs_screenshot option" where
  "screenshot_initWithContentsOfURL_macos read_image url =
     (let picture = read_image url in screenshot_initWithImage picture)"

text \<open>The bytes written, or nothing: a message to a missing image or to missing data has no effect.\<close>

definition screenshot_writeToURL_ios :: "('i \<Rightarrow> guint8 list option) \<Rightarrow> 'i cs_screenshot \<Rightarrow> guint8 list option" where
  "screenshot_writeToURL_ios png self = Option.bind (screenshot_image self) png"

section \<open>Orders\<close>

lemma writes_run: "calls (fold (run_now run_port_write) bs w) = calls w @ map (\<lambda>b. case b of Write_block x \<Rightarrow> x) bs"
  by (induction bs arbitrary: w) (auto split: port_write.split)

text \<open>
  Writes from other threads reach the channel in the order of the calls, none lost; a write made on the context's own
  thread is handed over at once, before those that still wait.
\<close>

theorem port_writes_in_order:
  "calls (drain run_port_write (fold (port_writeData False) ws w)) =
     calls w @ map (\<lambda>b. case b of Write_block x \<Rightarrow> x) (posted w) @ ws \<and>
   calls (drain run_port_write (port_writeData True late (fold (port_writeData False) ws w))) =
     calls w @ [late] @ map (\<lambda>b. case b of Write_block x \<Rightarrow> x) (posted w) @ ws"
proof -
  have posts: "fold (port_writeData False) ws w = w\<lparr>posted := posted w @ map Write_block ws\<rparr>"
    by (induction ws arbitrary: w) (simp_all add: port_writeData_def)
  show ?thesis
    by (simp add: posts port_writeData_def drain_def writes_run o_def)
qed

text \<open>When the main queue has run, the sampler is the one of the last change.\<close>

theorem last_sampler_wins:
  "renderSampler ((sampler_dispatch new_sampler ^^ length (sampler_queue (changeUpscaler up down s)))
     (changeUpscaler up down s)) = initializeUpscaler new_sampler up down"
proof -
  have "renderSampler ((sampler_dispatch new_sampler ^^ length (qs @ [(up, down)])) (s\<lparr>sampler_queue := qs @ [(up, down)]\<rparr>)) =
      initializeUpscaler new_sampler up down" for qs s
  proof (induction qs arbitrary: s)
    case (Cons q qs)
    have "sampler_dispatch new_sampler (s\<lparr>sampler_queue := (q # qs) @ [(up, down)]\<rparr>) =
        (s\<lparr>renderSampler := initializeUpscaler new_sampler (fst q) (snd q)\<rparr>)\<lparr>sampler_queue := qs @ [(up, down)]\<rparr>"
      by (cases q) simp
    then show ?case using Cons.IH by (simp only: funpow_Suc_right o_apply append_Cons length_Cons)
  qed simp
  then show ?thesis by (simp add: changeUpscaler_def)
qed

text \<open>
  On a file that is not an image the platforms differ: on iOS there is no screenshot, on macOS there is one without an
  image.  On every other file they agree.
\<close>

theorem screenshot_platforms:
  "(screenshot_initWithContentsOfURL_ios read_image url = None \<longleftrightarrow> read_image url = None) \<and>
   screenshot_initWithContentsOfURL_macos read_image url = Some \<lparr>screenshot_image = read_image url\<rparr> \<and>
   (screenshot_initWithContentsOfURL_ios read_image url = screenshot_initWithContentsOfURL_macos read_image url \<longleftrightarrow>
    read_image url \<noteq> None)"
  by (simp add: screenshot_initWithContentsOfURL_ios_def screenshot_initWithContentsOfURL_macos_def
      screenshot_initWithImage_def Let_def)

end
