(* ===== verification/Glib_Inline.thy ===== *)
theory Glib_Inline
  imports Wrapper_Life
begin

text \<open>
  Inline functions of GLib: the searches for bits of \<^verbatim>\<open>gutils.h\<close>, appending a character to a \<^verbatim>\<open>GString\<close>
  (\<^verbatim>\<open>gstring.h\<close>) and \<^verbatim>\<open>g_set_object\<close> (\<^verbatim>\<open>gobject.h\<close>).  Shown: what the searches find, that the two versions of
  \<^verbatim>\<open>g_bit_storage\<close> agree, that a string grows by its character, and that the setter the wrappers write by hand
  keeps the references \<^verbatim>\<open>g_set_object\<close> keeps.
\<close>

section \<open>Searching for bits\<close>

definition GLIB_SIZEOF_LONG :: int where "GLIB_SIZEOF_LONG = 8"

definition bit_is_set :: "guint64 \<Rightarrow> int \<Rightarrow> bool" where
  "bit_is_set bits n \<longleftrightarrow> bits AND push_bit (nat n) 1 \<noteq> 0"

function lsf_loop :: "guint64 \<Rightarrow> int \<Rightarrow> int" where
  "lsf_loop bits nth_bit =
     (if nth_bit < GLIB_SIZEOF_LONG * 8 - 1
      then (let nth_bit = nth_bit + 1 in if bit_is_set bits nth_bit then nth_bit else lsf_loop bits nth_bit)
      else - 1)"
  by pat_completeness auto

termination lsf_loop
  by (relation "measure (\<lambda>(_, n). nat (GLIB_SIZEOF_LONG * 8 - n))") auto

definition g_bit_nth_lsf :: "guint64 \<Rightarrow> int \<Rightarrow> int" where
  "g_bit_nth_lsf bits nth_bit = lsf_loop bits (if nth_bit < - 1 then - 1 else nth_bit)"

function msf_loop :: "guint64 \<Rightarrow> int \<Rightarrow> int" where
  "msf_loop bits nth_bit =
     (if nth_bit > 0
      then (let nth_bit = nth_bit - 1 in if bit_is_set bits nth_bit then nth_bit else msf_loop bits nth_bit)
      else - 1)"
  by pat_completeness auto

termination msf_loop
  by (relation "measure (\<lambda>(_, n). nat n)") auto

definition g_bit_nth_msf :: "guint64 \<Rightarrow> int \<Rightarrow> int" where
  "g_bit_nth_msf bits nth_bit =
     msf_loop bits (if nth_bit < 0 \<or> nth_bit > GLIB_SIZEOF_LONG * 8 then GLIB_SIZEOF_LONG * 8 else nth_bit)"

text \<open>
  \<open>g_bit_storage\<close> twice: with the compiler's count of leading zeros, which is a parameter, and as a loop.
\<close>

definition g_bit_storage_builtin :: "(guint64 \<Rightarrow> guint32) \<Rightarrow> guint64 \<Rightarrow> guint32" where
  "g_bit_storage_builtin builtin_clzl number =
     (if number \<noteq> 0 then ((word_of_int (GLIB_SIZEOF_LONG * 8 - 1)) XOR builtin_clzl number) + 1 else 1)"

function storage_loop :: "guint32 \<Rightarrow> guint64 \<Rightarrow> guint32" where
  "storage_loop n_bits number =
     (let n_bits = n_bits + 1; number = drop_bit 1 number
      in if number \<noteq> 0 then storage_loop n_bits number else n_bits)"
  by pat_completeness auto

lemma half_less: "drop_bit 1 (number :: guint64) \<noteq> 0 \<Longrightarrow> unat (drop_bit 1 number) < unat number"
proof -
  assume "drop_bit 1 number \<noteq> 0"
  then have "0 < unat number" by (auto simp: unat_gt_0)
  moreover have "unat (drop_bit 1 number) = unat number div 2" by (simp add: drop_bit_Suc unat_div)
  ultimately show ?thesis by simp
qed

termination storage_loop
  by (relation "measure (\<lambda>(_, n). unat n)") (auto simp: half_less[simplified])

definition g_bit_storage :: "guint64 \<Rightarrow> guint32" where
  "g_bit_storage number = storage_loop 0 number"

declare lsf_loop.simps [simp del] msf_loop.simps [simp del] storage_loop.simps [simp del]

lemma bit_is_set_bit: "0 \<le> n \<Longrightarrow> n < 64 \<Longrightarrow> bit_is_set bits n \<longleftrightarrow> bit bits (nat n)"
  unfolding bit_is_set_def
  by (subst bit_eq_iff) (auto simp: bit_simps)

section \<open>A growing string\<close>

record g_string =
  gs_str :: "guint8 list"
  gs_len :: guint64
  gs_allocated_len :: guint64

text \<open>\<open>g_string_insert_c\<close> at position -1, which may reallocate, is the library's.\<close>

definition g_string_append_c_inline :: "(g_string \<Rightarrow> guint8 \<Rightarrow> g_string) \<Rightarrow> g_string \<Rightarrow> guint8 \<Rightarrow> g_string" where
  "g_string_append_c_inline g_string_insert_c gstring c =
     (if gs_len gstring + 1 < gs_allocated_len gstring
      then let gstring = gstring\<lparr>gs_str := (gs_str gstring)[unat (gs_len gstring) := c], gs_len := gs_len gstring + 1\<rparr>
           in gstring\<lparr>gs_str := (gs_str gstring)[unat (gs_len gstring) := 0]\<rparr>
      else g_string_insert_c gstring c)"

definition gs_ok :: "g_string \<Rightarrow> bool" where
  "gs_ok s \<longleftrightarrow> length (gs_str s) = unat (gs_allocated_len s) \<and> gs_len s < gs_allocated_len s \<and>
     gs_str s ! unat (gs_len s) = 0"

definition gs_text :: "g_string \<Rightarrow> guint8 list" where
  "gs_text s = take (unat (gs_len s)) (gs_str s)"

section \<open>Setting an object\<close>

definition g_set_object :: "objref option \<Rightarrow> objref option \<Rightarrow> gobjects \<Rightarrow> bool \<times> objref option \<times> gobjects" where
  "g_set_object old_object new_object h =
     (if old_object = new_object then (False, old_object, h)
      else
        let h = (case new_object of Some m \<Rightarrow> h(m := g_object_ref (h m)) | None \<Rightarrow> h);
            h = (case old_object of Some m \<Rightarrow> h(m := g_object_unref (h m)) | None \<Rightarrow> h)
        in (True, new_object, h))"

section \<open>What the searches find\<close>

lemma lsf_loop_finds:
  "- 1 \<le> n \<Longrightarrow> (if \<exists>i. n < i \<and> i < 64 \<and> bit bits (nat i)
     then n < lsf_loop bits n \<and> lsf_loop bits n < 64 \<and> bit bits (nat (lsf_loop bits n)) \<and>
       (\<forall>i. n < i \<and> i < lsf_loop bits n \<longrightarrow> \<not> bit bits (nat i))
     else lsf_loop bits n = - 1)"
proof (induction bits n rule: lsf_loop.induct)
  case (1 bits n)
  show ?case
  proof (cases "n < 63")
    case False
    then have "lsf_loop bits n = - 1" by (subst lsf_loop.simps) (simp add: GLIB_SIZEOF_LONG_def)
    then show ?thesis using False by auto
  next
    case True
    have next_bit: "bit_is_set bits (n + 1) \<longleftrightarrow> bit bits (nat (n + 1))" using 1(2) True by (intro bit_is_set_bit) auto
    show ?thesis
    proof (cases "bit bits (nat (n + 1))")
      case found: True
      then have "lsf_loop bits n = n + 1"
        using True by (subst lsf_loop.simps) (simp add: GLIB_SIZEOF_LONG_def next_bit Let_def)
      then show ?thesis using found True by auto
    next
      case not_found: False
      then have same: "lsf_loop bits n = lsf_loop bits (n + 1)"
        using True by (subst lsf_loop.simps) (simp add: GLIB_SIZEOF_LONG_def next_bit Let_def)
      have later: "n < i \<and> bit bits (nat i) \<longleftrightarrow> n + 1 < i \<and> bit bits (nat i)" for i
        using not_found by (cases "i = n + 1") auto
      have "if \<exists>i. n + 1 < i \<and> i < 64 \<and> bit bits (nat i)
         then n + 1 < lsf_loop bits (n + 1) \<and> lsf_loop bits (n + 1) < 64 \<and> bit bits (nat (lsf_loop bits (n + 1))) \<and>
           (\<forall>i. n + 1 < i \<and> i < lsf_loop bits (n + 1) \<longrightarrow> \<not> bit bits (nat i))
         else lsf_loop bits (n + 1) = - 1"
        using 1(1)[OF _ refl] 1(2) True not_found next_bit by (simp add: GLIB_SIZEOF_LONG_def)
      then show ?thesis unfolding same using later by (smt (verit))
    qed
  qed
qed

lemma msf_loop_finds:
  "n \<le> 64 \<Longrightarrow> (if \<exists>i. 0 \<le> i \<and> i < n \<and> bit bits (nat i)
     then 0 \<le> msf_loop bits n \<and> msf_loop bits n < n \<and> bit bits (nat (msf_loop bits n)) \<and>
       (\<forall>i. msf_loop bits n < i \<and> i < n \<longrightarrow> \<not> bit bits (nat i))
     else msf_loop bits n = - 1)"
proof (induction bits n rule: msf_loop.induct)
  case (1 bits n)
  show ?case
  proof (cases "0 < n")
    case False
    then have "msf_loop bits n = - 1" by (subst msf_loop.simps) simp
    then show ?thesis using False by auto
  next
    case True
    have next_bit: "bit_is_set bits (n - 1) \<longleftrightarrow> bit bits (nat (n - 1))" using 1(2) True by (intro bit_is_set_bit) auto
    show ?thesis
    proof (cases "bit bits (nat (n - 1))")
      case found: True
      then have "msf_loop bits n = n - 1" using True by (subst msf_loop.simps) (simp add: next_bit Let_def)
      moreover have "\<exists>i. 0 \<le> i \<and> i < n \<and> bit bits (nat i)"
        using found True by (intro exI[of _ "n - 1"]) simp
      moreover have "\<not> (msf_loop bits n < i \<and> i < n)" for i using calculation(1) by simp
      ultimately show ?thesis using found True by auto
    next
      case not_found: False
      then have same: "msf_loop bits n = msf_loop bits (n - 1)"
        using True by (subst msf_loop.simps) (simp add: next_bit Let_def)
      have earlier: "i < n \<and> bit bits (nat i) \<longleftrightarrow> i < n - 1 \<and> bit bits (nat i)" for i
        using not_found by (cases "i = n - 1") auto
      have "if \<exists>i. 0 \<le> i \<and> i < n - 1 \<and> bit bits (nat i)
         then 0 \<le> msf_loop bits (n - 1) \<and> msf_loop bits (n - 1) < n - 1 \<and> bit bits (nat (msf_loop bits (n - 1))) \<and>
           (\<forall>i. msf_loop bits (n - 1) < i \<and> i < n - 1 \<longrightarrow> \<not> bit bits (nat i))
         else msf_loop bits (n - 1) = - 1"
        using 1(1)[OF True refl] 1(2) not_found next_bit by simp
      then show ?thesis unfolding same using earlier by (smt (verit))
    qed
  qed
qed

text \<open>
  The searches are exact: starting at any position, the search upwards finds the least set bit above it and the
  search downwards the greatest below it; they answer -1 exactly if there is none.  A position below zero, or
  beyond the word for the search downwards, stands for its end.
\<close>

theorem bit_searches:
  "(if \<exists>i. n < i \<and> 0 \<le> i \<and> i < 64 \<and> bit bits (nat i)
    then n < g_bit_nth_lsf bits n \<and> 0 \<le> g_bit_nth_lsf bits n \<and> g_bit_nth_lsf bits n < 64 \<and>
      bit bits (nat (g_bit_nth_lsf bits n)) \<and>
      (\<forall>i. n < i \<and> 0 \<le> i \<and> i < g_bit_nth_lsf bits n \<longrightarrow> \<not> bit bits (nat i))
    else g_bit_nth_lsf bits n = - 1) \<and>
   (let top = (if n < 0 \<or> 64 < n then 64 else n)
    in if \<exists>i. 0 \<le> i \<and> i < top \<and> bit bits (nat i)
       then 0 \<le> g_bit_nth_msf bits n \<and> g_bit_nth_msf bits n < top \<and> bit bits (nat (g_bit_nth_msf bits n)) \<and>
         (\<forall>i. g_bit_nth_msf bits n < i \<and> i < top \<longrightarrow> \<not> bit bits (nat i))
       else g_bit_nth_msf bits n = - 1)"
proof
  define k where "k = (if n < - 1 then - 1 else n)"
  have above: "n < i \<and> 0 \<le> i \<and> P \<longleftrightarrow> k < i \<and> P" for i P by (auto simp: k_def)
  have "- 1 \<le> k" by (simp add: k_def)
  then show "if \<exists>i. n < i \<and> 0 \<le> i \<and> i < 64 \<and> bit bits (nat i)
    then n < g_bit_nth_lsf bits n \<and> 0 \<le> g_bit_nth_lsf bits n \<and> g_bit_nth_lsf bits n < 64 \<and>
      bit bits (nat (g_bit_nth_lsf bits n)) \<and>
      (\<forall>i. n < i \<and> 0 \<le> i \<and> i < g_bit_nth_lsf bits n \<longrightarrow> \<not> bit bits (nat i))
    else g_bit_nth_lsf bits n = - 1"
    unfolding above g_bit_nth_lsf_def k_def[symmetric] by (rule lsf_loop_finds)
  show "let top = (if n < 0 \<or> 64 < n then 64 else n)
    in if \<exists>i. 0 \<le> i \<and> i < top \<and> bit bits (nat i)
       then 0 \<le> g_bit_nth_msf bits n \<and> g_bit_nth_msf bits n < top \<and> bit bits (nat (g_bit_nth_msf bits n)) \<and>
         (\<forall>i. g_bit_nth_msf bits n < i \<and> i < top \<longrightarrow> \<not> bit bits (nat i))
       else g_bit_nth_msf bits n = - 1"
  proof -
    define top where "top = (if n < 0 \<or> 64 < n then 64 else n)"
    have "g_bit_nth_msf bits n = msf_loop bits top" by (simp add: g_bit_nth_msf_def top_def GLIB_SIZEOF_LONG_def)
    moreover have "top \<le> 64" by (simp add: top_def)
    note msf_loop_finds[OF this, of bits]
    ultimately show ?thesis by (simp only: Let_def top_def[symmetric])
  qed
qed

section \<open>How many bits a number needs\<close>

lemma storage_loop_counts:
  "unat number < 2 ^ k \<Longrightarrow> (k = 1 \<or> 2 ^ (k - 1) \<le> unat number) \<Longrightarrow> 0 < k \<Longrightarrow>
     storage_loop n_bits number = n_bits + of_nat k"
proof (induction n_bits number arbitrary: k rule: storage_loop.induct)
  case (1 n_bits number)
  have half: "unat (drop_bit 1 number) = unat number div 2" by (simp add: drop_bit_Suc unat_div)
  show ?case
  proof (cases "k = 1")
    case True
    then have "drop_bit 1 number = 0" using 1(2) half by (simp add: unat_eq_zero[symmetric] del: unat_eq_zero)
    then show ?thesis using True by (subst storage_loop.simps) (simp add: Let_def)
  next
    case False
    then obtain j where k: "k = Suc (Suc j)" using 1(4) by (metis One_nat_def not0_implies_Suc not_gr_zero)
    have big: "2 ^ Suc j \<le> unat number" using 1(3) False by (simp add: k)
    then have "2 ^ j \<le> unat number div 2" by simp
    moreover from this have "0 < unat number div 2" by (rule less_le_trans[rotated]) simp
    ultimately have "drop_bit 1 number \<noteq> 0" "2 ^ j \<le> unat (drop_bit 1 number)"
      unfolding half[symmetric] by (auto simp: unat_gt_0)
    moreover have "unat (drop_bit 1 number) < 2 ^ Suc j" unfolding half using 1(2) by (simp add: k)
    ultimately have "storage_loop (n_bits + 1) (drop_bit 1 number) = n_bits + 1 + of_nat (Suc j)"
      using 1(1)[OF refl refl, of "Suc j"] by simp
    then show ?thesis using \<open>drop_bit 1 number \<noteq> 0\<close>
      by (subst storage_loop.simps) (simp add: Let_def k algebra_simps)
  qed
qed

lemma storage_exists:
  obtains k where "0 < k" "k \<le> 64" "unat (number :: guint64) < 2 ^ k" "k = 1 \<or> 2 ^ (k - 1) \<le> unat number"
proof -
  define P where "P = (\<lambda>k. 0 < k \<and> unat number < 2 ^ k)"
  define k where "k = Least P"
  have top: "P 64" using unsigned_less[of number] by (simp add: P_def)
  then have k: "P k" unfolding k_def by (rule LeastI)
  have "k \<le> 64" unfolding k_def using top by (rule Least_le)
  moreover have "k - 1 < Least P" unfolding k_def[symmetric] using k by (simp add: P_def)
  then have least: "\<not> P (k - 1)" by (rule not_less_Least)
  have "k = 1 \<or> 2 ^ (k - 1) \<le> unat number"
  proof (cases "k = 1")
    case False
    then have "0 < k - 1" using k unfolding P_def by linarith
    then have "2 ^ (k - 1) \<le> unat number" using least by (simp only: P_def simp_thms not_less)
    then show ?thesis by (rule disjI2)
  qed (rule disjI1)
  ultimately show ?thesis using that[of k] k by (simp only: P_def simp_thms)
qed

lemma small_unat: "m \<le> 64 \<Longrightarrow> unat (of_nat m :: guint32) = m"
  by (simp add: unat_of_nat)

lemma xor_complements:
  assumes "z < 64"
  shows "(63 :: guint32) XOR of_nat z = of_nat (63 - z)"
proof -
  let ?w = "of_nat z :: guint32"
  have mask: "(63 :: guint32) = Bit_Operations.mask 6" by (simp add: mask_eq_exp_minus_1)
  have small: "n < 6" if "bit z n" for n
    using assms that bit_take_bit_iff[of 6 z n] by (simp add: take_bit_nat_eq_self)
  have "(63 XOR ?w) + ?w = (63 XOR ?w) OR ?w"
    unfolding mask by (rule disjunctive_add_eq_or, rule bit_word_eqI) (auto simp: bit_simps dest: small)
  also have "\<dots> = 63"
    unfolding mask by (rule bit_word_eqI) (auto simp: bit_simps dest: small)
  finally have "(63 XOR ?w) = 63 - ?w" by (simp add: eq_diff_eq)
  then show ?thesis using assms by (simp add: of_nat_diff)
qed

text \<open>
  C25. \<open>g_bit_storage\<close> counts what a number needs: the number fits in that many bits and, unless that is one, in no
  fewer; and the version for the compiler's count of leading zeros gives the same.
\<close>

theorem bit_storage:
  assumes "\<forall>n. n \<noteq> 0 \<longrightarrow> unat (clzl n) < 64 \<and> 2 ^ (63 - unat (clzl n)) \<le> unat n \<and> unat n < 2 ^ (64 - unat (clzl n))"
  shows "unat number < 2 ^ unat (g_bit_storage number) \<and>
    (g_bit_storage number = 1 \<or> 2 ^ (unat (g_bit_storage number) - 1) \<le> unat number) \<and>
    g_bit_storage_builtin clzl number = g_bit_storage number"
proof -
  obtain k where k: "0 < k" "k \<le> 64" "unat number < 2 ^ k" "k = 1 \<or> 2 ^ (k - 1) \<le> unat number"
    by (rule storage_exists)
  have loop: "g_bit_storage number = of_nat k"
    using storage_loop_counts[OF k(3,4,1), of 0] by (simp add: g_bit_storage_def)
  have unat_k: "unat (of_nat k :: guint32) = k" using k(2) by (rule small_unat)
  have "g_bit_storage_builtin clzl number = of_nat k"
  proof (cases "number = 0")
    case True
    then have "k = 1" using k(4) by (auto simp: not_le)
    then show ?thesis using True by (simp add: g_bit_storage_builtin_def)
  next
    case False
    define z where "z = unat (clzl number)"
    have z: "z < 64" "2 ^ (63 - z) \<le> unat number" "unat number < 2 ^ (64 - z)"
      using assms False by (simp_all add: z_def)
    have "storage_loop 0 number = of_nat (64 - z)"
      using storage_loop_counts[of number "64 - z" 0] z by simp
    then have "(of_nat k :: guint32) = of_nat (64 - z)" using loop by (simp only: g_bit_storage_def)
    moreover have "unat (of_nat (64 - z) :: guint32) = 64 - z" by (rule small_unat) (rule diff_le_self)
    ultimately have kz: "k = 64 - z" using unat_k by (simp only:)
    have clz: "clzl number = of_nat z" by (simp add: z_def)
    have "(63 :: guint32) XOR of_nat z = of_nat (63 - z)"
      using z(1) by (rule xor_complements)
    then have "g_bit_storage_builtin clzl number = of_nat (63 - z) + 1"
      using False by (simp only: g_bit_storage_builtin_def GLIB_SIZEOF_LONG_def clz if_True not_False_eq_True) simp
    also have "\<dots> = of_nat (Suc (63 - z))" by (simp only: of_nat_Suc add.commute)
    also have "Suc (63 - z) = k" using z(1) kz by linarith
    finally show ?thesis .
  qed
  then show ?thesis using k loop unat_k by auto
qed

text \<open>A count of leading zeros by the loop, for an example.\<close>

definition counted_zeros :: "guint64 \<Rightarrow> guint32" where
  "counted_zeros n = of_nat (64 - unat (g_bit_storage n))"

lemma counted_zeros_ok:
  assumes "n \<noteq> 0"
  shows "unat (counted_zeros n) < 64 \<and> 2 ^ (63 - unat (counted_zeros n)) \<le> unat n \<and>
    unat n < 2 ^ (64 - unat (counted_zeros n))"
proof -
  obtain k where k: "0 < k" "k \<le> 64" "unat n < 2 ^ k" "k = 1 \<or> 2 ^ (k - 1) \<le> unat n"
    by (rule storage_exists)
  have "unat (g_bit_storage n) = k"
    using storage_loop_counts[OF k(3,4,1), of 0] small_unat[OF k(2)] by (simp add: g_bit_storage_def)
  then have z: "unat (counted_zeros n) = 64 - k"
    unfolding counted_zeros_def using small_unat[of "64 - k"] by (simp only: diff_le_self)
  have "0 < unat n" using assms by (simp add: unat_gt_0)
  then have "2 ^ (k - 1) \<le> unat n" using k(4) by (elim disjE) simp_all
  moreover have "64 - k < 64" "63 - (64 - k) = k - 1" "64 - (64 - k) = k" using k(1,2) by linarith+
  ultimately show ?thesis unfolding z using k(3) by (simp only: simp_thms)
qed

theorem bit_storage_witness:
  "g_bit_storage_builtin counted_zeros 1000 = g_bit_storage 1000"
  using bit_storage[of counted_zeros 1000] counted_zeros_ok by blast

section \<open>What a string becomes\<close>

lemma fast_append:
  assumes "gs_ok s" "gs_len s + 1 < gs_allocated_len s"
  shows "gs_ok (g_string_append_c_inline ins s c) \<and> gs_text (g_string_append_c_inline ins s c) = gs_text s @ [c] \<and>
    gs_allocated_len (g_string_append_c_inline ins s c) = gs_allocated_len s"
proof -
  have less: "unat (gs_len s) < unat (gs_allocated_len s)" using assms(1) by (simp add: gs_ok_def word_less_nat_alt)
  have "unat (gs_allocated_len s) < 2 ^ 64" by (rule order.strict_trans2[OF unsigned_less]) simp
  then have next_len: "unat (gs_len s + 1) = Suc (unat (gs_len s))"
    using less by (simp add: unat_word_ariths)
  have room: "Suc (unat (gs_len s)) < unat (gs_allocated_len s)"
    using assms(2) by (simp add: word_less_nat_alt next_len)
  have "take (Suc (unat (gs_len s))) ((gs_str s)[unat (gs_len s) := c, Suc (unat (gs_len s)) := 0]) =
      take (unat (gs_len s)) (gs_str s) @ [c]"
    using assms(1) room by (simp add: gs_ok_def take_Suc_conv_app_nth)
  then show ?thesis using assms room
    by (simp add: g_string_append_c_inline_def gs_ok_def gs_text_def next_len Let_def)
qed

text \<open>
  Appending characters one by one gives the string with the characters behind it, terminated, whether or not the
  buffer has to be enlarged on the way, provided the library's insertion appends its character.
\<close>

theorem string_appends:
  assumes "gs_ok s" "\<And>t c. gs_ok t \<Longrightarrow> gs_len t + 1 = gs_allocated_len t \<Longrightarrow> gs_ok (ins t c) \<and> gs_text (ins t c) = gs_text t @ [c]"
  shows "gs_ok (fold (\<lambda>c s. g_string_append_c_inline ins s c) cs s) \<and>
    gs_text (fold (\<lambda>c s. g_string_append_c_inline ins s c) cs s) = gs_text s @ cs"
  using assms(1)
proof (induction cs arbitrary: s)
  case (Cons c cs)
  have "gs_ok (g_string_append_c_inline ins s c) \<and> gs_text (g_string_append_c_inline ins s c) = gs_text s @ [c]"
  proof (cases "gs_len s + 1 < gs_allocated_len s")
    case True
    then show ?thesis using fast_append[OF Cons.prems] by blast
  next
    case False
    have "gs_len s + 1 \<le> gs_allocated_len s" using Cons.prems by (simp add: gs_ok_def inc_le)
    then have "gs_len s + 1 = gs_allocated_len s" using False by simp
    from assms(2)[OF Cons.prems this] show ?thesis using False by (simp add: g_string_append_c_inline_def)
  qed
  then show ?case using Cons.IH[of "g_string_append_c_inline ins s c"] by simp
qed simp

section \<open>The setter by hand\<close>

text \<open>
  \<open>setSpiceMain:\<close> of \<^verbatim>\<open>CSChannel.m\<close> is \<^verbatim>\<open>g_set_object\<close> written out: as long as the old object is kept, both leave every
  object with the same references and handlers, the library's without touching an object that stays.
\<close>

theorem setter_is_g_set_object:
  assumes "\<And>m. old = Some m \<Longrightarrow> 0 < go_refs (h m)"
  shows "super_setSpiceMain old new h = snd (snd (g_set_object old new h))"
proof (cases "old = new")
  case True
  have "h(m := g_object_unref (g_object_ref (h m))) = h" if "0 < go_refs (h m)" for m
    using that by (simp add: g_object_ref_def g_object_unref_def)
  then show ?thesis using True assms
    by (cases new) (simp_all add: super_setSpiceMain_def g_set_object_def)
next
  case False
  then show ?thesis by (simp add: super_setSpiceMain_def g_set_object_def Let_def split: option.split)
qed

end
