(* ===== verification/Sharing.thy ===== *)
theory Sharing
  imports Session "HOL-Library.Sublist"
begin

text \<open>
  \<^verbatim>\<open>CSSession+Sharing.m\<close>: the directory that is shared with the guest when the user has chosen none, and the note
  placed in it, over a file system of directories and files.  Shown: whatever was there, the directory and a note
  are there afterwards, a note that was there is kept, nothing else is touched, and doing it again changes nothing.
\<close>

section \<open>The file system\<close>

text \<open>A path is the list of its components from the root.\<close>

datatype file_node = Directory | Regular string

type_synonym path = "string list"
type_synonym file_system = "path \<rightharpoonup> file_node"

definition well_formed_fs :: "file_system \<Rightarrow> bool" where
  "well_formed_fs fs \<longleftrightarrow> (\<forall>p c. fs (p @ [c]) \<noteq> None \<longrightarrow> fs p = Some Directory)"

text \<open>
  Foundation's operations; each fails without an effect where the system refuses it (\<open>may\<close>) or its documented
  conditions do not hold.  Removing a directory removes what is in it.
\<close>

definition fileExistsAtPath :: "file_system \<Rightarrow> path \<Rightarrow> bool \<times> bool" where
  "fileExistsAtPath fs p = (fs p \<noteq> None, fs p = Some Directory)"

definition removeItemAtURL :: "(path \<Rightarrow> bool) \<Rightarrow> path \<Rightarrow> file_system \<Rightarrow> file_system" where
  "removeItemAtURL may p fs = (if may p then (\<lambda>q. if prefix p q then None else fs q) else fs)"

definition createDirectoryAtURL :: "(path \<Rightarrow> bool) \<Rightarrow> path \<Rightarrow> file_system \<Rightarrow> file_system" where
  "createDirectoryAtURL may p fs =
     (if may p \<and> fs p = None \<and> fs (butlast p) = Some Directory then fs(p \<mapsto> Directory) else fs)"

definition writeToURL :: "(path \<Rightarrow> bool) \<Rightarrow> string \<Rightarrow> path \<Rightarrow> file_system \<Rightarrow> file_system" where
  "writeToURL may contents p fs =
     (if may p \<and> fs p \<noteq> Some Directory \<and> fs (butlast p) = Some Directory then fs(p \<mapsto> Regular contents) else fs)"

section \<open>The shared directory\<close>

definition kDefaultShareReadme :: string where
  "kDefaultShareReadme =
     ''You have not selected a shared directory. This is a temporary directory '' @
     ''that can be deleted at any time. You can access these files on the host '' @
     ''at ~/Documents/Public relative to UTM's sandbox (if enabled). To select a '' @
     ''permanent shared directory, shut down the VM and select a shared '' @
     ''directory from the VM details screen.''"

definition defaultPublicShare :: "(path \<Rightarrow> bool) \<Rightarrow> path \<Rightarrow> file_system \<Rightarrow> path \<times> file_system" where
  "defaultPublicShare may documents fs =
     (let publicShare = documents @ [''Public''];
          (exists, isDir) = fileExistsAtPath fs publicShare;
          fs = (if \<not> exists \<or> \<not> isDir
                then createDirectoryAtURL may publicShare (removeItemAtURL may publicShare fs) else fs)
      in (publicShare, fs))"

definition createDefaultShareReadme :: "(path \<Rightarrow> bool) \<Rightarrow> path \<Rightarrow> file_system \<Rightarrow> file_system" where
  "createDefaultShareReadme may documents fs =
     (let (share, fs) = defaultPublicShare may documents fs;
          readme = share @ [''README.txt'']
      in if \<not> fst (fileExistsAtPath fs readme) then writeToURL may kDefaultShareReadme readme fs else fs)"

definition path_string :: "path \<Rightarrow> string" where
  "path_string p = concat (map (\<lambda>c. ''/'' @ c) p)"

text \<open>\<open>initWithSession:\<close> creates the note and shares the directory for writing, then takes the session's channels.\<close>

definition sessionSharingByDefault ::
  "(path \<Rightarrow> bool) \<Rightarrow> path \<Rightarrow> objref \<Rightarrow> (bool \<times> objref) list \<Rightarrow> file_system \<Rightarrow> cs_session \<times> file_system" where
  "sessionSharingByDefault may documents session channels fs =
     (let fs = createDefaultShareReadme may documents fs;
          (share, fs) = defaultPublicShare may documents fs
      in (initWithSession (path_string share) session channels, fs))"

section \<open>What is there afterwards\<close>

lemma below_none:
  assumes "well_formed_fs fs" "fs p \<noteq> Some Directory" "strict_prefix p q"
  shows "fs q = None"
proof -
  obtain r where q: "q = p @ r" "r \<noteq> []" using assms(3) by (auto simp: strict_prefix_def prefix_def)
  from q(2) have "fs (p @ r) = None"
  proof (induction r rule: rev_induct)
    case (snoc c r)
    have "fs (p @ r) \<noteq> Some Directory" using snoc.IH assms(2) by (cases "r = []") auto
    then show ?case using assms(1) using assms(1)[unfolded well_formed_fs_def, rule_format, of "p @ r" c] by (metis append_assoc)
  qed simp
  then show ?thesis by (simp add: q(1))
qed

lemma share_prepared:
  assumes "fs documents = Some Directory" "may (documents @ [''Public''])" "well_formed_fs fs"
  shows "defaultPublicShare may documents fs =
    (documents @ [''Public''], fs(documents @ [''Public''] \<mapsto> Directory))"
proof (cases "fs (documents @ [''Public'']) = Some Directory")
  case True
  then show ?thesis by (simp add: defaultPublicShare_def fileExistsAtPath_def fun_upd_idem)
next
  case False
  let ?p = "documents @ [''Public'']"
  have gone: "removeItemAtURL may ?p fs = fs(?p := None)"
  proof
    fix q
    show "removeItemAtURL may ?p fs q = (fs(?p := None)) q"
      using assms(2) below_none[OF assms(3) False, of q]
      by (cases "prefix ?p q") (auto simp: removeItemAtURL_def strict_prefix_def)
  qed
  have "createDirectoryAtURL may ?p (fs(?p := None)) = fs(?p \<mapsto> Directory)"
    using assms(1,2) by (simp add: createDirectoryAtURL_def)
  then show ?thesis using False by (simp add: defaultPublicShare_def fileExistsAtPath_def gone Let_def)
qed

lemma well_formed_upd:
  "well_formed_fs fs \<Longrightarrow> fs documents = Some Directory \<Longrightarrow> well_formed_fs (fs(documents @ [c] \<mapsto> Directory))"
  by (auto simp: well_formed_fs_def)

lemma channels_keep_share: "shared_dir (fold (\<lambda>(is_main, ch). session_channel_new is_main ch) channels self) = shared_dir self"
  by (induction channels arbitrary: self) (auto simp: session_channel_new_def Let_def)

text \<open>
  C32. The default share: when the documents directory is there and may be written, then a session that was initialised
  shares the directory \<open>Public\<close> for writing, which is a directory and has a note; a note that was there is kept, a
  file that stood in the directory's place is replaced, every other path is as before, and initialising another
  session changes nothing more.
\<close>

theorem default_share_ready:
  assumes "well_formed_fs fs" "fs documents = Some Directory" "\<forall>p. prefix documents p \<longrightarrow> may p"
    and "share = documents @ [''Public'']" "fs' = snd (sessionSharingByDefault may documents session channels fs)"
  shows "fs' = fs(share \<mapsto> Directory, share @ [''README.txt''] \<mapsto>
      (case fs (share @ [''README.txt'']) of Some note \<Rightarrow> note | None \<Rightarrow> Regular kDefaultShareReadme)) \<and>
    shared_dir (fst (sessionSharingByDefault may documents session channels fs)) = Some (path_string share, False) \<and>
    snd (sessionSharingByDefault may documents other others fs') = fs'"
proof -
  let ?note = "share @ [''README.txt'']"
  let ?g = "\<lambda>fs. fs(share \<mapsto> Directory, ?note \<mapsto>
      (case fs ?note of Some note \<Rightarrow> note | None \<Rightarrow> Regular kDefaultShareReadme)) :: file_system"
  have once: "sessionSharingByDefault may documents s cs fs = (initWithSession (path_string share) s cs, ?g fs)"
    if wf: "well_formed_fs fs" and docs: "fs documents = Some Directory" for fs s cs
  proof -
    have may: "may (documents @ [''Public''])" "may ?note" using assms(3,4) by simp_all
    have created: "createDefaultShareReadme may documents fs = ?g fs"
      using may by (auto simp: createDefaultShareReadme_def share_prepared[where may = may, OF docs may(1) wf]
          fileExistsAtPath_def writeToURL_def butlast_append fun_upd_idem_iff Let_def assms(4) split: option.split)
    have "?g fs share = Some Directory" using assms(4) by simp
    then have "defaultPublicShare may documents (?g fs) = (share, ?g fs)"
      by (simp add: defaultPublicShare_def fileExistsAtPath_def assms(4) Let_def)
    then show ?thesis by (simp add: sessionSharingByDefault_def created)
  qed
  have fs': "fs' = ?g fs" using once[OF assms(1,2)] by (simp add: assms(5))
  have "snd (sessionSharingByDefault may documents other others (?g fs)) = ?g fs"
    by (subst once) (use assms(1,2,4) in \<open>auto simp: well_formed_fs_def fun_eq_iff split: option.split\<close>)
  moreover have "shared_dir (initWithSession (path_string share) session channels) = Some (path_string share, False)"
    by (simp add: initWithSession_def channels_keep_share setSharedDirectory_def)
  ultimately show ?thesis unfolding fs' once[OF assms(1,2)] fst_conv by blast
qed

definition sample_fs :: file_system where
  "sample_fs = [[] \<mapsto> Directory, [''Documents''] \<mapsto> Directory, [''Documents'', ''Public''] \<mapsto> Regular ''old'']"

theorem default_share_ready_witness:
  "snd (sessionSharingByDefault (\<lambda>_. True) [''Documents''] 3 [] sample_fs)
     [''Documents'', ''Public'', ''README.txt''] = Some (Regular kDefaultShareReadme)"
proof -
  have wf: "well_formed_fs sample_fs"
    by (auto simp: well_formed_fs_def sample_fs_def append_eq_Cons_conv)
  show ?thesis
    using default_share_ready[OF wf, of "[''Documents'']" "\<lambda>_. True", OF _ _ refl refl]
    by (simp add: sample_fs_def)
qed

end
