(* ===== verification/Main_Shared.thy ===== *)
theory Main_Shared
  imports Main_Context
begin

text \<open>
  The rest of \<^verbatim>\<open>CSMain.m\<close>: the shared instance and the log handler the library calls, and the launchers under
  \<^verbatim>\<open>Tools\<close>.  Shown: every caller gets the one instance that was made, and the handler the library holds is one
  that is kept, except while it is being replaced.
\<close>

section \<open>The shared instance\<close>

text \<open>
  \<open>dispatch_once\<close>: \<open>None\<close> before the first call, then what \<open>init\<close> gave, which may be \<open>nil\<close>.  \<open>made\<close> counts the
  instances.
\<close>

record 'a shared_main =
  once_result :: "'a option option"
  made :: nat

definition sharedInstance :: "'a option \<Rightarrow> 'a shared_main \<Rightarrow> 'a option \<times> 'a shared_main" where
  "sharedInstance new_main s =
     (case once_result s of
        Some instance \<Rightarrow> (instance, s)
      | None \<Rightarrow> (new_main, s\<lparr>once_result := Some new_main, made := made s + 1\<rparr>))"

text \<open>Calls that would each make their own instance, and their answers.\<close>

primrec ask_shared :: "'a option list \<Rightarrow> 'a shared_main \<Rightarrow> 'a option list \<times> 'a shared_main" where
  "ask_shared [] s = ([], s)"
| "ask_shared (m # ms) s = (let (a, s) = sharedInstance m s; (as, s) = ask_shared ms s in (a # as, s))"

section \<open>The log handler\<close>

text \<open>
  The block the object keeps, and what GLib calls: the object's function with a bare pointer to a block, or GLib's
  own.
\<close>

datatype log_function = Own_log_handler "objref option" | Glib_log_handler

record log_state =
  kept_block :: "objref option"
  default_handler :: log_function
  spice_debug :: bool

definition log_init :: "log_state \<Rightarrow> log_state" where
  "log_init s = s\<lparr>kept_block := None, default_handler := Own_log_handler None\<rparr>"

definition assign_log_handler :: "objref option \<Rightarrow> log_state \<Rightarrow> log_state" where
  "assign_log_handler new s = s\<lparr>kept_block := new\<rparr>"

definition register_log_handler :: "objref option \<Rightarrow> log_state \<Rightarrow> log_state" where
  "register_log_handler new s = s\<lparr>default_handler := Own_log_handler new\<rparr>"

definition setLogHandler :: "objref option \<Rightarrow> log_state \<Rightarrow> log_state" where
  "setLogHandler new s = register_log_handler new (assign_log_handler new s)"

definition log_dealloc :: "log_state \<Rightarrow> log_state" where
  "log_dealloc s = s\<lparr>kept_block := None, default_handler := Glib_log_handler\<rparr>"

definition spiceSetDebug :: "bool \<Rightarrow> log_state \<Rightarrow> log_state" where
  "spiceSetDebug enabled s = s\<lparr>spice_debug := enabled\<rparr>"

text \<open>A message would reach a block nobody keeps.\<close>

definition log_dangles :: "log_state \<Rightarrow> bool" where
  "log_dangles s \<longleftrightarrow>
     (case default_handler s of Own_log_handler (Some b) \<Rightarrow> kept_block s \<noteq> Some b | _ \<Rightarrow> False)"

section \<open>The launchers\<close>

text \<open>
  \<^verbatim>\<open>Tools/UTMQEMULauncher/main.c\<close>, \<^verbatim>\<open>Tools/UTMQEMUARM64Launcher/main.c\<close> and \<^verbatim>\<open>Tools/UTMSWTPMLauncher/main.c\<close>, over
  the functions of the other programs.
\<close>

record 'w qemu_program =
  qemu_init :: "int \<Rightarrow> string list \<Rightarrow> 'w \<Rightarrow> 'w"
  qemu_main_loop :: "'w \<Rightarrow> int \<times> 'w"
  qemu_cleanup :: "'w \<Rightarrow> 'w"

definition qemu_launcher_main :: "'w qemu_program \<Rightarrow> int \<Rightarrow> string list \<Rightarrow> 'w \<Rightarrow> int \<times> 'w" where
  "qemu_launcher_main qemu argc argv w =
     (let w = qemu_init qemu argc argv w; (status, w) = qemu_main_loop qemu w; w = qemu_cleanup qemu w in (status, w))"

definition qemu_arm64_launcher_main :: "'w qemu_program \<Rightarrow> int \<Rightarrow> string list \<Rightarrow> 'w \<Rightarrow> int \<times> 'w" where
  "qemu_arm64_launcher_main qemu argc argv w =
     (let w = qemu_init qemu argc argv w; (status, w) = qemu_main_loop qemu w; w = qemu_cleanup qemu w in (status, w))"

definition swtpm_launcher_main ::
  "(int \<Rightarrow> string list \<Rightarrow> string \<Rightarrow> string \<Rightarrow> 'w \<Rightarrow> int \<times> 'w) \<Rightarrow> int \<Rightarrow> string list \<Rightarrow> 'w \<Rightarrow> int \<times> 'w" where
  "swtpm_launcher_main swtpm_main argc argv w = swtpm_main argc argv ''swtpm'' ''socket'' w"

section \<open>One instance, and a handler that is kept\<close>

lemma ask_shared_done:
  "once_result s = Some m \<Longrightarrow> ask_shared ms s = (replicate (length ms) m, s)"
  by (induction ms) (simp_all add: sharedInstance_def)

text \<open>
  Whoever asks, and whatever their own call would have made, all get the instance of the first call, and no other
  is made; if that one failed to initialise, all get \<open>nil\<close> ever after.
\<close>

theorem one_shared_instance:
  assumes "once_result s = None"
  shows "fst (ask_shared (m # ms) s) = replicate (Suc (length ms)) m \<and> made (snd (ask_shared (m # ms) s)) = made s + 1"
  using assms by (simp add: sharedInstance_def ask_shared_done)

datatype log_call = Set_log_handler "objref option" | Set_debug bool

primrec log_called :: "log_call \<Rightarrow> log_state \<Rightarrow> log_state" where
  "log_called (Set_log_handler new) s = setLogHandler new s"
| "log_called (Set_debug enabled) s = spiceSetDebug enabled s"

lemma log_called_kept: "\<not> log_dangles s \<Longrightarrow> \<not> log_dangles (log_called c s)"
  by (cases c)
    (auto simp: log_dangles_def setLogHandler_def assign_log_handler_def register_log_handler_def spiceSetDebug_def
      split: log_function.split option.split)

text \<open>
  From the initialisation to the release, after each complete call, a message of the library reaches a block that is
  kept or none.  Within \<open>setLogHandler:\<close> it does not: the old block is given up first, and until the new one is
  registered a message from another thread reaches the old one, if it was another.
\<close>

theorem log_handler_kept:
  "\<not> log_dangles (fold log_called history (log_init s)) \<and>
   \<not> log_dangles (log_dealloc (fold log_called history (log_init s))) \<and>
   (log_dangles (assign_log_handler new (setLogHandler old s)) \<longleftrightarrow> old \<noteq> None \<and> new \<noteq> old)"
proof -
  have "\<not> log_dangles (fold log_called history t)" if "\<not> log_dangles t" for t
    using that by (induction history arbitrary: t) (simp_all add: log_called_kept)
  then show ?thesis
    by (auto simp: log_dangles_def log_init_def log_dealloc_def setLogHandler_def assign_log_handler_def
        register_log_handler_def split: option.split)
qed

end
