(* ===== verification/Spec2Isabelle.thy ===== *)
theory Spec2Isabelle
  imports Main_Context Wire Input_Keys Input_Mouse Port Session Display_Canvas Display_Scanout Cursor Connection_Registry
    Bit_Writer Byte_Reader Byte_Writer Spice_Ring Spice_Wire Spice_Macros Audio Usb Notify_Queue Libusb Gst_Init
    Wrapper_Life Wrapper_Properties Glib_Inline Sharing Main_Shared
begin

text \<open>
  A verification development for the C and Objective-C code of SimpleVM: the package CocoaSpice
  (\<^verbatim>\<open>Packages/CocoaSpice/Sources\<close>), which shows and controls a virtual machine over the SPICE protocol,
  and the inline C of the headers the package carries with it.

  \<^bold>\<open>How the program works.\<close>  One worker thread (\<^verbatim>\<open>CSMain.m\<close>) owns the GLib main context in which the SPICE
  client library runs.  \<^verbatim>\<open>CSConnection.m\<close> wraps each channel the library announces: the display
  (\<^verbatim>\<open>CSDisplay.m\<close>, \<^verbatim>\<open>CSDisplay+Renderer.m\<close>), the pointer (\<^verbatim>\<open>CSCursor.m\<close>), the inputs (\<^verbatim>\<open>CSInput.m\<close>), the ports
  (\<^verbatim>\<open>CSPort.m\<close>), the clipboard and the shared folder (\<^verbatim>\<open>CSSession.m\<close>), sound (\<^verbatim>\<open>CSAudioPlayback.m\<close>) and USB
  redirection (\<^verbatim>\<open>CSUSBManager.m\<close>, \<^verbatim>\<open>CSUSBDevice.m\<close>).  Signals of the library arrive on the worker; methods
  called elsewhere post a block to it with \<open>asyncWith:\<close>, or wait for one with \<open>syncWith:\<close>.  Pictures go
  from the display to the views through \<^verbatim>\<open>CSMetalRenderer.m\<close> on the main thread and the GPU.

  \<^bold>\<open>How it is modelled.\<close>  An object is a record with the fields of its class; a handler or method is a function
  from the record to the new record and the list of calls it makes, in order.  A wrapper lives in a
  \<open>world\<close> (theory Main_Context): the object, the blocks posted to the context and the calls made so
  far.  \<open>asyncWith\<close> runs a block at once on the context thread and queues it elsewhere, \<open>dispatch\<close> runs the
  next one.  What can happen in any order is an inductive reachability predicate per component.  Library
  code (the SPICE client, GLib, Metal, CoreGraphics, libusb, the audio engine, \<open>realloc\<close>) is a
  parameter; where its documented behaviour matters it is a named hypothesis.  Machine integers are
  words; the 64-bit geometry is rational numbers; a null pointer is \<open>None\<close>; a failed assertion, a
  blocking lock and an error are values of the result.  Macros and inline functions that the C headers generate
  for every width are one definition each, over a memory of bytes.

  \<^bold>\<open>The theories.\<close>
  \<^item> Prelude: machine types, truncating conversions, arrays of 32-bit words as bit sets (the locale
    \<open>bitmap_set\<close>, used for pressed keys and agent capabilities), collections of rewrite rules.
  \<^item> Main_Context: the worker thread, the sources of its context by priority, \<open>syncWith:\<close>, the log handler;
    the locale \<open>context_client\<close> says that what every block keeps is kept by the scheduler, and each
    wrapper interprets it.
  \<^item> Main_Shared: the shared instance and the log handler of \<^verbatim>\<open>CSMain.m\<close>, and the launchers under \<^verbatim>\<open>Tools\<close>.
  \<^item> Signals: references and signal handlers of the library's objects, with the contract of a wrapper: what its
    initialiser attaches its \<open>dealloc\<close> detaches (the locale \<open>signal_wrapper\<close>, interpreted by every class).
    Wrapper_Life: the classes, and all histories of any number of wrappers on any objects.
    Wrapper_Properties: the small methods the wrappers forward to the library, and \<^verbatim>\<open>CSScreenshot.m\<close>.
  \<^item> Wire: the protocol's numbers the wrappers use, as datatypes, with the locale of coded enumerations.
  \<^item> Input, Input_Keys, Input_Mouse: keyboard, key locks, pointer, buttons, scrolling.  The array of pressed
    keys refines the set of keys the guest was told are down.
  \<^item> Port: the serial queue and the cache of 4096 bytes.
  \<^item> Newlines, Session: line-end conversion against two reference conversions, and the clipboard.
    Sharing (\<^verbatim>\<open>CSSession+Sharing.m\<close>): the folder shared by default, over a file system.
  \<^item> Geometry, Fan_Out, Metal_Renderer, Display, Display_Canvas, Display_Scanout, Cursor: pictures.  Damage is not lost,
    draws of the server are acknowledged once, completions run once, the private copy follows the
    scanout, the cursor's hotspot lands on its pixel.
  \<^item> Connection, Connection_Registry: the registry of channels over all histories.
  \<^item> Audio: the playback channel and the recovery of the host's engine.
  \<^item> Usb, Usb_Manager: devices, their names and equality, the requests to the manager, its signals.
  \<^item> Gst_Init (\<^verbatim>\<open>gst_ios_init.m\<close>): the environment and the plugins GStreamer starts with, and their stubs.
  \<^item> Glib_Inline (\<^verbatim>\<open>gutils.h\<close>, \<^verbatim>\<open>gstring.h\<close>, \<^verbatim>\<open>gobject.h\<close>): bit searches, appending to a string, \<^verbatim>\<open>g_set_object\<close>.
  \<^item> Notify_Queue: \<^verbatim>\<open>gobjectnotifyqueue.c\<close> as a refinement of a freeze depth and a set of properties.
  \<^item> Byte_Order (\<^verbatim>\<open>gtypes.h\<close>, \<^verbatim>\<open>glibconfig.h\<close>), Gst_Utils (\<^verbatim>\<open>gstutils.h\<close>), Byte_Reader, Byte_Writer, Bit_Reader,
    Bit_Writer (\<^verbatim>\<open>gst/base\<close>): byte order, memory access, and the readers and writers, which
    are shown to read back what was written on any two platforms.
  \<^item> Spice_Ring (\<^verbatim>\<open>ipc_ring.h\<close>): producer and consumer as a step relation over single memory accesses.
  \<^item> C_Layout, C_Enum: how C lays out structures under both ways of packing and numbers enumerations; the locale
    \<open>wire_enum\<close> decodes what was encoded.
  \<^item> Qxl_Device (\<^verbatim>\<open>qxl_dev.h\<close>), Spice_Enums (\<^verbatim>\<open>enums.h\<close>), Spice_Protocol (\<^verbatim>\<open>protocol.h\<close>, \<^verbatim>\<open>stats.h\<close>), Agent_Protocol
    (\<^verbatim>\<open>vd_agent.h\<close>), Stream_Device (\<^verbatim>\<open>stream-device.h\<close>): the structures and numbers of the SPICE headers in their
    order; Spice_Wire composes them: one layout for every compiler, members and numbers exchanged.
  \<^item> Spice_Macros (\<^verbatim>\<open>macros.h\<close>): byte swaps, detection of the byte order, magic numbers, members.
  \<^item> Libusb (\<^verbatim>\<open>libusb.h\<close>): the inline functions: setup packets, the filling of transfers, isochronous packets.

  \<^bold>\<open>Bounds and termination.\<close>  No model uses fuel.  Loops are total functions with their measures: the
  doubling of a buffer's size ends when the word overflows to zero, the bit loops consume their count, the
  conversion of line ends its input, the smooth scrolling its distance.  Settling and draining run exactly what
  is posted.  Where a counter of the code has a width, the theorem says up to where it holds: 65535
  notifications, 512 key codes, 4096 cached bytes, blocks below 2 to the 29 bytes for the bit reader.

  \<^bold>\<open>What holds and what does not.\<close>  Most theorems state what the code means to do.  Some state what it does instead,
  as theorems of their own, among them: a start in an unsupported audio format that a configuration
  change revives (Audio), a device without a serial number that is unequal to itself and a request
  that outlives its device (Usb), a full notification queue that keeps the lock (Notify_Queue), a
  writer that believes a failed allocation (Byte_Writer), a draw forgotten by the busy flag and a
  stale private copy (Display_Canvas, Display_Scanout), a log handler the library may call while it is being
  replaced (Main_Shared), a screenshot without an image (Wrapper_Properties), capability words counted from a short
  message (Agent_Protocol).

  \<^bold>\<open>Not modelled.\<close>  The remaining external headers declare functions and types of libraries whose code is not in
  the repository.  The Swift application, the Metal shaders and the Python guest tools are in other
  languages.  Of the modelled files, debug output and the format of log lines, the creation of Metal pipelines, the
  display's empty handlers, the conversion of GL pixels for a screenshot and the writing of one on macOS, which
  only calls AppKit, are left out.
\<close>

end
